(* ===== verification/Js_Prelude.thy ===== *)
theory Js_Prelude
  imports Main "HOL-Library.AList" "HOL-Library.Word"
begin

text \<open>
  What every component of the telepty model shares: the JavaScript values and library calls the
  source uses (insertion-ordered \<open>Map\<close> objects, \<open>Array.prototype\<close> folds, \<open>Number\<close> range
  checks, 32-bit shifts, string predicates), the interfaces several components rely on, as
  locales with an interpretation on the model's own definitions, and generic lemmas.

  Conventions of the whole development. Strings are \<open>string\<close>, one \<open>char\<close> per UTF-16 code unit
  below 256 (the theories that match glyphs beyond Latin-1 use lists of code units instead).
  Integer-valued numbers are \<open>int\<close>; \<open>undefined\<close> and \<open>null\<close> are \<open>None\<close>; a thrown error is the
  \<open>Inl\<close> of a sum. A wall-clock reading is an argument of the operation that takes it, and an
  operation that reads the clock twice in one synchronous call is given one reading.
\<close>

named_theorems js_simps \<open>evaluation of the JavaScript library model\<close>
named_theorems js_keeps \<open>an operation keeps a component invariant\<close>

section \<open>Insertion-ordered maps\<close>

text \<open>
  A JavaScript \<open>Map\<close> iterates in insertion order, and \<open>set\<close> on a present key keeps the key's
  place. That is an association list with the library's \<open>AList.update\<close>.
\<close>

type_synonym ('k, 'v) jsmap = "('k \<times> 'v) list"

abbreviation jm_get :: "('k, 'v) jsmap \<Rightarrow> 'k \<Rightarrow> 'v option" where
  "jm_get \<equiv> map_of"

abbreviation jm_set :: "'k \<Rightarrow> 'v \<Rightarrow> ('k, 'v) jsmap \<Rightarrow> ('k, 'v) jsmap" where
  "jm_set \<equiv> AList.update"

abbreviation jm_delete :: "'k \<Rightarrow> ('k, 'v) jsmap \<Rightarrow> ('k, 'v) jsmap" where
  "jm_delete \<equiv> AList.delete"

definition jm_has :: "('k, 'v) jsmap \<Rightarrow> 'k \<Rightarrow> bool" where
  "jm_has m k \<longleftrightarrow> map_of m k \<noteq> None"

text \<open>
  \<open>jm_collect key xs\<close> is the loop \<open>for (const x of xs) map.set(key(x), x)\<close>: the last element
  of each key wins, and the keys come in the order of their first element.
\<close>

definition jm_collect :: "('a \<Rightarrow> 'k) \<Rightarrow> 'a list \<Rightarrow> ('k, 'a) jsmap" where
  "jm_collect key xs = fold (\<lambda>x m. jm_set (key x) x m) xs []"

lemma jm_collect_Nil [simp]: "jm_collect key [] = []"
  by (simp add: jm_collect_def)

lemma jm_collect_snoc [simp]:
  "jm_collect key (xs @ [x]) = jm_set (key x) x (jm_collect key xs)"
  by (simp add: jm_collect_def)

lemma distinct_jm_set [intro]: "distinct (map fst m) \<Longrightarrow> distinct (map fst (jm_set k v m))"
  by (rule distinct_update)

lemma distinct_jm_collect [simp, intro]: "distinct (map fst (jm_collect key xs))"
  by (induction xs rule: rev_induct) auto

lemma jm_get_set [simp]: "jm_get (jm_set k v m) k' = (if k' = k then Some v else jm_get m k')"
  by (simp add: update_conv')

lemma jm_get_delete [simp]: "jm_get (jm_delete k m) k' = (if k' = k then None else jm_get m k')"
  by (simp add: delete_conv')

lemma jm_get_collect_snoc [simp]:
  "jm_get (jm_collect key (xs @ [x])) k = (if k = key x then Some x else jm_get (jm_collect key xs) k)"
  by simp

lemma jm_get_collect: "jm_get (jm_collect key xs) k = find (\<lambda>x. key x = k) (rev xs)"
  by (induction xs rule: rev_induct) auto

lemma jm_get_collect_Some:
  "jm_get (jm_collect key xs) k = Some x \<Longrightarrow> x \<in> set xs \<and> key x = k"
  by (induction xs rule: rev_induct) (auto split: if_splits)

lemma jm_get_collect_None:
  "jm_get (jm_collect key xs) k = None \<longleftrightarrow> (\<forall>x \<in> set xs. key x \<noteq> k)"
  by (induction xs rule: rev_induct) auto

lemma jm_collect_keys: "set (map fst (jm_collect key xs)) = key ` set xs"
proof (induction xs rule: rev_induct)
  case Nil
  show ?case by simp
next
  case (snoc x xs)
  then show ?case by (simp add: dom_update)
qed

lemma jm_collect_filter_get:
  assumes "\<And>x. x \<in> set xs \<Longrightarrow> key x = k \<Longrightarrow> P x"
  shows "jm_get (jm_collect key (filter P xs)) k = jm_get (jm_collect key xs) k"
  using assms by (induction xs rule: rev_induct) auto

lemma in_set_map_of: "distinct (map fst m) \<Longrightarrow> (k, v) \<in> set m \<longleftrightarrow> map_of m k = Some v"
  by (metis map_of_eq_Some_iff)


section \<open>Array folds\<close>

text \<open>
  \<open>xs.reduce((best, x) => !best ? x : x.f > best.f ? x : best, null)\<close>: the first element among
  those with the greatest measure.
\<close>

definition pick_step :: "('a \<Rightarrow> int) \<Rightarrow> 'a option \<Rightarrow> 'a \<Rightarrow> 'a option" where
  "pick_step f best x = (case best of None \<Rightarrow> Some x | Some b \<Rightarrow> if f x > f b then Some x else Some b)"

definition pick_max :: "('a \<Rightarrow> int) \<Rightarrow> 'a list \<Rightarrow> 'a option" where
  "pick_max f xs = foldl (pick_step f) None xs"

lemma pick_max_Nil [simp]: "pick_max f [] = None"
  by (simp add: pick_max_def)

lemma pick_max_snoc [simp]: "pick_max f (xs @ [x]) = pick_step f (pick_max f xs) x"
  by (simp add: pick_max_def)

lemma pick_max_None [simp]: "pick_max f xs = None \<longleftrightarrow> xs = []"
  by (induction xs rule: rev_induct) (auto simp: pick_step_def split: option.splits)

lemma pick_max_SomeD:
  assumes "pick_max f xs = Some b"
  shows "b \<in> set xs \<and> (\<forall>x \<in> set xs. f x \<le> f b)"
  using assms
proof (induction xs arbitrary: b rule: rev_induct)
  case Nil
  then show ?case by simp
next
  case (snoc x xs)
  show ?case
  proof (cases "pick_max f xs")
    case None
    with snoc.prems show ?thesis by (auto simp: pick_step_def)
  next
    case (Some c)
    with snoc.IH have "c \<in> set xs" "\<forall>x \<in> set xs. f x \<le> f c" by auto
    with Some snoc.prems show ?thesis by (fastforce simp: pick_step_def split: if_splits)
  qed
qed

lemma pick_max_filter_Some:
  "pick_max f (filter P xs) = Some b \<Longrightarrow> b \<in> set xs \<and> P b"
  by (auto dest: pick_max_SomeD)

section \<open>Numbers\<close>

text \<open>\<open>Number.MAX_SAFE_INTEGER\<close> and \<open>Number.isSafeInteger\<close> on an integer-valued number.\<close>

definition max_safe_integer :: int where
  "max_safe_integer = 9007199254740991"

definition safe_int :: "int \<Rightarrow> bool" where
  "safe_int n \<longleftrightarrow> \<bar>n\<bar> \<le> max_safe_integer"

text \<open>
  \<open>1 << k\<close>: the shift count is taken modulo 32 and the result is a signed 32-bit integer.
\<close>

definition shl_one :: "int \<Rightarrow> int" where
  "shl_one k = sint (push_bit (nat (k mod 32)) (1 :: 32 word))"

lemma shl_one_small:
  assumes "0 \<le> k" "k < 31"
  shows "shl_one k = 2 ^ nat k"
proof -
  define n where "n = nat k"
  have n: "n < 31" and k: "k mod 32 = int n" using assms by (auto simp: n_def)
  have lt: "(2::int) ^ n < 2 ^ 31" using n by (intro power_strict_increasing) auto
  have "sint (push_bit n (1 :: 32 word)) = 2 ^ n"
  proof -
    have "uint (push_bit n (1 :: 32 word)) = take_bit 32 (2 ^ n)"
      unfolding unsigned_push_bit_eq by (simp add: push_bit_eq_mult)
    also have "\<dots> = 2 ^ n" using lt n by (simp add: take_bit_int_eq_self)
    finally have u: "uint (push_bit n (1 :: 32 word)) = 2 ^ n" .
    have "sint (push_bit n (1 :: 32 word)) = signed_take_bit 31 (uint (push_bit n (1 :: 32 word)))"
      by (simp add: sint_uint)
    also have "\<dots> = 2 ^ n"
      unfolding u using lt by (subst signed_take_bit_int_eq_self) (auto intro: order.trans [of _ 0])
    finally show ?thesis .
  qed
  with k show ?thesis by (simp add: shl_one_def n_def)
qed

lemma shl_one_wraps: "shl_one 31 = - 2147483648" "shl_one 32 = 1"
  by (simp_all add: shl_one_def push_bit_eq_mult)

section \<open>Strings\<close>

text \<open>Code units as numbers; \<open>Buffer.byteLength(s, 'utf8')\<close> of a string of units below 256.\<close>

definition unit_of :: "char \<Rightarrow> int" where
  "unit_of c = of_char c"

definition utf8_length :: "string \<Rightarrow> int" where
  "utf8_length s = sum_list (map (\<lambda>c. if unit_of c < 128 then 1 else 2) s)"

text \<open>The character classes of the source's id checks: C0 with DEL, and those with C1.\<close>

definition is_control_c0 :: "char \<Rightarrow> bool" where
  "is_control_c0 c \<longleftrightarrow> unit_of c < 32 \<or> unit_of c = 127"

definition is_control :: "char \<Rightarrow> bool" where
  "is_control c \<longleftrightarrow> unit_of c < 32 \<or> (127 \<le> unit_of c \<and> unit_of c \<le> 159)"

definition is_digit :: "char \<Rightarrow> bool" where
  "is_digit c \<longleftrightarrow> 48 \<le> unit_of c \<and> unit_of c \<le> 57"

definition is_lower :: "char \<Rightarrow> bool" where
  "is_lower c \<longleftrightarrow> 97 \<le> unit_of c \<and> unit_of c \<le> 122"

definition is_upper :: "char \<Rightarrow> bool" where
  "is_upper c \<longleftrightarrow> 65 \<le> unit_of c \<and> unit_of c \<le> 90"

definition is_alnum :: "char \<Rightarrow> bool" where
  "is_alnum c \<longleftrightarrow> is_digit c \<or> is_lower c \<or> is_upper c"

lemma utf8_length_ge: "int (length s) \<le> utf8_length s"
  by (induction s) (auto simp: utf8_length_def)

section \<open>Interfaces\<close>

text \<open>
  A component whose operations are values of a type \<open>'o\<close> applied to a state keeps an invariant
  if every admissible operation keeps it; so does every run of them. The components with a
  state of their own interpret this locale on their operation and invariant.
\<close>

locale op_machine =
  fixes apply_op :: "'o \<Rightarrow> 's \<Rightarrow> 's"
    and admissible :: "'o \<Rightarrow> bool"
    and inv :: "'s \<Rightarrow> bool"
  assumes op_keeps: "admissible x \<Longrightarrow> inv s \<Longrightarrow> inv (apply_op x s)"
begin

lemma run_keeps: "list_all admissible xs \<Longrightarrow> inv s \<Longrightarrow> inv (fold apply_op xs s)"
  by (induction xs arbitrary: s) (auto intro: op_keeps)

lemma run_keeps_every_prefix:
  "list_all admissible xs \<Longrightarrow> inv s \<Longrightarrow> inv (fold apply_op (take n xs) s)"
  by (intro run_keeps) (auto simp: list_all_iff dest: in_set_takeD)

end

text \<open>The same for a step relation with a choice of steps.\<close>

locale step_machine =
  fixes step :: "'s \<Rightarrow> 's \<Rightarrow> bool"
    and inv :: "'s \<Rightarrow> bool"
  assumes step_keeps: "step s t \<Longrightarrow> inv s \<Longrightarrow> inv t"
begin

lemma steps_keep: "step\<^sup>*\<^sup>* s t \<Longrightarrow> inv s \<Longrightarrow> inv t"
  by (induction rule: rtranclp_induct) (auto intro: step_keeps)

end

text \<open>
  What the code relies on of a keyed table: \<open>set\<close> and \<open>delete\<close> change one key and keep the
  others. \<open>Map\<close> objects provide it (below); components state their frame lemmas once here.
\<close>

locale keyed_table =
  fixes get :: "'m \<Rightarrow> 'k \<Rightarrow> 'v option"
    and put :: "'k \<Rightarrow> 'v \<Rightarrow> 'm \<Rightarrow> 'm"
    and del :: "'k \<Rightarrow> 'm \<Rightarrow> 'm"
    and ok :: "'m \<Rightarrow> bool"
  assumes get_put: "ok m \<Longrightarrow> get (put k v m) k' = (if k' = k then Some v else get m k')"
    and get_del: "ok m \<Longrightarrow> get (del k m) k' = (if k' = k then None else get m k')"
    and ok_put: "ok m \<Longrightarrow> ok (put k v m)"
    and ok_del: "ok m \<Longrightarrow> ok (del k m)"
begin

lemma get_put_same: "ok m \<Longrightarrow> get (put k v m) k = Some v"
  by (simp add: get_put)

lemma get_put_other: "ok m \<Longrightarrow> k' \<noteq> k \<Longrightarrow> get (put k v m) k' = get m k'"
  by (simp add: get_put)

lemma put_put: "ok m \<Longrightarrow> get (put k w (put k v m)) = get (put k w m)"
  by (rule ext) (simp add: get_put ok_put)

lemma del_put: "ok m \<Longrightarrow> get m k = None \<Longrightarrow> get (del k (put k v m)) = get m"
  by (rule ext) (simp add: get_del get_put ok_put)

end

interpretation js_map: keyed_table jm_get jm_set jm_delete "\<lambda>m. distinct (map fst m)"
  by unfold_locales (auto intro: distinct_delete)

end
