(* ===== verification/Mailbox_Store.thy ===== *)
theory Mailbox_Store
  imports Js_Prelude
begin

text \<open>
  The mailbox storage of \<open>src/mailbox/storage.js\<close> and the configuration of
  \<open>src/mailbox/config.js\<close>: one directory per session with three JSONL files. A file is absent
  or a list of lines; a line is a parsed row or text \<open>JSON.parse\<close> refuses. Every change of a
  file is a \<open>mwrite\<close>, so that an operation is the list of its writes in order and a crash is a
  prefix of that list. \<open>writeJsonl\<close> truncates the file before it writes it: two writes.
\<close>

section \<open>Configuration\<close>

record mailbox_config =
  maxRetries :: int
  retryBackoffSecs :: int
  ttlSecs :: int
  inflightTimeoutSecs :: int
  compactionThreshold :: int
  deliveryPollMs :: int
  notifyCoalesceMs :: int

definition mailbox_defaults :: mailbox_config where
  "mailbox_defaults = \<lparr>maxRetries = 3, retryBackoffSecs = 1, ttlSecs = 86400,
     inflightTimeoutSecs = 30, compactionThreshold = 100, deliveryPollMs = 200,
     notifyCoalesceMs = 25\<rparr>"

section \<open>Rows\<close>

text \<open>
  \<open>attempt\<close> is optional in a row (\<open>msg.attempt || 0\<close>), and so are the flags of a journal row; the
  cooperative-handoff object is kept as its JSON text. \<open>extra\<close> lists the further members a row
  of another writer may have: the tolerant readers ignore them, the custody reader refuses them.
\<close>

datatype mstate = Pending | InFlight | Acked | Nacked | Expired | DeadLetter | OtherState string

record inbox_row =
  ib_msg_id :: string
  ib_from :: "string option"
  ib_to :: string
  ib_payload :: string
  ib_created_at :: int
  ib_attempt :: "int option"
  ib_handoff :: "string option"
  ib_extra :: "string list"

record state_row =
  sr_msg_id :: string
  sr_state :: mstate
  sr_ts :: int
  sr_attempt :: "int option"
  sr_never_attempted :: "bool option"
  sr_non_retryable :: "bool option"
  sr_uncertain :: "bool option"
  sr_outcome :: "string option"
  sr_retryable :: "bool option"
  sr_extra :: "string list"

record dead_row =
  dl_msg_id :: string
  dl_from :: "string option"
  dl_to :: string
  dl_payload :: string
  dl_reason :: string
  dl_uncertain :: "bool option"
  dl_outcome :: "string option"
  dl_retryable :: "bool option"
  dl_meta :: "string option"
  dl_failed_at :: int
  dl_attempts :: int

definition attempt_of :: "inbox_row \<Rightarrow> int" where
  "attempt_of r = (case ib_attempt r of None \<Rightarrow> 0 | Some n \<Rightarrow> n)"

text \<open>\<open>appendState\<close> writes a row with the three fixed members only.\<close>

definition plain_state :: "string \<Rightarrow> mstate \<Rightarrow> int \<Rightarrow> state_row" where
  "plain_state i st ts = \<lparr>sr_msg_id = i, sr_state = st, sr_ts = ts, sr_attempt = None,
     sr_never_attempted = None, sr_non_retryable = None, sr_uncertain = None,
     sr_outcome = None, sr_retryable = None, sr_extra = []\<rparr>"

definition unknown_state :: "string \<Rightarrow> int \<Rightarrow> state_row" where
  "unknown_state i ts = (plain_state i DeadLetter ts)\<lparr>sr_uncertain := Some True,
     sr_outcome := Some ''unknown'', sr_retryable := Some False\<rparr>"

section \<open>Files\<close>

datatype 'r line = Parsed 'r | Malformed

type_synonym 'r jsonl = "'r line list option"

record mdir =
  inbox_file :: "inbox_row jsonl"
  state_file :: "state_row jsonl"
  dead_file :: "dead_row jsonl"

definition empty_dir :: mdir where
  "empty_dir = \<lparr>inbox_file = None, state_file = None, dead_file = None\<rparr>"

fun parse_line :: "'r line \<Rightarrow> 'r list" where
  "parse_line (Parsed r) = [r]"
| "parse_line Malformed = []"

definition readJsonl :: "'r jsonl \<Rightarrow> 'r list" where
  "readJsonl f = (case f of None \<Rightarrow> [] | Some ls \<Rightarrow> concat (map parse_line ls))"

definition appendJsonl :: "'r jsonl \<Rightarrow> 'r \<Rightarrow> 'r jsonl" where
  "appendJsonl f r = Some ((case f of None \<Rightarrow> [] | Some ls \<Rightarrow> ls) @ [Parsed r])"

definition writeJsonl :: "'r list \<Rightarrow> 'r jsonl" where
  "writeJsonl rs = Some (map Parsed rs)"

lemma readJsonl_append [simp]: "readJsonl (appendJsonl f r) = readJsonl f @ [r]"
  by (cases f) (simp_all add: readJsonl_def appendJsonl_def)

lemma readJsonl_write [simp]: "readJsonl (writeJsonl rs) = rs"
  by (induction rs) (simp_all add: readJsonl_def writeJsonl_def)

lemma readJsonl_None [simp]: "readJsonl None = []" and readJsonl_empty [simp]: "readJsonl (Some []) = []"
  by (simp_all add: readJsonl_def)

datatype mwrite =
    AppendInbox inbox_row
  | AppendState state_row
  | AppendDead dead_row
  | TruncInbox
  | FillInbox "inbox_row list"
  | TruncState
  | FillState "state_row list"
  | TruncDead

fun apply_write :: "mwrite \<Rightarrow> mdir \<Rightarrow> mdir" where
  "apply_write (AppendInbox r) d = d\<lparr>inbox_file := appendJsonl (inbox_file d) r\<rparr>"
| "apply_write (AppendState r) d = d\<lparr>state_file := appendJsonl (state_file d) r\<rparr>"
| "apply_write (AppendDead r) d = d\<lparr>dead_file := appendJsonl (dead_file d) r\<rparr>"
| "apply_write TruncInbox d = d\<lparr>inbox_file := Some []\<rparr>"
| "apply_write (FillInbox rs) d = d\<lparr>inbox_file := writeJsonl rs\<rparr>"
| "apply_write TruncState d = d\<lparr>state_file := Some []\<rparr>"
| "apply_write (FillState rs) d = d\<lparr>state_file := writeJsonl rs\<rparr>"
| "apply_write TruncDead d = d\<lparr>dead_file := Some []\<rparr>"

abbreviation apply_writes :: "mwrite list \<Rightarrow> mdir \<Rightarrow> mdir" where
  "apply_writes ws d \<equiv> fold apply_write ws d"

section \<open>State helpers\<close>

abbreviation inbox_rows :: "mdir \<Rightarrow> inbox_row list" where
  "inbox_rows d \<equiv> readJsonl (inbox_file d)"

abbreviation journal_rows :: "mdir \<Rightarrow> state_row list" where
  "journal_rows d \<equiv> readJsonl (state_file d)"

abbreviation dead_rows :: "mdir \<Rightarrow> dead_row list" where
  "dead_rows d \<equiv> readJsonl (dead_file d)"

definition loadStates :: "mdir \<Rightarrow> (string, state_row) jsmap" where
  "loadStates d = jm_collect sr_msg_id (journal_rows d)"

definition loadMessages :: "mdir \<Rightarrow> inbox_row list" where
  "loadMessages d = inbox_rows d"

definition state_of :: "mdir \<Rightarrow> string \<Rightarrow> state_row option" where
  "state_of d i = jm_get (loadStates d) i"

definition countPending :: "mdir \<Rightarrow> nat" where
  "countPending d = length (filter (\<lambda>(_, e). sr_state e = Pending) (loadStates d))"

text \<open>How each write changes what the readers return.\<close>

lemma inbox_apply_write [simp]:
  "inbox_rows (apply_write (AppendInbox r) d) = inbox_rows d @ [r]"
  "inbox_rows (apply_write (AppendState s) d) = inbox_rows d"
  "inbox_rows (apply_write (AppendDead x) d) = inbox_rows d"
  "inbox_rows (apply_write TruncInbox d) = []"
  "inbox_rows (apply_write (FillInbox rs) d) = rs"
  "inbox_rows (apply_write TruncState d) = inbox_rows d"
  "inbox_rows (apply_write (FillState ss) d) = inbox_rows d"
  "inbox_rows (apply_write TruncDead d) = inbox_rows d"
  by simp_all

lemma journal_apply_write [simp]:
  "journal_rows (apply_write (AppendInbox r) d) = journal_rows d"
  "journal_rows (apply_write (AppendState s) d) = journal_rows d @ [s]"
  "journal_rows (apply_write (AppendDead x) d) = journal_rows d"
  "journal_rows (apply_write TruncInbox d) = journal_rows d"
  "journal_rows (apply_write (FillInbox rs) d) = journal_rows d"
  "journal_rows (apply_write TruncState d) = []"
  "journal_rows (apply_write (FillState ss) d) = ss"
  "journal_rows (apply_write TruncDead d) = journal_rows d"
  by simp_all

lemma dead_apply_write [simp]:
  "dead_rows (apply_write (AppendInbox r) d) = dead_rows d"
  "dead_rows (apply_write (AppendState s) d) = dead_rows d"
  "dead_rows (apply_write (AppendDead x) d) = dead_rows d @ [x]"
  "dead_rows (apply_write TruncInbox d) = dead_rows d"
  "dead_rows (apply_write (FillInbox rs) d) = dead_rows d"
  "dead_rows (apply_write TruncState d) = dead_rows d"
  "dead_rows (apply_write (FillState ss) d) = dead_rows d"
  "dead_rows (apply_write TruncDead d) = []"
  by simp_all

declare apply_write.simps [simp del]

lemma state_of_journal: "state_of d i = jm_get (jm_collect sr_msg_id (journal_rows d)) i"
  by (simp add: state_of_def loadStates_def)

lemma state_of_write [simp]:
  "state_of (apply_write (AppendInbox r) d) i = state_of d i"
  "state_of (apply_write (AppendState s) d) i = (if i = sr_msg_id s then Some s else state_of d i)"
  "state_of (apply_write (AppendDead x) d) i = state_of d i"
  "state_of (apply_write TruncInbox d) i = state_of d i"
  "state_of (apply_write (FillInbox rs) d) i = state_of d i"
  "state_of (apply_write TruncState d) i = None"
  "state_of (apply_write (FillState ss) d) i = jm_get (jm_collect sr_msg_id ss) i"
  "state_of (apply_write TruncDead d) i = state_of d i"
  by (simp_all add: state_of_journal)

lemma state_of_id: "state_of d i = Some s \<Longrightarrow> sr_msg_id s = i"
  by (metis jm_get_collect_Some state_of_journal)

lemma distinct_loadStates [simp]: "distinct (map fst (loadStates d))"
  by (simp add: loadStates_def)

lemma plain_state_simps [simp]:
  "sr_msg_id (plain_state i st ts) = i" "sr_state (plain_state i st ts) = st"
  "sr_ts (plain_state i st ts) = ts" "sr_non_retryable (plain_state i st ts) = None"
  "sr_never_attempted (plain_state i st ts) = None" "sr_uncertain (plain_state i st ts) = None"
  "sr_outcome (plain_state i st ts) = None" "sr_retryable (plain_state i st ts) = None"
  by (simp_all add: plain_state_def)

lemma unknown_state_simps [simp]:
  "sr_msg_id (unknown_state i ts) = i" "sr_state (unknown_state i ts) = DeadLetter"
  "sr_ts (unknown_state i ts) = ts" "sr_non_retryable (unknown_state i ts) = None"
  "sr_uncertain (unknown_state i ts) = Some True"
  by (simp_all add: unknown_state_def)

end
