(* ===== verification/Mailbox_Custody.thy ===== *)
theory Mailbox_Custody
  imports Mailbox_Store "HOL-Library.Sublist"
begin

text \<open>
  The strict reader of \<open>src/mailbox/custody.js\<close>, used at an authority transfer and by compaction:
  \<open>readCustody\<close> and the three snapshots built on it. \<open>invalid()\<close>, which throws
  \<open>MAILBOX_CUSTODY_UNAVAILABLE\<close>, is \<open>None\<close>. The checks on the bytes of a file (size, encoding,
  a change between two \<open>fstat\<close>s) are below the row model; an absent file, a malformed line and
  the row bound are refused as the code refuses them.
\<close>

definition custody_max_rows :: int where
  "custody_max_rows = 20000"

definition max_pending :: nat where
  "max_pending = 8"

definition readStrict :: "'r jsonl \<Rightarrow> 'r list option" where
  "readStrict f = (case f of None \<Rightarrow> None
     | Some ls \<Rightarrow> if int (length ls) > custody_max_rows then None
                 else if Malformed \<in> set ls then None
                 else Some (readJsonl f))"

definition boundedId :: "string \<Rightarrow> bool" where
  "boundedId v \<longleftrightarrow> v \<noteq> [] \<and> utf8_length v \<le> 128 \<and> list_all (\<lambda>c. \<not> is_control_c0 c) v"

section \<open>Reading a queue\<close>

record custody =
  cu_inbox :: "inbox_row list"
  cu_journal :: "state_row list"
  cu_messages :: "(string, inbox_row) jsmap"
  cu_states :: "(string, state_row) jsmap"
  cu_unsettled :: bool

definition inbox_count :: "custody \<Rightarrow> string \<Rightarrow> nat" where
  "inbox_count c i = length (filter (\<lambda>r. ib_msg_id r = i) (cu_inbox c))"

definition history :: "custody \<Rightarrow> string \<Rightarrow> state_row list" where
  "history c i = filter (\<lambda>r. sr_msg_id r = i) (cu_journal c)"

definition inbox_row_ok :: "string \<Rightarrow> inbox_row \<Rightarrow> bool" where
  "inbox_row_ok sid r \<longleftrightarrow> boundedId (ib_msg_id r) \<and> ib_to r = sid
     \<and> safe_int (ib_created_at r) \<and> 0 \<le> ib_created_at r
     \<and> (case ib_from r of None \<Rightarrow> True | Some s \<Rightarrow> utf8_length s \<le> 512)
     \<and> (case ib_attempt r of None \<Rightarrow> False | Some n \<Rightarrow> safe_int n \<and> 0 \<le> n)
     \<and> ib_extra r = []"

definition inbox_row_agrees :: "bool \<Rightarrow> inbox_row \<Rightarrow> inbox_row \<Rightarrow> bool" where
  "inbox_row_agrees compaction prev r \<longleftrightarrow> ib_payload prev = ib_payload r \<and> ib_from prev = ib_from r
     \<and> (ib_created_at prev = ib_created_at r
        \<or> (compaction \<and> attempt_of r > attempt_of prev \<and> attempt_of r > 0))"

fun custody_messages :: "bool \<Rightarrow> string \<Rightarrow> inbox_row list \<Rightarrow> (string, inbox_row) jsmap
    \<Rightarrow> (string, inbox_row) jsmap option" where
  "custody_messages compaction sid [] m = Some m"
| "custody_messages compaction sid (r # rs) m =
     (if \<not> inbox_row_ok sid r then None
      else case jm_get m (ib_msg_id r) of
        None \<Rightarrow> custody_messages compaction sid rs (jm_set (ib_msg_id r) r m)
      | Some prev \<Rightarrow>
          if \<not> inbox_row_agrees compaction prev r then None
          else custody_messages compaction sid rs
                 (if attempt_of r \<ge> attempt_of prev then jm_set (ib_msg_id r) r m else m))"

definition state_row_ok :: "(string, inbox_row) jsmap \<Rightarrow> state_row \<Rightarrow> bool" where
  "state_row_ok msgs r \<longleftrightarrow> boundedId (sr_msg_id r)
     \<and> sr_state r \<in> {Pending, InFlight, Acked, Nacked, Expired, DeadLetter}
     \<and> safe_int (sr_ts r) \<and> 0 \<le> sr_ts r \<and> jm_has msgs (sr_msg_id r) \<and> sr_extra r = []
     \<and> (sr_never_attempted r \<noteq> None \<longrightarrow> sr_never_attempted r = Some True \<and> sr_state r = Pending)
     \<and> (sr_non_retryable r \<noteq> None \<longrightarrow> sr_non_retryable r = Some True \<and> sr_state r = InFlight)
     \<and> (sr_uncertain r \<noteq> None \<longrightarrow> sr_uncertain r = Some True \<and> sr_state r = DeadLetter
          \<and> sr_outcome r = Some ''unknown'' \<and> sr_retryable r = Some False)
     \<and> (sr_outcome r \<noteq> None \<or> sr_retryable r \<noteq> None \<longrightarrow> sr_uncertain r = Some True)
     \<and> (case sr_attempt r of None \<Rightarrow> True | Some n \<Rightarrow> safe_int n \<and> 0 \<le> n)"

text \<open>The row is marked as an outcome nobody measured.\<close>

definition unknown_row :: "state_row \<Rightarrow> bool" where
  "unknown_row r \<longleftrightarrow> sr_uncertain r = Some True \<or> sr_outcome r = Some ''unknown''
     \<or> sr_retryable r = Some False"

definition lower_char :: "char \<Rightarrow> char" where
  "lower_char c = (if is_upper c then char_of (unit_of c + 32) else c)"

definition mentions :: "string \<Rightarrow> string \<Rightarrow> bool" where
  "mentions w s \<longleftrightarrow> sublist w (map lower_char s)"

definition unknown_dead :: "dead_row \<Rightarrow> bool" where
  "unknown_dead r \<longleftrightarrow> dl_uncertain r = Some True \<or> dl_outcome r = Some ''unknown''
     \<or> dl_retryable r = Some False \<or> mentions ''unknown'' (dl_reason r)
     \<or> mentions ''uncertain'' (dl_reason r)"

definition terminal_state :: "mstate \<Rightarrow> bool" where
  "terminal_state st \<longleftrightarrow> st \<in> {Acked, Expired, DeadLetter}"

definition fence_open :: "(string, state_row) jsmap \<Rightarrow> state_row list \<Rightarrow> bool" where
  "fence_open states journal \<longleftrightarrow> list_ex (\<lambda>r. sr_non_retryable r = Some True
     \<and> (case jm_get states (sr_msg_id r) of None \<Rightarrow> True | Some s \<Rightarrow> \<not> terminal_state (sr_state s))) journal"

definition readCustody :: "bool \<Rightarrow> string \<Rightarrow> mdir \<Rightarrow> custody option" where
  "readCustody compaction sid d =
     (case readStrict (inbox_file d) of None \<Rightarrow> None | Some inbox \<Rightarrow>
      case readStrict (state_file d) of None \<Rightarrow> None | Some journal \<Rightarrow>
      case custody_messages compaction sid inbox [] of None \<Rightarrow> None | Some msgs \<Rightarrow>
      if \<not> list_all (state_row_ok msgs) journal then None else
      let states = jm_collect sr_msg_id journal;
          unsettled = (list_ex unknown_row journal \<or> fence_open states journal)
      in case dead_file d of
           None \<Rightarrow> Some \<lparr>cu_inbox = inbox, cu_journal = journal, cu_messages = msgs,
                         cu_states = states, cu_unsettled = unsettled\<rparr>
         | Some ls \<Rightarrow> (case readStrict (Some ls) of None \<Rightarrow> None | Some dead \<Rightarrow>
             Some \<lparr>cu_inbox = inbox, cu_journal = journal, cu_messages = msgs, cu_states = states,
                   cu_unsettled = (unsettled \<or> list_ex unknown_dead dead)\<rparr>))"

section \<open>Snapshots\<close>

record pending_view =
  pv_msg_id :: string
  pv_from :: "string option"
  pv_created_at :: int
  pv_state :: mstate
  pv_attempt :: int

text \<open>\<open>message.from || null\<close>: the empty string is falsy.\<close>

definition or_null :: "string option \<Rightarrow> string option" where
  "or_null s = (if s = Some [] then None else s)"

fun strict_rows :: "(string, state_row) jsmap \<Rightarrow> (string \<times> inbox_row) list \<Rightarrow> pending_view list option" where
  "strict_rows states [] = Some []"
| "strict_rows states ((i, m) # ms) =
     (case jm_get states i of
        None \<Rightarrow> None
      | Some s \<Rightarrow>
          if sr_state s = Nacked then None
          else case strict_rows states ms of None \<Rightarrow> None | Some ps \<Rightarrow>
            Some (if sr_state s \<in> {Pending, InFlight}
                  then \<lparr>pv_msg_id = i, pv_from = or_null (ib_from m), pv_created_at = ib_created_at m,
                        pv_state = sr_state s, pv_attempt = attempt_of m\<rparr> # ps else ps))"

definition strictCustodySnapshot :: "string \<Rightarrow> mdir \<Rightarrow> pending_view list option" where
  "strictCustodySnapshot sid d =
     (case readCustody False sid d of None \<Rightarrow> None
      | Some c \<Rightarrow> if cu_unsettled c then None else strict_rows (cu_states c) (cu_messages c))"

definition pristine_history :: "custody \<Rightarrow> string \<Rightarrow> inbox_row \<Rightarrow> bool" where
  "pristine_history c i m \<longleftrightarrow> attempt_of m = 0 \<and> inbox_count c i = 1
     \<and> (case history c i of [h] \<Rightarrow> sr_never_attempted h = Some True | _ \<Rightarrow> False)"

definition untouched :: "custody \<Rightarrow> string \<Rightarrow> inbox_row \<Rightarrow> bool" where
  "untouched c i m \<longleftrightarrow> pristine_history c i m
     \<and> (case history c i of [h] \<Rightarrow> sr_non_retryable h = None
          \<and> (sr_attempt h = None \<or> sr_attempt h = Some 0)
          \<and> sr_uncertain h = None \<and> sr_outcome h = None \<and> sr_retryable h = None \<and> sr_extra h = []
        | _ \<Rightarrow> False)"

fun never_rows :: "custody \<Rightarrow> (string \<times> inbox_row) list \<Rightarrow> inbox_row list option" where
  "never_rows c [] = Some []"
| "never_rows c ((i, m) # ms) =
     (case jm_get (cu_states c) i of
        None \<Rightarrow> None
      | Some s \<Rightarrow>
          if terminal_state (sr_state s) then never_rows c ms
          else if sr_state s \<noteq> Pending \<or> \<not> untouched c i m then None
          else map_option (Cons (m\<lparr>ib_from := or_null (ib_from m)\<rparr>)) (never_rows c ms))"

definition neverAttemptedCustodySnapshot :: "string \<Rightarrow> mdir \<Rightarrow> inbox_row list option" where
  "neverAttemptedCustodySnapshot sid d =
     (case readCustody False sid d of None \<Rightarrow> None
      | Some c \<Rightarrow> if cu_unsettled c then None
                  else case never_rows c (cu_messages c) of None \<Rightarrow> None
                    | Some rs \<Rightarrow> if length rs > max_pending then None else Some rs)"

definition pristinePendingIds :: "string \<Rightarrow> mdir \<Rightarrow> string list option" where
  "pristinePendingIds sid d =
     map_option (\<lambda>c. map fst (filter (\<lambda>(i, m).
        (case jm_get (cu_states c) i of None \<Rightarrow> False | Some s \<Rightarrow> sr_state s = Pending)
        \<and> pristine_history c i m) (cu_messages c))) (readCustody True sid d)"

end
