(* ===== verification/Mailbox_Ops.thy ===== *)
theory Mailbox_Ops
  imports Mailbox_Custody
begin

text \<open>
  The operations of \<open>FileMailbox\<close> (\<open>src/mailbox/index.js\<close>) and \<open>compact\<close> of \<open>storage.js\<close> on one
  session directory. An operation \<open>f_op\<close> returns the writes it makes, in order, and its result;
  it holds the session lock for its whole run (\<open>Mailbox_Lock\<close>), so the writes of two operations
  do not interleave, but a crash may keep any prefix of them. A throw is \<open>Inl\<close>, and the writes
  made before the throw stay.
\<close>

datatype mailbox_error =
    MessageExpired string
  | CustodyUnavailable
  | HandoffAckEvidenceRequired
  | HandoffAckUnknownHistory
  | HandoffSettlementUnavailable

type_synonym 'a outcome = "mwrite list \<times> (mailbox_error + 'a)"

text \<open>The directory after an operation that ran to its end, or that crashed after \<open>k\<close> writes.\<close>

definition after :: "'a outcome \<Rightarrow> mdir \<Rightarrow> mdir" where
  "after r d = apply_writes (fst r) d"

definition crashed :: "nat \<Rightarrow> 'a outcome \<Rightarrow> mdir \<Rightarrow> mdir" where
  "crashed k r d = apply_writes (take k (fst r)) d"

section \<open>Enqueue\<close>

record enqueue_result =
  eq_msg_id :: string
  eq_queued :: bool
  eq_pending :: nat

definition stored_row :: "inbox_row \<Rightarrow> inbox_row" where
  "stored_row m = m\<lparr>ib_attempt := Some (attempt_of m), ib_extra := []\<rparr>"

definition pending_row :: "inbox_row \<Rightarrow> int \<Rightarrow> state_row" where
  "pending_row m now =
     (if ib_handoff m \<noteq> None \<and> attempt_of m = 0
      then (plain_state (ib_msg_id m) Pending now)\<lparr>sr_never_attempted := Some True\<rparr>
      else plain_state (ib_msg_id m) Pending now)"

definition enqueue_op :: "mailbox_config \<Rightarrow> int \<Rightarrow> inbox_row \<Rightarrow> mdir \<Rightarrow> enqueue_result outcome" where
  "enqueue_op cfg now m d =
     (if state_of d (ib_msg_id m) \<noteq> None
      then ([], Inr \<lparr>eq_msg_id = ib_msg_id m, eq_queued = False, eq_pending = countPending d\<rparr>)
      else if ib_created_at m + ttlSecs cfg < now then ([], Inl (MessageExpired (ib_msg_id m)))
      else let ws = [AppendInbox (stored_row m), AppendState (pending_row m now)]
           in (ws, Inr \<lparr>eq_msg_id = ib_msg_id m, eq_queued = True,
                        eq_pending = countPending (apply_writes ws d)\<rparr>))"

section \<open>Dequeue\<close>

text \<open>\<open>latest\<close>: per message id the entry of the highest attempt, in order of first appearance.\<close>

definition latest_step :: "inbox_row \<Rightarrow> (string, inbox_row) jsmap \<Rightarrow> (string, inbox_row) jsmap" where
  "latest_step m acc =
     (case jm_get acc (ib_msg_id m) of
        None \<Rightarrow> jm_set (ib_msg_id m) m acc
      | Some e \<Rightarrow> if attempt_of m > attempt_of e then jm_set (ib_msg_id m) m acc else acc)"

definition latest_messages :: "inbox_row list \<Rightarrow> (string, inbox_row) jsmap" where
  "latest_messages ms = fold latest_step ms []"

definition due :: "mdir \<Rightarrow> int \<Rightarrow> inbox_row \<Rightarrow> bool" where
  "due d now m \<longleftrightarrow> (case state_of d (ib_msg_id m) of None \<Rightarrow> False
     | Some s \<Rightarrow> sr_state s = Pending \<and> \<not> ib_created_at m > now)"

definition oldest_step :: "inbox_row option \<Rightarrow> inbox_row \<Rightarrow> inbox_row option" where
  "oldest_step best m = (case best of None \<Rightarrow> Some m
     | Some b \<Rightarrow> if ib_created_at m < ib_created_at b then Some m else Some b)"

definition next_message :: "mdir \<Rightarrow> int \<Rightarrow> inbox_row option" where
  "next_message d now =
     foldl oldest_step None (filter (due d now) (map snd (latest_messages (loadMessages d))))"

definition dequeue_op :: "int \<Rightarrow> mdir \<Rightarrow> inbox_row option outcome" where
  "dequeue_op now d =
     (case next_message d now of
        None \<Rightarrow> ([], Inr None)
      | Some m \<Rightarrow> ([AppendState (plain_state (ib_msg_id m) InFlight now)], Inr (Some m)))"

section \<open>Compaction\<close>

definition unknown_ids :: "mdir \<Rightarrow> string list" where
  "unknown_ids d = map sr_msg_id (filter unknown_row (journal_rows d))"

definition row_terminal :: "mdir \<Rightarrow> string \<Rightarrow> bool" where
  "row_terminal d i = (case state_of d i of None \<Rightarrow> False | Some s \<Rightarrow> terminal_state (sr_state s))"

definition keep_message :: "mdir \<Rightarrow> inbox_row \<Rightarrow> bool" where
  "keep_message d m \<longleftrightarrow> ib_msg_id m \<in> set (unknown_ids d) \<or> \<not> row_terminal d (ib_msg_id m)"

definition compact_state :: "string list \<Rightarrow> state_row \<Rightarrow> state_row" where
  "compact_state pristine e =
     (if sr_never_attempted e = Some True \<and> sr_msg_id e \<notin> set pristine
      then e\<lparr>sr_never_attempted := None\<rparr> else e)"

definition compact_journal :: "string list \<Rightarrow> mdir \<Rightarrow> state_row list" where
  "compact_journal pristine d =
     filter (\<lambda>r. sr_msg_id r \<in> set (unknown_ids d)) (journal_rows d)
     @ map (compact_state pristine)
         (filter (\<lambda>e. sr_msg_id e \<notin> set (unknown_ids d) \<and> \<not> terminal_state (sr_state e))
           (map snd (loadStates d)))"

definition terminal_count :: "mdir \<Rightarrow> nat" where
  "terminal_count d = length (filter (\<lambda>(i, e). terminal_state (sr_state e) \<and> i \<notin> set (unknown_ids d))
     (loadStates d))"

definition compact_op :: "mailbox_config \<Rightarrow> string \<Rightarrow> mdir \<Rightarrow> unit outcome" where
  "compact_op cfg sid d =
     (if int (terminal_count d) < compactionThreshold cfg then ([], Inr ())
      else case pristinePendingIds sid d of
        None \<Rightarrow> ([], Inl CustodyUnavailable)
      | Some pristine \<Rightarrow>
          ([TruncInbox, FillInbox (filter (keep_message d) (loadMessages d)),
            TruncState, FillState (compact_journal pristine d)], Inr ()))"

section \<open>Acknowledge\<close>

text \<open>
  The optional third argument of \<open>ack\<close> is an object that the settlement module may know: as a
  proof already used, as a proof not yet used, or not at all. Publishing the settlement of an
  unused proof (\<open>commitSettlement\<close>, with the \<open>fsync\<close> before it) is outside the row model and may
  fail; its result is the argument of \<open>TrustedProof\<close>.
\<close>

datatype ack_proof = NoProof | UsedProof | TrustedProof bool

definition then_compact :: "mailbox_config \<Rightarrow> string \<Rightarrow> mdir \<Rightarrow> mwrite list \<Rightarrow> unit outcome" where
  "then_compact cfg sid d ws =
     (let r = compact_op cfg sid (apply_writes ws d) in (ws @ fst r, snd r))"

definition ack_evidence :: "custody \<Rightarrow> string \<Rightarrow> bool" where
  "ack_evidence c i \<longleftrightarrow> \<not> list_ex unknown_row (cu_journal c)
     \<and> (case jm_get (cu_states c) i of None \<Rightarrow> False | Some s \<Rightarrow> sr_state s = InFlight)
     \<and> list_ex (\<lambda>r. sr_non_retryable r = Some True) (history c i)"

definition ack_op :: "mailbox_config \<Rightarrow> string \<Rightarrow> int \<Rightarrow> string \<Rightarrow> ack_proof \<Rightarrow> mdir \<Rightarrow> unit outcome" where
  "ack_op cfg sid now i proof d =
     (if (case state_of d i of None \<Rightarrow> False | Some s \<Rightarrow> sr_state s \<in> {Acked, DeadLetter})
      then ([], Inr ())
      else case proof of
        UsedProof \<Rightarrow> ([], Inr ())
      | NoProof \<Rightarrow> then_compact cfg sid d [AppendState (plain_state i Acked now)]
      | TrustedProof published \<Rightarrow>
          (case readCustody False sid d of
             None \<Rightarrow> ([], Inl CustodyUnavailable)
           | Some c \<Rightarrow>
               if \<not> ack_evidence c i then ([], Inl HandoffAckEvidenceRequired)
               else let w = AppendState (plain_state i Acked now);
                        back = [w, AppendState (unknown_state i now)]
                    in case readCustody False sid (apply_write w d) of
                         None \<Rightarrow> (back, Inl CustodyUnavailable)
                       | Some c' \<Rightarrow>
                           if cu_unsettled c' then (back, Inl HandoffAckUnknownHistory)
                           else if \<not> published then (back, Inl HandoffSettlementUnavailable)
                           else then_compact cfg sid d [w]))"

section \<open>Negative acknowledge\<close>

definition latest_of :: "mdir \<Rightarrow> string \<Rightarrow> inbox_row option" where
  "latest_of d i = pick_max attempt_of (filter (\<lambda>m. ib_msg_id m = i) (loadMessages d))"

definition backoff :: "mailbox_config \<Rightarrow> int \<Rightarrow> int" where
  "backoff cfg attempt = retryBackoffSecs cfg * shl_one (attempt - 1)"

definition retry_row :: "inbox_row \<Rightarrow> int \<Rightarrow> int \<Rightarrow> inbox_row" where
  "retry_row m created attempt =
     m\<lparr>ib_created_at := created, ib_attempt := Some attempt, ib_handoff := None, ib_extra := []\<rparr>"

definition dead_letter :: "inbox_row \<Rightarrow> string \<Rightarrow> int \<Rightarrow> int \<Rightarrow> dead_row" where
  "dead_letter m reason now attempts =
     \<lparr>dl_msg_id = ib_msg_id m, dl_from = ib_from m, dl_to = ib_to m, dl_payload = ib_payload m,
      dl_reason = reason, dl_uncertain = None, dl_outcome = None, dl_retryable = None,
      dl_meta = None, dl_failed_at = now, dl_attempts = attempts\<rparr>"

definition unknown_letter :: "dead_row \<Rightarrow> dead_row" where
  "unknown_letter r = r\<lparr>dl_uncertain := Some True, dl_outcome := Some ''unknown'',
     dl_retryable := Some False\<rparr>"

definition retry_or_bury :: "mailbox_config \<Rightarrow> int \<Rightarrow> string \<Rightarrow> inbox_row \<Rightarrow> string \<Rightarrow> mwrite list" where
  "retry_or_bury cfg now i m reason =
     (let attempt = attempt_of m + 1 in
      if attempt \<ge> maxRetries cfg
      then [AppendDead (dead_letter m reason now attempt), AppendState (plain_state i DeadLetter now)]
      else [AppendState (plain_state i Nacked now),
            AppendInbox (retry_row m (now + backoff cfg attempt) attempt),
            AppendState (plain_state (ib_msg_id m) Pending now)])"

definition nack_op :: "mailbox_config \<Rightarrow> int \<Rightarrow> string \<Rightarrow> string \<Rightarrow> mdir \<Rightarrow> unit outcome" where
  "nack_op cfg now i reason d =
     (if (case state_of d i of None \<Rightarrow> False | Some s \<Rightarrow> sr_state s = DeadLetter) then ([], Inr ())
      else case latest_of d i of
        None \<Rightarrow> ([], Inr ())
      | Some m \<Rightarrow> (retry_or_bury cfg now i m
                    (if reason = [] then ''max_retries exhausted'' else reason), Inr ()))"

section \<open>Fence, withdraw, look up\<close>

definition begin_op :: "int \<Rightarrow> string \<Rightarrow> mdir \<Rightarrow> bool outcome" where
  "begin_op now i d =
     (case state_of d i of
        None \<Rightarrow> ([], Inr False)
      | Some s \<Rightarrow>
          if sr_state s \<noteq> InFlight then ([], Inr False)
          else if sr_non_retryable s = Some True then ([], Inr True)
          else ([AppendState ((plain_state i InFlight now)\<lparr>sr_non_retryable := Some True\<rparr>)], Inr True))"

definition withdraw_op :: "int \<Rightarrow> string \<Rightarrow> string \<Rightarrow> bool \<Rightarrow> bool \<Rightarrow> string option \<Rightarrow> mdir \<Rightarrow> bool outcome" where
  "withdraw_op now i reason inFlight deliveryUncertain meta d =
     (case state_of d i of
        None \<Rightarrow> ([], Inr False)
      | Some s \<Rightarrow>
          if sr_state s \<noteq> Pending \<and> \<not> (inFlight \<and> sr_state s = InFlight) then ([], Inr False)
          else case latest_of d i of
            None \<Rightarrow> ([], Inr False)
          | Some m \<Rightarrow>
              let r = (dead_letter m (if reason = [] then ''withdrawn'' else reason) now (attempt_of m))
                        \<lparr>dl_meta := meta\<rparr>
              in (if deliveryUncertain
                  then [AppendDead (unknown_letter r), AppendState (unknown_state i now)]
                  else [AppendDead r, AppendState (plain_state i DeadLetter now)], Inr True))"

definition messageState :: "string \<Rightarrow> mdir \<Rightarrow> mstate option" where
  "messageState i d = map_option sr_state (state_of d i)"

section \<open>Peek and purge\<close>

record peek_entry =
  pe_msg_id :: string
  pe_from :: "string option"
  pe_created_at :: int
  pe_attempt :: int
  pe_state :: mstate
  pe_payload :: "(string \<times> string) option"

fun peek_results :: "bool \<Rightarrow> mdir \<Rightarrow> inbox_row list \<Rightarrow> peek_entry list" where
  "peek_results includePayload d [] = []"
| "peek_results includePayload d (m # ms) =
     (case state_of d (ib_msg_id m) of
        None \<Rightarrow> peek_results includePayload d ms
      | Some s \<Rightarrow> \<lparr>pe_msg_id = ib_msg_id m, pe_from = ib_from m, pe_created_at = ib_created_at m,
           pe_attempt = attempt_of m, pe_state = sr_state s,
           pe_payload = (if includePayload then Some (ib_payload m, ib_to m) else None)\<rparr>
           # peek_results includePayload d ms)"

definition seen_step :: "peek_entry \<Rightarrow> (string, peek_entry) jsmap \<Rightarrow> (string, peek_entry) jsmap" where
  "seen_step e seen =
     (case jm_get seen (pe_msg_id e) of
        None \<Rightarrow> jm_set (pe_msg_id e) e seen
      | Some x \<Rightarrow> if pe_attempt e > pe_attempt x then jm_set (pe_msg_id e) e seen else seen)"

definition peek :: "bool \<Rightarrow> mdir \<Rightarrow> peek_entry list" where
  "peek includePayload d = map snd (fold seen_step (peek_results includePayload d (loadMessages d)) [])"

definition purge_op :: "mdir \<Rightarrow> unit outcome" where
  "purge_op d = ([TruncInbox, FillInbox [], TruncState, FillState []], Inr ())"

definition peekDeadLetter :: "mdir \<Rightarrow> dead_row list" where
  "peekDeadLetter d = dead_rows d"

definition purge_dead_op :: "mdir \<Rightarrow> unit outcome" where
  "purge_dead_op d = ([TruncDead], Inr ())"

section \<open>Recovery and expiry\<close>

definition inflight_timed_out :: "mailbox_config \<Rightarrow> int \<Rightarrow> state_row \<Rightarrow> bool" where
  "inflight_timed_out cfg now e \<longleftrightarrow> sr_state e = InFlight \<and> now - sr_ts e \<ge> inflightTimeoutSecs cfg"

definition recover_entry :: "mailbox_config \<Rightarrow> int \<Rightarrow> string \<times> state_row \<Rightarrow> mdir \<Rightarrow> mwrite list \<times> bool" where
  "recover_entry cfg now ie d =
     (case ie of (i, e) \<Rightarrow>
        if \<not> inflight_timed_out cfg now e then ([], False)
        else case latest_of d i of
          None \<Rightarrow> ([], False)
        | Some m \<Rightarrow>
            (if sr_non_retryable e = Some True
             then [AppendDead (unknown_letter (dead_letter m ''delivery_outcome_unknown_after_interruption''
                      now (attempt_of m))),
                   AppendState (unknown_state i now)]
             else retry_or_bury cfg now i m ''inflight_timeout'', True))"

fun recover_entries :: "mailbox_config \<Rightarrow> int \<Rightarrow> (string \<times> state_row) list \<Rightarrow> mdir \<Rightarrow> mwrite list \<times> nat" where
  "recover_entries cfg now [] d = ([], 0)"
| "recover_entries cfg now (ie # ies) d =
     (let (ws, hit) = recover_entry cfg now ie d;
          (ws', n) = recover_entries cfg now ies (apply_writes ws d)
      in (ws @ ws', (if hit then Suc n else n)))"

definition recoverInflight_op :: "mailbox_config \<Rightarrow> int \<Rightarrow> mdir \<Rightarrow> nat outcome" where
  "recoverInflight_op cfg now d =
     (let (ws, n) = recover_entries cfg now (loadStates d) d in (ws, Inr n))"

definition message_expires :: "mailbox_config \<Rightarrow> int \<Rightarrow> mdir \<Rightarrow> inbox_row \<Rightarrow> bool" where
  "message_expires cfg now d m \<longleftrightarrow> (case state_of d (ib_msg_id m) of None \<Rightarrow> False
     | Some s \<Rightarrow> sr_non_retryable s \<noteq> Some True \<and> sr_state s \<in> {Pending, InFlight}
         \<and> ib_created_at m + ttlSecs cfg < now)"

definition expire_writes :: "mailbox_config \<Rightarrow> int \<Rightarrow> mdir \<Rightarrow> mwrite list" where
  "expire_writes cfg now d = map (\<lambda>m. AppendState (plain_state (ib_msg_id m) Expired now))
     (filter (message_expires cfg now d) (loadMessages d))"

definition expireStale_op :: "mailbox_config \<Rightarrow> string \<Rightarrow> int \<Rightarrow> mdir \<Rightarrow> nat outcome" where
  "expireStale_op cfg sid now d =
     (let ws = expire_writes cfg now d; n = length ws in
      if n > 0
      then let r = compact_op cfg sid (apply_writes ws d)
           in (ws @ fst r, case snd r of Inl e \<Rightarrow> Inl e | Inr _ \<Rightarrow> Inr n)
      else ([], Inr 0))"

section \<open>Sessions\<close>

text \<open>
  The mailbox root maps a session to its directory. Every operation but \<open>enqueue\<close> returns its
  default where the directory does not exist (\<open>fs.existsSync\<close>); \<open>enqueue\<close> creates it.
\<close>

type_synonym mroot = "string \<rightharpoonup> mdir"

definition on_session :: "string \<Rightarrow> 'a \<Rightarrow> (mdir \<Rightarrow> 'a outcome) \<Rightarrow> mroot \<Rightarrow> mroot \<times> (mailbox_error + 'a)" where
  "on_session sid absent f root =
     (case root sid of
        None \<Rightarrow> (root, Inr absent)
      | Some d \<Rightarrow> (root(sid \<mapsto> after (f d) d), snd (f d)))"

definition enqueue_session :: "mailbox_config \<Rightarrow> int \<Rightarrow> inbox_row \<Rightarrow> mroot \<Rightarrow> mroot \<times> (mailbox_error + enqueue_result)" where
  "enqueue_session cfg now m root =
     (let d = (case root (ib_to m) of None \<Rightarrow> empty_dir | Some d \<Rightarrow> d)
      in (root(ib_to m \<mapsto> after (enqueue_op cfg now m d) d), snd (enqueue_op cfg now m d)))"

end
