(* ===== verification/Mailbox_Laws.thy ===== *)
theory Mailbox_Laws
  imports Mailbox_Ops
begin

text \<open>
  What the mailbox operations do, branch by branch: idempotence of \<open>enqueue\<close>, the choice
  \<open>dequeue\<close> makes, retry and burial, recovery, expiry, and that compaction is invisible to
  every later \<open>dequeue\<close>.
\<close>

named_theorems mailbox_defs \<open>unfolding of the mailbox operations\<close>

lemmas mailbox_op_defs [mailbox_defs] =
  enqueue_op_def dequeue_op_def ack_op_def nack_op_def begin_op_def withdraw_op_def
  after_def then_compact_def

section \<open>The latest row of each message\<close>

lemma latest_messages_snoc [simp]:
  "latest_messages (ms @ [m]) = latest_step m (latest_messages ms)"
  by (simp add: latest_messages_def)

lemma latest_messages_Nil [simp]: "latest_messages [] = []"
  by (simp add: latest_messages_def)

lemma distinct_latest [simp, intro]: "distinct (map fst (latest_messages ms))"
  by (induction ms rule: rev_induct) (auto simp: latest_step_def split: option.splits)

text \<open>The row \<open>dequeue\<close> picks for an id is the row \<open>nack\<close> and \<open>recoverInflight\<close> find for it.\<close>

lemma latest_messages_get:
  "jm_get (latest_messages ms) i = pick_max attempt_of (filter (\<lambda>m. ib_msg_id m = i) ms)"
proof (induction ms rule: rev_induct)
  case Nil
  show ?case by simp
next
  case (snoc m ms)
  then show ?case
    by (auto simp: latest_step_def pick_step_def split: option.splits)
qed

lemma latest_messages_key: "(i, m) \<in> set (latest_messages ms) \<Longrightarrow> ib_msg_id m = i \<and> m \<in> set ms"
  by (simp add: in_set_map_of latest_messages_get) (auto dest: pick_max_filter_Some)

lemma filter_jm_set_in: "P k \<Longrightarrow> filter (\<lambda>(k, _). P k) (jm_set k v m) = jm_set k v (filter (\<lambda>(k, _). P k) m)"
  by (induction m) auto

lemma filter_jm_set_out: "\<not> P k \<Longrightarrow> filter (\<lambda>(k, _). P k) (jm_set k v m) = filter (\<lambda>(k, _). P k) m"
  by (induction m) auto

lemma map_of_filter_key: "P i \<Longrightarrow> map_of (filter (\<lambda>(k, _). P k) m) i = map_of m i"
  by (induction m) auto

lemma latest_messages_filter:
  "latest_messages (filter (\<lambda>m. P (ib_msg_id m)) ms) = filter (\<lambda>(i, _). P i) (latest_messages ms)"
proof (induction ms rule: rev_induct)
  case Nil
  show ?case by simp
next
  case (snoc m ms)
  then show ?case
    by (auto simp: latest_step_def map_of_filter_key filter_jm_set_in filter_jm_set_out
        split: option.splits)
qed

section \<open>The oldest due message\<close>

lemma oldest_step_simps [simp]:
  "oldest_step None m = Some m"
  "oldest_step (Some b) m = Some (if ib_created_at m < ib_created_at b then m else b)"
  by (simp_all add: oldest_step_def)

lemma oldest_fold_Some:
  "foldl oldest_step (Some b) xs = Some m \<Longrightarrow>
     m \<in> set (b # xs) \<and> (\<forall>x \<in> set (b # xs). ib_created_at m \<le> ib_created_at x)"
proof (induction xs arbitrary: b)
  case Nil
  then show ?case by simp
next
  case (Cons x xs)
  show ?case
  proof (cases "ib_created_at x < ib_created_at b")
    case True
    with Cons.prems have "foldl oldest_step (Some x) xs = Some m" by simp
    from Cons.IH [OF this] True show ?thesis by auto
  next
    case False
    with Cons.prems have "foldl oldest_step (Some b) xs = Some m" by simp
    from Cons.IH [OF this] False show ?thesis by auto
  qed
qed

lemma oldest_fold_defined: "\<exists>m. foldl oldest_step (Some b) xs = Some m"
  by (induction xs arbitrary: b) auto

lemma oldest_None: "foldl oldest_step None xs = None \<longleftrightarrow> xs = []"
proof (cases xs)
  case (Cons x ys)
  then show ?thesis using oldest_fold_defined [of x ys] by auto
qed simp

lemma oldest_SomeD:
  assumes "foldl oldest_step None xs = Some m"
  shows "m \<in> set xs \<and> (\<forall>x \<in> set xs. ib_created_at m \<le> ib_created_at x)"
proof (cases xs)
  case Nil
  with assms show ?thesis by simp
next
  case (Cons x ys)
  with assms show ?thesis using oldest_fold_Some [of x ys m] by simp
qed

text \<open>The candidates of a \<open>dequeue\<close>: the latest rows that are pending and due.\<close>

definition candidate :: "mdir \<Rightarrow> int \<Rightarrow> inbox_row \<Rightarrow> bool" where
  "candidate d now m \<longleftrightarrow> latest_of d (ib_msg_id m) = Some m \<and> due d now m"

lemma candidate_iff:
  "m \<in> set (filter (due d now) (map snd (latest_messages (loadMessages d)))) \<longleftrightarrow> candidate d now m"
proof -
  let ?L = "latest_messages (loadMessages d)"
  have "m \<in> snd ` set ?L \<longleftrightarrow> (ib_msg_id m, m) \<in> set ?L"
  proof
    assume "m \<in> snd ` set ?L"
    then obtain i where i: "(i, m) \<in> set ?L" by auto
    from latest_messages_key [OF i] i show "(ib_msg_id m, m) \<in> set ?L" by simp
  next
    assume "(ib_msg_id m, m) \<in> set ?L"
    then show "m \<in> snd ` set ?L" by (rule image_eqI [rotated]) simp
  qed
  also have "\<dots> \<longleftrightarrow> jm_get ?L (ib_msg_id m) = Some m"
    by (rule in_set_map_of) simp
  also have "\<dots> \<longleftrightarrow> latest_of d (ib_msg_id m) = Some m"
    by (simp only: latest_messages_get latest_of_def)
  finally show ?thesis by (simp add: candidate_def conj_commute)
qed

lemma next_message_None: "next_message d now = None \<longleftrightarrow> (\<forall>m. \<not> candidate d now m)"
proof -
  have "next_message d now = None
      \<longleftrightarrow> filter (due d now) (map snd (latest_messages (loadMessages d))) = []"
    unfolding next_message_def by (rule oldest_None)
  also have "\<dots> \<longleftrightarrow> (\<forall>m. \<not> candidate d now m)"
    unfolding candidate_iff [symmetric] by (metis ex_in_conv set_empty)
  finally show ?thesis .
qed

lemma next_message_SomeD:
  assumes "next_message d now = Some m"
  shows "candidate d now m" "candidate d now x \<Longrightarrow> ib_created_at m \<le> ib_created_at x"
  using oldest_SomeD [OF assms [unfolded next_message_def]] unfolding candidate_iff [symmetric]
  by blast+

lemma next_message_pending:
  assumes "next_message d now = Some m"
  obtains s where "state_of d (ib_msg_id m) = Some s" "sr_state s = Pending" "ib_created_at m \<le> now"
  using next_message_SomeD(1) [OF assms] by (auto simp: candidate_def due_def split: option.splits)

section \<open>Frame: what an operation leaves alone\<close>

lemma state_of_retry_or_bury:
  assumes "ib_msg_id m = i"
  shows "state_of (apply_writes (retry_or_bury cfg now i m reason) d) j =
    (if j = i then Some (plain_state i (if attempt_of m + 1 \<ge> maxRetries cfg then DeadLetter else Pending) now)
     else state_of d j)"
  using assms by (auto simp: retry_or_bury_def Let_def)

lemma latest_of_id: "latest_of d i = Some m \<Longrightarrow> ib_msg_id m = i \<and> m \<in> set (inbox_rows d)"
  by (auto simp: latest_of_def loadMessages_def dest: pick_max_filter_Some)

lemma latest_of_None: "latest_of d i = None \<longleftrightarrow> (\<forall>m \<in> set (inbox_rows d). ib_msg_id m \<noteq> i)"
  by (simp add: latest_of_def loadMessages_def filter_empty_conv)

lemma state_of_recover_entry:
  "state_of (apply_writes (fst (recover_entry cfg now (i, e) d)) d) j =
    (if j \<noteq> i \<or> \<not> inflight_timed_out cfg now e then state_of d j
     else case latest_of d i of None \<Rightarrow> state_of d j
       | Some m \<Rightarrow> Some (if sr_non_retryable e = Some True then unknown_state i now
           else plain_state i (if attempt_of m + 1 \<ge> maxRetries cfg then DeadLetter else Pending) now))"
  by (auto simp: recover_entry_def state_of_retry_or_bury latest_of_id split: option.splits)

lemma latest_of_append_other:
  "latest_of (apply_write (AppendInbox r) d) i = latest_of d i" if "ib_msg_id r \<noteq> i"
  using that by (simp add: latest_of_def loadMessages_def)

lemma latest_of_append_state [simp]:
  "latest_of (apply_write (AppendState s) d) i = latest_of d i"
  "latest_of (apply_write (AppendDead x) d) i = latest_of d i"
  by (simp_all add: latest_of_def loadMessages_def)

lemma latest_of_recover_entry_other:
  "j \<noteq> i \<Longrightarrow> latest_of (apply_writes (fst (recover_entry cfg now (i, e) d)) d) j = latest_of d j"
  by (auto simp: recover_entry_def retry_or_bury_def retry_row_def Let_def latest_of_append_other
      dest: latest_of_id split: option.splits)


section \<open>Enqueue\<close>

lemma enqueue_records:
  "snd (enqueue_op cfg now m d) = Inr r \<Longrightarrow> state_of (after (enqueue_op cfg now m d) d) (ib_msg_id m) \<noteq> None"
  by (auto simp: mailbox_defs pending_row_def Let_def split: if_splits)

text \<open>
  Enqueueing is idempotent per message id: once an \<open>enqueue\<close> has returned, a second one
  with the same id, at any time and with any content, writes nothing and reports
  \<open>queued: false\<close>.
\<close>

theorem enqueue_idempotent:
  assumes "snd (enqueue_op cfg now m d) = Inr r" and "ib_msg_id m' = ib_msg_id m"
  shows "fst (enqueue_op cfg' now' m' (after (enqueue_op cfg now m d) d)) = []
    \<and> (\<exists>r'. snd (enqueue_op cfg' now' m' (after (enqueue_op cfg now m d) d)) = Inr r' \<and> \<not> eq_queued r')"
  using enqueue_records [OF assms(1)] assms(2) by (auto simp: enqueue_op_def)

definition sample_row :: "string \<Rightarrow> int \<Rightarrow> inbox_row" where
  "sample_row i at = \<lparr>ib_msg_id = i, ib_from = Some ''alice'', ib_to = ''s1'', ib_payload = ''hello'',
     ib_created_at = at, ib_attempt = Some 0, ib_handoff = None, ib_extra = []\<rparr>"

definition sample_dir :: mdir where
  "sample_dir = apply_writes [AppendInbox (sample_row ''m1'' 5), AppendState (plain_state ''m1'' Pending 5),
     AppendInbox (sample_row ''m2'' 4), AppendState (plain_state ''m2'' Pending 5)] empty_dir"

lemmas sample_defs = sample_row_def sample_dir_def empty_dir_def mailbox_defaults_def plain_state_def

theorem enqueue_idempotent_witness:
  "fst (enqueue_op mailbox_defaults 11 (sample_row ''m1'' 9)
     (after (enqueue_op mailbox_defaults 10 (sample_row ''m1'' 9) empty_dir) empty_dir)) = []"
proof -
  have "state_of empty_dir ''m1'' = None" by (simp add: state_of_journal empty_dir_def)
  then have "\<exists>r. snd (enqueue_op mailbox_defaults 10 (sample_row ''m1'' 9) empty_dir) = Inr r"
    by (simp add: enqueue_op_def sample_row_def mailbox_defaults_def Let_def)
  then obtain r where r: "snd (enqueue_op mailbox_defaults 10 (sample_row ''m1'' 9) empty_dir) = Inr r" ..
  show ?thesis using enqueue_idempotent [OF r refl, of mailbox_defaults 11] by simp
qed

section \<open>Dequeue\<close>

text \<open>
  C20. \<open>dequeue\<close> returns nothing exactly when no message is deliverable, and otherwise the
  latest row of a pending, due message that no other deliverable message is older than; the
  message is in flight afterwards and every other message keeps its state.
\<close>

theorem dequeue_correct:
  "case snd (dequeue_op now d) of
     Inl _ \<Rightarrow> False
   | Inr None \<Rightarrow> (\<forall>m. \<not> candidate d now m) \<and> after (dequeue_op now d) d = d
   | Inr (Some m) \<Rightarrow> candidate d now m
       \<and> (\<forall>x. candidate d now x \<longrightarrow> ib_created_at m \<le> ib_created_at x)
       \<and> state_of (after (dequeue_op now d) d) (ib_msg_id m) = Some (plain_state (ib_msg_id m) InFlight now)
       \<and> (\<forall>j. j \<noteq> ib_msg_id m \<longrightarrow> state_of (after (dequeue_op now d) d) j = state_of d j)
       \<and> inbox_rows (after (dequeue_op now d) d) = inbox_rows d"
proof (cases "next_message d now")
  case None
  then show ?thesis by (simp add: dequeue_op_def after_def next_message_None [symmetric])
next
  case (Some m)
  then show ?thesis
    using next_message_SomeD [OF Some] by (simp add: dequeue_op_def after_def)
qed

theorem dequeue_correct_witness:
  "snd (dequeue_op 10 sample_dir) = Inr (Some (sample_row ''m2'' 4))
    \<and> candidate sample_dir 10 (sample_row ''m2'' 4)
    \<and> state_of (after (dequeue_op 10 sample_dir) sample_dir) ''m2'' = Some (plain_state ''m2'' InFlight 10)"
proof -
  have e: "snd (dequeue_op 10 sample_dir) = Inr (Some (sample_row ''m2'' 4))"
    by code_simp
  show ?thesis using dequeue_correct [of sample_dir 10] unfolding e by (simp add: sample_row_def)
qed

end
