(* ===== verification/Mailbox_Compaction.thy ===== *)
theory Mailbox_Compaction
  imports Mailbox_Laws
begin

text \<open>
  \<open>compact\<close> rewrites the two files of a session. It is invisible: no later \<open>dequeue\<close>, pending
  count or state query can tell whether it ran, except for ids that were settled; and the rows
  that record an unknown outcome survive it. What it does forget is that a settled id was ever
  enqueued.
\<close>

section \<open>Rebuilding the state map\<close>

lemma jm_get_collect_map:
  assumes "\<And>x. key (f x) = key x"
  shows "jm_get (jm_collect key (map f xs)) k = map_option f (jm_get (jm_collect key xs) k)"
  using assms by (induction xs rule: rev_induct) auto

lemma jm_get_collect_append:
  "jm_get (jm_collect key (xs @ ys)) k =
    (case jm_get (jm_collect key ys) k of None \<Rightarrow> jm_get (jm_collect key xs) k | Some y \<Rightarrow> Some y)"
  by (induction ys rule: rev_induct) (auto simp flip: append_assoc split: option.splits)

lemma jm_get_collect_values:
  assumes "distinct (map fst m)" "\<And>k v. (k, v) \<in> set m \<Longrightarrow> key v = k"
  shows "jm_get (jm_collect key (filter Q (map snd m))) k =
    (case jm_get m k of None \<Rightarrow> None | Some v \<Rightarrow> if Q v then Some v else None)"
  using assms
proof (induction m rule: rev_induct)
  case Nil
  show ?case by simp
next
  case (snoc x m)
  obtain k0 v0 where x: "x = (k0, v0)" by fastforce
  from snoc.prems x have key: "key v0 = k0" by simp
  from snoc.prems(1) x have fresh: "jm_get m k0 = None" by (auto simp: map_of_eq_None_iff)
  have "jm_get (jm_collect key (filter Q (map snd m))) k =
    (case jm_get m k of None \<Rightarrow> None | Some v \<Rightarrow> if Q v then Some v else None)"
    using snoc by simp
  then show ?case using x key fresh by (auto simp: map_add_def split: option.splits)
qed

lemma loadStates_key: "(k, v) \<in> set (loadStates d) \<Longrightarrow> sr_msg_id v = k"
  by (metis distinct_loadStates in_set_map_of state_of_def state_of_id)

lemma compact_state_simps [simp]:
  "sr_msg_id (compact_state p e) = sr_msg_id e" "sr_state (compact_state p e) = sr_state e"
  "sr_ts (compact_state p e) = sr_ts e" "sr_non_retryable (compact_state p e) = sr_non_retryable e"
  "unknown_row (compact_state p e) = unknown_row e"
  by (simp_all add: compact_state_def unknown_row_def)

lemma compact_journal_get:
  "jm_get (jm_collect sr_msg_id (compact_journal p d)) i =
    (if i \<in> set (unknown_ids d) then state_of d i
     else case state_of d i of None \<Rightarrow> None
       | Some e \<Rightarrow> if terminal_state (sr_state e) then None else Some (compact_state p e))"
proof -
  let ?Q = "\<lambda>e. sr_msg_id e \<notin> set (unknown_ids d) \<and> \<not> terminal_state (sr_state e)"
  have tail: "jm_get (jm_collect sr_msg_id (map (compact_state p) (filter ?Q (map snd (loadStates d))))) i =
      map_option (compact_state p)
        (case state_of d i of None \<Rightarrow> None | Some e \<Rightarrow> if ?Q e then Some e else None)"
    by (simp add: jm_get_collect_map jm_get_collect_values loadStates_key state_of_def)
  have head: "i \<in> set (unknown_ids d) \<Longrightarrow>
      jm_get (jm_collect sr_msg_id (filter (\<lambda>r. sr_msg_id r \<in> set (unknown_ids d)) (journal_rows d))) i = state_of d i"
    by (simp add: jm_collect_filter_get state_of_journal)
  have head_out: "jm_get (jm_collect sr_msg_id (filter (\<lambda>r. sr_msg_id r \<in> set (unknown_ids d)) (journal_rows d))) i = None"
    if "i \<notin> set (unknown_ids d)"
    using that by (simp only: jm_get_collect_None) auto
  show ?thesis
    using head head_out state_of_id [of d i]
    by (auto simp: compact_journal_def jm_get_collect_append tail split: option.splits)
qed

section \<open>Compaction is invisible\<close>

text \<open>The two outcomes of \<open>compact\<close>: nothing is written, or both files are rewritten.\<close>

lemma compact_cases:
  obtains "after (compact_op cfg sid d) d = d"
  | p where "snd (compact_op cfg sid d) = Inr ()" "pristinePendingIds sid d = Some p"
      "inbox_rows (after (compact_op cfg sid d) d) = filter (keep_message d) (inbox_rows d)"
      "journal_rows (after (compact_op cfg sid d) d) = compact_journal p d"
      "dead_rows (after (compact_op cfg sid d) d) = dead_rows d"
  by (cases "int (terminal_count d) < compactionThreshold cfg"; cases "pristinePendingIds sid d")
    (simp_all add: compact_op_def after_def loadMessages_def)

lemma compact_state_of:
  "state_of (after (compact_op cfg sid d) d) i = state_of d i
   \<or> (\<exists>p e. state_of d i = Some e \<and> i \<notin> set (unknown_ids d)
        \<and> state_of (after (compact_op cfg sid d) d) i =
            (if terminal_state (sr_state e) then None else Some (compact_state p e)))"
proof (cases rule: compact_cases [of cfg sid d])
  case 1
  then show ?thesis by simp
next
  case (2 p)
  then show ?thesis
    by (auto simp: state_of_journal [of "after (compact_op cfg sid d) d"] compact_journal_get
        split: option.splits)
qed

lemma compact_keeps_state:
  assumes "\<not> row_terminal d i"
  shows "map_option sr_state (state_of (after (compact_op cfg sid d) d) i) = map_option sr_state (state_of d i)"
  using compact_state_of [of cfg sid d i] assms by (auto simp: row_terminal_def)

lemma compact_pending_iff:
  "(\<exists>s. state_of (after (compact_op cfg sid d) d) i = Some s \<and> sr_state s = Pending)
    \<longleftrightarrow> (\<exists>s. state_of d i = Some s \<and> sr_state s = Pending)"
  using compact_state_of [of cfg sid d i] by (auto simp: terminal_state_def split: if_splits)

lemma countPending_card:
  "countPending d = card {i. \<exists>s. state_of d i = Some s \<and> sr_state s = Pending}"
proof -
  let ?P = "\<lambda>(i, e). sr_state e = Pending" and ?m = "loadStates d"
  have "distinct (map fst (filter ?P ?m))" by (rule distinct_map_filter) simp
  then have "card (set (map fst (filter ?P ?m))) = length (map fst (filter ?P ?m))"
    by (rule distinct_card)
  then have "countPending d = card (fst ` set (filter ?P ?m))"
    by (simp only: countPending_def set_map length_map)
  also have "fst ` set (filter ?P ?m) = {i. \<exists>s. state_of d i = Some s \<and> sr_state s = Pending}"
    unfolding state_of_def by (force simp: in_set_map_of [symmetric])
  finally show ?thesis .
qed

lemma due_iff_state: "due d now m \<longleftrightarrow>
    (\<exists>s. state_of d (ib_msg_id m) = Some s \<and> sr_state s = Pending) \<and> \<not> ib_created_at m > now"
  by (auto simp: due_def split: option.splits)

lemma compact_next_message: "next_message (after (compact_op cfg sid d) d) now = next_message d now"
proof (cases rule: compact_cases [of cfg sid d])
  case 1
  then show ?thesis by simp
next
  case (2 p)
  let ?d' = "after (compact_op cfg sid d) d" and ?L = "latest_messages (inbox_rows d)"
  let ?K = "\<lambda>i. i \<in> set (unknown_ids d) \<or> \<not> row_terminal d i"
  have due: "due ?d' now m = due d now m" for m
    by (simp only: due_iff_state compact_pending_iff)
  have "latest_messages (inbox_rows ?d') = filter (\<lambda>(i, _). ?K i) ?L"
    unfolding 2 keep_message_def by (rule latest_messages_filter)
  moreover have "filter (due d now) (map snd (filter (\<lambda>(i, _). ?K i) ?L)) = filter (due d now) (map snd ?L)"
  proof -
    have "due d now m \<Longrightarrow> ?K (ib_msg_id m)" for m
      by (auto simp: due_def row_terminal_def terminal_state_def split: option.splits)
    then have key: "due d now (snd x) \<Longrightarrow> ?K (fst x)" if "x \<in> set ?L" for x
      using latest_messages_key [of "fst x" "snd x"] that by (metis prod.collapse)
    have "filter (due d now \<circ> snd) (filter (\<lambda>(i, _). ?K i) ?L) = filter (due d now \<circ> snd) ?L"
      unfolding filter_filter
    proof (rule filter_cong [OF refl])
      fix x
      assume "x \<in> set ?L"
      then show "((case x of (i, _) \<Rightarrow> ?K i) \<and> (due d now \<circ> snd) x) = (due d now \<circ> snd) x"
        using key [of x] by (auto simp: case_prod_unfold)
    qed
    then show ?thesis by (simp only: filter_map)
  qed
  ultimately show ?thesis unfolding next_message_def loadMessages_def due by simp
qed


lemma compact_countPending: "countPending (after (compact_op cfg sid d) d) = countPending d"
  by (simp only: countPending_card compact_pending_iff)

lemma compact_unknown_rows:
  "filter unknown_row (journal_rows (after (compact_op cfg sid d) d)) = filter unknown_row (journal_rows d)"
proof (cases rule: compact_cases [of cfg sid d])
  case 1
  then show ?thesis by simp
next
  case (2 p)
  have "filter unknown_row (filter (\<lambda>r. sr_msg_id r \<in> set (unknown_ids d)) (journal_rows d))
      = filter unknown_row (journal_rows d)"
    unfolding filter_filter by (rule filter_cong) (auto simp: unknown_ids_def)
  moreover have "\<not> unknown_row e" if "e \<in> snd ` set (loadStates d)" "sr_msg_id e \<notin> set (unknown_ids d)" for e
  proof -
    from that(1) obtain i where "(i, e) \<in> set (loadStates d)" by auto
    then have "jm_get (loadStates d) i = Some e" by (simp only: in_set_map_of [OF distinct_loadStates])
    then have "e \<in> set (journal_rows d)"
      unfolding loadStates_def by (rule conjunct1 [OF jm_get_collect_Some])
    with that(2) show ?thesis by (auto simp: unknown_ids_def)
  qed
  then have "filter unknown_row (map (compact_state p) (filter (\<lambda>e. sr_msg_id e \<notin> set (unknown_ids d)
      \<and> \<not> terminal_state (sr_state e)) (map snd (loadStates d)))) = []"
    by (auto simp: filter_empty_conv)
  ultimately show ?thesis unfolding 2 compact_journal_def by simp
qed


text \<open>A directory with one settled and one waiting message, compacted at threshold 1.\<close>

definition eager_config :: mailbox_config where
  "eager_config = mailbox_defaults\<lparr>compactionThreshold := 1\<rparr>"

definition settled_dir :: mdir where
  "settled_dir = apply_writes [AppendState (plain_state ''m1'' Acked 9)] sample_dir"


section \<open>What compaction forgets, and what stops it\<close>


text \<open>
  An \<open>ack\<close> for an id that was never enqueued is recorded, and from then on the custody
  reader refuses the session: compaction can never run again, and an \<open>ack\<close> of a real message
  records its state and then fails.
\<close>

theorem ack_of_unknown_id_blocks_compaction:
  "let d = after (ack_op mailbox_defaults ''s1'' 9 ''nobody'' NoProof sample_dir) sample_dir
   in snd (ack_op mailbox_defaults ''s1'' 9 ''nobody'' NoProof sample_dir) = Inr ()
      \<and> strictCustodySnapshot ''s1'' sample_dir \<noteq> None
      \<and> strictCustodySnapshot ''s1'' d = None
      \<and> pristinePendingIds ''s1'' d = None
      \<and> snd (ack_op eager_config ''s1'' 10 ''m2'' NoProof d) = Inl CustodyUnavailable
      \<and> map_option sr_state (state_of (after (ack_op eager_config ''s1'' 10 ''m2'' NoProof d) d) ''m2'') = Some Acked"
  by code_simp

end
