(* ===== verification/Mailbox_Recovery.thy ===== *)
theory Mailbox_Recovery
  imports Mailbox_Laws
begin

text \<open>
  What happens to a message that was not acknowledged: the retry schedule of \<open>nack\<close>, the
  recovery of timed-out attempts with the quarantine of fenced ones, expiry, withdrawal, and
  the exactness of the strict custody snapshot.
\<close>

section \<open>Retry\<close>

lemma latest_of_append_newer:
  assumes "latest_of d (ib_msg_id r) = Some m" "attempt_of r > attempt_of m"
  shows "latest_of (apply_write (AppendInbox r) d) (ib_msg_id r) = Some r"
  using assms by (simp add: latest_of_def loadMessages_def pick_step_def)

lemma retry_row_simps [simp]:
  "ib_msg_id (retry_row m at n) = ib_msg_id m" "attempt_of (retry_row m at n) = n"
  "ib_created_at (retry_row m at n) = at" "ib_payload (retry_row m at n) = ib_payload m"
  by (simp_all add: retry_row_def attempt_of_def)

text \<open>
  C23. A failed delivery below the retry bound makes the message pending again under the next
  attempt number, deliverable exactly from \<open>now + base * 2^(attempts so far)\<close> on; at the bound it
  moves, with its payload and the reason, to the dead letters, and no retry is scheduled.
\<close>

theorem nack_schedule:
  assumes m: "latest_of d i = Some m" and live: "\<forall>s. state_of d i = Some s \<longrightarrow> sr_state s \<noteq> DeadLetter"
    and bound: "0 \<le> attempt_of m" "attempt_of m < 31" and why: "reason \<noteq> []"
  shows "let d' = after (nack_op cfg now i reason d) d; n = attempt_of m + 1;
             due_at = now + retryBackoffSecs cfg * 2 ^ nat (attempt_of m)
         in if n < maxRetries cfg
            then latest_of d' i = Some (retry_row m due_at n)
              \<and> (\<forall>t. candidate d' t (retry_row m due_at n) \<longleftrightarrow> due_at \<le> t)
              \<and> dead_rows d' = dead_rows d
            else map_option sr_state (state_of d' i) = Some DeadLetter
              \<and> dead_rows d' = dead_rows d @ [dead_letter m reason now n]
              \<and> inbox_rows d' = inbox_rows d"
proof -
  have i: "ib_msg_id m = i" using latest_of_id [OF m] by simp
  have nack: "fst (nack_op cfg now i reason d) = retry_or_bury cfg now i m reason"
    using m live why by (simp add: nack_op_def split: option.splits)
  have shl: "backoff cfg (attempt_of m + 1) = retryBackoffSecs cfg * 2 ^ nat (attempt_of m)"
    using bound by (simp add: backoff_def shl_one_small)
  show ?thesis
  proof (cases "attempt_of m + 1 < maxRetries cfg")
    case True
    let ?r = "retry_row m (now + retryBackoffSecs cfg * 2 ^ nat (attempt_of m)) (attempt_of m + 1)"
    let ?d = "apply_write (AppendState (plain_state i Nacked now)) d"
    have "latest_of (apply_write (AppendInbox ?r) ?d) i = Some ?r"
      using latest_of_append_newer [of ?d ?r m] m i by simp
    then have lat: "latest_of (after (nack_op cfg now i reason d) d) i = Some ?r"
      using True by (simp add: after_def nack retry_or_bury_def Let_def shl i)
    have "state_of (after (nack_op cfg now i reason d) d) i = Some (plain_state i Pending now)"
      using True by (simp add: after_def nack state_of_retry_or_bury i)
    with lat True show ?thesis
      by (auto simp: Let_def candidate_def due_def i after_def nack retry_or_bury_def)
  next
    case False
    then show ?thesis
      by (simp add: Let_def after_def nack state_of_retry_or_bury i)
        (simp add: retry_or_bury_def Let_def)
  qed
qed

theorem nack_schedule_witness:
  "latest_of (after (nack_op mailbox_defaults 20 ''m1'' ''boom'' sample_dir) sample_dir) ''m1''
     = Some (retry_row (sample_row ''m1'' 5) 21 1)"
proof -
  have m: "latest_of sample_dir ''m1'' = Some (sample_row ''m1'' 5)" by code_simp
  have st: "map_option sr_state (state_of sample_dir ''m1'') = Some Pending" by code_simp
  then have live: "\<forall>s. state_of sample_dir ''m1'' = Some s \<longrightarrow> sr_state s \<noteq> DeadLetter" by auto
  have a: "attempt_of (sample_row ''m1'' 5) = 0" by (simp add: sample_row_def attempt_of_def)
  show ?thesis
    using nack_schedule [OF m live, of "''boom''" mailbox_defaults 20] a
    by (simp add: mailbox_defaults_def Let_def)
qed

section \<open>Recovery of timed-out attempts\<close>

definition recovered_state :: "mailbox_config \<Rightarrow> int \<Rightarrow> string \<Rightarrow> state_row \<Rightarrow> inbox_row option \<Rightarrow> state_row" where
  "recovered_state cfg now i e latest =
     (case latest of
        None \<Rightarrow> e
      | Some m \<Rightarrow>
          if \<not> inflight_timed_out cfg now e then e
          else if sr_non_retryable e = Some True then unknown_state i now
          else plain_state i (if attempt_of m + 1 \<ge> maxRetries cfg then DeadLetter else Pending) now)"

lemma state_of_recover_entry':
  assumes "state_of d i = Some e"
  shows "state_of (apply_writes (fst (recover_entry cfg now (i, e) d)) d) j =
    (if j = i then Some (recovered_state cfg now i e (latest_of d i)) else state_of d j)"
  using assms by (auto simp: state_of_recover_entry recovered_state_def split: option.splits)

lemma state_of_recover_entries:
  assumes "distinct (map fst ies)" "\<And>i e. (i, e) \<in> set ies \<Longrightarrow> state_of d i = Some e"
  shows "state_of (apply_writes (fst (recover_entries cfg now ies d)) d) j =
    (case map_of ies j of None \<Rightarrow> state_of d j
       | Some e \<Rightarrow> Some (recovered_state cfg now j e (latest_of d j)))"
  using assms
proof (induction ies arbitrary: d)
  case Nil
  then show ?case by simp
next
  case (Cons ie ies)
  obtain i e where ie: "ie = (i, e)" by fastforce
  let ?d = "apply_writes (fst (recover_entry cfg now (i, e) d)) d"
  have here: "state_of d i = Some e" using Cons.prems ie by simp
  have fresh: "map_of ies i = None" using Cons.prems(1) ie by (auto simp: map_of_eq_None_iff)
  have later: "state_of ?d k = Some f" if "(k, f) \<in> set ies" for k f
  proof -
    have "k \<noteq> i" using that Cons.prems(1) ie by force
    moreover have "state_of d k = Some f" using that Cons.prems(2) by simp
    ultimately show ?thesis by (simp add: state_of_recover_entry' [OF here])
  qed
  have "state_of (apply_writes (fst (recover_entries cfg now ies ?d)) ?d) j =
    (case map_of ies j of None \<Rightarrow> state_of ?d j
       | Some e \<Rightarrow> Some (recovered_state cfg now j e (latest_of ?d j)))"
    using Cons.prems ie later by (intro Cons.IH) auto
  then show ?case
    using ie here fresh
    by (auto simp: case_prod_unfold Let_def state_of_recover_entry' latest_of_recover_entry_other
        split: option.splits)
qed

lemma state_of_recover:
  "state_of (after (recoverInflight_op cfg now d) d) i =
     map_option (\<lambda>e. recovered_state cfg now i e (latest_of d i)) (state_of d i)"
proof -
  have "state_of (apply_writes (fst (recover_entries cfg now (loadStates d) d)) d) i =
    (case map_of (loadStates d) i of None \<Rightarrow> state_of d i
       | Some e \<Rightarrow> Some (recovered_state cfg now i e (latest_of d i)))"
    by (rule state_of_recover_entries) (simp_all add: state_of_def)
  then show ?thesis
    by (simp add: after_def recoverInflight_op_def case_prod_unfold Let_def state_of_def split: option.splits)
qed

text \<open>
  C24. Recovery never makes a fenced attempt deliverable again: a timed-out in-flight message
  whose attempt was fenced becomes a dead letter of unknown outcome, an unfenced one becomes
  pending or, at the bound, a dead letter, and a message that is not timed out in flight keeps
  its state.
\<close>

theorem recovery_quarantines_fenced:
  assumes "latest_of d i = Some m" and "state_of d i = Some e"
  shows "state_of (after (recoverInflight_op cfg now d) d) i =
    Some (if sr_state e = InFlight \<and> now - sr_ts e \<ge> inflightTimeoutSecs cfg
          then (if sr_non_retryable e = Some True then unknown_state i now
                else if attempt_of m + 1 < maxRetries cfg then plain_state i Pending now
                else plain_state i DeadLetter now)
          else e)"
  using assms by (auto simp: state_of_recover recovered_state_def inflight_timed_out_def)

definition fenced_dir :: mdir where
  "fenced_dir = after (begin_op 11 ''m2'' (after (dequeue_op 10 sample_dir) sample_dir))
     (after (dequeue_op 10 sample_dir) sample_dir)"

theorem recovery_quarantines_fenced_witness:
  "state_of (after (recoverInflight_op mailbox_defaults 50 fenced_dir) fenced_dir) ''m2''
     = Some (unknown_state ''m2'' 50)"
proof -
  have m: "latest_of fenced_dir ''m2'' = Some (sample_row ''m2'' 4)" by code_simp
  have e: "state_of fenced_dir ''m2'' = Some ((plain_state ''m2'' InFlight 11)\<lparr>sr_non_retryable := Some True\<rparr>)"
    by code_simp
  show ?thesis
    unfolding recovery_quarantines_fenced [OF m e] by (simp add: plain_state_def mailbox_defaults_def)
qed

section \<open>Expiry and withdrawal\<close>

lemma state_of_expire_writes:
  "state_of (apply_writes (map (\<lambda>m. AppendState (plain_state (ib_msg_id m) Expired now)) ms) d) i =
    (if i \<in> ib_msg_id ` set ms then Some (plain_state i Expired now) else state_of d i)"
  by (induction ms rule: rev_induct) auto

lemma expire_states:
  "state_of (apply_writes (expire_writes cfg now d) d) i =
    (if \<exists>m \<in> set (inbox_rows d). ib_msg_id m = i \<and> message_expires cfg now d m
     then Some (plain_state i Expired now) else state_of d i)"
  by (auto simp: expire_writes_def state_of_expire_writes loadMessages_def)

lemma expiry_spares_fence:
  "state_of d i = Some s \<Longrightarrow> sr_non_retryable s = Some True \<Longrightarrow>
     state_of (apply_writes (expire_writes cfg now d) d) i = Some s"
  by (auto simp: expire_states message_expires_def)

lemma withdraw_states:
  "state_of (after (withdraw_op now i reason infl unc meta d) d) j =
    (if j = i \<and> snd (withdraw_op now i reason infl unc meta d) = Inr True
     then Some (if unc then unknown_state i now else plain_state i DeadLetter now) else state_of d j)"
  by (auto simp: withdraw_op_def after_def Let_def split: option.splits)

lemma withdraw_result:
  "snd (withdraw_op now i reason infl unc meta d) = Inr True \<longleftrightarrow>
    latest_of d i \<noteq> None \<and> (\<exists>s. state_of d i = Some s \<and> (sr_state s = Pending \<or> infl \<and> sr_state s = InFlight))"
  by (auto simp: withdraw_op_def Let_def split: option.splits)

end
