(* ===== verification/Mailbox_Delivery.thy ===== *)
theory Mailbox_Delivery
  imports Mailbox_Compaction Mailbox_Recovery
begin

text \<open>
  The delivery engine of \<open>src/mailbox/delivery.js\<close>: one \<open>_tick\<close> visits every resolved session,
  recovers and expires, takes one message, fences it, calls the deliverer and settles the
  result. Everything outside the engine is an argument of a visit: what \<open>canProcess\<close> answers,
  the clock, the fault of each mailbox call, the deliverer's result and what other callers of the
  mailbox do while the deliverer runs.
\<close>

section \<open>The engine and its surroundings\<close>

text \<open>
  A mailbox call works, is refused by the lock before it writes anything (\<open>lockRefused\<close>), or
  throws another error after some of its writes.
\<close>

datatype call_fault = NoFault | LockRefused | Broken nat

datatype call_error = RefusedByLock | OtherError

definition call :: "call_fault \<Rightarrow> 'a outcome \<Rightarrow> mdir \<Rightarrow> mdir \<times> (call_error + 'a)" where
  "call f r d =
     (case f of
        NoFault \<Rightarrow> (after r d, (case snd r of Inl _ \<Rightarrow> Inl OtherError | Inr x \<Rightarrow> Inr x))
      | LockRefused \<Rightarrow> (d, Inl RefusedByLock)
      | Broken k \<Rightarrow> (crashed k r d, Inl OtherError))"

datatype deliver_result =
    DeliverSuccess ack_proof
  | DeliverUncertain
  | DeliverFailed string
  | DeliverNothing
  | DeliverThrew

text \<open>What the engine does to the deliverer and tells \<open>onDelivery\<close>, in order.\<close>

datatype delivery_event =
    Invoked string
  | Returned string deliver_result
  | ReportSuccess string
  | ReportAckStoreUnavailable string
  | ReportUnknown string bool
  | ReportFailure string string

record visit_env =
  ve_can :: "nat \<Rightarrow> bool"
  ve_now_ms :: int
  ve_has_deliver :: bool
  ve_recover :: call_fault
  ve_expire :: call_fault
  ve_dequeue :: call_fault
  ve_begin :: call_fault
  ve_settle :: call_fault
  ve_result :: deliver_result
  ve_during :: "mdir \<Rightarrow> mdir"

record engine =
  en_running :: bool
  en_tick_in_progress :: bool
  en_poll_ms :: int
  en_lock_failures :: "(string, nat) jsmap"
  en_skip_until :: "(string, int) jsmap"

definition new_engine :: "mailbox_config \<Rightarrow> int \<Rightarrow> engine" where
  "new_engine cfg poll = \<lparr>en_running = False, en_tick_in_progress = False,
     en_poll_ms = (if poll \<noteq> 0 then poll else if deliveryPollMs cfg \<noteq> 0 then deliveryPollMs cfg else 200),
     en_lock_failures = [], en_skip_until = []\<rparr>"

definition engine_start :: "engine \<Rightarrow> engine" where
  "engine_start e = (if en_running e then e else e\<lparr>en_running := True\<rparr>)"

definition engine_stop :: "engine \<Rightarrow> engine" where
  "engine_stop e = e\<lparr>en_running := False\<rparr>"

section \<open>One visit\<close>

text \<open>
  The state of a visit: the session's directory, the engine, the events so far, whether the loop
  body has executed \<open>continue\<close> and whether a call was refused by the lock.
\<close>

record visit =
  vi_dir :: mdir
  vi_engine :: engine
  vi_log :: "delivery_event list"
  vi_done :: bool
  vi_lock_failed :: bool

definition unix_now :: "visit_env \<Rightarrow> int" where
  "unix_now env = ve_now_ms env div 1000"

definition note_call :: "mdir \<times> (call_error + 'a) \<Rightarrow> visit \<Rightarrow> visit" where
  "note_call c v = v\<lparr>vi_dir := fst c,
     vi_lock_failed := (case snd c of Inl RefusedByLock \<Rightarrow> True | _ \<Rightarrow> vi_lock_failed v)\<rparr>"

definition clear_failures :: "string \<Rightarrow> visit \<Rightarrow> visit" where
  "clear_failures sid v = v\<lparr>vi_engine := (vi_engine v)
     \<lparr>en_lock_failures := jm_delete sid (en_lock_failures (vi_engine v)),
      en_skip_until := jm_delete sid (en_skip_until (vi_engine v))\<rparr>\<rparr>"

definition log_event :: "delivery_event \<Rightarrow> visit \<Rightarrow> visit" where
  "log_event e v = v\<lparr>vi_log := vi_log v @ [e]\<rparr>"

definition recover_stage :: "mailbox_config \<Rightarrow> visit_env \<Rightarrow> visit \<Rightarrow> visit" where
  "recover_stage cfg env v =
     (if \<not> ve_can env 1 then v\<lparr>vi_done := True\<rparr>
      else note_call (call (ve_recover env) (recoverInflight_op cfg (unix_now env) (vi_dir v)) (vi_dir v)) v)"

definition expire_stage :: "mailbox_config \<Rightarrow> string \<Rightarrow> visit_env \<Rightarrow> visit \<Rightarrow> visit" where
  "expire_stage cfg sid env v =
     (if vi_done v \<or> vi_lock_failed v then v
      else if \<not> ve_can env 2 then v\<lparr>vi_done := True\<rparr>
      else note_call (call (ve_expire env) (expireStale_op cfg sid (unix_now env) (vi_dir v)) (vi_dir v)) v)"

text \<open>Settling the deliverer's result: acknowledge, quarantine or schedule a retry.\<close>

definition settle_stage :: "mailbox_config \<Rightarrow> string \<Rightarrow> visit_env \<Rightarrow> inbox_row \<Rightarrow> deliver_result \<Rightarrow> visit \<Rightarrow> visit" where
  "settle_stage cfg sid env m res v =
     (let i = ib_msg_id m; now = unix_now env; d = vi_dir v in
      case res of
        DeliverSuccess proof \<Rightarrow>
          (let c = call (ve_settle env) (ack_op cfg sid now i proof d) d in
           case snd c of
             Inl _ \<Rightarrow> (log_event (ReportAckStoreUnavailable i) (v\<lparr>vi_dir := fst c\<rparr>))\<lparr>vi_done := True\<rparr>
           | Inr _ \<Rightarrow> clear_failures sid (log_event (ReportSuccess i) (v\<lparr>vi_dir := fst c\<rparr>)))
      | DeliverUncertain \<Rightarrow>
          (let c = call (ve_settle env) (withdraw_op now i ''delivery_outcome_unknown'' True True None d) d;
               quarantined = (case snd c of Inl _ \<Rightarrow> False | Inr b \<Rightarrow> b)
           in clear_failures sid (log_event (ReportUnknown i quarantined) (v\<lparr>vi_dir := fst c\<rparr>)))
      | DeliverThrew \<Rightarrow>
          (let c = call (ve_settle env) (withdraw_op now i ''delivery_outcome_unknown'' True True None d) d;
               quarantined = (case snd c of Inl _ \<Rightarrow> False | Inr b \<Rightarrow> b)
           in clear_failures sid (log_event (ReportUnknown i quarantined) (v\<lparr>vi_dir := fst c\<rparr>)))
      | _ \<Rightarrow>
          (let reason = (case res of DeliverFailed e \<Rightarrow> if e = [] then ''delivery failed'' else e
                                   | _ \<Rightarrow> ''delivery failed'');
               c = call (ve_settle env) (nack_op cfg now i reason d) d
           in case snd c of
                Inl _ \<Rightarrow> note_call c v
              | Inr _ \<Rightarrow> clear_failures sid (log_event (ReportFailure i reason) (v\<lparr>vi_dir := fst c\<rparr>))))"

definition fence_failed :: string where
  "fence_failed = ''Delivery attempt fence unavailable; callback was not invoked.''"

definition attempt_stage :: "mailbox_config \<Rightarrow> string \<Rightarrow> visit_env \<Rightarrow> inbox_row \<Rightarrow> visit \<Rightarrow> visit" where
  "attempt_stage cfg sid env m v =
     (let i = ib_msg_id m;
          c = call (ve_begin env) (begin_op (unix_now env) i (vi_dir v)) (vi_dir v)
      in if snd c \<noteq> Inr True
         then settle_stage cfg sid env m (DeliverFailed fence_failed) (v\<lparr>vi_dir := fst c\<rparr>)
         else settle_stage cfg sid env m (ve_result env)
                (log_event (Returned i (ve_result env))
                  (log_event (Invoked i) (v\<lparr>vi_dir := ve_during env (fst c)\<rparr>))))"

definition deliver_stage :: "mailbox_config \<Rightarrow> string \<Rightarrow> visit_env \<Rightarrow> visit \<Rightarrow> visit" where
  "deliver_stage cfg sid env v =
     (if vi_done v \<or> vi_lock_failed v then v
      else if \<not> ve_can env 3 then v\<lparr>vi_done := True\<rparr>
      else let c = call (ve_dequeue env) (dequeue_op (unix_now env) (vi_dir v)) (vi_dir v);
               w = note_call c v
           in case snd c of
                Inl _ \<Rightarrow> w
              | Inr None \<Rightarrow> (clear_failures sid w)\<lparr>vi_done := True\<rparr>
              | Inr (Some m) \<Rightarrow>
                  if \<not> ve_has_deliver env
                  then let a = call (ve_settle env) (ack_op cfg sid (unix_now env) (ib_msg_id m) NoProof (vi_dir w)) (vi_dir w)
                       in case snd a of
                            Inl _ \<Rightarrow> note_call a w
                          | Inr _ \<Rightarrow> (clear_failures sid (w\<lparr>vi_dir := fst a\<rparr>))\<lparr>vi_done := True\<rparr>
                  else attempt_stage cfg sid env m w)"

definition backoff_ms :: "int \<Rightarrow> nat \<Rightarrow> int" where
  "backoff_ms poll fails = min (poll * 2 ^ fails) 30000"

definition backoff_stage :: "string \<Rightarrow> visit_env \<Rightarrow> visit \<Rightarrow> visit" where
  "backoff_stage sid env v =
     (if vi_done v \<or> \<not> vi_lock_failed v then v
      else let e = vi_engine v;
               fails = min ((case jm_get (en_lock_failures e) sid of None \<Rightarrow> 0 | Some n \<Rightarrow> n) + 1) 16
           in v\<lparr>vi_engine := e\<lparr>en_lock_failures := jm_set sid fails (en_lock_failures e),
                  en_skip_until := jm_set sid (ve_now_ms env + backoff_ms (en_poll_ms e) fails) (en_skip_until e)\<rparr>\<rparr>)"

definition skipped :: "string \<Rightarrow> visit_env \<Rightarrow> engine \<Rightarrow> bool" where
  "skipped sid env e \<longleftrightarrow> \<not> ve_can env 0
     \<or> ve_now_ms env < (case jm_get (en_skip_until e) sid of None \<Rightarrow> 0 | Some t \<Rightarrow> t)"

definition visit_session :: "mailbox_config \<Rightarrow> string \<Rightarrow> visit_env \<Rightarrow> engine \<Rightarrow> mdir \<Rightarrow> visit" where
  "visit_session cfg sid env e d =
     (let v = \<lparr>vi_dir = d, vi_engine = e, vi_log = [], vi_done = False, vi_lock_failed = False\<rparr>
      in if skipped sid env e then v
         else backoff_stage sid env (deliver_stage cfg sid env
                (expire_stage cfg sid env (recover_stage cfg env v))))"

section \<open>One tick\<close>

text \<open>
  A tick while another one is running does nothing. The sessions come from \<open>sessionResolver\<close>,
  each with the surroundings of its visit; a session without a directory is visited with the
  operations' defaults, which change nothing.
\<close>

fun visit_all :: "mailbox_config \<Rightarrow> (string \<times> visit_env) list \<Rightarrow> engine \<Rightarrow> mroot
    \<Rightarrow> engine \<times> mroot \<times> (string \<times> delivery_event) list" where
  "visit_all cfg [] e root = (e, root, [])"
| "visit_all cfg ((sid, env) # rest) e root =
     (case root sid of
        None \<Rightarrow> visit_all cfg rest e root
      | Some d \<Rightarrow>
          (let v = visit_session cfg sid env e d;
               (e', root', log) = visit_all cfg rest (vi_engine v) (root(sid \<mapsto> vi_dir v))
           in (e', root', map (Pair sid) (vi_log v) @ log)))"

definition tick :: "mailbox_config \<Rightarrow> (string \<times> visit_env) list \<Rightarrow> engine \<Rightarrow> mroot
    \<Rightarrow> engine \<times> mroot \<times> (string \<times> delivery_event) list" where
  "tick cfg visits e root =
     (if en_tick_in_progress e then (e, root, [])
      else let (e', root', log) = visit_all cfg visits (e\<lparr>en_tick_in_progress := True\<rparr>) root
           in (e'\<lparr>en_tick_in_progress := False\<rparr>, root', log))"

end
