(* ===== verification/Mailbox_Quarantine.thy ===== *)
theory Mailbox_Quarantine
  imports Mailbox_Delivery
begin

text \<open>
  The safety of the delivery engine: a message whose delivery may have happened is never
  delivered again. The engine of \<open>src/mailbox/delivery.js\<close> is a client of any store with the
  operations take, fence and settle; \<open>dstep\<close> is its step relation, with a process crash at any
  point and other callers of the store between any two steps. What the engine relies on is the
  locale \<open>fenced_store\<close>, and \<open>FileMailbox\<close> provides it for every prefix of its writes.
\<close>

section \<open>The engine as a client of a store\<close>

datatype 'm phase = Idle | Got 'm | Invoking 'm | Settling 'm deliver_result

record ('s, 'm) system =
  sy_store :: 's
  sy_phase :: "'m phase"
  sy_trace :: "delivery_event list"

text \<open>A result after which the engine may offer the message again: the deliverer reported a failure.\<close>

fun definite_failure :: "deliver_result \<Rightarrow> bool" where
  "definite_failure (DeliverFailed _) = True"
| "definite_failure DeliverNothing = True"
| "definite_failure _ = False"

text \<open>A message is sealed from its invocation until the deliverer reports a definite failure.\<close>

definition seal_step :: "string \<Rightarrow> bool \<Rightarrow> delivery_event \<Rightarrow> bool" where
  "seal_step i b e = (case e of
     Invoked j \<Rightarrow> j = i \<or> b
   | Returned j r \<Rightarrow> (if j = i \<and> definite_failure r then False else b)
   | _ \<Rightarrow> b)"

definition sealed :: "delivery_event list \<Rightarrow> string \<Rightarrow> bool" where
  "sealed tr i = foldl (seal_step i) False tr"

lemma sealed_Nil [simp]: "\<not> sealed [] i"
  by (simp add: sealed_def)

lemma sealed_snoc [simp]: "sealed (tr @ [e]) i = seal_step i (sealed tr i) e"
  by (simp add: sealed_def)

lemma seal_step_simps [simp]:
  "seal_step i b (Invoked j) = (j = i \<or> b)"
  "seal_step i b (Returned j r) = (if j = i \<and> definite_failure r then False else b)"
  by (simp_all add: seal_step_def)

lemma sealed_invoked: "sealed tr i \<Longrightarrow> Invoked i \<in> set tr"
  by (induction tr rule: rev_induct) (auto simp: seal_step_def split: delivery_event.splits if_splits)

text \<open>
  The steps. \<open>other F s t\<close> is a step of another caller, which may introduce a new id only if
  \<open>F\<close> admits it; here an id is new if it has never been handed to the deliverer.
\<close>

inductive dstep :: "((string \<Rightarrow> bool) \<Rightarrow> 's \<Rightarrow> 's \<Rightarrow> bool) \<Rightarrow> ('s \<Rightarrow> 'm \<Rightarrow> 's \<Rightarrow> bool)
    \<Rightarrow> ('s \<Rightarrow> 'm \<Rightarrow> 's \<Rightarrow> bool) \<Rightarrow> ('s \<Rightarrow> 'm \<Rightarrow> deliver_result \<Rightarrow> 's \<Rightarrow> bool) \<Rightarrow> ('m \<Rightarrow> string)
    \<Rightarrow> ('s, 'm) system \<Rightarrow> ('s, 'm) system \<Rightarrow> bool"
  for other take fence settle ident where
  other_step: "other (\<lambda>i. Invoked i \<notin> set tr) s t \<Longrightarrow>
     dstep other take fence settle ident \<lparr>sy_store = s, sy_phase = pc, sy_trace = tr\<rparr>
       \<lparr>sy_store = t, sy_phase = pc, sy_trace = tr\<rparr>"
| take_step: "take s m t \<Longrightarrow>
     dstep other take fence settle ident \<lparr>sy_store = s, sy_phase = Idle, sy_trace = tr\<rparr>
       \<lparr>sy_store = t, sy_phase = Got m, sy_trace = tr\<rparr>"
| invoke_step: "fence s m t \<Longrightarrow>
     dstep other take fence settle ident \<lparr>sy_store = s, sy_phase = Got m, sy_trace = tr\<rparr>
       \<lparr>sy_store = t, sy_phase = Invoking m, sy_trace = tr @ [Invoked (ident m)]\<rparr>"
| refused_step:
    "dstep other take fence settle ident \<lparr>sy_store = s, sy_phase = Got m, sy_trace = tr\<rparr>
       \<lparr>sy_store = s, sy_phase = Settling m (DeliverFailed fence_failed), sy_trace = tr\<rparr>"
| return_step:
    "dstep other take fence settle ident \<lparr>sy_store = s, sy_phase = Invoking m, sy_trace = tr\<rparr>
       \<lparr>sy_store = s, sy_phase = Settling m r, sy_trace = tr @ [Returned (ident m) r]\<rparr>"
| settle_step: "settle s m r t \<Longrightarrow>
     dstep other take fence settle ident \<lparr>sy_store = s, sy_phase = Settling m r, sy_trace = tr\<rparr>
       \<lparr>sy_store = t, sy_phase = Idle, sy_trace = tr\<rparr>"
| crash_step:
    "dstep other take fence settle ident \<lparr>sy_store = s, sy_phase = pc, sy_trace = tr\<rparr>
       \<lparr>sy_store = s, sy_phase = Idle, sy_trace = tr\<rparr>"

text \<open>Every invocation in a trace comes at a moment when its message is not sealed.\<close>

definition at_most_once :: "delivery_event list \<Rightarrow> bool" where
  "at_most_once tr \<longleftrightarrow> (\<forall>pre i post. tr = pre @ Invoked i # post \<longrightarrow> \<not> sealed pre i)"

lemma at_most_once_Nil [simp]: "at_most_once []"
  by (simp add: at_most_once_def)

lemma at_most_once_snoc:
  "at_most_once (tr @ [e]) \<longleftrightarrow> at_most_once tr \<and> (\<forall>i. e = Invoked i \<longrightarrow> \<not> sealed tr i)"
proof
  assume A: "at_most_once (tr @ [e])"
  have "at_most_once tr"
    unfolding at_most_once_def
  proof (intro allI impI)
    fix pre i post
    assume "tr = pre @ Invoked i # post"
    then have "tr @ [e] = pre @ Invoked i # (post @ [e])" by simp
    with A show "\<not> sealed pre i" unfolding at_most_once_def by blast
  qed
  moreover have "\<not> sealed tr i" if "e = Invoked i" for i
    using A that unfolding at_most_once_def by blast
  ultimately show "at_most_once tr \<and> (\<forall>i. e = Invoked i \<longrightarrow> \<not> sealed tr i)" by blast
next
  assume B: "at_most_once tr \<and> (\<forall>i. e = Invoked i \<longrightarrow> \<not> sealed tr i)"
  show "at_most_once (tr @ [e])"
    unfolding at_most_once_def
  proof (intro allI impI)
    fix pre i post
    assume eq: "tr @ [e] = pre @ Invoked i # post"
    show "\<not> sealed pre i"
    proof (cases post rule: rev_cases)
      case Nil
      with eq B show ?thesis by simp
    next
      case (snoc post' e')
      with eq have "tr = pre @ Invoked i # post'" by simp
      with B show ?thesis unfolding at_most_once_def by blast
    qed
  qed
qed

section \<open>What the engine relies on\<close>

text \<open>
  \<open>quiet s i\<close>: the store will not offer \<open>i\<close> again. A store keeps every message quiet that is
  quiet, whoever calls it, except that a definite failure may revive the message it settles and
  a new id may be introduced; a fenced message is quiet.
\<close>

locale fenced_store =
  fixes quiet :: "'s \<Rightarrow> string \<Rightarrow> bool"
    and other :: "(string \<Rightarrow> bool) \<Rightarrow> 's \<Rightarrow> 's \<Rightarrow> bool"
    and take :: "'s \<Rightarrow> 'm \<Rightarrow> 's \<Rightarrow> bool"
    and fence :: "'s \<Rightarrow> 'm \<Rightarrow> 's \<Rightarrow> bool"
    and settle :: "'s \<Rightarrow> 'm \<Rightarrow> deliver_result \<Rightarrow> 's \<Rightarrow> bool"
    and ident :: "'m \<Rightarrow> string"
  assumes other_quiet: "other F s t \<Longrightarrow> quiet s i \<Longrightarrow> \<not> F i \<Longrightarrow> quiet t i"
    and take_live: "take s m t \<Longrightarrow> \<not> quiet s (ident m)"
    and take_quiet: "take s m t \<Longrightarrow> quiet s i \<Longrightarrow> quiet t i"
    and fence_seals: "fence s m t \<Longrightarrow> quiet t (ident m)"
    and fence_quiet: "fence s m t \<Longrightarrow> quiet s i \<Longrightarrow> quiet t i"
    and settle_quiet: "settle s m r t \<Longrightarrow> quiet s i \<Longrightarrow> i \<noteq> ident m \<or> \<not> definite_failure r \<Longrightarrow> quiet t i"
begin

definition good :: "('s, 'm) system \<Rightarrow> bool" where
  "good x \<longleftrightarrow> (\<forall>i. sealed (sy_trace x) i \<longrightarrow> quiet (sy_store x) i)
     \<and> (case sy_phase x of
          Got m \<Rightarrow> \<not> sealed (sy_trace x) (ident m)
        | Settling m r \<Rightarrow> definite_failure r \<longrightarrow> \<not> sealed (sy_trace x) (ident m)
        | _ \<Rightarrow> True)
     \<and> at_most_once (sy_trace x)"

lemma good_step:
  assumes "dstep other take fence settle ident x y" and "good x"
  shows "good y"
  using assms
proof (cases rule: dstep.cases)
  case (other_step tr s t pc)
  then show ?thesis
    using assms(2) by (auto simp: good_def dest: sealed_invoked intro: other_quiet split: phase.splits)
next
  case (take_step s m t tr)
  then show ?thesis
    using assms(2) take_live [of s m t] by (auto simp: good_def intro: take_quiet)
next
  case (invoke_step s m t tr)
  then show ?thesis
    using assms(2) by (auto simp: good_def at_most_once_snoc intro: fence_seals fence_quiet)
next
  case (refused_step s m tr)
  then show ?thesis using assms(2) by (auto simp: good_def)
next
  case (return_step s m tr r)
  then show ?thesis using assms(2) by (auto simp: good_def at_most_once_snoc split: if_splits)
next
  case (settle_step s m r t tr)
  then show ?thesis using assms(2) by (auto simp: good_def intro: settle_quiet)
next
  case (crash_step s pc tr)
  then show ?thesis using assms(2) by (auto simp: good_def)
qed

end

sublocale fenced_store \<subseteq> engine: step_machine "dstep other take fence settle ident" good
  by unfold_locales (rule good_step)

context fenced_store
begin

lemma reachable_at_most_once:
  assumes "(dstep other take fence settle ident)\<^sup>*\<^sup>* \<lparr>sy_store = s, sy_phase = Idle, sy_trace = []\<rparr> y"
  shows "at_most_once (sy_trace y)"
proof -
  have "good \<lparr>sy_store = s, sy_phase = Idle, sy_trace = []\<rparr>" by (simp add: good_def)
  with assms have "good y" by (rule engine.steps_keep)
  then show ?thesis by (simp add: good_def)
qed

end

section \<open>\<open>FileMailbox\<close> as a fenced store\<close>

text \<open>A row that \<open>dequeue\<close> does not offer and \<open>recoverInflight\<close> does not retry.\<close>

definition quiet_row :: "state_row \<Rightarrow> bool" where
  "quiet_row s \<longleftrightarrow> sr_state s \<noteq> Pending \<and> (sr_state s = InFlight \<longrightarrow> sr_non_retryable s = Some True)"

definition quiet_in :: "mdir \<Rightarrow> string \<Rightarrow> bool" where
  "quiet_in d i \<longleftrightarrow> (case state_of d i of None \<Rightarrow> True | Some s \<Rightarrow> quiet_row s)"

definition quiet_write :: "string \<Rightarrow> mwrite \<Rightarrow> bool" where
  "quiet_write i w \<longleftrightarrow> (case w of
     AppendState s \<Rightarrow> sr_msg_id s = i \<longrightarrow> quiet_row s
   | FillState ss \<Rightarrow> (case jm_get (jm_collect sr_msg_id ss) i of None \<Rightarrow> True | Some s \<Rightarrow> quiet_row s)
   | _ \<Rightarrow> True)"

lemma quiet_row_simps [simp]:
  "quiet_row (plain_state i st ts) \<longleftrightarrow> st \<noteq> Pending \<and> st \<noteq> InFlight"
  "quiet_row (unknown_state i ts)" "quiet_row (compact_state p s) = quiet_row s"
  by (auto simp: quiet_row_def)

lemma quiet_write_simps [simp]:
  "quiet_write i (AppendInbox r)" "quiet_write i (AppendDead x)" "quiet_write i TruncInbox"
  "quiet_write i (FillInbox rs)" "quiet_write i TruncState" "quiet_write i TruncDead"
  "quiet_write i (AppendState s) \<longleftrightarrow> (sr_msg_id s = i \<longrightarrow> quiet_row s)"
  by (simp_all add: quiet_write_def)

lemma quiet_write_keeps: "quiet_in d i \<Longrightarrow> quiet_write i w \<Longrightarrow> quiet_in (apply_write w d) i"
  by (cases w) (auto simp: quiet_in_def quiet_write_def)

lemma quiet_writes_keep:
  "quiet_in d i \<Longrightarrow> list_all (quiet_write i) ws \<Longrightarrow> quiet_in (apply_writes ws d) i"
  by (induction ws arbitrary: d) (auto intro: quiet_write_keeps)

lemma list_all_take: "list_all P xs \<Longrightarrow> list_all P (take n xs)"
  by (induction xs arbitrary: n) (auto simp: take_Cons split: nat.splits)

lemma quiet_crashed: "quiet_in d i \<Longrightarrow> list_all (quiet_write i) (fst r) \<Longrightarrow> quiet_in (crashed k r d) i"
  by (simp add: crashed_def quiet_writes_keep list_all_take)

text \<open>No operation writes what would revive a quiet message.\<close>

lemma quiet_enqueue:
  "quiet_in d i \<Longrightarrow> ib_msg_id m \<noteq> i \<or> state_of d i \<noteq> None \<Longrightarrow> list_all (quiet_write i) (fst (enqueue_op cfg now m d))"
  by (auto simp: enqueue_op_def Let_def pending_row_def)

lemma quiet_dequeue: "quiet_in d i \<Longrightarrow> list_all (quiet_write i) (fst (dequeue_op now d))"
  by (auto simp: dequeue_op_def quiet_in_def quiet_row_def elim: next_message_pending split: option.splits)

lemma quiet_compact:
  assumes "quiet_in d i"
  shows "list_all (quiet_write i) (fst (compact_op cfg sid d))"
  using assms
  by (auto simp: compact_op_def quiet_write_def compact_journal_get quiet_in_def split: option.splits)

lemma quiet_then_compact:
  assumes "quiet_in d i" "list_all (quiet_write i) ws"
  shows "list_all (quiet_write i) (fst (then_compact cfg sid d ws))"
  using assms by (simp add: then_compact_def Let_def quiet_compact quiet_writes_keep)

lemma quiet_ack: "quiet_in d i \<Longrightarrow> list_all (quiet_write i) (fst (ack_op cfg sid now j proof d))"
  by (auto simp: ack_op_def Let_def quiet_then_compact split: option.splits ack_proof.splits)

lemma quiet_withdraw: "list_all (quiet_write i) (fst (withdraw_op now j reason infl unc meta d))"
  by (auto simp: withdraw_op_def Let_def split: option.splits)

lemma quiet_begin: "list_all (quiet_write i) (fst (begin_op now j d))"
  by (auto simp: begin_op_def quiet_row_def split: option.splits)

lemma quiet_retry: "ib_msg_id m \<noteq> i \<Longrightarrow> j \<noteq> i \<Longrightarrow> list_all (quiet_write i) (retry_or_bury cfg now j m reason)"
  by (auto simp: retry_or_bury_def Let_def)

lemma quiet_nack: "j \<noteq> i \<Longrightarrow> list_all (quiet_write i) (fst (nack_op cfg now j reason d))"
  by (auto simp: nack_op_def quiet_retry dest: latest_of_id split: option.splits)

lemma quiet_purge: "list_all (quiet_write i) (fst (purge_op d))"
  by (simp add: purge_op_def quiet_write_def)

lemma quiet_expire:
  assumes "quiet_in d i"
  shows "list_all (quiet_write i) (fst (expireStale_op cfg sid now d))"
proof -
  have "list_all (quiet_write i) (expire_writes cfg now d)"
    by (auto simp: expire_writes_def list_all_iff)
  then show ?thesis using assms by (simp add: expireStale_op_def Let_def quiet_compact quiet_writes_keep)
qed

lemma quiet_recover_entry:
  assumes "quiet_in d i" "state_of d (fst ie) = Some (snd ie)"
  shows "list_all (quiet_write i) (fst (recover_entry cfg now ie d))"
  using assms
  by (auto simp: recover_entry_def quiet_in_def quiet_row_def inflight_timed_out_def
      intro!: quiet_retry dest: latest_of_id split: option.splits prod.splits)

lemma quiet_recover_entries:
  assumes "quiet_in d i" "distinct (map fst ies)" "\<forall>ie \<in> set ies. state_of d (fst ie) = Some (snd ie)"
  shows "list_all (quiet_write i) (fst (recover_entries cfg now ies d))"
  using assms
proof (induction ies arbitrary: d)
  case Nil
  then show ?case by simp
next
  case (Cons ie ies)
  let ?ws = "fst (recover_entry cfg now ie d)"
  have ws: "list_all (quiet_write i) ?ws" using Cons.prems by (intro quiet_recover_entry) auto
  have "state_of (apply_writes ?ws d) (fst x) = Some (snd x)" if "x \<in> set ies" for x
  proof -
    have "fst x \<noteq> fst ie" using that Cons.prems(2) by (auto simp: image_iff)
    then show ?thesis
      using state_of_recover_entry [of cfg now "fst ie" "snd ie" d "fst x"] Cons.prems(3) that by simp
  qed
  then have "list_all (quiet_write i) (fst (recover_entries cfg now ies (apply_writes ?ws d)))"
    using Cons.prems ws by (intro Cons.IH quiet_writes_keep) auto
  with ws show ?case by (simp add: case_prod_unfold Let_def)
qed

lemma quiet_recover:
  assumes "quiet_in d i"
  shows "list_all (quiet_write i) (fst (recoverInflight_op cfg now d))"
proof -
  have "\<forall>ie \<in> set (loadStates d). state_of d (fst ie) = Some (snd ie)"
    by (simp add: state_of_def)
  then show ?thesis using assms by (simp add: recoverInflight_op_def case_prod_unfold Let_def quiet_recover_entries)
qed

text \<open>
  The steps of the mailbox. Every call may stop after any number of its writes, by a fault or
  with the process. The other callers are the routes, the CLI bridge and the maintenance of
  the engine itself: everything but \<open>dequeue\<close> and \<open>nack\<close>, which only the engine calls.
\<close>

inductive mailbox_other :: "mailbox_config \<Rightarrow> string \<Rightarrow> (string \<Rightarrow> bool) \<Rightarrow> mdir \<Rightarrow> mdir \<Rightarrow> bool"
  for cfg sid F where
  other_enqueue: "state_of d (ib_msg_id m) = None \<Longrightarrow> F (ib_msg_id m) \<Longrightarrow>
     mailbox_other cfg sid F d (crashed k (enqueue_op cfg now m d) d)"
| other_enqueue_again: "state_of d (ib_msg_id m) \<noteq> None \<Longrightarrow>
     mailbox_other cfg sid F d (crashed k (enqueue_op cfg now m d) d)"
| other_ack: "mailbox_other cfg sid F d (crashed k (ack_op cfg sid now i proof d) d)"
| other_withdraw: "mailbox_other cfg sid F d (crashed k (withdraw_op now i reason infl unc meta d) d)"
| other_begin: "mailbox_other cfg sid F d (crashed k (begin_op now i d) d)"
| other_recover: "mailbox_other cfg sid F d (crashed k (recoverInflight_op cfg now d) d)"
| other_expire: "mailbox_other cfg sid F d (crashed k (expireStale_op cfg sid now d) d)"
| other_purge: "mailbox_other cfg sid F d (crashed k (purge_op d) d)"
| other_purge_dead: "mailbox_other cfg sid F d (crashed k (purge_dead_op d) d)"

definition mailbox_take :: "mdir \<Rightarrow> inbox_row \<Rightarrow> mdir \<Rightarrow> bool" where
  "mailbox_take d m d' \<longleftrightarrow> (\<exists>now. snd (dequeue_op now d) = Inr (Some m) \<and> d' = after (dequeue_op now d) d)"

definition mailbox_fence :: "mdir \<Rightarrow> inbox_row \<Rightarrow> mdir \<Rightarrow> bool" where
  "mailbox_fence d m d' \<longleftrightarrow> (\<exists>now. snd (begin_op now (ib_msg_id m) d) = Inr True
     \<and> d' = after (begin_op now (ib_msg_id m) d) d)"

fun settle_call :: "mailbox_config \<Rightarrow> string \<Rightarrow> int \<Rightarrow> string \<Rightarrow> string \<Rightarrow> deliver_result \<Rightarrow> mdir \<Rightarrow> mwrite list" where
  "settle_call cfg sid now reason i (DeliverSuccess proof) d = fst (ack_op cfg sid now i proof d)"
| "settle_call cfg sid now reason i DeliverUncertain d =
     fst (withdraw_op now i ''delivery_outcome_unknown'' True True None d)"
| "settle_call cfg sid now reason i DeliverThrew d =
     fst (withdraw_op now i ''delivery_outcome_unknown'' True True None d)"
| "settle_call cfg sid now reason i (DeliverFailed e) d = fst (nack_op cfg now i reason d)"
| "settle_call cfg sid now reason i DeliverNothing d = fst (nack_op cfg now i reason d)"

definition mailbox_settle :: "mailbox_config \<Rightarrow> string \<Rightarrow> mdir \<Rightarrow> inbox_row \<Rightarrow> deliver_result \<Rightarrow> mdir \<Rightarrow> bool" where
  "mailbox_settle cfg sid d m r d' \<longleftrightarrow>
     (\<exists>now reason k. d' = apply_writes (take k (settle_call cfg sid now reason (ib_msg_id m) r d)) d)"

lemma quiet_crashed_all:
  "mailbox_other cfg sid F d d' \<Longrightarrow> quiet_in d i \<Longrightarrow> \<not> F i \<Longrightarrow> quiet_in d' i"
  by (induction rule: mailbox_other.induct)
    (auto intro!: quiet_crashed quiet_enqueue quiet_ack quiet_withdraw quiet_begin quiet_recover
      quiet_expire quiet_purge simp: purge_dead_op_def)

lemma quiet_settle_call:
  "quiet_in d i \<Longrightarrow> i \<noteq> j \<or> \<not> definite_failure r \<Longrightarrow> list_all (quiet_write i) (settle_call cfg sid now reason j r d)"
  by (cases r) (auto intro: quiet_ack quiet_withdraw quiet_nack)

lemma begin_fences: "snd (begin_op now i d) = Inr True \<Longrightarrow> quiet_in (after (begin_op now i d) d) i"
  by (auto simp: begin_op_def after_def quiet_in_def quiet_row_def split: option.splits if_splits)

lemma dequeue_takes_live: "snd (dequeue_op now d) = Inr (Some m) \<Longrightarrow> \<not> quiet_in d (ib_msg_id m)"
  by (auto simp: dequeue_op_def quiet_in_def quiet_row_def elim: next_message_pending split: option.splits)

interpretation file_mailbox: fenced_store quiet_in "mailbox_other cfg sid" mailbox_take mailbox_fence
  "mailbox_settle cfg sid" ib_msg_id for cfg sid
proof unfold_locales
  show "quiet_in t i" if "mailbox_other cfg sid F s t" "quiet_in s i" "\<not> F i" for F s t i
    using quiet_crashed_all that by blast
  show "\<not> quiet_in s (ib_msg_id m)" if "mailbox_take s m t" for s m t
    using that dequeue_takes_live [of _ s m] by (auto simp: mailbox_take_def)
  show "quiet_in t i" if "mailbox_take s m t" "quiet_in s i" for s m t i
    using that by (auto simp: mailbox_take_def after_def intro: quiet_writes_keep quiet_dequeue)
  show "quiet_in t (ib_msg_id m)" if "mailbox_fence s m t" for s m t
    using that by (auto simp: mailbox_fence_def intro: begin_fences)
  show "quiet_in t i" if "mailbox_fence s m t" "quiet_in s i" for s m t i
    using that by (auto simp: mailbox_fence_def after_def intro: quiet_writes_keep quiet_begin)
  show "quiet_in t i"
    if "mailbox_settle cfg sid s m r t" "quiet_in s i" "i \<noteq> ib_msg_id m \<or> \<not> definite_failure r" for s m r t i
    using that by (auto simp: mailbox_settle_def intro!: quiet_writes_keep list_all_take quiet_settle_call)
qed

section \<open>At most once\<close>

abbreviation engine_step :: "mailbox_config \<Rightarrow> string \<Rightarrow> (mdir, inbox_row) system \<Rightarrow> (mdir, inbox_row) system \<Rightarrow> bool" where
  "engine_step cfg sid \<equiv> dstep (mailbox_other cfg sid) mailbox_take mailbox_fence (mailbox_settle cfg sid) ib_msg_id"


text \<open>A message whose first delivery fails is delivered again, and then acknowledged.\<close>

definition retried_dir :: mdir where
  "retried_dir =
     (let d1 = after (dequeue_op 10 settled_dir) settled_dir;
          d2 = after (begin_op 11 ''m2'' d1) d1
      in after (nack_op mailbox_defaults 12 ''m2'' ''busy'' d2) d2)"

lemma run_first:
  "(engine_step mailbox_defaults ''s1'')\<^sup>*\<^sup>* \<lparr>sy_store = settled_dir, sy_phase = Idle, sy_trace = []\<rparr>
     \<lparr>sy_store = retried_dir, sy_phase = Idle,
      sy_trace = [Invoked ''m2'', Returned ''m2'' (DeliverFailed ''busy'')]\<rparr>"
proof -
  let ?step = "engine_step mailbox_defaults ''s1''" and ?m = "sample_row ''m2'' 4"
  let ?d1 = "after (dequeue_op 10 settled_dir) settled_dir"
  let ?d2 = "after (begin_op 11 ''m2'' ?d1) ?d1"
  have id: "ib_msg_id ?m = ''m2''" by (simp add: sample_row_def)
  have deq: "snd (dequeue_op 10 settled_dir) = Inr (Some ?m)" by code_simp
  have beg: "snd (begin_op 11 ''m2'' ?d1) = Inr True" by code_simp
  have "?step \<lparr>sy_store = settled_dir, sy_phase = Idle, sy_trace = []\<rparr>
      \<lparr>sy_store = ?d1, sy_phase = Got ?m, sy_trace = []\<rparr>"
    using deq by (intro take_step) (auto simp: mailbox_take_def)
  moreover have "?step \<lparr>sy_store = ?d1, sy_phase = Got ?m, sy_trace = []\<rparr>
      \<lparr>sy_store = ?d2, sy_phase = Invoking ?m, sy_trace = [Invoked ''m2'']\<rparr>"
    using invoke_step [of mailbox_fence ?d1 ?m ?d2 _ _ _ ib_msg_id "[]"] beg id
    by (auto simp: mailbox_fence_def)
  moreover have "?step \<lparr>sy_store = ?d2, sy_phase = Invoking ?m, sy_trace = [Invoked ''m2'']\<rparr>
      \<lparr>sy_store = ?d2, sy_phase = Settling ?m (DeliverFailed ''busy''),
       sy_trace = [Invoked ''m2'', Returned ''m2'' (DeliverFailed ''busy'')]\<rparr>"
    using return_step [of _ _ _ _ ib_msg_id ?d2 ?m "[Invoked ''m2'']" "DeliverFailed ''busy''"] id by simp
  moreover have "?step \<lparr>sy_store = ?d2, sy_phase = Settling ?m (DeliverFailed ''busy''),
       sy_trace = [Invoked ''m2'', Returned ''m2'' (DeliverFailed ''busy'')]\<rparr>
      \<lparr>sy_store = retried_dir, sy_phase = Idle,
       sy_trace = [Invoked ''m2'', Returned ''m2'' (DeliverFailed ''busy'')]\<rparr>"
  proof (rule settle_step)
    have "retried_dir = apply_writes (take (length (fst (nack_op mailbox_defaults 12 ''m2'' ''busy'' ?d2)))
        (settle_call mailbox_defaults ''s1'' 12 ''busy'' (ib_msg_id ?m) (DeliverFailed ''busy'') ?d2)) ?d2"
      by (simp add: retried_dir_def Let_def after_def id)
    then show "mailbox_settle mailbox_defaults ''s1'' ?d2 ?m (DeliverFailed ''busy'') retried_dir"
      unfolding mailbox_settle_def by blast
  qed
  ultimately show ?thesis
    by (meson converse_rtranclp_into_rtranclp rtranclp.rtrancl_refl)
qed


end
