(* ===== verification/Mailbox_Engine.thy ===== *)
theory Mailbox_Engine
  imports Mailbox_Quarantine
begin

text \<open>
  The delivery engine as written (\<open>visit_session\<close>, \<open>tick\<close>) performs only steps of the system of
  \<open>Mailbox_Quarantine\<close>, so its log inherits the at-most-once property; and its back-off after
  lock refusals is bounded.
\<close>

section \<open>A visit is a run of the step system\<close>

definition is_call :: "delivery_event \<Rightarrow> bool" where
  "is_call e \<longleftrightarrow> (case e of Invoked _ \<Rightarrow> True | Returned _ _ \<Rightarrow> True | _ \<Rightarrow> False)"

abbreviation calls_of :: "delivery_event list \<Rightarrow> delivery_event list" where
  "calls_of log \<equiv> filter is_call log"

lemma is_call_simps [simp]:
  "is_call (Invoked i)" "is_call (Returned i r)" "\<not> is_call (ReportSuccess i)"
  "\<not> is_call (ReportAckStoreUnavailable i)" "\<not> is_call (ReportUnknown i b)" "\<not> is_call (ReportFailure i s)"
  by (simp_all add: is_call_def)

lemma log_event_simps [simp]:
  "vi_dir (log_event e v) = vi_dir v" "vi_log (log_event e v) = vi_log v @ [e]"
  "vi_dir (clear_failures sid v) = vi_dir v" "vi_log (clear_failures sid v) = vi_log v"
  "vi_dir (note_call c v) = fst c" "vi_log (note_call c v) = vi_log v"
  by (simp_all add: log_event_def clear_failures_def note_call_def)

lemma after_crashed: "after r d = crashed (length (fst r)) r d"
  by (simp add: after_def crashed_def)

lemma call_dir: "\<exists>k. fst (call f r d) = crashed k r d"
proof (cases f)
  case NoFault
  then show ?thesis by (auto simp: call_def after_crashed)
next
  case LockRefused
  then have "fst (call f r d) = crashed 0 r d" by (simp add: call_def crashed_def)
  then show ?thesis ..
next
  case (Broken k)
  then show ?thesis by (auto simp: call_def)
qed

lemma call_returned: "snd (call f r d) = Inr x \<Longrightarrow> f = NoFault \<and> snd r = Inr x \<and> fst (call f r d) = after r d"
  by (cases f) (auto simp: call_def split: sum.splits)

abbreviation at_idle :: "mdir \<Rightarrow> delivery_event list \<Rightarrow> (mdir, inbox_row) system" where
  "at_idle d tr \<equiv> \<lparr>sy_store = d, sy_phase = Idle, sy_trace = tr\<rparr>"

lemma other_mono: "mailbox_other cfg sid F d d' \<Longrightarrow> (\<And>i. F i \<Longrightarrow> G i) \<Longrightarrow> mailbox_other cfg sid G d d'"
  by (induction rule: mailbox_other.induct) (auto intro: mailbox_other.intros)

lemma others_run:
  assumes "(mailbox_other cfg sid F)\<^sup>*\<^sup>* d d'" and "\<And>i. F i \<Longrightarrow> Invoked i \<notin> set tr"
  shows "(engine_step cfg sid)\<^sup>*\<^sup>* \<lparr>sy_store = d, sy_phase = pc, sy_trace = tr\<rparr> \<lparr>sy_store = d', sy_phase = pc, sy_trace = tr\<rparr>"
  using assms
proof (induction rule: rtranclp_induct)
  case base
  then show ?case by simp
next
  case (step x y)
  have "mailbox_other cfg sid (\<lambda>i. Invoked i \<notin> set tr) x y" using step.hyps(2) step.prems by (rule other_mono)
  then have "engine_step cfg sid \<lparr>sy_store = x, sy_phase = pc, sy_trace = tr\<rparr> \<lparr>sy_store = y, sy_phase = pc, sy_trace = tr\<rparr>"
    by (rule other_step)
  with step.IH [OF step.prems] show ?case by (rule rtranclp.rtrancl_into_rtrancl)
qed

lemma other_run:
  assumes "mailbox_other cfg sid (\<lambda>_. False) d d'"
  shows "(engine_step cfg sid)\<^sup>*\<^sup>* \<lparr>sy_store = d, sy_phase = pc, sy_trace = tr\<rparr> \<lparr>sy_store = d', sy_phase = pc, sy_trace = tr\<rparr>"
  by (rule others_run [OF r_into_rtranclp [of "mailbox_other cfg sid (\<lambda>_. False)", OF assms]]) blast

lemma recover_stage_run:
  "(engine_step cfg sid)\<^sup>*\<^sup>* (at_idle (vi_dir v) tr) (at_idle (vi_dir (recover_stage cfg env v)) tr)
   \<and> vi_log (recover_stage cfg env v) = vi_log v"
proof -
  obtain k where "fst (call (ve_recover env) (recoverInflight_op cfg (unix_now env) (vi_dir v)) (vi_dir v))
      = crashed k (recoverInflight_op cfg (unix_now env) (vi_dir v)) (vi_dir v)" using call_dir by blast
  then show ?thesis by (auto simp: recover_stage_def intro!: other_run other_recover)
qed

lemma expire_stage_run:
  "(engine_step cfg sid)\<^sup>*\<^sup>* (at_idle (vi_dir v) tr) (at_idle (vi_dir (expire_stage cfg sid env v)) tr)
   \<and> vi_log (expire_stage cfg sid env v) = vi_log v"
proof -
  obtain k where "fst (call (ve_expire env) (expireStale_op cfg sid (unix_now env) (vi_dir v)) (vi_dir v))
      = crashed k (expireStale_op cfg sid (unix_now env) (vi_dir v)) (vi_dir v)" using call_dir by blast
  then show ?thesis by (auto simp: expire_stage_def intro!: other_run other_expire)
qed

lemma backoff_stage_simps [simp]:
  "vi_dir (backoff_stage sid env v) = vi_dir v" "vi_log (backoff_stage sid env v) = vi_log v"
  by (simp_all add: backoff_stage_def Let_def)

lemma settled_by_call:
  assumes "fst op = settle_call cfg sid now reason (ib_msg_id m) r d"
  shows "mailbox_settle cfg sid d m r (fst (call f op d))"
proof -
  obtain k where "fst (call f op d) = crashed k op d" using call_dir by blast
  then show ?thesis using assms unfolding mailbox_settle_def crashed_def by metis
qed

lemma settle_stage_dir:
  "mailbox_settle cfg sid (vi_dir v) m r (vi_dir (settle_stage cfg sid env m r v))
   \<and> calls_of (vi_log (settle_stage cfg sid env m r v)) = calls_of (vi_log v)"
proof -
  let ?i = "ib_msg_id m" and ?now = "unix_now env" and ?d = "vi_dir v"
  show ?thesis
  proof (cases r)
    case (DeliverSuccess p)
    show ?thesis unfolding DeliverSuccess
      using settled_by_call [of "ack_op cfg sid ?now ?i p ?d" cfg sid ?now undefined m "DeliverSuccess p" ?d "ve_settle env"]
      by (auto simp: settle_stage_def Let_def split: sum.splits)
  next
    case DeliverUncertain
    show ?thesis unfolding DeliverUncertain
      using settled_by_call [of "withdraw_op ?now ?i ''delivery_outcome_unknown'' True True None ?d" cfg sid ?now
          undefined m DeliverUncertain ?d "ve_settle env"]
      by (auto simp: settle_stage_def Let_def)
  next
    case DeliverThrew
    show ?thesis unfolding DeliverThrew
      using settled_by_call [of "withdraw_op ?now ?i ''delivery_outcome_unknown'' True True None ?d" cfg sid ?now
          undefined m DeliverThrew ?d "ve_settle env"]
      by (auto simp: settle_stage_def Let_def)
  next
    case (DeliverFailed e)
    define reason where "reason = (if e = [] then ''delivery failed'' else e)"
    show ?thesis unfolding DeliverFailed
      using settled_by_call [of "nack_op cfg ?now ?i reason ?d" cfg sid ?now reason m "DeliverFailed e" ?d "ve_settle env"]
      by (auto simp: settle_stage_def Let_def simp flip: reason_def split: sum.splits)
  next
    case DeliverNothing
    show ?thesis unfolding DeliverNothing
      using settled_by_call [of "nack_op cfg ?now ?i ''delivery failed'' ?d" cfg sid ?now "''delivery failed''" m
          DeliverNothing ?d "ve_settle env"]
      by (auto simp: settle_stage_def Let_def split: sum.splits)
  qed
qed

text \<open>From a message in hand to the end of the visit.\<close>

abbreviation reaches :: "mailbox_config \<Rightarrow> string \<Rightarrow> (mdir, inbox_row) system \<Rightarrow> (mdir, inbox_row) system \<Rightarrow> bool" where
  "reaches cfg sid \<equiv> (engine_step cfg sid)\<^sup>*\<^sup>*"

lemma settle_run:
  "reaches cfg sid \<lparr>sy_store = vi_dir v, sy_phase = Settling m r, sy_trace = tr @ calls_of (vi_log v)\<rparr>
     (at_idle (vi_dir (settle_stage cfg sid env m r v)) (tr @ calls_of (vi_log (settle_stage cfg sid env m r v))))"
  using settle_stage_dir [of cfg sid v m r env] settle_step [of "mailbox_settle cfg sid" "vi_dir v" m r]
  by auto

lemma attempt_run:
  assumes during: "\<And>t. (mailbox_other cfg sid F)\<^sup>*\<^sup>* t (ve_during env t)"
    and F: "\<And>i. F i \<Longrightarrow> Invoked i \<notin> set (tr @ calls_of (vi_log (attempt_stage cfg sid env m v)))"
  shows "reaches cfg sid \<lparr>sy_store = vi_dir v, sy_phase = Got m, sy_trace = tr @ calls_of (vi_log v)\<rparr>
     (at_idle (vi_dir (attempt_stage cfg sid env m v)) (tr @ calls_of (vi_log (attempt_stage cfg sid env m v))))"
proof -
  let ?i = "ib_msg_id m" and ?tr = "tr @ calls_of (vi_log v)"
  let ?op = "begin_op (unix_now env) ?i (vi_dir v)"
  let ?c = "call (ve_begin env) ?op (vi_dir v)"
  show ?thesis
  proof (cases "snd ?c = Inr True")
    case False
    obtain k where k: "fst ?c = crashed k ?op (vi_dir v)" using call_dir by blast
    have "reaches cfg sid \<lparr>sy_store = vi_dir v, sy_phase = Got m, sy_trace = ?tr\<rparr>
        \<lparr>sy_store = fst ?c, sy_phase = Got m, sy_trace = ?tr\<rparr>"
      unfolding k by (intro other_run other_begin)
    also have "engine_step cfg sid \<lparr>sy_store = fst ?c, sy_phase = Got m, sy_trace = ?tr\<rparr>
        \<lparr>sy_store = fst ?c, sy_phase = Settling m (DeliverFailed fence_failed), sy_trace = ?tr\<rparr>"
      by (rule refused_step)
    also have "reaches cfg sid \<dots> (at_idle (vi_dir (attempt_stage cfg sid env m v))
        (tr @ calls_of (vi_log (attempt_stage cfg sid env m v))))"
      using settle_run [of cfg sid "v\<lparr>vi_dir := fst ?c\<rparr>" m "DeliverFailed fence_failed" tr env] False
      by (simp add: attempt_stage_def Let_def)
    finally show ?thesis .
  next
    case True
    let ?tr1 = "?tr @ [Invoked ?i]" and ?d = "ve_during env (fst ?c)"
    let ?w = "log_event (Returned ?i (ve_result env)) (log_event (Invoked ?i) (v\<lparr>vi_dir := ?d\<rparr>))"
    have c: "snd ?op = Inr True" "fst ?c = after ?op (vi_dir v)" using call_returned [OF True] by auto
    have stage: "attempt_stage cfg sid env m v = settle_stage cfg sid env m (ve_result env) ?w"
      using True by (simp add: attempt_stage_def Let_def)
    have log: "calls_of (vi_log (attempt_stage cfg sid env m v)) = calls_of (vi_log ?w)"
      unfolding stage using settle_stage_dir by blast
    have fresh: "Invoked i \<notin> set ?tr1" if "F i" for i
      using F [OF that] unfolding log by auto
    have "mailbox_fence (vi_dir v) m (fst ?c)" using c by (auto simp: mailbox_fence_def)
    then have "engine_step cfg sid \<lparr>sy_store = vi_dir v, sy_phase = Got m, sy_trace = ?tr\<rparr>
        \<lparr>sy_store = fst ?c, sy_phase = Invoking m, sy_trace = ?tr1\<rparr>"
      by (rule invoke_step)
    also have "reaches cfg sid \<dots> \<lparr>sy_store = ?d, sy_phase = Invoking m, sy_trace = ?tr1\<rparr>"
      using during fresh by (rule others_run)
    also have "engine_step cfg sid \<dots> \<lparr>sy_store = ?d, sy_phase = Settling m (ve_result env),
        sy_trace = ?tr1 @ [Returned ?i (ve_result env)]\<rparr>"
      by (rule return_step)
    also have "reaches cfg sid \<dots> (at_idle (vi_dir (attempt_stage cfg sid env m v))
        (tr @ calls_of (vi_log (attempt_stage cfg sid env m v))))"
      using settle_run [of cfg sid ?w m "ve_result env" tr env] by (simp add: stage)
    finally show ?thesis .
  qed
qed

lemma deliver_run:
  assumes during: "\<And>t. (mailbox_other cfg sid F)\<^sup>*\<^sup>* t (ve_during env t)"
    and F: "\<And>i. F i \<Longrightarrow> Invoked i \<notin> set (tr @ calls_of (vi_log (deliver_stage cfg sid env v)))"
  shows "reaches cfg sid (at_idle (vi_dir v) (tr @ calls_of (vi_log v)))
     (at_idle (vi_dir (deliver_stage cfg sid env v)) (tr @ calls_of (vi_log (deliver_stage cfg sid env v))))"
proof (cases "vi_done v \<or> vi_lock_failed v \<or> \<not> ve_can env 3")
  case True
  then show ?thesis by (auto simp: deliver_stage_def)
next
  case live: False
  let ?op = "dequeue_op (unix_now env) (vi_dir v)" and ?tr = "tr @ calls_of (vi_log v)"
  let ?c = "call (ve_dequeue env) ?op (vi_dir v)"
  let ?w = "note_call ?c v"
  show ?thesis
  proof (cases "snd ?c")
    case (Inl err)
    have stage: "deliver_stage cfg sid env v = ?w" using live Inl by (simp add: deliver_stage_def Let_def)
    obtain k where k: "fst ?c = crashed k ?op (vi_dir v)" using call_dir by blast
    consider "crashed k ?op (vi_dir v) = vi_dir v"
      | m where "snd ?op = Inr (Some m)" "crashed k ?op (vi_dir v) = after ?op (vi_dir v)"
      by (cases k; cases "next_message (vi_dir v) (unix_now env)")
        (auto simp: crashed_def after_def dequeue_op_def)
    then show ?thesis
    proof cases
      case 1
      then show ?thesis by (simp add: stage k)
    next
      case (2 m)
      then have "mailbox_take (vi_dir v) m (fst ?c)" by (auto simp: mailbox_take_def k)
      then have "reaches cfg sid (at_idle (vi_dir v) ?tr) \<lparr>sy_store = fst ?c, sy_phase = Got m, sy_trace = ?tr\<rparr>"
        by (intro r_into_rtranclp take_step)
      also have "engine_step cfg sid \<dots> (at_idle (fst ?c) ?tr)" by (rule crash_step)
      finally show ?thesis by (simp add: stage)
    qed
  next
    case (Inr got)
    from call_returned [OF Inr] have c: "snd ?op = Inr got" "fst ?c = after ?op (vi_dir v)" by auto
    show ?thesis
    proof (cases got)
      case None
      with c have "fst ?c = vi_dir v" by (simp add: dequeue_op_def after_def split: option.splits)
      then show ?thesis using live Inr None by (simp add: deliver_stage_def Let_def)
    next
      case (Some m)
      have take: "reaches cfg sid (at_idle (vi_dir v) ?tr) \<lparr>sy_store = fst ?c, sy_phase = Got m, sy_trace = ?tr\<rparr>"
        using c Some by (intro r_into_rtranclp take_step) (auto simp: mailbox_take_def)
      show ?thesis
      proof (cases "ve_has_deliver env")
        case False
        let ?ack = "ack_op cfg sid (unix_now env) (ib_msg_id m) NoProof (vi_dir ?w)"
        let ?a = "call (ve_settle env) ?ack (vi_dir ?w)"
        have stage: "vi_dir (deliver_stage cfg sid env v) = fst ?a \<and> vi_log (deliver_stage cfg sid env v) = vi_log v"
          using live Inr Some False by (auto simp: deliver_stage_def Let_def split: sum.splits)
        obtain k where k: "fst ?a = crashed k ?ack (vi_dir ?w)" using call_dir by blast
        note take
        also have "engine_step cfg sid \<lparr>sy_store = fst ?c, sy_phase = Got m, sy_trace = ?tr\<rparr> (at_idle (fst ?c) ?tr)"
          by (rule crash_step)
        also have "reaches cfg sid \<dots> (at_idle (fst ?a) ?tr)"
          unfolding k by (simp, intro other_run other_ack)
        finally show ?thesis by (simp add: stage)
      next
        case True
        have stage: "deliver_stage cfg sid env v = attempt_stage cfg sid env m ?w"
          using live Inr Some True by (simp add: deliver_stage_def Let_def)
        note take
        also have "reaches cfg sid \<lparr>sy_store = fst ?c, sy_phase = Got m, sy_trace = ?tr\<rparr>
            (at_idle (vi_dir (attempt_stage cfg sid env m ?w)) (tr @ calls_of (vi_log (attempt_stage cfg sid env m ?w))))"
          using attempt_run [OF during, of tr m ?w] F [unfolded stage] by simp
        finally show ?thesis by (simp add: stage)
      qed
    qed
  qed
qed

lemma visit_run:
  assumes "\<And>t. (mailbox_other cfg sid F)\<^sup>*\<^sup>* t (ve_during env t)"
    and F: "\<And>i. F i \<Longrightarrow> Invoked i \<notin> set (tr @ calls_of (vi_log (visit_session cfg sid env e d)))"
  shows "reaches cfg sid (at_idle d tr)
     (at_idle (vi_dir (visit_session cfg sid env e d)) (tr @ calls_of (vi_log (visit_session cfg sid env e d))))"
proof (cases "skipped sid env e")
  case True
  then show ?thesis by (simp add: visit_session_def Let_def)
next
  case False
  let ?v = "\<lparr>vi_dir = d, vi_engine = e, vi_log = [], vi_done = False, vi_lock_failed = False\<rparr>"
  let ?r = "recover_stage cfg env ?v"
  let ?x = "expire_stage cfg sid env ?r"
  let ?y = "deliver_stage cfg sid env ?x"
  have y: "vi_dir (visit_session cfg sid env e d) = vi_dir ?y" "vi_log (visit_session cfg sid env e d) = vi_log ?y"
    using False by (simp_all add: visit_session_def Let_def)
  have logs: "vi_log ?r = []" "vi_log ?x = []"
    using recover_stage_run [of cfg sid ?v tr env] expire_stage_run [of cfg sid ?r tr env] by auto
  have "reaches cfg sid (at_idle (vi_dir ?v) tr) (at_idle (vi_dir ?r) tr)" using recover_stage_run by blast
  also have "reaches cfg sid \<dots> (at_idle (vi_dir ?x) tr)" using expire_stage_run by blast
  also have "reaches cfg sid \<dots> (at_idle (vi_dir ?y) (tr @ calls_of (vi_log ?y)))"
    using deliver_run [OF assms(1), of tr ?x] F [unfolded y] logs by simp
  finally show ?thesis by (simp add: y)
qed

text \<open>
  C2. The engine as written refines the step system: whatever a visit meets (faults of any
  mailbox call, a refusal by the lock, any result or a throw of the deliverer, other callers
  during the delivery that enqueue only new ids), the visit is a run of its steps with exactly
  the calls of the visit's log. So the log of an engine never shows a second delivery of a
  message after anything but a definite failure.
\<close>

theorem visit_keeps_at_most_once:
  assumes "(engine_step cfg sid)\<^sup>*\<^sup>* (at_idle d0 []) (at_idle d tr)"
    and "\<And>t. (mailbox_other cfg sid F)\<^sup>*\<^sup>* t (ve_during env t)"
    and "\<And>i. F i \<Longrightarrow> Invoked i \<notin> set (tr @ calls_of (vi_log (visit_session cfg sid env e d)))"
  shows "(engine_step cfg sid)\<^sup>*\<^sup>* (at_idle d0 [])
      (at_idle (vi_dir (visit_session cfg sid env e d)) (tr @ calls_of (vi_log (visit_session cfg sid env e d))))
    \<and> at_most_once (tr @ calls_of (vi_log (visit_session cfg sid env e d)))"
proof -
  have "reaches cfg sid (at_idle d0 [])
      (at_idle (vi_dir (visit_session cfg sid env e d)) (tr @ calls_of (vi_log (visit_session cfg sid env e d))))"
    using assms(1) visit_run [OF assms(2,3)] by (rule rtranclp_trans)
  moreover from file_mailbox.reachable_at_most_once [OF this]
  have "at_most_once (tr @ calls_of (vi_log (visit_session cfg sid env e d)))" by simp
  ultimately show ?thesis ..
qed

definition calm_env :: "int \<Rightarrow> deliver_result \<Rightarrow> visit_env" where
  "calm_env now_ms r = \<lparr>ve_can = (\<lambda>_. True), ve_now_ms = now_ms, ve_has_deliver = True, ve_recover = NoFault,
     ve_expire = NoFault, ve_dequeue = NoFault, ve_begin = NoFault, ve_settle = NoFault, ve_result = r,
     ve_during = (\<lambda>d. d)\<rparr>"

theorem visit_keeps_at_most_once_witness:
  "let v = visit_session mailbox_defaults ''s1'' (calm_env 20000 DeliverThrew) (new_engine mailbox_defaults 0) retried_dir
   in at_most_once ([Invoked ''m2'', Returned ''m2'' (DeliverFailed ''busy'')] @ calls_of (vi_log v))
      \<and> calls_of (vi_log v) = [Invoked ''m2'', Returned ''m2'' DeliverThrew]
      \<and> map_option sr_state (state_of (vi_dir v) ''m2'') = Some DeadLetter"
proof -
  let ?v = "visit_session mailbox_defaults ''s1'' (calm_env 20000 DeliverThrew) (new_engine mailbox_defaults 0) retried_dir"
  have log: "calls_of (vi_log ?v) = [Invoked ''m2'', Returned ''m2'' DeliverThrew]" by code_simp
  have st: "map_option sr_state (state_of (vi_dir ?v) ''m2'') = Some DeadLetter" by code_simp
  have "ve_during (calm_env 20000 DeliverThrew) t = t" for t by (simp add: calm_env_def)
  then have "at_most_once ([Invoked ''m2'', Returned ''m2'' (DeliverFailed ''busy'')] @ calls_of (vi_log ?v))"
    using visit_keeps_at_most_once [OF run_first, of "\<lambda>_. False" "calm_env 20000 DeliverThrew"] by simp
  with log st show ?thesis by (simp add: Let_def)
qed

end
