(* ===== verification/Mailbox_Handoff.thy ===== *)
theory Mailbox_Handoff
  imports Mailbox_Engine
begin

text \<open>
  What an authority transfer relies on: the strict snapshot is exactly the unsettled queue, and
  a message the never-attempted snapshot hands over was never handed to the deliverer, through
  any history of engine steps, other callers, compactions and crashes.
\<close>

section \<open>Reading custody\<close>

lemma readStrict_SomeD: "readStrict f = Some rs \<Longrightarrow> rs = readJsonl f"
  by (auto simp: readStrict_def split: option.splits if_splits)

lemma readCustody_SomeD:
  assumes "readCustody compaction sid d = Some c"
  shows "cu_inbox c = inbox_rows d" "cu_journal c = journal_rows d" "cu_states c = loadStates d"
    "custody_messages compaction sid (inbox_rows d) [] = Some (cu_messages c)"
    "list_all (state_row_ok (cu_messages c)) (journal_rows d)"
    "list_ex unknown_row (journal_rows d) \<or> fence_open (loadStates d) (journal_rows d) \<Longrightarrow> cu_unsettled c"
  using assms
  by (auto simp: readCustody_def Let_def loadStates_def dest!: readStrict_SomeD split: option.splits if_splits)

lemma custody_messages_keys:
  "custody_messages compaction sid rs m = Some m' \<Longrightarrow> distinct (map fst m) \<Longrightarrow>
     distinct (map fst m') \<and> set (map fst m') = set (map fst m) \<union> ib_msg_id ` set rs"
proof (induction rs arbitrary: m)
  case Nil
  then show ?case by simp
next
  case (Cons r rs)
  have *: "custody_messages compaction sid rs x = Some m' \<Longrightarrow> x = m \<and> ib_msg_id r \<in> fst ` set m \<or> x = jm_set (ib_msg_id r) r m
      \<Longrightarrow> ?case" for x
    using Cons.IH [of x] Cons.prems(2)
    by (elim disjE conjE) (simp_all add: dom_update distinct_jm_set insert_absorb)
  show ?case
  proof (cases "jm_get m (ib_msg_id r)")
    case None
    then show ?thesis using Cons.prems(1) * [of "jm_set (ib_msg_id r) r m"] by (simp split: if_splits)
  next
    case (Some prev)
    then have "ib_msg_id r \<in> fst ` set m" by (force dest: map_of_SomeD)
    then show ?thesis
      using Cons.prems(1) Some * [of m] * [of "jm_set (ib_msg_id r) r m"] by (auto split: if_splits)
  qed
qed

definition live_state :: "mdir \<Rightarrow> string \<Rightarrow> bool" where
  "live_state d i \<longleftrightarrow> (case state_of d i of None \<Rightarrow> False | Some s \<Rightarrow> sr_state s \<in> {Pending, InFlight})"

lemma state_of_row: "state_of d i = Some s \<Longrightarrow> s \<in> set (journal_rows d) \<and> sr_msg_id s = i"
  unfolding state_of_journal by (rule jm_get_collect_Some)

lemma strict_rows_ids:
  "strict_rows states ms = Some ps \<Longrightarrow>
     map pv_msg_id ps = filter (\<lambda>i. case jm_get states i of None \<Rightarrow> False | Some s \<Rightarrow> sr_state s \<in> {Pending, InFlight})
       (map fst ms)
     \<and> (\<forall>i \<in> set (map fst ms). \<exists>s. jm_get states i = Some s \<and> sr_state s \<noteq> Nacked)"
proof (induction ms arbitrary: ps)
  case Nil
  then show ?case by simp
next
  case (Cons im ms)
  obtain i m where im: "im = (i, m)" by fastforce
  with Cons show ?case by (auto split: option.splits if_splits)
qed

lemma journal_id_in_messages:
  assumes "readCustody compaction sid d = Some c" "state_of d i = Some s"
  shows "i \<in> set (map fst (cu_messages c))"
proof -
  have "s \<in> set (journal_rows d)" "sr_msg_id s = i"
    using state_of_row [OF assms(2)] by auto
  then have "jm_has (cu_messages c) i"
    using readCustody_SomeD(5) [OF assms(1)] by (auto simp: list_all_iff state_row_ok_def)
  then show ?thesis by (simp add: jm_has_def map_of_eq_None_iff)
qed

lemma strict_snapshot_core:
  assumes snap: "strictCustodySnapshot sid d = Some ps"
  shows "distinct (map pv_msg_id ps) \<and> set (map pv_msg_id ps) = {i. live_state d i}
    \<and> (\<forall>i s. state_of d i = Some s \<longrightarrow> sr_state s \<noteq> Nacked
         \<and> (sr_state s = InFlight \<longrightarrow> sr_non_retryable s \<noteq> Some True) \<and> \<not> unknown_row s)
    \<and> (ps = [] \<longrightarrow> (\<forall>now. next_message d now = None))"
proof -
  obtain c where c: "readCustody False sid d = Some c" and settled: "\<not> cu_unsettled c"
      and rows: "strict_rows (loadStates d) (cu_messages c) = Some ps"
    using snap readCustody_SomeD(3) by (auto simp: strictCustodySnapshot_def split: option.splits if_splits)
  note ids = strict_rows_ids [OF rows, folded state_of_def, folded live_state_def]
  have dist: "distinct (map fst (cu_messages c))"
    using custody_messages_keys [OF readCustody_SomeD(4) [OF c]] by simp
  have live: "set (map pv_msg_id ps) = {i. live_state d i}"
    using ids journal_id_in_messages [OF c] by (auto simp: live_state_def split: option.splits)
  have "sr_state s \<noteq> Nacked \<and> (sr_state s = InFlight \<longrightarrow> sr_non_retryable s \<noteq> Some True) \<and> \<not> unknown_row s"
    if s: "state_of d i = Some s" for i s
  proof (intro conjI impI)
    have mem: "s \<in> set (journal_rows d)" "sr_msg_id s = i"
      using state_of_row [OF s] by auto
    show "sr_state s \<noteq> Nacked" using ids journal_id_in_messages [OF c s] s by auto
    show "\<not> unknown_row s" using mem settled readCustody_SomeD(6) [OF c] by (auto simp: list_ex_iff)
    show "sr_non_retryable s \<noteq> Some True" if "sr_state s = InFlight"
      using mem s settled readCustody_SomeD(6) [OF c] that
      by (fastforce simp: fence_open_def list_ex_iff state_of_def terminal_state_def)
  qed
  moreover have "next_message d now = None" if "ps = []" for now
  proof (rule ccontr)
    assume "next_message d now \<noteq> None"
    then obtain m where "next_message d now = Some m" by auto
    then have "live_state d (ib_msg_id m)" by (auto simp: live_state_def elim: next_message_pending)
    with live that show False by simp
  qed
  ultimately show ?thesis using ids dist live by auto
qed

text \<open>
  C18. The strict custody snapshot is exact: when it is granted, it lists every message that is
  pending or in flight once and no other; no message is left nacked, no attempt is fenced and no
  outcome unknown; and if it is empty, no \<open>dequeue\<close> at any time returns a message.
\<close>

theorem strict_snapshot_exact:
  assumes snap: "strictCustodySnapshot sid d = Some ps"
  shows "distinct (map pv_msg_id ps) \<and> set (map pv_msg_id ps) = {i. live_state d i}
    \<and> (\<forall>i s. state_of d i = Some s \<longrightarrow> sr_state s \<noteq> Nacked
         \<and> (sr_state s = InFlight \<longrightarrow> sr_non_retryable s \<noteq> Some True) \<and> \<not> unknown_row s)
    \<and> (ps = [] \<longrightarrow> (\<forall>now. next_message d now = None))"
  using strict_snapshot_core [OF snap] .

theorem strict_snapshot_exact_witness:
  "\<exists>ps. strictCustodySnapshot ''s1'' sample_dir = Some ps \<and> set (map pv_msg_id ps) = {i. live_state sample_dir i}
     \<and> length ps = 2"
proof -
  have "map_option length (strictCustodySnapshot ''s1'' sample_dir) = Some 2" by code_simp
  then obtain ps where ps: "strictCustodySnapshot ''s1'' sample_dir = Some ps" "length ps = 2" by auto
  with strict_snapshot_exact [OF ps(1)] show ?thesis by blast
qed

section \<open>Never attempted\<close>

text \<open>
  A store in which an attempt leaves a mark that nobody removes; a marked message is not handed
  over as never attempted. The engine keeps every invoked message marked.
\<close>

locale marking_store =
  fixes marked :: "'s \<Rightarrow> string \<Rightarrow> bool"
    and other :: "(string \<Rightarrow> bool) \<Rightarrow> 's \<Rightarrow> 's \<Rightarrow> bool"
    and take :: "'s \<Rightarrow> 'm \<Rightarrow> 's \<Rightarrow> bool"
    and fence :: "'s \<Rightarrow> 'm \<Rightarrow> 's \<Rightarrow> bool"
    and settle :: "'s \<Rightarrow> 'm \<Rightarrow> deliver_result \<Rightarrow> 's \<Rightarrow> bool"
    and ident :: "'m \<Rightarrow> string"
  assumes other_marked: "other F s t \<Longrightarrow> marked s i \<Longrightarrow> \<not> F i \<Longrightarrow> marked t i"
    and take_marked: "take s m t \<Longrightarrow> marked s i \<Longrightarrow> marked t i"
    and fence_marks: "fence s m t \<Longrightarrow> marked t (ident m)"
    and fence_marked: "fence s m t \<Longrightarrow> marked s i \<Longrightarrow> marked t i"
    and settle_marked: "settle s m r t \<Longrightarrow> marked s i \<Longrightarrow> marked t i"
begin

definition invoked_marked :: "('s, 'm) system \<Rightarrow> bool" where
  "invoked_marked x \<longleftrightarrow> (\<forall>i. Invoked i \<in> set (sy_trace x) \<longrightarrow> marked (sy_store x) i)"

lemma invoked_marked_step:
  assumes "dstep other take fence settle ident x y" and "invoked_marked x"
  shows "invoked_marked y"
  using assms
  by (cases rule: dstep.cases)
    (auto simp: invoked_marked_def intro: other_marked take_marked fence_marks fence_marked settle_marked)

end

sublocale marking_store \<subseteq> marking: step_machine "dstep other take fence settle ident" invoked_marked
  by unfold_locales (rule invoked_marked_step)

context marking_store
begin

lemma reachable_marked:
  assumes "(dstep other take fence settle ident)\<^sup>*\<^sup>* \<lparr>sy_store = s, sy_phase = Idle, sy_trace = []\<rparr> y"
    and "Invoked i \<in> set (sy_trace y)"
  shows "marked (sy_store y) i"
  using marking.steps_keep [OF assms(1)] assms(2) by (simp add: invoked_marked_def)

end

abbreviation journal_of :: "mdir \<Rightarrow> string \<Rightarrow> state_row list" where
  "journal_of d i \<equiv> filter (\<lambda>r. sr_msg_id r = i) (journal_rows d)"

definition never_mark :: "state_row \<Rightarrow> bool" where
  "never_mark h \<longleftrightarrow> sr_never_attempted h = Some True \<and> sr_state h = Pending"

definition attempted :: "mdir \<Rightarrow> string \<Rightarrow> bool" where
  "attempted d i \<longleftrightarrow> (\<forall>h. journal_of d i = [h] \<longrightarrow> \<not> never_mark h)"

definition mark_write :: "string \<Rightarrow> mwrite \<Rightarrow> bool" where
  "mark_write i w \<longleftrightarrow> (case w of
     AppendState s \<Rightarrow> sr_msg_id s = i \<longrightarrow> \<not> never_mark s
   | FillState ss \<Rightarrow> (\<forall>h. filter (\<lambda>r. sr_msg_id r = i) ss = [h] \<longrightarrow> \<not> never_mark h)
   | _ \<Rightarrow> True)"

lemma never_mark_simps [simp]:
  "\<not> never_mark (plain_state i st ts)" "\<not> never_mark (unknown_state i ts)"
  "\<not> never_mark ((plain_state i st ts)\<lparr>sr_non_retryable := x\<rparr>)"
  by (simp_all add: never_mark_def unknown_state_def plain_state_def)

lemma mark_write_simps [simp]:
  "mark_write i (AppendInbox r)" "mark_write i (AppendDead x)" "mark_write i TruncInbox"
  "mark_write i (FillInbox rs)" "mark_write i TruncState" "mark_write i TruncDead"
  "mark_write i (AppendState s) \<longleftrightarrow> (sr_msg_id s = i \<longrightarrow> \<not> never_mark s)"
  by (simp_all add: mark_write_def)

lemma mark_write_keeps: "attempted d i \<Longrightarrow> mark_write i w \<Longrightarrow> attempted (apply_write w d) i"
  by (cases w) (auto simp: attempted_def mark_write_def Cons_eq_append_conv append_eq_Cons_conv)

lemma mark_writes_keep:
  "attempted d i \<Longrightarrow> list_all (mark_write i) ws \<Longrightarrow> attempted (apply_writes ws d) i"
  by (induction ws arbitrary: d) (auto intro: mark_write_keeps)

lemma mark_crashed: "attempted d i \<Longrightarrow> list_all (mark_write i) (fst r) \<Longrightarrow> attempted (crashed k r d) i"
  by (simp add: crashed_def mark_writes_keep list_all_take)

lemma pristine_journal:
  assumes "pristinePendingIds sid d = Some p" "i \<in> set p"
  shows "\<exists>h. journal_of d i = [h] \<and> never_mark h"
proof -
  obtain c m where c: "readCustody True sid d = Some c"
    and live: "\<exists>s. jm_get (cu_states c) i = Some s \<and> sr_state s = Pending" and pr: "pristine_history c i m"
    using assms by (auto simp: pristinePendingIds_def split: option.splits)
  obtain s where s: "state_of d i = Some s" "sr_state s = Pending"
    using live readCustody_SomeD(3) [OF c] by (auto simp: state_of_def)
  obtain h where h: "journal_of d i = [h]" "sr_never_attempted h = Some True"
    using pr readCustody_SomeD(2) [OF c] by (auto simp: pristine_history_def history_def split: list.splits)
  have "s \<in> set (journal_of d i)" using state_of_row [OF s(1)] by simp
  with h s show ?thesis by (auto simp: never_mark_def)
qed

lemma compact_journal_marked:
  assumes "attempted d i" "pristinePendingIds sid d = Some p"
  shows "filter (\<lambda>r. sr_msg_id r = i) (compact_journal p d) = [h] \<Longrightarrow> \<not> never_mark h"
proof (cases "i \<in> set (unknown_ids d)")
  case True
  assume "filter (\<lambda>r. sr_msg_id r = i) (compact_journal p d) = [h]"
  moreover have "filter (\<lambda>r. sr_msg_id r = i) (compact_journal p d) = journal_of d i"
  proof -
    have "filter (\<lambda>r. sr_msg_id r = i) (filter (\<lambda>r. sr_msg_id r \<in> set (unknown_ids d)) (journal_rows d)) = journal_of d i"
      unfolding filter_filter using True by (intro filter_cong) auto
    then show ?thesis using True by (auto simp: compact_journal_def filter_empty_conv)
  qed
  ultimately show ?thesis using assms(1) by (auto simp: attempted_def)
next
  case False
  assume h: "filter (\<lambda>r. sr_msg_id r = i) (compact_journal p d) = [h]"
  then have "h \<in> set (filter (\<lambda>r. sr_msg_id r = i) (compact_journal p d))" by simp
  then have "h \<in> set (compact_journal p d)" "sr_msg_id h = i" by simp_all
  with False have "h \<in> compact_state p ` set (map snd (loadStates d))"
    unfolding compact_journal_def set_append Un_iff set_map by auto
  then obtain e where "h = compact_state p e" by blast
  with \<open>sr_msg_id h = i\<close> have e: "h = compact_state p e" "sr_msg_id e = i" by simp_all
  show "\<not> never_mark h"
  proof
    assume never: "never_mark h"
    with e have "i \<in> set p" by (auto simp: never_mark_def compact_state_def split: if_splits)
    from pristine_journal [OF assms(2) this] assms(1) show False by (auto simp: attempted_def)
  qed
qed

text \<open>No operation but the enqueue of a new id writes a never-attempted row.\<close>

lemma mark_compact: "attempted d i \<Longrightarrow> list_all (mark_write i) (fst (compact_op cfg sid d))"
  using compact_journal_marked by (auto simp: compact_op_def mark_write_def split: option.splits)

lemma mark_then_compact:
  "attempted d i \<Longrightarrow> list_all (mark_write i) ws \<Longrightarrow> list_all (mark_write i) (fst (then_compact cfg sid d ws))"
  by (simp add: then_compact_def Let_def mark_compact mark_writes_keep)

lemma mark_enqueue:
  "ib_msg_id m \<noteq> i \<or> state_of d i \<noteq> None \<Longrightarrow> list_all (mark_write i) (fst (enqueue_op cfg now m d))"
  by (auto simp: enqueue_op_def Let_def pending_row_def)

lemma mark_ack: "attempted d i \<Longrightarrow> list_all (mark_write i) (fst (ack_op cfg sid now j proof d))"
  by (auto simp: ack_op_def Let_def mark_then_compact split: option.splits ack_proof.splits)

lemma mark_withdraw: "list_all (mark_write i) (fst (withdraw_op now j reason infl unc meta d))"
  by (auto simp: withdraw_op_def Let_def split: option.splits)

lemma mark_begin: "list_all (mark_write i) (fst (begin_op now j d))"
  by (auto simp: begin_op_def split: option.splits)

lemma mark_dequeue: "list_all (mark_write i) (fst (dequeue_op now d))"
  by (auto simp: dequeue_op_def split: option.splits)

lemma mark_retry: "list_all (mark_write i) (retry_or_bury cfg now j m reason)"
  by (auto simp: retry_or_bury_def Let_def)

lemma mark_nack: "list_all (mark_write i) (fst (nack_op cfg now j reason d))"
  by (auto simp: nack_op_def mark_retry split: option.splits)

lemma mark_purge: "list_all (mark_write i) (fst (purge_op d))"
  by (simp add: purge_op_def mark_write_def)

lemma mark_expire: "attempted d i \<Longrightarrow> list_all (mark_write i) (fst (expireStale_op cfg sid now d))"
proof -
  assume "attempted d i"
  moreover have "list_all (mark_write i) (expire_writes cfg now d)"
    by (auto simp: expire_writes_def list_all_iff)
  ultimately show ?thesis by (simp add: expireStale_op_def Let_def mark_compact mark_writes_keep)
qed

lemma mark_recover_entries: "list_all (mark_write i) (fst (recover_entries cfg now ies d))"
proof (induction ies arbitrary: d)
  case (Cons ie ies)
  have "list_all (mark_write i) (fst (recover_entry cfg now ie d))"
    by (auto simp: recover_entry_def mark_retry split: option.splits prod.splits)
  with Cons show ?case by (simp add: case_prod_unfold Let_def)
qed simp

lemma mark_recover: "list_all (mark_write i) (fst (recoverInflight_op cfg now d))"
  by (simp add: recoverInflight_op_def case_prod_unfold Let_def mark_recover_entries)

lemma mark_other: "mailbox_other cfg sid F d d' \<Longrightarrow> attempted d i \<Longrightarrow> \<not> F i \<Longrightarrow> attempted d' i"
  by (induction rule: mailbox_other.induct)
    (auto intro!: mark_crashed mark_enqueue mark_ack mark_withdraw mark_begin mark_recover
      mark_expire mark_purge simp: purge_dead_op_def)

lemma mark_settle_call:
  "attempted d i \<Longrightarrow> list_all (mark_write i) (settle_call cfg sid now reason j r d)"
  by (cases r) (auto intro: mark_ack mark_withdraw mark_nack)

lemma begin_marks:
  assumes "snd (begin_op now i d) = Inr True"
  shows "attempted (after (begin_op now i d) d) i"
proof -
  obtain s where s: "state_of d i = Some s" "sr_state s = InFlight"
    using assms by (auto simp: begin_op_def split: option.splits if_splits)
  have "attempted d i"
  proof (unfold attempted_def, intro allI impI notI)
    fix h
    assume h: "journal_of d i = [h]" "never_mark h"
    have "s \<in> set (journal_of d i)" using state_of_row [OF s(1)] by simp
    with h s show False by (simp add: never_mark_def)
  qed
  then show ?thesis unfolding after_def by (rule mark_writes_keep) (rule mark_begin)
qed

interpretation file_mailbox_marks: marking_store attempted "mailbox_other cfg sid" mailbox_take mailbox_fence
  "mailbox_settle cfg sid" ib_msg_id for cfg sid
proof unfold_locales
  show "attempted t i" if "mailbox_other cfg sid F s t" "attempted s i" "\<not> F i" for F s t i
    using that by (rule mark_other)
  show "attempted t i" if "mailbox_take s m t" "attempted s i" for s m t i
    using that by (auto simp: mailbox_take_def after_def intro: mark_writes_keep mark_dequeue)
  show "attempted t (ib_msg_id m)" if "mailbox_fence s m t" for s m t
    using that by (auto simp: mailbox_fence_def intro: begin_marks)
  show "attempted t i" if "mailbox_fence s m t" "attempted s i" for s m t i
    using that by (auto simp: mailbox_fence_def after_def intro: mark_writes_keep mark_begin)
  show "attempted t i" if "mailbox_settle cfg sid s m r t" "attempted s i" for s m r t i
    using that by (auto simp: mailbox_settle_def intro!: mark_writes_keep list_all_take mark_settle_call)
qed

lemma never_rows_untouched:
  "never_rows c ms = Some rs \<Longrightarrow> r \<in> set rs \<Longrightarrow>
     \<exists>i m s. (i, m) \<in> set ms \<and> ib_msg_id r = ib_msg_id m \<and> jm_get (cu_states c) i = Some s
       \<and> sr_state s = Pending \<and> untouched c i m"
proof (induction ms arbitrary: rs)
  case (Cons im ms)
  obtain i m where "im = (i, m)" by fastforce
  with Cons show ?case by (fastforce split: option.splits if_splits)
qed simp

lemma in_jm_set: "(i, r) \<in> set (jm_set k v m) \<Longrightarrow> i = k \<and> r = v \<or> (i, r) \<in> set m"
  by (induction m) (auto split: if_splits)

lemma custody_messages_id:
  "custody_messages compaction sid rs m = Some m' \<Longrightarrow> \<forall>(i, r) \<in> set m. ib_msg_id r = i \<Longrightarrow>
     (i, r) \<in> set m' \<Longrightarrow> ib_msg_id r = i"
proof (induction rs arbitrary: m)
  case (Cons x rs)
  have "\<forall>(i, r) \<in> set (jm_set (ib_msg_id x) x m). ib_msg_id r = i"
    using Cons.prems(2) by (auto dest: in_jm_set)
  then show ?case using Cons by (auto split: option.splits if_splits)
qed auto


text \<open>A cooperative message that waits while another one is delivered and acknowledged.\<close>

definition coop_row :: "string \<Rightarrow> int \<Rightarrow> inbox_row" where
  "coop_row i at = (sample_row i at)\<lparr>ib_handoff := Some ''{}''\<rparr>"


end
