(* ===== verification/Mailbox_Lock.thy ===== *)
theory Mailbox_Lock
  imports Js_Prelude "HOL-Library.List_Lexorder" "HOL-Library.Char_ord"
begin

text \<open>
  The per-session lock of \<open>src/mailbox/lock.js\<close>: Lamport's bakery over a directory, with one
  uniquely named ticket directory per acquisition, numbers published by an atomic rename, and
  removal only by the owner or for a dead owner. An acquisition is one contender; the model
  interleaves the file-system operations of all of them: announcing (\<open>mkdir\<close>), a directory
  listing, the read of one peer's ticket, the publication, and the departure marker. A ticket
  goes through choosing, published and departed and never back, so the several calls of one
  \<open>readTicket\<close> amount to one read at its \<open>stat\<close> of the number file. \<open>EPERM\<close> answers, time-outs
  and deaths may happen at any step.
\<close>

section \<open>Tickets\<close>

datatype ticket = Absent | Choosing | Published int | Departed

datatype ticket_view = Gone | Removed | Unresolved | Number int

text \<open>
  What a reader knows from the outside: the owner's process is dead, and where it met \<open>EPERM\<close>:
  reading the ticket, or only while removing a dead owner's ticket.
\<close>

datatype refusal = NoRefusal | ReadRefused | ReapRefused

definition readTicket :: "bool \<Rightarrow> refusal \<Rightarrow> ticket \<Rightarrow> ticket_view" where
  "readTicket seen_dead r t =
     (if r = ReadRefused then Unresolved
      else case t of
        Absent \<Rightarrow> Gone
      | Departed \<Rightarrow> Gone
      | Choosing \<Rightarrow> (if seen_dead then (if r = ReapRefused then Gone else Removed) else Number 0)
      | Published n \<Rightarrow> (if seen_dead then (if r = ReapRefused then Gone else Removed) else Number n))"

text \<open>The ticket after the read: a reap leaves the departure marker.\<close>

definition reaped :: "bool \<Rightarrow> refusal \<Rightarrow> ticket \<Rightarrow> ticket" where
  "reaped seen_dead r t = (if readTicket seen_dead r t = Removed then Departed else t)"

definition max_contenders :: nat where
  "max_contenders = 1024"

text \<open>The admission test on one peer.\<close>

definition blocked_by :: "int \<Rightarrow> string \<Rightarrow> string \<Rightarrow> ticket_view \<Rightarrow> bool" where
  "blocked_by number name peer v =
     (case v of
        Gone \<Rightarrow> False
      | Removed \<Rightarrow> False
      | Unresolved \<Rightarrow> True
      | Number n \<Rightarrow> n = 0 \<or> n < number \<or> (n = number \<and> peer < name))"

text \<open>The doorway: the highest number read so far, or a restart of the scan.\<close>

definition doorway_read :: "int \<Rightarrow> ticket_view \<Rightarrow> int option" where
  "doorway_read highest v =
     (case v of
        Gone \<Rightarrow> Some highest
      | Removed \<Rightarrow> Some highest
      | Unresolved \<Rightarrow> None
      | Number n \<Rightarrow> Some (max highest n))"

section \<open>Contenders\<close>

datatype lock_phase =
    Outside
  | Doorway_list
  | Doorway "string list" int
  | Waiting int
  | Scanning int "string list"
  | Held int
  | Left

record lock_state =
  tickets :: "string \<Rightarrow> ticket"
  phases :: "string \<Rightarrow> lock_phase"
  dead :: "string \<Rightarrow> bool"

definition initial_lock :: lock_state where
  "initial_lock = \<lparr>tickets = (\<lambda>_. Absent), phases = (\<lambda>_. Outside), dead = (\<lambda>_. False)\<rparr>"

abbreviation at_phase :: "string \<Rightarrow> lock_phase \<Rightarrow> lock_state \<Rightarrow> lock_state" where
  "at_phase p ph s \<equiv> s\<lparr>phases := (phases s)(p := ph)\<rparr>"

abbreviation with_ticket :: "string \<Rightarrow> ticket \<Rightarrow> lock_state \<Rightarrow> lock_state" where
  "with_ticket p t s \<equiv> s\<lparr>tickets := (tickets s)(p := t)\<rparr>"

text \<open>
  One read of a peer. A dead owner may still look alive (\<open>isProcessAlive\<close> answers that only
  \<open>ESRCH\<close> establishes death), so \<open>seen_dead\<close> implies death but not conversely.
\<close>

definition peer_read :: "lock_state \<Rightarrow> string \<Rightarrow> bool \<Rightarrow> refusal \<Rightarrow> ticket_view \<times> lock_state" where
  "peer_read s q seen_dead r =
     (readTicket seen_dead r (tickets s q), with_ticket q (reaped seen_dead r (tickets s q)) s)"

definition in_line :: "lock_phase \<Rightarrow> bool" where
  "in_line ph \<longleftrightarrow> (case ph of Outside \<Rightarrow> False | Left \<Rightarrow> False | Held _ \<Rightarrow> False | _ \<Rightarrow> True)"

text \<open>
  The steps. The listing of a directory is any order of the tickets that exist. A refusal, the
  deadline or an error ends in the \<open>finally\<close> of \<open>acquireLockObserved\<close>: the ticket departs.
\<close>

inductive lock_step :: "lock_state \<Rightarrow> lock_state \<Rightarrow> bool" where
  announce: "phases s p = Outside \<Longrightarrow> \<not> dead s p \<Longrightarrow> tickets s p = Absent \<Longrightarrow>
     lock_step s (at_phase p Doorway_list (with_ticket p Choosing s))"
| list_doorway: "phases s p = Doorway_list \<Longrightarrow> \<not> dead s p \<Longrightarrow>
     set peers = {q. tickets s q \<noteq> Absent} \<Longrightarrow> length peers \<le> max_contenders \<Longrightarrow>
     lock_step s (at_phase p (Doorway peers 0) s)"
| read_doorway: "phases s p = Doorway (q # rest) highest \<Longrightarrow> \<not> dead s p \<Longrightarrow> (seen_dead \<longrightarrow> dead s q) \<Longrightarrow>
     peer_read s q seen_dead r = (v, s') \<Longrightarrow>
     lock_step s (at_phase p (case doorway_read highest v of None \<Rightarrow> Doorway_list | Some h \<Rightarrow> Doorway rest h) s')"
| publish: "phases s p = Doorway [] highest \<Longrightarrow> \<not> dead s p \<Longrightarrow> highest < max_safe_integer \<Longrightarrow>
     lock_step s (at_phase p (Waiting (highest + 1)) (with_ticket p (Published (highest + 1)) s))"
| list_admission: "phases s p = Waiting n \<Longrightarrow> \<not> dead s p \<Longrightarrow>
     set peers = {q. tickets s q \<noteq> Absent} \<Longrightarrow> length peers \<le> max_contenders \<Longrightarrow>
     lock_step s (at_phase p (Scanning n peers) s)"
| skip_self: "phases s p = Scanning n (p # rest) \<Longrightarrow> \<not> dead s p \<Longrightarrow>
     lock_step s (at_phase p (Scanning n rest) s)"
| read_admission: "phases s p = Scanning n (q # rest) \<Longrightarrow> \<not> dead s p \<Longrightarrow> q \<noteq> p \<Longrightarrow> (seen_dead \<longrightarrow> dead s q) \<Longrightarrow>
     peer_read s q seen_dead r = (v, s') \<Longrightarrow>
     lock_step s (at_phase p (if blocked_by n p q v then Waiting n else Scanning n rest) s')"
| admit: "phases s p = Scanning n [] \<Longrightarrow> \<not> dead s p \<Longrightarrow> lock_step s (at_phase p (Held n) s)"
| release: "phases s p = Held n \<Longrightarrow> \<not> dead s p \<Longrightarrow>
     lock_step s (at_phase p Left (with_ticket p Departed s))"
| give_up: "in_line (phases s p) \<Longrightarrow> \<not> dead s p \<Longrightarrow>
     lock_step s (at_phase p Left (with_ticket p Departed s))"
| die: "lock_step s (s\<lparr>dead := (dead s)(p := True)\<rparr>)"
| reap: "dead s q \<Longrightarrow> tickets s q \<noteq> Absent \<Longrightarrow> lock_step s (with_ticket q Departed s)"
| clean: "tickets s q = Departed \<Longrightarrow> lock_step s (with_ticket q Absent s)"

section \<open>The invariant\<close>

text \<open>The phase of a living contender tells the state of its ticket.\<close>

definition phase_ticket :: "lock_phase \<Rightarrow> ticket \<Rightarrow> bool" where
  "phase_ticket ph t =
     (case ph of
        Outside \<Rightarrow> t = Absent
      | Doorway_list \<Rightarrow> t = Choosing
      | Doorway _ h \<Rightarrow> t = Choosing \<and> 0 \<le> h
      | Waiting n \<Rightarrow> t = Published n \<and> 0 < n
      | Scanning n _ \<Rightarrow> t = Published n \<and> 0 < n
      | Held n \<Rightarrow> t = Published n \<and> 0 < n
      | Left \<Rightarrow> t = Departed \<or> t = Absent)"

text \<open>A contender with number \<open>n\<close> has passed \<open>q\<close> in its admission scan.\<close>

definition passed :: "lock_phase \<Rightarrow> string \<Rightarrow> int option" where
  "passed ph q = (case ph of
     Scanning n rest \<Rightarrow> if q \<in> set rest then None else Some n
   | Held n \<Rightarrow> Some n
   | _ \<Rightarrow> None)"

text \<open>Why \<open>p\<close> with number \<open>n\<close> may ignore \<open>q\<close>: \<open>q\<close> is behind it, now and at its publication.\<close>

definition behind :: "int \<Rightarrow> string \<Rightarrow> lock_phase \<Rightarrow> string \<Rightarrow> bool" where
  "behind n p ph q = (case ph of
     Doorway rest h \<Rightarrow> p \<in> set rest \<or> n \<le> h
   | Waiting m \<Rightarrow> n < m \<or> n = m \<and> p < q
   | Scanning m _ \<Rightarrow> n < m \<or> n = m \<and> p < q
   | Held m \<Rightarrow> n < m \<or> n = m \<and> p < q
   | _ \<Rightarrow> True)"

definition bakery :: "lock_state \<Rightarrow> bool" where
  "bakery s \<longleftrightarrow> (\<forall>p. \<not> dead s p \<longrightarrow> phase_ticket (phases s p) (tickets s p))
     \<and> (\<forall>p q n. p \<noteq> q \<longrightarrow> \<not> dead s p \<longrightarrow> \<not> dead s q \<longrightarrow> passed (phases s p) q = Some n
          \<longrightarrow> behind n p (phases s q) q)"

lemma bakeryI:
  assumes "\<And>p. \<not> dead s p \<Longrightarrow> phase_ticket (phases s p) (tickets s p)"
    and "\<And>p q n. p \<noteq> q \<Longrightarrow> \<not> dead s p \<Longrightarrow> \<not> dead s q \<Longrightarrow> passed (phases s p) q = Some n
          \<Longrightarrow> behind n p (phases s q) q"
  shows "bakery s"
  using assms by (auto simp: bakery_def)

lemma bakery_ticket: "bakery s \<Longrightarrow> \<not> dead s p \<Longrightarrow> phase_ticket (phases s p) (tickets s p)"
  by (simp add: bakery_def)

lemma bakery_behind:
  "bakery s \<Longrightarrow> p \<noteq> q \<Longrightarrow> \<not> dead s p \<Longrightarrow> \<not> dead s q \<Longrightarrow> passed (phases s p) q = Some n \<Longrightarrow> behind n p (phases s q) q"
  by (simp add: bakery_def)

text \<open>
  A step that changes the phase of one contender \<open>p\<close>, and no ticket of another living one, keeps
  the invariant if \<open>p\<close>'s own ticket fits, every contender \<open>p\<close> has now passed is behind it, and \<open>p\<close>
  is still behind every contender that has passed it.
\<close>

lemma bakery_update:
  assumes inv: "bakery s" and dead: "dead s' = dead s" and ph: "phases s' = (phases s)(p := ph)"
    and others: "\<And>r. r \<noteq> p \<Longrightarrow> \<not> dead s r \<Longrightarrow> tickets s' r = tickets s r \<or> phases s r = Left \<and> phase_ticket Left (tickets s' r)"
    and own: "phase_ticket ph (tickets s' p)"
    and mine: "\<And>q n. q \<noteq> p \<Longrightarrow> \<not> dead s q \<Longrightarrow> passed ph q = Some n \<Longrightarrow> behind n p (phases s q) q"
    and theirs: "\<And>q n. q \<noteq> p \<Longrightarrow> \<not> dead s q \<Longrightarrow> passed (phases s q) p = Some n \<Longrightarrow> behind n q ph p"
  shows "bakery s'"
proof (rule bakeryI)
  fix r
  assume "\<not> dead s' r"
  then show "phase_ticket (phases s' r) (tickets s' r)"
    using others [of r] own bakery_ticket [OF inv, of r] by (cases "r = p") (auto simp: ph dead)
next
  fix a b n
  assume "a \<noteq> b" "\<not> dead s' a" "\<not> dead s' b" "passed (phases s' a) b = Some n"
  then show "behind n a (phases s' b) b"
    using mine [of b n] theirs [of a n] bakery_behind [OF inv, of a b n]
    by (auto simp: ph dead split: if_splits)
qed

lemma peer_readD:
  assumes "peer_read s q seen_dead r = (v, s')" and "seen_dead \<longrightarrow> dead s q"
  shows "v = readTicket seen_dead r (tickets s q)" "phases s' = phases s" "dead s' = dead s"
    "\<not> dead s x \<Longrightarrow> tickets s' x = tickets s x"
  using assms by (auto simp: peer_read_def reaped_def readTicket_def split: ticket.splits if_splits)

lemma behind_initial [simp]: "behind n p Doorway_list q" "behind n p Outside q" "behind n p Left q"
  by (simp_all add: behind_def)

lemma passed_simps [simp]:
  "passed Outside q = None" "passed Doorway_list q = None" "passed (Doorway rest h) q = None"
  "passed (Waiting n) q = None" "passed Left q = None" "passed (Held n) q = Some n"
  "passed (Scanning n rest) q = (if q \<in> set rest then None else Some n)"
  by (simp_all add: passed_def)

text \<open>Whoever passed a contender has a published ticket.\<close>

lemma passed_published:
  "bakery s \<Longrightarrow> \<not> dead s p \<Longrightarrow> passed (phases s p) q = Some n \<Longrightarrow> tickets s p = Published n \<and> 0 < n"
  using bakery_ticket [of s p]
  by (cases "phases s p") (auto simp: phase_ticket_def split: if_splits)

lemma bakery_list_doorway:
  assumes "bakery s" "phases s p = Doorway_list" "\<not> dead s p" "set peers = {q. tickets s q \<noteq> Absent}"
  shows "bakery (at_phase p (Doorway peers 0) s)"
proof (rule bakery_update [OF assms(1)])
  show "phase_ticket (Doorway peers 0) (tickets (at_phase p (Doorway peers 0) s) p)"
    using bakery_ticket [OF assms(1,3)] assms(2) by (simp add: phase_ticket_def)
  show "behind n q (Doorway peers 0) p" if "\<not> dead s q" "passed (phases s q) p = Some n" for q n
    using passed_published [OF assms(1) that] assms(4) by (simp add: behind_def)
qed (use assms in simp_all)

lemma bakery_read_doorway:
  assumes inv: "bakery s" and ph: "phases s p = Doorway (q # rest) h" and p: "\<not> dead s p"
    and sd: "seen_dead \<longrightarrow> dead s q" and rd: "peer_read s q seen_dead r = (v, s')"
  shows "bakery (at_phase p (case doorway_read h v of None \<Rightarrow> Doorway_list | Some h' \<Rightarrow> Doorway rest h') s')"
proof -
  note rd' = peer_readD [OF rd sd]
  have own: "tickets s p = Choosing" "0 \<le> h" using bakery_ticket [OF inv p] ph by (auto simp: phase_ticket_def)
  show ?thesis
  proof (cases "doorway_read h v")
    case None
    show ?thesis
      unfolding None by (rule bakery_update [OF inv]) (use own p rd' in \<open>auto simp: phase_ticket_def\<close>)
  next
    case (Some h')
    then have h': "h \<le> h'" by (auto simp: doorway_read_def split: ticket_view.splits)
    show ?thesis
      unfolding Some option.case
    proof (rule bakery_update [OF inv])
      show "behind n x (Doorway rest h') p"
        if "x \<noteq> p" "\<not> dead s x" "passed (phases s x) p = Some n" for x n
      proof -
        have "behind n x (Doorway (q # rest) h) p" using bakery_behind [OF inv that(1,2) p that(3)] ph by simp
        moreover have "n \<le> h'" if "x = q"
          using passed_published [OF inv \<open>\<not> dead s x\<close> \<open>passed (phases s x) p = Some n\<close>] that Some sd
            \<open>\<not> dead s x\<close> rd'(1)
          by (auto simp: readTicket_def doorway_read_def split: if_splits)
        ultimately show ?thesis using h' by (auto simp: behind_def)
      qed
    qed (use own p rd' h' in \<open>auto simp: phase_ticket_def\<close>)
  qed
qed

lemma bakery_publish:
  assumes inv: "bakery s" and ph: "phases s p = Doorway [] h" and p: "\<not> dead s p"
  shows "bakery (at_phase p (Waiting (h + 1)) (with_ticket p (Published (h + 1)) s))"
proof (rule bakery_update [OF inv])
  show "behind n x (Waiting (h + 1)) p" if "x \<noteq> p" "\<not> dead s x" "passed (phases s x) p = Some n" for x n
    using bakery_behind [OF inv that(1,2) p that(3)] ph by (simp add: behind_def)
qed (use bakery_ticket [OF inv p] ph in \<open>auto simp: phase_ticket_def\<close>)

lemma bakery_list_admission:
  assumes inv: "bakery s" and ph: "phases s p = Waiting n" and p: "\<not> dead s p"
    and peers: "set peers = {q. tickets s q \<noteq> Absent}"
  shows "bakery (at_phase p (Scanning n peers) s)"
proof (rule bakery_update [OF inv])
  show "behind m p (phases s q) q" if "q \<noteq> p" "\<not> dead s q" "passed (Scanning n peers) q = Some m" for q m
    using bakery_ticket [OF inv that(2)] that(3) peers
    by (auto simp: behind_def phase_ticket_def split: lock_phase.splits if_splits)
  show "behind m x (Scanning n peers) p" if "x \<noteq> p" "\<not> dead s x" "passed (phases s x) p = Some m" for x m
    using bakery_behind [OF inv that(1,2) p that(3)] ph by (simp add: behind_def)
qed (use bakery_ticket [OF inv p] ph in \<open>auto simp: phase_ticket_def\<close>)

lemma bakery_read_admission:
  assumes inv: "bakery s" and ph: "phases s p = Scanning n (q # rest)" and p: "\<not> dead s p" and qp: "q \<noteq> p"
    and sd: "seen_dead \<longrightarrow> dead s q" and rd: "peer_read s q seen_dead r = (v, s')"
  shows "bakery (at_phase p (if blocked_by n p q v then Waiting n else Scanning n rest) s')"
proof -
  note rd' = peer_readD [OF rd sd]
  have own: "tickets s p = Published n" "0 < n" using bakery_ticket [OF inv p] ph by (auto simp: phase_ticket_def)
  have theirs: "behind m x ph' p"
    if "x \<noteq> p" "\<not> dead s x" "passed (phases s x) p = Some m" "ph' = Waiting n \<or> ph' = Scanning n rest" for x m ph'
    using bakery_behind [OF inv that(1,2) p that(3)] ph that(4) by (auto simp: behind_def)
  show ?thesis
  proof (cases "blocked_by n p q v")
    case True
    then show ?thesis
      by simp (rule bakery_update [OF inv], use own p rd' theirs in \<open>auto simp: phase_ticket_def\<close>)
  next
    case False
    have "\<not> q < p \<Longrightarrow> p < q" using qp by auto
    then have new: "behind n p (phases s q) q" if "\<not> dead s q"
      using bakery_ticket [OF inv that] False that sd rd'(1)
      by (cases "phases s q") (auto simp: phase_ticket_def behind_def blocked_by_def readTicket_def split: if_splits)
    have "behind m p (phases s x) x" if "x \<noteq> p" "\<not> dead s x" "passed (Scanning n rest) x = Some m" for x m
      using that new bakery_behind [OF inv _ p that(2), of n] ph by (cases "x = q") (auto split: if_splits)
    then show ?thesis
      using False by simp (rule bakery_update [OF inv], use own p rd' theirs in \<open>auto simp: phase_ticket_def\<close>)
  qed
qed

lemma bakery_departs:
  assumes inv: "bakery s" and p: "\<not> dead s p"
  shows "bakery (at_phase p Left (with_ticket p Departed s))"
  by (rule bakery_update [OF inv]) (auto simp: phase_ticket_def)

lemma bakery_tickets:
  assumes "bakery s" "dead s' = dead s" "phases s' = phases s"
    and "\<And>p. \<not> dead s p \<Longrightarrow> phase_ticket (phases s p) (tickets s' p)"
  shows "bakery s'"
  using assms by (auto simp: bakery_def)

lemma departed_left: "bakery s \<Longrightarrow> \<not> dead s p \<Longrightarrow> tickets s p = Departed \<Longrightarrow> phases s p = Left"
  using bakery_ticket [of s p] by (cases "phases s p") (auto simp: phase_ticket_def)

lemma bakery_step: "lock_step s t \<Longrightarrow> bakery s \<Longrightarrow> bakery t"
proof (induction rule: lock_step.induct)
  case (announce s p)
  then show ?case
    by (intro bakery_update [OF announce.prems]) (auto simp: phase_ticket_def)
next
  case (list_doorway s p peers)
  then show ?case by (intro bakery_list_doorway)
next
  case (read_doorway s p q rest h seen_dead r v s')
  then show ?case by (intro bakery_read_doorway)
next
  case (publish s p h)
  then show ?case by (intro bakery_publish)
next
  case (list_admission s p n peers)
  then show ?case by (intro bakery_list_admission)
next
  case (skip_self s p n rest)
  then show ?case
    using bakery_ticket [of s p] bakery_behind [of s _ p] bakery_behind [of s p]
    by (intro bakery_update [OF skip_self.prems])
      (fastforce simp: phase_ticket_def behind_def split: if_splits)+
next
  case (read_admission s p n q rest seen_dead r v s')
  then show ?case by (intro bakery_read_admission)
next
  case (admit s p n)
  then show ?case
    using bakery_ticket [of s p] bakery_behind [of s _ p] bakery_behind [of s p]
    by (intro bakery_update [OF admit.prems]) (fastforce simp: phase_ticket_def behind_def split: if_splits)+
next
  case (release s p n)
  then show ?case by (intro bakery_departs)
next
  case (give_up s p)
  then show ?case by (intro bakery_departs)
next
  case (die s p)
  then show ?case by (auto simp: bakery_def)
next
  case (reap s q)
  then show ?case by (intro bakery_tickets [OF reap.prems]) (auto simp: bakery_ticket)
next
  case (clean s q)
  show ?case
  proof (rule bakery_tickets [OF clean.prems])
    fix p
    assume "\<not> dead s p"
    then show "phase_ticket (phases s p) (tickets (with_ticket q Absent s) p)"
      using clean.hyps bakery_ticket [OF clean.prems, of p] departed_left [OF clean.prems, of p]
      by (cases "p = q") (simp_all add: phase_ticket_def)
  qed simp_all
qed

interpretation lock_machine: step_machine lock_step bakery
  by unfold_locales (rule bakery_step)

lemma bakery_initial: "bakery initial_lock"
  by (simp add: bakery_def initial_lock_def phase_ticket_def)

section \<open>Mutual exclusion and order\<close>

text \<open>
  C6. Mutual exclusion: however the file-system operations of any number of contenders
  interleave, with time-outs, refused reads, deaths and reaps at any point, two living
  contenders never hold the lock of a session at once.
\<close>

theorem lock_mutual_exclusion:
  assumes "lock_step\<^sup>*\<^sup>* initial_lock s" and "phases s p = Held n" "\<not> dead s p"
    and "phases s q = Held m" "\<not> dead s q"
  shows "p = q"
proof (rule ccontr)
  assume "p \<noteq> q"
  have "bakery s" using assms(1) bakery_initial by (rule lock_machine.steps_keep)
  then have "behind n p (Held m) q" "behind m q (Held n) p"
    using bakery_behind [of s p q n] bakery_behind [of s q p m] \<open>p \<noteq> q\<close> assms(2-) by auto
  then show False by (auto simp: behind_def)
qed

text \<open>
  The lock is granted in ticket order: while a living contender holds it, every other
  living contender whose number is published has a higher ticket (number, then name), so nobody
  overtakes a published ticket; and a contender that lists the peers after a ticket was
  published always takes a higher number than that ticket.
\<close>

theorem lock_ticket_order:
  assumes "lock_step\<^sup>*\<^sup>* initial_lock s" and "phases s p = Held n" "\<not> dead s p"
    and "p \<noteq> q" "\<not> dead s q"
  shows "(tickets s q = Published m \<longrightarrow> n < m \<or> n = m \<and> p < q)
    \<and> (\<forall>h. phases s q = Doorway [] h \<longrightarrow> n < h + 1)"
proof -
  have inv: "bakery s" using assms(1) bakery_initial by (rule lock_machine.steps_keep)
  have b: "behind n p (phases s q) q"
    using bakery_behind [OF inv assms(4,3,5), of n] assms(2) by simp
  show ?thesis
    using b bakery_ticket [OF inv assms(5)]
    by (cases "phases s q") (auto simp: behind_def phase_ticket_def)
qed

section \<open>Progress\<close>

text \<open>A peer that does not stop \<open>p\<close>: gone, dead, or published behind \<open>p\<close>.\<close>

definition lets_pass :: "lock_state \<Rightarrow> string \<Rightarrow> int \<Rightarrow> string \<Rightarrow> bool" where
  "lets_pass s p n q \<longleftrightarrow> q = p \<or> dead s q \<or> tickets s q = Absent \<or> tickets s q = Departed
     \<or> (\<exists>m. tickets s q = Published m \<and> 0 < m \<and> (n < m \<or> n = m \<and> p < q))"

lemma scan_passes:
  assumes "phases s p = Scanning n rest" "\<not> dead s p" "\<forall>q. lets_pass s p n q"
  shows "\<exists>t. lock_step\<^sup>*\<^sup>* s t \<and> phases t p = Held n \<and> dead t = dead s"
  using assms
proof (induction rest arbitrary: s)
  case Nil
  then have "lock_step s (at_phase p (Held n) s)" by (intro admit)
  then show ?case by (intro exI [of _ "at_phase p (Held n) s"]) auto
next
  case (Cons q rest)
  show ?case
  proof (cases "q = p")
    case True
    with Cons.prems have "lock_step s (at_phase p (Scanning n rest) s)" by (intro skip_self) auto
    moreover have "\<exists>t. lock_step\<^sup>*\<^sup>* (at_phase p (Scanning n rest) s) t \<and> phases t p = Held n
        \<and> dead t = dead (at_phase p (Scanning n rest) s)"
      using Cons.prems by (intro Cons.IH) (auto simp: lets_pass_def)
    ultimately show ?thesis by (auto intro: converse_rtranclp_into_rtranclp)
  next
    case False
    obtain v s' where rd: "peer_read s q (dead s q) NoRefusal = (v, s')" by fastforce
    have go: "\<not> blocked_by n p q v"
      using rd Cons.prems(3) False
      by (auto simp: peer_read_def readTicket_def blocked_by_def lets_pass_def split: ticket.splits if_splits dest!: spec [of _ q])
    let ?t = "at_phase p (Scanning n rest) s'"
    have "lock_step s ?t"
      using read_admission [OF Cons.prems(1,2) False _ rd] go by simp
    moreover have "\<exists>t. lock_step\<^sup>*\<^sup>* ?t t \<and> phases t p = Held n \<and> dead t = dead ?t"
    proof (rule Cons.IH)
      show "\<not> dead ?t p" using rd Cons.prems(2) by (auto simp: peer_read_def)
      show "\<forall>x. lets_pass ?t p n x"
      proof
        fix x
        have "lets_pass s p n x" using Cons.prems(3) by blast
        then show "lets_pass ?t p n x"
          using rd by (cases "x = q")
            (auto simp: peer_read_def reaped_def readTicket_def lets_pass_def split: if_splits)
      qed
    qed simp
    ultimately show ?thesis using rd by (auto simp: peer_read_def intro: converse_rtranclp_into_rtranclp)
  qed
qed


section \<open>Two contenders\<close>

text \<open>With everybody alive and no refusal, the doorway ends with the highest number read.\<close>

fun ticket_number :: "ticket \<Rightarrow> int" where
  "ticket_number (Published n) = n"
| "ticket_number _ = 0"

lemma doorway_scan:
  assumes "phases s p = Doorway rest h" "\<forall>q. \<not> dead s q" "0 \<le> h"
    and "\<forall>q \<in> set rest. tickets s q = Choosing \<or> (\<exists>n. tickets s q = Published n)"
  shows "lock_step\<^sup>*\<^sup>* s (at_phase p (Doorway [] (foldl max h (map (ticket_number \<circ> tickets s) rest))) s)"
  using assms
proof (induction rest arbitrary: s h)
  case Nil
  then have "(phases s)(p := Doorway [] h) = phases s" by (auto simp: fun_upd_idem_iff)
  then have "at_phase p (Doorway [] h) s = s" by (simp only:) simp
  then show ?case by (simp only: list.map foldl_Nil rtranclp.rtrancl_refl)
next
  case (Cons q rest)
  let ?h = "max h (ticket_number (tickets s q))"
  have "peer_read s q False NoRefusal = (Number (ticket_number (tickets s q)), s)"
    using Cons.prems(4) by (auto simp: peer_read_def readTicket_def reaped_def)
  from read_doorway [OF Cons.prems(1) _ _ this]
  have "lock_step s (at_phase p (Doorway rest ?h) s)"
    using Cons.prems(2) by (simp add: doorway_read_def)
  moreover have "lock_step\<^sup>*\<^sup>* (at_phase p (Doorway rest ?h) s)
      (at_phase p (Doorway [] (foldl max ?h (map (ticket_number \<circ> tickets s) rest))) s)"
    using Cons.IH [of "at_phase p (Doorway rest ?h) s" ?h] Cons.prems
    by (simp add: fun_upd_def comp_def cong: if_cong)
  ultimately have "lock_step\<^sup>*\<^sup>* s (at_phase p (Doorway [] (foldl max ?h (map (ticket_number \<circ> tickets s) rest))) s)"
    by (rule converse_rtranclp_into_rtranclp)
  then show ?case by (simp add: comp_def fun_upd_def)
qed

lemma lock_steps_chain:
  "lock_step a b \<Longrightarrow> lock_step b c \<Longrightarrow> lock_step\<^sup>*\<^sup>* c d \<Longrightarrow> lock_step d e \<Longrightarrow> lock_step\<^sup>*\<^sup>* a e"
  by (meson converse_rtranclp_into_rtranclp rtranclp.rtrancl_into_rtrancl)

definition waiting_1 :: lock_state where
  "waiting_1 = at_phase ''1-a'' (Waiting 1) (with_ticket ''1-a'' (Published 1) initial_lock)"

definition held_1 :: lock_state where
  "held_1 = at_phase ''1-a'' (Held 1) waiting_1"

definition held_waiting :: lock_state where
  "held_waiting = at_phase ''2-b'' (Waiting 2) (with_ticket ''2-b'' (Published 2) held_1)"

lemma enter:
  assumes "phases s p = Outside" "tickets s p = Absent" "\<forall>q. \<not> dead s q"
    and "set peers = {q. tickets s q \<noteq> Absent} \<union> {p}" "length peers \<le> 1024"
    and "\<forall>q \<in> set peers - {p}. \<exists>n. tickets s q = Published n"
    and "h = foldl max 0 (map (ticket_number \<circ> tickets s) peers)" "h < max_safe_integer"
  shows "lock_step\<^sup>*\<^sup>* s (at_phase p (Waiting (h + 1)) (with_ticket p (Published (h + 1)) s))"
proof -
  let ?s1 = "at_phase p Doorway_list (with_ticket p Choosing s)"
  let ?s2 = "at_phase p (Doorway peers 0) ?s1"
  have "map (ticket_number \<circ> tickets ?s2) peers = map (ticket_number \<circ> tickets s) peers"
    using assms(2) by simp
  then have h: "foldl max 0 (map (ticket_number \<circ> tickets ?s2) peers) = h" by (simp only: assms(7))
  have 1: "lock_step s ?s1" using assms by (intro announce) auto
  have 2: "lock_step ?s1 ?s2" using assms by (intro list_doorway) (auto simp: max_contenders_def)
  have 3: "lock_step\<^sup>*\<^sup>* ?s2 (at_phase p (Doorway [] h) ?s2)"
    unfolding h [symmetric] using assms by (intro doorway_scan) auto
  have 4: "lock_step (at_phase p (Doorway [] h) ?s2)
      (at_phase p (Waiting (h + 1)) (with_ticket p (Published (h + 1)) (at_phase p (Doorway [] h) ?s2)))"
    using assms by (intro publish) auto
  have "lock_step\<^sup>*\<^sup>* s
      (at_phase p (Waiting (h + 1)) (with_ticket p (Published (h + 1)) (at_phase p (Doorway [] h) ?s2)))"
    using 1 2 3 4 by (rule lock_steps_chain)
  then show ?thesis by simp
qed

lemma run_waiting_1: "lock_step\<^sup>*\<^sup>* initial_lock waiting_1"
proof -
  have "set [''1-a''] = {q. tickets initial_lock q \<noteq> Absent} \<union> {''1-a''}"
    and "0 = foldl max 0 (map (ticket_number \<circ> tickets initial_lock) [''1-a''])"
    by (simp_all add: initial_lock_def)
  from enter [OF _ _ _ this(1) _ _ this(2)] show ?thesis
    by (simp add: waiting_1_def initial_lock_def max_safe_integer_def)
qed

lemma run_held_1: "lock_step\<^sup>*\<^sup>* initial_lock held_1"
proof -
  note run_waiting_1
  also have "lock_step waiting_1 (at_phase ''1-a'' (Scanning 1 [''1-a'']) waiting_1)"
    by (intro list_admission) (auto simp: waiting_1_def initial_lock_def max_contenders_def)
  also have "lock_step \<dots> (at_phase ''1-a'' (Scanning 1 []) waiting_1)"
    using skip_self [of "at_phase ''1-a'' (Scanning 1 [''1-a'']) waiting_1" "''1-a''" 1 "[]"]
    by (simp add: waiting_1_def initial_lock_def)
  also have "lock_step \<dots> held_1"
    using admit [of "at_phase ''1-a'' (Scanning 1 []) waiting_1" "''1-a''" 1]
    by (simp add: held_1_def waiting_1_def initial_lock_def)
  finally show ?thesis .
qed

lemma run_held_waiting: "lock_step\<^sup>*\<^sup>* initial_lock held_waiting"
proof -
  have "set [''1-a'', ''2-b''] = {q. tickets held_1 q \<noteq> Absent} \<union> {''2-b''}"
    and "1 = foldl max 0 (map (ticket_number \<circ> tickets held_1) [''1-a'', ''2-b''])"
    by (auto simp: held_1_def waiting_1_def initial_lock_def)
  note * = this
  have "\<forall>q \<in> set [''1-a'', ''2-b''] - {''2-b''}. \<exists>n. tickets held_1 q = Published n"
    by (auto simp add: held_1_def waiting_1_def initial_lock_def)
  from enter [OF _ _ _ *(1) _ this *(2)]
  have "lock_step\<^sup>*\<^sup>* held_1 held_waiting"
    by (simp add: held_waiting_def held_1_def waiting_1_def initial_lock_def max_safe_integer_def)
  with run_held_1 show ?thesis by (rule rtranclp_trans)
qed

theorem lock_mutual_exclusion_witness:
  "{q. \<exists>m. phases held_waiting q = Held m \<and> \<not> dead held_waiting q} = {''1-a''}"
  using lock_mutual_exclusion [OF run_held_waiting, of "''1-a''" 1]
  by (auto simp: held_waiting_def held_1_def waiting_1_def initial_lock_def split: if_splits)

theorem lock_ticket_order_witness:
  "phases held_waiting ''1-a'' = Held 1 \<and> tickets held_waiting ''2-b'' = Published 2 \<and> (1 :: int) < 2"
proof -
  have *: "phases held_waiting ''1-a'' = Held 1" "tickets held_waiting ''2-b'' = Published 2"
    "\<not> dead held_waiting ''1-a''" "\<not> dead held_waiting ''2-b''"
    by (simp_all add: held_waiting_def held_1_def waiting_1_def initial_lock_def)
  from lock_ticket_order [OF run_held_waiting *(1,3) _ *(4), of 2] * show ?thesis by simp
qed

text \<open>A dead owner's lower ticket does not stop the next contender.\<close>

definition dead_holder :: lock_state where
  "dead_holder = held_waiting\<lparr>dead := (dead held_waiting)(''1-a'' := True)\<rparr>"


end
