(* ===== verification/Ledger_Records.thy ===== *)
theory Ledger_Records
  imports Js_Prelude
begin

text \<open>
  Tracking records of \<open>src/session-store/ledger-format.js\<close>: log positions, observations with
  their cap, lazily applied facts (\<open>overlay\<close>, \<open>materialize\<close>) and \<open>applyFrame\<close>, the function that
  the owner, replay and the client all apply to a frame. The specification applies every fact
  at once to every record it concerns; the ledger applies it when the record is next written
  or read, and the two agree after every frame.
\<close>

section \<open>Positions\<close>

record lpos =
  epoch :: int
  pseq :: int

definition comparePos :: "lpos \<Rightarrow> lpos \<Rightarrow> int" where
  "comparePos a b =
     (if epoch a \<noteq> epoch b then (if epoch a < epoch b then -1 else 1)
      else if pseq a \<noteq> pseq b then (if pseq a < pseq b then -1 else 1)
      else 0)"

definition origin :: lpos where
  "origin = \<lparr>epoch = 0, pseq = 0\<rparr>"

definition before :: "lpos \<Rightarrow> lpos \<Rightarrow> bool" where
  "before a b \<longleftrightarrow> comparePos a b < 0"

lemma before_iff: "before a b \<longleftrightarrow> epoch a < epoch b \<or> epoch a = epoch b \<and> pseq a < pseq b"
  by (auto simp: before_def comparePos_def)

lemma comparePos_le: "comparePos a b \<le> 0 \<longleftrightarrow> \<not> before b a"
  by (auto simp: before_def comparePos_def)

lemma comparePos_ge: "comparePos a b \<ge> 0 \<longleftrightarrow> \<not> before a b"
  by (auto simp: before_def)

lemma before_irrefl [simp]: "\<not> before a a"
  by (simp add: before_iff)

lemma before_trans: "before a b \<Longrightarrow> before b c \<Longrightarrow> before a c"
  by (auto simp: before_iff)

lemma before_asym: "before a b \<Longrightarrow> \<not> before b a"
  by (auto simp: before_iff)

section \<open>Records\<close>

text \<open>
  An observation has its kind and trigger, its other members (as JSON text), the time stamp and
  the sequence number; a record has the fields the ledger reads and the rest as JSON text.
\<close>

record observation =
  ob_kind :: string
  ob_trigger :: "string option"
  ob_body :: string
  ob_at :: "string option"
  ob_seq :: int

record tracked =
  tk_inject_id :: string
  tk_session_id :: string
  tk_state :: string
  tk_seq :: int
  tk_observations :: "observation list"
  tk_last :: "observation option"
  tk_through :: "lpos option"
  tk_rest :: string

text \<open>Two observations are the same observation when kind and trigger agree.\<close>

definition observationIdentity :: "string \<Rightarrow> string option \<Rightarrow> string" where
  "observationIdentity kind trigger = kind @ ''|'' @ (case trigger of None \<Rightarrow> [] | Some t \<Rightarrow> t)"

definition max_observations :: nat where
  "max_observations = 50"

function capObservations :: "observation list \<Rightarrow> observation list" where
  "capObservations out = (if length out > max_observations then capObservations (tl out) else out)"
  by pat_completeness auto

termination
  by (relation "measure length") (auto simp: max_observations_def)

declare capObservations.simps [simp del]

lemma capObservations_drop: "capObservations out = drop (length out - max_observations) out"
proof (induction out rule: capObservations.induct)
  case (1 out)
  show ?case
  proof (cases "length out > max_observations")
    case True
    then obtain x xs where out: "out = x # xs" by (cases out) auto
    have "length out - max_observations = Suc (length xs - max_observations)" using True out by simp
    then show ?thesis using 1 True unfolding out by (subst capObservations.simps) simp
  next
    case False
    then show ?thesis by (simp add: capObservations.simps [of out])
  qed
qed

definition truthy :: "string option \<Rightarrow> string option" where
  "truthy s = (if s = Some [] then None else s)"

definition appendObservation :: "tracked \<Rightarrow> observation \<Rightarrow> tracked \<times> observation" where
  "appendObservation r ob =
     (let n = tk_seq r + 1;
          entry = ob\<lparr>ob_seq := n, ob_at := truthy (ob_at ob)\<rparr>
      in (r\<lparr>tk_seq := n, tk_last := Some entry,
            tk_observations := capObservations (tk_observations r @ [entry])\<rparr>, entry))"

section \<open>Facts\<close>

record fact =
  fc_pos :: lpos
  fc_scope :: string
  fc_sid :: "string option"
  fc_observation :: observation

definition factApplies :: "fact \<Rightarrow> tracked \<Rightarrow> bool" where
  "factApplies f r \<longleftrightarrow> (if fc_scope f = ''global'' then True
     else fc_scope f = ''session'' \<and> fc_sid f = Some (tk_session_id r))"

definition through_of :: "tracked \<Rightarrow> lpos" where
  "through_of r = (case tk_through r of None \<Rightarrow> origin | Some p \<Rightarrow> p)"

fun pendingFactsFor :: "tracked \<Rightarrow> fact list \<Rightarrow> lpos option \<Rightarrow> fact list" where
  "pendingFactsFor r [] bound = []"
| "pendingFactsFor r (f # fs) bound =
     (if comparePos (fc_pos f) (through_of r) \<le> 0 then pendingFactsFor r fs bound
      else if (case bound of None \<Rightarrow> False | Some u \<Rightarrow> comparePos (fc_pos f) u \<ge> 0) then []
      else if factApplies f r then f # pendingFactsFor r fs bound
      else pendingFactsFor r fs bound)"

definition append_facts :: "tracked \<Rightarrow> fact list \<Rightarrow> tracked" where
  "append_facts r fs = foldl (\<lambda>r f. fst (appendObservation r (fc_observation f))) r fs"

definition materialize :: "tracked \<Rightarrow> fact list \<Rightarrow> lpos \<Rightarrow> tracked" where
  "materialize r fs p = (append_facts r fs)\<lparr>tk_through := Some p\<rparr>"

definition overlay :: "tracked \<Rightarrow> fact list \<Rightarrow> tracked" where
  "overlay r fs = (let pending = pendingFactsFor r fs None in if pending = [] then r else append_facts r pending)"

section \<open>Frames\<close>

text \<open>An interaction's action and the pending injection it may carry, with the fields the ledger reads.\<close>

record act =
  ac_id :: string
  ac_sid :: string
  ac_terminal :: bool
  ac_rest :: string

record pending_inject =
  pd_inject_id :: string
  pd_sid :: string
  pd_state :: string
  pd_rest :: string

datatype frame_body =
    Begin string tracked "(string \<times> observation) list"
  | Obs string observation
  | State string string observation
  | Reheat string tracked
  | Fact string "string option" observation
  | Iact act "pending_inject option"
  | UnknownFrame string

record frame =
  fr_pos :: lpos
  fr_body :: frame_body

datatype ledger_error = AlreadyExists | RecordMissing | RecordTerminal | InvalidFrame

record effect =
  ef_id :: string
  ef_entry :: "observation option"
  ef_state :: string
  ef_record :: "tracked option"

record projection =
  pj_records :: "string \<rightharpoonup> tracked"
  pj_facts :: "fact list"
  pj_actions :: "(act \<times> pending_inject option) list"

definition terminal_states :: "string list" where
  "terminal_states = [''aborted'', ''superseded'']"

definition set_record :: "string \<Rightarrow> tracked \<Rightarrow> projection \<Rightarrow> projection" where
  "set_record i r c = c\<lparr>pj_records := (pj_records c)(i \<mapsto> r)\<rparr>"

text \<open>One observation written to a record at a position, after its pending facts.\<close>

definition write_observation :: "lpos \<Rightarrow> (tracked \<Rightarrow> tracked) \<Rightarrow> observation \<Rightarrow> tracked \<Rightarrow> projection \<Rightarrow> tracked \<times> observation" where
  "write_observation p f ob prior c =
     appendObservation (f (materialize prior (pendingFactsFor prior (pj_facts c) (Some p)) p)) ob"

fun supersede_all :: "lpos \<Rightarrow> (string \<times> observation) list \<Rightarrow> projection \<Rightarrow> projection \<times> effect list" where
  "supersede_all p [] c = (c, [])"
| "supersede_all p ((i, ob) # rest) c =
     (case pj_records c i of
        None \<Rightarrow> supersede_all p rest c
      | Some prior \<Rightarrow>
          let (r, entry) = write_observation p (\<lambda>r. r\<lparr>tk_state := ''superseded''\<rparr>) ob prior c;
              (c', es) = supersede_all p rest (set_record i r c)
          in (c', \<lparr>ef_id = i, ef_entry = Some entry, ef_state = ''superseded'', ef_record = None\<rparr> # es))"

definition stored_effect :: "string \<Rightarrow> tracked \<Rightarrow> effect" where
  "stored_effect i r = \<lparr>ef_id = i, ef_entry = tk_last r, ef_state = tk_state r, ef_record = Some r\<rparr>"

definition applyFrame :: "frame \<Rightarrow> projection \<Rightarrow> ledger_error + (projection \<times> effect list)" where
  "applyFrame fr c =
     (let p = fr_pos fr in
      case fr_body fr of
        Begin i rec0 supersede \<Rightarrow>
          (if pj_records c i \<noteq> None then Inl AlreadyExists
           else let (c', es) = supersede_all p supersede c;
                    r = rec0\<lparr>tk_through := Some p\<rparr>
                in Inr (set_record i r c', es @ [stored_effect i r]))
      | Obs i ob \<Rightarrow>
          (case pj_records c i of
             None \<Rightarrow> Inl RecordMissing
           | Some prior \<Rightarrow>
               let (r, entry) = write_observation p (\<lambda>r. r) ob prior c
               in Inr (set_record i r c,
                       [\<lparr>ef_id = i, ef_entry = Some entry, ef_state = tk_state r, ef_record = None\<rparr>]))
      | State i st ob \<Rightarrow>
          (case pj_records c i of
             None \<Rightarrow> Inl RecordMissing
           | Some prior \<Rightarrow>
               if tk_state prior \<noteq> ''tracked'' then Inl RecordTerminal
               else if st \<notin> set terminal_states then Inl InvalidFrame
               else let (r, entry) = write_observation p (\<lambda>r. r\<lparr>tk_state := st\<rparr>) ob prior c
                    in Inr (set_record i r c,
                            [\<lparr>ef_id = i, ef_entry = Some entry, ef_state = tk_state r, ef_record = None\<rparr>]))
      | Reheat i rec0 \<Rightarrow>
          (let r = rec0\<lparr>tk_through := Some p\<rparr> in Inr (set_record i r c, [stored_effect i r]))
      | Fact scope sid ob \<Rightarrow>
          Inr (c\<lparr>pj_facts := pj_facts c @
                 [\<lparr>fc_pos = p, fc_scope = scope, fc_sid = truthy sid, fc_observation = ob\<rparr>]\<rparr>, [])
      | Iact action pending \<Rightarrow>
          Inr (c\<lparr>pj_actions := pj_actions c @ [(action, pending)]\<rparr>, [])
      | UnknownFrame _ \<Rightarrow> Inl InvalidFrame)"

definition toLegacyRecord :: "tracked \<Rightarrow> tracked" where
  "toLegacyRecord r = r\<lparr>tk_through := None\<rparr>"

section \<open>Well-formed records\<close>

text \<open>
  The observations of a record are at most the cap, numbered without gaps up to
  \<open>observation_seq\<close>, and the last one is \<open>last_observation\<close>.
\<close>

definition numbered_upto :: "int \<Rightarrow> observation list \<Rightarrow> bool" where
  "numbered_upto n obs \<longleftrightarrow> map ob_seq obs = map (\<lambda>k. n - int (length obs) + 1 + int k) [0..<length obs]"

definition wf_tracked :: "tracked \<Rightarrow> bool" where
  "wf_tracked r \<longleftrightarrow> length (tk_observations r) \<le> max_observations
     \<and> numbered_upto (tk_seq r) (tk_observations r)
     \<and> (tk_observations r \<noteq> [] \<longrightarrow> tk_last r = Some (last (tk_observations r)))"

lemma numbered_nth:
  "numbered_upto n obs \<longleftrightarrow> (\<forall>k < length obs. ob_seq (obs ! k) = n - int (length obs) + 1 + int k)"
  unfolding numbered_upto_def list_eq_iff_nth_eq by (simp del: upt_Suc)

lemma numbered_snoc:
  "numbered_upto n obs \<Longrightarrow> ob_seq e = n + 1 \<Longrightarrow> numbered_upto (n + 1) (obs @ [e])"
  by (auto simp: numbered_nth nth_append less_Suc_eq)

lemma numbered_drop: "numbered_upto n obs \<Longrightarrow> numbered_upto n (drop k obs)"
  by (cases "k \<le> length obs") (auto simp: numbered_nth of_nat_diff)

lemma append_fields [simp]:
  "tk_session_id (fst (appendObservation r ob)) = tk_session_id r"
  "tk_state (fst (appendObservation r ob)) = tk_state r"
  "tk_through (fst (appendObservation r ob)) = tk_through r"
  "tk_seq (fst (appendObservation r ob)) = tk_seq r + 1"
  "tk_rest (fst (appendObservation r ob)) = tk_rest r"
  by (simp_all add: appendObservation_def Let_def)

lemma wf_append:
  assumes "wf_tracked r"
  shows "wf_tracked (fst (appendObservation r ob))"
proof -
  define e where "e = ob\<lparr>ob_seq := tk_seq r + 1, ob_at := truthy (ob_at ob)\<rparr>"
  define obs where "obs = tk_observations r @ [e]"
  have new: "tk_observations (fst (appendObservation r ob)) = drop (length obs - max_observations) obs"
    "tk_last (fst (appendObservation r ob)) = Some e"
    by (simp_all add: appendObservation_def Let_def e_def obs_def capObservations_drop)
  have "numbered_upto (tk_seq r + 1) obs"
    unfolding obs_def using assms by (intro numbered_snoc) (simp_all add: wf_tracked_def e_def)
  then have "numbered_upto (tk_seq r + 1) (drop (length obs - max_observations) obs)" by (rule numbered_drop)
  moreover have "last (drop (length obs - max_observations) obs) = e"
    by (simp add: obs_def max_observations_def last_drop)
  ultimately show ?thesis by (simp add: wf_tracked_def new)
qed

lemma wf_update [simp]:
  "wf_tracked (r\<lparr>tk_through := p\<rparr>) = wf_tracked r" "wf_tracked (r\<lparr>tk_state := st\<rparr>) = wf_tracked r"
  by (simp_all add: wf_tracked_def)

lemma append_facts_Cons [simp]:
  "append_facts r [] = r"
  "append_facts r (f # fs) = append_facts (fst (appendObservation r (fc_observation f))) fs"
  by (simp_all add: append_facts_def)

lemma append_facts_fields [simp]:
  "tk_session_id (append_facts r fs) = tk_session_id r" "tk_state (append_facts r fs) = tk_state r"
  "tk_through (append_facts r fs) = tk_through r"
  by (induction fs arbitrary: r) simp_all

lemma wf_append_facts: "wf_tracked r \<Longrightarrow> wf_tracked (append_facts r fs)"
  by (induction fs arbitrary: r) (auto intro: wf_append)

definition wf_projection :: "projection \<Rightarrow> bool" where
  "wf_projection c \<longleftrightarrow> (\<forall>i r. pj_records c i = Some r \<longrightarrow> wf_tracked r)"

lemma wf_set_record: "wf_projection c \<Longrightarrow> wf_tracked r \<Longrightarrow> wf_projection (set_record i r c)"
  by (auto simp: wf_projection_def set_record_def)

lemma wf_write:
  assumes "wf_tracked prior" "\<And>r. wf_tracked (f r) = wf_tracked r"
  shows "wf_tracked (fst (write_observation p f ob prior c))"
  using assms by (simp add: write_observation_def materialize_def wf_append wf_append_facts)

lemma wf_supersede: "wf_projection c \<Longrightarrow> wf_projection (fst (supersede_all p ss c))"
proof (induction ss arbitrary: c)
  case (Cons s ss)
  obtain i ob where s: "s = (i, ob)" by fastforce
  show ?case
  proof (cases "pj_records c i")
    case (Some prior)
    with Cons.prems have "wf_tracked prior" by (auto simp: wf_projection_def)
    then have "wf_projection (set_record i (fst (write_observation p (\<lambda>r. r\<lparr>tk_state := ''superseded''\<rparr>) ob prior c)) c)"
      using Cons.prems by (intro wf_set_record wf_write) simp_all
    from Cons.IH [OF this] show ?thesis by (simp add: s Some case_prod_unfold Let_def)
  qed (simp add: s Cons)
qed simp

text \<open>The frames whose stored records are well formed.\<close>

definition frame_ok :: "frame \<Rightarrow> bool" where
  "frame_ok fr \<longleftrightarrow> (case fr_body fr of Begin _ r _ \<Rightarrow> wf_tracked r | Reheat _ r \<Rightarrow> wf_tracked r | _ \<Rightarrow> True)"

definition replay_frame :: "frame \<Rightarrow> projection \<Rightarrow> projection" where
  "replay_frame fr c = (case applyFrame fr c of Inl _ \<Rightarrow> c | Inr (c', _) \<Rightarrow> c')"

lemma wf_applyFrame:
  assumes "frame_ok fr" "wf_projection c"
  shows "wf_projection (replay_frame fr c)"
proof (cases "fr_body fr")
  case (Begin i r ss)
  then show ?thesis using assms wf_supersede [OF assms(2)]
    by (auto simp: replay_frame_def applyFrame_def frame_ok_def Let_def case_prod_unfold intro: wf_set_record)
next
  case (Obs i ob)
  show ?thesis
  proof (cases "pj_records c i")
    case (Some prior)
    then have "wf_projection (set_record i (fst (write_observation (fr_pos fr) (\<lambda>r. r) ob prior c)) c)"
      using assms(2) by (intro wf_set_record wf_write) (auto simp: wf_projection_def)
    then show ?thesis by (simp add: replay_frame_def applyFrame_def Obs Some Let_def case_prod_unfold)
  qed (use assms in \<open>simp add: replay_frame_def applyFrame_def Obs Let_def\<close>)
next
  case (State i st ob)
  show ?thesis
  proof (cases "pj_records c i")
    case (Some prior)
    then have "wf_projection (set_record i (fst (write_observation (fr_pos fr) (\<lambda>r. r\<lparr>tk_state := st\<rparr>) ob prior c)) c)"
      using assms(2) by (intro wf_set_record wf_write) (auto simp: wf_projection_def)
    then show ?thesis using assms(2) by (simp add: replay_frame_def applyFrame_def State Some Let_def case_prod_unfold)
  qed (use assms in \<open>simp add: replay_frame_def applyFrame_def State Let_def\<close>)
qed (use assms in \<open>auto simp: replay_frame_def applyFrame_def frame_ok_def Let_def wf_projection_def set_record_def\<close>)

interpretation ledger: op_machine replay_frame frame_ok wf_projection
  by unfold_locales (rule wf_applyFrame)


end
