(* ===== verification/Ledger_Frames.thy ===== *)
theory Ledger_Frames
  imports Js_Prelude
begin

text \<open>
  The byte format of \<open>src/session-store/ledger-format.js\<close>: one frame is its JSON text, a tab, 16
  characters of a hash of the text and a newline; a group of frames is closed by a commit frame
  with their number. \<open>JSON.stringify\<close>, \<open>JSON.parse\<close> and SHA-256 are parameters of the model; what
  the format relies on is \<open>codec_ok\<close>. A buffer is the list of its bytes.
\<close>

section \<open>Frames\<close>

abbreviation NL :: char where
  "NL \<equiv> CHR 0x0A"

abbreviation TAB :: char where
  "TAB \<equiv> CHR 0x09"

definition frame_hash_chars :: nat where
  "frame_hash_chars = 16"

definition encodeFrame :: "('f \<Rightarrow> string) \<Rightarrow> (string \<Rightarrow> string) \<Rightarrow> 'f \<Rightarrow> string" where
  "encodeFrame print hash obj = print obj @ [TAB] @ hash (print obj) @ [NL]"

record 'f decoded =
  dc_obj :: 'f
  dc_offset :: nat
  dc_length :: nat
  dc_hash :: string

datatype tail_reason = NoNewline | NoHash | HashMismatch | Unparseable

record tail =
  tl_offset :: nat
  tl_bytes :: nat
  tl_reason :: tail_reason

text \<open>\<open>line.lastIndexOf\<close> of the tab, with the text before it and the text after it.\<close>

definition split_hash :: "string \<Rightarrow> (string \<times> string) option" where
  "split_hash line =
     (let h = rev (takeWhile (\<lambda>c. c \<noteq> TAB) (rev line))
      in if TAB \<in> set line then Some (take (length line - length h - 1) line, h) else None)"

function decodeFrames :: "(string \<Rightarrow> string) \<Rightarrow> (string \<Rightarrow> 'f option) \<Rightarrow> nat \<Rightarrow> string \<Rightarrow> 'f decoded list \<times> tail option" where
  "decodeFrames hash parse offset buf =
     (let stop = (\<lambda>reason. ([], Some \<lparr>tl_offset = offset, tl_bytes = length buf, tl_reason = reason\<rparr>)) in
      if buf = [] then ([], None)
      else if NL \<notin> set buf then stop NoNewline
      else let line = takeWhile (\<lambda>c. c \<noteq> NL) buf in
        case split_hash line of
          None \<Rightarrow> stop NoHash
        | Some (json, h) \<Rightarrow>
            if length h \<noteq> frame_hash_chars \<or> hash json \<noteq> h then stop HashMismatch
            else case parse json of
              None \<Rightarrow> stop Unparseable
            | Some obj \<Rightarrow>
                let n = length line + 1;
                    (frames, t) = decodeFrames hash parse (offset + n) (drop n buf)
                in (\<lparr>dc_obj = obj, dc_offset = offset, dc_length = n, dc_hash = h\<rparr> # frames, t))"
  by pat_completeness auto

termination
  by (relation "measure (\<lambda>(_, _, _, buf). length buf)") (auto simp: less_imp_diff_less)

declare decodeFrames.simps [simp del]

section \<open>Groups\<close>

text \<open>A decoded frame is a commit frame, with \<open>Number(n)\<close> (\<open>None\<close> for \<open>NaN\<close>), or a delta.\<close>

datatype 'f log_frame = Commit "int option" | Delta 'f

fun groupFrames :: "'f log_frame list \<Rightarrow> 'f log_frame list
    \<Rightarrow> 'f log_frame list list \<times> 'f log_frame list \<times> (int option \<times> nat) option" where
  "groupFrames current [] = ([], current, None)"
| "groupFrames current (Commit n # fs) =
     (if Some (int (length current)) \<noteq> n
      then ([], current @ [Commit n], Some (n, length current))
      else let (gs, rest, bad) = groupFrames [] fs in (current # gs, rest, bad))"
| "groupFrames current (Delta x # fs) = groupFrames (current @ [Delta x]) fs"

section \<open>Decoding what was encoded\<close>

text \<open>
  What the format relies on: a printed value parses back and has no newline (\<open>JSON.stringify\<close>
  escapes control characters), and a hash is 16 characters of neither kind.
\<close>

definition codec_ok :: "('f \<Rightarrow> string) \<Rightarrow> (string \<Rightarrow> string) \<Rightarrow> (string \<Rightarrow> 'f option) \<Rightarrow> bool" where
  "codec_ok print hash parse \<longleftrightarrow> (\<forall>x. parse (print x) = Some x \<and> NL \<notin> set (print x))
     \<and> (\<forall>s. length (hash s) = frame_hash_chars \<and> NL \<notin> set (hash s) \<and> TAB \<notin> set (hash s))"

abbreviation encode_all :: "('f \<Rightarrow> string) \<Rightarrow> (string \<Rightarrow> string) \<Rightarrow> 'f list \<Rightarrow> string" where
  "encode_all print hash xs \<equiv> concat (map (encodeFrame print hash) xs)"

fun frames_at :: "('f \<Rightarrow> string) \<Rightarrow> (string \<Rightarrow> string) \<Rightarrow> nat \<Rightarrow> 'f list \<Rightarrow> 'f decoded list" where
  "frames_at print hash offset [] = []"
| "frames_at print hash offset (x # xs) =
     (let n = length (encodeFrame print hash x)
      in \<lparr>dc_obj = x, dc_offset = offset, dc_length = n, dc_hash = hash (print x)\<rparr>
         # frames_at print hash (offset + n) xs)"

lemma frames_at_objs [simp]: "map dc_obj (frames_at print hash offset xs) = xs"
  by (induction xs arbitrary: offset) (simp_all add: Let_def)

lemma takeWhile_rev_hash:
  "TAB \<notin> set h \<Longrightarrow> takeWhile (\<lambda>c. c \<noteq> TAB) (rev (json @ TAB # h)) = rev h"
  by (induction h rule: rev_induct) (auto simp: takeWhile_tail)

lemma split_hash_line:
  assumes "TAB \<notin> set h"
  shows "split_hash (json @ TAB # h) = Some (json, h)"
  unfolding split_hash_def Let_def takeWhile_rev_hash [OF assms] by simp

lemma decode_frame:
  assumes ok: "codec_ok print hash parse"
  shows "decodeFrames hash parse offset (encodeFrame print hash x @ rest) =
    (let n = length (encodeFrame print hash x); (fs, t) = decodeFrames hash parse (offset + n) rest
     in (\<lparr>dc_obj = x, dc_offset = offset, dc_length = n, dc_hash = hash (print x)\<rparr> # fs, t))"
proof -
  let ?line = "print x @ TAB # hash (print x)"
  have nl: "NL \<notin> set ?line" using ok by (simp add: codec_ok_def)
  have buf: "encodeFrame print hash x @ rest = ?line @ NL # rest" by (simp add: encodeFrame_def)
  have line: "takeWhile (\<lambda>c. c \<noteq> NL) (?line @ NL # rest) = ?line"
    using nl by (subst takeWhile_append2) auto
  have split: "split_hash ?line = Some (print x, hash (print x))"
    using ok by (intro split_hash_line) (simp add: codec_ok_def)
  have len: "length (encodeFrame print hash x) = length ?line + 1" by (simp add: encodeFrame_def)
  have drop: "drop (length ?line + 1) (?line @ NL # rest) = rest" by simp
  have good: "length (hash (print x)) = frame_hash_chars" "parse (print x) = Some x"
    using ok by (simp_all add: codec_ok_def)
  show ?thesis
    unfolding buf len
    by (subst decodeFrames.simps, unfold Let_def line split drop) (simp add: good)
qed

lemma decode_all:
  assumes ok: "codec_ok print hash parse"
  shows "decodeFrames hash parse offset (encode_all print hash xs @ rest) =
    (let (fs, t) = decodeFrames hash parse (offset + length (encode_all print hash xs)) rest
     in (frames_at print hash offset xs @ fs, t))"
proof (induction xs arbitrary: offset)
  case (Cons x xs)
  then show ?case by (simp add: decode_frame [OF ok] Let_def case_prod_unfold add.assoc)
qed (simp add: case_prod_unfold)

lemma decode_Nil [simp]: "decodeFrames hash parse offset [] = ([], None)"
  by (simp add: decodeFrames.simps)

lemma decode_torn:
  "NL \<notin> set buf \<Longrightarrow> buf \<noteq> [] \<Longrightarrow> decodeFrames hash parse offset buf =
     ([], Some \<lparr>tl_offset = offset, tl_bytes = length buf, tl_reason = NoNewline\<rparr>)"
  by (subst decodeFrames.simps) (simp add: Let_def)

section \<open>Torn writes\<close>

text \<open>A prefix of the log ends after whole frames and a piece of the next one without its newline.\<close>

lemma prefix_of_frames:
  assumes ok: "codec_ok print hash parse"
  shows "\<exists>n piece. n \<le> length xs \<and> take k (encode_all print hash xs) = encode_all print hash (take n xs) @ piece
     \<and> NL \<notin> set piece \<and> (piece = [] \<or> n < length xs)"
proof (induction xs arbitrary: k)
  case Nil
  then show ?case by simp
next
  case (Cons x xs)
  let ?e = "encodeFrame print hash x"
  show ?case
  proof (cases "k < length ?e")
    case True
    have e: "?e = (print x @ TAB # hash (print x)) @ [NL]" by (simp add: encodeFrame_def)
    have "k \<le> length (print x @ TAB # hash (print x))" using True by (simp add: encodeFrame_def)
    then have "take k ?e = take k (print x @ TAB # hash (print x))"
      unfolding e by (simp only: take_append) simp
    moreover have "NL \<notin> set (print x @ TAB # hash (print x))" using ok by (simp add: codec_ok_def)
    ultimately have "NL \<notin> set (take k ?e)" by (metis in_set_takeD)
    then show ?thesis using True by (intro exI [of _ 0] exI [of _ "take k ?e"]) simp
  next
    case False
    obtain n piece where "n \<le> length xs"
      "take (k - length ?e) (encode_all print hash xs) = encode_all print hash (take n xs) @ piece"
      "NL \<notin> set piece" "piece = [] \<or> n < length xs"
      using Cons.IH by blast
    then show ?thesis using False by (intro exI [of _ "Suc n"] exI [of _ piece]) simp
  qed
qed

lemma recover_prefix:
  assumes ok: "codec_ok print hash parse"
  shows "\<exists>n t. n \<le> length xs
     \<and> decodeFrames hash parse 0 (take k (encode_all print hash xs)) = (frames_at print hash 0 (take n xs), t)
     \<and> length (encode_all print hash (take n xs)) \<le> k
     \<and> (n < length xs \<longrightarrow> k < length (encode_all print hash (take (Suc n) xs)))
     \<and> (t = None \<longleftrightarrow> length (encode_all print hash (take n xs)) = min k (length (encode_all print hash xs)))"
proof -
  obtain n piece where n: "n \<le> length xs" "take k (encode_all print hash xs) = encode_all print hash (take n xs) @ piece"
    "NL \<notin> set piece" "piece = [] \<or> n < length xs" using prefix_of_frames [OF ok] by blast
  let ?E = "encode_all print hash" and ?d = "decodeFrames hash parse 0 (take k (encode_all print hash xs))"
  have len: "min k (length (?E xs)) = length (?E (take n xs)) + length piece"
    using arg_cong [OF n(2), of length] by simp
  have dec: "?d = (frames_at print hash 0 (take n xs), if piece = [] then None else
      Some \<lparr>tl_offset = length (?E (take n xs)), tl_bytes = length piece, tl_reason = NoNewline\<rparr>)"
    unfolding n(2) decode_all [OF ok] using n(3) by (simp add: decode_torn)
  have "k < length (?E (take (Suc n) xs))" if "n < length xs"
  proof (rule ccontr)
    assume "\<not> k < length (?E (take (Suc n) xs))"
    then have "take (length (?E (take (Suc n) xs))) (take k (?E xs)) = take (length (?E (take (Suc n) xs))) (?E xs)"
      by (simp add: min_def)
    also have "\<dots> = ?E (take (Suc n) xs)"
      by (metis append_eq_conv_conj append_take_drop_id concat_append map_append)
    also have "\<dots> = ?E (take n xs) @ encodeFrame print hash (xs ! n)"
      using that by (simp add: take_Suc_conv_app_nth)
    finally have "take (length (encodeFrame print hash (xs ! n))) piece = encodeFrame print hash (xs ! n)"
      unfolding n(2) using that by (simp add: take_Suc_conv_app_nth)
    then have "NL \<in> set (take (length (encodeFrame print hash (xs ! n))) piece)"
      by (simp add: encodeFrame_def)
    with n(3) show False by (metis in_set_takeD)
  qed
  with n(1) dec len show ?thesis
    by (intro exI [of _ n] exI [of _ "snd ?d"]) auto
qed

section \<open>Groups after a crash\<close>

definition close_group :: "'f log_frame list \<Rightarrow> 'f log_frame list" where
  "close_group g = g @ [Commit (Some (int (length g)))]"

definition all_deltas :: "'f log_frame list \<Rightarrow> bool" where
  "all_deltas g \<longleftrightarrow> list_all (\<lambda>f. case f of Commit _ \<Rightarrow> False | Delta _ \<Rightarrow> True) g"

lemma group_deltas: "all_deltas g \<Longrightarrow> groupFrames current (g @ fs) = groupFrames (current @ g) fs"
proof (induction g arbitrary: current)
  case (Cons x g)
  then obtain y where "x = Delta y" by (cases x) (auto simp: all_deltas_def)
  with Cons show ?case by (simp add: all_deltas_def)
qed simp

lemma group_close:
  "all_deltas g \<Longrightarrow> groupFrames [] (close_group g @ fs) = (let (gs, rest, bad) = groupFrames [] fs in (g # gs, rest, bad))"
  by (simp add: close_group_def group_deltas)

lemma group_open: "all_deltas g \<Longrightarrow> groupFrames [] g = ([], g, None)"
  using group_deltas [of g "[]" "[]"] by simp

text \<open>A prefix of closed groups is whole groups and a piece of the next one without its commit.\<close>

lemma group_prefix:
  assumes "list_all all_deltas gs"
  shows "\<exists>m piece. m \<le> length gs \<and> groupFrames [] (take n (concat (map close_group gs))) = (take m gs, piece, None)
     \<and> length (concat (map close_group (take m gs))) \<le> n
     \<and> (m < length gs \<longrightarrow> n < length (concat (map close_group (take (Suc m) gs))))"
  using assms
proof (induction gs arbitrary: n)
  case Nil
  then show ?case by simp
next
  case (Cons g gs)
  show ?case
  proof (cases "n < length (close_group g)")
    case True
    then have "take n (concat (map close_group (g # gs))) = take n g"
      by (simp add: close_group_def)
    moreover have "all_deltas (take n g)"
      using Cons.prems by (auto simp: all_deltas_def list_all_iff dest: in_set_takeD)
    ultimately show ?thesis
      using True group_open [of "take n g"] by (intro exI [of _ 0] exI [of _ "take n g"]) simp
  next
    case False
    obtain m piece where "m \<le> length gs"
      "groupFrames [] (take (n - length (close_group g)) (concat (map close_group gs))) = (take m gs, piece, None)"
      "length (concat (map close_group (take m gs))) \<le> n - length (close_group g)"
      "m < length gs \<longrightarrow> n - length (close_group g) < length (concat (map close_group (take (Suc m) gs)))"
      using Cons.IH [of "n - length (close_group g)"] Cons.prems by auto
    then show ?thesis
      using False Cons.prems group_close [of g]
      by (intro exI [of _ "Suc m"] exI [of _ piece]) (auto simp: Let_def)
  qed
qed

lemma take_exact: "xs = ys @ zs \<Longrightarrow> length ys = min k (length xs) \<Longrightarrow> take k xs = ys"
  by (auto simp: min_def split: if_splits)

text \<open>
  C28. Groups are atomic across a crash: keep any prefix of the bytes of a log of closed groups,
  decode it and split it; what is applied is exactly a prefix of the committed groups, it
  contains every group whose bytes were all kept, no commit is found invalid, and whatever is
  left over is named as a torn tail, never applied.
\<close>

theorem ledger_groups_atomic:
  assumes ok: "codec_ok print hash parse" and deltas: "list_all all_deltas gs"
  shows "\<exists>m n rest t. m \<le> length gs
     \<and> decodeFrames hash parse 0 (take k (encode_all print hash (concat (map close_group gs))))
         = (frames_at print hash 0 (take n (concat (map close_group gs))), t)
     \<and> groupFrames [] (take n (concat (map close_group gs))) = (take m gs, rest, None)
     \<and> length (encode_all print hash (concat (map close_group (take m gs)))) \<le> k
     \<and> (m < length gs \<longrightarrow> k < length (encode_all print hash (concat (map close_group (take (Suc m) gs)))))
     \<and> (t = None \<longrightarrow> take k (encode_all print hash (concat (map close_group gs)))
                     = encode_all print hash (take n (concat (map close_group gs))))"
proof -
  let ?F = "concat (map close_group gs)" and ?E = "encode_all print hash"
  let ?upto = "\<lambda>m. concat (map close_group (take m gs))"
  obtain n t where n: "n \<le> length ?F" "decodeFrames hash parse 0 (take k (?E ?F)) = (frames_at print hash 0 (take n ?F), t)"
    "length (?E (take n ?F)) \<le> k" "n < length ?F \<longrightarrow> k < length (?E (take (Suc n) ?F))"
    "t = None \<longleftrightarrow> length (?E (take n ?F)) = min k (length (?E ?F))"
    using recover_prefix [OF ok, of ?F k] by blast
  obtain m piece where m: "m \<le> length gs" "groupFrames [] (take n ?F) = (take m gs, piece, None)"
    "length (?upto m) \<le> n" "m < length gs \<longrightarrow> n < length (?upto (Suc m))"
    using group_prefix [OF deltas] by blast
  have whole: "?upto j = take (length (?upto j)) ?F" for j
    by (metis append_eq_conv_conj append_take_drop_id concat_append map_append)
  have mono: "length (?E (take a ?F)) \<le> length (?E (take b ?F))" if "a \<le> b" for a b
  proof -
    have "take b ?F = take a ?F @ drop a (take b ?F)" using that by (metis append_take_drop_id min_def take_take)
    then have "?E (take b ?F) = ?E (take a ?F) @ ?E (drop a (take b ?F))" by (metis concat_append map_append)
    then show ?thesis by simp
  qed
  have c1: "length (?E (?upto m)) \<le> k"
    using mono [OF m(3)] n(3) whole [of m] by simp
  have c2: "k < length (?E (?upto (Suc m)))" if "m < length gs"
  proof -
    have lt: "n < length (?upto (Suc m))" using m(4) that by simp
    have "length (?upto (Suc m)) \<le> length ?F" using arg_cong [OF whole [of "Suc m"], of length] by simp
    with lt n(4) have "k < length (?E (take (Suc n) ?F))" by simp
    also have "\<dots> \<le> length (?E (take (length (?upto (Suc m))) ?F))" using lt by (intro mono) simp
    finally show ?thesis using whole [of "Suc m"] by simp
  qed
  have c3: "take k (?E ?F) = ?E (take n ?F)" if "t = None"
  proof -
    have "?E ?F = ?E (take n ?F) @ ?E (drop n ?F)" by (metis append_take_drop_id concat_append map_append)
    moreover have "length (?E (take n ?F)) = min k (length (?E ?F))" using n(5) that by simp
    ultimately show ?thesis by (rule take_exact)
  qed
  show ?thesis
    by (intro exI [of _ m] exI [of _ n] exI [of _ piece] exI [of _ t] conjI impI m(1) n(2) m(2) c1 c2 c3)
qed

text \<open>A printer and parser of unit deltas for the witness: a letter and a unary number.\<close>

fun sample_print :: "unit log_frame \<Rightarrow> string" where
  "sample_print (Delta _) = ''D''"
| "sample_print (Commit None) = ''N''"
| "sample_print (Commit (Some n)) =
     (if 0 \<le> n then CHR ''P'' # replicate (nat n) CHR ''1'' else CHR ''M'' # replicate (nat (- n)) CHR ''1'')"

definition sample_parse :: "string \<Rightarrow> unit log_frame option" where
  "sample_parse s =
     (if s = ''D'' then Some (Delta ())
      else if s = ''N'' then Some (Commit None)
      else if s \<noteq> [] \<and> hd s = CHR ''P'' then Some (Commit (Some (int (length (tl s)))))
      else if s \<noteq> [] \<and> hd s = CHR ''M'' then Some (Commit (Some (- int (length (tl s)))))
      else None)"

definition sample_hash :: "string \<Rightarrow> string" where
  "sample_hash s = replicate 16 CHR ''0''"

lemma sample_codec: "codec_ok sample_print sample_hash sample_parse"
  unfolding codec_ok_def
proof (intro conjI allI)
  fix x :: "unit log_frame" and s :: string
  show "sample_parse (sample_print x) = Some x" "NL \<notin> set (sample_print x)"
    by (cases x rule: sample_print.cases; auto simp: sample_parse_def)+
  show "length (sample_hash s) = frame_hash_chars" "NL \<notin> set (sample_hash s)" "TAB \<notin> set (sample_hash s)"
    by (simp_all add: sample_hash_def frame_hash_chars_def)
qed

definition sample_groups :: "unit log_frame list list" where
  "sample_groups = [[Delta ()], [Delta (), Delta ()]]"

lemma sample_print_hash: "length (sample_hash s) = 16"
  by (simp add: sample_hash_def)

lemma sample_lengths:
  "length sample_groups = 2"
  "length (encode_all sample_print sample_hash (concat (map close_group (take 1 sample_groups)))) = 39"
  "length (encode_all sample_print sample_hash (concat (map close_group (take 2 sample_groups)))) = 98"
  by (simp_all add: sample_groups_def close_group_def encodeFrame_def sample_print_hash numeral_2_eq_2)

theorem ledger_groups_atomic_witness:
  "\<exists>n rest t. decodeFrames sample_hash sample_parse 0
         (take 70 (encode_all sample_print sample_hash (concat (map close_group sample_groups))))
         = (frames_at sample_print sample_hash 0 (take n (concat (map close_group sample_groups))), t)
     \<and> groupFrames [] (take n (concat (map close_group sample_groups))) = (take 1 sample_groups, rest, None)"
proof -
  have d: "list_all all_deltas sample_groups" by (simp add: all_deltas_def sample_groups_def)
  obtain m n rest t where A: "m \<le> length sample_groups"
    "decodeFrames sample_hash sample_parse 0 (take 70 (encode_all sample_print sample_hash (concat (map close_group sample_groups))))
       = (frames_at sample_print sample_hash 0 (take n (concat (map close_group sample_groups))), t)"
    "groupFrames [] (take n (concat (map close_group sample_groups))) = (take m sample_groups, rest, None)"
    "length (encode_all sample_print sample_hash (concat (map close_group (take m sample_groups)))) \<le> 70"
    "m < length sample_groups \<longrightarrow>
       70 < length (encode_all sample_print sample_hash (concat (map close_group (take (Suc m) sample_groups))))"
    using ledger_groups_atomic [OF sample_codec d, of 70] by blast
  have "m \<noteq> 0"
  proof
    assume "m = 0"
    with A(5) sample_lengths(1,2) show False by simp
  qed
  moreover have "m \<noteq> 2" using A(4) sample_lengths(3) by auto
  ultimately have "m = 1" using A(1) sample_lengths(1) by linarith
  with A(2,3) show ?thesis by blast
qed

end
