(* ===== verification/Ledger_Store.thy ===== *)
theory Ledger_Store
  imports Ledger_Records Ledger_Frames "HOL-Library.Product_Lexorder"
begin

text \<open>
  The files and the memory of the ledger owner (\<open>src/session-store/ledger-owner.js\<close>): segments that
  are only appended to, numbered generations of checkpoint files, the manifest that names the
  published generation, the hot set with its index by session, the cold files, and the
  checkpoint that rewrites the hot set and publishes it. Every file system call takes its
  outcome from a list, so a failure can be placed at any call; a failed or short write leaves
  a prefix of its bytes. \<open>JSON.stringify\<close>, \<open>JSON.parse\<close> and SHA-256 are parameters, as in the
  frame format, and so are the length of a record's JSON text, the key prefix of an index and the
  JSON text of the member \<open>superseded_by\<close>.
  The index files are functions of the records next to them, and are represented by their
  writes only; a directory that is made is taken to exist.
\<close>

section \<open>Files\<close>

record log_entry =
  le_txn :: string
  le_frame :: frame

type_synonym log_line = "log_entry log_frame"

record owner_env =
  oe_print :: "log_line \<Rightarrow> string"
  oe_hash :: "string \<Rightarrow> string"
  oe_parse :: "string \<Rightarrow> log_line option"
  oe_record_bytes :: "tracked \<Rightarrow> int"
  oe_key :: "string \<Rightarrow> string"
  oe_superseded_by :: "string \<Rightarrow> string"
  oe_group_frames :: int
  oe_group_bytes :: int
  oe_compact_frames :: int
  oe_hot_records :: int
  oe_hot_bytes :: int
  oe_cold_index_bytes :: int

text \<open>A segment file: its bytes, and how many of them an \<open>fsync\<close> has covered.\<close>

record segment_file =
  sf_epoch :: int
  sf_n :: int
  sf_bytes :: string
  sf_synced :: nat

datatype hot_line = HotRecord tracked | HotAction act | HotPending pending_inject

datatype receipt_tag = OpenEpoch | Replayed | InCheckpoint int

record receipt =
  rc_pos :: lpos
  rc_kind :: string
  rc_id :: "string option"
  rc_tag :: receipt_tag

record manifest =
  mf_epoch :: int
  mf_seq_committed :: int
  mf_checkpoint :: lpos
  mf_hot :: int
  mf_receipts :: int
  mf_receipts_prev :: "int option"
  mf_cold :: "int list"
  mf_facts :: int
  mf_last_checkpoint :: "int option"
  mf_clean_close :: bool

text \<open>A file of a generation that was created and not completely written has no content.\<close>

record store_disk =
  dk_segments :: "segment_file list"
  dk_hot :: "(int, hot_line list option) jsmap"
  dk_receipts :: "(int, (string \<times> receipt) list option) jsmap"
  dk_facts :: "(int, fact list option) jsmap"
  dk_cold :: "(int, tracked list option) jsmap"
  dk_manifest :: manifest

section \<open>Memory\<close>

text \<open>A cold file in memory: its generation, its records, and whether its index was not loaded.\<close>

record cold_file =
  cf_n :: int
  cf_records :: "tracked list"
  cf_offline :: bool

record segment_meta =
  sm_epoch :: int
  sm_n :: int
  sm_closed :: bool

record open_segment =
  sg_epoch :: int
  sg_n :: int
  sg_bytes :: int

record member =
  mb_txn :: string
  mb_kind :: string
  mb_id :: "string option"
  mb_pos :: lpos
  mb_effects :: "effect list"
  mb_hash :: string

record group =
  gr_frames :: "log_entry list"
  gr_buffers :: "string list"
  gr_bytes :: int
  gr_members :: "member list"
  gr_noops :: "(string \<times> string) list"
  gr_overlay :: "(string, tracked) jsmap"
  gr_facts :: "fact list"
  gr_actions :: "(act \<times> pending_inject option) list"
  gr_seq_from :: "int option"
  gr_seq_to :: int
  gr_facts_added :: int

text \<open>
  \<open>txnHash\<close> is one map with two kinds of keys, a transaction (a UUID, which has no colon) and a
  position \<open>epoch:seq\<close>.
\<close>

datatype hash_key = TxnKey string | PosKey lpos

record owner =
  os_state :: string
  os_reason :: "string option"
  os_epoch :: int
  os_seq_next :: int
  os_seq_committed :: int
  os_manifest :: manifest
  os_hot :: "(string, tracked) jsmap"
  os_by_session :: "string \<Rightarrow> string list"
  os_hot_bytes :: int
  os_actions :: "(string, act) jsmap"
  os_pending :: "(string, pending_inject) jsmap"
  os_facts :: "fact list"
  os_receipts :: "(string, receipt) jsmap"
  os_receipt_ckpts :: "int list"
  os_applied :: "lpos set"
  os_txn_hash :: "hash_key \<rightharpoonup> string"
  os_cold :: "cold_file list"
  os_unapplied :: "(int \<times> int \<times> nat \<times> nat) list"
  os_unapplied_txns :: "string \<rightharpoonup> int \<times> int \<times> nat"
  os_segments :: "segment_meta list"
  os_seg :: "open_segment option"
  os_frames_since :: int
  os_checkpoint_n :: int
  os_checkpoint_pos :: lpos
  os_alloc_hot :: int
  os_alloc_cold :: int
  os_group :: "group option"
  os_timer :: bool
  os_live :: "string list"
  os_closing :: bool
  os_possibly_durable :: "string list option"

datatype owner_post =
    PostState string "string option"
  | PostNack string string "string option"
  | PostDuplicate string lpos
  | PostWritten string lpos "effect list"
  | PostNoop string string bool
  | PostIndeterminate "string list" string
  | PostDemoted "string list" int
  | PostCompacted int nat
  | PostFailed string string
  | PostResolved "(string \<times> string) list"
  | PostClosed bool nat

datatype io_result = Fine | Fails string nat | Short nat

record world =
  w_mem :: owner
  w_disk :: store_disk
  w_io :: "io_result list"
  w_out :: "owner_post list"

definition post :: "owner_post \<Rightarrow> world \<Rightarrow> world" where
  "post m w = w\<lparr>w_out := w_out w @ [m]\<rparr>"

definition upd :: "(owner \<Rightarrow> owner) \<Rightarrow> world \<Rightarrow> world" where
  "upd f w = w\<lparr>w_mem := f (w_mem w)\<rparr>"

definition on_disk :: "(store_disk \<Rightarrow> store_disk) \<Rightarrow> world \<Rightarrow> world" where
  "on_disk f w = w\<lparr>w_disk := f (w_disk w)\<rparr>"

section \<open>System calls\<close>

text \<open>
  A step that may throw returns the error's code and the world it leaves; \<open>run_steps\<close> runs
  steps until one throws. Past the end of the list of outcomes every call succeeds.
\<close>

type_synonym io_step = "world \<Rightarrow> string option \<times> world"

fun run_steps :: "io_step list \<Rightarrow> io_step" where
  "run_steps [] w = (None, w)"
| "run_steps (s # ss) w = (case s w of (None, w') \<Rightarrow> run_steps ss w' | (Some e, w') \<Rightarrow> (Some e, w'))"

definition next_io :: "world \<Rightarrow> io_result \<times> world" where
  "next_io w = (case w_io w of [] \<Rightarrow> (Fine, w) | r # rs \<Rightarrow> (r, w\<lparr>w_io := rs\<rparr>))"

definition call :: "(world \<Rightarrow> world) \<Rightarrow> io_step" where
  "call f w = (case next_io w of (Fails e _, w') \<Rightarrow> (Some e, w') | (_, w') \<Rightarrow> (None, f w'))"

text \<open>A write: \<open>f\<close> is given the number of bytes that arrived. Its return value is not looked at.\<close>

definition write_call :: "nat \<Rightarrow> (nat \<Rightarrow> world \<Rightarrow> world) \<Rightarrow> io_step" where
  "write_call len f w =
     (case next_io w of
        (Fine, w') \<Rightarrow> (None, f len w')
      | (Short k, w') \<Rightarrow> (None, f (min k len) w')
      | (Fails e k, w') \<Rightarrow> (Some e, f (min k len) w'))"

definition always :: "(world \<Rightarrow> world) \<Rightarrow> io_step" where
  "always f w = (None, f w)"

definition fsyncDir :: io_step where
  "fsyncDir = call id"

section \<open>The hot set and the cold tier\<close>

definition setHot :: "owner_env \<Rightarrow> string \<Rightarrow> tracked \<Rightarrow> owner \<Rightarrow> owner" where
  "setHot env i r S =
     (let S1 = (case jm_get (os_hot S) i of
                  None \<Rightarrow> S
                | Some prior \<Rightarrow> S\<lparr>os_hot_bytes := os_hot_bytes S - oe_record_bytes env prior,
                     os_by_session := (os_by_session S)(tk_session_id prior :=
                        removeAll i (os_by_session S (tk_session_id prior)))\<rparr>);
          ids = os_by_session S1 (tk_session_id r)
      in S1\<lparr>os_hot := jm_set i r (os_hot S1), os_hot_bytes := os_hot_bytes S1 + oe_record_bytes env r,
            os_by_session := (os_by_session S1)(tk_session_id r := (if i \<in> set ids then ids else ids @ [i]))\<rparr>)"

definition removeHot :: "owner_env \<Rightarrow> string \<Rightarrow> owner \<Rightarrow> owner" where
  "removeHot env i S =
     (case jm_get (os_hot S) i of
        None \<Rightarrow> S
      | Some prior \<Rightarrow> S\<lparr>os_hot_bytes := os_hot_bytes S - oe_record_bytes env prior,
           os_hot := jm_delete i (os_hot S),
           os_by_session := (os_by_session S)(tk_session_id prior :=
              removeAll i (os_by_session S (tk_session_id prior)))\<rparr>)"

text \<open>The newest file comes last; a record of a file is found by its injection id.\<close>

fun newest_record :: "string \<Rightarrow> cold_file list \<Rightarrow> tracked option" where
  "newest_record i [] = None"
| "newest_record i (c # cs) =
     (if cf_offline c then newest_record i cs
      else case find (\<lambda>r. tk_inject_id r = i) (cf_records c) of Some r \<Rightarrow> Some r | None \<Rightarrow> newest_record i cs)"

definition coldLookup :: "string \<Rightarrow> owner \<Rightarrow> tracked option" where
  "coldLookup i S = newest_record i (rev (os_cold S))"

definition coldOfflineHas :: "owner_env \<Rightarrow> string \<Rightarrow> owner \<Rightarrow> bool" where
  "coldOfflineHas env i S \<longleftrightarrow>
     list_ex (\<lambda>c. cf_offline c \<and> list_ex (\<lambda>r. oe_key env (tk_inject_id r) = oe_key env i) (cf_records c)) (os_cold S)"

text \<open>\<open>getRecord\<close>: what a reader of one injection is given, and from which tier.\<close>

datatype tier_read = FromHot tracked | FromCold tracked | NoRecord string

definition getRecord :: "owner_env \<Rightarrow> string \<Rightarrow> owner \<Rightarrow> tier_read" where
  "getRecord env i S =
     (if i = [] then NoRecord ''invalid_id''
      else case jm_get (os_hot S) i of
        Some r \<Rightarrow> FromHot (overlay r (os_facts S))
      | None \<Rightarrow> (case coldLookup i S of
          Some r \<Rightarrow> FromCold (overlay r (os_facts S))
        | None \<Rightarrow> if coldOfflineHas env i S then NoRecord ''cold_offline''
                  else NoRecord ''not_observed_by_daemon_epoch''))"

section \<open>Segments\<close>

definition is_segment :: "int \<Rightarrow> int \<Rightarrow> segment_file \<Rightarrow> bool" where
  "is_segment e n f \<longleftrightarrow> sf_epoch f = e \<and> sf_n f = n"

definition create_segment :: "int \<Rightarrow> int \<Rightarrow> store_disk \<Rightarrow> store_disk" where
  "create_segment e n d =
     (if list_ex (is_segment e n) (dk_segments d) then d
      else d\<lparr>dk_segments := dk_segments d @ [\<lparr>sf_epoch = e, sf_n = n, sf_bytes = [], sf_synced = 0\<rparr>]\<rparr>)"

definition at_segment :: "int \<Rightarrow> int \<Rightarrow> (segment_file \<Rightarrow> segment_file) \<Rightarrow> store_disk \<Rightarrow> store_disk" where
  "at_segment e n f d = d\<lparr>dk_segments := map (\<lambda>s. if is_segment e n s then f s else s) (dk_segments d)\<rparr>"

definition append_bytes :: "string \<Rightarrow> segment_file \<Rightarrow> segment_file" where
  "append_bytes bs f = f\<lparr>sf_bytes := sf_bytes f @ bs\<rparr>"

definition sync_bytes :: "segment_file \<Rightarrow> segment_file" where
  "sync_bytes f = f\<lparr>sf_synced := length (sf_bytes f)\<rparr>"

text \<open>\<open>openSegment\<close>: open for appending (which creates the file), note it, flush the directory.\<close>

definition openSegment :: "int \<Rightarrow> int \<Rightarrow> io_step" where
  "openSegment e n = run_steps
     [call (\<lambda>w. upd (\<lambda>S. S\<lparr>os_seg := Some \<lparr>sg_epoch = e, sg_n = n, sg_bytes = 0\<rparr>,
                           os_segments := os_segments S @ [\<lparr>sm_epoch = e, sm_n = n, sm_closed = False\<rparr>]\<rparr>)
                  (on_disk (create_segment e n) w)),
      fsyncDir]"

definition closeSegment :: "owner \<Rightarrow> owner" where
  "closeSegment S =
     (case os_seg S of
        None \<Rightarrow> S
      | Some g \<Rightarrow> S\<lparr>os_segments := map (\<lambda>m. if sm_epoch m = sg_epoch g \<and> sm_n m = sg_n g then m\<lparr>sm_closed := True\<rparr> else m)
                                    (os_segments S),
                    os_seg := None\<rparr>)"

definition nextSegmentN :: "owner \<Rightarrow> int" where
  "nextSegmentN S = fold (\<lambda>m k. max k (sm_n m)) (filter (\<lambda>m. sm_epoch m = os_epoch S) (os_segments S)) 0 + 1"

definition write_segment :: "open_segment \<Rightarrow> string \<Rightarrow> io_step" where
  "write_segment g bytes =
     write_call (length bytes) (\<lambda>k. on_disk (at_segment (sg_epoch g) (sg_n g) (append_bytes (take k bytes))))"

definition fsync_segment :: "open_segment \<Rightarrow> io_step" where
  "fsync_segment g = call (on_disk (at_segment (sg_epoch g) (sg_n g) sync_bytes))"

definition count_bytes :: "string \<Rightarrow> owner \<Rightarrow> owner" where
  "count_bytes bytes S = S\<lparr>os_seg := map_option (\<lambda>g. g\<lparr>sg_bytes := sg_bytes g + int (length bytes)\<rparr>) (os_seg S)\<rparr>"

text \<open>Write the bytes to the open segment and flush it; the segment is opened first when none is.\<close>

definition append_synced :: "string \<Rightarrow> io_step" where
  "append_synced bytes w =
     (case os_seg (w_mem w) of
        None \<Rightarrow> (Some ''TypeError'', w)
      | Some g \<Rightarrow> run_steps [write_segment g bytes, fsync_segment g, always (upd (count_bytes bytes))] w)"

definition tryWrite :: "string \<Rightarrow> io_step" where
  "tryWrite bytes = run_steps
     [\<lambda>w. if os_seg (w_mem w) = None then openSegment (os_epoch (w_mem w)) (nextSegmentN (w_mem w)) w else (None, w),
      append_synced bytes]"

section \<open>Generations\<close>

definition occupied :: "int list \<Rightarrow> int" where
  "occupied ns = fold max ns 0"

definition occupied_hot :: "store_disk \<Rightarrow> int" where
  "occupied_hot d = max (occupied (map fst (dk_hot d) @ map fst (dk_receipts d))) (occupied (map fst (dk_facts d)))"

text \<open>The generations the manifest names; one of them, or a file's number, that is unsafe fails the open.\<close>

definition manifest_generations :: "manifest \<Rightarrow> int list" where
  "manifest_generations m =
     [mf_hot m, mf_receipts m] @ (case mf_receipts_prev m of None \<Rightarrow> [] | Some n \<Rightarrow> [n])
     @ [mf_facts m] @ (case mf_last_checkpoint m of None \<Rightarrow> [] | Some n \<Rightarrow> [n])"

definition generations_safe :: "store_disk \<Rightarrow> bool" where
  "generations_safe d \<longleftrightarrow>
     list_all safe_int (map fst (dk_hot d) @ map fst (dk_receipts d) @ map fst (dk_facts d) @ map fst (dk_cold d))
     \<and> list_all (\<lambda>n. safe_int n \<and> 0 \<le> n) (manifest_generations (dk_manifest d) @ mf_cold (dk_manifest d))"

definition recoverGenerations :: "store_disk \<Rightarrow> owner \<Rightarrow> owner" where
  "recoverGenerations d S =
     S\<lparr>os_alloc_hot := fold max (manifest_generations (dk_manifest d)) (occupied_hot d),
       os_alloc_cold := fold max (mf_cold (dk_manifest d)) (occupied (map fst (dk_cold d)))\<rparr>"

definition reserve_hot :: "owner \<Rightarrow> (int \<times> owner) option" where
  "reserve_hot S =
     (let n = max (os_alloc_hot S) (os_checkpoint_n S) + 1
      in if safe_int n then Some (n, S\<lparr>os_alloc_hot := n\<rparr>) else None)"

definition reserve_cold :: "owner \<Rightarrow> (int \<times> owner) option" where
  "reserve_cold S =
     (let n = max (os_alloc_cold S) (fold (\<lambda>c m. max m (cf_n c)) (os_cold S) 0) + 1
      in if safe_int n then Some (n, S\<lparr>os_alloc_cold := n\<rparr>) else None)"

section \<open>The manifest\<close>

definition next_manifest :: "bool \<Rightarrow> int option \<Rightarrow> owner \<Rightarrow> manifest" where
  "next_manifest clean last_n S =
     \<lparr>mf_epoch = os_epoch S, mf_seq_committed = os_seq_committed S, mf_checkpoint = os_checkpoint_pos S,
      mf_hot = os_checkpoint_n S, mf_receipts = os_checkpoint_n S,
      mf_receipts_prev = (let ns = os_receipt_ckpts S in if length ns > 1 then Some (ns ! (length ns - 2)) else None),
      mf_cold = map cf_n (os_cold S), mf_facts = os_checkpoint_n S,
      mf_last_checkpoint = (if last_n = None then mf_last_checkpoint (os_manifest S) else last_n),
      mf_clean_close = clean\<rparr>"

text \<open>\<open>writeAtomic\<close>: open, write and flush a temporary, rename it over the manifest, flush the directory.\<close>

definition writeManifest :: "bool \<Rightarrow> int option \<Rightarrow> io_step" where
  "writeManifest clean last_n w =
     (let m = next_manifest clean last_n (w_mem w)
      in run_steps [call id, call id, call id, call (on_disk (\<lambda>d. d\<lparr>dk_manifest := m\<rparr>)), fsyncDir,
                    always (upd (\<lambda>S. S\<lparr>os_manifest := m\<rparr>))] w)"

section \<open>Checkpoints\<close>

definition demotionEligible :: "owner \<Rightarrow> tracked \<Rightarrow> bool" where
  "demotionEligible S r \<longleftrightarrow> tk_state r \<in> set terminal_states \<or>
     (tk_state r = ''tracked'' \<and> tk_session_id r \<notin> set (os_live S)
      \<and> \<not> list_ex (\<lambda>a. ac_sid a = tk_session_id r \<and> \<not> ac_terminal a) (map snd (os_actions S))
      \<and> \<not> list_ex (\<lambda>p. pd_sid p = tk_session_id r \<and> pd_state p = ''held'') (map snd (os_pending S)))"

definition receipts_max :: nat where
  "receipts_max = 40000"

definition trimReceipts :: "owner \<Rightarrow> owner" where
  "trimReceipts S =
     (let ns = os_receipt_ckpts S;
          keep = map InCheckpoint (drop (length ns - 2) ns) @ [OpenEpoch, Replayed]
      in S\<lparr>os_receipts := filter (\<lambda>(_, r). rc_tag r \<in> set keep) (os_receipts S)\<rparr>)"

text \<open>\<open>createFileDurable\<close>: an exclusive creation, a write and a flush. A short write goes unnoticed.\<close>

definition create_file :: "(store_disk \<Rightarrow> bool) \<Rightarrow> (store_disk \<Rightarrow> store_disk) \<Rightarrow> (store_disk \<Rightarrow> store_disk) \<Rightarrow> io_step" where
  "create_file present create fill = run_steps
     [\<lambda>w. if present (w_disk w) then (Some ''EEXIST'', w) else call (on_disk create) w,
      write_call 1 (\<lambda>k. on_disk (if k = 1 then fill else id)),
      call id]"

definition create_index :: io_step where
  "create_index = run_steps [call id, call id, call id]"

definition create_hot :: "int \<Rightarrow> hot_line list \<Rightarrow> io_step" where
  "create_hot n ls = create_file (\<lambda>d. jm_has (dk_hot d) n)
     (\<lambda>d. d\<lparr>dk_hot := jm_set n None (dk_hot d)\<rparr>) (\<lambda>d. d\<lparr>dk_hot := jm_set n (Some ls) (dk_hot d)\<rparr>)"

definition create_receipts :: "int \<Rightarrow> (string \<times> receipt) list \<Rightarrow> io_step" where
  "create_receipts n ls = create_file (\<lambda>d. jm_has (dk_receipts d) n)
     (\<lambda>d. d\<lparr>dk_receipts := jm_set n None (dk_receipts d)\<rparr>) (\<lambda>d. d\<lparr>dk_receipts := jm_set n (Some ls) (dk_receipts d)\<rparr>)"

definition create_facts :: "int \<Rightarrow> fact list \<Rightarrow> io_step" where
  "create_facts n ls = create_file (\<lambda>d. jm_has (dk_facts d) n)
     (\<lambda>d. d\<lparr>dk_facts := jm_set n None (dk_facts d)\<rparr>) (\<lambda>d. d\<lparr>dk_facts := jm_set n (Some ls) (dk_facts d)\<rparr>)"

definition create_cold :: "int \<Rightarrow> tracked list \<Rightarrow> io_step" where
  "create_cold n rs = create_file (\<lambda>d. jm_has (dk_cold d) n)
     (\<lambda>d. d\<lparr>dk_cold := jm_set n None (dk_cold d)\<rparr>) (\<lambda>d. d\<lparr>dk_cold := jm_set n (Some rs) (dk_cold d)\<rparr>)"

text \<open>
  The receipts that the next checkpoint file is to hold are tagged with its generation before
  the file is created.
\<close>

definition due_receipt :: "receipt \<Rightarrow> bool" where
  "due_receipt r \<longleftrightarrow> rc_tag r = OpenEpoch \<or> rc_tag r = Replayed"

definition tag_receipts :: "int \<Rightarrow> owner \<Rightarrow> owner" where
  "tag_receipts n S = S\<lparr>os_receipts :=
     map (\<lambda>(t, r). (t, if due_receipt r then r\<lparr>rc_tag := InCheckpoint n\<rparr> else r)) (os_receipts S)\<rparr>"

definition hot_lines :: "tracked list \<Rightarrow> owner \<Rightarrow> hot_line list" where
  "hot_lines demote S =
     map HotRecord (filter (\<lambda>r. r \<notin> set demote) (map snd (os_hot S)))
     @ map HotAction (map snd (os_actions S)) @ map HotPending (map snd (os_pending S))"

text \<open>Only once its files are complete does the checkpoint take effect in memory.\<close>

definition enter_checkpoint :: "owner_env \<Rightarrow> int \<Rightarrow> int option \<Rightarrow> tracked list \<Rightarrow> owner \<Rightarrow> owner" where
  "enter_checkpoint env n cold demote S =
     (let S1 = (case cold of None \<Rightarrow> S
                | Some k \<Rightarrow> S\<lparr>os_cold := os_cold S @ [\<lparr>cf_n = k, cf_records = demote, cf_offline = False\<rparr>]\<rparr>);
          S2 = fold (\<lambda>r. removeHot env (tk_inject_id r)) demote S1;
          ns = os_receipt_ckpts S2 @ [n];
          S3 = trimReceipts (S2\<lparr>os_receipt_ckpts := drop (length ns - 2) ns\<rparr>)
      in S3\<lparr>os_checkpoint_n := n, os_checkpoint_pos := \<lparr>epoch = os_epoch S3, pseq = os_seq_committed S3\<rparr>,
            os_frames_since := 0, os_applied := {},
            os_txn_hash := (\<lambda>k. case k of TxnKey t \<Rightarrow> os_txn_hash S3 k | PosKey p \<Rightarrow> None)\<rparr>)"

definition demote_files :: "int option \<Rightarrow> tracked list \<Rightarrow> io_step" where
  "demote_files cold demote =
     (case cold of None \<Rightarrow> always id
      | Some k \<Rightarrow> run_steps [create_cold k demote, create_index, create_index, fsyncDir])"

text \<open>The steps from the generation numbers on, with no open group.\<close>

definition checkpoint_files :: "owner_env \<Rightarrow> int \<Rightarrow> int option \<Rightarrow> tracked list \<Rightarrow> io_step" where
  "checkpoint_files env n cold demote w =
     (let due = filter (\<lambda>(_, r). due_receipt r) (os_receipts (w_mem w)) in
      run_steps
        [demote_files cold demote,
         create_hot n (hot_lines demote (w_mem w)),
         always (upd (tag_receipts n)),
         create_receipts n due,
         create_facts n (os_facts (w_mem w)), create_index,
         fsyncDir, fsyncDir,
         always (upd (enter_checkpoint env n cold demote)),
         writeManifest False (Some n),
         always (\<lambda>w. post (PostCompacted n (length demote))
            (if demote = [] then w else post (PostDemoted (map tk_inject_id demote) n) w))] w)"

definition checkpoint_now :: "owner_env \<Rightarrow> io_step" where
  "checkpoint_now env w =
     (case reserve_hot (w_mem w) of
        None \<Rightarrow> (Some ''GENERATION_UNSAFE'', w)
      | Some (n, S) \<Rightarrow>
          let demote = filter (demotionEligible S) (map snd (os_hot S)) in
          if demote = [] then checkpoint_files env n None [] (w\<lparr>w_mem := S\<rparr>)
          else (case reserve_cold S of
             None \<Rightarrow> (Some ''GENERATION_UNSAFE'', w\<lparr>w_mem := S\<rparr>)
           | Some (k, S') \<Rightarrow> checkpoint_files env n (Some k) demote (w\<lparr>w_mem := S'\<rparr>)))"

end
