(* ===== verification/Ledger_Owner.thy ===== *)
theory Ledger_Owner
  imports Ledger_Store
begin

text \<open>
  The owner of the ledger (\<open>src/session-store/ledger-owner.js\<close>): deltas are submitted one at a
  time, checked and applied to the overlay of the open group; a flush writes the group with its
  commit frame, retries once in a new segment, and only then merges the overlay and
  acknowledges; a group that could not be written is reported as indeterminate and stays out.
  Opening the store loads the published checkpoint, replays the segments, copies the last group
  into the first segment of a new epoch and writes the manifest.
\<close>

section \<open>Messages\<close>

datatype delta =
    DBegin string string "tracked option" "string option"
  | DObs string "observation option"
  | DState string "observation option" string
  | DFact string "string option" "observation option"
  | DReheat string bool
  | DIact "act option" "pending_inject option"
  | DUnknown string

fun kind_name :: "delta \<Rightarrow> string" where
  "kind_name (DBegin _ _ _ _) = ''begin''"
| "kind_name (DObs _ _) = ''obs''"
| "kind_name (DState _ _ _) = ''state''"
| "kind_name (DFact _ _ _) = ''fact''"
| "kind_name (DReheat _ _) = ''reheat''"
| "kind_name (DIact _ _) = ''iact''"
| "kind_name (DUnknown k) = k"

fun frame_id :: "frame_body \<Rightarrow> string option" where
  "frame_id (Begin i _ _) = Some i"
| "frame_id (Obs i _) = Some i"
| "frame_id (State i _ _) = Some i"
| "frame_id (Reheat i _) = Some i"
| "frame_id _ = None"

fun error_name :: "ledger_error \<Rightarrow> string" where
  "error_name AlreadyExists = ''already_exists''"
| "error_name RecordMissing = ''record_missing''"
| "error_name RecordTerminal = ''record_terminal''"
| "error_name InvalidFrame = ''invalid''"

definition frame_cap :: "string \<Rightarrow> int" where
  "frame_cap kind = (if kind = ''reheat'' then 1048576 else if kind = ''iact'' then 1056768 else 16384)"

definition segment_roll_bytes :: int where
  "segment_roll_bytes = 8388608"

definition nack :: "string \<Rightarrow> string \<Rightarrow> string option \<Rightarrow> world \<Rightarrow> world" where
  "nack txn reason code = post (PostNack txn reason code)"

definition post_state :: "string \<Rightarrow> string option \<Rightarrow> world \<Rightarrow> world" where
  "post_state st reason w = post (PostState st reason) (upd (\<lambda>S. S\<lparr>os_state := st, os_reason := reason\<rparr>) w)"

section \<open>The open group\<close>

definition newGroup :: "owner \<Rightarrow> group" where
  "newGroup S = \<lparr>gr_frames = [], gr_buffers = [], gr_bytes = 0, gr_members = [], gr_noops = [], gr_overlay = [],
     gr_facts = os_facts S, gr_actions = [], gr_seq_from = None, gr_seq_to = 0, gr_facts_added = 0\<rparr>"

definition the_group :: "owner \<Rightarrow> group" where
  "the_group S = (case os_group S of Some g \<Rightarrow> g | None \<Rightarrow> newGroup S)"

definition set_group :: "group option \<Rightarrow> world \<Rightarrow> world" where
  "set_group g = upd (\<lambda>S. S\<lparr>os_group := g\<rparr>)"

definition scheduleFlush :: "world \<Rightarrow> world" where
  "scheduleFlush = upd (\<lambda>S. S\<lparr>os_timer := True\<rparr>)"

text \<open>What the group's frames are applied to: the overlay before the hot set, and the group's facts.\<close>

definition groupCtx :: "owner \<Rightarrow> group \<Rightarrow> projection" where
  "groupCtx S g = \<lparr>pj_records = map_of (os_hot S) ++ map_of (gr_overlay g), pj_facts = gr_facts g, pj_actions = gr_actions g\<rparr>"

definition touched :: "group \<Rightarrow> string \<Rightarrow> bool" where
  "touched g i \<longleftrightarrow> jm_has (gr_overlay g) i"

text \<open>\<open>ctx.set\<close> of every record a frame wrote, in the order of its effects.\<close>

definition take_sets :: "effect list \<Rightarrow> projection \<Rightarrow> (string, tracked) jsmap \<Rightarrow> (string, tracked) jsmap" where
  "take_sets es c ov = fold (\<lambda>e m. case pj_records c (ef_id e) of None \<Rightarrow> m | Some r \<Rightarrow> jm_set (ef_id e) r m) es ov"

definition noopVerdict :: "group \<Rightarrow> string \<Rightarrow> string \<Rightarrow> bool \<Rightarrow> world \<Rightarrow> world" where
  "noopVerdict g txn result pending_basis w =
     (if \<not> pending_basis
      then post (PostNoop txn result False)
        (set_group (if gr_frames g = [] \<and> gr_noops g = [] then None else Some g) w)
      else scheduleFlush (set_group (Some (g\<lparr>gr_noops := gr_noops g @ [(txn, result)]\<rparr>)) w))"

section \<open>Checking a delta\<close>

datatype verdict = Refuse string "string option" | Noop string bool | Accept frame_body

definition superseded_entry :: "owner_env \<Rightarrow> string \<Rightarrow> string \<Rightarrow> observation" where
  "superseded_entry env i at =
     \<lparr>ob_kind = ''tracking_superseded'', ob_trigger = Some ''superseded_by_new_tracked_inject'',
      ob_body = oe_superseded_by env i, ob_at = Some at, ob_seq = 0\<rparr>"

text \<open>The tracked records of a session: those of the hot index, then those only in the overlay.\<close>

definition superseded_ids :: "owner \<Rightarrow> group \<Rightarrow> string \<Rightarrow> string \<Rightarrow> string list" where
  "superseded_ids S g i sid =
     (let hot = filter (\<lambda>h. h \<noteq> i \<and> (case pj_records (groupCtx S g) h of None \<Rightarrow> False | Some r \<Rightarrow> tk_state r = ''tracked''))
                  (os_by_session S sid);
          over = map fst (filter (\<lambda>(h, r). tk_session_id r = sid \<and> tk_state r = ''tracked'' \<and> h \<noteq> i \<and> h \<notin> set hot)
                  (gr_overlay g))
      in hot @ over)"

definition over_capacity :: "owner_env \<Rightarrow> owner \<Rightarrow> tracked \<Rightarrow> bool" where
  "over_capacity env S r \<longleftrightarrow> int (length (os_hot S)) + 1 > oe_hot_records env
     \<or> os_hot_bytes S + oe_record_bytes env r > oe_hot_bytes env"

definition missing_code :: "owner_env \<Rightarrow> string \<Rightarrow> owner \<Rightarrow> string" where
  "missing_code env i S = (if coldOfflineHas env i S then ''cold_offline'' else ''record_missing'')"

definition check_begin :: "owner_env \<Rightarrow> string \<Rightarrow> owner \<Rightarrow> group \<Rightarrow> string \<Rightarrow> string \<Rightarrow> tracked option \<Rightarrow> string option \<Rightarrow> verdict" where
  "check_begin env now S g i sid record at =
     (case record of
        None \<Rightarrow> Refuse ''invalid'' (Some ''begin_shape'')
      | Some r \<Rightarrow>
          if i = [] \<or> sid = [] \<or> tk_inject_id r \<noteq> i \<or> tk_session_id r \<noteq> sid then Refuse ''invalid'' (Some ''begin_shape'')
          else if pj_records (groupCtx S g) i \<noteq> None then Noop ''already_exists'' (touched g i)
          else if coldLookup i S \<noteq> None then Noop ''already_exists'' False
          else if over_capacity env S r then Refuse ''hot_capacity'' None
          else let stamp = (case truthy at of Some t \<Rightarrow> t | None \<Rightarrow> now)
               in Accept (Begin i r (map (\<lambda>h. (h, superseded_entry env i stamp)) (superseded_ids S g i sid))))"

definition check_obs :: "owner_env \<Rightarrow> owner \<Rightarrow> group \<Rightarrow> string \<Rightarrow> observation option \<Rightarrow> verdict" where
  "check_obs env S g i ob =
     (case ob of
        None \<Rightarrow> Refuse ''invalid'' (Some ''obs_shape'')
      | Some ob \<Rightarrow>
          if i = [] then Refuse ''invalid'' (Some ''obs_shape'')
          else case pj_records (groupCtx S g) i of
            None \<Rightarrow> Refuse (if coldLookup i S \<noteq> None then ''record_cold'' else missing_code env i S) None
          | Some current \<Rightarrow>
              (case tk_last (overlay current (gr_facts g)) of
                 None \<Rightarrow> Accept (Obs i ob)
               | Some prev \<Rightarrow>
                   if observationIdentity (ob_kind prev) (ob_trigger prev) = observationIdentity (ob_kind ob) (ob_trigger ob)
                   then Noop ''observation_duplicate'' (touched g i \<or> gr_facts_added g > 0)
                   else Accept (Obs i ob)))"

definition check_state :: "owner \<Rightarrow> group \<Rightarrow> string \<Rightarrow> observation option \<Rightarrow> string \<Rightarrow> verdict" where
  "check_state S g i ob st =
     (case ob of
        None \<Rightarrow> Refuse ''invalid'' (Some ''state_shape'')
      | Some ob \<Rightarrow>
          if i = [] \<or> st \<notin> set terminal_states then Refuse ''invalid'' (Some ''state_shape'')
          else case pj_records (groupCtx S g) i of
            None \<Rightarrow> Refuse (if coldLookup i S \<noteq> None then ''record_cold'' else ''record_missing'') None
          | Some current \<Rightarrow>
              if tk_state current = st then Noop ''already_terminal'' (touched g i)
              else if tk_state current \<noteq> ''tracked'' then Refuse ''record_terminal'' None
              else Accept (State i st ob))"

definition check_fact :: "string \<Rightarrow> string option \<Rightarrow> observation option \<Rightarrow> verdict" where
  "check_fact scope sid ob =
     (case ob of
        None \<Rightarrow> Refuse ''invalid'' (Some ''fact_shape'')
      | Some ob \<Rightarrow>
          if scope \<notin> {''global'', ''session''} \<or> scope = ''session'' \<and> truthy sid = None
          then Refuse ''invalid'' (Some ''fact_shape'')
          else Accept (Fact scope (if scope = ''session'' then sid else None) ob))"

definition check_reheat :: "owner_env \<Rightarrow> owner \<Rightarrow> group \<Rightarrow> lpos \<Rightarrow> string \<Rightarrow> bool \<Rightarrow> verdict" where
  "check_reheat env S g at i job_reserved =
     (if i = [] then Refuse ''invalid'' (Some ''reheat_shape'')
      else if pj_records (groupCtx S g) i \<noteq> None then Noop ''already_hot'' (touched g i)
      else case coldLookup i S of
        None \<Rightarrow> Refuse (missing_code env i S) None
      | Some cold \<Rightarrow>
          if tk_state cold = ''tracked'' \<and> \<not> job_reserved
          then Refuse ''tracking_capacity_exhausted'' (Some ''reheat_requires_job_reservation'')
          else let r = materialize cold (pendingFactsFor cold (gr_facts g) (Some at)) at
               in if over_capacity env S r then Refuse ''hot_capacity'' None else Accept (Reheat i r))"

definition check_delta :: "owner_env \<Rightarrow> string \<Rightarrow> owner \<Rightarrow> group \<Rightarrow> lpos \<Rightarrow> delta \<Rightarrow> verdict" where
  "check_delta env now S g at d =
     (case d of
        DBegin i sid record stamp \<Rightarrow> check_begin env now S g i sid record stamp
      | DObs i ob \<Rightarrow> check_obs env S g i ob
      | DState i ob st \<Rightarrow> check_state S g i ob st
      | DFact scope sid ob \<Rightarrow> check_fact scope sid ob
      | DReheat i reserved \<Rightarrow> check_reheat env S g at i reserved
      | DIact action pending \<Rightarrow>
          (case action of
             None \<Rightarrow> Refuse ''invalid'' (Some ''iact_shape'')
           | Some a \<Rightarrow> if ac_id a = [] then Refuse ''invalid'' (Some ''iact_shape'') else Accept (Iact a pending))
      | DUnknown _ \<Rightarrow> Refuse ''invalid'' (Some ''unknown_kind''))"

section \<open>Writing a group\<close>

definition encode_line :: "owner_env \<Rightarrow> log_line \<Rightarrow> string" where
  "encode_line env = encodeFrame (oe_print env) (oe_hash env)"

definition group_bytes :: "owner_env \<Rightarrow> group \<Rightarrow> string" where
  "group_bytes env g = concat (gr_buffers g) @ encode_line env (Commit (Some (int (length (gr_frames g)))))"

definition set_actions :: "(act \<times> pending_inject option) list \<Rightarrow> owner \<Rightarrow> owner" where
  "set_actions as S = fold (\<lambda>(a, p) S. S\<lparr>os_actions := jm_set (ac_id a) a (os_actions S),
      os_pending := (case p of None \<Rightarrow> os_pending S | Some p \<Rightarrow> jm_set (pd_inject_id p) p (os_pending S))\<rparr>) as S"

definition note_member :: "member \<Rightarrow> owner \<Rightarrow> owner" where
  "note_member m S = S\<lparr>os_applied := insert (mb_pos m) (os_applied S),
     os_txn_hash := (os_txn_hash S)(TxnKey (mb_txn m) \<mapsto> mb_hash m, PosKey (mb_pos m) \<mapsto> mb_hash m),
     os_receipts := jm_set (mb_txn m) \<lparr>rc_pos = mb_pos m, rc_kind = mb_kind m, rc_id = mb_id m, rc_tag = OpenEpoch\<rparr> (os_receipts S)\<rparr>"

text \<open>The group is durable: its overlay becomes the committed state.\<close>

definition merge_group :: "owner_env \<Rightarrow> group \<Rightarrow> owner \<Rightarrow> owner" where
  "merge_group env g S =
     (let S1 = fold (\<lambda>(i, r). setHot env i r) (gr_overlay g) S;
          S2 = set_actions (gr_actions g) (S1\<lparr>os_facts := gr_facts g\<rparr>)
      in fold note_member (gr_members g)
           (S2\<lparr>os_seq_committed := gr_seq_to g, os_frames_since := os_frames_since S2 + int (length (gr_frames g))\<rparr>))"

definition write_error :: "string \<Rightarrow> string" where
  "write_error code = ''write_error:'' @ code"

text \<open>One attempt, and after a failure a second one with the same bytes in a new segment.\<close>

definition write_group :: "string \<Rightarrow> io_step" where
  "write_group bytes w =
     (case tryWrite bytes w of
        (None, w1) \<Rightarrow> (None, w1)
      | (Some _, w1) \<Rightarrow>
          run_steps
            [always (upd closeSegment),
             \<lambda>w. openSegment (os_epoch (w_mem w)) (nextSegmentN (w_mem w)) w,
             tryWrite bytes] w1)"

definition after_flush :: "owner_env \<Rightarrow> world \<Rightarrow> world" where
  "after_flush env w =
     (let w1 = (if length (os_receipts (w_mem w)) > receipts_max * 2 then upd trimReceipts w else w);
          w2 = (if os_frames_since (w_mem w1) \<ge> oe_compact_frames env
                then (case checkpoint_now env w1 of (None, w') \<Rightarrow> w' | (Some e, w') \<Rightarrow> post (PostFailed ''compact'' e) w')
                else w1)
      in case os_seg (w_mem w2) of
           None \<Rightarrow> w2
         | Some g \<Rightarrow> if sg_bytes g \<ge> segment_roll_bytes
                      then let w3 = upd closeSegment w2
                           in snd (openSegment (os_epoch (w_mem w3)) (nextSegmentN (w_mem w3)) w3)
                      else w2)"

definition post_each :: "('a \<Rightarrow> owner_post) \<Rightarrow> 'a list \<Rightarrow> world \<Rightarrow> world" where
  "post_each f xs w = fold (\<lambda>x. post (f x)) xs w"

definition flushGroup :: "owner_env \<Rightarrow> world \<Rightarrow> world" where
  "flushGroup env w =
     (let w0 = upd (\<lambda>S. S\<lparr>os_timer := False, os_group := None\<rparr>) w in
      case os_group (w_mem w) of
        None \<Rightarrow> w0
      | Some g \<Rightarrow>
          if gr_frames g = [] then post_each (\<lambda>(t, r). PostNoop t r False) (gr_noops g) w0
          else case write_group (group_bytes env g) w0 of
            (Some e, w1) \<Rightarrow>
              post (PostIndeterminate (map mb_txn (gr_members g) @ map fst (gr_noops g)) (write_error e))
                (post_state ''unavailable_write'' (Some (write_error e))
                  (upd (\<lambda>S. S\<lparr>os_possibly_durable := Some (map mb_txn (gr_members g))\<rparr>) w1))
          | (None, w1) \<Rightarrow>
              after_flush env
                (post_each (\<lambda>(t, r). PostNoop t r True) (gr_noops g)
                  (post_each (\<lambda>m. PostWritten (mb_txn m) (mb_pos m) (mb_effects m)) (gr_members g)
                    (upd (merge_group env g) w1))))"

section \<open>Submitting a delta\<close>

definition push_frame :: "owner_env \<Rightarrow> string \<Rightarrow> string \<Rightarrow> log_entry \<Rightarrow> projection \<Rightarrow> effect list \<Rightarrow> group \<Rightarrow> group" where
  "push_frame env txn kind e c es g =
     (let buf = encode_line env (Delta e); at = fr_pos (le_frame e) in
      g\<lparr>gr_overlay := take_sets es c (gr_overlay g), gr_facts := pj_facts c, gr_actions := pj_actions c,
        gr_facts_added := gr_facts_added g + (if kind = ''fact'' then 1 else 0),
        gr_seq_from := (if gr_seq_from g = None then Some (pseq at) else gr_seq_from g), gr_seq_to := pseq at,
        gr_frames := gr_frames g @ [e], gr_buffers := gr_buffers g @ [buf], gr_bytes := gr_bytes g + int (length buf),
        gr_members := gr_members g @ [\<lparr>mb_txn = txn, mb_kind = kind, mb_id = frame_id (fr_body (le_frame e)),
           mb_pos = at, mb_effects = es, mb_hash = oe_hash env (oe_print env (Delta e))\<rparr>]\<rparr>)"

text \<open>
  A frame above the soft byte cap makes a group of its own: the open group is flushed and the
  delta submitted again (\<open>again\<close>).
\<close>

definition accept_frame :: "owner_env \<Rightarrow> (world \<Rightarrow> world) \<Rightarrow> group \<Rightarrow> lpos \<Rightarrow> string \<Rightarrow> string \<Rightarrow> frame_body \<Rightarrow> world \<Rightarrow> world" where
  "accept_frame env again g at txn kind body w =
     (let e = \<lparr>le_txn = txn, le_frame = \<lparr>fr_pos = at, fr_body = body\<rparr>\<rparr>;
          size = int (length (encode_line env (Delta e))) in
      if size > frame_cap kind then nack txn ''frame_too_large'' None (set_group (Some g) w)
      else if size > oe_group_bytes env \<and> gr_frames g \<noteq> [] then again (flushGroup env (set_group (Some g) w))
      else case applyFrame (le_frame e) (groupCtx (w_mem w) g) of
        Inl err \<Rightarrow> nack txn (if err = AlreadyExists then ''invalid'' else error_name err) (Some (error_name err)) (set_group (Some g) w)
      | Inr (c, es) \<Rightarrow>
          let g' = push_frame env txn kind e c es g;
              w' = upd (\<lambda>S. S\<lparr>os_seq_next := os_seq_next S + 1\<rparr>) (set_group (Some g') w)
          in if size > oe_group_bytes env \<or> int (length (gr_frames g')) \<ge> oe_group_frames env \<or> gr_bytes g' \<ge> oe_group_bytes env
             then flushGroup env w' else scheduleFlush w')"

definition submit_once :: "owner_env \<Rightarrow> (world \<Rightarrow> world) \<Rightarrow> string \<Rightarrow> string \<Rightarrow> delta option \<Rightarrow> world \<Rightarrow> world" where
  "submit_once env again now txn delta w =
     (let S = w_mem w in
      case delta of
        None \<Rightarrow> nack txn ''invalid'' (Some ''malformed_submit'') w
      | Some d \<Rightarrow>
          if txn = [] \<or> kind_name d = [] then nack txn ''invalid'' (Some ''malformed_submit'') w
          else if os_state S = ''recovering'' then nack txn ''recovering'' None w
          else if os_state S = ''unavailable_read'' then nack txn ''unavailable_read'' (os_reason S) w
          else if os_state S = ''unavailable_write'' then nack txn ''unavailable_write'' None w
          else if os_state S \<noteq> ''available'' \<or> os_closing S
            then nack txn (if os_closing S then ''shutting_down'' else ''unavailable'') (os_reason S) w
          else case jm_get (os_receipts S) txn of
            Some r \<Rightarrow> post (PostDuplicate txn (rc_pos r)) w
          | None \<Rightarrow>
              let g = the_group S; at = \<lparr>epoch = os_epoch S, pseq = os_seq_next S\<rparr> in
              (case check_delta env now S g at d of
                 Refuse reason code \<Rightarrow> nack txn reason code (set_group (Some g) w)
               | Noop result pending_basis \<Rightarrow> noopVerdict g txn result pending_basis w
               | Accept body \<Rightarrow> accept_frame env again g at txn (kind_name d) body w))"

text \<open>After the flush no group is open, so the second round never asks for a third.\<close>

definition submit :: "owner_env \<Rightarrow> string \<Rightarrow> string \<Rightarrow> delta option \<Rightarrow> world \<Rightarrow> world" where
  "submit env now txn delta = submit_once env (submit_once env id now txn delta) now txn delta"

definition resolve :: "string list \<Rightarrow> world \<Rightarrow> world" where
  "resolve txns w = post (PostResolved (map (\<lambda>t.
     (t, if jm_get (os_receipts (w_mem w)) t \<noteq> None then ''committed''
         else if os_unapplied_txns (w_mem w) t \<noteq> None then ''not_applied'' else ''unresolved'')) (take 2764 txns))) w"

section \<open>Replay\<close>

text \<open>The groups of the decoded frames of a file, with their commit frames, and what is left open.\<close>

fun group_decoded :: "'f log_frame decoded list \<Rightarrow> 'f log_frame decoded list
    \<Rightarrow> ('f log_frame decoded list \<times> 'f log_frame decoded) list \<times> 'f log_frame decoded list" where
  "group_decoded current [] = ([], current)"
| "group_decoded current (d # ds) =
     (case dc_obj d of
        Commit n \<Rightarrow> if Some (int (length current)) \<noteq> n then ([], current @ [d])
                    else let (gs, rest) = group_decoded [] ds in ((current, d) # gs, rest)
      | Delta _ \<Rightarrow> group_decoded (current @ [d]) ds)"

definition committed :: "owner \<Rightarrow> projection" where
  "committed S = \<lparr>pj_records = map_of (os_hot S), pj_facts = os_facts S, pj_actions = []\<rparr>"

definition note_hash :: "log_entry \<Rightarrow> string \<Rightarrow> owner \<Rightarrow> owner" where
  "note_hash e h S = S\<lparr>os_applied := insert (fr_pos (le_frame e)) (os_applied S),
     os_txn_hash := (let m = (if le_txn e \<noteq> [] then (os_txn_hash S)(TxnKey (le_txn e) \<mapsto> h) else os_txn_hash S)
                     in m(PosKey (fr_pos (le_frame e)) \<mapsto> h))\<rparr>"

definition seen :: "log_entry \<Rightarrow> owner \<Rightarrow> bool" where
  "seen e S \<longleftrightarrow> fr_pos (le_frame e) \<in> os_applied S \<or> (le_txn e \<noteq> [] \<and> os_txn_hash S (TxnKey (le_txn e)) \<noteq> None)"

definition prior_hash :: "log_entry \<Rightarrow> owner \<Rightarrow> string option" where
  "prior_hash e S = (case os_txn_hash S (TxnKey (le_txn e)) of Some h \<Rightarrow> Some h | None \<Rightarrow> os_txn_hash S (PosKey (fr_pos (le_frame e))))"

definition frame_kind :: "frame_body \<Rightarrow> string" where
  "frame_kind b = (case b of Begin _ _ _ \<Rightarrow> ''begin'' | Obs _ _ \<Rightarrow> ''obs'' | State _ _ _ \<Rightarrow> ''state'' | Reheat _ _ \<Rightarrow> ''reheat''
     | Fact _ _ _ \<Rightarrow> ''fact'' | Iact _ _ \<Rightarrow> ''iact'' | UnknownFrame k \<Rightarrow> k)"

definition replay_entry :: "owner_env \<Rightarrow> int \<Rightarrow> log_entry \<Rightarrow> string \<Rightarrow> owner \<Rightarrow> string + owner" where
  "replay_entry env manifest_epoch e h S =
     (let p = fr_pos (le_frame e) in
      if seen e S then
        (case prior_hash e S of
           None \<Rightarrow> Inr S
         | Some h' \<Rightarrow> if h' \<noteq> h then Inl ''duplicate_frame_conflict'' else Inr S)
      else if comparePos p (os_checkpoint_pos S) \<le> 0 then Inr (note_hash e h S)
      else case applyFrame (le_frame e) (committed S) of
        Inl _ \<Rightarrow> Inl ''replay_failed''
      | Inr (c, es) \<Rightarrow>
          let S1 = fold (\<lambda>x S. case pj_records c (ef_id x) of None \<Rightarrow> S | Some r \<Rightarrow> setHot env (ef_id x) r S) es S;
              S2 = note_hash e h (set_actions (pj_actions c) (S1\<lparr>os_facts := pj_facts c\<rparr>));
              S3 = (if le_txn e \<noteq> [] then S2\<lparr>os_receipts := jm_set (le_txn e)
                      \<lparr>rc_pos = p, rc_kind = frame_kind (fr_body (le_frame e)), rc_id = frame_id (fr_body (le_frame e)), rc_tag = Replayed\<rparr>
                      (os_receipts S2)\<rparr> else S2)
          in Inr (S3\<lparr>os_frames_since := os_frames_since S3 + 1,
                    os_seq_committed := max (os_seq_committed S3) (if epoch p = manifest_epoch then pseq p else os_seq_committed S3)\<rparr>))"

fun replay_entries :: "owner_env \<Rightarrow> int \<Rightarrow> (log_entry \<times> string) list \<Rightarrow> owner \<Rightarrow> string + owner" where
  "replay_entries env me [] S = Inr S"
| "replay_entries env me ((e, h) # es) S =
     (case replay_entry env me e h S of Inl err \<Rightarrow> Inl err | Inr S' \<Rightarrow> replay_entries env me es S')"

definition entries_of :: "log_line decoded list \<Rightarrow> (log_entry \<times> string) list" where
  "entries_of ds = concat (map (\<lambda>d. case dc_obj d of Delta e \<Rightarrow> [(e, dc_hash d)] | Commit _ \<Rightarrow> []) ds)"

text \<open>A bad frame with a commit after it in the same file is damage, not the end of a crash.\<close>

definition is_commit :: "log_line decoded \<Rightarrow> bool" where
  "is_commit d = (case dc_obj d of Commit _ \<Rightarrow> True | Delta _ \<Rightarrow> False)"

definition damaged :: "owner_env \<Rightarrow> string \<Rightarrow> tail option \<Rightarrow> bool" where
  "damaged env buf t =
     (case t of
        None \<Rightarrow> False
      | Some t \<Rightarrow> tl_reason t \<noteq> NoNewline \<and>
          (let rest = drop (tl_offset t) buf
           in NL \<in> set rest \<and>
              list_ex is_commit (fst (decodeFrames (oe_hash env) (oe_parse env) 0 (tl (dropWhile (\<lambda>c. c \<noteq> NL) rest))))))"

definition slice_group :: "string \<Rightarrow> log_line decoded list \<times> log_line decoded \<Rightarrow> string" where
  "slice_group buf gc = (case gc of (ds, c) \<Rightarrow>
     let start = (case ds of [] \<Rightarrow> dc_offset c | d # _ \<Rightarrow> dc_offset d)
     in take (dc_offset c + dc_length c - start) (drop start buf))"

definition replay_file :: "owner_env \<Rightarrow> int \<Rightarrow> segment_file \<Rightarrow> owner \<times> string \<Rightarrow> string + (owner \<times> string)" where
  "replay_file env me f Sl =
     (case Sl of (S, last_bytes) \<Rightarrow>
      let buf = sf_bytes f; (frames, t) = decodeFrames (oe_hash env) (oe_parse env) 0 buf in
      if damaged env buf t then Inl ''corrupt_committed_frame''
      else let (gs, open_frames) = group_decoded [] frames in
      case replay_entries env me (concat (map (\<lambda>(ds, _). entries_of ds) gs)) S of
        Inl err \<Rightarrow> Inl err
      | Inr S1 \<Rightarrow>
          let bad = (case open_frames of d # _ \<Rightarrow> Some (dc_offset d) | [] \<Rightarrow> map_option tl_offset t);
              S2 = (case bad of
                      None \<Rightarrow> S1
                    | Some at \<Rightarrow> S1\<lparr>os_unapplied := os_unapplied S1 @ [(sf_epoch f, sf_n f, at, length open_frames)],
                         os_unapplied_txns := fold (\<lambda>(e, _) m. if le_txn e = [] then m else m(le_txn e \<mapsto> (sf_epoch f, sf_n f, at)))
                           (entries_of open_frames) (os_unapplied_txns S1)\<rparr>)
          in Inr (S2\<lparr>os_segments := os_segments S2 @ [\<lparr>sm_epoch = sf_epoch f, sm_n = sf_n f, sm_closed = True\<rparr>]\<rparr>,
                  if gs = [] then last_bytes else slice_group buf (last gs)))"

fun replay_files :: "owner_env \<Rightarrow> int \<Rightarrow> segment_file list \<Rightarrow> owner \<times> string \<Rightarrow> string + (owner \<times> string)" where
  "replay_files env me [] Sl = Inr Sl"
| "replay_files env me (f # fs) Sl = (case replay_file env me f Sl of Inl err \<Rightarrow> Inl err | Inr Sl' \<Rightarrow> replay_files env me fs Sl')"

definition segmentFiles :: "store_disk \<Rightarrow> segment_file list" where
  "segmentFiles d = sort_key (\<lambda>f. (sf_epoch f, sf_n f)) (dk_segments d)"

definition replaySegments :: "owner_env \<Rightarrow> store_disk \<Rightarrow> owner \<Rightarrow> string + (owner \<times> string)" where
  "replaySegments env d S = replay_files env (mf_epoch (dk_manifest d)) (segmentFiles d) (S, [])"

section \<open>Opening the store\<close>

definition fresh_owner :: "manifest \<Rightarrow> string list \<Rightarrow> owner" where
  "fresh_owner m live =
     \<lparr>os_state = ''closed'', os_reason = None, os_epoch = 0, os_seq_next = 1, os_seq_committed = 0, os_manifest = m,
      os_hot = [], os_by_session = (\<lambda>_. []), os_hot_bytes = 0, os_actions = [], os_pending = [], os_facts = [],
      os_receipts = [], os_receipt_ckpts = [], os_applied = {}, os_txn_hash = Map.empty, os_cold = [],
      os_unapplied = [], os_unapplied_txns = Map.empty, os_segments = [], os_seg = None, os_frames_since = 0,
      os_checkpoint_n = 0, os_checkpoint_pos = origin, os_alloc_hot = 0, os_alloc_cold = 0, os_group = None,
      os_timer = False, os_live = live, os_closing = False, os_possibly_durable = None\<rparr>"

definition load_line :: "owner_env \<Rightarrow> hot_line \<Rightarrow> owner \<Rightarrow> owner" where
  "load_line env l S = (case l of
      HotRecord r \<Rightarrow> setHot env (tk_inject_id r) r S
    | HotAction a \<Rightarrow> S\<lparr>os_actions := jm_set (ac_id a) a (os_actions S)\<rparr>
    | HotPending p \<Rightarrow> S\<lparr>os_pending := jm_set (pd_inject_id p) p (os_pending S)\<rparr>)"

text \<open>A generation 0 in the manifest stands for none: \<open>hot\<close> and \<open>facts\<close> then start at 1.\<close>

definition or_one :: "int \<Rightarrow> int" where
  "or_one n = (if n = 0 then 1 else n)"

text \<open>A file that is absent is skipped; the text of one that was not completely written does not parse.\<close>

definition load_hot :: "owner_env \<Rightarrow> store_disk \<Rightarrow> owner \<Rightarrow> owner option" where
  "load_hot env d S =
     (case jm_get (dk_hot d) (or_one (mf_hot (dk_manifest d))) of
        None \<Rightarrow> Some S
      | Some None \<Rightarrow> None
      | Some (Some ls) \<Rightarrow> Some (fold (load_line env) ls S))"

definition load_receipts :: "store_disk \<Rightarrow> int \<Rightarrow> owner \<Rightarrow> owner option" where
  "load_receipts d n S =
     (if n = 0 then Some S
      else case jm_get (dk_receipts d) n of
        None \<Rightarrow> Some S
      | Some None \<Rightarrow> None
      | Some (Some rs) \<Rightarrow> Some (S\<lparr>os_receipts := fold (\<lambda>(t, r). jm_set t (r\<lparr>rc_tag := InCheckpoint n\<rparr>)) rs (os_receipts S),
           os_receipt_ckpts := os_receipt_ckpts S @ [n]\<rparr>))"

definition load_facts :: "store_disk \<Rightarrow> owner \<Rightarrow> owner option" where
  "load_facts d S =
     (let order = sort_key (\<lambda>f. (epoch (fc_pos f), pseq (fc_pos f))) in
      case jm_get (dk_facts d) (or_one (mf_facts (dk_manifest d))) of
        None \<Rightarrow> Some S
      | Some None \<Rightarrow> None
      | Some (Some fs) \<Rightarrow> Some (S\<lparr>os_facts := order (os_facts S @ fs)\<rparr>))"

text \<open>The newest cold files first, as long as their indexes (32 bytes per entry, twice) fit the budget.\<close>

fun load_cold_files :: "store_disk \<Rightarrow> int \<Rightarrow> int list \<Rightarrow> cold_file list option" where
  "load_cold_files d budget [] = Some []"
| "load_cold_files d budget (n # ns) =
     (case jm_get (dk_cold d) n of
        Some (Some rs) \<Rightarrow>
          (let bytes = 64 * int (length rs); offline = bytes > budget
           in map_option (\<lambda>cs. \<lparr>cf_n = n, cf_records = rs, cf_offline = offline\<rparr> # cs)
                (load_cold_files d (if offline then budget else budget - bytes) ns))
      | _ \<Rightarrow> None)"

definition load_cold :: "owner_env \<Rightarrow> store_disk \<Rightarrow> owner \<Rightarrow> owner option" where
  "load_cold env d S =
     map_option (\<lambda>cs. S\<lparr>os_cold := rev cs\<rparr>)
       (load_cold_files d (oe_cold_index_bytes env) (rev (sort (mf_cold (dk_manifest d)))))"

definition loadCheckpoint :: "owner_env \<Rightarrow> store_disk \<Rightarrow> owner \<Rightarrow> owner option" where
  "loadCheckpoint env d S =
     (let m = dk_manifest d in
      Option.bind (load_hot env d S) (\<lambda>S1.
      Option.bind (case mf_receipts_prev m of None \<Rightarrow> Some S1 | Some n \<Rightarrow> load_receipts d n S1) (\<lambda>S2.
      Option.bind (load_receipts d (mf_receipts m) S2) (\<lambda>S3.
      Option.bind (load_facts d (S3\<lparr>os_checkpoint_n := or_one (mf_hot m)\<rparr>)) (load_cold env d)))))"

text \<open>Memory after the checkpoint and the segments are read. \<open>recover\<close> then opens the new epoch.\<close>

definition read_store :: "owner_env \<Rightarrow> store_disk \<Rightarrow> owner \<Rightarrow> string + (owner \<times> string)" where
  "read_store env d S =
     (let m = dk_manifest d in
      case loadCheckpoint env d (S\<lparr>os_manifest := m, os_checkpoint_pos := mf_checkpoint m\<rparr>) of
        None \<Rightarrow> Inl ''SyntaxError''
      | Some S1 \<Rightarrow> if generations_safe d then replaySegments env d (recoverGenerations d S1)
                   else Inl ''GENERATION_UNSAFE'')"

definition recover :: "owner_env \<Rightarrow> io_step" where
  "recover env w =
     (case read_store env (w_disk w) (w_mem w) of
        Inl err \<Rightarrow> (Some err, w)
      | Inr (S, last_bytes) \<Rightarrow>
          run_steps
            [openSegment (mf_epoch (dk_manifest (w_disk w)) + 1) 1,
             if last_bytes = [] then always id else append_synced last_bytes,
             writeManifest False None]
            (w\<lparr>w_mem := S\<lparr>os_epoch := mf_epoch (dk_manifest (w_disk w)) + 1, os_seq_next := 1, os_seq_committed := 0\<rparr>\<rparr>))"

definition read_refused :: "string list" where
  "read_refused = [''duplicate_frame_conflict'', ''corrupt_committed_frame'', ''replay_failed'']"

text \<open>
  \<open>open\<close> of a published store whose lock is held. What a failed open leaves in memory is not
  modelled, only that the store is not available.
\<close>

definition open_store :: "owner_env \<Rightarrow> world \<Rightarrow> world" where
  "open_store env w =
     (case recover env (post_state ''recovering'' None w) of
        (None, w1) \<Rightarrow> post_state ''available'' None w1
      | (Some err, w1) \<Rightarrow>
          if err \<in> set read_refused then post_state ''unavailable_read'' (Some err) w1
          else post_state ''unavailable'' (Some ''open_failed'') w1)"

section \<open>The operations of an owner\<close>

definition checkpoint :: "owner_env \<Rightarrow> io_step" where
  "checkpoint env w =
     checkpoint_now env (case os_group (w_mem w) of None \<Rightarrow> w | Some g \<Rightarrow> if gr_frames g = [] then w else flushGroup env w)"

definition close_store :: "owner_env \<Rightarrow> world \<Rightarrow> world" where
  "close_store env w =
     (let w0 = upd (\<lambda>S. S\<lparr>os_closing := True\<rparr>) w;
          (clean, w1) =
            (if os_state (w_mem w0) \<noteq> ''available'' then (False, w0)
             else let w' = flushGroup env w0 in
               if os_state (w_mem w') \<noteq> ''available'' then (False, w')
               else case run_steps [checkpoint env, writeManifest True None] w' of
                 (None, w'') \<Rightarrow> (True, w'')
               | (Some e, w'') \<Rightarrow> (False, post (PostFailed ''close'' e) w''));
          unresolved = (case os_possibly_durable (w_mem w1) of None \<Rightarrow> 0 | Some ts \<Rightarrow> length ts)
      in post (PostClosed clean unresolved) (post_state ''closed'' None (upd closeSegment w1)))"

text \<open>
  A crash keeps the synced bytes of every segment and any number of the bytes after them; the
  next owner opens what is left. A session of an owner is such a start and then its messages.
\<close>

definition keep_bytes :: "nat \<Rightarrow> segment_file \<Rightarrow> segment_file" where
  "keep_bytes k f = (let bs = take (max (sf_synced f) k) (sf_bytes f) in f\<lparr>sf_bytes := bs, sf_synced := length bs\<rparr>)"

definition crash_disk :: "(int \<Rightarrow> int \<Rightarrow> nat) \<Rightarrow> store_disk \<Rightarrow> store_disk" where
  "crash_disk keep d = d\<lparr>dk_segments := map (\<lambda>f. keep_bytes (keep (sf_epoch f) (sf_n f)) f) (dk_segments d)\<rparr>"

definition restart :: "owner_env \<Rightarrow> (int \<Rightarrow> int \<Rightarrow> nat) \<Rightarrow> string list \<Rightarrow> world \<Rightarrow> world" where
  "restart env keep live w =
     open_store env (w\<lparr>w_mem := fresh_owner (dk_manifest (w_disk w)) live, w_disk := crash_disk keep (w_disk w)\<rparr>)"

datatype owner_op =
    Submit string string "delta option"
  | Flush
  | Compact
  | Live string bool
  | Resolve "string list"
  | Close

fun owner_step :: "owner_env \<Rightarrow> owner_op \<Rightarrow> world \<Rightarrow> world" where
  "owner_step env (Submit now txn d) w = submit env now txn d w"
| "owner_step env Flush w = flushGroup env w"
| "owner_step env Compact w =
     (case checkpoint env w of (None, w') \<Rightarrow> w' | (Some e, w') \<Rightarrow> post (PostFailed ''compact'' e) w')"
| "owner_step env (Live sid on) w =
     upd (\<lambda>S. S\<lparr>os_live := (if on then (if sid \<in> set (os_live S) then os_live S else os_live S @ [sid])
                           else removeAll sid (os_live S))\<rparr>) w"
| "owner_step env (Resolve txns) w = resolve txns w"
| "owner_step env Close w = close_store env w"

text \<open>
  A session: what the crash before it kept, the sessions that are live, the outcomes of its
  file system calls after it has opened the store, and its messages.
\<close>

type_synonym owner_session = "(int \<Rightarrow> int \<Rightarrow> nat) \<times> string list \<times> io_result list \<times> owner_op list"

fun run_session :: "owner_env \<Rightarrow> owner_session \<Rightarrow> world \<Rightarrow> world" where
  "run_session env (keep, live, io, ops) w =
     fold (owner_step env) ops ((restart env keep live (w\<lparr>w_io := []\<rparr>))\<lparr>w_io := io\<rparr>)"

text \<open>\<open>createFresh\<close>, published: empty generations 1, and no segment yet.\<close>

definition fresh_disk :: store_disk where
  "fresh_disk = \<lparr>dk_segments = [], dk_hot = [(1, Some [])], dk_receipts = [(1, Some [])], dk_facts = [(1, Some [])], dk_cold = [],
     dk_manifest = \<lparr>mf_epoch = 0, mf_seq_committed = 0, mf_checkpoint = origin, mf_hot = 1, mf_receipts = 1,
       mf_receipts_prev = None, mf_cold = [], mf_facts = 1, mf_last_checkpoint = None, mf_clean_close = True\<rparr>\<rparr>"

definition fresh_world :: world where
  "fresh_world = \<lparr>w_mem = fresh_owner (dk_manifest fresh_disk) [], w_disk = fresh_disk, w_io = [], w_out = []\<rparr>"

end
