(* ===== verification/Ledger_Log.thy ===== *)
theory Ledger_Log
  imports Ledger_Owner
begin

text \<open>
  What the bytes of a segment say: whole groups, and possibly a piece of one more that the
  writer did not finish. Reading such a file gives exactly its groups, never damage, and the
  text of its last group.
\<close>

section \<open>The text of groups\<close>

definition env_ok :: "owner_env \<Rightarrow> bool" where
  "env_ok env \<longleftrightarrow> codec_ok (oe_print env) (oe_hash env) (oe_parse env)"

definition closed_lines :: "log_entry list \<Rightarrow> log_line list" where
  "closed_lines g = close_group (map Delta g)"

definition lines_text :: "owner_env \<Rightarrow> log_line list \<Rightarrow> string" where
  "lines_text env xs = concat (map (encode_line env) xs)"

definition group_text :: "owner_env \<Rightarrow> log_entry list \<Rightarrow> string" where
  "group_text env g = lines_text env (closed_lines g)"

definition groups_text :: "owner_env \<Rightarrow> log_entry list list \<Rightarrow> string" where
  "groups_text env gs = concat (map (group_text env) gs)"

definition stamp :: "owner_env \<Rightarrow> log_entry \<Rightarrow> log_entry \<times> string" where
  "stamp env e = (e, oe_hash env (oe_print env (Delta e)))"

definition file_reads :: "owner_env \<Rightarrow> string \<Rightarrow> log_entry list list \<Rightarrow> bool" where
  "file_reads env bs ws \<longleftrightarrow> (\<exists>g k. k < length (group_text env g) \<and> bs = groups_text env ws @ take k (group_text env g))"

lemma lines_text_simps [simp]:
  "lines_text env [] = []"
  "lines_text env (xs @ ys) = lines_text env xs @ lines_text env ys"
  by (simp_all add: lines_text_def)

lemma groups_text_simps [simp]:
  "groups_text env [] = []"
  "groups_text env (gs @ hs) = groups_text env gs @ groups_text env hs"
  "groups_text env (g # gs) = group_text env g @ groups_text env gs"
  by (simp_all add: groups_text_def)

lemma groups_lines: "groups_text env gs = lines_text env (concat (map closed_lines gs))"
  by (induction gs) (simp_all add: group_text_def)

lemma lines_encode: "lines_text env xs = encode_all (oe_print env) (oe_hash env) xs"
  by (simp add: lines_text_def encode_line_def [abs_def])

lemma group_text_nonempty [simp]: "group_text env g \<noteq> []"
  by (simp add: group_text_def lines_text_def closed_lines_def close_group_def encode_line_def encodeFrame_def)

lemma group_bytes_text:
  "gr_buffers g = map (\<lambda>e. encode_line env (Delta e)) (gr_frames g) \<Longrightarrow> group_bytes env g = group_text env (gr_frames g)"
  by (simp add: group_bytes_def group_text_def lines_text_def closed_lines_def close_group_def comp_def)

lemma file_reads_whole [simp]: "file_reads env (groups_text env ws) ws"
  unfolding file_reads_def by (intro exI [of _ "[]"] exI [of _ 0]) simp

lemma file_reads_torn: "k < length (group_text env g) \<Longrightarrow> file_reads env (groups_text env ws @ take k (group_text env g)) ws"
  by (auto simp: file_reads_def)

text \<open>Any number of the bytes of a further group: either it is not finished, or it is one of the groups.\<close>

lemma file_reads_take:
  "file_reads env (groups_text env ws @ take k (group_text env g)) ws
   \<or> file_reads env (groups_text env ws @ take k (group_text env g)) (ws @ [g])"
proof (cases "k < length (group_text env g)")
  case False
  then have "groups_text env ws @ take k (group_text env g) = groups_text env (ws @ [g])" by simp
  then show ?thesis by (metis file_reads_whole)
qed (auto intro: file_reads_torn)

section \<open>Decoding\<close>

abbreviation frames_from :: "owner_env \<Rightarrow> nat \<Rightarrow> log_line list \<Rightarrow> log_line decoded list" where
  "frames_from env \<equiv> frames_at (oe_print env) (oe_hash env)"

definition commit_from :: "owner_env \<Rightarrow> nat \<Rightarrow> log_entry list \<Rightarrow> log_line decoded" where
  "commit_from env offset g = hd (frames_from env (offset + length (lines_text env (map Delta g))) [Commit (Some (int (length g)))])"

fun groups_from :: "owner_env \<Rightarrow> nat \<Rightarrow> log_entry list list \<Rightarrow> (log_line decoded list \<times> log_line decoded) list" where
  "groups_from env offset [] = []"
| "groups_from env offset (g # gs) =
     (frames_from env offset (map Delta g), commit_from env offset g) # groups_from env (offset + length (group_text env g)) gs"

lemma frames_from_append:
  "frames_from env offset (xs @ ys) = frames_from env offset xs @ frames_from env (offset + length (lines_text env xs)) ys"
  by (induction xs arbitrary: offset) (simp_all add: Let_def lines_text_def encode_line_def add.assoc)

lemma length_frames_from [simp]: "length (frames_from env offset xs) = length xs"
  by (metis frames_at_objs length_map)

lemma group_decoded_deltas:
  "group_decoded cur (frames_from env offset (map Delta g) @ ds) = group_decoded (cur @ frames_from env offset (map Delta g)) ds"
  by (induction g arbitrary: offset cur) (simp_all add: Let_def)

lemma frames_from_closed:
  "frames_from env offset (closed_lines g) = frames_from env offset (map Delta g) @ [commit_from env offset g]"
  by (simp add: closed_lines_def close_group_def frames_from_append commit_from_def Let_def)

lemma commit_from_obj [simp]: "dc_obj (commit_from env offset g) = Commit (Some (int (length g)))"
  by (simp add: commit_from_def Let_def)

lemma group_decoded_closed:
  "group_decoded [] (frames_from env offset (closed_lines g) @ ds) =
     (let (gs, rest) = group_decoded [] ds in ((frames_from env offset (map Delta g), commit_from env offset g) # gs, rest))"
  by (simp add: frames_from_closed group_decoded_deltas)

lemma group_decoded_groups:
  "group_decoded [] (frames_from env offset (concat (map closed_lines gs)) @ ds) =
     (let (hs, rest) = group_decoded [] ds in (groups_from env offset gs @ hs, rest))"
proof (induction gs arbitrary: offset)
  case (Cons g gs)
  have "length (lines_text env (closed_lines g)) = length (group_text env g)" by (simp add: group_text_def)
  then show ?case
    using Cons [of "offset + length (group_text env g)"]
    by (simp add: frames_from_append group_decoded_closed case_prod_unfold Let_def)
qed (simp add: case_prod_unfold)

lemma group_decoded_open: "group_decoded [] (frames_from env offset (map Delta g)) = ([], frames_from env offset (map Delta g))"
  using group_decoded_deltas [of "[]" env offset g "[]"] by simp

lemma entries_of_deltas: "entries_of (frames_from env offset (map Delta g)) = map (stamp env) g"
  by (induction g arbitrary: offset) (simp_all add: entries_of_def Let_def stamp_def)

lemma entries_of_groups: "concat (map (\<lambda>(ds, _). entries_of ds) (groups_from env offset gs)) = map (stamp env) (concat gs)"
  by (induction gs arbitrary: offset) (simp_all add: entries_of_deltas)

lemma groups_from_empty [simp]: "groups_from env offset gs = [] \<longleftrightarrow> gs = []"
  by (cases gs) simp_all

lemma groups_from_snoc:
  "groups_from env offset (gs @ [g]) = groups_from env offset gs
     @ [(frames_from env (offset + length (groups_text env gs)) (map Delta g), commit_from env (offset + length (groups_text env gs)) g)]"
  by (induction gs arbitrary: offset) (simp_all add: add.assoc)

text \<open>The bytes of the last group.\<close>

lemma slice_last:
  "slice_group (groups_text env gs @ group_text env g @ rest)
     (frames_from env (length (groups_text env gs)) (map Delta g), commit_from env (length (groups_text env gs)) g) = group_text env g"
proof -
  let ?o = "length (groups_text env gs)"
  have c: "dc_offset (commit_from env ?o g) = ?o + length (lines_text env (map Delta g))"
    "dc_length (commit_from env ?o g) = length (encode_line env (Commit (Some (int (length g)))))"
    by (simp_all add: commit_from_def Let_def encode_line_def)
  have start: "(case frames_from env ?o (map Delta g) of [] \<Rightarrow> dc_offset (commit_from env ?o g) | d # _ \<Rightarrow> dc_offset d) = ?o"
    using c(1) by (cases g) (simp_all add: Let_def)
  have "length (group_text env g) = length (lines_text env (map Delta g)) + length (encode_line env (Commit (Some (int (length g)))))"
    by (simp add: group_text_def closed_lines_def close_group_def lines_text_def)
  with c show ?thesis unfolding slice_group_def by (simp add: start Let_def)
qed

lemma read_file:
  assumes ok: "env_ok env" and reads: "file_reads env bs ws"
  shows "\<exists>offset g t. decodeFrames (oe_hash env) (oe_parse env) 0 bs
      = (frames_from env 0 (concat (map closed_lines ws)) @ frames_from env offset (map Delta g), t)
     \<and> \<not> damaged env bs t"
proof -
  obtain g k where k: "k < length (group_text env g)" and bs: "bs = groups_text env ws @ take k (group_text env g)"
    using reads by (auto simp: file_reads_def)
  have codec: "codec_ok (oe_print env) (oe_hash env) (oe_parse env)" using ok by (simp add: env_ok_def)
  have whole: "group_text env g = encode_all (oe_print env) (oe_hash env) (closed_lines g)"
    by (simp add: group_text_def lines_encode)
  obtain n piece where n: "n \<le> length (closed_lines g)"
    and cut: "take k (group_text env g) = encode_all (oe_print env) (oe_hash env) (take n (closed_lines g)) @ piece"
    and piece: "NL \<notin> set piece"
    using prefix_of_frames [OF codec, of "closed_lines g" k] whole by auto
  have "n \<noteq> length (closed_lines g)"
  proof
    assume "n = length (closed_lines g)"
    then have "length (group_text env g) \<le> k" using arg_cong [OF cut, of length] k by (simp add: whole)
    with k show False by simp
  qed
  then have n': "take n (closed_lines g) = map Delta (take n g)"
    using n by (simp add: closed_lines_def close_group_def take_map)
  let ?ls = "concat (map closed_lines ws) @ map Delta (take n g)"
  have bs': "bs = encode_all (oe_print env) (oe_hash env) ?ls @ piece"
    using bs cut n' by (simp add: groups_lines lines_encode)
  show ?thesis
  proof (cases "piece = []")
    case True
    then show ?thesis
      unfolding bs' decode_all [OF codec]
      by (intro exI [of _ "length (lines_text env (concat (map closed_lines ws)))"] exI [of _ "take n g"] exI [of _ None])
        (simp add: frames_from_append damaged_def)
  next
    case False
    then show ?thesis
      unfolding bs' decode_all [OF codec] decode_torn [OF piece False]
      by (intro exI [of _ "length (lines_text env (concat (map closed_lines ws)))"] exI [of _ "take n g"])
        (simp add: frames_from_append damaged_def)
  qed
qed

section \<open>Replaying a file\<close>

definition meta_of :: "segment_file \<Rightarrow> segment_meta" where
  "meta_of f = \<lparr>sm_epoch = sf_epoch f, sm_n = sf_n f, sm_closed = True\<rparr>"

lemma replay_file_reads:
  assumes ok: "env_ok env" and reads: "file_reads env (sf_bytes f) ws"
  shows "case replay_entries env me (map (stamp env) (concat ws)) S of
      Inl err \<Rightarrow> replay_file env me f (S, lb) = Inl err
    | Inr S1 \<Rightarrow> \<exists>u v. replay_file env me f (S, lb) =
        Inr (S1\<lparr>os_unapplied := u, os_unapplied_txns := v, os_segments := os_segments S1 @ [meta_of f]\<rparr>,
             if ws = [] then lb else group_text env (last ws))"
proof -
  obtain offset g t where dec: "decodeFrames (oe_hash env) (oe_parse env) 0 (sf_bytes f)
      = (frames_from env 0 (concat (map closed_lines ws)) @ frames_from env offset (map Delta g), t)"
    and fine: "\<not> damaged env (sf_bytes f) t"
    using read_file [OF ok reads] by blast
  have grp: "group_decoded [] (frames_from env 0 (concat (map closed_lines ws)) @ frames_from env offset (map Delta g))
      = (groups_from env 0 ws, frames_from env offset (map Delta g))"
    by (simp add: group_decoded_groups group_decoded_open)
  have lb: "slice_group (sf_bytes f) (last (groups_from env 0 ws)) = group_text env (last ws)" if "ws \<noteq> []"
  proof -
    from that obtain gs l where ws: "ws = gs @ [l]" by (cases ws rule: rev_cases) auto
    obtain h k where "sf_bytes f = groups_text env ws @ take k (group_text env h)" using reads by (auto simp: file_reads_def)
    then show ?thesis using slice_last by (simp add: ws groups_from_snoc)
  qed
  show ?thesis
  proof (cases "replay_entries env me (map (stamp env) (concat ws)) S")
    case (Inl err)
    then show ?thesis by (simp add: replay_file_def dec fine grp entries_of_groups)
  next
    case (Inr S1)
    let ?open = "frames_from env offset (map Delta g)"
    let ?bad = "case ?open of d # _ \<Rightarrow> Some (dc_offset d) | [] \<Rightarrow> map_option tl_offset t"
    let ?lb = "if ws = [] then lb else group_text env (last ws)"
    let ?segs = "os_segments S1 @ [meta_of f]"
    let ?S2 = "\<lambda>bad. case bad of None \<Rightarrow> S1
        | Some at \<Rightarrow> S1\<lparr>os_unapplied := os_unapplied S1 @ [(sf_epoch f, sf_n f, at, length ?open)],
             os_unapplied_txns := fold (\<lambda>(e, _) m. if le_txn e = [] then m else m(le_txn e \<mapsto> (sf_epoch f, sf_n f, at)))
               (entries_of ?open) (os_unapplied_txns S1)\<rparr>"
    have out: "replay_file env me f (S, lb) = Inr ((?S2 ?bad)\<lparr>os_segments := os_segments (?S2 ?bad) @ [meta_of f]\<rparr>, ?lb)"
      using lb by (simp add: replay_file_def dec fine grp entries_of_groups Inr meta_of_def Let_def)
    have "\<exists>u v. (?S2 bad)\<lparr>os_segments := os_segments (?S2 bad) @ [meta_of f]\<rparr>
        = S1\<lparr>os_unapplied := u, os_unapplied_txns := v, os_segments := ?segs\<rparr>" for bad
    proof (cases bad)
      case None
      then show ?thesis by (intro exI [of _ "os_unapplied S1"] exI [of _ "os_unapplied_txns S1"]) simp
    next
      case (Some at)
      then show ?thesis by (intro exI) simp
    qed
    from this [of ?bad] show ?thesis using out Inr by auto
  qed
qed

end
