(* ===== verification/Ledger_Views.thy ===== *)
theory Ledger_Views
  imports Ledger_Records
begin

text \<open>
  The ledger keeps facts apart and folds them into a record when the record is next written
  (\<open>materialize\<close>) or read (\<open>overlay\<close>). The specification has no facts: a fact is appended at
  once to every record it concerns. What a reader sees is the same after every frame.
\<close>

section \<open>The eager specification\<close>

type_synonym views = "string \<rightharpoonup> tracked"

definition append_to :: "observation \<Rightarrow> tracked \<Rightarrow> tracked" where
  "append_to ob r = fst (appendObservation r ob)"

fun eager_supersede :: "(string \<times> observation) list \<Rightarrow> views \<Rightarrow> views" where
  "eager_supersede [] v = v"
| "eager_supersede ((i, ob) # rest) v =
     (case v i of
        None \<Rightarrow> eager_supersede rest v
      | Some r \<Rightarrow> eager_supersede rest (v(i \<mapsto> append_to ob (r\<lparr>tk_state := ''superseded''\<rparr>))))"

definition eager_step :: "frame \<Rightarrow> views \<Rightarrow> ledger_error + views" where
  "eager_step fr v =
     (case fr_body fr of
        Begin i r ss \<Rightarrow>
          (if v i \<noteq> None then Inl AlreadyExists else Inr ((eager_supersede ss v)(i \<mapsto> toLegacyRecord r)))
      | Obs i ob \<Rightarrow> (case v i of None \<Rightarrow> Inl RecordMissing | Some r \<Rightarrow> Inr (v(i \<mapsto> append_to ob r)))
      | State i st ob \<Rightarrow>
          (case v i of None \<Rightarrow> Inl RecordMissing
           | Some r \<Rightarrow> if tk_state r \<noteq> ''tracked'' then Inl RecordTerminal
                      else if st \<notin> set terminal_states then Inl InvalidFrame
                      else Inr (v(i \<mapsto> append_to ob (r\<lparr>tk_state := st\<rparr>))))
      | Reheat i r \<Rightarrow> Inr (v(i \<mapsto> toLegacyRecord r))
      | Fact scope sid ob \<Rightarrow>
          Inr (\<lambda>i. map_option (\<lambda>r. if scope = ''global'' \<or> scope = ''session'' \<and> truthy sid = Some (tk_session_id r)
                                   then append_to ob r else r) (v i))
      | Iact _ _ \<Rightarrow> Inr v
      | UnknownFrame _ \<Rightarrow> Inl InvalidFrame)"

definition view_of :: "projection \<Rightarrow> views" where
  "view_of c = (\<lambda>i. map_option (\<lambda>r. toLegacyRecord (overlay r (pj_facts c))) (pj_records c i))"

section \<open>Pending facts\<close>

lemma overlay_append: "overlay r fs = append_facts r (pendingFactsFor r fs None)"
  by (simp add: overlay_def Let_def)

lemma pending_None: "pendingFactsFor r fs None = filter (\<lambda>f. before (through_of r) (fc_pos f) \<and> factApplies f r) fs"
  by (induction fs) (auto simp: comparePos_le)

lemma pending_bound:
  "\<forall>f \<in> set fs. before (fc_pos f) p \<Longrightarrow> pendingFactsFor r fs (Some p) = pendingFactsFor r fs None"
  by (induction fs) (auto simp: comparePos_ge)

lemma append_through: "fst (appendObservation (r\<lparr>tk_through := x\<rparr>) ob) = (fst (appendObservation r ob))\<lparr>tk_through := x\<rparr>"
  by (simp add: appendObservation_def Let_def)

lemma append_facts_append [simp]: "append_facts r (fs @ gs) = append_facts (append_facts r fs) gs"
  by (simp add: append_facts_def)

lemma legacy_simps [simp]:
  "tk_through (toLegacyRecord r) = None" "tk_state (toLegacyRecord r) = tk_state r"
  "tk_session_id (toLegacyRecord r) = tk_session_id r"
  "toLegacyRecord (r\<lparr>tk_through := x\<rparr>) = toLegacyRecord r"
  "toLegacyRecord (r\<lparr>tk_state := st\<rparr>) = (toLegacyRecord r)\<lparr>tk_state := st\<rparr>"
  by (simp_all add: toLegacyRecord_def)

lemma legacy_append: "toLegacyRecord (fst (appendObservation r ob)) = append_to ob (toLegacyRecord r)"
  by (simp add: toLegacyRecord_def append_to_def append_through)

lemma overlay_fields [simp]:
  "tk_session_id (overlay r fs) = tk_session_id r" "tk_state (overlay r fs) = tk_state r"
  by (simp_all add: overlay_append)

text \<open>A record that is materialized up to or beyond every fact has none pending.\<close>

lemma overlay_done:
  assumes "\<forall>f \<in> set fs. \<not> before (through_of r) (fc_pos f)"
  shows "overlay r fs = r"
proof -
  have "pendingFactsFor r fs None = []" using assms by (auto simp: pending_None filter_empty_conv)
  then show ?thesis by (simp add: overlay_append)
qed

lemma write_view:
  assumes facts: "\<forall>f \<in> set (pj_facts c). before (fc_pos f) p"
    and f: "\<And>r. tk_through (f r) = tk_through r"
    and legacy: "\<And>r. toLegacyRecord (f r) = f (toLegacyRecord r)"
  shows "toLegacyRecord (overlay (fst (write_observation p f ob prior c)) (pj_facts c))
    = append_to ob (f (toLegacyRecord (overlay prior (pj_facts c))))"
proof -
  let ?w = "fst (write_observation p f ob prior c)"
  have "through_of ?w = p" by (simp add: write_observation_def materialize_def through_of_def f)
  then have "overlay ?w (pj_facts c) = ?w" using facts by (intro overlay_done) (auto dest: before_asym)
  moreover have "toLegacyRecord ?w = append_to ob (f (toLegacyRecord (overlay prior (pj_facts c))))"
    by (simp add: write_observation_def legacy_append legacy materialize_def pending_bound [OF facts] overlay_append)
  ultimately show ?thesis by simp
qed

lemma pj_facts_set_record [simp]: "pj_facts (set_record i r c) = pj_facts c"
  and pj_records_set_record [simp]: "pj_records (set_record i r c) = (pj_records c)(i \<mapsto> r)"
  by (simp_all add: set_record_def)

lemma view_set_record:
  "view_of (set_record i r c) = (view_of c)(i \<mapsto> toLegacyRecord (overlay r (pj_facts c)))"
  by (auto simp: view_of_def fun_eq_iff)

lemma view_at: "view_of c i = map_option (\<lambda>r. toLegacyRecord (overlay r (pj_facts c))) (pj_records c i)"
  by (simp add: view_of_def)

lemma supersede_facts [simp]: "pj_facts (fst (supersede_all p ss c)) = pj_facts c"
  by (induction ss arbitrary: c) (auto simp: case_prod_unfold Let_def split: option.splits)

lemma supersede_view:
  "\<forall>f \<in> set (pj_facts c). before (fc_pos f) p \<Longrightarrow>
     view_of (fst (supersede_all p ss c)) = eager_supersede ss (view_of c)"
proof (induction ss arbitrary: c)
  case (Cons s ss)
  obtain i ob where s: "s = (i, ob)" by fastforce
  show ?case
  proof (cases "pj_records c i")
    case None
    then show ?thesis using Cons by (simp add: s view_of_def)
  next
    case (Some prior)
    let ?f = "\<lambda>r. r\<lparr>tk_state := ''superseded''\<rparr>"
    let ?r = "fst (write_observation p ?f ob prior c)"
    have view: "view_of (set_record i ?r c) =
        (view_of c)(i \<mapsto> append_to ob (?f (toLegacyRecord (overlay prior (pj_facts c)))))"
      using write_view [OF Cons.prems, of ?f ob prior] by (simp add: view_set_record)
    have "view_of c i = Some (toLegacyRecord (overlay prior (pj_facts c)))"
      using Some by (simp add: view_of_def)
    then show ?thesis
      using Cons.IH [of "set_record i ?r c"] Cons.prems by (simp add: s Some case_prod_unfold Let_def view fun_upd_def)
  qed
qed simp

section \<open>The refinement\<close>

text \<open>A projection is ready for a frame at \<open>p\<close> when everything in it is older than \<open>p\<close>.\<close>

definition ready :: "lpos \<Rightarrow> projection \<Rightarrow> bool" where
  "ready p c \<longleftrightarrow> (\<forall>f \<in> set (pj_facts c). before (fc_pos f) p)
     \<and> (\<forall>i r. pj_records c i = Some r \<longrightarrow> before (through_of r) p)"

lemma fact_view:
  assumes "ready p c"
  shows "view_of (c\<lparr>pj_facts := pj_facts c @
      [\<lparr>fc_pos = p, fc_scope = scope, fc_sid = truthy sid, fc_observation = ob\<rparr>]\<rparr>) =
    (\<lambda>i. map_option (\<lambda>r. if scope = ''global'' \<or> scope = ''session'' \<and> truthy sid = Some (tk_session_id r)
                         then append_to ob r else r) (view_of c i))"
proof
  fix i
  let ?f = "\<lparr>fc_pos = p, fc_scope = scope, fc_sid = truthy sid, fc_observation = ob\<rparr>"
  show "view_of (c\<lparr>pj_facts := pj_facts c @ [?f]\<rparr>) i =
    map_option (\<lambda>r. if scope = ''global'' \<or> scope = ''session'' \<and> truthy sid = Some (tk_session_id r)
                    then append_to ob r else r) (view_of c i)"
  proof (cases "pj_records c i")
    case (Some r)
    then have "before (through_of r) p" using assms by (simp add: ready_def)
    then have "overlay r (pj_facts c @ [?f]) =
        (if factApplies ?f r then fst (appendObservation (overlay r (pj_facts c)) ob) else overlay r (pj_facts c))"
      by (simp add: overlay_append pending_None)
    then show ?thesis by (simp add: view_of_def Some factApplies_def legacy_append)
  qed (simp add: view_of_def)
qed

lemma lazy_facts_refine_aux:
  assumes "ready (fr_pos fr) c"
  shows "map_sum id (\<lambda>(c', _). view_of c') (applyFrame fr c) = eager_step fr (view_of c)"
proof -
  have facts: "\<forall>f \<in> set (pj_facts c). before (fc_pos f) (fr_pos fr)" using assms by (simp add: ready_def)
  have fresh: "toLegacyRecord (overlay (r\<lparr>tk_through := Some (fr_pos fr)\<rparr>) (pj_facts c)) = toLegacyRecord r" for r
    using facts by (subst overlay_done) (auto simp: through_of_def dest: before_asym)
  note wr = write_view [OF facts]
  show ?thesis
  proof (cases "fr_body fr")
    case (Begin i r ss)
    then show ?thesis
      using supersede_view [OF facts, of ss] fresh [of r]
      by (simp add: applyFrame_def eager_step_def Let_def case_prod_unfold view_set_record view_at)
  next
    case (Obs i ob)
    then show ?thesis
      using wr [of "\<lambda>r. r"]
      by (auto simp: applyFrame_def eager_step_def Let_def case_prod_unfold view_set_record view_of_def
          split: option.splits)
  next
    case (State i st ob)
    then show ?thesis
      using wr [of "\<lambda>r. r\<lparr>tk_state := st\<rparr>"]
      by (auto simp: applyFrame_def eager_step_def Let_def case_prod_unfold view_set_record view_of_def
          split: option.splits)
  next
    case (Reheat i r)
    then show ?thesis
      using fresh [of r] by (simp add: applyFrame_def eager_step_def Let_def view_set_record)
  next
    case (Fact scope sid ob)
    then show ?thesis
      using fact_view [OF assms, of scope sid ob] by (simp add: applyFrame_def eager_step_def Let_def)
  qed (simp_all add: applyFrame_def eager_step_def view_of_def)
qed

text \<open>
  Lazy facts are invisible: a frame newer than everything in the projection fails with the
  same error in the ledger and in the eager specification, or both succeed and every record
  then reads the same.
\<close>

theorem lazy_facts_refine:
  "ready (fr_pos fr) c \<Longrightarrow>
     map_sum id (\<lambda>(c', _). view_of c') (applyFrame fr c) = eager_step fr (view_of c)"
  by (rule lazy_facts_refine_aux)

text \<open>A log: the positions of its frames increase, and the projection is ready for the first one.\<close>

lemma origin_through: "tk_through r = Some p \<Longrightarrow> through_of r = p"
  by (simp add: through_of_def)

lemma ready_mono: "ready p c \<Longrightarrow> before p q \<Longrightarrow> ready q c"
  by (auto simp: ready_def intro: before_trans)

lemma ready_set_record:
  "ready q c \<Longrightarrow> before (through_of r) q \<Longrightarrow> ready q (set_record i r c)"
  by (auto simp: ready_def)

lemma write_through [simp]:
  "(\<And>r. tk_through (f r) = tk_through r) \<Longrightarrow> through_of (fst (write_observation p f ob prior c)) = p"
  by (simp add: write_observation_def materialize_def through_of_def)

lemma ready_supersede: "ready q c \<Longrightarrow> before p q \<Longrightarrow> ready q (fst (supersede_all p ss c))"
proof (induction ss arbitrary: c)
  case (Cons s ss)
  obtain i ob where s: "s = (i, ob)" by fastforce
  show ?case
  proof (cases "pj_records c i")
    case (Some prior)
    have "ready q (set_record i (fst (write_observation p (\<lambda>r. r\<lparr>tk_state := ''superseded''\<rparr>) ob prior c)) c)"
      using Cons.prems by (intro ready_set_record) simp_all
    from Cons.IH [OF this Cons.prems(2)] show ?thesis by (simp add: s Some case_prod_unfold Let_def)
  qed (use Cons in \<open>simp add: s\<close>)
qed simp

lemma ready_replay:
  assumes "ready (fr_pos fr) c" "before (fr_pos fr) q"
  shows "ready q (replay_frame fr c)"
proof -
  note c = ready_mono [OF assms]
  have stored: "before (through_of (r\<lparr>tk_through := Some (fr_pos fr)\<rparr>)) q" for r
    using assms(2) by (simp add: through_of_def)
  show ?thesis
  proof (cases "fr_body fr")
    case (Begin i r ss)
    then show ?thesis
      using c assms(2) stored [of r] ready_supersede [OF c assms(2), of ss]
      by (auto simp: replay_frame_def applyFrame_def Let_def case_prod_unfold intro: ready_set_record)
  next
    case (Fact scope sid ob)
    then show ?thesis
      using c assms(2) by (auto simp: replay_frame_def applyFrame_def Let_def ready_def)
  next
    case (Iact a pd)
    then show ?thesis using c by (auto simp: replay_frame_def applyFrame_def Let_def ready_def)
  qed (use c assms(2) stored in
      \<open>auto simp: replay_frame_def applyFrame_def Let_def case_prod_unfold intro: ready_set_record split: option.splits\<close>)
qed

definition eager_replay :: "frame \<Rightarrow> views \<Rightarrow> views" where
  "eager_replay fr v = (case eager_step fr v of Inl _ \<Rightarrow> v | Inr v' \<Rightarrow> v')"

lemma replay_view: "ready (fr_pos fr) c \<Longrightarrow> view_of (replay_frame fr c) = eager_replay fr (view_of c)"
  using lazy_facts_refine_aux [of fr c]
  by (auto simp: replay_frame_def eager_replay_def split: sum.splits)


text \<open>A small log: a record, a fact about its session, a global fact, and a late observation.\<close>

definition sample_observation :: "string \<Rightarrow> observation" where
  "sample_observation k = \<lparr>ob_kind = k, ob_trigger = None, ob_body = [], ob_at = Some ''t'', ob_seq = 0\<rparr>"

definition sample_tracked :: tracked where
  "sample_tracked = \<lparr>tk_inject_id = ''i1'', tk_session_id = ''s1'', tk_state = ''tracked'', tk_seq = 0, tk_observations = [],
     tk_last = None, tk_through = None, tk_rest = []\<rparr>"

definition empty_projection :: projection where
  "empty_projection = \<lparr>pj_records = Map.empty, pj_facts = [], pj_actions = []\<rparr>"

definition sample_log :: "frame list" where
  "sample_log =
     [\<lparr>fr_pos = \<lparr>epoch = 1, pseq = 1\<rparr>, fr_body = Begin ''i1'' sample_tracked []\<rparr>,
      \<lparr>fr_pos = \<lparr>epoch = 1, pseq = 2\<rparr>, fr_body = Fact ''session'' (Some ''s1'') (sample_observation ''idle'')\<rparr>,
      \<lparr>fr_pos = \<lparr>epoch = 1, pseq = 3\<rparr>, fr_body = Fact ''global'' None (sample_observation ''restart'')\<rparr>,
      \<lparr>fr_pos = \<lparr>epoch = 2, pseq = 1\<rparr>, fr_body = Obs ''i1'' (sample_observation ''done'')\<rparr>]"

lemma ready_empty: "ready p empty_projection"
  by (simp add: ready_def empty_projection_def)

lemma sample_log_sorted: "sorted_wrt before (map fr_pos sample_log)"
  by (simp add: sample_log_def before_iff)


theorem lazy_facts_refine_witness:
  "map_sum id (\<lambda>(c', _). view_of c') (applyFrame (sample_log ! 1) (replay_frame (sample_log ! 0) empty_projection))
     = eager_step (sample_log ! 1) (view_of (replay_frame (sample_log ! 0) empty_projection))"
proof (rule lazy_facts_refine)
  show "ready (fr_pos (sample_log ! 1)) (replay_frame (sample_log ! 0) empty_projection)"
    by (rule ready_replay [OF ready_empty]) (simp add: sample_log_def before_iff)
qed


end
