(* ===== verification/Ledger_Recovery.thy ===== *)
theory Ledger_Recovery
  imports Ledger_Replay
begin

text \<open>
  Replay of the segments: a log in which a group may stand twice is replayed once per entry and
  without a conflict, and a recovered hot set that still holds demoted records answers like the
  one in memory.
\<close>

section \<open>Demoted records\<close>

definition tier :: "(string \<rightharpoonup> tracked) \<Rightarrow> cold_file list \<Rightarrow> string \<Rightarrow> tracked option" where
  "tier h cold i = (case h i of Some r \<Rightarrow> Some r | None \<Rightarrow> newest_record i (rev cold))"

text \<open>
  \<open>h\<close> with the cold files \<open>cold\<close> is what memory has, \<open>k\<close> with the published cold files \<open>pub\<close>
  is what the files say: \<open>k\<close> has every record of \<open>h\<close>, and both answer alike.
\<close>

definition agrees :: "cold_file list \<Rightarrow> cold_file list \<Rightarrow> core \<Rightarrow> core \<Rightarrow> bool" where
  "agrees pub cold c d \<longleftrightarrow> snd c = snd d \<and> (\<forall>i. fst c i \<noteq> None \<longrightarrow> fst d i = fst c i)
     \<and> (\<forall>i. tier (fst d) pub i = tier (fst c) cold i)"

definition fits :: "cold_file list \<Rightarrow> core \<Rightarrow> frame \<Rightarrow> bool" where
  "fits cold c fr \<longleftrightarrow> (case fr_body fr of
      Begin i r ss \<Rightarrow> newest_record i (rev cold) = None \<and> list_all (\<lambda>(j, _). fst c j \<noteq> None) ss
    | _ \<Rightarrow> True)"

lemma agrees_set:
  "agrees pub cold (core c) (core d) \<Longrightarrow> agrees pub cold (core (set_record i r c)) (core (set_record i r d))"
  by (auto simp: agrees_def tier_def)

lemma agrees_get: "agrees pub cold (core c) (core d) \<Longrightarrow> pj_records c i = Some r \<Longrightarrow> pj_records d i = Some r"
  by (auto simp: agrees_def)

lemma agrees_facts: "agrees pub cold (core c) (core d) \<Longrightarrow> pj_facts d = pj_facts c"
  by (simp add: agrees_def)

lemma write_facts:
  "pj_facts d = pj_facts c \<Longrightarrow> write_observation p f ob prior d = write_observation p f ob prior c"
  by (simp add: write_observation_def)

lemma agrees_supersede:
  assumes "agrees pub cold (core c) (core d)" and "list_all (\<lambda>(j, _). pj_records c j \<noteq> None) ss"
  shows "agrees pub cold (core (fst (supersede_all p ss c))) (core (fst (supersede_all p ss d)))"
  using assms
proof (induction ss arbitrary: c d)
  case (Cons s ss)
  obtain i ob where s: "s = (i, ob)" by fastforce
  obtain prior where prior: "pj_records c i = Some prior" "pj_records d i = Some prior"
    using Cons.prems agrees_get by (auto simp: s)
  let ?r = "fst (write_observation p (\<lambda>r. r\<lparr>tk_state := ''superseded''\<rparr>) ob prior c)"
  have "list_all (\<lambda>(j, _). pj_records (set_record i ?r c) j \<noteq> None) ss"
    using Cons.prems(2) by (auto simp: list_all_iff)
  with Cons.IH [OF agrees_set [OF Cons.prems(1), of i ?r]]
  show ?case by (simp add: s prior write_facts [OF agrees_facts [OF Cons.prems(1)]] case_prod_unfold Let_def)
qed simp

lemma agrees_apply:
  assumes c: "applyFrame fr c = Inr (c', es)" and d: "agrees pub cold (core c) (core d)" and fit: "fits cold (core c) fr"
  shows "\<exists>d' fs. applyFrame fr d = Inr (d', fs) \<and> agrees pub cold (core c') (core d')"
proof -
  note w = write_facts [OF agrees_facts [OF d]]
  show ?thesis
  proof (cases "fr_body fr")
    case (Begin i r ss)
    have n: "pj_records c i = None" using c by (cases "pj_records c i") (simp_all add: applyFrame_def Begin)
    have "newest_record i (rev cold) = None" and ss: "list_all (\<lambda>(j, _). pj_records c j \<noteq> None) ss"
      using fit by (simp_all add: fits_def Begin)
    moreover have "tier (pj_records d) pub i = tier (pj_records c) cold i" using d by (simp add: agrees_def)
    ultimately have nd: "pj_records d i = None" using n by (simp add: tier_def split: option.splits)
    show ?thesis
      using c agrees_set [OF agrees_supersede [OF d ss]] n nd
      by (auto simp: applyFrame_def Begin Let_def case_prod_unfold simp del: core_def)
  next
    case (Obs i ob)
    show ?thesis
      using c agrees_get [OF d] agrees_set [OF d]
      by (cases "pj_records c i") (auto simp: applyFrame_def Obs Let_def case_prod_unfold w)
  next
    case (State i st ob)
    show ?thesis
      using c agrees_get [OF d] agrees_set [OF d]
      by (cases "pj_records c i") (auto simp: applyFrame_def State Let_def case_prod_unfold w split: if_splits)
  next
    case (Reheat i r)
    then show ?thesis using c agrees_set [OF d] by (auto simp: applyFrame_def Let_def)
  next
    case (Fact scope sid ob)
    then show ?thesis using c d by (auto simp: applyFrame_def Let_def agrees_def)
  next
    case (Iact a p)
    then show ?thesis using c d by (auto simp: applyFrame_def Let_def agrees_def)
  next
    case (UnknownFrame k)
    then show ?thesis using c by (simp add: applyFrame_def Let_def)
  qed
qed

lemma agrees_step:
  assumes "step_core fr c = Some c'" and "agrees pub cold c d" and "fits cold c fr"
  shows "\<exists>d'. step_core fr d = Some d' \<and> agrees pub cold c' d'"
proof -
  obtain x es where x: "applyFrame fr (of_core c) = Inr (x, es)" "core x = c'"
    using step_coreD [of fr "of_core c" c'] assms(1) by auto
  obtain d' fs where "applyFrame fr (of_core d) = Inr (d', fs)" "agrees pub cold (core x) (core d')"
    using agrees_apply [OF x(1), of pub cold "of_core d"] assms(2,3) by auto
  then show ?thesis using apply_core [of fr "of_core d" d' fs] x(2) by auto
qed

section \<open>Entries once\<close>

fun uniq_after :: "'a set \<Rightarrow> 'a list \<Rightarrow> 'a list" where
  "uniq_after A [] = []"
| "uniq_after A (x # xs) = (if x \<in> A then uniq_after A xs else x # uniq_after (insert x A) xs)"

abbreviation uniq :: "'a list \<Rightarrow> 'a list" where
  "uniq \<equiv> uniq_after {}"

lemma uniq_after_append: "uniq_after A (xs @ ys) = uniq_after A xs @ uniq_after (A \<union> set xs) ys"
  by (induction xs arbitrary: A) (auto simp: insert_absorb)

lemma set_uniq_after: "set (uniq_after A xs) = set xs - A"
  by (induction xs arbitrary: A) auto

lemma uniq_after_covered: "set xs \<subseteq> A \<Longrightarrow> uniq_after A xs = []"
  by (induction xs) auto

lemma uniq_after_new: "distinct xs \<Longrightarrow> set xs \<inter> A = {} \<Longrightarrow> uniq_after A xs = xs"
  by (induction xs arbitrary: A) auto

lemma distinct_uniq_after: "distinct (uniq_after A xs)"
  by (induction xs arbitrary: A) (auto simp: set_uniq_after)

section \<open>The hot set in memory\<close>

lemma setHot_get [simp]: "map_of (os_hot (setHot env i r S)) = (map_of (os_hot S))(i \<mapsto> r)"
  by (auto simp: setHot_def Let_def fun_eq_iff split: option.splits)

lemma setHot_distinct: "distinct (map fst (os_hot S)) \<Longrightarrow> distinct (map fst (os_hot (setHot env i r S)))"
  by (auto simp: setHot_def Let_def intro: distinct_jm_set split: option.splits)

text \<open>What neither the hot set nor a replayed entry touches.\<close>

definition rest_of where
  "rest_of S = (os_state S, os_reason S, os_epoch S, os_seq_next S, os_manifest S, os_cold S, os_receipt_ckpts S, os_segments S,
     os_seg S, os_checkpoint_n S, os_checkpoint_pos S, os_alloc_hot S, os_alloc_cold S, os_group S, os_live S, os_closing S,
     os_possibly_durable S)"

lemma setHot_rest [simp]:
  "rest_of (setHot env i r S) = rest_of S"
  "os_facts (setHot env i r S) = os_facts S" "os_applied (setHot env i r S) = os_applied S"
  "os_txn_hash (setHot env i r S) = os_txn_hash S" "os_receipts (setHot env i r S) = os_receipts S"
  "os_seq_committed (setHot env i r S) = os_seq_committed S"
  by (auto simp: setHot_def rest_of_def Let_def split: option.splits)

lemma set_actions_rest [simp]:
  "rest_of (set_actions as S) = rest_of S" "os_hot (set_actions as S) = os_hot S"
  "os_facts (set_actions as S) = os_facts S" "os_applied (set_actions as S) = os_applied S"
  "os_txn_hash (set_actions as S) = os_txn_hash S" "os_receipts (set_actions as S) = os_receipts S"
  "os_seq_committed (set_actions as S) = os_seq_committed S"
proof -
  have "rest_of (set_actions as S) = rest_of S \<and> os_hot (set_actions as S) = os_hot S
    \<and> os_facts (set_actions as S) = os_facts S \<and> os_applied (set_actions as S) = os_applied S
    \<and> os_txn_hash (set_actions as S) = os_txn_hash S \<and> os_receipts (set_actions as S) = os_receipts S
    \<and> os_seq_committed (set_actions as S) = os_seq_committed S"
    unfolding set_actions_def by (induction as arbitrary: S) (auto simp: rest_of_def)
  then show "rest_of (set_actions as S) = rest_of S" "os_hot (set_actions as S) = os_hot S"
    "os_facts (set_actions as S) = os_facts S" "os_applied (set_actions as S) = os_applied S"
    "os_txn_hash (set_actions as S) = os_txn_hash S" "os_receipts (set_actions as S) = os_receipts S"
    "os_seq_committed (set_actions as S) = os_seq_committed S"
    by simp_all
qed

abbreviation entry_pos :: "log_entry \<Rightarrow> lpos" where
  "entry_pos e \<equiv> fr_pos (le_frame e)"

lemma rest_of_updates [simp]:
  "rest_of (S\<lparr>os_facts := fs\<rparr>) = rest_of S" "rest_of (S\<lparr>os_receipts := rs\<rparr>) = rest_of S"
  "rest_of (S\<lparr>os_frames_since := n\<rparr>) = rest_of S" "rest_of (S\<lparr>os_seq_committed := n\<rparr>) = rest_of S"
  by (simp_all add: rest_of_def)

lemma note_hash_rest [simp]:
  "rest_of (note_hash e h S) = rest_of S" "os_hot (note_hash e h S) = os_hot S" "os_facts (note_hash e h S) = os_facts S"
  "os_applied (note_hash e h S) = insert (entry_pos e) (os_applied S)"
  "le_txn e \<noteq> [] \<Longrightarrow> os_txn_hash (note_hash e h S) = (os_txn_hash S)(TxnKey (le_txn e) \<mapsto> h, PosKey (entry_pos e) \<mapsto> h)"
  by (simp_all add: note_hash_def rest_of_def)

abbreviation write_hots :: "owner_env \<Rightarrow> projection \<Rightarrow> effect list \<Rightarrow> owner \<Rightarrow> owner" where
  "write_hots env c \<equiv> fold (\<lambda>x S. case pj_records c (ef_id x) of None \<Rightarrow> S | Some r \<Rightarrow> setHot env (ef_id x) r S)"

lemma set_hots:
  assumes "\<forall>e \<in> set es. pj_records c (ef_id e) \<noteq> None" and "distinct (map fst (os_hot S))"
  shows "map_of (os_hot (write_hots env c es S)) = (\<lambda>i. if i \<in> ef_id ` set es then pj_records c i else map_of (os_hot S) i)
    \<and> distinct (map fst (os_hot (write_hots env c es S))) \<and> rest_of (write_hots env c es S) = rest_of S
    \<and> os_facts (write_hots env c es S) = os_facts S \<and> os_applied (write_hots env c es S) = os_applied S
    \<and> os_txn_hash (write_hots env c es S) = os_txn_hash S"
  using assms
proof (induction es arbitrary: S)
  case (Cons e es)
  then obtain r where r: "pj_records c (ef_id e) = Some r" by auto
  have "\<forall>e \<in> set es. pj_records c (ef_id e) \<noteq> None" using Cons.prems(1) by simp
  note IH = Cons.IH [OF this setHot_distinct [OF Cons.prems(2)], of env "ef_id e" r]
  then show ?case by (auto simp: fun_eq_iff r)
qed simp

section \<open>Replaying entries\<close>

text \<open>An entry is known by its position and by its transaction.\<close>

definition coherent :: "log_entry set \<Rightarrow> bool" where
  "coherent U \<longleftrightarrow> (\<forall>e \<in> U. le_txn e \<noteq> [] \<and> (\<forall>e' \<in> U. entry_pos e = entry_pos e' \<or> le_txn e = le_txn e' \<longrightarrow> e = e'))"

lemma coherent_mono: "coherent U \<Longrightarrow> V \<subseteq> U \<Longrightarrow> coherent V"
  unfolding coherent_def by blast

definition past :: "lpos \<Rightarrow> log_entry list \<Rightarrow> frame list" where
  "past p es = map le_frame (filter (\<lambda>e. \<not> comparePos (entry_pos e) p \<le> 0) es)"

lemma past_simps [simp]: "past p [] = []" "past p (xs @ ys) = past p xs @ past p ys"
  by (simp_all add: past_def)

definition replayed :: "owner_env \<Rightarrow> lpos \<Rightarrow> core \<Rightarrow> log_entry list \<Rightarrow> owner \<Rightarrow> bool" where
  "replayed env p c0 prev S \<longleftrightarrow> os_checkpoint_pos S = p
     \<and> play (past p prev) c0 = Some (map_of (os_hot S), os_facts S)
     \<and> os_applied S = entry_pos ` set prev
     \<and> (\<forall>e \<in> set prev. os_txn_hash S (TxnKey (le_txn e)) = Some (snd (stamp env e)))
     \<and> (\<forall>t. os_txn_hash S (TxnKey t) \<noteq> None \<longrightarrow> (\<exists>e \<in> set prev. le_txn e = t))
     \<and> distinct (map fst (os_hot S))"

lemma replayed_cong:
  assumes "os_checkpoint_pos S' = os_checkpoint_pos S" "os_hot S' = os_hot S" "os_facts S' = os_facts S"
    "os_applied S' = os_applied S" "os_txn_hash S' = os_txn_hash S"
  shows "replayed env p c0 prev S' = replayed env p c0 prev S"
  using assms by (simp add: replayed_def)

lemma replay_entry_ok:
  assumes coh: "coherent (insert e (set prev))" and inv: "replayed env p c0 prev S"
    and play: "play (past p (prev @ uniq_after (set prev) [e])) c0 = Some c"
  shows "\<exists>S'. replay_entry env me (fst (stamp env e)) (snd (stamp env e)) S = Inr S'
    \<and> replayed env p c0 (prev @ uniq_after (set prev) [e]) S' \<and> rest_of S' = rest_of S"
proof -
  have txn: "le_txn e \<noteq> []" using coh by (simp add: coherent_def)
  have known: "seen e S \<longleftrightarrow> e \<in> set prev"
  proof
    assume "seen e S"
    then obtain e' where "e' \<in> set prev" "entry_pos e = entry_pos e' \<or> le_txn e = le_txn e'"
      using inv by (auto simp: seen_def replayed_def)
    then show "e \<in> set prev" using coh by (auto simp: coherent_def)
  next
    assume "e \<in> set prev"
    then show "seen e S" using inv by (auto simp: seen_def replayed_def)
  qed
  show ?thesis
  proof (cases "e \<in> set prev")
    case True
    then have "prior_hash e S = Some (snd (stamp env e))" using inv by (simp add: prior_hash_def replayed_def)
    then show ?thesis using True known inv by (simp add: replay_entry_def stamp_def)
  next
    case False
    have hashes: "replayed env p c0 (prev @ [e]) S'"
      if "os_applied S' = insert (entry_pos e) (os_applied S)" "os_checkpoint_pos S' = os_checkpoint_pos S"
        "os_txn_hash S' = (os_txn_hash S)(TxnKey (le_txn e) \<mapsto> snd (stamp env e), PosKey (entry_pos e) \<mapsto> snd (stamp env e))"
        "play (past p (prev @ [e])) c0 = Some (map_of (os_hot S'), os_facts S')" "distinct (map fst (os_hot S'))" for S'
    proof -
      have "le_txn e' \<noteq> le_txn e" if "e' \<in> set prev" for e' using that False coh by (auto simp: coherent_def)
      then show ?thesis using inv that by (auto simp: replayed_def)
    qed
    show ?thesis
    proof (cases "comparePos (entry_pos e) (os_checkpoint_pos S) \<le> 0")
      case True
      then have "play (past p (prev @ [e])) c0 = Some (map_of (os_hot S), os_facts S)"
        using inv by (simp add: replayed_def past_def)
      then have "replayed env p c0 (prev @ [e]) (note_hash e (snd (stamp env e)) S)"
        using inv txn by (intro hashes) (simp_all add: note_hash_def replayed_def)
      then show ?thesis using True False known
        by (simp add: replay_entry_def stamp_def Let_def)
    next
      case later: False
      have p: "os_checkpoint_pos S = p" and pl: "play (past p prev) c0 = Some (core (committed S))"
        using inv by (simp_all add: replayed_def committed_def core_def)
      have "past p (prev @ [e]) = past p prev @ [le_frame e]" using later p by (simp add: past_def)
      then obtain d where "play (past p prev) c0 = Some d" "play [le_frame e] d = Some c"
        using play False play_prefix [of "past p prev" "[le_frame e]" c0 c] by (metis append.simps(1) uniq_after.simps)
      then have "step_core (le_frame e) (core (committed S)) = Some c"
        using pl by (cases "step_core (le_frame e) d") simp_all
      then obtain c' es where app: "applyFrame (le_frame e) (committed S) = Inr (c', es)" "core c' = c"
        using step_coreD by blast
      define S1 where "S1 = write_hots env c' es S"
      have w: "\<forall>i. i \<notin> ef_id ` set es \<longrightarrow> pj_records c' i = map_of (os_hot S) i" "\<forall>x \<in> set es. pj_records c' (ef_id x) \<noteq> None"
        using apply_writes [OF app(1)] by (simp_all add: committed_def)
      have "distinct (map fst (os_hot S))" using inv by (simp add: replayed_def)
      note S1 = set_hots [OF w(2) this, of env, folded S1_def]
      have hot: "map_of (os_hot S1) = pj_records c'" using S1 w(1) by auto
      obtain S' where S': "replay_entry env me (fst (stamp env e)) (snd (stamp env e)) S = Inr S'"
        "os_hot S' = os_hot S1" "os_facts S' = pj_facts c'" "os_applied S' = insert (entry_pos e) (os_applied S1)"
        "os_txn_hash S' = (os_txn_hash S1)(TxnKey (le_txn e) \<mapsto> snd (stamp env e), PosKey (entry_pos e) \<mapsto> snd (stamp env e))"
        "rest_of S' = rest_of S1"
        using False known later app(1) txn unfolding S1_def
        by (simp add: replay_entry_def stamp_def Let_def)
      have "play (past p (prev @ [e])) c0 = Some (map_of (os_hot S'), os_facts S')"
        using play False S' hot app(2) by (simp add: core_def)
      then have "replayed env p c0 (prev @ [e]) S'"
        using S' S1 by (intro hashes) (simp_all add: rest_of_def)
      then show ?thesis using S' S1 False by simp
    qed
  qed
qed

lemma replay_entries_ok:
  assumes "coherent (set xs \<union> set prev)" and "replayed env p c0 prev S"
    and "play (past p (prev @ uniq_after (set prev) xs)) c0 = Some c"
  shows "\<exists>S'. replay_entries env me (map (stamp env) xs) S = Inr S'
    \<and> replayed env p c0 (prev @ uniq_after (set prev) xs) S' \<and> rest_of S' = rest_of S"
  using assms
proof (induction xs arbitrary: prev S)
  case (Cons x xs)
  let ?prev = "prev @ uniq_after (set prev) [x]"
  have set: "set ?prev = insert x (set prev)" by auto
  have split: "prev @ uniq_after (set prev) (x # xs) = ?prev @ uniq_after (set ?prev) xs"
    unfolding set by (simp add: insert_absorb)
  obtain d where d: "play (past p ?prev) c0 = Some d"
    using Cons.prems(3) play_prefix unfolding split past_simps by metis
  have coh: "coherent (insert x (set prev))" "coherent (set xs \<union> set ?prev)"
    by (rule coherent_mono [OF Cons.prems(1)], use set in auto)+
  obtain S1 where S1: "replay_entry env me (fst (stamp env x)) (snd (stamp env x)) S = Inr S1"
    "replayed env p c0 ?prev S1" "rest_of S1 = rest_of S"
    using replay_entry_ok [OF coh(1) Cons.prems(2) d] by blast
  obtain S2 where "replay_entries env me (map (stamp env) xs) S1 = Inr S2"
    "replayed env p c0 (?prev @ uniq_after (set ?prev) xs) S2" "rest_of S2 = rest_of S1"
    using Cons.IH [OF coh(2) S1(2)] Cons.prems(3) unfolding split by blast
  moreover have "map (stamp env) (x # xs) = (fst (stamp env x), snd (stamp env x)) # map (stamp env) xs" by simp
  ultimately show ?case using S1 unfolding split by (simp only: replay_entries.simps sum.case) blast
qed simp

section \<open>Replaying files\<close>

lemma replay_files_ok:
  assumes ok: "env_ok env" and files: "list_all2 (\<lambda>f ws. file_reads env (sf_bytes f) ws) fs wss"
    and "coherent (set (concat (concat wss)) \<union> set prev)" and "replayed env p c0 prev S"
    and "play (past p (prev @ uniq_after (set prev) (concat (concat wss)))) c0 = Some c"
  shows "\<exists>S'. replay_files env me fs (S, lb) = Inr (S', if concat wss = [] then lb else group_text env (last (concat wss)))
    \<and> replayed env p c0 (prev @ uniq_after (set prev) (concat (concat wss))) S'
    \<and> rest_of (S'\<lparr>os_segments := []\<rparr>) = rest_of (S\<lparr>os_segments := []\<rparr>)
    \<and> os_segments S' = os_segments S @ map meta_of fs"
  using files assms(3-)
proof (induction arbitrary: prev S lb rule: list_all2_induct)
  case (Cons f fs ws wss)
  let ?es = "concat ws"
  let ?prev = "prev @ uniq_after (set prev) ?es"
  have set: "set ?prev = set prev \<union> set ?es" by (auto simp: set_uniq_after)
  have split: "prev @ uniq_after (set prev) (concat (concat (ws # wss))) = ?prev @ uniq_after (set ?prev) (concat (concat wss))"
    unfolding set by (simp add: uniq_after_append)
  have coh: "coherent (set ?es \<union> set prev)" "coherent (set (concat (concat wss)) \<union> set ?prev)"
    by (rule coherent_mono [OF Cons.prems(1)], use set in auto)+
  obtain d where d: "play (past p ?prev) c0 = Some d"
    using Cons.prems(3) play_prefix unfolding split past_simps by metis
  obtain S1 where S1: "replay_entries env me (map (stamp env) ?es) S = Inr S1" "replayed env p c0 ?prev S1" "rest_of S1 = rest_of S"
    using replay_entries_ok [OF coh(1) Cons.prems(2) d] by blast
  let ?lb = "if ws = [] then lb else group_text env (last ws)"
  obtain u v where f: "replay_file env me f (S, lb) =
      Inr (S1\<lparr>os_unapplied := u, os_unapplied_txns := v, os_segments := os_segments S1 @ [meta_of f]\<rparr>, ?lb)"
    using replay_file_reads [OF ok Cons.hyps(1), of me S lb] S1(1) by auto
  let ?S2 = "S1\<lparr>os_unapplied := u, os_unapplied_txns := v, os_segments := os_segments S1 @ [meta_of f]\<rparr>"
  have "replayed env p c0 ?prev ?S2" using S1(2) by (simp add: replayed_def)
  from Cons.IH [OF coh(2) this, of ?lb] Cons.prems(3)
  obtain S' where S': "replay_files env me fs (?S2, ?lb) =
      Inr (S', if concat wss = [] then ?lb else group_text env (last (concat wss)))"
    "replayed env p c0 (?prev @ uniq_after (set ?prev) (concat (concat wss))) S'"
    "rest_of (S'\<lparr>os_segments := []\<rparr>) = rest_of (?S2\<lparr>os_segments := []\<rparr>)"
    "os_segments S' = os_segments ?S2 @ map meta_of fs"
    unfolding split by blast
  have seg: "os_segments S1 = os_segments S" using S1(3) by (simp add: rest_of_def)
  show ?case
  proof (intro exI [of _ S'] conjI)
    show "replay_files env me (f # fs) (S, lb) =
        Inr (S', if concat (ws # wss) = [] then lb else group_text env (last (concat (ws # wss))))"
      using f S'(1) by auto
    show "replayed env p c0 (prev @ uniq_after (set prev) (concat (concat (ws # wss)))) S'" unfolding split by (rule S'(2))
    show "rest_of (S'\<lparr>os_segments := []\<rparr>) = rest_of (S\<lparr>os_segments := []\<rparr>)"
      using S'(3) S1(3) by (simp add: rest_of_def)
    show "os_segments S' = os_segments S @ map meta_of (f # fs)" using S'(4) seg by simp
  qed
qed simp

end
