(* ===== verification/Ledger_Writes.thy ===== *)
theory Ledger_Writes
  imports Ledger_Recovery
begin

text \<open>
  Writing a group to the segments, with a failure at any call: what the files may be read as
  afterwards. A file is known by its whole groups and by the group that was last attempted in it.
\<close>

section \<open>Files and their readings\<close>

type_synonym file_note = "log_entry list list \<times> log_entry list option"

definition holds :: "owner_env \<Rightarrow> segment_file \<Rightarrow> file_note \<Rightarrow> bool" where
  "holds env f a \<longleftrightarrow> length (groups_text env (fst a)) \<le> sf_synced f \<and> sf_synced f \<le> length (sf_bytes f)
     \<and> (\<exists>g k. sf_bytes f = groups_text env (fst a) @ take k (group_text env g)
          \<and> (case snd a of None \<Rightarrow> k < length (group_text env g) | Some g' \<Rightarrow> g = g'))"

definition readings :: "file_note \<Rightarrow> log_entry list list set" where
  "readings a = (case snd a of None \<Rightarrow> {fst a} | Some g \<Rightarrow> {fst a, fst a @ [g]})"

definition noted :: "file_note list \<Rightarrow> log_entry set" where
  "noted as = (\<Union>a \<in> set as. set (concat (fst a)) \<union> (case snd a of None \<Rightarrow> {} | Some g \<Rightarrow> set g))"

text \<open>The logs that a list of files may be read as.\<close>

definition logs :: "file_note list \<Rightarrow> log_entry list set" where
  "logs as = {concat (concat wss) | wss. list_all2 (\<lambda>a ws. ws \<in> readings a) as wss}"

lemma noted_simps [simp]:
  "noted [] = {}" "noted (as @ bs) = noted as \<union> noted bs" "noted [(ws, None)] = set (concat ws)"
  "noted [(ws, Some g)] = set (concat ws) \<union> set g"
  by (auto simp: noted_def)

lemma logs_Nil [simp]: "logs [] = {[]}"
  by (auto simp: logs_def)

lemma logs_append: "logs (as @ bs) = {x @ y | x y. x \<in> logs as \<and> y \<in> logs bs}"
proof (intro set_eqI iffI)
  fix l assume "l \<in> logs (as @ bs)"
  then obtain us vs where "list_all2 (\<lambda>a ws. ws \<in> readings a) as us" "list_all2 (\<lambda>a ws. ws \<in> readings a) bs vs"
    "l = concat (concat (us @ vs))" by (auto simp: logs_def list_all2_append1)
  then show "l \<in> {x @ y | x y. x \<in> logs as \<and> y \<in> logs bs}" by (auto simp: logs_def)
next
  fix l assume "l \<in> {x @ y | x y. x \<in> logs as \<and> y \<in> logs bs}"
  then obtain us vs where "list_all2 (\<lambda>a ws. ws \<in> readings a) as us" "list_all2 (\<lambda>a ws. ws \<in> readings a) bs vs"
    "l = concat (concat us) @ concat (concat vs)" by (auto simp: logs_def)
  then show "l \<in> logs (as @ bs)" unfolding logs_def
    by (intro CollectI exI [of _ "us @ vs"]) (simp add: list_all2_appendI)
qed

lemma logs_single: "logs [a] = concat ` readings a"
proof (intro set_eqI iffI)
  fix l assume "l \<in> logs [a]"
  then show "l \<in> concat ` readings a" by (auto simp: logs_def list_all2_Cons1)
next
  fix l assume "l \<in> concat ` readings a"
  then obtain z where "z \<in> readings a" "l = concat (concat [z])" by auto
  then show "l \<in> logs [a]" unfolding logs_def by (intro CollectI exI [of _ "[z]"]) simp
qed

lemma logs_one [simp]: "logs [(ws, None)] = {concat ws}" "logs [(ws, Some g)] = {concat ws, concat ws @ g}"
  by (simp_all add: logs_single readings_def)

lemma logs_noted: "l \<in> logs as \<Longrightarrow> set l \<subseteq> noted as"
proof (induction as arbitrary: l)
  case (Cons a as)
  obtain x y where "l = x @ y" "x \<in> logs [a]" "y \<in> logs as"
    using Cons.prems logs_append [of "[a]" as] by auto
  moreover have "set x \<subseteq> noted [a]"
    using \<open>x \<in> logs [a]\<close> by (cases a; cases "snd a") auto
  ultimately show ?case using Cons.IH [of y] noted_simps(2) [of "[a]" as] by auto
qed simp

text \<open>After a crash a file is read as one of its readings, and holds exactly that.\<close>

lemma holds_kept:
  assumes "holds env f a"
  shows "\<exists>ws \<in> readings a. holds env (keep_bytes k f) (ws, None) \<and> file_reads env (sf_bytes (keep_bytes k f)) ws"
proof -
  obtain g m where bytes: "sf_bytes f = groups_text env (fst a) @ take m (group_text env g)"
    and p: "case snd a of None \<Rightarrow> m < length (group_text env g) | Some g' \<Rightarrow> g = g'"
    and len: "length (groups_text env (fst a)) \<le> sf_synced f"
    using assms by (auto simp: holds_def)
  define j where "j = min (max (sf_synced f) k - length (groups_text env (fst a))) m"
  have kept: "sf_bytes (keep_bytes k f) = groups_text env (fst a) @ take j (group_text env g)"
    using len by (simp add: keep_bytes_def Let_def bytes j_def min.commute)
  have synced: "sf_synced (keep_bytes k f) = length (sf_bytes (keep_bytes k f))" by (simp add: keep_bytes_def Let_def)
  show ?thesis
  proof (cases "j < length (group_text env g)")
    case True
    then have "holds env (keep_bytes k f) (fst a, None)" using kept synced by (auto simp: holds_def)
    moreover have "file_reads env (sf_bytes (keep_bytes k f)) (fst a)" unfolding kept using True by (rule file_reads_torn)
    moreover have "fst a \<in> readings a" by (simp add: readings_def split: option.split)
    ultimately show ?thesis by blast
  next
    case False
    then have "snd a = Some g" using p by (cases "snd a") (auto simp: j_def)
    then have "fst a @ [g] \<in> readings a" by (simp add: readings_def)
    moreover have whole: "sf_bytes (keep_bytes k f) = groups_text env (fst a @ [g])" using kept False by simp
    moreover have "holds env (keep_bytes k f) (fst a @ [g], None)"
      using whole synced unfolding holds_def by (auto intro!: exI [of _ "[]"] exI [of _ 0])
    ultimately show ?thesis by (metis file_reads_whole)
  qed
qed

section \<open>The segments of an owner\<close>

abbreviation file_key :: "segment_file \<Rightarrow> int \<times> int" where
  "file_key f \<equiv> (sf_epoch f, sf_n f)"

definition segs_ok :: "owner_env \<Rightarrow> world \<Rightarrow> file_note list \<Rightarrow> bool" where
  "segs_ok env w as \<longleftrightarrow> list_all2 (holds env) (dk_segments (w_disk w)) as
     \<and> sorted_wrt (<) (map file_key (dk_segments (w_disk w)))
     \<and> (\<forall>f \<in> set (dk_segments (w_disk w)). sf_epoch f \<le> os_epoch (w_mem w)
          \<and> file_key f \<in> (\<lambda>m. (sm_epoch m, sm_n m)) ` set (os_segments (w_mem w)))"

text \<open>The open segment is the last file, and ends with a whole group.\<close>

definition seg_clean :: "owner_env \<Rightarrow> world \<Rightarrow> file_note list \<Rightarrow> bool" where
  "seg_clean env w as \<longleftrightarrow> (case os_seg (w_mem w) of None \<Rightarrow> True
     | Some g \<Rightarrow> \<exists>fs f bs ws. dk_segments (w_disk w) = fs @ [f] \<and> as = bs @ [(ws, None)]
          \<and> file_key f = (sg_epoch g, sg_n g) \<and> sf_bytes f = groups_text env ws)"

text \<open>What writing segments leaves alone.\<close>

definition other :: "world \<Rightarrow> owner \<times> store_disk \<times> owner_post list" where
  "other w = ((w_mem w)\<lparr>os_seg := None, os_segments := []\<rparr>, (w_disk w)\<lparr>dk_segments := []\<rparr>, w_out w)"

definition no_short :: "world \<Rightarrow> bool" where
  "no_short w \<longleftrightarrow> list_all (\<lambda>r. case r of Short _ \<Rightarrow> False | _ \<Rightarrow> True) (w_io w)"

lemma next_io_cases:
  assumes "no_short w"
  obtains (fine) v where "next_io w = (Fine, v)" "no_short v" "w_mem v = w_mem w" "w_disk v = w_disk w" "w_out v = w_out w"
    | (fails) e k v where "next_io w = (Fails e k, v)" "no_short v" "w_mem v = w_mem w" "w_disk v = w_disk w" "w_out v = w_out w"
proof (cases "w_io w")
  case Nil
  then show thesis using fine [of w] assms by (simp add: next_io_def)
next
  case (Cons r rs)
  have short: "no_short (w\<lparr>w_io := rs\<rparr>)" using assms Cons by (simp add: no_short_def)
  show thesis
  proof (cases r)
    case Fine
    then show thesis using fine [of "w\<lparr>w_io := rs\<rparr>"] Cons short by (simp add: next_io_def)
  next
    case (Fails e k)
    then show thesis using fails [of e k "w\<lparr>w_io := rs\<rparr>"] Cons short by (simp add: next_io_def)
  next
    case (Short k)
    then show thesis using assms Cons by (simp add: no_short_def)
  qed
qed

lemma sel_upd [simp]:
  "w_mem (upd f w) = f (w_mem w)" "w_disk (upd f w) = w_disk w" "w_out (upd f w) = w_out w" "w_io (upd f w) = w_io w"
  "w_mem (on_disk h w) = w_mem w" "w_disk (on_disk h w) = h (w_disk w)" "w_out (on_disk h w) = w_out w" "w_io (on_disk h w) = w_io w"
  by (simp_all add: upd_def on_disk_def)

lemma no_short_cong: "w_io v = w_io w \<Longrightarrow> no_short v = no_short w"
  by (simp add: no_short_def)

text \<open>What a log may be read as after one more group was attempted at least \<open>lo\<close> times successfully.\<close>

definition grown :: "nat \<Rightarrow> log_entry list \<Rightarrow> file_note list \<Rightarrow> file_note list \<Rightarrow> bool" where
  "grown lo g as bs \<longleftrightarrow> noted bs \<subseteq> noted as \<union> set g
     \<and> (\<forall>l \<in> logs bs. \<exists>x \<in> logs as. \<exists>m \<ge> lo. l = x @ concat (replicate m g))"

lemma grown_refl: "grown 0 g as as"
  unfolding grown_def by (auto intro!: exI [of _ 0] bexI)

lemma grown_trans:
  assumes "grown a g as bs" "grown b g bs cs"
  shows "grown (max a b) g as cs"
  unfolding grown_def
proof (intro conjI ballI)
  show "noted cs \<subseteq> noted as \<union> set g" using assms by (auto simp: grown_def)
  fix l assume "l \<in> logs cs"
  then obtain y m where y: "y \<in> logs bs" "m \<ge> b" "l = y @ concat (replicate m g)" using assms(2) by (auto simp: grown_def)
  then obtain x n where "x \<in> logs as" "n \<ge> a" "y = x @ concat (replicate n g)" using assms(1) by (auto simp: grown_def)
  with y show "\<exists>x \<in> logs as. \<exists>k \<ge> max a b. l = x @ concat (replicate k g)"
    by (intro bexI [of _ x] exI [of _ "n + m"]) (auto simp: replicate_add)
qed

lemma grown_empty_file: "grown 0 g as (as @ [([], None)])"
  unfolding grown_def by (auto simp: logs_append intro!: exI [of _ 0] bexI)

lemma grown_attempt: "grown 0 g (as @ [(ws, None)]) (as @ [(ws, Some g)])"
  unfolding grown_def
proof (intro conjI ballI)
  fix l assume "l \<in> logs (as @ [(ws, Some g)])"
  then obtain x where x: "x \<in> logs as" "l = x @ concat ws \<or> l = x @ concat ws @ g" by (auto simp: logs_append)
  have "x @ concat ws \<in> logs (as @ [(ws, None)])" using x(1) by (auto simp: logs_append)
  then show "\<exists>y \<in> logs (as @ [(ws, None)]). \<exists>m \<ge> 0. l = y @ concat (replicate m g)"
    using x(2) by (elim disjE) (force intro!: bexI exI [of _ 0], force intro!: bexI exI [of _ 1])
qed auto

lemma grown_written: "grown 1 g (as @ [(ws, None)]) (as @ [(ws @ [g], None)])"
  unfolding grown_def
proof (intro conjI ballI)
  fix l assume "l \<in> logs (as @ [(ws @ [g], None)])"
  then obtain x where x: "x \<in> logs as" "l = x @ concat ws @ g" by (auto simp: logs_append)
  have "x @ concat ws \<in> logs (as @ [(ws, None)])" using x(1) by (auto simp: logs_append)
  then show "\<exists>y \<in> logs (as @ [(ws, None)]). \<exists>m \<ge> 1. l = y @ concat (replicate m g)"
    using x(2) by (force intro!: bexI exI [of _ 1])
qed auto

section \<open>Opening a segment\<close>

lemma nextSegmentN_above:
  assumes "m \<in> set (os_segments S)" "sm_epoch m = os_epoch S"
  shows "sm_n m < nextSegmentN S"
proof -
  have "k \<le> fold (\<lambda>m k. max k (sm_n m)) ms k \<and> (\<forall>m \<in> set ms. sm_n m \<le> fold (\<lambda>m k. max k (sm_n m)) ms k)" for ms k
    by (induction ms arbitrary: k) (auto, (meson max.boundedE)+)
  moreover have "m \<in> set (filter (\<lambda>m. sm_epoch m = os_epoch S) (os_segments S))" using assms by simp
  ultimately have "sm_n m \<le> fold (\<lambda>m k. max k (sm_n m)) (filter (\<lambda>m. sm_epoch m = os_epoch S) (os_segments S)) 0" by blast
  then show ?thesis by (simp add: nextSegmentN_def)
qed

lemma next_segment_new:
  assumes "segs_ok env w as" "f \<in> set (dk_segments (w_disk w))"
  shows "file_key f < (os_epoch (w_mem w), nextSegmentN (w_mem w))"
proof -
  obtain m where m: "m \<in> set (os_segments (w_mem w))" "file_key f = (sm_epoch m, sm_n m)" and le: "sf_epoch f \<le> os_epoch (w_mem w)"
    using assms by (auto simp: segs_ok_def)
  then show ?thesis using nextSegmentN_above [OF m(1)] by (cases "sf_epoch f = os_epoch (w_mem w)") auto
qed

lemma holds_fresh: "holds env \<lparr>sf_epoch = e, sf_n = n, sf_bytes = [], sf_synced = 0\<rparr> ([], None)"
  unfolding holds_def by (auto intro!: exI [of _ "[]"] exI [of _ 0])

lemma segs_ok_cong:
  assumes "dk_segments (w_disk v) = dk_segments (w_disk w)" "os_epoch (w_mem v) = os_epoch (w_mem w)"
    "(\<lambda>m. (sm_epoch m, sm_n m)) ` set (os_segments (w_mem v)) = (\<lambda>m. (sm_epoch m, sm_n m)) ` set (os_segments (w_mem w))"
  shows "segs_ok env v as = segs_ok env w as"
  using assms by (simp add: segs_ok_def)

lemma seg_clean_cong:
  assumes "dk_segments (w_disk v) = dk_segments (w_disk w)" "os_seg (w_mem v) = os_seg (w_mem w)"
  shows "seg_clean env v as = seg_clean env w as"
  unfolding seg_clean_def assms ..

lemma list_all2_snoc [simp]: "list_all2 P (xs @ [x]) (ys @ [y]) \<longleftrightarrow> list_all2 P xs ys \<and> P x y"
proof
  assume "list_all2 P (xs @ [x]) (ys @ [y])"
  then show "list_all2 P xs ys \<and> P x y" by (auto simp: list_all2_append1 list_all2_Cons1)
qed (simp add: list_all2_appendI)

definition opened :: "int \<Rightarrow> int \<Rightarrow> world \<Rightarrow> world" where
  "opened e n w = upd (\<lambda>S. S\<lparr>os_seg := Some \<lparr>sg_epoch = e, sg_n = n, sg_bytes = 0\<rparr>,
     os_segments := os_segments S @ [\<lparr>sm_epoch = e, sm_n = n, sm_closed = False\<rparr>]\<rparr>) (on_disk (create_segment e n) w)"

lemma opened_ok:
  assumes ok: "segs_ok env w as" and new: "\<forall>f \<in> set (dk_segments (w_disk w)). file_key f < (e, n)" and e: "e = os_epoch (w_mem w)"
  shows "segs_ok env (opened e n w) (as @ [([], None)]) \<and> seg_clean env (opened e n w) (as @ [([], None)])
     \<and> other (opened e n w) = other w \<and> w_io (opened e n w) = w_io w \<and> os_seg (w_mem (opened e n w)) \<noteq> None"
proof -
  let ?f = "\<lparr>sf_epoch = e, sf_n = n, sf_bytes = [], sf_synced = 0\<rparr>"
  have "\<not> list_ex (is_segment e n) (dk_segments (w_disk w))" using new by (auto simp: list_ex_iff is_segment_def)
  then have d: "dk_segments (w_disk (opened e n w)) = dk_segments (w_disk w) @ [?f]"
    by (simp add: opened_def create_segment_def)
  have rest: "create_segment e n (w_disk w)\<lparr>dk_segments := []\<rparr> = (w_disk w)\<lparr>dk_segments := []\<rparr>"
    by (simp add: create_segment_def)
  have m: "os_segments (w_mem (opened e n w)) = os_segments (w_mem w) @ [\<lparr>sm_epoch = e, sm_n = n, sm_closed = False\<rparr>]"
    "os_epoch (w_mem (opened e n w)) = os_epoch (w_mem w)"
    "os_seg (w_mem (opened e n w)) = Some \<lparr>sg_epoch = e, sg_n = n, sg_bytes = 0\<rparr>" by (simp_all add: opened_def)
  have "segs_ok env (opened e n w) (as @ [([], None)])"
    using ok new e holds_fresh [of env e n] unfolding segs_ok_def d m
    by (auto simp: sorted_wrt_append)
  moreover have "seg_clean env (opened e n w) (as @ [([], None)])"
    unfolding seg_clean_def d m by simp
  ultimately show ?thesis using rest m(3) by (simp add: other_def opened_def)
qed

definition wrote :: "owner_env \<Rightarrow> world \<Rightarrow> string option \<Rightarrow> world \<Rightarrow> file_note list \<Rightarrow> bool" where
  "wrote env w r v as \<longleftrightarrow> segs_ok env v as \<and> other v = other w \<and> no_short v \<and> (r = None \<longrightarrow> os_seg (w_mem v) \<noteq> None \<and> seg_clean env v as)"

lemma openSegment_ok:
  assumes ok: "segs_ok env w as" and new: "\<forall>f \<in> set (dk_segments (w_disk w)). file_key f < (e, n)" and e: "e = os_epoch (w_mem w)"
    and io: "no_short w" and shut: "os_seg (w_mem w) = None"
  obtains r v bs where "openSegment e n w = (r, v)" "wrote env w r v bs" "seg_clean env v bs"
    "bs = as \<or> bs = as @ [([], None)]"
proof -
  have open_eq: "openSegment e n = run_steps [call (opened e n), fsyncDir]"
    by (simp add: openSegment_def opened_def [abs_def])
  have keep: "wrote env w r v as \<and> seg_clean env v as"
    if "w_mem v = w_mem w" "w_disk v = w_disk w" "w_out v = w_out w" "no_short v" "r \<noteq> None" for r v
    using that ok shut segs_ok_cong [of v w env as] by (simp add: wrote_def other_def seg_clean_def)
  from io show thesis
  proof (cases rule: next_io_cases)
    case (fails x k v)
    then show thesis using that [of "Some x" v as] keep [of v "Some x"] by (simp add: open_eq call_def)
  next
    case (fine v)
    have v: "segs_ok env v as" "\<forall>f \<in> set (dk_segments (w_disk v)). file_key f < (e, n)" "e = os_epoch (w_mem v)"
      using ok new e fine segs_ok_cong [of v w env as] by simp_all
    let ?o = "opened e n v"
    note o = opened_ok [OF v]
    have io': "no_short ?o" using o fine(2) no_short_cong by blast
    from io' show thesis
    proof (cases rule: next_io_cases)
      case (fails x k u)
      have "wrote env w (Some x) u (as @ [([], None)]) \<and> seg_clean env u (as @ [([], None)])"
        using o fails fine segs_ok_cong [of u ?o env] seg_clean_cong [of u ?o env] by (simp add: wrote_def other_def)
      then show thesis using that [of "Some x" u "as @ [([], None)]"] fine(1) fails(1) by (simp add: open_eq call_def fsyncDir_def)
    next
      case f: (fine u)
      have "wrote env w None u (as @ [([], None)]) \<and> seg_clean env u (as @ [([], None)])"
        using o f fine segs_ok_cong [of u ?o env] seg_clean_cong [of u ?o env] by (simp add: wrote_def other_def)
      then show thesis using that [of None u "as @ [([], None)]"] fine(1) f(1) by (simp add: open_eq call_def fsyncDir_def)
    qed
  qed
qed

section \<open>Appending a group\<close>

lemma at_last_segment:
  assumes "dk_segments d = fs @ [f]" "sorted_wrt (<) (map file_key (fs @ [f]))"
  shows "dk_segments (at_segment (sf_epoch f) (sf_n f) h d) = fs @ [h f]"
proof -
  have "\<not> is_segment (sf_epoch f) (sf_n f) s" if "s \<in> set fs" for s
    using assms(2) that by (auto simp: sorted_wrt_append is_segment_def)
  then have "map (\<lambda>s. if is_segment (sf_epoch f) (sf_n f) s then h s else s) fs = fs" by (simp add: map_idI)
  then show ?thesis by (simp add: at_segment_def assms(1) is_segment_def)
qed

text \<open>The last file is replaced by one with the same key.\<close>

lemma segs_ok_last:
  assumes ok: "segs_ok env w (bs @ [a])" and segs: "dk_segments (w_disk w) = fs @ [f]"
    and v: "dk_segments (w_disk v) = fs @ [f']" "file_key f' = file_key f" "holds env f' a'"
    and mem: "os_epoch (w_mem v) = os_epoch (w_mem w)" "os_segments (w_mem v) = os_segments (w_mem w)"
  shows "segs_ok env v (bs @ [a'])"
proof -
  have "list_all2 (holds env) fs bs" using ok by (simp add: segs_ok_def segs)
  then show ?thesis using ok v mem unfolding segs_ok_def segs by auto
qed

lemma at_segment_rest [simp]: "(at_segment e n h d)\<lparr>dk_segments := []\<rparr> = d\<lparr>dk_segments := []\<rparr>"
  by (simp add: at_segment_def)

lemma append_synced_ok:
  assumes ok: "segs_ok env w as" and clean: "seg_clean env w as" and io: "no_short w" and seg: "os_seg (w_mem w) \<noteq> None"
  obtains r v bs where "append_synced (group_text env g) w = (r, v)" "wrote env w r v bs"
    "grown (if r = None then 1 else 0) g as bs"
proof -
  let ?t = "group_text env g"
  obtain sg fs f bs ws where sg: "os_seg (w_mem w) = Some sg" and segs: "dk_segments (w_disk w) = fs @ [f]"
    and as: "as = bs @ [(ws, None)]" and key: "file_key f = (sg_epoch sg, sg_n sg)" and bytes: "sf_bytes f = groups_text env ws"
    using clean seg by (auto simp: seg_clean_def)
  have sorted: "sorted_wrt (<) (map file_key (fs @ [f]))" using ok segs by (simp add: segs_ok_def)
  have f: "holds env f (ws, None)" using ok by (simp add: segs_ok_def segs as)
  have synced: "sf_synced f = length (groups_text env ws)" using f by (simp add: holds_def bytes)
  have keys: "sg_epoch sg = sf_epoch f" "sg_n sg = sf_n f" using key by simp_all
  define wr where "wr k = on_disk (at_segment (sg_epoch sg) (sg_n sg) (append_bytes (take k ?t)))" for k
  have wr: "dk_segments (w_disk (wr k v)) = fs @ [append_bytes (take k ?t) f]" if "w_disk v = w_disk w" for k v
    using at_last_segment [OF segs sorted] that by (simp add: wr_def keys)
  have torn: "wrote env w (Some x) v (bs @ [(ws, Some g)])"
    if "dk_segments (w_disk v) = fs @ [append_bytes (take k ?t) f]" "w_mem v = w_mem w" "other v = other w" "no_short v" for v x k
  proof -
    have "holds env (append_bytes (take k ?t) f) (ws, Some g)"
      by (auto simp: holds_def append_bytes_def bytes synced)
    from segs_ok_last [OF ok [unfolded as] segs that(1) _ this] that show ?thesis
      by (simp add: wrote_def append_bytes_def)
  qed
  have eq: "append_synced ?t w = run_steps [write_call (length ?t) wr,
      call (on_disk (at_segment (sg_epoch sg) (sg_n sg) sync_bytes)), always (upd (count_bytes ?t))] w"
    by (simp add: append_synced_def sg write_segment_def fsync_segment_def wr_def [abs_def])
  from io show thesis
  proof (cases rule: next_io_cases)
    case (fails x k v)
    let ?v = "wr (min k (length ?t)) v"
    have "wrote env w (Some x) ?v (bs @ [(ws, Some g)])"
      using fails wr by (intro torn) (simp_all add: wr_def other_def no_short_def)
    then show thesis using that [of "Some x" ?v] fails(1) grown_attempt by (simp add: eq write_call_def as)
  next
    case (fine v)
    let ?v = "wr (length ?t) v"
    have v: "dk_segments (w_disk ?v) = fs @ [append_bytes ?t f]" "w_mem ?v = w_mem w" "other ?v = other w" "no_short ?v"
      using fine wr [of v "length ?t"] by (simp_all add: wr_def other_def no_short_def)
    from v(4) show thesis
    proof (cases rule: next_io_cases)
      case (fails x k u)
      have "wrote env w (Some x) u (bs @ [(ws, Some g)])"
        using fails v by (intro torn [where k = "length ?t"]) (simp_all add: other_def)
      then show thesis using that [of "Some x" u] fine(1) fails(1) grown_attempt by (simp add: eq write_call_def call_def as)
    next
      case fine': (fine u)
      let ?f = "sync_bytes (append_bytes ?t f)"
      let ?u = "upd (count_bytes ?t) (on_disk (at_segment (sg_epoch sg) (sg_n sg) sync_bytes) u)"
      have segs': "dk_segments (w_disk u) = fs @ [append_bytes ?t f]" using fine' v by simp
      have "sorted_wrt (<) (map file_key (fs @ [append_bytes ?t f]))" using sorted by (simp add: append_bytes_def)
      from at_last_segment [OF segs' this] have d: "dk_segments (w_disk ?u) = fs @ [?f]"
        by (simp add: keys append_bytes_def)
      have whole: "sf_bytes ?f = groups_text env (ws @ [g])" by (simp add: sync_bytes_def append_bytes_def bytes)
      have key': "file_key ?f = file_key f" by (simp add: sync_bytes_def append_bytes_def)
      have h: "holds env ?f (ws @ [g], None)"
        using whole unfolding holds_def by (auto intro!: exI [of _ "[]"] exI [of _ 0] simp: sync_bytes_def)
      have "segs_ok env ?u (bs @ [(ws @ [g], None)])"
        using fine' v by (intro segs_ok_last [OF ok [unfolded as] segs d key' h]) (simp_all add: count_bytes_def)
      moreover have "seg_clean env ?u (bs @ [(ws @ [g], None)])"
        using d whole key' fine' v by (simp add: seg_clean_def count_bytes_def sg key)
      moreover have "other ?u = other w \<and> no_short ?u \<and> os_seg (w_mem ?u) \<noteq> None"
        using fine' v by (simp add: other_def count_bytes_def no_short_def sg)
      ultimately have "wrote env w None ?u (bs @ [(ws @ [g], None)])" by (simp add: wrote_def)
      then show thesis using that [of None ?u] fine(1) fine'(1) grown_written
        by (simp add: eq write_call_def call_def always_def as)
    qed
  qed
qed

lemma wrote_trans: "wrote env w r v as \<Longrightarrow> wrote env v s u bs \<Longrightarrow> wrote env w s u bs"
  by (simp add: wrote_def)

lemma other_epoch: "other v = other w \<Longrightarrow> os_epoch (w_mem v) = os_epoch (w_mem w)"
  by (simp add: other_def) (metis owner.select_convs(3) owner.surjective owner.update_convs(20,21))

lemma tryWrite_ok:
  assumes ok: "segs_ok env w as" and clean: "seg_clean env w as" and io: "no_short w"
  obtains r v bs where "tryWrite (group_text env g) w = (r, v)" "wrote env w r v bs"
    "grown (if r = None then 1 else 0) g as bs"
proof (cases "os_seg (w_mem w) = None")
  case False
  then obtain y where "os_seg (w_mem w) = Some y" by auto
  then have "tryWrite (group_text env g) w = append_synced (group_text env g) w"
    by (simp add: tryWrite_def split: prod.split option.split)
  then show thesis using append_synced_ok [OF ok clean io False, of g] that by metis
next
  case True
  have new: "\<forall>f \<in> set (dk_segments (w_disk w)). file_key f < (os_epoch (w_mem w), nextSegmentN (w_mem w))"
    using next_segment_new [OF ok] by blast
  obtain r v bs where o: "openSegment (os_epoch (w_mem w)) (nextSegmentN (w_mem w)) w = (r, v)" "wrote env w r v bs"
    "bs = as \<or> bs = as @ [([], None)]"
    using openSegment_ok [OF ok new refl io True] by metis
  have g0: "grown 0 g as bs" using o(3) grown_refl grown_empty_file by blast
  show thesis
  proof (cases r)
    case (Some x)
    then show thesis using that [of "Some x" v bs] o g0 True by (simp add: tryWrite_def)
  next
    case None
    then have "segs_ok env v bs" "seg_clean env v bs" "no_short v" "os_seg (w_mem v) \<noteq> None" using o(2) by (simp_all add: wrote_def)
    from append_synced_ok [OF this, of g] obtain s u cs where s: "append_synced (group_text env g) v = (s, u)"
      "wrote env v s u cs" "grown (if s = None then 1 else 0) g bs cs" by metis
    have "grown (if s = None then 1 else 0) g as cs" using grown_trans [OF g0 s(3)] by (simp split: if_splits)
    moreover have "tryWrite (group_text env g) w = (s, u)" using o(1) None s(1) True
      by (simp add: tryWrite_def split: option.split)
    ultimately show thesis using that wrote_trans [OF o(2) s(2)] by blast
  qed
qed

lemma closeSegment_ok:
  assumes "segs_ok env w as"
  shows "segs_ok env (upd closeSegment w) as \<and> seg_clean env (upd closeSegment w) as \<and> other (upd closeSegment w) = other w
     \<and> os_seg (w_mem (upd closeSegment w)) = None \<and> no_short (upd closeSegment w) = no_short w"
proof -
  have meta: "(\<lambda>m. (sm_epoch m, sm_n m)) ` set (map (\<lambda>m. if P m then m\<lparr>sm_closed := True\<rparr> else m) ms)
      = (\<lambda>m. (sm_epoch m, sm_n m)) ` set ms" for P and ms :: "segment_meta list"
    unfolding set_map image_image by (rule image_cong) auto
  have "os_seg (closeSegment S) = None" "os_epoch (closeSegment S) = os_epoch S"
    "(\<lambda>m. (sm_epoch m, sm_n m)) ` set (os_segments (closeSegment S)) = (\<lambda>m. (sm_epoch m, sm_n m)) ` set (os_segments S)"
    "(closeSegment S)\<lparr>os_seg := None, os_segments := []\<rparr> = S\<lparr>os_seg := None, os_segments := []\<rparr>" for S
    unfolding closeSegment_def by (cases "os_seg S"; simp del: set_map add: meta)+
  then show ?thesis using assms segs_ok_cong [of "upd closeSegment w" w env as]
    by (simp add: seg_clean_def other_def no_short_def)
qed

lemma write_group_ok:
  assumes ok: "segs_ok env w as" and clean: "seg_clean env w as" and io: "no_short w"
  obtains r v bs where "write_group (group_text env g) w = (r, v)" "wrote env w r v bs"
    "grown (if r = None then 1 else 0) g as bs"
proof -
  obtain r v bs where t: "tryWrite (group_text env g) w = (r, v)" "wrote env w r v bs"
    "grown (if r = None then 1 else 0) g as bs"
    using tryWrite_ok [OF assms, of g] by metis
  show thesis
  proof (cases r)
    case None
    then show thesis using that t by (simp add: write_group_def)
  next
    case (Some x)
    let ?v = "upd closeSegment v"
    have v: "segs_ok env v bs" "no_short v" using t(2) by (simp_all add: wrote_def)
    note c = closeSegment_ok [OF v(1)]
    have new: "\<forall>f \<in> set (dk_segments (w_disk ?v)). file_key f < (os_epoch (w_mem ?v), nextSegmentN (w_mem ?v))"
      using next_segment_new c by blast
    have w1: "wrote env w (Some x) ?v bs" using c v(2) t(2) by (simp add: wrote_def)
    have "no_short ?v" using c v(2) by simp
    then obtain s u cs where o: "openSegment (os_epoch (w_mem ?v)) (nextSegmentN (w_mem ?v)) ?v = (s, u)" "wrote env ?v s u cs"
      "cs = bs \<or> cs = bs @ [([], None)]"
      using openSegment_ok [OF conjunct1 [OF c] new refl] c by metis
    have g0: "grown 0 g as cs" using t(3) o(3) grown_trans [OF _ grown_empty_file, of 0 g as bs] Some by auto
    show thesis
    proof (cases s)
      case (Some y)
      have "write_group (group_text env g) w = (Some y, u)"
        using t(1) o(1) Some \<open>r = Some x\<close> by (simp add: write_group_def always_def)
      then show thesis using that [of "Some y" u cs] wrote_trans [OF w1 o(2)] g0 Some by simp
    next
      case None
      then have "segs_ok env u cs" "seg_clean env u cs" "no_short u" using o(2) by (simp_all add: wrote_def)
      from tryWrite_ok [OF this, of g] obtain q z ds where q: "tryWrite (group_text env g) u = (q, z)" "wrote env u q z ds"
        "grown (if q = None then 1 else 0) g cs ds" by metis
      have "write_group (group_text env g) w = (q, z)"
        using t(1) o(1) None \<open>r = Some x\<close> q(1) by (simp add: write_group_def always_def split: option.split)
      moreover have "grown (if q = None then 1 else 0) g as ds" using grown_trans [OF g0 q(3)] by (simp split: if_splits)
      ultimately show thesis using that wrote_trans [OF wrote_trans [OF w1 o(2)] q(2)] by blast
    qed
  qed
qed

end
