(* ===== verification/Ledger_Publication.thy ===== *)
theory Ledger_Publication
  imports Ledger_Writes
begin

text \<open>
  What the manifest publishes, that it loads, and that no checkpoint loses it: the files of a
  generation are created exclusively and named only once they are complete, so a checkpoint that
  fails at any call leaves a store that answers as before.
\<close>

section \<open>Published generations\<close>

definition hot_records :: "hot_line list \<Rightarrow> (string \<times> tracked) list" where
  "hot_records ls = concat (map (\<lambda>l. case l of HotRecord r \<Rightarrow> [(tk_inject_id r, r)] | _ \<Rightarrow> []) ls)"

definition safe_generation :: "int \<Rightarrow> bool" where
  "safe_generation n \<longleftrightarrow> 0 \<le> n \<and> safe_int n"

definition receipts_at :: "store_disk \<Rightarrow> int \<Rightarrow> bool" where
  "receipts_at d n \<longleftrightarrow> 0 < n \<and> safe_int n \<and> (\<exists>rs. jm_get (dk_receipts d) n = Some (Some rs))"

definition cold_at :: "store_disk \<Rightarrow> cold_file \<Rightarrow> bool" where
  "cold_at d c \<longleftrightarrow> safe_generation (cf_n c) \<and> jm_get (dk_cold d) (cf_n c) = Some (Some (cf_records c))"

text \<open>A complete generation: the hot records and the facts of its files.\<close>

definition generation_at :: "store_disk \<Rightarrow> int \<Rightarrow> core \<Rightarrow> bool" where
  "generation_at d n c \<longleftrightarrow> receipts_at d n \<and> jm_get (dk_facts d) n = Some (Some (snd c))
     \<and> (\<exists>ls. jm_get (dk_hot d) n = Some (Some ls) \<and> distinct (map fst (hot_records ls)) \<and> fst c = map_of (hot_records ls))"

definition published :: "store_disk \<Rightarrow> manifest \<Rightarrow> core \<Rightarrow> cold_file list \<Rightarrow> bool" where
  "published d m c0 pub \<longleftrightarrow> generation_at d (mf_hot m) c0 \<and> mf_facts m = mf_hot m \<and> mf_receipts m = mf_hot m
     \<and> (case mf_receipts_prev m of None \<Rightarrow> True | Some n \<Rightarrow> receipts_at d n)
     \<and> (case mf_last_checkpoint m of None \<Rightarrow> True | Some n \<Rightarrow> safe_generation n)
     \<and> mf_cold m = map cf_n pub \<and> sorted_wrt (<) (map cf_n pub) \<and> (\<forall>c \<in> set pub. cold_at d c)"

definition names_safe :: "store_disk \<Rightarrow> bool" where
  "names_safe d \<longleftrightarrow> list_all safe_int (map fst (dk_hot d) @ map fst (dk_receipts d) @ map fst (dk_facts d) @ map fst (dk_cold d))"

lemma published_generations:
  assumes "names_safe d" "published d (dk_manifest d) c0 pub"
  shows "generations_safe d"
proof -
  have "list_all (\<lambda>n. safe_int n \<and> 0 \<le> n) (map cf_n pub)"
    using assms(2) by (auto simp: published_def cold_at_def safe_generation_def list_all_iff)
  moreover have "list_all (\<lambda>n. safe_int n \<and> 0 \<le> n) (manifest_generations (dk_manifest d))"
    using assms(2) unfolding published_def generation_at_def receipts_at_def safe_generation_def manifest_generations_def
    by (auto split: option.splits)
  ultimately show ?thesis using assms unfolding generations_safe_def names_safe_def by (simp add: published_def)
qed

section \<open>Loading\<close>

lemma load_lines:
  assumes "distinct (map fst (hot_records ls))" "distinct (map fst (os_hot S))"
  shows "map_of (os_hot (fold (load_line env) ls S)) = map_of (os_hot S) ++ map_of (hot_records ls)
    \<and> distinct (map fst (os_hot (fold (load_line env) ls S))) \<and> rest_of (fold (load_line env) ls S) = rest_of S
    \<and> os_facts (fold (load_line env) ls S) = os_facts S \<and> os_applied (fold (load_line env) ls S) = os_applied S
    \<and> os_txn_hash (fold (load_line env) ls S) = os_txn_hash S"
  using assms
proof (induction ls arbitrary: S)
  case (Cons l ls)
  show ?case
  proof (cases l)
    case (HotRecord r)
    have new: "tk_inject_id r \<notin> set (map fst (hot_records ls))" and d: "distinct (map fst (hot_records ls))"
      using Cons.prems(1) by (auto simp: hot_records_def HotRecord)
    then have "map_of (hot_records ls) (tk_inject_id r) = None" by (simp add: map_of_eq_None_iff)
    then have "(map_of (os_hot S))(tk_inject_id r \<mapsto> r) ++ map_of (hot_records ls)
        = map_of (os_hot S) ++ map_of (hot_records (l # ls))"
      by (auto simp: hot_records_def HotRecord map_add_def fun_eq_iff split: option.split)
    moreover have "fold (load_line env) (l # ls) S = fold (load_line env) ls (setHot env (tk_inject_id r) r S)"
      by (simp add: load_line_def HotRecord)
    ultimately show ?thesis
      using Cons.IH [OF d setHot_distinct [OF Cons.prems(2)], of env "tk_inject_id r" r, unfolded setHot_get setHot_rest] by argo
  next
    case (HotAction a)
    then show ?thesis using Cons by (simp add: load_line_def hot_records_def rest_of_def)
  next
    case (HotPending p)
    then show ?thesis using Cons by (simp add: load_line_def hot_records_def rest_of_def)
  qed
qed (simp add: hot_records_def)

lemma sorted_facts: "sorted_wrt before (map fc_pos fs) \<Longrightarrow> sort_key (\<lambda>f. (epoch (fc_pos f), pseq (fc_pos f))) fs = fs"
proof (rule sort_key_id_if_sorted)
  assume "sorted_wrt before (map fc_pos fs)"
  then have "sorted_wrt (\<lambda>f g. before (fc_pos f) (fc_pos g)) fs" by (simp add: sorted_wrt_map)
  then have "sorted_wrt (\<lambda>f g. (epoch (fc_pos f), pseq (fc_pos f)) \<le> (epoch (fc_pos g), pseq (fc_pos g))) fs"
    by (rule sorted_wrt_mono_rel [rotated]) (auto simp: before_iff)
  then show "sorted (map (\<lambda>f. (epoch (fc_pos f), pseq (fc_pos f))) fs)" by (simp add: sorted_wrt_map)
qed

definition tell :: "cold_file \<Rightarrow> int \<times> tracked list" where
  "tell c = (cf_n c, cf_records c)"

lemma tell_new: "tell \<lparr>cf_n = cf_n c, cf_records = cf_records c, cf_offline = b\<rparr> = tell c"
  by (simp add: tell_def)

lemma load_cold_files_ok:
  "\<forall>c \<in> set cs. cold_at d c \<Longrightarrow> \<exists>ds. load_cold_files d budget (map cf_n cs) = Some ds \<and> map tell ds = map tell cs"
proof (induction cs arbitrary: budget)
  case (Cons c cs)
  let ?bytes = "64 * int (length (cf_records c))"
  have at: "\<forall>c \<in> set cs. cold_at d c" "jm_get (dk_cold d) (cf_n c) = Some (Some (cf_records c))"
    using Cons.prems by (auto simp: cold_at_def)
  obtain ds where "load_cold_files d (if ?bytes > budget then budget else budget - ?bytes) (map cf_n cs) = Some ds"
    "map tell ds = map tell cs" using Cons.IH [OF at(1)] by blast
  then show ?case using at(2) by (simp add: tell_new Let_def)
qed simp

lemma load_cold_ok:
  assumes "mf_cold (dk_manifest d) = map cf_n pub" "sorted_wrt (<) (map cf_n pub)" "\<forall>c \<in> set pub. cold_at d c"
  shows "\<exists>cs. load_cold env d S = Some (S\<lparr>os_cold := cs\<rparr>) \<and> map tell cs = map tell pub"
proof -
  have "sorted (map cf_n pub)" using assms(2) by (rule sorted_wrt_mono_rel [rotated]) auto
  then have "rev (sort (mf_cold (dk_manifest d))) = map cf_n (rev pub)"
    by (simp add: assms(1) sort_key_id_if_sorted rev_map)
  moreover obtain ds where "load_cold_files d (oe_cold_index_bytes env) (map cf_n (rev pub)) = Some ds" "map tell ds = map tell (rev pub)"
    using load_cold_files_ok [of "rev pub" d] assms(3) by auto
  moreover from this(2) have "map tell (rev ds) = map tell pub" by (metis rev_map rev_rev_ident)
  ultimately show ?thesis by (auto simp: load_cold_def)
qed

definition blank :: "owner \<Rightarrow> bool" where
  "blank S \<longleftrightarrow> os_hot S = [] \<and> os_facts S = [] \<and> os_receipts S = [] \<and> os_receipt_ckpts S = []"

lemma receipts_ok:
  assumes "receipts_at d n"
  shows "\<exists>rs. load_receipts d n S = Some (S\<lparr>os_receipts := rs, os_receipt_ckpts := os_receipt_ckpts S @ [n]\<rparr>)"
  using assms by (auto simp: load_receipts_def receipts_at_def)

lemma load_ok:
  assumes pub: "published d (dk_manifest d) c0 pub" and facts: "sorted_wrt before (map fc_pos (snd c0))" and blank: "blank S"
  shows "\<exists>S1. loadCheckpoint env d S = Some S1 \<and> map_of (os_hot S1) = fst c0 \<and> distinct (map fst (os_hot S1))
    \<and> os_facts S1 = snd c0 \<and> map tell (os_cold S1) = map tell pub \<and> os_applied S1 = os_applied S \<and> os_txn_hash S1 = os_txn_hash S
    \<and> os_checkpoint_n S1 = mf_hot (dk_manifest d)
    \<and> os_receipt_ckpts S1 = (case mf_receipts_prev (dk_manifest d) of None \<Rightarrow> [] | Some n \<Rightarrow> [n]) @ [mf_hot (dk_manifest d)]
    \<and> rest_of (S1\<lparr>os_cold := [], os_checkpoint_n := 0, os_receipt_ckpts := []\<rparr>)
        = rest_of (S\<lparr>os_cold := [], os_checkpoint_n := 0, os_receipt_ckpts := []\<rparr>)"
proof -
  let ?m = "dk_manifest d"
  obtain ls where hot: "jm_get (dk_hot d) (mf_hot ?m) = Some (Some ls)" "distinct (map fst (hot_records ls))" "fst c0 = map_of (hot_records ls)"
    and rec: "receipts_at d (mf_hot ?m)" and fs: "jm_get (dk_facts d) (mf_hot ?m) = Some (Some (snd c0))"
    and same: "mf_facts ?m = mf_hot ?m" "mf_receipts ?m = mf_hot ?m"
    using pub by (auto simp: published_def generation_at_def)
  have one: "or_one (mf_hot ?m) = mf_hot ?m" using rec by (simp add: or_one_def receipts_at_def)
  let ?S1 = "fold (load_line env) ls S"
  have S1: "load_hot env d S = Some ?S1" by (simp add: load_hot_def one hot(1))
  have empty: "os_hot S = []" using blank by (simp add: blank_def)
  then have "distinct (map fst (os_hot S))" by simp
  note l = load_lines [OF hot(2) this, of env]
  have lS: "map_of (os_hot ?S1) = fst c0 \<and> distinct (map fst (os_hot ?S1)) \<and> rest_of ?S1 = rest_of S \<and> os_facts ?S1 = []
    \<and> os_applied ?S1 = os_applied S \<and> os_txn_hash ?S1 = os_txn_hash S" using l blank hot(3) by (simp add: blank_def)
  have ck: "os_receipt_ckpts ?S1 = []" using lS blank by (simp add: rest_of_def blank_def)
  obtain rs where S2: "(case mf_receipts_prev ?m of None \<Rightarrow> Some ?S1 | Some n \<Rightarrow> load_receipts d n ?S1)
      = Some (?S1\<lparr>os_receipts := rs, os_receipt_ckpts := (case mf_receipts_prev ?m of None \<Rightarrow> [] | Some n \<Rightarrow> [n])\<rparr>)"
  proof (cases "mf_receipts_prev ?m")
    case None
    have "?S1 = ?S1\<lparr>os_receipts := os_receipts ?S1, os_receipt_ckpts := []\<rparr>" using ck by simp
    then show thesis using that [of "os_receipts ?S1"] None by simp
  next
    case (Some n)
    then have "receipts_at d n" using pub by (simp add: published_def)
    then show thesis using receipts_ok [of d n ?S1] that ck Some by auto
  qed
  let ?S2 = "?S1\<lparr>os_receipts := rs, os_receipt_ckpts := (case mf_receipts_prev ?m of None \<Rightarrow> [] | Some n \<Rightarrow> [n])\<rparr>"
  obtain rs' where S3: "load_receipts d (mf_receipts ?m) ?S2 =
      Some (?S2\<lparr>os_receipts := rs', os_receipt_ckpts := os_receipt_ckpts ?S2 @ [mf_hot ?m]\<rparr>)"
    using receipts_ok [OF rec, of ?S2] same by auto
  let ?S3 = "?S2\<lparr>os_receipts := rs', os_receipt_ckpts := os_receipt_ckpts ?S2 @ [mf_hot ?m], os_checkpoint_n := mf_hot ?m\<rparr>"
  have S4: "load_facts d ?S3 = Some (?S3\<lparr>os_facts := snd c0\<rparr>)"
    using fs one same lS sorted_facts [OF facts] by (simp add: load_facts_def)
  obtain cs where cs: "load_cold env d (?S3\<lparr>os_facts := snd c0\<rparr>) = Some (?S3\<lparr>os_facts := snd c0, os_cold := cs\<rparr>)" "map tell cs = map tell pub"
    using load_cold_ok [of d pub env "?S3\<lparr>os_facts := snd c0\<rparr>"] pub by (auto simp: published_def)
  have "loadCheckpoint env d S = Some (?S3\<lparr>os_facts := snd c0, os_cold := cs\<rparr>)"
    unfolding loadCheckpoint_def Let_def S1 bind.simps S2 S3 one using S4 cs(1) by simp
  then show ?thesis using lS cs(2)
    by (intro exI [of _ "?S3\<lparr>os_facts := snd c0, os_cold := cs\<rparr>"]) (simp add: rest_of_def)
qed

section \<open>Creating files\<close>

text \<open>Files appear; what was complete stays as it is, and so do the segments and the manifest.\<close>

definition keeps :: "(int, 'a option) jsmap \<Rightarrow> (int, 'a option) jsmap \<Rightarrow> bool" where
  "keeps m m' \<longleftrightarrow> (\<forall>k x. jm_get m k = Some (Some x) \<longrightarrow> jm_get m' k = Some (Some x))
     \<and> (list_all safe_int (map fst m) \<longrightarrow> list_all safe_int (map fst m'))"

definition grows :: "store_disk \<Rightarrow> store_disk \<Rightarrow> bool" where
  "grows d d' \<longleftrightarrow> dk_segments d' = dk_segments d \<and> dk_manifest d' = dk_manifest d
     \<and> keeps (dk_hot d) (dk_hot d') \<and> keeps (dk_receipts d) (dk_receipts d')
     \<and> keeps (dk_facts d) (dk_facts d') \<and> keeps (dk_cold d) (dk_cold d')"

lemma keeps_refl [simp]: "keeps m m"
  by (simp add: keeps_def)

lemma keeps_trans: "keeps a b \<Longrightarrow> keeps b c \<Longrightarrow> keeps a c"
  by (simp add: keeps_def)

lemma grows_refl [simp]: "grows d d"
  by (simp add: grows_def)

lemma grows_trans: "grows a b \<Longrightarrow> grows b c \<Longrightarrow> grows a c"
  by (auto simp: grows_def intro: keeps_trans)

lemma keeps_set:
  assumes "safe_int n" "\<And>x. jm_get m n \<noteq> Some (Some x)"
  shows "keeps m (jm_set n y m)"
  using assms by (auto simp: keeps_def list_all_iff dom_update)

lemma receipts_at_grows: "grows d d' \<Longrightarrow> receipts_at d n \<Longrightarrow> receipts_at d' n"
  by (auto simp: grows_def keeps_def receipts_at_def)

lemma cold_at_grows: "grows d d' \<Longrightarrow> cold_at d c \<Longrightarrow> cold_at d' c"
  by (auto simp: grows_def keeps_def cold_at_def)

lemma generation_at_grows: "grows d d' \<Longrightarrow> generation_at d n c \<Longrightarrow> generation_at d' n c"
  using receipts_at_grows [of d d' n] by (auto simp: generation_at_def) (auto simp: grows_def keeps_def)

lemma published_grows: "grows d d' \<Longrightarrow> published d m c pub \<Longrightarrow> published d' m c pub"
  using generation_at_grows [of d d'] receipts_at_grows [of d d'] cold_at_grows [of d d']
  unfolding published_def by (auto split: option.splits)

lemma names_safe_grows: "grows d d' \<Longrightarrow> names_safe d \<Longrightarrow> names_safe d'"
  by (simp add: grows_def names_safe_def keeps_def)

text \<open>
  A quiet step leaves memory and messages alone, only lets files appear, and when it does not
  throw it has the files \<open>F\<close> it was to create.
\<close>

definition quiet :: "io_step \<Rightarrow> (store_disk \<Rightarrow> bool) \<Rightarrow> bool" where
  "quiet s F \<longleftrightarrow> (\<forall>w. no_short w \<longrightarrow> (case s w of (r, v) \<Rightarrow> w_mem v = w_mem w \<and> w_out v = w_out w \<and> no_short v
     \<and> grows (w_disk w) (w_disk v) \<and> (r = None \<longrightarrow> F (w_disk v))))"

definition stable :: "(store_disk \<Rightarrow> bool) \<Rightarrow> bool" where
  "stable F \<longleftrightarrow> (\<forall>d d'. grows d d' \<longrightarrow> F d \<longrightarrow> F d')"

abbreviation anything :: "store_disk \<Rightarrow> bool" where
  "anything \<equiv> \<lambda>d. True"

lemma stable_True [simp]: "stable anything"
  by (simp add: stable_def)

lemma quietE:
  assumes "quiet s F" "no_short w"
  obtains r v where "s w = (r, v)" "w_mem v = w_mem w" "w_out v = w_out w" "no_short v" "grows (w_disk w) (w_disk v)"
    "r = None \<longrightarrow> F (w_disk v)"
proof (cases "s w")
  case (Pair r v)
  have "case s w of (r, v) \<Rightarrow> w_mem v = w_mem w \<and> w_out v = w_out w \<and> no_short v
      \<and> grows (w_disk w) (w_disk v) \<and> (r = None \<longrightarrow> F (w_disk v))"
    by (rule assms(1) [unfolded quiet_def, rule_format, OF assms(2)])
  with Pair show thesis using that [of r v] by simp
qed

lemma quiet_Nil: "quiet (run_steps []) anything"
  by (simp add: quiet_def)

lemma quiet_Cons:
  assumes s: "quiet s F" and ss: "quiet (run_steps ss) G" and F: "stable F"
  shows "quiet (run_steps (s # ss)) (\<lambda>d. F d \<and> G d)"
  unfolding quiet_def
proof (intro allI impI)
  fix w assume io: "no_short w"
  obtain r v where v: "s w = (r, v)" "w_mem v = w_mem w" "w_out v = w_out w" "no_short v" "grows (w_disk w) (w_disk v)"
    "r = None \<longrightarrow> F (w_disk v)" using quietE [OF s io] by blast
  obtain q u where u: "run_steps ss v = (q, u)" "w_mem u = w_mem v" "w_out u = w_out v" "no_short u" "grows (w_disk v) (w_disk u)"
    "q = None \<longrightarrow> G (w_disk u)" using quietE [OF ss v(4)] by blast
  have "F (w_disk v) \<Longrightarrow> F (w_disk u)" using F u(5) by (auto simp: stable_def)
  then show "case run_steps (s # ss) w of (r, v) \<Rightarrow> w_mem v = w_mem w \<and> w_out v = w_out w \<and> no_short v
     \<and> grows (w_disk w) (w_disk v) \<and> (r = None \<longrightarrow> F (w_disk v) \<and> G (w_disk v))"
    using v u grows_trans [OF v(5) u(5)] by (cases r) simp_all
qed

lemma quiet_weaken: "quiet s F \<Longrightarrow> (\<And>d. F d \<Longrightarrow> G d) \<Longrightarrow> quiet s G"
  unfolding quiet_def by (simp add: case_prod_unfold)

lemma quiet_call: "quiet (call id) anything"
  unfolding quiet_def
proof (intro allI impI)
  fix w assume "no_short w"
  then show "case call id w of (r, v) \<Rightarrow> w_mem v = w_mem w \<and> w_out v = w_out w \<and> no_short v
     \<and> grows (w_disk w) (w_disk v) \<and> (r = None \<longrightarrow> True)"
    by (cases rule: next_io_cases) (simp_all add: call_def)
qed

lemma quiet_fsyncDir: "quiet fsyncDir anything"
  unfolding fsyncDir_def by (rule quiet_call)

lemma quiet_index: "quiet create_index anything"
  unfolding create_index_def
  by (rule quiet_weaken [OF quiet_Cons [OF quiet_call quiet_Cons [OF quiet_call quiet_Cons [OF quiet_call quiet_Nil]]]]) simp_all

lemma quiet_create_file:
  assumes create: "\<And>d. \<not> present d \<Longrightarrow> grows d (create d) \<and> fresh (create d)"
    and fill: "\<And>d. fresh d \<Longrightarrow> grows d (fill d) \<and> F (fill d)"
  shows "quiet (create_file present create fill) F"
  unfolding quiet_def
proof (intro allI impI)
  fix w assume io: "no_short w"
  let ?ok = "\<lambda>r v. w_mem v = w_mem w \<and> w_out v = w_out w \<and> no_short v \<and> grows (w_disk w) (w_disk v) \<and> (r = None \<longrightarrow> F (w_disk v))"
  show "case create_file present create fill w of (r, v) \<Rightarrow> ?ok r v"
  proof (cases "present (w_disk w)")
    case True
    then show ?thesis using io by (simp add: create_file_def)
  next
    case new: False
    from io show ?thesis
    proof (cases rule: next_io_cases)
      case (fails e k v)
      then show ?thesis using new by (simp add: create_file_def call_def)
    next
      case (fine v)
      let ?v = "on_disk create v"
      have v: "fresh (w_disk ?v)" "grows (w_disk w) (w_disk ?v)" "no_short ?v" "w_mem ?v = w_mem w" "w_out ?v = w_out w"
        using create new fine by (simp_all add: no_short_def)
      have filled: "grows (w_disk w) (fill (w_disk ?v))" "F (fill (w_disk ?v))"
        using fill [OF v(1)] grows_trans [OF v(2)] by simp_all
      from v(3) show ?thesis
      proof (cases rule: next_io_cases)
        case f: (fails e k u)
        have "create_file present create fill w = (Some e, on_disk (if min k 1 = 1 then fill else id) u)"
          using new fine(1) f(1) by (simp add: create_file_def call_def write_call_def)
        then show ?thesis using f v filled by (simp add: no_short_def)
      next
        case f: (fine u)
        let ?u = "on_disk fill u"
        have "create_file present create fill w = run_steps [call id] ?u"
          using new fine(1) f(1) by (simp add: create_file_def call_def write_call_def)
        moreover have "no_short ?u" using f by (simp add: no_short_def)
        ultimately show ?thesis using f v filled
          by (cases rule: next_io_cases [OF \<open>no_short ?u\<close>]) (simp_all add: call_def)
      qed
    qed
  qed
qed

lemma quiet_create_hot:
  assumes "safe_int n" shows "quiet (create_hot n ls) (\<lambda>d. jm_get (dk_hot d) n = Some (Some ls))"
  unfolding create_hot_def
  by (rule quiet_create_file [where fresh = "\<lambda>d. jm_get (dk_hot d) n = Some None"])
    (auto simp: grows_def jm_has_def intro!: keeps_set [OF assms])

lemma quiet_create_receipts:
  assumes "safe_int n" shows "quiet (create_receipts n ls) (\<lambda>d. jm_get (dk_receipts d) n = Some (Some ls))"
  unfolding create_receipts_def
  by (rule quiet_create_file [where fresh = "\<lambda>d. jm_get (dk_receipts d) n = Some None"])
    (auto simp: grows_def jm_has_def intro!: keeps_set [OF assms])

lemma quiet_create_facts:
  assumes "safe_int n" shows "quiet (create_facts n ls) (\<lambda>d. jm_get (dk_facts d) n = Some (Some ls))"
  unfolding create_facts_def
  by (rule quiet_create_file [where fresh = "\<lambda>d. jm_get (dk_facts d) n = Some None"])
    (auto simp: grows_def jm_has_def intro!: keeps_set [OF assms])

lemma quiet_create_cold:
  assumes "safe_int n" shows "quiet (create_cold n rs) (\<lambda>d. jm_get (dk_cold d) n = Some (Some rs))"
  unfolding create_cold_def
  by (rule quiet_create_file [where fresh = "\<lambda>d. jm_get (dk_cold d) n = Some None"])
    (auto simp: grows_def jm_has_def intro!: keeps_set [OF assms])

lemma stable_files:
  "stable (\<lambda>d. jm_get (dk_hot d) n = Some (Some ls))" "stable (\<lambda>d. jm_get (dk_receipts d) n = Some (Some rs))"
  "stable (\<lambda>d. jm_get (dk_facts d) n = Some (Some fs))" "stable (\<lambda>d. jm_get (dk_cold d) n = Some (Some cs))"
  by (auto simp: stable_def grows_def keeps_def)

section \<open>The manifest\<close>

lemma writeManifest_cases:
  fixes clean :: bool and last_n :: "int option"
  assumes io: "no_short w"
  defines "m \<equiv> next_manifest clean last_n (w_mem w)"
  obtains (before) e v where "writeManifest clean last_n w = (Some e, v)" "no_short v" "w_mem v = w_mem w" "w_disk v = w_disk w" "w_out v = w_out w"
    | (renamed) e v where "writeManifest clean last_n w = (Some e, v)" "no_short v" "w_mem v = w_mem w"
        "w_disk v = (w_disk w)\<lparr>dk_manifest := m\<rparr>" "w_out v = w_out w"
    | (complete) v where "writeManifest clean last_n w = (None, v)" "no_short v" "w_mem v = (w_mem w)\<lparr>os_manifest := m\<rparr>"
        "w_disk v = (w_disk w)\<lparr>dk_manifest := m\<rparr>" "w_out v = w_out w"
proof -
  have eq: "writeManifest clean last_n w = run_steps [call id, call id, call id,
      call (on_disk (\<lambda>d. d\<lparr>dk_manifest := m\<rparr>)), fsyncDir, always (upd (\<lambda>S. S\<lparr>os_manifest := m\<rparr>))] w"
    unfolding writeManifest_def m_def Let_def ..
  from io show thesis
  proof (cases rule: next_io_cases)
    case (fails e k v) then show thesis using before by (simp add: eq call_def)
  next
    case a: (fine v)
    from a(2) show thesis
    proof (cases rule: next_io_cases)
      case (fails e k u) then show thesis using before a by (simp add: eq call_def)
    next
      case b: (fine u)
      from b(2) show thesis
      proof (cases rule: next_io_cases)
        case (fails e k t) then show thesis using before a b by (simp add: eq call_def)
      next
        case c: (fine t)
        from c(2) show thesis
        proof (cases rule: next_io_cases)
          case (fails e k s) then show thesis using before a b c by (simp add: eq call_def)
        next
          case d: (fine s)
          let ?s = "on_disk (\<lambda>d. d\<lparr>dk_manifest := m\<rparr>) s"
          have "no_short ?s" using d by (simp add: no_short_def)
          then show thesis
          proof (cases rule: next_io_cases)
            case (fails e k x) then show thesis using renamed a b c d by (simp add: eq call_def fsyncDir_def)
          next
            case e: (fine x)
            then show thesis using complete [of "upd (\<lambda>S. S\<lparr>os_manifest := m\<rparr>) x"] a b c d
              by (simp add: eq call_def fsyncDir_def always_def no_short_def)
          qed
        qed
      qed
    qed
  qed
qed

end
