(* ===== verification/Ledger_Checkpoint.thy ===== *)
theory Ledger_Checkpoint
  imports Ledger_Publication
begin

text \<open>
  A checkpoint moves terminal and abandoned records to a cold file, rewrites the hot set and
  publishes both. Whatever call fails, the store on disk and the memory keep answering alike.
\<close>

section \<open>Moving records to the cold tier\<close>

lemma removeHot_get: "map_of (os_hot (removeHot env i S)) = (map_of (os_hot S))(i := None)"
  by (auto simp: removeHot_def fun_eq_iff split: option.splits)

lemma removeHot_distinct: "distinct (map fst (os_hot S)) \<Longrightarrow> distinct (map fst (os_hot (removeHot env i S)))"
  by (auto simp: removeHot_def distinct_delete split: option.splits)

lemma removeHot_shape: "\<exists>h b s. removeHot env i S = S\<lparr>os_hot := h, os_hot_bytes := b, os_by_session := s\<rparr>"
proof (cases "jm_get (os_hot S) i")
  case None
  then show ?thesis by (intro exI [of _ "os_hot S"] exI [of _ "os_hot_bytes S"] exI [of _ "os_by_session S"]) (simp add: removeHot_def)
next
  case (Some r)
  then show ?thesis
    by (intro exI [of _ "jm_delete i (os_hot S)"] exI [of _ "os_hot_bytes S - oe_record_bytes env r"]
        exI [of _ "(os_by_session S)(tk_session_id r := removeAll i (os_by_session S (tk_session_id r)))"])
      (simp add: removeHot_def)
qed

abbreviation remove_all :: "owner_env \<Rightarrow> tracked list \<Rightarrow> owner \<Rightarrow> owner" where
  "remove_all env rs \<equiv> fold (\<lambda>r. removeHot env (tk_inject_id r)) rs"

lemma remove_all_shape:
  "distinct (map fst (os_hot S)) \<Longrightarrow>
   \<exists>h b s. remove_all env rs S = S\<lparr>os_hot := h, os_hot_bytes := b, os_by_session := s\<rparr>
     \<and> map_of h = (\<lambda>i. if i \<in> tk_inject_id ` set rs then None else map_of (os_hot S) i) \<and> distinct (map fst h)"
proof (induction rs arbitrary: S)
  case Nil
  then show ?case by (intro exI [of _ "os_hot S"] exI [of _ "os_hot_bytes S"] exI [of _ "os_by_session S"]) simp
next
  case (Cons r rs)
  let ?S = "removeHot env (tk_inject_id r) S"
  obtain h b s where S1: "?S = S\<lparr>os_hot := h, os_hot_bytes := b, os_by_session := s\<rparr>" using removeHot_shape by metis
  have get: "map_of h = (map_of (os_hot S))(tk_inject_id r := None)" using removeHot_get [of env "tk_inject_id r" S] S1 by simp
  obtain h' b' s' where "remove_all env rs ?S = ?S\<lparr>os_hot := h', os_hot_bytes := b', os_by_session := s'\<rparr>"
    "map_of h' = (\<lambda>i. if i \<in> tk_inject_id ` set rs then None else map_of (os_hot ?S) i)" "distinct (map fst h')"
    using Cons.IH [OF removeHot_distinct [OF Cons.prems]] by blast
  then show ?case
    by (intro exI [of _ h'] exI [of _ b'] exI [of _ s']) (auto simp: S1 get fun_eq_iff)
qed

text \<open>The hot set without the records of a list.\<close>

definition without :: "tracked list \<Rightarrow> (string \<rightharpoonup> tracked) \<Rightarrow> (string \<rightharpoonup> tracked)" where
  "without rs h = (\<lambda>i. if i \<in> tk_inject_id ` set rs then None else h i)"

lemma trim_shape: "\<exists>rs. trimReceipts S = S\<lparr>os_receipts := rs\<rparr>"
  unfolding trimReceipts_def Let_def by blast

definition with_cold :: "int option \<Rightarrow> tracked list \<Rightarrow> cold_file list \<Rightarrow> cold_file list" where
  "with_cold cold rs cs = cs @ (case cold of None \<Rightarrow> [] | Some k \<Rightarrow> [\<lparr>cf_n = k, cf_records = rs, cf_offline = False\<rparr>])"

lemma enter_shape:
  assumes "distinct (map fst (os_hot S))"
  shows "\<exists>h b s rs hashes. enter_checkpoint env n cold demote S = S\<lparr>os_hot := h, os_hot_bytes := b, os_by_session := s,
      os_receipts := rs, os_cold := with_cold cold demote (os_cold S),
      os_receipt_ckpts := drop (length (os_receipt_ckpts S @ [n]) - 2) (os_receipt_ckpts S @ [n]),
      os_checkpoint_n := n, os_checkpoint_pos := \<lparr>epoch = os_epoch S, pseq = os_seq_committed S\<rparr>,
      os_frames_since := 0, os_applied := {}, os_txn_hash := hashes\<rparr>
    \<and> map_of h = without demote (map_of (os_hot S)) \<and> distinct (map fst h)"
proof -
  let ?S1 = "case cold of None \<Rightarrow> S
    | Some k \<Rightarrow> S\<lparr>os_cold := os_cold S @ [\<lparr>cf_n = k, cf_records = demote, cf_offline = False\<rparr>]\<rparr>"
  have S1: "?S1 = S\<lparr>os_cold := with_cold cold demote (os_cold S)\<rparr>" by (simp add: with_cold_def split: option.split)
  have "distinct (map fst (os_hot ?S1))" using assms by (simp add: S1)
  then obtain h b s where S2: "remove_all env demote ?S1 = ?S1\<lparr>os_hot := h, os_hot_bytes := b, os_by_session := s\<rparr>"
    "map_of h = (\<lambda>i. if i \<in> tk_inject_id ` set demote then None else map_of (os_hot ?S1) i)" "distinct (map fst h)"
    using remove_all_shape [of ?S1 env demote] by blast
  let ?S2 = "remove_all env demote ?S1"
  let ?ns = "os_receipt_ckpts ?S2 @ [n]"
  obtain rs where S3: "trimReceipts (?S2\<lparr>os_receipt_ckpts := drop (length ?ns - 2) ?ns\<rparr>)
      = ?S2\<lparr>os_receipt_ckpts := drop (length ?ns - 2) ?ns, os_receipts := rs\<rparr>"
    using trim_shape [of "?S2\<lparr>os_receipt_ckpts := drop (length ?ns - 2) ?ns\<rparr>"] by auto
  let ?hashes = "\<lambda>k. case k of TxnKey t \<Rightarrow> os_txn_hash S k | PosKey p \<Rightarrow> None"
  have all: "enter_checkpoint env n cold demote S = S\<lparr>os_hot := h, os_hot_bytes := b, os_by_session := s,
      os_receipts := rs, os_cold := with_cold cold demote (os_cold S),
      os_receipt_ckpts := drop (length (os_receipt_ckpts S @ [n]) - 2) (os_receipt_ckpts S @ [n]),
      os_checkpoint_n := n, os_checkpoint_pos := \<lparr>epoch = os_epoch S, pseq = os_seq_committed S\<rparr>,
      os_frames_since := 0, os_applied := {}, os_txn_hash := ?hashes\<rparr>"
    unfolding enter_checkpoint_def Let_def S3 unfolding S2(1) unfolding S1 by (simp cong: hash_key.case_cong)
  have hot: "os_hot ?S1 = os_hot S" by (simp add: S1)
  have "map_of h = without demote (map_of (os_hot S))" using S2(2) unfolding hot without_def .
  with all S2(3) show ?thesis by blast
qed

lemma find_demoted:
  assumes ids: "ids_ok h" and hot: "h = map_of hot" and distinct: "distinct (map fst hot)"
    and demote: "demote = filter P (map snd hot)"
  shows "find (\<lambda>r. tk_inject_id r = i) demote = (case h i of Some r \<Rightarrow> if P r then Some r else None | None \<Rightarrow> None)"
    and "i \<in> tk_inject_id ` set demote \<longleftrightarrow> (\<exists>r. h i = Some r \<and> P r)"
proof -
  have mem: "r \<in> set demote \<longleftrightarrow> P r \<and> h (tk_inject_id r) = Some r" for r
  proof
    assume "r \<in> set demote"
    then obtain i where "(i, r) \<in> set hot" "P r" by (auto simp: demote)
    then have "h i = Some r" using distinct by (simp add: hot)
    then show "P r \<and> h (tk_inject_id r) = Some r" using ids \<open>P r\<close> by (auto simp: ids_ok_def)
  next
    assume "P r \<and> h (tk_inject_id r) = Some r"
    then show "r \<in> set demote" by (auto simp: demote hot dest!: map_of_SomeD intro!: image_eqI)
  qed
  show "i \<in> tk_inject_id ` set demote \<longleftrightarrow> (\<exists>r. h i = Some r \<and> P r)"
    using mem ids by (auto simp: ids_ok_def image_iff)
  show "find (\<lambda>r. tk_inject_id r = i) demote = (case h i of Some r \<Rightarrow> if P r then Some r else None | None \<Rightarrow> None)"
  proof (cases "find (\<lambda>r. tk_inject_id r = i) demote")
    case None
    then have "\<forall>r \<in> set demote. tk_inject_id r \<noteq> i" by (simp add: find_None_iff)
    then show ?thesis using None mem ids by (auto simp: ids_ok_def split: option.split)
  next
    case (Some r)
    then have "r \<in> set demote" "tk_inject_id r = i" by (auto simp: find_Some_iff)
    then show ?thesis using Some mem by auto
  qed
qed

lemma newest_snoc:
  "newest_record i (rev (cs @ [\<lparr>cf_n = k, cf_records = rs, cf_offline = False\<rparr>]))
     = (case find (\<lambda>r. tk_inject_id r = i) rs of Some r \<Rightarrow> Some r | None \<Rightarrow> newest_record i (rev cs))"
  by simp

lemma tier_demoted:
  assumes "ids_ok h" "h = map_of hot" "distinct (map fst hot)" "demote = filter P (map snd hot)"
    and cold: "cold = None \<Longrightarrow> demote = []"
  shows "tier (without demote h) (with_cold cold demote cs) i = tier h cs i"
proof -
  note f = find_demoted [OF assms(1-4), of i]
  show ?thesis
  proof (cases cold)
    case None
    then show ?thesis using cold by (simp add: with_cold_def without_def)
  next
    case (Some k)
    then show ?thesis using f
      by (cases "h i") (auto simp: with_cold_def without_def tier_def newest_snoc simp del: rev_append)
  qed
qed

lemma agrees_demoted:
  assumes a: "agrees pub cs (h, fs) c" and h: "ids_ok h" "h = map_of hot" "distinct (map fst hot)" "demote = filter P (map snd hot)"
    and cold: "cold = None \<Longrightarrow> demote = []"
  shows "agrees pub (with_cold cold demote cs) (without demote h, fs) c"
  using a tier_demoted [OF h cold, where cs = cs] by (auto simp: agrees_def without_def)

lemma agrees_refl: "agrees cs cs c c"
  by (simp add: agrees_def)

lemma ids_without: "ids_ok h \<Longrightarrow> ids_ok (without rs h)"
  by (auto simp: ids_ok_def without_def)

text \<open>The hot file of the checkpoint holds exactly what stays.\<close>

lemma hot_lines_records:
  assumes "ids_ok (map_of (os_hot S))" "distinct (map fst (os_hot S))" "demote = filter P (map snd (os_hot S))"
  shows "hot_records (hot_lines demote S) = filter (\<lambda>(i, r). r \<notin> set demote) (os_hot S)"
    and "map_of (hot_records (hot_lines demote S)) = without demote (map_of (os_hot S))"
    and "distinct (map fst (hot_records (hot_lines demote S)))"
proof -
  have split: "hot_records (xs @ ys) = hot_records xs @ hot_records ys" for xs ys by (simp add: hot_records_def)
  have none: "hot_records (map HotAction as) = []" "hot_records (map HotPending ps) = []" for as ps
    by (auto simp: hot_records_def)
  have recs: "hot_records (map HotRecord rs) = map (\<lambda>r. (tk_inject_id r, r)) rs" for rs
    by (induction rs) (simp_all add: hot_records_def)
  have same: "map (\<lambda>r. (tk_inject_id r, r)) (filter Q (map snd hot)) = filter (\<lambda>(i, r). Q r) hot"
    if "\<forall>(i, r) \<in> set hot. tk_inject_id r = i" for Q and hot :: "(string \<times> tracked) list"
    using that by (induction hot) auto
  have "\<forall>(i, r) \<in> set (os_hot S). tk_inject_id r = i" using assms(1,2) by (auto simp: ids_ok_def)
  then show eq: "hot_records (hot_lines demote S) = filter (\<lambda>(i, r). r \<notin> set demote) (os_hot S)"
    using same [of "os_hot S" "\<lambda>r. r \<notin> set demote"] by (simp add: hot_lines_def split none recs del: map_map)
  show d: "distinct (map fst (hot_records (hot_lines demote S)))"
    unfolding eq using assms(2) by (simp add: distinct_map_filter)
  show "map_of (hot_records (hot_lines demote S)) = without demote (map_of (os_hot S))"
  proof
    fix i
    note f = find_demoted(2) [OF assms(1) refl assms(2,3), of i]
    have mem: "(i, r) \<in> set (hot_records (hot_lines demote S)) \<longleftrightarrow> (i, r) \<in> set (os_hot S) \<and> r \<notin> set demote" for r
      by (auto simp: eq)
    have in_hot: "(i, r) \<in> set (os_hot S) \<longleftrightarrow> map_of (os_hot S) i = Some r" for r using assms(2) by simp
    have out: "r \<in> set demote \<longleftrightarrow> P r" if "map_of (os_hot S) i = Some r" for r
      using that assms(3) by (auto dest!: map_of_SomeD intro!: image_eqI)
    show "map_of (hot_records (hot_lines demote S)) i = without demote (map_of (os_hot S)) i"
    proof (cases "map_of (hot_records (hot_lines demote S)) i")
      case None
      then have "(i, r) \<notin> set (hot_records (hot_lines demote S))" for r
        using weak_map_of_SomeI [of i r "hot_records (hot_lines demote S)"] by auto
      then show ?thesis using None mem in_hot out f by (cases "map_of (os_hot S) i") (auto simp: without_def)
    next
      case (Some r)
      then have "(i, r) \<in> set (hot_records (hot_lines demote S))" using d by simp
      then have "map_of (os_hot S) i = Some r" "r \<notin> set demote" using mem in_hot by auto
      then show ?thesis using Some f out by (auto simp: without_def)
    qed
  qed
qed

section \<open>The store during a checkpoint\<close>

text \<open>The messages that decide the fate of a delta.\<close>

fun deciding :: "owner_post \<Rightarrow> bool" where
  "deciding (PostWritten _ _ _) = True"
| "deciding (PostIndeterminate _ _) = True"
| "deciding _ = False"

definition told :: "world \<Rightarrow> owner_post list" where
  "told w = filter deciding (w_out w)"

abbreviation now_pos :: "owner \<Rightarrow> lpos" where
  "now_pos S \<equiv> \<lparr>epoch = os_epoch S, pseq = os_seq_committed S\<rparr>"

abbreviation hot_core :: "owner \<Rightarrow> core" where
  "hot_core S \<equiv> (map_of (os_hot S), os_facts S)"

definition gens_ok :: "owner \<Rightarrow> store_disk \<Rightarrow> bool" where
  "gens_ok S d \<longleftrightarrow> 0 < os_checkpoint_n S \<and> (\<forall>n \<in> set (os_receipt_ckpts S). receipts_at d n)
     \<and> sorted_wrt (<) (map cf_n (os_cold S)) \<and> (\<forall>c \<in> set (os_cold S). cold_at d c)
     \<and> (case mf_last_checkpoint (os_manifest S) of None \<Rightarrow> True | Some n \<Rightarrow> safe_generation n) \<and> names_safe d"

text \<open>The published files and the log answer as the memory does.\<close>

definition answers :: "log_entry list \<Rightarrow> owner \<Rightarrow> store_disk \<Rightarrow> core \<Rightarrow> cold_file list \<Rightarrow> bool" where
  "answers L S d c0 pub \<longleftrightarrow> published d (dk_manifest d) c0 pub \<and> sorted_wrt before (map fc_pos (snd c0))
     \<and> mf_epoch (dk_manifest d) = os_epoch S \<and> \<not> before (now_pos S) (mf_checkpoint (dk_manifest d))
     \<and> (\<exists>c. play (past (mf_checkpoint (dk_manifest d)) L) c0 = Some c \<and> agrees pub (os_cold S) (hot_core S) c \<and> ids_ok (fst c))"

definition mem_ok :: "owner \<Rightarrow> bool" where
  "mem_ok S \<longleftrightarrow> ids_ok (map_of (os_hot S)) \<and> distinct (map fst (os_hot S)) \<and> sorted_wrt before (map fc_pos (os_facts S))"

definition store_ok :: "log_entry list \<Rightarrow> world \<Rightarrow> bool" where
  "store_ok L w \<longleftrightarrow> mem_ok (w_mem w) \<and> gens_ok (w_mem w) (w_disk w) \<and> (\<exists>c0 pub. answers L (w_mem w) (w_disk w) c0 pub)
     \<and> (\<forall>e \<in> set L. \<not> before (now_pos (w_mem w)) (entry_pos e))"

text \<open>What a checkpoint leaves alone in memory.\<close>

definition busy_of where
  "busy_of S = (os_state S, os_reason S, os_epoch S, os_seq_next S, os_seq_committed S, os_facts S, os_segments S, os_seg S,
     os_group S, os_timer S, os_live S, os_closing S, os_possibly_durable S)"

lemma gens_ok_grows: "grows d d' \<Longrightarrow> gens_ok S d \<Longrightarrow> gens_ok S d'"
  using receipts_at_grows [of d d'] cold_at_grows [of d d'] names_safe_grows [of d d'] by (simp add: gens_ok_def)

lemma answers_grows: "grows d d' \<Longrightarrow> answers L S d c0 pub \<Longrightarrow> answers L S d' c0 pub"
  using published_grows [of d d'] by (simp add: answers_def grows_def)

lemma store_ok_grows:
  assumes "store_ok L w" "grows (w_disk w) (w_disk v)" "w_mem v = w_mem w"
  shows "store_ok L v"
proof -
  obtain c0 pub where "answers L (w_mem w) (w_disk w) c0 pub" using assms(1) unfolding store_ok_def by blast
  from answers_grows [OF assms(2) this] show ?thesis
    using assms(1) gens_ok_grows [OF assms(2)] unfolding store_ok_def assms(3) by blast
qed

text \<open>Only the receipts and the allocation counters changed.\<close>

lemma store_ok_receipts:
  assumes "store_ok L w" "w_disk v = w_disk w" "w_mem v = (w_mem w)\<lparr>os_receipts := rs, os_alloc_hot := a, os_alloc_cold := b\<rparr>"
  shows "store_ok L v"
  using assms unfolding store_ok_def mem_ok_def gens_ok_def answers_def by simp

lemma run_steps_append: "run_steps (xs @ ys) w = (case run_steps xs w of (None, v) \<Rightarrow> run_steps ys v | (Some e, v) \<Rightarrow> (Some e, v))"
  by (induction xs arbitrary: w) (auto split: prod.split option.split)

lemma run_always: "run_steps (always f # ss) w = run_steps ss (f w)"
  by (simp add: always_def)

lemma quiet_demote:
  assumes "\<And>k. cold = Some k \<Longrightarrow> safe_generation k"
  shows "quiet (demote_files cold demote) (\<lambda>d. \<forall>k. cold = Some k \<longrightarrow> jm_get (dk_cold d) k = Some (Some demote))"
proof (cases cold)
  case None
  then show ?thesis by (simp add: demote_files_def always_def quiet_def)
next
  case (Some k)
  then have "safe_int k" using assms by (simp add: safe_generation_def)
  then have "quiet (run_steps [create_cold k demote, create_index, create_index, fsyncDir])
      (\<lambda>d. jm_get (dk_cold d) k = Some (Some demote) \<and> True \<and> True \<and> True \<and> True)"
    by (intro quiet_Cons quiet_create_cold quiet_index quiet_fsyncDir quiet_Nil stable_files stable_True)
  then show ?thesis using Some by (simp add: demote_files_def)
qed

text \<open>Memory after the checkpoint's files are complete, before the manifest is written.\<close>

lemma enter_ok:
  fixes env :: owner_env
  assumes ok: "store_ok L w" and demote: "demote = filter P (map snd (os_hot (w_mem w)))"
    and gen: "0 < n" "generation_at (w_disk w) n (without demote (map_of (os_hot (w_mem w))), os_facts (w_mem w))"
    and cold: "cold = None \<Longrightarrow> demote = []"
      "\<And>k. cold = Some k \<Longrightarrow> safe_generation k \<and> jm_get (dk_cold (w_disk w)) k = Some (Some demote)
         \<and> (\<forall>c \<in> set (os_cold (w_mem w)). cf_n c < k)"
  defines "v \<equiv> upd (enter_checkpoint env n cold demote) w"
  shows "store_ok L v \<and> busy_of (w_mem v) = busy_of (w_mem w) \<and> os_checkpoint_n (w_mem v) = n
    \<and> os_checkpoint_pos (w_mem v) = now_pos (w_mem v) \<and> generation_at (w_disk v) n (hot_core (w_mem v))"
proof -
  let ?S = "w_mem w"
  have mem: "ids_ok (map_of (os_hot ?S))" "distinct (map fst (os_hot ?S))" "sorted_wrt before (map fc_pos (os_facts ?S))"
    using ok by (simp_all add: store_ok_def mem_ok_def)
  obtain h b s rs hashes where S': "w_mem v = ?S\<lparr>os_hot := h, os_hot_bytes := b, os_by_session := s,
      os_receipts := rs, os_cold := with_cold cold demote (os_cold ?S),
      os_receipt_ckpts := drop (length (os_receipt_ckpts ?S @ [n]) - 2) (os_receipt_ckpts ?S @ [n]),
      os_checkpoint_n := n, os_checkpoint_pos := now_pos ?S,
      os_frames_since := 0, os_applied := {}, os_txn_hash := hashes\<rparr>"
    and h: "map_of h = without demote (map_of (os_hot ?S))" "distinct (map fst h)"
    using enter_shape [OF mem(2), of env n cold demote] unfolding v_def by auto
  have d: "w_disk v = w_disk w" by (simp add: v_def)
  have "gens_ok (w_mem v) (w_disk w)"
  proof -
    have "sorted_wrt (<) (map cf_n (with_cold cold demote (os_cold ?S)))" "\<forall>c \<in> set (with_cold cold demote (os_cold ?S)). cold_at (w_disk w) c"
      using ok cold(2) by (auto simp: store_ok_def gens_ok_def with_cold_def sorted_wrt_append cold_at_def split: option.splits)
    moreover have "receipts_at (w_disk w) n" "\<forall>k \<in> set (drop j (os_receipt_ckpts ?S)). receipts_at (w_disk w) k" for j
      using ok gen by (auto simp: store_ok_def gens_ok_def generation_at_def dest!: in_set_dropD)
    ultimately show ?thesis using ok gen(1) by (simp add: S' store_ok_def gens_ok_def)
  qed
  moreover have "mem_ok (w_mem v)" using mem h ids_without [OF mem(1), of demote] by (simp add: mem_ok_def S')
  moreover have "\<exists>c0 pub. answers L (w_mem v) (w_disk w) c0 pub"
  proof -
    obtain c0 pub where a: "answers L ?S (w_disk w) c0 pub" using ok by (auto simp: store_ok_def)
    then obtain c where c: "play (past (mf_checkpoint (dk_manifest (w_disk w))) L) c0 = Some c"
      "agrees pub (os_cold ?S) (hot_core ?S) c" "ids_ok (fst c)" by (auto simp: answers_def)
    have "agrees pub (with_cold cold demote (os_cold ?S)) (without demote (map_of (os_hot ?S)), os_facts ?S) c"
      by (rule agrees_demoted [OF c(2) mem(1) refl mem(2) demote cold(1)])
    then have "answers L (w_mem v) (w_disk w) c0 pub"
      using a c by (auto simp: answers_def S' h simp del: split_paired_Ex)
    then show ?thesis by blast
  qed
  ultimately have "store_ok L v" using ok d by (simp add: store_ok_def S')
  then show ?thesis using gen(2) by (simp add: busy_of_def S' h d)
qed

text \<open>Publishing the state that memory has just entered.\<close>

lemma publish_ok:
  assumes ok: "store_ok L w" and gen: "generation_at (w_disk w) (os_checkpoint_n (w_mem w)) (hot_core (w_mem w))"
    and pos: "os_checkpoint_pos (w_mem w) = now_pos (w_mem w)" and last: "\<And>k. last_n = Some k \<Longrightarrow> safe_generation k"
    and v: "w_disk v = (w_disk w)\<lparr>dk_manifest := next_manifest clean last_n (w_mem w)\<rparr>"
      "w_mem v = w_mem w \<or> w_mem v = (w_mem w)\<lparr>os_manifest := next_manifest clean last_n (w_mem w)\<rparr>"
  shows "store_ok L v"
proof -
  let ?S = "w_mem w" and ?d = "w_disk w" and ?m = "next_manifest clean last_n (w_mem w)"
  have d: "receipts_at (w_disk v) k = receipts_at ?d k" "cold_at (w_disk v) c = cold_at ?d c" "names_safe (w_disk v) = names_safe ?d"
    "generation_at (w_disk v) k x = generation_at ?d k x" "dk_manifest (w_disk v) = ?m" for k c x
    by (simp_all add: v(1) receipts_at_def cold_at_def names_safe_def generation_at_def)
  have prev: "case mf_receipts_prev ?m of None \<Rightarrow> True | Some k \<Rightarrow> receipts_at ?d k"
    using ok by (auto simp: next_manifest_def Let_def store_ok_def gens_ok_def)
  have gens: "gens_ok ?S ?d" using ok by (simp add: store_ok_def)
  have lastm: "case mf_last_checkpoint ?m of None \<Rightarrow> True | Some k \<Rightarrow> safe_generation k"
    using gens last by (auto simp: next_manifest_def gens_ok_def split: option.splits)
  have "published (w_disk v) ?m (hot_core ?S) (os_cold ?S)"
    using gens gen prev lastm unfolding published_def d by (simp add: next_manifest_def gens_ok_def)
  moreover have "past (now_pos ?S) L = []"
    using ok by (auto simp: past_def filter_empty_conv store_ok_def comparePos_le)
  moreover have "mem_ok ?S" using ok by (simp add: store_ok_def)
  ultimately have "answers L ?S (w_disk v) (hot_core ?S) (os_cold ?S)"
    unfolding answers_def d by (simp add: next_manifest_def pos agrees_refl mem_ok_def)
  then have "answers L (w_mem v) (w_disk v) (hot_core ?S) (os_cold ?S)" using v(2) by (elim disjE) (simp_all add: answers_def)
  moreover have "gens_ok (w_mem v) (w_disk v)" using v(2) gens lastm unfolding gens_ok_def d by auto
  moreover have "mem_ok (w_mem v)" "now_pos (w_mem v) = now_pos ?S"
    using v(2) ok by (elim disjE; simp add: store_ok_def mem_ok_def)+
  ultimately show ?thesis using ok unfolding store_ok_def by auto
qed

section \<open>The checkpoint\<close>

definition same_files :: "world \<Rightarrow> world \<Rightarrow> bool" where
  "same_files w v \<longleftrightarrow> dk_segments (w_disk v) = dk_segments (w_disk w) \<and> busy_of (w_mem v) = busy_of (w_mem w)
     \<and> told v = told w \<and> no_short v"

lemma same_files_trans: "same_files w v \<Longrightarrow> same_files v u \<Longrightarrow> same_files w u"
  by (simp add: same_files_def)

lemma told_cong: "w_out v = w_out w \<Longrightarrow> told v = told w"
  by (simp add: told_def)

lemma post_sel [simp]: "w_mem (post m w) = w_mem w" "w_disk (post m w) = w_disk w" "w_io (post m w) = w_io w" "w_out (post m w) = w_out w @ [m]"
  by (simp_all add: post_def)

text \<open>After a checkpoint that did not fail, writing the manifest again changes only its closing mark.\<close>

definition republishes :: "world \<Rightarrow> bool" where
  "republishes v \<longleftrightarrow> generation_at (w_disk v) (os_checkpoint_n (w_mem v)) (hot_core (w_mem v))
     \<and> os_checkpoint_pos (w_mem v) = now_pos (w_mem v)"

lemma write_checkpoint_ok:
  assumes ok: "store_ok L w" and io: "no_short w" and re: "republishes w" and last: "\<And>k. last_n = Some k \<Longrightarrow> safe_generation k"
  obtains r v where "writeManifest clean last_n w = (r, v)" "store_ok L v" "same_files w v" "r = None \<longrightarrow> republishes v"
  using io
proof (cases rule: writeManifest_cases [where clean = clean and last_n = last_n])
  case (before e v)
  then show thesis using that [of "Some e" v] ok store_ok_grows [OF ok, of v] by (simp add: same_files_def told_cong [of v w])
next
  case (renamed e v)
  have "store_ok L v" using publish_ok [OF ok _ _ last] re renamed by (simp add: republishes_def)
  then show thesis using that [of "Some e" v] renamed by (simp add: same_files_def told_cong [of v w])
next
  case (complete v)
  have "store_ok L v" using publish_ok [OF ok _ _ last] re complete by (simp add: republishes_def)
  moreover have "republishes v" using re complete by (simp add: republishes_def generation_at_def receipts_at_def)
  ultimately show thesis using that [of None v] complete by (simp add: same_files_def busy_of_def told_cong [of v w])
qed

lemma checkpoint_files_ok:
  assumes ok: "store_ok L w" and io: "no_short w" and demote: "demote = filter P (map snd (os_hot (w_mem w)))"
    and n: "0 < n" "safe_int n" and cold: "cold = None \<Longrightarrow> demote = []"
      "\<And>k. cold = Some k \<Longrightarrow> safe_generation k \<and> (\<forall>c \<in> set (os_cold (w_mem w)). cf_n c < k)"
  obtains r v where "checkpoint_files env n cold demote w = (r, v)" "store_ok L v" "same_files w v" "r = None \<longrightarrow> republishes v"
proof -
  let ?S = "w_mem w" and ?lines = "hot_lines demote (w_mem w)"
  let ?due = "filter (\<lambda>(_, r). due_receipt r) (os_receipts (w_mem w))"
  let ?enter = "upd (enter_checkpoint env n cold demote)"
  let ?posts = "\<lambda>w. post (PostCompacted n (length demote)) (if demote = [] then w else post (PostDemoted (map tk_inject_id demote) n) w)"
  let ?one = "run_steps [demote_files cold demote, create_hot n ?lines]"
  let ?two = "run_steps [create_receipts n ?due, create_facts n (os_facts ?S), create_index, fsyncDir, fsyncDir]"
  have eq: "checkpoint_files env n cold demote w = (case ?one w of (Some e, v) \<Rightarrow> (Some e, v)
      | (None, v) \<Rightarrow> (case ?two (upd (tag_receipts n) v) of (Some e, u) \<Rightarrow> (Some e, u)
      | (None, u) \<Rightarrow> (case writeManifest False (Some n) (?enter u) of (Some e, t) \<Rightarrow> (Some e, t)
      | (None, t) \<Rightarrow> (None, ?posts t))))"
  proof -
    have "checkpoint_files env n cold demote w = run_steps ([demote_files cold demote, create_hot n ?lines] @ always (upd (tag_receipts n))
        # [create_receipts n ?due, create_facts n (os_facts ?S), create_index, fsyncDir, fsyncDir]
        @ always ?enter # writeManifest False (Some n) # [always ?posts]) w"
      unfolding checkpoint_files_def Let_def by simp
    then show ?thesis unfolding run_steps_append run_always run_steps.simps(2) [of "writeManifest False (Some n)"] run_steps.simps(1) .
  qed
  have mem: "ids_ok (map_of (os_hot ?S))" "distinct (map fst (os_hot ?S))" using ok by (simp_all add: store_ok_def mem_ok_def)
  have q1: "quiet ?one (\<lambda>d. (\<forall>k. cold = Some k \<longrightarrow> jm_get (dk_cold d) k = Some (Some demote)) \<and> jm_get (dk_hot d) n = Some (Some ?lines) \<and> True)"
    using cold(2) by (intro quiet_Cons quiet_demote quiet_create_hot n quiet_Nil stable_files)
      (auto simp: stable_def grows_def keeps_def)
  have q2: "quiet ?two (\<lambda>d. jm_get (dk_receipts d) n = Some (Some ?due) \<and> jm_get (dk_facts d) n = Some (Some (os_facts ?S)) \<and> True \<and> True \<and> True \<and> True)"
    by (intro quiet_Cons quiet_create_receipts quiet_create_facts quiet_index quiet_fsyncDir quiet_Nil stable_files stable_True n)
  obtain r v where v: "?one w = (r, v)" "w_mem v = w_mem w" "w_out v = w_out w" "no_short v" "grows (w_disk w) (w_disk v)"
    "r = None \<longrightarrow> (\<forall>k. cold = Some k \<longrightarrow> jm_get (dk_cold (w_disk v)) k = Some (Some demote)) \<and> jm_get (dk_hot (w_disk v)) n = Some (Some ?lines)"
    using quietE [OF q1 io] by metis
  have vok: "store_ok L v" "same_files w v"
    using store_ok_grows [OF ok v(5,2)] v by (simp_all add: same_files_def grows_def told_cong [of v w])
  show thesis
  proof (cases r)
    case (Some e)
    then show thesis using that [of "Some e" v] v(1) vok by (simp add: eq)
  next
    case None
    note r = None
    let ?v = "upd (tag_receipts n) v"
    obtain rs where tag: "tag_receipts n (w_mem v) = (w_mem v)\<lparr>os_receipts := rs\<rparr>" by (simp add: tag_receipts_def) 
    have vok': "store_ok L ?v" "same_files w ?v" "no_short ?v"
      using store_ok_receipts [OF vok(1), where v = ?v and rs = rs and a = "os_alloc_hot (w_mem v)" and b = "os_alloc_cold (w_mem v)"] tag vok(2) v(4)
      by (simp_all add: same_files_def busy_of_def told_def no_short_def)
    obtain q u where u: "?two ?v = (q, u)" "w_mem u = w_mem ?v" "w_out u = w_out ?v" "no_short u" "grows (w_disk ?v) (w_disk u)"
      "q = None \<longrightarrow> jm_get (dk_receipts (w_disk u)) n = Some (Some ?due) \<and> jm_get (dk_facts (w_disk u)) n = Some (Some (os_facts ?S))"
      using quietE [OF q2 vok'(3)] by metis
    have uok: "store_ok L u" "same_files w u"
      using store_ok_grows [OF vok'(1) u(5,2)] vok'(2) u by (simp_all add: same_files_def grows_def told_cong [of u ?v])
    show thesis
    proof (cases q)
      case (Some e)
      then show thesis using that [of "Some e" u] v(1) u(1) uok r by (simp add: eq)
    next
      case None
      have g: "grows (w_disk v) (w_disk u)" using u(5) by simp
      have hot: "jm_get (dk_hot (w_disk u)) n = Some (Some ?lines)" using v(6) r g by (simp add: grows_def keeps_def)
      have coldf: "jm_get (dk_cold (w_disk u)) k = Some (Some demote)" if "cold = Some k" for k
        using v(6) r g that by (simp add: grows_def keeps_def)
      have same: "os_hot (w_mem u) = os_hot ?S" "os_facts (w_mem u) = os_facts ?S" "os_cold (w_mem u) = os_cold ?S"
        using u(2) v(2) tag by simp_all
      have gen: "generation_at (w_disk u) n (without demote (map_of (os_hot (w_mem u))), os_facts (w_mem u))"
        using hot u(6) None n hot_lines_records [OF mem demote] by (auto simp: generation_at_def receipts_at_def same)
      have e: "store_ok L (?enter u) \<and> busy_of (w_mem (?enter u)) = busy_of (w_mem u) \<and> os_checkpoint_n (w_mem (?enter u)) = n
          \<and> os_checkpoint_pos (w_mem (?enter u)) = now_pos (w_mem (?enter u)) \<and> generation_at (w_disk (?enter u)) n (hot_core (w_mem (?enter u)))"
        using demote cold coldf by (intro enter_ok [OF uok(1) _ n(1) gen]) (auto simp: same)
      have en: "no_short (?enter u)" "same_files w (?enter u)" "republishes (?enter u)"
        using e u(4) uok(2) by (simp_all add: same_files_def told_def no_short_def republishes_def)
      obtain s t where t: "writeManifest False (Some n) (?enter u) = (s, t)" "store_ok L t" "same_files (?enter u) t" "s = None \<longrightarrow> republishes t"
        using write_checkpoint_ok [OF conjunct1 [OF e] en(1,3), of "Some n" False] n by (auto simp: safe_generation_def)
      note all = same_files_trans [OF en(2) t(3)]
      show thesis
      proof (cases s)
        case (Some x)
        then show thesis using that [of "Some x" t] v(1) u(1) r None t all by (simp add: eq)
      next
        case s: None
        have "store_ok L (?posts t)" using t(2) by (simp add: store_ok_def)
        moreover have "same_files w (?posts t)" using all by (simp add: same_files_def told_def no_short_def)
        moreover have "republishes (?posts t)" using t(4) s by (simp add: republishes_def)
        ultimately show thesis using that [of None "?posts t"] v(1) u(1) r None t(1) s by (simp add: eq)
      qed
    qed
  qed
qed

lemma above_cold: "c \<in> set cs \<Longrightarrow> cf_n c \<le> fold (\<lambda>c m. max m (cf_n c)) cs 0" and above_zero: "(0 :: int) \<le> fold (\<lambda>c m. max m (cf_n c)) cs 0"
proof -
  have "k \<le> fold (\<lambda>c m. max m (cf_n c)) cs k \<and> (\<forall>c \<in> set cs. cf_n c \<le> fold (\<lambda>c m. max m (cf_n c)) cs k)" for k
    by (induction cs arbitrary: k) (auto, (meson max.boundedE)+)
  then show "c \<in> set cs \<Longrightarrow> cf_n c \<le> fold (\<lambda>c m. max m (cf_n c)) cs 0" "0 \<le> fold (\<lambda>c m. max m (cf_n c)) cs 0" by blast+
qed

lemma checkpoint_now_ok:
  assumes ok: "store_ok L w" and io: "no_short w"
  obtains r v where "checkpoint_now env w = (r, v)" "store_ok L v" "same_files w v" "r = None \<longrightarrow> republishes v"
proof (cases "reserve_hot (w_mem w)")
  case None
  then show thesis using that [of "Some ''GENERATION_UNSAFE''" w] ok io by (simp add: checkpoint_now_def same_files_def)
next
  case (Some x)
  obtain n S where x: "x = (n, S)" by fastforce
  have n: "0 < n" "safe_int n" and S: "S = (w_mem w)\<lparr>os_alloc_hot := n\<rparr>"
    using Some ok by (auto simp: x reserve_hot_def Let_def store_ok_def gens_ok_def split: if_splits)
  let ?w = "w\<lparr>w_mem := S\<rparr>" and ?demote = "filter (demotionEligible S) (map snd (os_hot S))"
  have w: "store_ok L ?w" "no_short ?w" "same_files w ?w"
    using store_ok_receipts [OF ok, where v = ?w and rs = "os_receipts (w_mem w)" and a = n and b = "os_alloc_cold (w_mem w)"] io
    by (simp_all add: S no_short_def same_files_def busy_of_def told_def)
  show thesis
  proof (cases "?demote = []")
    case True
    obtain r v where v: "checkpoint_files env n None [] ?w = (r, v)" "store_ok L v" "same_files ?w v" "r = None \<longrightarrow> republishes v"
      by (rule checkpoint_files_ok [OF w(1,2) _ n, of "[]" "\<lambda>_. False" None env]) auto
    then show thesis using that [of r v] same_files_trans [OF w(3) v(3)] True by (simp add: checkpoint_now_def Some x Let_def)
  next
    case d: False
    show thesis
    proof (cases "reserve_cold S")
      case None
      then show thesis using that [of "Some ''GENERATION_UNSAFE''" ?w] w d by (simp add: checkpoint_now_def Some x Let_def)
    next
      case (Some y)
      obtain k T where y: "y = (k, T)" by fastforce
      have k: "safe_generation k" "\<forall>c \<in> set (os_cold S). cf_n c < k" and T: "T = S\<lparr>os_alloc_cold := k\<rparr>"
        using Some above_cold [of _ "os_cold S"] above_zero [of "os_cold S"]
        by (auto simp: y reserve_cold_def Let_def safe_generation_def split: if_splits) force
      let ?v = "w\<lparr>w_mem := T\<rparr>"
      have v: "store_ok L ?v" "no_short ?v" "same_files w ?v"
        using store_ok_receipts [OF w(1), where v = ?v and rs = "os_receipts S" and a = n and b = k] io
        by (simp_all add: S T no_short_def same_files_def busy_of_def told_def)
      obtain r u where u: "checkpoint_files env n (Some k) ?demote ?v = (r, u)" "store_ok L u" "same_files ?v u" "r = None \<longrightarrow> republishes u"
        using k by (auto intro: checkpoint_files_ok [OF v(1,2) _ n, of ?demote "demotionEligible S" "Some k" env] simp: T)
      then show thesis using that [of r u] same_files_trans [OF v(3) u(3)] d Some
        by (simp add: checkpoint_now_def \<open>reserve_hot (w_mem w) = Some x\<close> x y Let_def)
    qed
  qed
qed

end
