(* ===== verification/Ledger_Index.thy ===== *)
theory Ledger_Index
  imports Js_Prelude "HOL-Library.List_Lexorder"
begin

text \<open>
  The 32-byte index entries of \<open>src/session-store/ledger-format.js\<close>: 16 bytes of key, then file,
  offset, length and flags as big-endian numbers of 2, 6, 4 and 4 bytes; \<open>buildIndex\<close> sorts them
  by key, and \<open>findIndexEntries\<close> finds the entries of a key by binary search. A buffer is the
  list of its bytes; a key that is not a buffer is hashed first, outside the model.
\<close>

section \<open>Big-endian numbers\<close>

type_synonym bytes = "nat list"

fun write_be :: "nat \<Rightarrow> nat \<Rightarrow> bytes" where
  "write_be 0 v = []"
| "write_be (Suc n) v = write_be n (v div 256) @ [v mod 256]"

definition read_be :: "bytes \<Rightarrow> nat" where
  "read_be bs = foldl (\<lambda>v b. v * 256 + b) 0 bs"

lemma length_write_be [simp]: "length (write_be n v) = n"
  by (induction n arbitrary: v) simp_all

lemma read_be_snoc [simp]: "read_be (bs @ [b]) = read_be bs * 256 + b"
  by (simp add: read_be_def)

lemma read_write_be: "read_be (write_be n v) = v mod 256 ^ n"
proof (induction n arbitrary: v)
  case 0
  show ?case by (simp add: read_be_def)
next
  case (Suc n)
  have "v div 256 mod 256 ^ n * 256 + v mod 256 = v mod 256 ^ Suc n"
    by (simp add: mod_mult2_eq mult.commute)
  then show ?case by (simp add: Suc.IH)
qed

section \<open>Entries\<close>

record index_entry =
  ix_key :: bytes
  ix_file :: nat
  ix_offset :: nat
  ix_len :: nat
  ix_flags :: nat

definition index_entry_bytes :: nat where
  "index_entry_bytes = 32"

text \<open>\<open>writeUIntBE\<close> throws for an offset of more than 48 bits; the other fields are masked.\<close>

definition encodeIndexEntry :: "index_entry \<Rightarrow> bytes option" where
  "encodeIndexEntry e =
     (if ix_offset e \<ge> 2 ^ 48 then None
      else Some (take 16 (ix_key e @ replicate 16 0)
                 @ write_be 2 (ix_file e mod 2 ^ 16) @ write_be 6 (ix_offset e)
                 @ write_be 4 (ix_len e mod 2 ^ 32) @ write_be 4 (ix_flags e mod 2 ^ 32)))"

definition sub_bytes :: "bytes \<Rightarrow> nat \<Rightarrow> nat \<Rightarrow> bytes" where
  "sub_bytes buf from n = take n (drop from buf)"

definition decodeIndexEntry :: "bytes \<Rightarrow> nat \<Rightarrow> index_entry" where
  "decodeIndexEntry buf at =
     \<lparr>ix_key = sub_bytes buf at 16, ix_file = read_be (sub_bytes buf (at + 16) 2),
      ix_offset = read_be (sub_bytes buf (at + 18) 6), ix_len = read_be (sub_bytes buf (at + 24) 4),
      ix_flags = read_be (sub_bytes buf (at + 28) 4)\<rparr>"

fun concat_entries :: "index_entry list \<Rightarrow> bytes option" where
  "concat_entries [] = Some []"
| "concat_entries (e # es) =
     (case encodeIndexEntry e of None \<Rightarrow> None
      | Some b \<Rightarrow> (case concat_entries es of None \<Rightarrow> None | Some bs \<Rightarrow> Some (b @ bs)))"

text \<open>\<open>Array.prototype.sort\<close> is stable, and \<open>Buffer.compare\<close> is the lexicographic order.\<close>

definition buildIndex :: "index_entry list \<Rightarrow> bytes option" where
  "buildIndex es = concat_entries (sort_key ix_key es)"

section \<open>Search\<close>

function search_loop :: "bytes \<Rightarrow> bytes \<Rightarrow> int \<Rightarrow> int \<Rightarrow> int \<Rightarrow> int" where
  "search_loop buf k lo hi found =
     (if lo \<le> hi then
        let mid = (lo + hi) div 2;
            x = sub_bytes buf (nat mid * index_entry_bytes) 16
        in if x = k then search_loop buf k lo (mid - 1) mid
           else if x < k then search_loop buf k (mid + 1) hi found
           else search_loop buf k lo (mid - 1) found
      else found)"
  by pat_completeness auto

termination
  by (relation "measure (\<lambda>(_, _, lo, hi, _). nat (hi - lo + 1))") auto

declare search_loop.simps [simp del]

definition findIndexEntry :: "bytes \<Rightarrow> bytes \<Rightarrow> int" where
  "findIndexEntry buf k = search_loop buf k 0 (int (length buf div index_entry_bytes) - 1) (-1)"

function collect_loop :: "bytes \<Rightarrow> bytes \<Rightarrow> nat \<Rightarrow> index_entry list" where
  "collect_loop buf k i =
     (if i * index_entry_bytes < length buf
      then let e = decodeIndexEntry buf (i * index_entry_bytes)
           in if ix_key e \<noteq> k then [] else e # collect_loop buf k (Suc i)
      else [])"
  by pat_completeness auto

termination
  by (relation "measure (\<lambda>(buf, _, i). length buf - i)") (auto simp: index_entry_bytes_def)

declare collect_loop.simps [simp del]

definition findIndexEntries :: "bytes \<Rightarrow> bytes \<Rightarrow> index_entry list" where
  "findIndexEntries buf k =
     (let first = findIndexEntry buf k in if first = -1 then [] else collect_loop buf k (nat first))"

section \<open>Round trip of one entry\<close>

definition entry_ok :: "index_entry \<Rightarrow> bool" where
  "entry_ok e \<longleftrightarrow> length (ix_key e) = 16 \<and> ix_file e < 2 ^ 16 \<and> ix_offset e < 2 ^ 48
     \<and> ix_len e < 2 ^ 32 \<and> ix_flags e < 2 ^ 32"

lemma encode_entry:
  assumes "entry_ok e"
  shows "encodeIndexEntry e = Some (ix_key e @ write_be 2 (ix_file e) @ write_be 6 (ix_offset e)
     @ write_be 4 (ix_len e) @ write_be 4 (ix_flags e))"
  using assms by (simp add: encodeIndexEntry_def entry_ok_def)

lemma decode_entry:
  assumes "entry_ok e" "encodeIndexEntry e = Some b"
  shows "decodeIndexEntry (pre @ b @ rest) (length pre) = e"
proof -
  have b: "b = ix_key e @ write_be 2 (ix_file e) @ write_be 6 (ix_offset e) @ write_be 4 (ix_len e) @ write_be 4 (ix_flags e)"
    using assms encode_entry by simp
  have k: "length (ix_key e) = 16" using assms(1) by (simp add: entry_ok_def)
  show ?thesis
    unfolding decodeIndexEntry_def sub_bytes_def b
    using assms(1) k by (simp add: read_write_be entry_ok_def)
qed

section \<open>A whole index\<close>

lemma concat_entries_ok:
  assumes "list_all entry_ok es"
  shows "\<exists>buf. concat_entries es = Some buf \<and> length buf = 32 * length es
    \<and> (\<forall>i < length es. decodeIndexEntry buf (i * index_entry_bytes) = es ! i)"
proof -
  have "\<exists>buf. concat_entries es = Some buf \<and> length buf = 32 * length es
      \<and> (\<forall>pre i. i < length es \<longrightarrow> decodeIndexEntry (pre @ buf) (length pre + i * index_entry_bytes) = es ! i)"
    using assms
  proof (induction es)
    case Nil
    then show ?case by simp
  next
    case (Cons e es)
    then obtain bs where bs: "concat_entries es = Some bs" "length bs = 32 * length es"
      "\<And>pre i. i < length es \<Longrightarrow> decodeIndexEntry (pre @ bs) (length pre + i * index_entry_bytes) = es ! i" by auto
    obtain b where b: "encodeIndexEntry e = Some b" "length b = 32"
      using Cons.prems encode_entry [of e] by (auto simp: entry_ok_def)
    have "decodeIndexEntry (pre @ b @ bs) (length pre + i * index_entry_bytes) = (e # es) ! i"
      if "i < Suc (length es)" for pre i
    proof (cases i)
      case 0
      then show ?thesis using decode_entry [OF _ b(1), of pre bs] Cons.prems by simp
    next
      case (Suc j)
      then show ?thesis using bs(3) [of j "pre @ b"] b(2) that by (simp add: index_entry_bytes_def add.assoc)
    qed
    then show ?case using bs b by (intro exI [of _ "b @ bs"]) simp
  qed
  then obtain buf where "concat_entries es = Some buf" "length buf = 32 * length es"
    "\<forall>pre i. i < length es \<longrightarrow> decodeIndexEntry (pre @ buf) (length pre + i * index_entry_bytes) = es ! i" by blast
  moreover from this(3) have "decodeIndexEntry buf (i * index_entry_bytes) = es ! i" if "i < length es" for i
    using that by (metis append_Nil list.size(3) add_0)
  ultimately show ?thesis by blast
qed

text \<open>The binary search over any sorted list of keys the buffer reads as.\<close>

lemma search_loop_first:
  assumes key: "\<And>i. i < length ks \<Longrightarrow> sub_bytes buf (i * index_entry_bytes) 16 = ks ! i"
    and sorted: "sorted ks"
    and "0 \<le> lo" "hi < int (length ks)" "lo \<le> hi + 1"
    and below: "\<And>j. int j < lo \<Longrightarrow> ks ! j < k"
    and above: "\<And>j. hi < int j \<Longrightarrow> j < length ks \<Longrightarrow> k \<le> ks ! j"
    and found: "found = -1 \<and> (\<forall>j. hi < int j \<longrightarrow> j < length ks \<longrightarrow> k < ks ! j)
       \<or> found = hi + 1 \<and> nat found < length ks \<and> ks ! nat found = k"
  shows "(search_loop buf k lo hi found = -1 \<and> k \<notin> set ks)
    \<or> (\<exists>i < length ks. search_loop buf k lo hi found = int i \<and> ks ! i = k \<and> (\<forall>j < i. ks ! j < k))"
  using assms(3-)
proof (induction "nat (hi - lo + 1)" arbitrary: lo hi found rule: less_induct)
  case less
  have mono: "ks ! i \<le> ks ! j" if "i \<le> j" "j < length ks" for i j
    using sorted that by (rule sorted_nth_mono)
  show ?case
  proof (cases "lo \<le> hi")
    case False
    with less.prems(3) have lo: "lo = hi + 1" by simp
    have res: "search_loop buf k lo hi found = found" using False by (simp add: search_loop.simps)
    from less.prems(6) show ?thesis
    proof
      assume none: "found = -1 \<and> (\<forall>j. hi < int j \<longrightarrow> j < length ks \<longrightarrow> k < ks ! j)"
      have "ks ! j \<noteq> k" if "j < length ks" for j
        using none less.prems(4) [of j] that lo by (cases "hi < int j") auto
      then have "k \<notin> set ks" by (auto simp: in_set_conv_nth)
      with res none show ?thesis by simp
    next
      assume at: "found = hi + 1 \<and> nat found < length ks \<and> ks ! nat found = k"
      with less.prems(1,4) lo res show ?thesis by (intro disjI2 exI [of _ "nat found"]) auto
    qed
  next
    case True
    define mid where "mid = (lo + hi) div 2"
    define m where "m = nat mid"
    have mid: "lo \<le> mid" "mid \<le> hi" using True by (auto simp: mid_def)
    have m: "m < length ks" "int m = mid" using mid less.prems(1,2) by (auto simp: m_def)
    have x: "sub_bytes buf (nat mid * index_entry_bytes) 16 = ks ! m" using key [OF m(1)] by (simp add: m_def)
    note unfold = search_loop.simps [of buf k lo hi found, unfolded Let_def, folded mid_def, unfolded x]
    consider "ks ! m = k" | "ks ! m < k" | "k < ks ! m" by fastforce
    then show ?thesis
    proof cases
      case 1
      have "search_loop buf k lo hi found = search_loop buf k lo (mid - 1) mid" using unfold True 1 by simp
      moreover have "k \<le> ks ! j" if "mid - 1 < int j" "j < length ks" for j
        using mono [of m j] that m 1 by auto
      ultimately show ?thesis
        using less.hyps [of "mid - 1" lo mid] less.prems(1,4) mid m 1 less.prems(2) by auto
    next
      case 2
      have "search_loop buf k lo hi found = search_loop buf k (mid + 1) hi found" using unfold True 2 by auto
      moreover have "ks ! j < k" if "int j < mid + 1" for j
      proof -
        have "j \<le> m" using that m by simp
        then have "ks ! j \<le> ks ! m" using m by (intro mono) simp_all
        then show ?thesis using 2 by (rule le_less_trans)
      qed
      ultimately show ?thesis
        using less.hyps [of hi "mid + 1" found] less.prems mid by auto
    next
      case 3
      have eq: "search_loop buf k lo hi found = search_loop buf k lo (mid - 1) found" using unfold True 3 by auto
      have strict: "k < ks ! j" if "mid - 1 < int j" "j < length ks" for j
        using mono [of m j] that m 3 by (auto intro: less_le_trans)
      have "found \<noteq> hi + 1 \<or> \<not> nat found < length ks \<or> ks ! nat found \<noteq> k"
      proof (rule ccontr)
        assume "\<not> ?thesis"
        then have at: "found = hi + 1" "nat found < length ks" "ks ! nat found = k" by auto
        then have "m \<le> nat found" using m mid by linarith
        with at mono have "ks ! m \<le> k" by metis
        with 3 show False by simp
      qed
      then have "found = -1" using less.prems(6) by blast
      then show ?thesis
        using eq less.hyps [of "mid - 1" lo found] less.prems(1,2,4) strict mid by (auto intro: less_imp_le)
    qed
  qed
qed

lemma findIndexEntry_first:
  assumes "\<And>i. i < length ks \<Longrightarrow> sub_bytes buf (i * index_entry_bytes) 16 = ks ! i"
    and "sorted ks" "length buf = 32 * length ks"
  shows "(findIndexEntry buf k = -1 \<and> k \<notin> set ks)
    \<or> (\<exists>i < length ks. findIndexEntry buf k = int i \<and> ks ! i = k \<and> (\<forall>j < i. ks ! j < k))"
  unfolding findIndexEntry_def
  using assms by (intro search_loop_first) (auto simp: index_entry_bytes_def)

lemma collect_loop_run:
  assumes read: "\<And>i. i < length es \<Longrightarrow> decodeIndexEntry buf (i * index_entry_bytes) = es ! i"
    and len: "length buf = 32 * length es"
  shows "n \<le> length es \<Longrightarrow> collect_loop buf k (length es - n) = takeWhile (\<lambda>e. ix_key e = k) (drop (length es - n) es)"
proof (induction n)
  case 0
  then show ?case using len by (simp add: collect_loop.simps index_entry_bytes_def)
next
  case (Suc n)
  let ?i = "length es - Suc n"
  have i: "?i < length es" "Suc ?i = length es - n" using Suc.prems by auto
  have d: "drop ?i es = es ! ?i # drop (length es - n) es"
    using i by (metis Cons_nth_drop_Suc)
  have "?i * index_entry_bytes < length buf" using i len by (simp add: index_entry_bytes_def)
  then show ?case
    using Suc i by (subst collect_loop.simps) (simp add: d read [OF i(1)] Let_def i(2))
qed

text \<open>In a sorted list the entries of a key are one block.\<close>

lemma sorted_block:
  assumes "sorted (map f xs)" "i < length xs" "f (xs ! i) = k" "\<forall>j < i. f (xs ! j) < k"
  shows "takeWhile (\<lambda>x. f x = k) (drop i xs) = filter (\<lambda>x. f x = k) xs"
proof -
  have "filter (\<lambda>x. f x = k) (take i xs) = []"
    using assms(2,4) by (fastforce simp: filter_empty_conv in_set_conv_nth)
  moreover have "takeWhile (\<lambda>x. f x = k) ys = filter (\<lambda>x. f x = k) ys"
    if "sorted (map f ys)" "\<forall>y \<in> set ys. k \<le> f y" for ys
    using that
  proof (induction ys)
    case (Cons y ys)
    show ?case
    proof (cases "f y = k")
      case False
      then have "\<forall>z \<in> set ys. f z \<noteq> k" using Cons.prems by fastforce
      then show ?thesis using False by (auto simp: filter_empty_conv)
    qed (use Cons in auto)
  qed simp
  moreover have "\<forall>y \<in> set (drop i xs). k \<le> f y"
  proof
    fix y
    assume "y \<in> set (drop i xs)"
    then obtain j where "y = xs ! (i + j)" "i + j < length xs" by (auto simp: in_set_conv_nth)
    then show "k \<le> f y" using sorted_nth_mono [OF assms(1), of i "i + j"] assms(2,3) by simp
  qed
  moreover have "sorted (map f (drop i xs))" using assms(1) by (simp add: drop_map [symmetric] sorted_wrt_drop)
  moreover have "filter (\<lambda>x. f x = k) xs = filter (\<lambda>x. f x = k) (take i xs) @ filter (\<lambda>x. f x = k) (drop i xs)"
    by (metis append_take_drop_id filter_append)
  ultimately show ?thesis by simp
qed

text \<open>
  C30. A built index answers every lookup: for entries whose fields fit their width, the index
  is built, and looking up any key returns exactly the entries with that key, field by field
  and in the order they were given, and nothing for a key that is not there.
\<close>

theorem index_lookup_correct:
  assumes ok: "list_all entry_ok es"
  shows "\<exists>buf. buildIndex es = Some buf \<and> length buf = 32 * length es
    \<and> findIndexEntries buf k = filter (\<lambda>e. ix_key e = k) es"
proof -
  let ?s = "sort_key ix_key es"
  have "list_all entry_ok ?s" using ok by (simp add: list_all_iff)
  from concat_entries_ok [OF this] obtain buf where buf: "concat_entries ?s = Some buf" "length buf = 32 * length ?s"
    and read: "\<forall>i < length ?s. decodeIndexEntry buf (i * index_entry_bytes) = ?s ! i" by blast
  note buf = buf read [rule_format]
  have keys: "sub_bytes buf (i * index_entry_bytes) 16 = map ix_key ?s ! i" if "i < length (map ix_key ?s)" for i
    using arg_cong [OF buf(3), of i ix_key] that by (simp add: decodeIndexEntry_def)
  have "(findIndexEntry buf k = -1 \<and> k \<notin> set (map ix_key ?s))
      \<or> (\<exists>i < length (map ix_key ?s). findIndexEntry buf k = int i \<and> map ix_key ?s ! i = k
          \<and> (\<forall>j < i. map ix_key ?s ! j < k))"
    using keys buf(2) by (intro findIndexEntry_first) simp_all
  then have "findIndexEntries buf k = filter (\<lambda>e. ix_key e = k) ?s"
  proof (elim disjE)
    assume "findIndexEntry buf k = -1 \<and> k \<notin> set (map ix_key ?s)"
    moreover from this have "filter (\<lambda>e. ix_key e = k) ?s = []" by (auto simp: filter_empty_conv)
    ultimately show ?thesis by (simp add: findIndexEntries_def)
  next
    assume "\<exists>i < length (map ix_key ?s). findIndexEntry buf k = int i \<and> map ix_key ?s ! i = k
        \<and> (\<forall>j < i. map ix_key ?s ! j < k)"
    then obtain i where i: "i < length ?s" "findIndexEntry buf k = int i" "ix_key (?s ! i) = k"
      "\<forall>j < i. ix_key (?s ! j) < k" by auto
    have "collect_loop buf k i = takeWhile (\<lambda>e. ix_key e = k) (drop i ?s)"
      using collect_loop_run [OF buf(3) buf(2), of "length ?s - i" k] i(1) by simp
    also have "\<dots> = filter (\<lambda>e. ix_key e = k) ?s" using i by (intro sorted_block) auto
    finally show ?thesis using i(2) by (simp add: findIndexEntries_def)
  qed
  also have "\<dots> = filter (\<lambda>e. ix_key e = k) es" by (simp add: filter_sort [symmetric] sort_key_stable)
  finally show ?thesis using buf(1,2) by (intro exI [of _ buf]) (simp add: buildIndex_def)
qed

definition sample_entry :: "nat \<Rightarrow> nat \<Rightarrow> index_entry" where
  "sample_entry k n = \<lparr>ix_key = replicate 16 k, ix_file = 1, ix_offset = n, ix_len = 7, ix_flags = 0\<rparr>"

theorem index_lookup_correct_witness:
  "\<exists>buf. buildIndex [sample_entry 9 70000, sample_entry 3 5, sample_entry 9 80] = Some buf
     \<and> findIndexEntries buf (replicate 16 9) = [sample_entry 9 70000, sample_entry 9 80]"
proof -
  have ok: "list_all entry_ok [sample_entry 9 70000, sample_entry 3 5, sample_entry 9 80]"
    by (simp add: sample_entry_def entry_ok_def)
  from index_lookup_correct [OF this, of "replicate 16 9"] show ?thesis
    by (auto simp: sample_entry_def)
qed

end
