(* ===== verification/Ledger_Accounting.thy ===== *)
theory Ledger_Accounting
  imports Js_Prelude
begin

text \<open>
  The admission accounting of \<open>src/session-store/ledger-format.js\<close> (\<open>classify\<close> and
  \<open>createAccounting\<close>): five classes of deltas with a budget of entries and bytes each, a
  reservation of one terminal and two result units per job, a shared sub-pool of results, and a
  reservation per interaction. Byte counts are integers.
\<close>

section \<open>Classes and budgets\<close>

datatype delta_class = ClassT | ClassR | ClassL | ClassO | ClassI

record classified =
  cl_kind :: string
  cl_emitted_via :: "string option"

definition result_kinds :: "string list" where
  "result_kinds = [''inject_parked'', ''session_process_exited'', ''session_dead'',
     ''idle_quiet_observed'', ''task_idle_unconfirmed'', ''ready_frame_observed'']"

definition classify :: "string \<Rightarrow> classified option \<Rightarrow> bool \<Rightarrow> delta_class" where
  "classify kind ob result =
     (if kind = ''state'' then ClassT
      else if kind = ''fact'' \<or> kind = ''reheat'' then ClassL
      else if kind = ''iact'' then ClassI
      else if kind = ''begin'' then ClassT
      else if kind = ''obs'' then
        (if result then ClassR
         else case ob of
           None \<Rightarrow> ClassO
         | Some x \<Rightarrow>
             if (case cl_emitted_via x of None \<Rightarrow> False | Some v \<Rightarrow> v \<noteq> [] \<and> v \<noteq> ''transition'') then ClassR
             else if cl_kind x \<in> set result_kinds \<or> cl_kind x = ''inject_parked'' then ClassR
             else ClassO)
      else ClassO)"

fun pool_entries :: "delta_class \<Rightarrow> int" where
  "pool_entries ClassT = 512"
| "pool_entries ClassR = 1152"
| "pool_entries ClassL = 64"
| "pool_entries ClassO = 1024"
| "pool_entries ClassI = 12"

fun pool_bytes :: "delta_class \<Rightarrow> int" where
  "pool_bytes ClassT = 8388608"
| "pool_bytes ClassR = 18874368"
| "pool_bytes ClassL = 4194304"
| "pool_bytes ClassO = 4194304"
| "pool_bytes ClassI = 4259840"

text \<open>The constants of \<open>POOLS\<close>, \<open>POOL_TOTALS\<close> and \<open>R_MAX_JOBS\<close>.\<close>

definition pool_unit :: int where
  "pool_unit = 16384"

definition reserved_per_job :: int where
  "reserved_per_job = 2"

definition shared_entries :: int where
  "shared_entries = 128"

definition per_act_entries :: int where
  "per_act_entries = 3"

definition per_act_bytes :: int where
  "per_act_bytes = 1064960"

definition concurrent_acts :: nat where
  "concurrent_acts = 4"

definition max_jobs :: int where
  "max_jobs = 512"

definition total_entries :: int where
  "total_entries = 2764"

definition total_bytes :: int where
  "total_bytes = 39911424"

definition sustained_ms :: int where
  "sustained_ms = 5000"

section \<open>State\<close>

record usage =
  us_entries :: int
  us_bytes :: int

record job =
  jb_r_used :: int
  jb_t_used :: bool

record accounting =
  ac_inflight :: "delta_class \<Rightarrow> usage"
  ac_shared :: usage
  ac_jobs :: "(string, job) jsmap"
  ac_acts :: "string list"
  ac_rejection :: "delta_class \<Rightarrow> int"
  ac_room :: "delta_class \<Rightarrow> int"

definition no_usage :: usage where
  "no_usage = \<lparr>us_entries = 0, us_bytes = 0\<rparr>"

definition createAccounting :: accounting where
  "createAccounting = \<lparr>ac_inflight = (\<lambda>_. no_usage), ac_shared = no_usage, ac_jobs = [], ac_acts = [],
     ac_rejection = (\<lambda>_. 0), ac_room = (\<lambda>_. 0)\<rparr>"

definition use_more :: "usage \<Rightarrow> int \<Rightarrow> usage" where
  "use_more u b = \<lparr>us_entries = us_entries u + 1, us_bytes = us_bytes u + b\<rparr>"

definition use_less :: "usage \<Rightarrow> int \<Rightarrow> usage" where
  "use_less u b = \<lparr>us_entries = max 0 (us_entries u - 1), us_bytes = max 0 (us_bytes u - b)\<rparr>"

definition charge :: "delta_class \<Rightarrow> int \<Rightarrow> accounting \<Rightarrow> accounting" where
  "charge c b s = s\<lparr>ac_inflight := (ac_inflight s)(c := use_more (ac_inflight s c) b)\<rparr>"

definition has_room :: "accounting \<Rightarrow> delta_class \<Rightarrow> int \<Rightarrow> int \<Rightarrow> bool" where
  "has_room s c entries bytes \<longleftrightarrow> us_entries (ac_inflight s c) + entries \<le> pool_entries c
     \<and> us_bytes (ac_inflight s c) + bytes \<le> pool_bytes c"

definition poolFull :: "accounting \<Rightarrow> delta_class \<Rightarrow> bool" where
  "poolFull s c =
     (if c = ClassR then us_entries (ac_shared s) + 1 > shared_entries
        \<or> us_bytes (ac_shared s) + pool_unit > shared_entries * pool_unit
      else \<not> has_room s c 1 pool_unit)"

fun exhaustion_scan :: "int \<Rightarrow> delta_class list \<Rightarrow> accounting \<Rightarrow> accounting \<times> delta_class option" where
  "exhaustion_scan t [] s = (s, None)"
| "exhaustion_scan t (c # cs) s =
     (let full = poolFull s c;
          s' = (if full then s else s\<lparr>ac_room := (ac_room s)(c := t)\<rparr>)
      in if ac_rejection s' c \<noteq> 0 \<and> t - ac_rejection s' c \<le> sustained_ms \<and> full then (s', Some c)
         else if ac_rejection s' c \<noteq> 0 \<and> full \<and> t - ac_room s' c \<ge> sustained_ms then (s', Some c)
         else exhaustion_scan t cs s')"

definition sustainedExhaustion :: "int \<Rightarrow> accounting \<Rightarrow> accounting \<times> delta_class option" where
  "sustainedExhaustion t s = exhaustion_scan t [ClassO, ClassR, ClassL] s"

section \<open>Operations\<close>

datatype reserve_result = Reserved bool | NotReserved string "delta_class option"

definition reserveJob :: "string \<Rightarrow> int \<Rightarrow> accounting \<Rightarrow> accounting \<times> reserve_result" where
  "reserveJob i t s =
     (if jm_has (ac_jobs s) i then (s, Reserved True)
      else let n = int (length (ac_jobs s)) + 1 in
      if n > max_jobs then (s, NotReserved ''tracking_capacity_exhausted'' None)
      else let (s, sustained) = sustainedExhaustion t s in
      if sustained \<noteq> None then (s, NotReserved ''sustained_exhaustion'' sustained)
      else if n > pool_entries ClassT \<or> n * pool_unit > pool_bytes ClassT
      then (s, NotReserved ''tracking_capacity_exhausted'' None)
      else if n * reserved_per_job > pool_entries ClassR - shared_entries
        \<or> n * reserved_per_job * pool_unit > pool_bytes ClassR - shared_entries * pool_unit
      then (s, NotReserved ''tracking_capacity_exhausted'' None)
      else (s\<lparr>ac_jobs := jm_set i \<lparr>jb_r_used = 0, jb_t_used = False\<rparr> (ac_jobs s)\<rparr>, Reserved False))"

definition releaseJob :: "string \<Rightarrow> accounting \<Rightarrow> accounting" where
  "releaseJob i s = s\<lparr>ac_jobs := jm_delete i (ac_jobs s)\<rparr>"

datatype admit_result = Admitted bool | Refused string string

definition job_of :: "string option \<Rightarrow> accounting \<Rightarrow> job option" where
  "job_of jobId s = (case jobId of None \<Rightarrow> None | Some i \<Rightarrow> if i = [] then None else jm_get (ac_jobs s) i)"

definition set_job :: "string option \<Rightarrow> job \<Rightarrow> accounting \<Rightarrow> accounting" where
  "set_job jobId j s = (case jobId of None \<Rightarrow> s | Some i \<Rightarrow> s\<lparr>ac_jobs := jm_set i j (ac_jobs s)\<rparr>)"

definition admit_terminal :: "int \<Rightarrow> string option \<Rightarrow> accounting \<Rightarrow> accounting \<times> admit_result" where
  "admit_terminal b jobId s =
     (case job_of jobId s of
        None \<Rightarrow> (s, Refused ''tracking_capacity_exhausted'' ''no_job_reservation'')
      | Some j \<Rightarrow>
          if jb_t_used j then (s, Refused ''tracking_capacity_exhausted'' ''terminal_unit_inflight'')
          else if b > pool_unit then (s, Refused ''tracking_capacity_exhausted'' ''above_reserved_unit'')
          else if \<not> has_room s ClassT 1 b then (s, Refused ''tracking_capacity_exhausted'' ''pool'')
          else (charge ClassT b (set_job jobId (j\<lparr>jb_t_used := True\<rparr>) s), Admitted True))"

definition admit_result_class :: "int \<Rightarrow> string option \<Rightarrow> int \<Rightarrow> accounting \<Rightarrow> accounting \<times> admit_result" where
  "admit_result_class b jobId t s =
     (case (case job_of jobId s of None \<Rightarrow> None
            | Some j \<Rightarrow> if jb_r_used j < reserved_per_job \<and> b \<le> pool_unit \<and> has_room s ClassR 1 b
                       then Some j else None) of
        Some j \<Rightarrow> (charge ClassR b (set_job jobId (j\<lparr>jb_r_used := jb_r_used j + 1\<rparr>) s), Admitted True)
      | None \<Rightarrow>
          if us_entries (ac_shared s) + 1 > shared_entries
            \<or> us_bytes (ac_shared s) + b > shared_entries * pool_unit \<or> \<not> has_room s ClassR 1 b
          then (s\<lparr>ac_rejection := (ac_rejection s)(ClassR := t)\<rparr>, Refused ''tracking_capacity_result'' [])
          else ((charge ClassR b s)\<lparr>ac_room := (ac_room s)(ClassR := t), ac_shared := use_more (ac_shared s) b\<rparr>,
                Admitted False))"

definition admit_action :: "int \<Rightarrow> accounting \<Rightarrow> accounting \<times> admit_result" where
  "admit_action b s =
     (let acts = int (length (ac_acts s));
          maxEntries = min (pool_entries ClassI) (acts * per_act_entries);
          maxBytes = min (pool_bytes ClassI) (acts * per_act_bytes) in
      if acts = 0 then (s, Refused ''tracking_capacity_exhausted'' ''no_act_reservation'')
      else if us_entries (ac_inflight s ClassI) + 1 > maxEntries \<or> us_bytes (ac_inflight s ClassI) + b > maxBytes
      then (s, Refused ''tracking_capacity_exhausted'' ''act_reservation_or_pool'')
      else (charge ClassI b s, Admitted True))"

definition admit_pooled :: "delta_class \<Rightarrow> int \<Rightarrow> int \<Rightarrow> accounting \<Rightarrow> accounting \<times> admit_result" where
  "admit_pooled c b t s =
     (if \<not> has_room s c 1 b
      then (s\<lparr>ac_rejection := (ac_rejection s)(c := t)\<rparr>, Refused ''tracking_backpressure'' [])
      else ((charge c b s)\<lparr>ac_room := (ac_room s)(c := t)\<rparr>, Admitted False))"

definition admit :: "delta_class \<Rightarrow> int \<Rightarrow> string option \<Rightarrow> int \<Rightarrow> accounting \<Rightarrow> accounting \<times> admit_result" where
  "admit c b jobId t s =
     (if b < 0 then (s, Refused ''invalid_bytes'' [])
      else case c of
        ClassT \<Rightarrow> admit_terminal b jobId s
      | ClassR \<Rightarrow> admit_result_class b jobId t s
      | ClassI \<Rightarrow> admit_action b s
      | _ \<Rightarrow> admit_pooled c b t s)"

definition release :: "delta_class \<Rightarrow> int \<Rightarrow> string option \<Rightarrow> bool \<Rightarrow> accounting \<Rightarrow> accounting \<times> bool" where
  "release c b jobId reserved s =
     (if b < 0 then (s, False)
      else let s1 = s\<lparr>ac_inflight := (ac_inflight s)(c := use_less (ac_inflight s c) b)\<rparr>;
               s2 = (case job_of jobId s1 of
                       Some j \<Rightarrow> if c = ClassT \<and> reserved then set_job jobId (j\<lparr>jb_t_used := False\<rparr>) s1 else s1
                     | None \<Rightarrow> s1);
               s3 = (if c = ClassR \<and> \<not> reserved then s2\<lparr>ac_shared := use_less (ac_shared s2) b\<rparr> else s2)
           in (s3, True))"

definition reserveAct :: "string \<Rightarrow> accounting \<Rightarrow> accounting \<times> bool" where
  "reserveAct sid s =
     (if sid \<in> set (ac_acts s) then (s, False)
      else if length (ac_acts s) + 1 > concurrent_acts then (s, False)
      else (s\<lparr>ac_acts := ac_acts s @ [sid]\<rparr>, True))"

definition releaseAct :: "string \<Rightarrow> accounting \<Rightarrow> accounting" where
  "releaseAct sid s = s\<lparr>ac_acts := filter (\<lambda>x. x \<noteq> sid) (ac_acts s)\<rparr>"

definition all_classes :: "delta_class list" where
  "all_classes = [ClassT, ClassR, ClassL, ClassO, ClassI]"

definition sum_entries :: "accounting \<Rightarrow> int" where
  "sum_entries s = sum_list (map (\<lambda>c. us_entries (ac_inflight s c)) all_classes)"

definition sum_bytes :: "accounting \<Rightarrow> int" where
  "sum_bytes s = sum_list (map (\<lambda>c. us_bytes (ac_inflight s c)) all_classes)"

definition accounting_check :: "accounting \<Rightarrow> bool" where
  "accounting_check s \<longleftrightarrow>
     list_all (\<lambda>c. us_entries (ac_inflight s c) \<le> pool_entries c \<and> us_bytes (ac_inflight s c) \<le> pool_bytes c) all_classes
     \<and> us_entries (ac_shared s) \<le> shared_entries \<and> us_bytes (ac_shared s) \<le> shared_entries * pool_unit
     \<and> sum_entries s \<le> total_entries \<and> sum_bytes s \<le> total_bytes"

section \<open>The budgets hold\<close>

lemmas budget_defs = pool_unit_def reserved_per_job_def shared_entries_def per_act_entries_def per_act_bytes_def
  concurrent_acts_def max_jobs_def total_entries_def total_bytes_def

definition within :: "int \<Rightarrow> int \<Rightarrow> usage \<Rightarrow> bool" where
  "within e b u \<longleftrightarrow> us_entries u \<le> e \<and> us_bytes u \<le> b"

definition budgets :: "accounting \<Rightarrow> bool" where
  "budgets s \<longleftrightarrow> (\<forall>c. within (pool_entries c) (pool_bytes c) (ac_inflight s c))
     \<and> within shared_entries (shared_entries * pool_unit) (ac_shared s)"

lemma budgets_check: "budgets s \<Longrightarrow> accounting_check s"
proof -
  assume b: "budgets s"
  then have w: "us_entries (ac_inflight s c) \<le> pool_entries c" "us_bytes (ac_inflight s c) \<le> pool_bytes c" for c
    by (auto simp: budgets_def within_def)
  have "sum_entries s \<le> total_entries" "sum_bytes s \<le> total_bytes"
    using w [of ClassT] w [of ClassR] w [of ClassL] w [of ClassO] w [of ClassI]
    by (simp_all add: sum_entries_def sum_bytes_def all_classes_def budget_defs)
  with b w show ?thesis by (auto simp: accounting_check_def budgets_def within_def all_classes_def)
qed

lemma job_updates [simp]:
  "ac_inflight (set_job jobId j s) = ac_inflight s" "ac_shared (set_job jobId j s) = ac_shared s"
  "ac_acts (set_job jobId j s) = ac_acts s"
  by (simp_all add: set_job_def split: option.splits)

lemma charge_simps [simp]:
  "ac_inflight (charge c b s) = (ac_inflight s)(c := use_more (ac_inflight s c) b)"
  "ac_shared (charge c b s) = ac_shared s" "ac_jobs (charge c b s) = ac_jobs s" "ac_acts (charge c b s) = ac_acts s"
  by (simp_all add: charge_def)

lemma within_more: "within e x (use_more u b) \<longleftrightarrow> us_entries u + 1 \<le> e \<and> us_bytes u + b \<le> x"
  by (simp add: within_def use_more_def)

lemma within_less: "within e x u \<Longrightarrow> 0 \<le> e \<Longrightarrow> 0 \<le> x \<Longrightarrow> 0 \<le> b \<Longrightarrow> within e x (use_less u b)"
  by (auto simp: within_def use_less_def)

lemma pool_nonneg [simp]: "0 \<le> pool_entries c" "0 \<le> pool_bytes c"
  by (cases c; simp)+

lemma exhaustion_frame:
  "ac_inflight (fst (exhaustion_scan t cs s)) = ac_inflight s \<and> ac_shared (fst (exhaustion_scan t cs s)) = ac_shared s
   \<and> ac_jobs (fst (exhaustion_scan t cs s)) = ac_jobs s \<and> ac_acts (fst (exhaustion_scan t cs s)) = ac_acts s"
  by (induction cs arbitrary: s) (auto simp: Let_def)

lemma budgets_charge:
  "budgets s \<Longrightarrow> has_room s c 1 b \<Longrightarrow> budgets (charge c b s)"
  by (auto simp: budgets_def has_room_def within_more)

lemma budgets_frame:
  "ac_inflight s' = ac_inflight s \<Longrightarrow> ac_shared s' = ac_shared s \<Longrightarrow> budgets s' = budgets s"
  by (simp add: budgets_def)

lemma budgets_admit: "budgets s \<Longrightarrow> budgets (fst (admit c b jobId t s))"
proof -
  assume inv: "budgets s"
  have charge: "has_room s c 1 b \<Longrightarrow> budgets (charge c b (set_job jobId j s))" for c j
    using inv budgets_charge [of "set_job jobId j s" c b] by (simp add: has_room_def budgets_def)
  show ?thesis
  proof (cases c)
    case ClassT
    then show ?thesis using inv charge by (auto simp: admit_def admit_terminal_def split: option.splits)
  next
    case ClassR
    then show ?thesis
      using inv charge
      by (auto simp: admit_def admit_result_class_def budgets_def has_room_def within_more split: option.splits)
  next
    case ClassI
    then show ?thesis
      using inv by (auto simp: admit_def admit_action_def Let_def budgets_def within_more)
  qed (use inv in \<open>auto simp: admit_def admit_pooled_def budgets_def has_room_def within_more\<close>)
qed

lemma release_usage:
  "ac_inflight (fst (release c b jobId reserved s)) =
     (if b < 0 then ac_inflight s else (ac_inflight s)(c := use_less (ac_inflight s c) b))"
  "ac_shared (fst (release c b jobId reserved s)) =
     (if \<not> b < 0 \<and> c = ClassR \<and> \<not> reserved then use_less (ac_shared s) b else ac_shared s)"
  by (auto simp: release_def Let_def split: option.splits)

lemma budgets_release:
  assumes "budgets s"
  shows "budgets (fst (release c b jobId reserved s))"
proof -
  have "0 \<le> shared_entries" "0 \<le> shared_entries * pool_unit" by (simp_all add: budget_defs)
  then show ?thesis
    using assms by (simp add: budgets_def release_usage within_less del: pool_entries.simps pool_bytes.simps)
qed

datatype acc_op =
    OpReserveJob string int
  | OpReleaseJob string
  | OpAdmit delta_class int "string option" int
  | OpRelease delta_class int "string option" bool
  | OpReserveAct string
  | OpReleaseAct string
  | OpExhaustion int

fun apply_acc :: "acc_op \<Rightarrow> accounting \<Rightarrow> accounting" where
  "apply_acc (OpReserveJob i t) s = fst (reserveJob i t s)"
| "apply_acc (OpReleaseJob i) s = releaseJob i s"
| "apply_acc (OpAdmit c b jobId t) s = fst (admit c b jobId t s)"
| "apply_acc (OpRelease c b jobId r) s = fst (release c b jobId r s)"
| "apply_acc (OpReserveAct sid) s = fst (reserveAct sid s)"
| "apply_acc (OpReleaseAct sid) s = releaseAct sid s"
| "apply_acc (OpExhaustion t) s = fst (sustainedExhaustion t s)"

lemma reserveJob_frame:
  "ac_inflight (fst (reserveJob i t s)) = ac_inflight s \<and> ac_shared (fst (reserveJob i t s)) = ac_shared s
   \<and> ac_acts (fst (reserveJob i t s)) = ac_acts s"
  by (simp add: reserveJob_def Let_def sustainedExhaustion_def case_prod_unfold exhaustion_frame
      del: exhaustion_scan.simps)

lemma budgets_step: "budgets s \<Longrightarrow> budgets (apply_acc x s)"
proof (induction x s rule: apply_acc.induct)
  case (1 i t s)
  then show ?case using reserveJob_frame [of i t s] by (simp add: budgets_def)
next
  case (7 t s)
  then show ?case by (simp add: budgets_def sustainedExhaustion_def exhaustion_frame del: exhaustion_scan.simps)
next
  case (3 c b jobId t s)
  then show ?case by (simp add: budgets_admit)
next
  case (4 c b jobId r s)
  then show ?case by (simp add: budgets_release)
qed (simp_all add: releaseJob_def reserveAct_def releaseAct_def budgets_def)

interpretation ledger_budget: op_machine apply_acc "\<lambda>_. True" budgets
  by unfold_locales (rule budgets_step)

lemma budgets_fresh: "budgets createAccounting"
  by (simp add: budgets_def createAccounting_def within_def no_usage_def budget_defs)

text \<open>
  C29. The ledger never overcommits: after any sequence of reservations, admissions (of any
  class, size and job, at any time) and releases, matched or not, every class is within its
  pool, shared results are within their sub-pool, and the totals are within 2764 entries and
  39911424 bytes; so \<open>check()\<close> never reports a violation.
\<close>

theorem accounting_never_overcommits:
  "accounting_check (fold apply_acc ops createAccounting)"
  using ledger_budget.run_keeps [OF _ budgets_fresh, of ops] by (auto simp: list_all_iff intro: budgets_check)

end
