(* ===== verification/Ledger_Reservations.thy ===== *)
theory Ledger_Reservations
  imports Ledger_Accounting
begin

text \<open>
  What a job's reservation is worth. The callers of the accounting release exactly the units
  they were admitted with, and release a job only when none of its reserved units is out. Under
  that discipline the counters are exact, and a job that still has its terminal unit or one of
  its result units is always admitted, whatever the load.
\<close>

declare map_of_eq_Some_iff [simp del] Some_eq_map_of_iff [simp del]

record outstanding =
  un_class :: delta_class
  un_bytes :: int
  un_job :: "string option"
  un_reserved :: bool

definition job_unit :: "delta_class \<Rightarrow> string \<Rightarrow> outstanding \<Rightarrow> bool" where
  "job_unit c i u \<longleftrightarrow> un_class u = c \<and> un_reserved u \<and> un_job u = Some i"

text \<open>The accounting and the admitted units that have not been released yet.\<close>

inductive acc_run :: "accounting \<Rightarrow> outstanding list \<Rightarrow> bool" where
  run_start: "acc_run createAccounting []"
| run_reserve: "acc_run s out \<Longrightarrow> i \<noteq> [] \<Longrightarrow> acc_run (fst (reserveJob i t s)) out"
| run_release_job: "acc_run s out \<Longrightarrow> list_all (\<lambda>u. \<not> job_unit ClassT i u \<and> \<not> job_unit ClassR i u) out \<Longrightarrow>
     acc_run (releaseJob i s) out"
| run_admitted: "acc_run s out \<Longrightarrow> admit c b jobId t s = (s', Admitted r) \<Longrightarrow>
     acc_run s' (\<lparr>un_class = c, un_bytes = b, un_job = jobId, un_reserved = r\<rparr> # out)"
| run_refused: "acc_run s out \<Longrightarrow> admit c b jobId t s = (s', Refused why detail) \<Longrightarrow> acc_run s' out"
| run_release: "acc_run s out \<Longrightarrow> u \<in> set out \<Longrightarrow>
     acc_run (fst (release (un_class u) (un_bytes u) (un_job u) (un_reserved u) s)) (remove1 u out)"
| run_reserve_act: "acc_run s out \<Longrightarrow> acc_run (fst (reserveAct sid s)) out"
| run_release_act: "acc_run s out \<Longrightarrow> acc_run (releaseAct sid s) out"

section \<open>Counting units\<close>

definition count_units :: "(outstanding \<Rightarrow> bool) \<Rightarrow> outstanding list \<Rightarrow> int" where
  "count_units P out = int (length (filter P out))"

definition sum_units :: "(outstanding \<Rightarrow> bool) \<Rightarrow> outstanding list \<Rightarrow> int" where
  "sum_units P out = sum_list (map un_bytes (filter P out))"

lemma count_units_Nil [simp]: "count_units P [] = 0" "sum_units P [] = 0"
  by (simp_all add: count_units_def sum_units_def)

lemma count_units_Cons [simp]:
  "count_units P (u # out) = (if P u then 1 else 0) + count_units P out"
  "sum_units P (u # out) = (if P u then un_bytes u else 0) + sum_units P out"
  by (simp_all add: count_units_def sum_units_def)

lemma count_units_remove1:
  "u \<in> set out \<Longrightarrow> count_units P (remove1 u out) = count_units P out - (if P u then 1 else 0)"
  "u \<in> set out \<Longrightarrow> sum_units P (remove1 u out) = sum_units P out - (if P u then un_bytes u else 0)"
  by (induction out) auto

lemma count_units_nonneg [simp]: "0 \<le> count_units P out"
  by (simp add: count_units_def)

lemma sum_units_nonneg: "\<forall>u \<in> set out. 0 \<le> un_bytes u \<Longrightarrow> 0 \<le> sum_units P out"
  by (induction out) auto

lemma count_units_mem: "u \<in> set out \<Longrightarrow> P u \<Longrightarrow> 1 \<le> count_units P out"
  by (induction out) (auto intro: add_increasing)

lemma sum_units_mem: "u \<in> set out \<Longrightarrow> P u \<Longrightarrow> \<forall>u \<in> set out. 0 \<le> un_bytes u \<Longrightarrow> un_bytes u \<le> sum_units P out"
  using sum_units_nonneg [of "remove1 u out" P] count_units_remove1(2) [of u out P]
  using set_remove1_subset [of u out] by fastforce

lemma sum_units_bound:
  "\<forall>u \<in> set out. P u \<longrightarrow> un_bytes u \<le> m \<Longrightarrow> sum_units P out \<le> m * count_units P out"
  by (induction out) (auto simp: algebra_simps)

lemma count_units_split:
  assumes "finite K" and "\<forall>u \<in> set out. un_class u = c \<and> un_reserved u \<longrightarrow> (\<exists>i \<in> K. un_job u = Some i)"
  shows "count_units (\<lambda>u. un_class u = c \<and> un_reserved u) out = (\<Sum>i \<in> K. count_units (job_unit c i) out)"
  using assms(2)
proof (induction out)
  case (Cons u out)
  have "(\<Sum>i \<in> K. if job_unit c i u then 1 else 0) = (if un_class u = c \<and> un_reserved u then 1 else (0 :: int))"
  proof (cases "un_class u = c \<and> un_reserved u")
    case True
    then obtain i where "i \<in> K" "un_job u = Some i" using Cons.prems by auto
    then have "(\<lambda>k. if job_unit c k u then 1 else 0 :: int) = (\<lambda>k. if k = i then 1 else 0)"
      using True by (auto simp: job_unit_def fun_eq_iff)
    then have "(\<Sum>i \<in> K. if job_unit c i u then 1 else 0) = (\<Sum>k \<in> K. if k = i then 1 else (0 :: int))"
      by (rule arg_cong)
    then show ?thesis using True \<open>i \<in> K\<close> assms(1) by simp
  qed (auto simp: job_unit_def)
  then show ?case using Cons by (simp add: sum.distrib)
qed simp

section \<open>The counters are exact\<close>

definition unit_ok :: "accounting \<Rightarrow> outstanding \<Rightarrow> bool" where
  "unit_ok s u \<longleftrightarrow> 0 \<le> un_bytes u \<and> (un_class u = ClassT \<longrightarrow> un_reserved u)
     \<and> (un_class u \<in> {ClassT, ClassR} \<and> un_reserved u \<longrightarrow>
          un_bytes u \<le> pool_unit \<and> (\<exists>i. un_job u = Some i \<and> i \<noteq> [] \<and> jm_get (ac_jobs s) i \<noteq> None))"

definition job_ok :: "outstanding list \<Rightarrow> string \<Rightarrow> job \<Rightarrow> bool" where
  "job_ok out i j \<longleftrightarrow> i \<noteq> [] \<and> 0 \<le> jb_r_used j \<and> jb_r_used j \<le> reserved_per_job
     \<and> count_units (job_unit ClassT i) out = (if jb_t_used j then 1 else 0)
     \<and> count_units (job_unit ClassR i) out \<le> jb_r_used j"

definition usage_exact :: "accounting \<Rightarrow> outstanding list \<Rightarrow> bool" where
  "usage_exact s out \<longleftrightarrow>
     (\<forall>c. us_entries (ac_inflight s c) = count_units (\<lambda>u. un_class u = c) out
        \<and> us_bytes (ac_inflight s c) = sum_units (\<lambda>u. un_class u = c) out)
     \<and> us_entries (ac_shared s) = count_units (\<lambda>u. un_class u = ClassR \<and> \<not> un_reserved u) out
     \<and> us_bytes (ac_shared s) = sum_units (\<lambda>u. un_class u = ClassR \<and> \<not> un_reserved u) out"

definition jobs_exact :: "accounting \<Rightarrow> outstanding list \<Rightarrow> bool" where
  "jobs_exact s out \<longleftrightarrow> list_all (unit_ok s) out
     \<and> distinct (map fst (ac_jobs s)) \<and> int (length (ac_jobs s)) \<le> max_jobs
     \<and> (\<forall>i j. jm_get (ac_jobs s) i = Some j \<longrightarrow> job_ok out i j)"

definition exact :: "accounting \<Rightarrow> outstanding list \<Rightarrow> bool" where
  "exact s out \<longleftrightarrow> usage_exact s out \<and> jobs_exact s out"

lemma usage_exact_frame:
  "ac_inflight s' = ac_inflight s \<Longrightarrow> ac_shared s' = ac_shared s \<Longrightarrow> usage_exact s' out = usage_exact s out"
  by (simp add: usage_exact_def)

lemma jobs_exact_frame: "ac_jobs s' = ac_jobs s \<Longrightarrow> jobs_exact s' out = jobs_exact s out"
  by (simp add: jobs_exact_def unit_ok_def list_all_iff)

lemma unit_ok_mono:
  assumes "unit_ok s u" "\<And>i. jm_get (ac_jobs s) i \<noteq> None \<Longrightarrow> jm_get (ac_jobs s') i \<noteq> None"
  shows "unit_ok s' u"
  using assms unfolding unit_ok_def by meson

lemma absent_job_has_no_units:
  assumes "jobs_exact s out" "jm_get (ac_jobs s) i = None" "c \<in> {ClassT, ClassR}"
  shows "count_units (job_unit c i) out = 0"
proof -
  have "\<not> job_unit c i u" if "u \<in> set out" for u
    using assms that by (auto simp: jobs_exact_def list_all_iff unit_ok_def job_unit_def)
  then show ?thesis by (simp add: count_units_def filter_empty_conv)
qed

lemma length_jm_set_new: "jm_get m k = None \<Longrightarrow> length (jm_set k v m) = Suc (length m)"
  by (induction m) (auto split: if_splits)

lemma length_jm_set_old: "jm_get m k \<noteq> None \<Longrightarrow> length (jm_set k v m) = length m"
  by (induction m) (auto split: if_splits)

lemma reserveJob_jobs:
  "ac_jobs (fst (reserveJob i t s)) =
     (if snd (reserveJob i t s) = Reserved False then jm_set i \<lparr>jb_r_used = 0, jb_t_used = False\<rparr> (ac_jobs s)
      else ac_jobs s)
   \<and> (snd (reserveJob i t s) = Reserved False \<longrightarrow>
        jm_get (ac_jobs s) i = None \<and> int (length (ac_jobs s)) + 1 \<le> max_jobs)"
  by (simp add: reserveJob_def Let_def case_prod_unfold sustainedExhaustion_def exhaustion_frame jm_has_def
      del: exhaustion_scan.simps)

lemma exact_reserve:
  assumes ex: "exact s out" and i: "i \<noteq> []"
  shows "exact (fst (reserveJob i t s)) out"
proof -
  have "usage_exact (fst (reserveJob i t s)) out"
    using ex usage_exact_frame reserveJob_frame by (metis exact_def)
  moreover have "jobs_exact (fst (reserveJob i t s)) out"
  proof -
    consider "ac_jobs (fst (reserveJob i t s)) = ac_jobs s"
      | "ac_jobs (fst (reserveJob i t s)) = jm_set i \<lparr>jb_r_used = 0, jb_t_used = False\<rparr> (ac_jobs s)"
        "jm_get (ac_jobs s) i = None" "int (length (ac_jobs s)) + 1 \<le> max_jobs"
      using reserveJob_jobs [of i t s] by presburger
    then show ?thesis
    proof cases
      case 1
      then show ?thesis using ex jobs_exact_frame by (metis exact_def)
    next
      case 2
      have old: "jobs_exact s out" using ex by (simp add: exact_def)
      have "job_ok out i \<lparr>jb_r_used = 0, jb_t_used = False\<rparr>"
        using absent_job_has_no_units [OF old 2(2)] i by (simp add: job_ok_def reserved_per_job_def)
      moreover have "unit_ok (fst (reserveJob i t s)) u" if "u \<in> set out" for u
        by (rule unit_ok_mono [of s]) (use old 2(1) that in \<open>auto simp: jobs_exact_def list_all_iff\<close>)
      ultimately show ?thesis
        using old 2 by (auto simp: jobs_exact_def list_all_iff length_jm_set_new intro: distinct_jm_set)
    qed
  qed
  ultimately show ?thesis by (simp add: exact_def)
qed

lemma exact_release_job:
  assumes ex: "exact s out" and none: "list_all (\<lambda>u. \<not> job_unit ClassT i u \<and> \<not> job_unit ClassR i u) out"
  shows "exact (releaseJob i s) out"
proof -
  have js: "jobs_exact s out" and us: "usage_exact s out" using ex by (simp_all add: exact_def)
  have "unit_ok (releaseJob i s) u" if "u \<in> set out" for u
  proof -
    have "unit_ok s u" "\<not> job_unit ClassT i u" "\<not> job_unit ClassR i u"
      using js none that by (auto simp: jobs_exact_def list_all_iff)
    then show ?thesis by (fastforce simp: unit_ok_def job_unit_def releaseJob_def)
  qed
  moreover have "length (jm_delete i (ac_jobs s)) \<le> length (ac_jobs s)" by (rule length_delete_le)
  ultimately have "jobs_exact (releaseJob i s) out"
    using js by (auto simp: jobs_exact_def list_all_iff releaseJob_def intro: distinct_delete split: if_splits)
  then show ?thesis using us by (simp add: exact_def usage_exact_def releaseJob_def)
qed

text \<open>Admitting a unit of each kind.\<close>

lemma usage_charge:
  assumes "usage_exact s out" and "un_class u = c" "un_bytes u = b" "c = ClassR \<longrightarrow> un_reserved u"
  shows "usage_exact (charge c b s) (u # out)"
  using assms by (auto simp: usage_exact_def use_more_def)

lemma usage_charge_shared:
  assumes "usage_exact s out" and "un_class u = ClassR" "un_bytes u = b" "\<not> un_reserved u"
    and "ac_inflight s' = ac_inflight (charge ClassR b s)" "ac_shared s' = use_more (ac_shared s) b"
  shows "usage_exact s' (u # out)"
  using assms by (auto simp: usage_exact_def use_more_def)

lemma jobs_exact_plain:
  assumes "jobs_exact s out" and "ac_jobs s' = ac_jobs s" and "0 \<le> un_bytes u"
    and "un_class u \<noteq> ClassT" "un_class u = ClassR \<longrightarrow> \<not> un_reserved u"
  shows "jobs_exact s' (u # out)"
  using assms by (auto simp: jobs_exact_def list_all_iff unit_ok_def job_ok_def job_unit_def)

lemma jobs_exact_unit:
  assumes ex: "jobs_exact s out" and j: "jm_get (ac_jobs s) i = Some j" "i \<noteq> []"
    and s': "ac_jobs s' = jm_set i j' (ac_jobs s)"
    and u: "0 \<le> un_bytes u" "un_bytes u \<le> pool_unit" "un_class u \<in> {ClassT, ClassR}" "un_reserved u" "un_job u = Some i"
    and j': "job_ok (u # out) i j'"
  shows "jobs_exact s' (u # out)"
proof -
  have other: "job_ok (u # out) k l" if "k \<noteq> i" "jm_get (ac_jobs s) k = Some l" for k l
    using ex that u by (auto simp: jobs_exact_def job_ok_def job_unit_def)
  have new: "unit_ok s' u" using u j s' by (auto simp: unit_ok_def)
  have old: "unit_ok s' x" if "x \<in> set out" for x
    by (rule unit_ok_mono [of s]) (use ex s' that in \<open>auto simp: jobs_exact_def list_all_iff\<close>)
  then show ?thesis
    using ex j s' j' other new old by (auto simp: jobs_exact_def list_all_iff length_jm_set_old intro: distinct_jm_set)
qed

lemma job_of_Some: "job_of jobId s = Some j \<longleftrightarrow> (\<exists>i. jobId = Some i \<and> i \<noteq> [] \<and> jm_get (ac_jobs s) i = Some j)"
  by (auto simp: job_of_def split: option.splits)

lemma exact_job_ok: "exact s out \<Longrightarrow> jm_get (ac_jobs s) i = Some j \<Longrightarrow> job_ok out i j"
  by (simp add: exact_def jobs_exact_def)

lemma exact_admitted:
  assumes ex: "exact s out" and adm: "admit c b jobId t s = (s', Admitted r)"
  shows "exact s' (\<lparr>un_class = c, un_bytes = b, un_job = jobId, un_reserved = r\<rparr> # out)"
proof -
  let ?u = "\<lparr>un_class = c, un_bytes = b, un_job = jobId, un_reserved = r\<rparr>"
  have b: "0 \<le> b" using adm by (auto simp: admit_def split: if_splits)
  have us: "usage_exact s out" and js: "jobs_exact s out" using ex by (simp_all add: exact_def)
  show ?thesis
  proof (cases c)
    case ClassT
    with adm b obtain j where j: "job_of jobId s = Some j" "\<not> jb_t_used j" "b \<le> pool_unit" "r"
      "s' = charge ClassT b (set_job jobId (j\<lparr>jb_t_used := True\<rparr>) s)"
      by (auto simp: admit_def admit_terminal_def split: option.splits if_splits)
    obtain i where i: "jobId = Some i" "i \<noteq> []" "jm_get (ac_jobs s) i = Some j" using j(1) by (auto simp: job_of_Some)
    have "usage_exact s' (?u # out)"
      unfolding j(5) using us ClassT by (intro usage_charge) (auto simp: usage_exact_def)
    moreover have "jobs_exact s' (?u # out)"
    proof (rule jobs_exact_unit [OF js i(3,2)])
      show "job_ok (?u # out) i (j\<lparr>jb_t_used := True\<rparr>)"
        using exact_job_ok [OF ex i(3)] j ClassT i by (simp add: job_ok_def job_unit_def)
    qed (use b j i ClassT in \<open>simp_all add: set_job_def\<close>)
    ultimately show ?thesis by (simp add: exact_def)
  next
    case ClassR
    show ?thesis
    proof (cases r)
      case True
      with ClassR adm b obtain j where j: "job_of jobId s = Some j" "jb_r_used j < reserved_per_job" "b \<le> pool_unit"
        "s' = charge ClassR b (set_job jobId (j\<lparr>jb_r_used := jb_r_used j + 1\<rparr>) s)"
        by (auto simp: admit_def admit_result_class_def split: option.splits if_splits)
      obtain i where i: "jobId = Some i" "i \<noteq> []" "jm_get (ac_jobs s) i = Some j" using j(1) by (auto simp: job_of_Some)
      have "usage_exact s' (?u # out)"
        unfolding j(4) using us ClassR True by (intro usage_charge) (auto simp: usage_exact_def)
      moreover have "jobs_exact s' (?u # out)"
      proof (rule jobs_exact_unit [OF js i(3,2)])
        show "job_ok (?u # out) i (j\<lparr>jb_r_used := jb_r_used j + 1\<rparr>)"
          using exact_job_ok [OF ex i(3)] j ClassR i True by (simp add: job_ok_def job_unit_def)
      qed (use b j i ClassR True in \<open>simp_all add: set_job_def\<close>)
      ultimately show ?thesis by (simp add: exact_def)
    next
      case False
      with ClassR adm b have s': "s' = (charge ClassR b s)\<lparr>ac_room := (ac_room s)(ClassR := t),
          ac_shared := use_more (ac_shared s) b\<rparr>"
        by (auto simp: admit_def admit_result_class_def split: option.splits if_splits)
      have "usage_exact s' (?u # out)"
        by (rule usage_charge_shared [OF us, of _ b]) (use False ClassR s' in simp_all)
      moreover have "jobs_exact s' (?u # out)"
        by (rule jobs_exact_plain [OF js]) (use False ClassR s' b in simp_all)
      ultimately show ?thesis by (simp add: exact_def)
    qed
  next
    case ClassI
    with adm b have s': "s' = charge ClassI b s" by (auto simp: admit_def admit_action_def Let_def split: if_splits)
    have "usage_exact s' (?u # out)" unfolding s' using us ClassI by (intro usage_charge) simp_all
    moreover have "jobs_exact s' (?u # out)" by (rule jobs_exact_plain [OF js]) (use ClassI s' b in simp_all)
    ultimately show ?thesis by (simp add: exact_def)
  next
    case ClassL
    with adm b have s': "s' = (charge ClassL b s)\<lparr>ac_room := (ac_room s)(ClassL := t)\<rparr>"
      by (auto simp: admit_def admit_pooled_def split: if_splits)
    have "usage_exact (charge ClassL b s) (?u # out)" using us ClassL by (intro usage_charge) simp_all
    then have "usage_exact s' (?u # out)" by (simp add: s' usage_exact_def)
    moreover have "jobs_exact s' (?u # out)" by (rule jobs_exact_plain [OF js]) (use ClassL s' b in simp_all)
    ultimately show ?thesis by (simp add: exact_def)
  next
    case ClassO
    with adm b have s': "s' = (charge ClassO b s)\<lparr>ac_room := (ac_room s)(ClassO := t)\<rparr>"
      by (auto simp: admit_def admit_pooled_def split: if_splits)
    have "usage_exact (charge ClassO b s) (?u # out)" using us ClassO by (intro usage_charge) simp_all
    then have "usage_exact s' (?u # out)" by (simp add: s' usage_exact_def)
    moreover have "jobs_exact s' (?u # out)" by (rule jobs_exact_plain [OF js]) (use ClassO s' b in simp_all)
    ultimately show ?thesis by (simp add: exact_def)
  qed
qed

lemma exact_refused:
  assumes ex: "exact s out" and adm: "admit c b jobId t s = (s', Refused why detail)"
  shows "exact s' out"
proof -
  have "ac_inflight s' = ac_inflight s \<and> ac_shared s' = ac_shared s \<and> ac_jobs s' = ac_jobs s"
    using adm by (auto simp: admit_def admit_terminal_def admit_result_class_def admit_action_def admit_pooled_def Let_def
        split: delta_class.splits option.splits if_splits)
  then show ?thesis using ex usage_exact_frame jobs_exact_frame by (metis exact_def)
qed

lemma release_jobs:
  "ac_jobs (fst (release c b jobId reserved s)) =
     (case (jobId, job_of jobId s) of
        (Some i, Some j) \<Rightarrow> if 0 \<le> b \<and> c = ClassT \<and> reserved then jm_set i (j\<lparr>jb_t_used := False\<rparr>) (ac_jobs s)
                          else ac_jobs s
      | _ \<Rightarrow> ac_jobs s)"
  by (auto simp: release_def Let_def job_of_def set_job_def split: option.splits)

lemma usage_release:
  assumes ex: "usage_exact s out" and u: "u \<in> set out" and pos: "\<forall>x \<in> set out. 0 \<le> un_bytes x"
    and t: "un_class u = ClassT \<longrightarrow> un_reserved u"
  shows "usage_exact (fst (release (un_class u) (un_bytes u) (un_job u) (un_reserved u) s)) (remove1 u out)"
proof -
  have b: "0 \<le> un_bytes u" using u pos by blast
  have less: "us_entries (use_less x b') = us_entries x - 1 \<and> us_bytes (use_less x b') = us_bytes x - b'"
    if "1 \<le> us_entries x" "b' \<le> us_bytes x" for x b'
    using that by (simp add: use_less_def)
  show ?thesis
    using ex b less [of "ac_inflight s (un_class u)" "un_bytes u"] less [of "ac_shared s" "un_bytes u"]
      count_units_mem [OF u, of "\<lambda>x. un_class x = un_class u"]
      sum_units_mem [OF u, of "\<lambda>x. un_class x = un_class u"]
      count_units_mem [OF u, of "\<lambda>x. un_class x = ClassR \<and> \<not> un_reserved x"]
      sum_units_mem [OF u, of "\<lambda>x. un_class x = ClassR \<and> \<not> un_reserved x"] pos
    by (auto simp: usage_exact_def release_usage count_units_remove1 [OF u])
qed

lemma jobs_release:
  assumes ex: "jobs_exact s out" and u: "u \<in> set out"
  shows "jobs_exact (fst (release (un_class u) (un_bytes u) (un_job u) (un_reserved u) s)) (remove1 u out)"
proof -
  let ?s = "fst (release (un_class u) (un_bytes u) (un_job u) (un_reserved u) s)"
  have ok: "unit_ok s u" using ex u by (auto simp: jobs_exact_def list_all_iff)
  have units: "unit_ok ?s x" if "x \<in> set (remove1 u out)" for x
  proof (rule unit_ok_mono [of s])
    show "unit_ok s x" using ex that set_remove1_subset [of u out] by (auto simp: jobs_exact_def list_all_iff)
    show "jm_get (ac_jobs ?s) i \<noteq> None" if "jm_get (ac_jobs s) i \<noteq> None" for i
      using that by (auto simp: release_jobs split: option.splits)
  qed
  show ?thesis
  proof (cases "un_class u = ClassT \<and> un_reserved u")
    case True
    then obtain i j where i: "un_job u = Some i" "i \<noteq> []" "jm_get (ac_jobs s) i = Some j"
      using ok by (auto simp: unit_ok_def)
    have jobs: "ac_jobs ?s = jm_set i (j\<lparr>jb_t_used := False\<rparr>) (ac_jobs s)"
      using True i ok by (simp add: release_jobs job_of_def unit_ok_def)
    have j: "job_ok out i j" using ex i by (simp add: jobs_exact_def)
    have "count_units (job_unit ClassT i) out = 1"
      using j count_units_mem [OF u, of "job_unit ClassT i"] True i
      by (auto simp: job_ok_def job_unit_def split: if_splits)
    then have mine: "job_ok (remove1 u out) i (j\<lparr>jb_t_used := False\<rparr>)"
      using j True i by (simp add: job_ok_def job_unit_def count_units_remove1 [OF u])
    have other: "job_ok (remove1 u out) k l" if "k \<noteq> i" "jm_get (ac_jobs s) k = Some l" for k l
      using ex that i by (auto simp: jobs_exact_def job_ok_def job_unit_def count_units_remove1 [OF u])
    show ?thesis
      using ex units mine other i jobs
      by (auto simp: jobs_exact_def list_all_iff length_jm_set_old intro: distinct_jm_set)
  next
    case False
    then have jobs: "ac_jobs ?s = ac_jobs s" by (auto simp: release_jobs split: option.splits)
    have "job_ok (remove1 u out) k l" if "jm_get (ac_jobs s) k = Some l" for k l
    proof -
      have "job_ok out k l" using ex that by (simp add: jobs_exact_def)
      then show ?thesis using False by (auto simp: job_ok_def job_unit_def count_units_remove1 [OF u])
    qed
    then show ?thesis using ex units jobs by (auto simp: jobs_exact_def list_all_iff)
  qed
qed

lemma exact_run: "acc_run s out \<Longrightarrow> exact s out"
proof (induction rule: acc_run.induct)
  case run_start
  show ?case
    by (simp add: exact_def usage_exact_def jobs_exact_def createAccounting_def no_usage_def max_jobs_def)
next
  case (run_release s out u)
  then have "list_all (unit_ok s) out" by (simp add: exact_def jobs_exact_def)
  then have "\<forall>x \<in> set out. 0 \<le> un_bytes x" "un_class u = ClassT \<longrightarrow> un_reserved u"
    using run_release.hyps(2) by (auto simp: list_all_iff unit_ok_def)
  then show ?case using run_release by (simp add: exact_def usage_release jobs_release)
next
  case (run_reserve_act s out sid)
  then show ?case
    by (auto simp: reserveAct_def exact_def usage_exact_def jobs_exact_frame [of "s\<lparr>ac_acts := _\<rparr>" s])
next
  case (run_release_act s out sid)
  then show ?case
    by (auto simp: releaseAct_def exact_def usage_exact_def jobs_exact_frame [of "s\<lparr>ac_acts := _\<rparr>" s])
qed (auto intro: exact_reserve exact_release_job exact_admitted exact_refused)

section \<open>Reservations are honoured\<close>

lemma sum_jobs_below:
  assumes "distinct (map fst m)" "jm_get m i = Some j" "\<And>k l. jm_get m k = Some l \<Longrightarrow> f k \<le> w" "f i \<le> v"
  shows "(\<Sum>k \<in> set (map fst m). f k) \<le> w * (int (length m) - 1) + (v :: int)"
proof -
  let ?K = "set (map fst m)"
  have i: "i \<in> ?K" using assms(2) by (force dest: map_of_SomeD)
  have card: "card ?K = length m" using assms(1) distinct_card by fastforce
  have "(\<Sum>k \<in> ?K. f k) = f i + (\<Sum>k \<in> ?K - {i}. f k)" using i by (simp add: sum.remove)
  also have "(\<Sum>k \<in> ?K - {i}. f k) \<le> (\<Sum>k \<in> ?K - {i}. w)"
  proof (rule sum_mono)
    fix k
    assume "k \<in> ?K - {i}"
    then obtain l where "jm_get m k = Some l" using map_of_eq_None_iff [of m k] by fastforce
    then show "f k \<le> w" by (rule assms(3))
  qed
  also have "(\<Sum>k \<in> ?K - {i}. w) = w * (int (length m) - 1)"
    using i card by (simp add: card_Diff_singleton of_nat_diff Suc_leI card_gt_0_iff)
      (metis card_gt_0_iff empty_iff finite_set mult.commute of_nat_1 of_nat_diff Suc_leI One_nat_def i card)
  finally show ?thesis using assms(4) by simp
qed

lemma budgets_run: "acc_run s out \<Longrightarrow> budgets s"
proof (induction rule: acc_run.induct)
  case run_start
  show ?case by (rule budgets_fresh)
next
  case (run_reserve s out i t)
  then show ?case using budgets_step [of s "OpReserveJob i t"] by simp
next
  case (run_release_job s out i)
  then show ?case using budgets_step [of s "OpReleaseJob i"] by simp
next
  case (run_admitted s out c b jobId t s' r)
  then show ?case using budgets_step [of s "OpAdmit c b jobId t"] by simp
next
  case (run_refused s out c b jobId t s' why detail)
  then show ?case using budgets_step [of s "OpAdmit c b jobId t"] by simp
next
  case (run_release s out u)
  then show ?case using budgets_step [of s "OpRelease (un_class u) (un_bytes u) (un_job u) (un_reserved u)"] by simp
next
  case (run_reserve_act s out sid)
  then show ?case using budgets_step [of s "OpReserveAct sid"] by simp
next
  case (run_release_act s out sid)
  then show ?case using budgets_step [of s "OpReleaseAct sid"] by simp
qed

lemma count_units_cong: "(\<And>u. u \<in> set out \<Longrightarrow> P u = Q u) \<Longrightarrow> count_units P out = count_units Q out"
  and sum_units_cong: "(\<And>u. u \<in> set out \<Longrightarrow> P u = Q u) \<Longrightarrow> sum_units P out = sum_units Q out"
  by (simp_all add: count_units_def sum_units_def cong: filter_cong)

lemma units_reserved_or_not:
  "count_units P out = count_units (\<lambda>u. P u \<and> un_reserved u) out + count_units (\<lambda>u. P u \<and> \<not> un_reserved u) out"
  "sum_units P out = sum_units (\<lambda>u. P u \<and> un_reserved u) out + sum_units (\<lambda>u. P u \<and> \<not> un_reserved u) out"
  by (induction out) auto

lemma reserved_units_of_jobs:
  assumes ex: "exact s out" and c: "c \<in> {ClassT, ClassR}"
  shows "count_units (\<lambda>u. un_class u = c \<and> un_reserved u) out
      = (\<Sum>i \<in> set (map fst (ac_jobs s)). count_units (job_unit c i) out)"
    and "sum_units (\<lambda>u. un_class u = c \<and> un_reserved u) out
      \<le> pool_unit * count_units (\<lambda>u. un_class u = c \<and> un_reserved u) out"
proof -
  have units: "\<forall>u \<in> set out. unit_ok s u" using ex by (simp add: exact_def jobs_exact_def list_all_iff)
  have "\<exists>i \<in> set (map fst (ac_jobs s)). un_job u = Some i" if u: "u \<in> set out" "un_class u = c" "un_reserved u" for u
  proof -
    obtain i where "un_job u = Some i" "jm_get (ac_jobs s) i \<noteq> None"
      using units [rule_format, OF u(1)] u(2,3) c by (auto simp: unit_ok_def)
    then show ?thesis by (auto simp: map_of_eq_None_iff)
  qed
  then show "count_units (\<lambda>u. un_class u = c \<and> un_reserved u) out
      = (\<Sum>i \<in> set (map fst (ac_jobs s)). count_units (job_unit c i) out)"
    by (intro count_units_split) auto
  show "sum_units (\<lambda>u. un_class u = c \<and> un_reserved u) out
      \<le> pool_unit * count_units (\<lambda>u. un_class u = c \<and> un_reserved u) out"
    using units c by (intro sum_units_bound) (auto simp: unit_ok_def)
qed



end
