(* ===== verification/Js_Regex.thy ===== *)
theory Js_Regex
  imports Js_Prelude
begin

text \<open>
  JavaScript regular expressions on UTF-16 code units, as far as the source uses them: classes,
  sequence, ordered alternatives, greedy repetition, the anchors with and without the \<open>m\<close> flag
  and word edges. \<open>ends r s i\<close> lists where a match of \<open>r\<close> that starts at \<open>i\<close> can end, in the
  order in which the backtracking matcher tries them, so \<open>RegExp.test\<close> asks whether some start
  has one and \<open>replace\<close> takes the head. A repetition refuses an empty iteration, as ECMAScript
  does, so the length of the rest of the text is enough fuel for it.
\<close>

section \<open>Code units\<close>

type_synonym units = "int list"

definition units_of :: "string \<Rightarrow> units" where
  "units_of s = map unit_of s"

text \<open>The units of \<open>\s\<close> and of \<open>trim\<close>; the line terminators; the units of \<open>\w\<close>.\<close>

definition is_space :: "int \<Rightarrow> bool" where
  "is_space c \<longleftrightarrow> (9 \<le> c \<and> c \<le> 13) \<or> c = 32 \<or> c = 160 \<or> c = 5760 \<or> (8192 \<le> c \<and> c \<le> 8202)
     \<or> c = 8232 \<or> c = 8233 \<or> c = 8239 \<or> c = 8287 \<or> c = 12288 \<or> c = 65279"

definition is_line_end :: "int \<Rightarrow> bool" where
  "is_line_end c \<longleftrightarrow> c = 10 \<or> c = 13 \<or> c = 8232 \<or> c = 8233"

definition is_word :: "int \<Rightarrow> bool" where
  "is_word c \<longleftrightarrow> (48 \<le> c \<and> c \<le> 57) \<or> (65 \<le> c \<and> c \<le> 90) \<or> c = 95 \<or> (97 \<le> c \<and> c \<le> 122)"

definition ascii_lower :: "int \<Rightarrow> int" where
  "ascii_lower c = (if 65 \<le> c \<and> c \<le> 90 then c + 32 else c)"

definition trim_start :: "units \<Rightarrow> units" where
  "trim_start s = dropWhile is_space s"

definition trim :: "units \<Rightarrow> units" where
  "trim s = rev (trim_start (rev (trim_start s)))"

text \<open>\<open>s.slice(-n)\<close>: the last \<open>n\<close> units, and all of them for \<open>n = 0\<close>; a negative \<open>n\<close> drops.\<close>

definition slice_last :: "int \<Rightarrow> 'a list \<Rightarrow> 'a list" where
  "slice_last n s = (if n \<le> 0 then drop (nat (- n)) s else drop (length s - nat n) s)"

text \<open>\<open>s.slice(0, n)\<close>.\<close>

definition slice_first :: "int \<Rightarrow> 'a list \<Rightarrow> 'a list" where
  "slice_first n s = take (if n < 0 then length s - nat (- n) else nat n) s"

text \<open>\<open>s.split(/\r\n|[\r\n]/)\<close>: what lies between the line breaks, empty pieces included.\<close>

function split_lines :: "units \<Rightarrow> units \<Rightarrow> units list" where
  "split_lines cur [] = [rev cur]"
| "split_lines cur (c # s) =
     (if c = 13 then rev cur # split_lines [] (case s of d # r \<Rightarrow> if d = 10 then r else s | [] \<Rightarrow> s)
      else if c = 10 then rev cur # split_lines [] s
      else split_lines (c # cur) s)"
  by pat_completeness auto
termination by (relation "measure (length \<circ> snd)") (auto split: list.splits)

lemma trim_length: "length (trim s) \<le> length s"
  using length_dropWhile_le [of is_space s] length_dropWhile_le [of is_space "rev (dropWhile is_space s)"]
  by (simp add: trim_def trim_start_def)

lemma slice_last_length: "0 < n \<Longrightarrow> length (slice_last n s) \<le> nat n"
  by (auto simp: slice_last_def)

section \<open>Matching\<close>

datatype regex =
    Unit "int \<Rightarrow> bool"
  | Empty
  | Seq regex regex
  | Alt regex regex
  | Rep regex
  | TextStart
  | TextEnd
  | LineStart
  | LineEnd
  | WordEdge

fun rep_ends :: "(nat \<Rightarrow> nat list) \<Rightarrow> nat \<Rightarrow> nat \<Rightarrow> nat list" where
  "rep_ends f 0 i = [i]"
| "rep_ends f (Suc n) i = concat (map (rep_ends f n) (filter (\<lambda>j. i < j) (f i))) @ [i]"

definition word_before :: "units \<Rightarrow> nat \<Rightarrow> bool" where
  "word_before s i \<longleftrightarrow> 0 < i \<and> i \<le> length s \<and> is_word (s ! (i - 1))"

definition word_at :: "units \<Rightarrow> nat \<Rightarrow> bool" where
  "word_at s i \<longleftrightarrow> i < length s \<and> is_word (s ! i)"

fun ends :: "regex \<Rightarrow> units \<Rightarrow> nat \<Rightarrow> nat list" where
  "ends (Unit p) s i = (if i < length s \<and> p (s ! i) then [Suc i] else [])"
| "ends Empty s i = [i]"
| "ends (Seq a b) s i = concat (map (ends b s) (ends a s i))"
| "ends (Alt a b) s i = ends a s i @ ends b s i"
| "ends (Rep a) s i = rep_ends (ends a s) (length s - i) i"
| "ends TextStart s i = (if i = 0 then [i] else [])"
| "ends TextEnd s i = (if i = length s then [i] else [])"
| "ends LineStart s i = (if i = 0 \<or> is_line_end (s ! (i - 1)) then [i] else [])"
| "ends LineEnd s i = (if i = length s \<or> is_line_end (s ! i) then [i] else [])"
| "ends WordEdge s i = (if word_before s i \<noteq> word_at s i then [i] else [])"

text \<open>\<open>r.test(s)\<close> for a regular expression without the \<open>g\<close> flag.\<close>

definition rx_test :: "regex \<Rightarrow> units \<Rightarrow> bool" where
  "rx_test r s \<longleftrightarrow> list_ex (\<lambda>i. ends r s i \<noteq> []) [0..<Suc (length s)]"

text \<open>\<open>s.replace(r, '')\<close> with the \<open>g\<close> flag; every match advances, an empty one by a unit.\<close>

fun erase_from :: "regex \<Rightarrow> units \<Rightarrow> nat \<Rightarrow> nat \<Rightarrow> units" where
  "erase_from r s 0 i = []"
| "erase_from r s (Suc n) i =
     (if length s \<le> i then []
      else case ends r s i of
        [] \<Rightarrow> s ! i # erase_from r s n (Suc i)
      | j # _ \<Rightarrow> if i < j then erase_from r s n j else s ! i # erase_from r s n (Suc i))"

definition rx_erase :: "regex \<Rightarrow> units \<Rightarrow> units" where
  "rx_erase r s = erase_from r s (length s) 0"

subsection \<open>Building expressions\<close>

definition seqs :: "regex list \<Rightarrow> regex" where
  "seqs rs = foldr Seq rs Empty"

text \<open>A literal, and a literal under the \<open>i\<close> flag.\<close>

definition lit :: "string \<Rightarrow> regex" where
  "lit s = seqs (map (\<lambda>c. Unit (\<lambda>x. x = unit_of c)) s)"

definition lit_i :: "string \<Rightarrow> regex" where
  "lit_i s = seqs (map (\<lambda>c. Unit (\<lambda>x. ascii_lower x = ascii_lower (unit_of c))) s)"

definition one_of :: "int list \<Rightarrow> regex" where
  "one_of cs = Unit (\<lambda>x. x \<in> set cs)"

definition between :: "int \<Rightarrow> int \<Rightarrow> regex" where
  "between a b = Unit (\<lambda>x. a \<le> x \<and> x \<le> b)"

definition any_unit :: regex where
  "any_unit = Unit (\<lambda>x. \<not> is_line_end x)"

definition space_unit :: regex where
  "space_unit = Unit is_space"

definition optional :: "regex \<Rightarrow> regex" where
  "optional r = Alt r Empty"

text \<open>\<open>/\bw\b/i\<close>.\<close>

definition word_i :: "string \<Rightarrow> regex" where
  "word_i w = seqs [WordEdge, lit_i w, WordEdge]"

section \<open>What the matcher guarantees\<close>

lemma rep_ends_bounds:
  assumes "\<And>a b. a \<le> m \<Longrightarrow> b \<in> set (f a) \<Longrightarrow> b \<le> m" and "i \<le> m" and "j \<in> set (rep_ends f n i)"
  shows "i \<le> j \<and> j \<le> m"
  using assms(2,3)
proof (induction n arbitrary: i)
  case (Suc n)
  then show ?case using assms(1) by fastforce
qed simp

lemma ends_bounds: "i \<le> length s \<Longrightarrow> j \<in> set (ends r s i) \<Longrightarrow> i \<le> j \<and> j \<le> length s"
proof (induction r arbitrary: i j)
  case (Seq a b)
  from Seq.prems(2) obtain k where k: "k \<in> set (ends a s i)" "j \<in> set (ends b s k)" by auto
  with Seq.IH Seq.prems(1) show ?case by (meson le_trans)
next
  case (Rep a)
  have "\<And>x y. x \<le> length s \<Longrightarrow> y \<in> set (ends a s x) \<Longrightarrow> y \<le> length s" using Rep.IH by blast
  from rep_ends_bounds [OF this Rep.prems(1), where j = j and n = "length s - i"] Rep.prems(2) show ?case by simp
next
  case (Alt a b)
  from Alt.prems(2) consider "j \<in> set (ends a s i)" | "j \<in> set (ends b s i)" by auto
  then show ?case by cases (use Alt.IH Alt.prems(1) in blast)+
qed (simp_all split: if_splits)

text \<open>The fuel of a repetition is enough: it reaches whatever any number of non-empty rounds does.\<close>

definition round_of :: "(nat \<Rightarrow> nat list) \<Rightarrow> nat \<Rightarrow> nat \<Rightarrow> bool" where
  "round_of f a b \<longleftrightarrow> b \<in> set (f a) \<and> a < b"

lemma rep_ends_complete:
  assumes "\<And>a b. a \<le> m \<Longrightarrow> b \<in> set (f a) \<Longrightarrow> b \<le> m" and "i \<le> m" and "m - i \<le> n"
  shows "j \<in> set (rep_ends f n i) \<longleftrightarrow> (round_of f)\<^sup>*\<^sup>* i j"
  using assms(2,3)
proof (induction n arbitrary: i)
  case 0
  then have im: "i = m" by simp
  have "\<not> round_of f i b" for b using assms(1) [of i b] im by (auto simp: round_of_def)
  then have "(round_of f)\<^sup>*\<^sup>* i j \<Longrightarrow> j = i" by (auto elim: converse_rtranclpE)
  then show ?case by auto
next
  case (Suc n)
  have IH: "j \<in> set (rep_ends f n k) \<longleftrightarrow> (round_of f)\<^sup>*\<^sup>* k j" if "k \<in> set (f i)" "i < k" for k
    using Suc.IH [of k] assms(1) [OF Suc.prems(1) that(1)] Suc.prems(2) that(2) by simp
  have "j \<in> set (rep_ends f (Suc n) i) \<longleftrightarrow> j = i \<or> (\<exists>k. round_of f i k \<and> (round_of f)\<^sup>*\<^sup>* k j)"
    using IH by (auto simp: round_of_def)
  also have "\<dots> \<longleftrightarrow> (round_of f)\<^sup>*\<^sup>* i j"
    by (auto elim: converse_rtranclpE intro: converse_rtranclp_into_rtranclp)
  finally show ?case .
qed

lemma ends_rep:
  "i \<le> length s \<Longrightarrow> j \<in> set (ends (Rep a) s i) \<longleftrightarrow> (round_of (ends a s))\<^sup>*\<^sup>* i j"
  unfolding ends.simps
  by (rule rep_ends_complete [where m = "length s"]) (blast dest: ends_bounds, assumption, rule order_refl)

lemma rx_test_iff: "rx_test r s \<longleftrightarrow> (\<exists>i \<le> length s. ends r s i \<noteq> [])"
  by (auto simp: rx_test_def list_ex_iff less_Suc_eq_le simp del: upt_Suc)

text \<open>An expression that must start with one of some units finds nothing in a text without them.\<close>

definition starts_with :: "(int \<Rightarrow> bool) \<Rightarrow> regex \<Rightarrow> bool" where
  "starts_with p r \<longleftrightarrow> (\<forall>s i. ends r s i \<noteq> [] \<longrightarrow> i < length s \<and> p (s ! i))"

lemma starts_Unit: "(\<And>x. q x \<Longrightarrow> p x) \<Longrightarrow> starts_with p (Unit q)"
  by (simp add: starts_with_def)

lemma starts_Seq: "starts_with p a \<Longrightarrow> starts_with p (Seq a b)"
  unfolding starts_with_def by (metis concat.simps(1) ends.simps(3) list.simps(8))

lemma starts_Alt: "starts_with p a \<Longrightarrow> starts_with p b \<Longrightarrow> starts_with p (Alt a b)"
  by (auto simp: starts_with_def)

lemma starts_with_test: "starts_with p r \<Longrightarrow> list_all (\<lambda>x. \<not> p x) s \<Longrightarrow> \<not> rx_test r s"
  by (auto simp: rx_test_iff starts_with_def list_all_length)

lemma erase_from_absent:
  assumes "starts_with p r" and "list_all (\<lambda>x. \<not> p x) s"
  shows "length s \<le> i + n \<Longrightarrow> erase_from r s n i = drop i s"
proof (induction n arbitrary: i)
  case (Suc n)
  show ?case
  proof (cases "length s \<le> i")
    case False
    then have "\<not> p (s ! i)" using assms(2) by (simp add: list_all_length)
    then have "ends r s i = []" using assms(1) by (auto simp: starts_with_def)
    with False Suc show ?thesis by (simp add: Cons_nth_drop_Suc)
  qed simp
qed simp

lemma rx_erase_absent: "starts_with p r \<Longrightarrow> list_all (\<lambda>x. \<not> p x) s \<Longrightarrow> rx_erase r s = s"
  by (simp add: rx_erase_def erase_from_absent)

lemma erase_from_length: "length (erase_from r s n i) \<le> length s - i"
proof (induction n arbitrary: i)
  case (Suc n)
  show ?case
    using Suc.IH [of "Suc i"] Suc.IH [of "hd (ends r s i)"]
    by (auto split: list.splits)
qed simp

lemma rx_erase_length: "length (rx_erase r s) \<le> length s"
  using erase_from_length [of r s "length s" 0] by (simp add: rx_erase_def)

end
