(* ===== verification/Session_State.thy ===== *)
theory Session_State
  imports Js_Regex
begin

text \<open>
  \<open>session-state.js\<close>: the eight-state machine that classifies a session's terminal output, and
  the manager that keeps one machine per session. A method of the class is an operation on the
  record \<open>machine\<close>; \<open>Date.now()\<close> is an argument. What the transition listeners are called with
  is appended to \<open>sm_fired\<close>; the listeners themselves (whose exceptions the source swallows) are
  not modelled. The interval timer is the operation \<open>pty_tick\<close>, run at any time. Confidences are hundredths.
  \<open>lower\<close> stands for \<open>String.prototype.toLowerCase\<close>, whose Unicode table is data.
\<close>

section \<open>States, configuration and values\<close>

datatype pty_state = Starting | Idle | Working | Thinking | Waiting | Error | Restarting | Dead

record sm_config =
  idle_timeout_ms :: int
  error_repeat_count :: int
  error_window_ms :: int
  thinking_timeout_ms :: int
  output_preview_len :: int
  error_dedup_len :: int
  poll_interval_ms :: int

definition default_config :: sm_config where
  "default_config = \<lparr>idle_timeout_ms = 5000, error_repeat_count = 3, error_window_ms = 180000,
     thinking_timeout_ms = 300000, output_preview_len = 200, error_dedup_len = 120,
     poll_interval_ms = 1000\<rparr>"

text \<open>A partial configuration object, and \<open>Object.assign(config, partial)\<close>.\<close>

datatype config_key = IdleTimeout | ErrorRepeat | ErrorWindow | ThinkingTimeout | PreviewLen | DedupLen | PollInterval

fun set_config :: "config_key \<times> int \<Rightarrow> sm_config \<Rightarrow> sm_config" where
  "set_config (IdleTimeout, v) c = c\<lparr>idle_timeout_ms := v\<rparr>"
| "set_config (ErrorRepeat, v) c = c\<lparr>error_repeat_count := v\<rparr>"
| "set_config (ErrorWindow, v) c = c\<lparr>error_window_ms := v\<rparr>"
| "set_config (ThinkingTimeout, v) c = c\<lparr>thinking_timeout_ms := v\<rparr>"
| "set_config (PreviewLen, v) c = c\<lparr>output_preview_len := v\<rparr>"
| "set_config (DedupLen, v) c = c\<lparr>error_dedup_len := v\<rparr>"
| "set_config (PollInterval, v) c = c\<lparr>poll_interval_ms := v\<rparr>"

definition assign_config :: "(config_key \<times> int) list \<Rightarrow> sm_config \<Rightarrow> sm_config" where
  "assign_config kvs c = fold set_config kvs c"

text \<open>
  A property of a transition detail: \<open>undefined\<close>, \<open>null\<close>, a number (a time is its milliseconds),
  a text of the terminal, or a string constant of the source.
\<close>

datatype jval = JUndef | JNull | JNum int | JText units | JName string

type_synonym detail = "(string, jval) jsmap"

record pty_line =
  ln_text :: units
  ln_at :: int
  ln_error_tracked :: bool

record error_entry =
  er_fingerprint :: units
  er_at :: int

record transition =
  tr_from :: pty_state
  tr_to :: pty_state
  tr_confidence :: int
  tr_detail :: detail
  tr_at :: int

record machine =
  sm_config :: sm_config
  sm_state :: pty_state
  sm_since :: int
  sm_confidence :: int
  sm_detail :: detail
  sm_last_output_at :: int
  sm_preview :: units
  sm_recent :: "pty_line list"
  sm_last_osc133 :: "int option"
  sm_errors :: "error_entry list"
  sm_thinking_since :: "int option"
  sm_fired :: "transition list"
  sm_listening :: bool
  sm_timer :: bool

definition max_recent_lines :: nat where
  "max_recent_lines = 50"

section \<open>Patterns\<close>

definition OSC_133_RE :: regex where
  "OSC_133_RE = seqs [one_of [27], lit '']133;'', between 65 66,
     Alt (one_of [7]) (seqs [one_of [27], one_of [92]])]"

text \<open>CSI sequences, OSC strings ended by BEL, and charset designations.\<close>

definition ANSI_RE :: regex where
  "ANSI_RE =
     Alt (seqs [one_of [27], lit ''['', Rep (between 48 63), Rep (between 32 47), between 64 126])
    (Alt (seqs [one_of [27], lit '']'', Rep (Unit (\<lambda>x. x \<noteq> 7)), one_of [7]])
         (seqs [one_of [27], one_of [40, 41], one_of [65, 66, 48, 49, 50]]))"

definition stripAnsi :: "units \<Rightarrow> units" where
  "stripAnsi s = rx_erase ANSI_RE s"

definition spaces :: regex where
  "spaces = Rep (one_of [32])"

definition PROMPT_PATTERNS :: "regex list" where
  "PROMPT_PATTERNS =
    [seqs [one_of [36, 35, 37, 62, 10095, 8250, 187], spaces, TextEnd],
     seqs [lit ''>>>'', spaces, TextEnd],
     seqs [lit ''...'', spaces, TextEnd],
     seqs [lit ''('', Rep any_unit, lit '')'', spaces, one_of [36, 35, 62], spaces, TextEnd],
     seqs [LineStart, lit ''['', Rep any_unit, lit ''@'', Rep any_unit, lit '']'', one_of [36, 35], spaces, LineEnd]]"

definition space_end :: "regex list" where
  "space_end = [Rep space_unit, TextEnd]"

definition THINKING_PATTERNS :: "regex list" where
  "THINKING_PATTERNS =
    [one_of [10251, 10265, 10297, 10296, 10300, 10292, 10278, 10279, 10247, 10255],
     one_of [10494, 10493, 10491, 10431, 10367, 10463, 10479, 10487],
     seqs [TextStart, one_of [124, 47, 45, 92], TextEnd],
     one_of [9680, 9683, 9681, 9682],
     one_of [10241, 10242, 10244, 10304, 10368, 10272, 10256, 10248],
     word_i ''thinking'', word_i ''analyzing'', word_i ''processing'', word_i ''writing'',
     word_i ''reading'', word_i ''searching'', word_i ''planning'', word_i ''esc to interrupt'',
     seqs [WordEdge, lit_i ''starting mcp server'', optional (lit_i ''s''), WordEdge],
     word_i ''booting mcp server'', word_i ''exploring'',
     seqs ([lit ''...'', Rep (lit ''.'')] @ space_end)]"

definition asks :: "string \<Rightarrow> regex" where
  "asks w = seqs ([WordEdge, lit_i w, lit ''?''] @ space_end)"

definition colon_end :: "regex list" where
  "colon_end = [Rep (Unit (\<lambda>x. x = 58 \<or> is_space x)), TextEnd]"

definition WAITING_PATTERNS :: "regex list" where
  "WAITING_PATTERNS =
    [lit_i ''[Y/n]'', lit_i ''(y/N)'', lit_i ''[yes/no]'', word_i ''press enter'',
     asks ''continue'', asks ''proceed'', asks ''confirm'', asks ''overwrite'',
     seqs ([lit_i ''(y)''] @ space_end), asks ''replace'',
     seqs ([WordEdge, lit_i ''password''] @ colon_end),
     seqs ([WordEdge, lit_i ''passphrase''] @ colon_end),
     seqs ([WordEdge, lit_i ''token''] @ colon_end),
     seqs ([WordEdge, lit_i ''enter '', Rep any_unit] @ colon_end)]"

definition word_cs :: "string \<Rightarrow> regex" where
  "word_cs w = seqs [WordEdge, lit w, WordEdge]"

definition ERROR_PATTERNS :: "regex list" where
  "ERROR_PATTERNS =
    [seqs [WordEdge, lit_i ''error'', WordEdge, one_of [58, 91]],
     seqs [WordEdge, lit ''Error:''],
     word_cs ''FAILED'', word_cs ''failed'', word_i ''panic'', word_i ''fatal'', word_i ''EXCEPTION'',
     word_i ''traceback'', word_i ''segmentation fault'', word_i ''command not found'',
     word_i ''permission denied'', word_cs ''ENOENT'', word_cs ''EACCES'', word_cs ''ECONNREFUSED'']"

definition matchesAny :: "units \<Rightarrow> regex list \<Rightarrow> bool" where
  "matchesAny text pats = list_ex (\<lambda>p. rx_test p text) pats"

section \<open>The machine's methods\<close>

text \<open>The JavaScript reading of an optional number as a condition, and \<open>x || d\<close>.\<close>

definition truthy_num :: "int option \<Rightarrow> bool" where
  "truthy_num x \<longleftrightarrow> (case x of None \<Rightarrow> False | Some v \<Rightarrow> v \<noteq> 0)"

definition num_or :: "int option \<Rightarrow> int \<Rightarrow> int" where
  "num_or x d = (case x of None \<Rightarrow> d | Some v \<Rightarrow> if v \<noteq> 0 then v else d)"

definition do_transition :: "int \<Rightarrow> pty_state \<Rightarrow> int \<Rightarrow> detail \<Rightarrow> machine \<Rightarrow> machine" where
  "do_transition now st conf d m =
     (if st = sm_state m then m\<lparr>sm_confidence := conf, sm_detail := d\<rparr>
      else m\<lparr>sm_state := st, sm_since := now, sm_confidence := conf, sm_detail := d,
             sm_thinking_since := (if st = Thinking then Some (num_or (sm_thinking_since m) now) else None),
             sm_fired := sm_fired m @ (if sm_listening m
               then [\<lparr>tr_from = sm_state m, tr_to = st, tr_confidence = conf, tr_detail = d, tr_at = now\<rparr>]
               else [])\<rparr>)"

definition cause_only :: "string \<Rightarrow> detail" where
  "cause_only c = [(''trigger'', JName c)]"

definition markStarting :: "int \<Rightarrow> machine \<Rightarrow> machine" where
  "markStarting now = do_transition now Starting 100 (cause_only ''lifecycle_starting'')"

definition num_or_null :: "int option \<Rightarrow> jval" where
  "num_or_null x = (case x of None \<Rightarrow> JNull | Some v \<Rightarrow> JNum v)"

definition markDead :: "int \<Rightarrow> int option \<Rightarrow> int option \<Rightarrow> machine \<Rightarrow> machine" where
  "markDead now code sig = do_transition now Dead 100
     [(''trigger'', JName ''process_exit''), (''exit_observed_at'', JNum now),
      (''exit_code'', num_or_null code), (''signal'', num_or_null sig)]"

definition markTerminationRequested :: "int \<Rightarrow> units \<Rightarrow> units option \<Rightarrow> machine \<Rightarrow> machine" where
  "markTerminationRequested now reason kill_error = do_transition now Dead 100
     ([(''trigger'', JName (if kill_error \<noteq> None then ''termination_kill_failed'' else ''termination_requested'')),
       (''reason'', if reason = [] then JName ''unspecified'' else JText reason),
       (''requested_at'', JNum now)]
      @ (case kill_error of None \<Rightarrow> [] | Some e \<Rightarrow> [(''kill_error'', JText e)]))"

definition markRestarting :: "int \<Rightarrow> machine \<Rightarrow> machine" where
  "markRestarting now = do_transition now Restarting 100 (cause_only ''lifecycle_restarting'')"

text \<open>The caller's detail is spread first, so its \<open>trigger\<close> is overwritten.\<close>

definition markIdle :: "int \<Rightarrow> int \<Rightarrow> detail \<Rightarrow> machine \<Rightarrow> machine" where
  "markIdle now conf d m =
     (if sm_state m = Dead \<or> sm_state m = Restarting then m
      else do_transition now Idle conf (jm_set ''trigger'' (JName ''manual_state_mark'') d) m)"

subsection \<open>Repeated errors\<close>

definition fingerprint :: "(units \<Rightarrow> units) \<Rightarrow> sm_config \<Rightarrow> pty_line \<Rightarrow> units" where
  "fingerprint lower cfg l = trim (lower (slice_first (error_dedup_len cfg) (ln_text l)))"

definition error_of :: "(units \<Rightarrow> units) \<Rightarrow> sm_config \<Rightarrow> pty_line \<Rightarrow> error_entry list" where
  "error_of lower cfg l =
     (if \<not> ln_error_tracked l \<and> matchesAny (ln_text l) ERROR_PATTERNS
      then [\<lparr>er_fingerprint = fingerprint lower cfg l, er_at = ln_at l\<rparr>] else [])"

definition trackErrors :: "(units \<Rightarrow> units) \<Rightarrow> int \<Rightarrow> machine \<Rightarrow> machine" where
  "trackErrors lower now m = m\<lparr>
     sm_errors := filter (\<lambda>e. er_at e > now - error_window_ms (sm_config m)) (sm_errors m)
       @ concat (map (error_of lower (sm_config m)) (sm_recent m)),
     sm_recent := map (\<lambda>l. l\<lparr>ln_error_tracked := True\<rparr>) (sm_recent m)\<rparr>"

definition count_error :: "error_entry \<Rightarrow> (units, int) jsmap \<Rightarrow> (units, int) jsmap" where
  "count_error e counts = jm_set (er_fingerprint e) (num_or (jm_get counts (er_fingerprint e)) 0 + 1) counts"

definition most_step :: "units \<times> int \<Rightarrow> units option \<times> int \<Rightarrow> units option \<times> int" where
  "most_step x best = (if snd x > snd best then (Some (fst x), snd x) else best)"

definition most_repeated :: "error_entry list \<Rightarrow> units option \<times> int" where
  "most_repeated es = fold most_step (fold count_error es []) (None, 0)"

definition checkError :: "machine \<Rightarrow> (int \<times> detail) option" where
  "checkError m = (let (fp, n) = most_repeated (sm_errors m); cfg = sm_config m in
     if sm_errors m = [] then None
     else if n \<ge> error_repeat_count cfg
     then Some (min 95 (70 + (n - error_repeat_count cfg) * 5),
       [(''trigger'', JName ''repeated_error_pattern''),
        (''error_fingerprint'', case fp of None \<Rightarrow> JNull | Some f \<Rightarrow> JText f),
        (''repeat_count'', JNum n), (''window_ms'', JNum (error_window_ms cfg))])
     else None)"

subsection \<open>Output\<close>

definition last_line :: "machine \<Rightarrow> units" where
  "last_line m = (if sm_recent m \<noteq> [] then ln_text (last (sm_recent m)) else [])"

definition detect :: "(units \<Rightarrow> units) \<Rightarrow> int \<Rightarrow> machine \<Rightarrow> machine" where
  "detect lower now m =
     (if matchesAny (last_line m) WAITING_PATTERNS
      then do_transition now Waiting 90
        [(''trigger'', JName ''input_request_pattern''), (''matched_line'', JText (slice_first 100 (last_line m)))] m
      else let m1 = trackErrors lower now m in case checkError m1 of
        Some (conf, d) \<Rightarrow> do_transition now Error conf d m1
      | None \<Rightarrow>
        if matchesAny (last_line m) THINKING_PATTERNS
        then do_transition now Thinking 80
          [(''trigger'', JName ''busy_indicator_pattern''), (''matched_line'', JText (slice_first 100 (last_line m)))] m1
        else do_transition now Working 90 (cause_only ''output_received'') m1)"

definition push_lines :: "int \<Rightarrow> units list \<Rightarrow> pty_line list \<Rightarrow> pty_line list" where
  "push_lines now ls recent =
     (let all = recent @ map (\<lambda>l. \<lparr>ln_text = trim l, ln_at = now, ln_error_tracked = False\<rparr>) ls
      in drop (length all - max_recent_lines) all)"

definition has_text :: "units \<Rightarrow> bool" where
  "has_text s \<longleftrightarrow> trim s \<noteq> []"

definition feed :: "(units \<Rightarrow> units) \<Rightarrow> int \<Rightarrow> units \<Rightarrow> machine \<Rightarrow> machine" where
  "feed lower now data m =
     (if data = [] then m
      else let m1 = m\<lparr>sm_last_output_at := now,
                      sm_preview := slice_last (output_preview_len (sm_config m)) (sm_preview m @ data)\<rparr> in
      if rx_test OSC_133_RE data
      then do_transition now Idle 95
        [(''trigger'', JName ''osc_133_a_or_b_received''), (''timestamp'', JNum now)]
        (m1\<lparr>sm_last_osc133 := Some now\<rparr>)
      else if \<not> has_text (stripAnsi data) then m1
      else let m2 = m1\<lparr>sm_recent := push_lines now (filter has_text (split_lines [] (stripAnsi data))) (sm_recent m1)\<rparr> in
      if sm_state m2 = Dead \<or> sm_state m2 = Restarting then m2
      else detect lower now m2)"

subsection \<open>The timer\<close>

definition recent_osc133 :: "int \<Rightarrow> machine \<Rightarrow> bool" where
  "recent_osc133 now m \<longleftrightarrow> truthy_num (sm_last_osc133 m)
     \<and> now - the (sm_last_osc133 m) < idle_timeout_ms (sm_config m) * 2"

definition thinking_overdue :: "int \<Rightarrow> machine \<Rightarrow> bool" where
  "thinking_overdue now m \<longleftrightarrow> sm_state m = Thinking \<and> truthy_num (sm_thinking_since m)
     \<and> now - the (sm_thinking_since m) > thinking_timeout_ms (sm_config m)"

definition pty_tick :: "int \<Rightarrow> machine \<Rightarrow> machine" where
  "pty_tick now m =
     (let silence = now - sm_last_output_at m; osc = recent_osc133 now m in
      if sm_state m \<in> {Dead, Restarting, Starting} then m
      else if thinking_overdue now m
      then do_transition now Error 70
        [(''trigger'', JName ''thinking_timeout''),
         (''thinking_duration_ms'', JNum (now - the (sm_thinking_since m)))] m
      else if silence > idle_timeout_ms (sm_config m) then
        (if sm_state m = Error \<or> sm_state m = Waiting then m
         else if sm_state m = Thinking \<and> \<not> osc then m
         else let prompt = matchesAny (last_line m) PROMPT_PATTERNS in
           do_transition now Idle (if osc then 95 else if prompt then 90 else 60)
             [(''trigger'', JName (if osc then ''quiet_after_recent_osc_133_a_or_b''
                 else if prompt then ''prompt_suffix_after_quiet'' else ''silence_timeout'')),
              (''silence_ms'', JNum silence), (''last_line'', JText (slice_first 100 (last_line m)))] m)
      else m)"

subsection \<open>The constructor and the rest\<close>

definition new_machine :: "(config_key \<times> int) list \<Rightarrow> int \<Rightarrow> machine" where
  "new_machine cfg now = markStarting now
     \<lparr>sm_config = assign_config cfg default_config, sm_state = Starting, sm_since = now, sm_confidence = 100,
      sm_detail = [], sm_last_output_at = now, sm_preview = [], sm_recent = [], sm_last_osc133 = None,
      sm_errors = [], sm_thinking_since = None, sm_fired = [], sm_listening = False, sm_timer = True\<rparr>"

definition onTransition :: "machine \<Rightarrow> machine" where
  "onTransition m = m\<lparr>sm_listening := True\<rparr>"

definition reconfigure :: "(config_key \<times> int) list \<Rightarrow> machine \<Rightarrow> machine" where
  "reconfigure cfg m = m\<lparr>sm_config := assign_config cfg (sm_config m)\<rparr>"

definition destroy :: "machine \<Rightarrow> machine" where
  "destroy m = m\<lparr>sm_timer := False, sm_listening := False\<rparr>"

datatype sm_op =
    Feed int units
  | Tick int
  | MarkStarting int
  | MarkDead int "int option" "int option"
  | MarkTermination int units "units option"
  | MarkRestarting int
  | MarkIdle int int detail
  | Reconfigure "(config_key \<times> int) list"
  | OnTransition
  | Destroy

fun apply_sm :: "(units \<Rightarrow> units) \<Rightarrow> sm_op \<Rightarrow> machine \<Rightarrow> machine" where
  "apply_sm lower (Feed now s) m = feed lower now s m"
| "apply_sm lower (Tick now) m = (if sm_timer m then pty_tick now m else m)"
| "apply_sm lower (MarkStarting now) m = markStarting now m"
| "apply_sm lower (MarkDead now c s) m = markDead now c s m"
| "apply_sm lower (MarkTermination now r k) m = markTerminationRequested now r k m"
| "apply_sm lower (MarkRestarting now) m = markRestarting now m"
| "apply_sm lower (MarkIdle now c d) m = markIdle now c d m"
| "apply_sm lower (Reconfigure c) m = reconfigure c m"
| "apply_sm lower OnTransition m = onTransition m"
| "apply_sm lower Destroy m = destroy m"

end
