(* ===== verification/Session_Observation.thy ===== *)
theory Session_Observation
  imports Session_State
begin

text \<open>
  The external observation vocabulary of \<open>session-state.js\<close>: the table of measured causes, the
  pure mapping from a cause to the observation it may be reported as, and what is proved of the
  two together: the mapping never reports more than was measured, and every transition the
  machine makes is reported under its own name.
\<close>

section \<open>The vocabulary\<close>

fun state_name :: "pty_state \<Rightarrow> string" where
  "state_name Starting = ''starting''"
| "state_name Idle = ''idle''"
| "state_name Working = ''working''"
| "state_name Thinking = ''thinking''"
| "state_name Waiting = ''waiting''"
| "state_name Error = ''error''"
| "state_name Restarting = ''restarting''"
| "state_name Dead = ''dead''"

record cause_row =
  cr_kind :: string
  cr_destinations :: "string list"
  cr_requires :: "string list"

definition row :: "string \<Rightarrow> string \<Rightarrow> string list \<Rightarrow> string list \<Rightarrow> string \<times> cause_row" where
  "row cause kind dests reqs = (cause, \<lparr>cr_kind = kind, cr_destinations = dests, cr_requires = reqs\<rparr>)"

definition OBSERVATION_CAUSES :: "(string \<times> cause_row) list" where
  "OBSERVATION_CAUSES =
    [row ''lifecycle_starting'' ''session_start_phase_observed'' [''starting''] [],
     row ''osc_133_a_or_b_received'' ''osc_133_a_or_b_observed'' [''idle''] [''timestamp''],
     row ''quiet_after_recent_osc_133_a_or_b'' ''pty_quiet_after_osc_133_a_or_b_observed'' [''idle''] [''silence_ms''],
     row ''prompt_suffix_after_quiet'' ''prompt_suffix_after_quiet_observed'' [''idle''] [''silence_ms''],
     row ''silence_timeout'' ''pty_quiet'' [''idle''] [''silence_ms''],
     row ''manual_state_mark'' ''manual_state_mark_observed'' [''idle''] [],
     row ''output_received'' ''output_observed'' [''working''] [],
     row ''busy_indicator_pattern'' ''busy_indicator_pattern_observed'' [''thinking''] [''matched_line''],
     row ''input_request_pattern'' ''input_request_pattern_observed'' [''waiting''] [''matched_line''],
     row ''repeated_error_pattern'' ''repeated_error_pattern_observed'' [''error'']
       [''error_fingerprint'', ''repeat_count'', ''window_ms''],
     row ''thinking_timeout'' ''thinking_classification_timeout_observed'' [''error''] [''thinking_duration_ms''],
     row ''lifecycle_restarting'' ''session_restart_mark_observed'' [''restarting''] [],
     row ''process_exit'' ''session_process_exited'' [''dead''] [''exit_observed_at''],
     row ''termination_requested'' ''session_termination_requested'' [''dead''] [''reason'', ''requested_at''],
     row ''termination_kill_failed'' ''session_termination_kill_failed'' [''dead''] [''reason'', ''kill_error''],
     row ''owner_epoch_replaced'' ''owner_replaced_observed'' [''*''] [''displaced_session_epoch''],
     row ''owner_transport_detached'' ''owner_transport_detached'' [''*''] [''detached_at''],
     row ''ready_frame_composer_surface'' ''composer_surface_observed'' [''*''] [''detector''],
     row ''ready_frame_prompt_suffix'' ''prompt_suffix_observed'' [''*''] [''detector''],
     row ''ready_frame_legacy_unqualified'' ''legacy_ready_observed'' [''*''] []]"

definition unmapped_kind :: string where
  "unmapped_kind = ''unmapped_transition_cause''"

text \<open>The presentation of a kind: the SGR number of its colour, and its tone.\<close>

definition OBSERVATION_DISPLAY :: "(string \<times> int \<times> string) list" where
  "OBSERVATION_DISPLAY =
    [(''session_start_phase_observed'', 33, ''pending''),
     (''osc_133_a_or_b_observed'', 90, ''neutral''),
     (''pty_quiet_after_osc_133_a_or_b_observed'', 90, ''neutral''),
     (''prompt_suffix_after_quiet_observed'', 90, ''neutral''),
     (''pty_quiet'', 90, ''neutral''),
     (''manual_state_mark_observed'', 90, ''neutral''),
     (''output_observed'', 36, ''active''),
     (''busy_indicator_pattern_observed'', 35, ''active''),
     (''input_request_pattern_observed'', 33, ''attention''),
     (''repeated_error_pattern_observed'', 31, ''error''),
     (''thinking_classification_timeout_observed'', 33, ''attention''),
     (''session_restart_mark_observed'', 33, ''pending''),
     (''session_process_exited'', 90, ''error''),
     (''session_termination_requested'', 90, ''attention''),
     (''session_termination_kill_failed'', 31, ''error''),
     (''owner_transport_detached'', 33, ''attention''),
     (''owner_replaced_observed'', 33, ''attention''),
     (''unmapped_transition_cause'', 37, ''neutral'')]"

section \<open>The mapping\<close>

record mapped =
  mo_kind :: string
  mo_cause :: "string option"
  mo_fields :: detail

definition present :: "detail \<Rightarrow> string \<Rightarrow> bool" where
  "present ev f \<longleftrightarrow> (case jm_get ev f of None \<Rightarrow> False | Some JUndef \<Rightarrow> False | Some JNull \<Rightarrow> False | _ \<Rightarrow> True)"

definition defined_field :: "detail \<Rightarrow> string \<Rightarrow> bool" where
  "defined_field ev f \<longleftrightarrow> (case jm_get ev f of None \<Rightarrow> False | Some JUndef \<Rightarrow> False | _ \<Rightarrow> True)"

definition field_of :: "detail \<Rightarrow> string \<Rightarrow> string \<times> jval" where
  "field_of ev f = (f, case jm_get ev f of None \<Rightarrow> JUndef | Some v \<Rightarrow> v)"

definition name_or_null :: "string option \<Rightarrow> jval" where
  "name_or_null x = (case x of None \<Rightarrow> JNull | Some s \<Rightarrow> JName s)"

definition unmapped :: "string option \<Rightarrow> string option \<Rightarrow> string \<Rightarrow> mapped" where
  "unmapped dest cause reason = \<lparr>mo_kind = unmapped_kind, mo_cause = cause,
     mo_fields = [(''destination'', name_or_null dest), (''trigger'', name_or_null cause), (''reason'', JName reason)]\<rparr>"

fun join_comma :: "string list \<Rightarrow> string" where
  "join_comma [] = []"
| "join_comma [x] = x"
| "join_comma (x # y # xs) = x @ '','' @ join_comma (y # xs)"

definition mapObservationCause :: "string option \<Rightarrow> string option \<Rightarrow> detail \<Rightarrow> mapped" where
  "mapObservationCause dest cause ev =
     (case Option.bind cause (map_of OBSERVATION_CAUSES) of
        None \<Rightarrow> unmapped dest cause ''unknown_cause''
      | Some r \<Rightarrow>
        if ''*'' \<notin> set (cr_destinations r) \<and> (case dest of None \<Rightarrow> True | Some d \<Rightarrow> d \<notin> set (cr_destinations r))
        then unmapped dest cause ''cause_destination_mismatch''
        else let missing = filter (\<lambda>f. \<not> present ev f) (cr_requires r) in
        if missing \<noteq> [] then unmapped dest cause (''missing_evidence:'' @ join_comma missing)
        else \<lparr>mo_kind = cr_kind r, mo_cause = cause,
          mo_fields = map (field_of ev) (cr_requires r)
            @ map (field_of ev) (filter (defined_field ev) [''last_output_at'', ''confidence'', ''elapsed_ms''])\<rparr>)"

text \<open>What the daemon reports for a machine: its state, its trigger and its detail as evidence.\<close>

definition trigger_of :: "detail \<Rightarrow> string option" where
  "trigger_of d = (case jm_get d ''trigger'' of Some (JName c) \<Rightarrow> Some c | _ \<Rightarrow> None)"

definition activity_observation :: "machine \<Rightarrow> mapped" where
  "activity_observation m = mapObservationCause (Some (state_name (sm_state m))) (trigger_of (sm_detail m))
     (jm_set ''confidence'' (JNum (sm_confidence m)) (sm_detail m))"

definition display_of :: "string \<Rightarrow> int \<times> string" where
  "display_of kind = (case map_of OBSERVATION_DISPLAY kind of Some d \<Rightarrow> d
     | None \<Rightarrow> the (map_of OBSERVATION_DISPLAY unmapped_kind))"

section \<open>The mapping reports only what was measured\<close>

lemma causes_distinct: "distinct (map fst OBSERVATION_CAUSES)"
  by (simp add: OBSERVATION_CAUSES_def row_def)

lemma kinds_distinct: "distinct (unmapped_kind # map (cr_kind \<circ> snd) OBSERVATION_CAUSES)"
  by (simp add: OBSERVATION_CAUSES_def row_def unmapped_kind_def)

lemma kind_determines_cause:
  assumes "map_of OBSERVATION_CAUSES c = Some r" and "map_of OBSERVATION_CAUSES c' = Some r'"
    and "cr_kind r = cr_kind r'"
  shows "c = c' \<and> r = r'"
proof -
  have "inj_on (cr_kind \<circ> snd) (set OBSERVATION_CAUSES)"
    using kinds_distinct by (simp add: distinct_map)
  then have "(c, r) = (c', r')"
    by (rule inj_onD) (use assms in \<open>auto dest: map_of_SomeD\<close>)
  then show ?thesis by simp
qed

lemma kind_not_unmapped: "map_of OBSERVATION_CAUSES c = Some r \<Longrightarrow> cr_kind r \<noteq> unmapped_kind"
  using kinds_distinct by (force dest: map_of_SomeD)

text \<open>When a cause may be reported, as a predicate.\<close>

definition reportable :: "string option \<Rightarrow> string \<Rightarrow> detail \<Rightarrow> bool" where
  "reportable dest c ev \<longleftrightarrow> (case map_of OBSERVATION_CAUSES c of None \<Rightarrow> False
     | Some r \<Rightarrow> (''*'' \<in> set (cr_destinations r) \<or> (\<exists>d \<in> set (cr_destinations r). dest = Some d))
         \<and> list_all (present ev) (cr_requires r))"

lemma mapped_reportable:
  "reportable dest c ev \<Longrightarrow> mo_kind (mapObservationCause dest (Some c) ev) = cr_kind (the (map_of OBSERVATION_CAUSES c))"
  by (auto simp: reportable_def mapObservationCause_def filter_empty_conv list_all_iff
      split: option.splits)

lemma unmapped_unreportable:
  "(\<And>c. cause = Some c \<Longrightarrow> \<not> reportable dest c ev) \<Longrightarrow> mo_kind (mapObservationCause dest cause ev) = unmapped_kind"
  by (auto simp: reportable_def mapObservationCause_def unmapped_def filter_empty_conv list_all_iff Let_def
      split: option.splits Option.bind_split)

text \<open>
  C33. The mapping fails closed: a named observation is reported only for the one cause that has
  this name, from a destination that cause is defined for and with every evidence field the name
  requires; in every other case the observation is the unmapped one, with the raw destination
  and trigger.
\<close>

theorem observation_fails_closed:
  "mo_kind (mapObservationCause dest cause ev) = k \<and> k \<noteq> unmapped_kind \<longleftrightarrow>
     (\<exists>c. cause = Some c \<and> reportable dest c ev
        \<and> {c'. \<exists>r. map_of OBSERVATION_CAUSES c' = Some r \<and> cr_kind r = k} = {c})"
proof
  assume l: "mo_kind (mapObservationCause dest cause ev) = k \<and> k \<noteq> unmapped_kind"
  then obtain c where c: "cause = Some c" "reportable dest c ev" using unmapped_unreportable by metis
  then obtain r where r: "map_of OBSERVATION_CAUSES c = Some r" by (auto simp: reportable_def split: option.splits)
  then have "cr_kind r = k" using l c mapped_reportable by auto
  with r have "{c'. \<exists>r. map_of OBSERVATION_CAUSES c' = Some r \<and> cr_kind r = k} = {c}"
    using kind_determines_cause by blast
  with c show "\<exists>c. cause = Some c \<and> reportable dest c ev
      \<and> {c'. \<exists>r. map_of OBSERVATION_CAUSES c' = Some r \<and> cr_kind r = k} = {c}" by blast
next
  assume "\<exists>c. cause = Some c \<and> reportable dest c ev
      \<and> {c'. \<exists>r. map_of OBSERVATION_CAUSES c' = Some r \<and> cr_kind r = k} = {c}"
  then obtain c where c: "cause = Some c" "reportable dest c ev"
    and k: "{c'. \<exists>r. map_of OBSERVATION_CAUSES c' = Some r \<and> cr_kind r = k} = {c}" by blast
  from k obtain r where "map_of OBSERVATION_CAUSES c = Some r" "cr_kind r = k" by blast
  then show "mo_kind (mapObservationCause dest cause ev) = k \<and> k \<noteq> unmapped_kind"
    using c mapped_reportable kind_not_unmapped by auto
qed

section \<open>Every transition of the machine is reported under its own name\<close>

text \<open>
  A state and its detail are well named if the detail's trigger is a cause of the table, its
  destinations name the state itself and the evidence the name requires is there.
\<close>

definition well_named :: "pty_state \<Rightarrow> detail \<Rightarrow> bool" where
  "well_named st d \<longleftrightarrow> (case trigger_of d of None \<Rightarrow> False
     | Some c \<Rightarrow> reportable (Some (state_name st)) c d
         \<and> (case map_of OBSERVATION_CAUSES c of None \<Rightarrow> False | Some r \<Rightarrow> state_name st \<in> set (cr_destinations r)))"

definition sm_named :: "machine \<Rightarrow> bool" where
  "sm_named m \<longleftrightarrow> well_named (sm_state m) (sm_detail m)
     \<and> list_all (\<lambda>t. well_named (tr_to t) (tr_detail t)) (sm_fired m)"

named_theorems cause_simps \<open>evaluating the cause table\<close>

lemmas cause_table [cause_simps] = OBSERVATION_CAUSES_def row_def well_named_def trigger_of_def reportable_def
  present_def cause_only_def

lemma named_transition [js_keeps]:
  "well_named st d \<Longrightarrow> sm_named m \<Longrightarrow> sm_named (do_transition now st conf d m)"
  by (auto simp: sm_named_def do_transition_def)

lemma sm_named_frame:
  "sm_state m' = sm_state m \<Longrightarrow> sm_detail m' = sm_detail m \<Longrightarrow> sm_fired m' = sm_fired m \<Longrightarrow> sm_named m' = sm_named m"
  by (simp add: sm_named_def)

lemma track_frame [simp]:
  "sm_state (trackErrors lower now m) = sm_state m" "sm_detail (trackErrors lower now m) = sm_detail m"
  "sm_fired (trackErrors lower now m) = sm_fired m" "sm_config (trackErrors lower now m) = sm_config m"
  "sm_thinking_since (trackErrors lower now m) = sm_thinking_since m"
  "length (sm_recent (trackErrors lower now m)) = length (sm_recent m)"
  by (simp_all add: trackErrors_def)

lemma sm_named_track [simp]: "sm_named (trackErrors lower now m) = sm_named m"
  by (rule sm_named_frame) simp_all

text \<open>The most repeated fingerprint, by its count.\<close>

definition occurrences :: "error_entry list \<Rightarrow> units \<Rightarrow> int" where
  "occurrences es f = int (length (filter (\<lambda>e. er_fingerprint e = f) es))"

lemma counted:
  "jm_get (fold count_error es []) f = (if occurrences es f = 0 then None else Some (occurrences es f))
   \<and> distinct (map fst (fold count_error es []))"
proof (induction es rule: rev_induct)
  case Nil
  show ?case by (simp add: occurrences_def)
next
  case (snoc e es)
  then show ?case
    by (auto simp: count_error_def num_or_def occurrences_def split: option.splits if_splits
        intro!: distinct_jm_set)
qed

lemma most_fold:
  "snd b \<le> snd (fold most_step xs b)
   \<and> (\<forall>x \<in> set xs. snd x \<le> snd (fold most_step xs b))
   \<and> (fold most_step xs b = b \<or> (\<exists>x \<in> set xs. fold most_step xs b = (Some (fst x), snd x)))"
proof (induction xs arbitrary: b)
  case (Cons x xs)
  show ?case using Cons.IH [of "most_step x b"]
    by (auto simp: most_step_def split: if_splits)
qed simp

end
