(* ===== verification/Session_Laws.thy ===== *)
theory Session_Laws
  imports Session_Observation
begin

text \<open>
  What runs of the session state machine keep: the naming of its transitions, the size of its
  memory of lines, which operations can end a lifecycle state or a thinking phase, and when
  output is classified as an error.
\<close>

section \<open>Repeated errors\<close>

lemma most_repeated_correct:
  assumes "es \<noteq> []"
  shows "\<exists>f. most_repeated es = (Some f, occurrences es f) \<and> 0 < occurrences es f
    \<and> (\<forall>g. occurrences es g \<le> occurrences es f)"
proof -
  let ?c = "fold count_error es []"
  have d: "distinct (map fst ?c)" and g: "\<And>f. jm_get ?c f = (if occurrences es f = 0 then None else Some (occurrences es f))"
    using counted by auto
  have pos: "occurrences es f \<ge> 0" for f by (simp add: occurrences_def)
  have in_c: "(f, n) \<in> set ?c \<longleftrightarrow> n = occurrences es f \<and> 0 < n" for f n
    using in_set_map_of [OF d, of f n] g [of f] pos [of f] by (auto split: if_splits)
  from assms obtain e where e: "e \<in> set es" by (cases es) auto
  then have "occurrences es (er_fingerprint e) > 0"
    by (auto simp: occurrences_def filter_empty_conv)
  then have e: "(er_fingerprint e, occurrences es (er_fingerprint e)) \<in> set ?c" "occurrences es (er_fingerprint e) > 0"
    using in_c by blast+
  have m: "\<And>x. x \<in> set ?c \<Longrightarrow> snd x \<le> snd (most_repeated es)"
    "most_repeated es = (None, 0) \<or> (\<exists>x \<in> set ?c. most_repeated es = (Some (fst x), snd x))"
    using most_fold [where b = "(None, 0)" and xs = ?c] by (auto simp: most_repeated_def)
  have "most_repeated es \<noteq> (None, 0)" using m(1) [OF e(1)] e(2) by auto
  with m(2) obtain f n where f: "(f, n) \<in> set ?c" "most_repeated es = (Some f, n)" by auto
  with in_c have n: "n = occurrences es f" "0 < n" by auto
  have "occurrences es k \<le> n" for k
  proof (cases "0 < occurrences es k")
    case True
    then have "(k, occurrences es k) \<in> set ?c" using in_c by blast
    from m(1) [OF this] f(2) show ?thesis by simp
  qed (use n in simp)
  with f(2) n show ?thesis by blast
qed

lemma checkError_Some:
  assumes "checkError m = Some (conf, d)"
  obtains f where "d = [(''trigger'', JName ''repeated_error_pattern''), (''error_fingerprint'', JText f),
      (''repeat_count'', JNum (occurrences (sm_errors m) f)), (''window_ms'', JNum (error_window_ms (sm_config m)))]"
    and "error_repeat_count (sm_config m) \<le> occurrences (sm_errors m) f"
    and "\<forall>g. occurrences (sm_errors m) g \<le> occurrences (sm_errors m) f"
    and "0 < occurrences (sm_errors m) f"
proof -
  have ne: "sm_errors m \<noteq> []" using assms by (auto simp: checkError_def split: prod.splits)
  from most_repeated_correct [OF this] obtain f where
    "most_repeated (sm_errors m) = (Some f, occurrences (sm_errors m) f)" "0 < occurrences (sm_errors m) f"
    "\<forall>g. occurrences (sm_errors m) g \<le> occurrences (sm_errors m) f" by blast
  then show thesis using assms that by (auto simp: checkError_def Let_def split: if_splits)
qed

lemma checkError_None:
  "checkError m = None \<longleftrightarrow> sm_errors m = [] \<or> (\<forall>g. occurrences (sm_errors m) g < error_repeat_count (sm_config m))"
proof (cases "sm_errors m = []")
  case True
  then show ?thesis by (auto simp: checkError_def split: prod.splits)
next
  case False
  from most_repeated_correct [OF this] show ?thesis using False
    by (auto simp: checkError_def Let_def not_le intro: order.strict_trans1 split: if_splits)
qed

section \<open>Naming is kept by every operation\<close>

lemma checkError_named: "checkError m = Some (conf, d) \<Longrightarrow> well_named Error d"
  by (erule checkError_Some) (simp add: cause_simps)

lemma named_detect [js_keeps]: "sm_named m \<Longrightarrow> sm_named (detect lower now m)"
  by (auto simp: detect_def Let_def split: option.splits intro!: named_transition dest: checkError_named)
     (simp_all add: cause_simps)

lemma named_feed [js_keeps]: "sm_named m \<Longrightarrow> sm_named (feed lower now s m)"
proof -
  assume m: "sm_named m"
  have frame: "sm_named (m\<lparr>sm_last_output_at := a, sm_preview := b, sm_last_osc133 := c\<rparr>)"
    "sm_named (m\<lparr>sm_last_output_at := a, sm_preview := b\<rparr>)"
    "sm_named (m\<lparr>sm_last_output_at := a, sm_preview := b, sm_recent := r\<rparr>)" for a b c r
    using m by (simp_all add: sm_named_def)
  have "well_named Idle [(''trigger'', JName ''osc_133_a_or_b_received''), (''timestamp'', JNum now)]"
    by (simp add: cause_simps)
  then show ?thesis using m frame
    by (simp add: feed_def Let_def named_transition named_detect)
qed

lemma named_tick [js_keeps]: "sm_named m \<Longrightarrow> sm_named (pty_tick now m)"
  by (auto simp: pty_tick_def Let_def intro!: named_transition) (simp_all add: cause_simps)

lemma named_markIdle [js_keeps]: "sm_named m \<Longrightarrow> sm_named (markIdle now c d m)"
  by (auto simp: markIdle_def intro!: named_transition) (simp add: cause_simps)

lemma named_marks [js_keeps]:
  "sm_named m \<Longrightarrow> sm_named (markStarting now m)" "sm_named m \<Longrightarrow> sm_named (markDead now x y m)"
  "sm_named m \<Longrightarrow> sm_named (markRestarting now m)" "sm_named m \<Longrightarrow> sm_named (markTerminationRequested now r k m)"
  unfolding markStarting_def markDead_def markRestarting_def markTerminationRequested_def
  by (rule named_transition; auto simp: cause_simps split: option.splits)+

lemma quiet_ops [simp]:
  "sm_named (reconfigure c m) = sm_named m" "sm_named (onTransition m) = sm_named m" "sm_named (destroy m) = sm_named m"
  by (simp_all add: reconfigure_def onTransition_def destroy_def sm_named_def)

lemma named_op: "sm_named m \<Longrightarrow> sm_named (apply_sm lower x m)"
  by (cases x) (auto intro: js_keeps)

lemma named_new: "sm_named (new_machine cfg now)"
  by (simp add: new_machine_def markStarting_def do_transition_def sm_named_def cause_simps)

section \<open>The shape of the machine\<close>

text \<open>
  At most 50 lines are remembered, and the thinking clock runs exactly in the thinking state.
\<close>

definition sm_shape :: "machine \<Rightarrow> bool" where
  "sm_shape m \<longleftrightarrow> length (sm_recent m) \<le> max_recent_lines
     \<and> (sm_thinking_since m \<noteq> None \<longleftrightarrow> sm_state m = Thinking)"

lemma shape_transition [js_keeps]: "sm_shape m \<Longrightarrow> sm_shape (do_transition now st conf d m)"
  by (auto simp: sm_shape_def do_transition_def)

lemma shape_track [simp]: "sm_shape (trackErrors lower now m) = sm_shape m"
  by (simp add: sm_shape_def)

lemma shape_detect [js_keeps]: "sm_shape m \<Longrightarrow> sm_shape (detect lower now m)"
  by (auto simp: detect_def Let_def split: option.splits intro!: shape_transition)

lemma push_lines_length: "length (push_lines now ls rs) \<le> max_recent_lines"
  by (simp add: push_lines_def Let_def)

lemma shape_feed [js_keeps]: "sm_shape m \<Longrightarrow> sm_shape (feed lower now s m)"
  by (auto simp: feed_def Let_def push_lines_length intro!: shape_transition shape_detect)
     (auto simp: sm_shape_def push_lines_length)

lemma shape_tick [js_keeps]: "sm_shape m \<Longrightarrow> sm_shape (pty_tick now m)"
  by (auto simp: pty_tick_def Let_def intro!: shape_transition)

lemma shape_marks [js_keeps]:
  "sm_shape m \<Longrightarrow> sm_shape (markStarting now m)" "sm_shape m \<Longrightarrow> sm_shape (markDead now x y m)"
  "sm_shape m \<Longrightarrow> sm_shape (markRestarting now m)" "sm_shape m \<Longrightarrow> sm_shape (markTerminationRequested now r k m)"
  "sm_shape m \<Longrightarrow> sm_shape (markIdle now c d m)"
  by (simp_all add: markStarting_def markDead_def markRestarting_def markTerminationRequested_def
      markIdle_def shape_transition)

lemma quiet_shape [simp]:
  "sm_shape (reconfigure c m) = sm_shape m" "sm_shape (onTransition m) = sm_shape m" "sm_shape (destroy m) = sm_shape m"
  by (simp_all add: reconfigure_def onTransition_def destroy_def sm_shape_def)

lemma shape_op: "sm_shape m \<Longrightarrow> sm_shape (apply_sm lower x m)"
  by (cases x) (auto intro: js_keeps)

lemma shape_new: "sm_shape (new_machine cfg now)"
  by (simp add: new_machine_def markStarting_def do_transition_def sm_shape_def)

interpretation session_machine: op_machine "apply_sm lower" "\<lambda>_. True" "\<lambda>m. sm_named m \<and> sm_shape m"
  for lower
  by unfold_locales (auto intro: named_op shape_op)

lemma machine_run: "sm_named (fold (apply_sm lower) ops (new_machine cfg now)) \<and> sm_shape (fold (apply_sm lower) ops (new_machine cfg now))"
  by (rule session_machine.run_keeps) (auto simp: list_all_iff named_new shape_new)

section \<open>What the daemon reports\<close>

lemma reportable_more: "reportable dest c ev \<Longrightarrow> x \<notin> {JUndef, JNull} \<Longrightarrow> reportable dest c (jm_set k x ev)"
  by (auto simp: reportable_def present_def list_all_iff split: option.splits jval.splits)

lemma display_not_green: "fst (display_of k) \<noteq> 32"
proof -
  have "list_all (\<lambda>d. fst (snd d) \<noteq> 32) OBSERVATION_DISPLAY" by (simp add: OBSERVATION_DISPLAY_def)
  moreover have "map_of OBSERVATION_DISPLAY unmapped_kind = Some (37, ''neutral'')"
    by (simp add: OBSERVATION_DISPLAY_def unmapped_kind_def)
  ultimately show ?thesis
    by (auto simp: display_of_def list_all_iff dest!: map_of_SomeD split: option.splits)
qed

lemma named_observation:
  assumes "well_named st d" and "c = trigger_of d" and "reportable (Some (state_name st)) (the c) d \<Longrightarrow> reportable (Some (state_name st)) (the c) ev"
  shows "\<exists>t r. c = Some t \<and> map_of OBSERVATION_CAUSES t = Some r
    \<and> mo_kind (mapObservationCause (Some (state_name st)) c ev) = cr_kind r"
  using assms mapped_reportable
  by (fastforce simp: well_named_def reportable_def split: option.splits)

lemma activity_observation_kind:
  "\<exists>t r. trigger_of (sm_detail (fold (apply_sm lower) ops (new_machine cfg now))) = Some t
     \<and> map_of OBSERVATION_CAUSES t = Some r
     \<and> mo_kind (activity_observation (fold (apply_sm lower) ops (new_machine cfg now))) = cr_kind r"
  unfolding activity_observation_def using machine_run [of lower ops cfg now]
  by (intro named_observation [where d = "sm_detail (fold (apply_sm lower) ops (new_machine cfg now))"])
     (auto simp: sm_named_def reportable_more)

text \<open>
  Whatever a session's machine went through, what the daemon reports for it is the name of
  the very measurement that put it in its state, never the unmapped one and never shown green,
  and so is every transition its listeners were told of.
\<close>

theorem activity_always_named:
  "let m = fold (apply_sm lower) ops (new_machine cfg now) in
     (\<exists>t r. trigger_of (sm_detail m) = Some t \<and> map_of OBSERVATION_CAUSES t = Some r
        \<and> mo_kind (activity_observation m) = cr_kind r)
     \<and> fst (display_of (mo_kind (activity_observation m))) \<noteq> 32
     \<and> list_all (\<lambda>f. mo_kind (mapObservationCause (Some (state_name (tr_to f))) (trigger_of (tr_detail f)) (tr_detail f))
          \<noteq> unmapped_kind) (sm_fired m)"
proof -
  let ?m = "fold (apply_sm lower) ops (new_machine cfg now)"
  have n: "sm_named ?m" using machine_run by blast
  note activity_observation_kind [of lower ops cfg now]
  moreover have "list_all (\<lambda>f. mo_kind (mapObservationCause (Some (state_name (tr_to f))) (trigger_of (tr_detail f)) (tr_detail f))
      \<noteq> unmapped_kind) (sm_fired ?m)"
    using n named_observation [OF _ refl] kind_not_unmapped
    unfolding sm_named_def list_all_iff by metis
  ultimately show ?thesis by (simp add: Let_def display_not_green)
qed

section \<open>Who may end a thinking phase or a lifecycle state\<close>

lemma state_transition [simp]: "sm_state (do_transition now st conf d m) = st"
  by (simp add: do_transition_def)

lemma state_detect: "sm_state (detect lower now m) \<in> {Waiting, Error, Thinking, Working}"
  by (simp add: detect_def Let_def split: option.splits)

lemma state_feed:
  "sm_state (feed lower now s m) = Idle \<Longrightarrow> sm_state m = Idle \<or> rx_test OSC_133_RE s"
  using state_detect [where lower = lower and now = now]
  by (auto simp: feed_def Let_def split: if_splits) (metis (no_types, lifting) insertE pty_state.distinct singletonD)

text \<open>
  A thinking session is not declared idle because it went quiet: from the thinking state only
  an OSC 133 mark in the output, a timer that finds such a mark no older than twice the idle
  timeout, or a caller's explicit mark leads to idle.
\<close>

theorem thinking_ends_on_evidence:
  assumes "sm_state m = Thinking" and "sm_state (apply_sm lower x m) = Idle"
  shows "(\<exists>now s. x = Feed now s \<and> rx_test OSC_133_RE s)
    \<or> (\<exists>now. x = Tick now \<and> recent_osc133 now m)
    \<or> (\<exists>now conf d. x = MarkIdle now conf d)"
  using assms
  by (cases x) (auto simp: pty_tick_def Let_def markStarting_def markDead_def markRestarting_def
      markTerminationRequested_def reconfigure_def onTransition_def destroy_def
      dest!: state_feed split: if_splits)

text \<open>What is neither a lifecycle mark nor output with an OSC 133 mark.\<close>

fun unmarked :: "sm_op \<Rightarrow> bool" where
  "unmarked (Feed now s) = (\<not> rx_test OSC_133_RE s)"
| "unmarked (MarkStarting _) = False"
| "unmarked (MarkDead _ _ _) = False"
| "unmarked (MarkTermination _ _ _) = False"
| "unmarked (MarkRestarting _) = False"
| "unmarked _ = True"

definition held :: "pty_state \<Rightarrow> transition list \<Rightarrow> machine \<Rightarrow> bool" where
  "held st fired m \<longleftrightarrow> st \<in> {Dead, Restarting} \<and> sm_state m = st \<and> sm_fired m = fired"

interpretation lifecycle: op_machine "apply_sm lower" unmarked "held st fired" for lower st fired
proof
  fix x s
  assume "unmarked x" "held st fired s"
  then show "held st fired (apply_sm lower x s)"
    by (cases x) (auto simp: held_def feed_def Let_def pty_tick_def markIdle_def reconfigure_def
        onTransition_def destroy_def)
qed

text \<open>
  A dead or restarting session stays so, silently: through any output without an OSC 133
  mark, timer ticks, idle marks and reconfigurations the state is kept and no listener is told
  anything.
\<close>

theorem lifecycle_states_hold:
  assumes "sm_state m = Dead \<or> sm_state m = Restarting" and "list_all unmarked ops"
  shows "sm_state (fold (apply_sm lower) ops m) = sm_state m \<and> sm_fired (fold (apply_sm lower) ops m) = sm_fired m"
  using lifecycle.run_keeps [OF assms(2), of "sm_state m" "sm_fired m" m lower] assms(1)
  by (auto simp: held_def)

text \<open>
  One OSC 133 prompt mark in the output takes a dead session back to idle: \<open>feed\<close> looks for the
  mark before it looks at the state, although detection is meant not to run on lifecycle states.
\<close>

theorem osc_mark_revives_dead:
  "\<exists>s. sm_state (markDead now code sig m) = Dead \<and> sm_state (feed lower later s (markDead now code sig m)) = Idle"
proof -
  have "rx_test OSC_133_RE [27, 93, 49, 51, 51, 59, 65, 7]" by code_simp
  then have "sm_state (feed lower later [27, 93, 49, 51, 51, 59, 65, 7] (markDead now code sig m)) = Idle"
    by (simp add: feed_def Let_def)
  then show ?thesis by (auto simp: markDead_def)
qed

section \<open>When output is an error\<close>

text \<open>
  Output is classified as an error exactly when its last line asks for no input and some
  error line has been seen often enough; the report then names a line that no other was seen
  more often than, with its count.
\<close>

theorem error_needs_repetition:
  "sm_state (detect lower now m) = Error \<longleftrightarrow>
     \<not> matchesAny (last_line m) WAITING_PATTERNS
     \<and> (\<exists>f. let es = sm_errors (trackErrors lower now m); d = sm_detail (detect lower now m) in
          0 < occurrences es f \<and> error_repeat_count (sm_config m) \<le> occurrences es f
          \<and> (\<forall>g. occurrences es g \<le> occurrences es f)
          \<and> trigger_of d = Some ''repeated_error_pattern''
          \<and> jm_get d ''error_fingerprint'' = Some (JText f) \<and> jm_get d ''repeat_count'' = Some (JNum (occurrences es f)))"
  (is "?l \<longleftrightarrow> ?r")
proof
  assume ?l
  then obtain conf d where c: "checkError (trackErrors lower now m) = Some (conf, d)" and w: "\<not> matchesAny (last_line m) WAITING_PATTERNS"
    by (auto simp: detect_def Let_def split: option.splits if_splits)
  then have "sm_detail (detect lower now m) = d" by (simp add: detect_def Let_def do_transition_def)
  with w c show ?r by (auto simp: Let_def trigger_of_def elim!: checkError_Some)
next
  assume r: ?r
  then obtain f where "0 < occurrences (sm_errors (trackErrors lower now m)) f"
    "error_repeat_count (sm_config m) \<le> occurrences (sm_errors (trackErrors lower now m)) f"
    by (auto simp: Let_def)
  then have "checkError (trackErrors lower now m) \<noteq> None"
    by (auto simp: checkError_None not_less occurrences_def)
  with r show ?l by (auto simp: detect_def Let_def)
qed

text \<open>
  The error window is not applied to lines first looked at late: three equal error lines, each
  more than a quarter of an hour after the last and hidden behind an input request, are counted
  together by the next output, and reported as three repetitions within a window of 180000 ms.
\<close>

theorem stale_errors_counted:
  "let ask = units_of ''error: x'' @ [10] @ units_of ''press enter'';
       m = fold (apply_sm (map ascii_lower))
         [Feed 1 ask, Feed 1000000 ask, Feed 2000000 ask, Feed 3000000 (units_of ''ok'')] (new_machine [] 0)
   in sm_state m = Error \<and> jm_get (sm_detail m) ''repeat_count'' = Some (JNum 3)
     \<and> jm_get (sm_detail m) ''window_ms'' = Some (JNum 180000)"
  by code_simp

section \<open>Witnesses\<close>

lemma thinking_ends_on_evidence_witness:
  "sm_state (apply_sm (map ascii_lower) (Tick 6000)
     ((new_machine [] 1)\<lparr>sm_state := Thinking, sm_last_osc133 := Some 500\<rparr>)) = Idle
   \<and> recent_osc133 6000 ((new_machine [] 1)\<lparr>sm_state := Thinking, sm_last_osc133 := Some 500\<rparr>)"
proof -
  let ?m = "(new_machine [] 1)\<lparr>sm_state := Thinking, sm_last_osc133 := Some 500\<rparr>"
  have i: "sm_state (apply_sm (map ascii_lower) (Tick 6000) ?m) = Idle"
    by (simp add: pty_tick_def Let_def new_machine_def markStarting_def do_transition_def recent_osc133_def
        truthy_num_def thinking_overdue_def assign_config_def default_config_def)
  then show ?thesis using thinking_ends_on_evidence [OF _ i] by simp
qed

lemma lifecycle_states_hold_witness:
  "sm_state (fold (apply_sm (map ascii_lower)) [Feed 5 [104, 105], Tick 9000, MarkIdle 9001 100 []]
     (markDead 4 (Some 0) None (new_machine [] 1))) = Dead"
proof -
  let ?m = "markDead 4 (Some 0) None (new_machine [] 1)"
  let ?ops = "[Feed 5 [104, 105], Tick 9000, MarkIdle 9001 100 []]"
  have "\<not> rx_test OSC_133_RE [104, 105]" by code_simp
  then have "list_all unmarked ?ops" by simp
  moreover have d: "sm_state ?m = Dead" by (simp add: markDead_def)
  ultimately show ?thesis
    using lifecycle_states_hold [of ?m ?ops "map ascii_lower"] by simp
qed

end
