(* ===== verification/Session_Manager.thy ===== *)
theory Session_Manager
  imports Session_Laws
begin

text \<open>
  \<open>SessionStateManager\<close>: one machine per registered session, in a \<open>Map\<close>. The reference is what a
  single session sees, \<open>session_view\<close>: a machine of its own that is only told what was addressed to
  it. The manager refines it for every session at once.
\<close>

record manager =
  mg_config :: "(config_key \<times> int) list"
  mg_machines :: "(string, machine) jsmap"

definition new_manager :: "(config_key \<times> int) list \<Rightarrow> manager" where
  "new_manager cfg = \<lparr>mg_config = cfg, mg_machines = []\<rparr>"

text \<open>A registered machine always has the manager's relaying listener.\<close>

definition register :: "int \<Rightarrow> string \<Rightarrow> (config_key \<times> int) list \<Rightarrow> manager \<Rightarrow> manager" where
  "register now i cfg g =
     (if jm_has (mg_machines g) i then g
      else g\<lparr>mg_machines := jm_set i (onTransition (new_machine (mg_config g @ cfg) now)) (mg_machines g)\<rparr>)"

definition on_machine :: "string \<Rightarrow> (machine \<Rightarrow> machine) \<Rightarrow> manager \<Rightarrow> manager" where
  "on_machine i f g = (case jm_get (mg_machines g) i of
     None \<Rightarrow> g | Some m \<Rightarrow> g\<lparr>mg_machines := jm_set i (f m) (mg_machines g)\<rparr>)"

definition unregister :: "string \<Rightarrow> manager \<Rightarrow> manager" where
  "unregister i g = (if jm_has (mg_machines g) i
     then g\<lparr>mg_machines := jm_delete i (mg_machines g)\<rparr> else g)"

text \<open>An empty session id is falsy: the call then reconfigures the manager and every machine.\<close>

definition reconfigure_sessions :: "(config_key \<times> int) list \<Rightarrow> string \<Rightarrow> manager \<Rightarrow> manager" where
  "reconfigure_sessions cfg i g =
     (if i \<noteq> [] then on_machine i (reconfigure cfg) g
      else g\<lparr>mg_config := mg_config g @ cfg,
             mg_machines := map (\<lambda>(k, m). (k, reconfigure cfg m)) (mg_machines g)\<rparr>)"

definition destroyAll :: "manager \<Rightarrow> manager" where
  "destroyAll g = g\<lparr>mg_machines := []\<rparr>"

definition session_state :: "string \<Rightarrow> manager \<Rightarrow> machine option" where
  "session_state i g = jm_get (mg_machines g) i"

datatype mg_op =
    Register int string "(config_key \<times> int) list"
  | Session string sm_op
  | Unregister string
  | ReconfigureSessions "(config_key \<times> int) list" string
  | DestroyAll

fun apply_mg :: "(units \<Rightarrow> units) \<Rightarrow> mg_op \<Rightarrow> manager \<Rightarrow> manager" where
  "apply_mg lower (Register now i cfg) g = register now i cfg g"
| "apply_mg lower (Session i x) g = on_machine i (apply_sm lower x) g"
| "apply_mg lower (Unregister i) g = unregister i g"
| "apply_mg lower (ReconfigureSessions cfg i) g = reconfigure_sessions cfg i g"
| "apply_mg lower DestroyAll g = destroyAll g"

section \<open>What one session sees\<close>

type_synonym session_view = "(config_key \<times> int) list \<times> machine option"

fun view_step :: "(units \<Rightarrow> units) \<Rightarrow> string \<Rightarrow> mg_op \<Rightarrow> session_view \<Rightarrow> session_view" where
  "view_step lower me (Register now i cfg) (base, m) =
     (base, if i = me \<and> m = None then Some (onTransition (new_machine (base @ cfg) now)) else m)"
| "view_step lower me (Session i x) (base, m) = (base, if i = me then map_option (apply_sm lower x) m else m)"
| "view_step lower me (Unregister i) (base, m) = (base, if i = me then None else m)"
| "view_step lower me (ReconfigureSessions cfg i) (base, m) =
     (if i = [] then (base @ cfg, map_option (reconfigure cfg) m)
      else (base, if i = me then map_option (reconfigure cfg) m else m))"
| "view_step lower me DestroyAll (base, m) = (base, None)"

definition seen_by :: "string \<Rightarrow> manager \<Rightarrow> session_view" where
  "seen_by me g = (mg_config g, session_state me g)"

lemma map_of_map_values: "map_of (map (\<lambda>(k, v). (k, f v)) xs) k = map_option f (map_of xs k)"
  by (induction xs) auto

lemma on_machine_seen:
  "seen_by me (on_machine i f g) = (mg_config g, if i = me then map_option f (session_state me g) else session_state me g)"
  by (auto simp: seen_by_def on_machine_def session_state_def split: option.splits)

lemma apply_seen: "seen_by me (apply_mg lower x g) = view_step lower me x (seen_by me g)"
proof (cases x)
  case (Register now i cfg)
  then show ?thesis by (auto simp: seen_by_def session_state_def register_def jm_has_def)
next
  case (Session i y)
  then show ?thesis by (simp add: on_machine_seen) (simp add: seen_by_def)
next
  case (Unregister i)
  then show ?thesis by (auto simp: seen_by_def session_state_def unregister_def jm_has_def)
next
  case (ReconfigureSessions cfg i)
  then show ?thesis
    by (auto simp: reconfigure_sessions_def on_machine_seen)
       (auto simp: seen_by_def session_state_def map_of_map_values)
next
  case DestroyAll
  then show ?thesis by (simp add: seen_by_def session_state_def destroyAll_def)
qed

text \<open>
  C34. Sessions do not disturb each other: after any sequence of manager calls, a session's machine
  is exactly what it would be had it alone been told of its own registration, output, marks and
  timer, of its removal and of the manager's configuration.
\<close>

theorem manager_refines_each_session:
  "seen_by me (fold (apply_mg lower) ops g) = fold (view_step lower me) ops (seen_by me g)"
  by (induction ops arbitrary: g) (simp_all add: apply_seen)

end
