(* ===== verification/Js_Polling.thy ===== *)
theory Js_Polling
  imports Js_Regex
begin

text \<open>
  Bounded polling, the shape of every wait in the source: a loop that looks at the world, decides,
  and sleeps. What a round can see is one value of a type \<open>'l\<close>; a run is the list of the rounds
  that take place. The loop has no result while the list is used up before it decides. The
  interface \<open>polling\<close> is the promise that a round at or past the deadline decides.
\<close>

fun poll_loop :: "('s \<Rightarrow> 'l \<Rightarrow> 'r + 's) \<Rightarrow> 's \<Rightarrow> 'l list \<Rightarrow> 'r option" where
  "poll_loop step s [] = None"
| "poll_loop step s (l # ls) = (case step s l of Inl r \<Rightarrow> Some r | Inr s' \<Rightarrow> poll_loop step s' ls)"

text \<open>
  What holds of a result, by what the loop has seen: \<open>P seen s\<close> is kept by the rounds that go on,
  \<open>Q seen r\<close> holds in the round that decides.
\<close>

lemma poll_loop_result:
  assumes "poll_loop step s ls = Some r" and "P [] s"
    and "\<And>seen s l s'. P seen s \<Longrightarrow> step s l = Inr s' \<Longrightarrow> P (seen @ [l]) s'"
    and "\<And>seen s l r. P seen s \<Longrightarrow> step s l = Inl r \<Longrightarrow> Q (seen @ [l]) r"
  obtains n where "n < length ls" and "Q (take (Suc n) ls) r"
proof -
  have "\<exists>n < length ls. Q (seen @ take (Suc n) ls) r" if "poll_loop step s ls = Some r" "P seen s" for seen s
    using that
  proof (induction ls arbitrary: s seen)
    case (Cons l ls)
    show ?case
    proof (cases "step s l")
      case (Inl r')
      then have "r' = r" using Cons.prems(1) by simp
      then have "Q (seen @ [l]) r" using assms(4) Cons.prems(2) Inl by blast
      then show ?thesis by (intro exI [of _ 0]) simp
    next
      case (Inr s')
      have "P (seen @ [l]) s'" using assms(3) Cons.prems(2) Inr by blast
      moreover have "poll_loop step s' ls = Some r" using Cons.prems(1) Inr by simp
      ultimately obtain n where "n < length ls" "Q ((seen @ [l]) @ take (Suc n) ls) r" using Cons.IH by blast
      then show ?thesis by (intro exI [of _ "Suc n"]) simp
    qed
  qed simp
  from this [OF assms(1), of "[]"] assms(2) that show thesis by auto
qed

locale polling =
  fixes step :: "'s \<Rightarrow> 'l \<Rightarrow> 'r + 's"
    and overdue :: "'l \<Rightarrow> bool"
  assumes overdue_decides: "overdue l \<Longrightarrow> isl (step s l)"
begin

lemma returns: "list_ex overdue ls \<Longrightarrow> poll_loop step s ls \<noteq> None"
proof (induction ls arbitrary: s)
  case (Cons l ls)
  then show ?case using overdue_decides [of l s] by (auto split: sum.splits)
qed simp

text \<open>More rounds after a decision change nothing.\<close>

lemma decided: "poll_loop step s ls = Some r \<Longrightarrow> poll_loop step s (ls @ ms) = Some r"
  by (induction ls arbitrary: s) (auto split: sum.splits)

end

section \<open>Text as the terminal shows it\<close>

text \<open>\<open>s.indexOf(needle) !== -1\<close>, and the source's whitespace folding \<open>normalize\<close>.\<close>

definition contains :: "units \<Rightarrow> units \<Rightarrow> bool" where
  "contains hay needle \<longleftrightarrow> list_ex (\<lambda>i. take (length needle) (drop i hay) = needle) [0..<Suc (length hay)]"

function collapse :: "units \<Rightarrow> units" where
  "collapse [] = []"
| "collapse (c # s) = (if is_space c then 32 # collapse (dropWhile is_space s) else c # collapse s)"
  by pat_completeness auto
termination by (relation "measure length") (auto simp: le_imp_less_Suc length_dropWhile_le)

definition normalize_text :: "units \<Rightarrow> units" where
  "normalize_text s = trim (collapse s)"

lemma contains_iff: "contains hay needle \<longleftrightarrow> (\<exists>a b. hay = a @ needle @ b)"
proof
  assume "contains hay needle"
  then obtain i where "take (length needle) (drop i hay) = needle"
    by (auto simp: contains_def list_ex_iff simp del: upt_Suc)
  then have "hay = take i hay @ needle @ drop (length needle) (drop i hay)"
    by (metis append_take_drop_id)
  then show "\<exists>a b. hay = a @ needle @ b" by blast
next
  assume "\<exists>a b. hay = a @ needle @ b"
  then obtain a b where h: "hay = a @ needle @ b" by blast
  then have "take (length needle) (drop (length a) hay) = needle" by simp
  moreover have "length a \<in> set [0..<Suc (length hay)]" using h by simp
  ultimately show "contains hay needle" unfolding contains_def list_ex_iff by blast
qed

end
