(* ===== verification/Submit_Gate.thy ===== *)
theory Submit_Gate
  imports Js_Polling Session_Observation
begin

text \<open>
  \<open>submit-gate.js\<close>: the bounded waits around the carriage return that submits an injected text.
  Each is a \<open>poll_loop\<close> over the rounds between two sleeps; a round sees the clock, the session, the
  state machine's answer and what the screen reader returned. An option the caller may leave out is an
  \<open>option\<close>, with the source's default. \<open>strip\<close> is the ANSI stripper the caller passes.
\<close>

section \<open>What a round can see\<close>

record state_view =
  sv_state :: pty_state
  sv_confidence :: "int option"
  sv_since_ms :: "int option"
  sv_duration_ms :: "int option"
  sv_last_output_at :: "int option"

record gate_session =
  gs_ring :: "units list option"
  gs_total_bytes :: "int option"
  gs_backend :: string
  gs_workspace :: string
  gs_command :: string

record look =
  lk_now :: int
  lk_state :: "state_view option"
  lk_session :: "gate_session option"
  lk_screen :: "units option"

record gate_opts =
  go_timeout :: "int option"
  go_min_confidence :: "int option"
  go_tail_bytes :: "int option"
  go_submitted_at :: "int option"
  go_quiet_window :: "int option"
  go_echo_grace :: "int option"
  go_settle :: "int option"
  go_min_chars :: "int option"
  go_since_bytes :: "int option"
  go_stability :: "int option"
  go_has_state :: bool
  go_has_screen :: bool

definition opt :: "int option \<Rightarrow> int \<Rightarrow> int" where
  "opt x d = (case x of None \<Rightarrow> d | Some v \<Rightarrow> v)"

definition READY_STATES :: "pty_state list" where
  "READY_STATES = [Idle, Waiting]"

definition FAIL_STATES :: "pty_state list" where
  "FAIL_STATES = [Dead, Error, Restarting]"

definition ACCEPTED_AFTER_SUBMIT_STATES :: "pty_state list" where
  "ACCEPTED_AFTER_SUBMIT_STATES = [Working, Thinking]"

definition isReady :: "state_view option \<Rightarrow> int \<Rightarrow> bool" where
  "isReady st min_conf \<longleftrightarrow> (case st of None \<Rightarrow> False
     | Some s \<Rightarrow> sv_state s \<in> set READY_STATES
         \<and> \<not> (case sv_confidence s of None \<Rightarrow> False | Some c \<Rightarrow> c < min_conf))"

definition isFailed :: "state_view option \<Rightarrow> bool" where
  "isFailed st \<longleftrightarrow> (case st of None \<Rightarrow> False | Some s \<Rightarrow> sv_state s \<in> set FAIL_STATES)"

definition isBusyDispatchState :: "state_view option \<Rightarrow> int option \<Rightarrow> bool" where
  "isBusyDispatchState st grace \<longleftrightarrow> (case st of None \<Rightarrow> False
     | Some s \<Rightarrow> sv_state s \<in> set ACCEPTED_AFTER_SUBMIT_STATES
         \<and> (case sv_duration_ms s of None \<Rightarrow> False | Some d \<Rightarrow> d \<ge> opt grace 0))"

definition isAcceptedSubmitState :: "state_view option \<Rightarrow> int \<Rightarrow> bool" where
  "isAcceptedSubmitState st submitted \<longleftrightarrow> (case st of None \<Rightarrow> False
     | Some s \<Rightarrow> sv_state s \<in> set ACCEPTED_AFTER_SUBMIT_STATES
         \<and> ((case sv_since_ms s of None \<Rightarrow> False | Some t \<Rightarrow> t \<ge> submitted)
           \<or> (case sv_last_output_at s of None \<Rightarrow> False | Some t \<Rightarrow> t \<ge> submitted)))"

subsection \<open>The body on the screen\<close>

text \<open>The last chunks of the ring, whole, until they hold the wanted number of units.\<close>

fun read_back :: "int \<Rightarrow> int \<Rightarrow> units list \<Rightarrow> units \<Rightarrow> units" where
  "read_back maxb got [] acc = acc"
| "read_back maxb got (c # cs) acc =
     (if got < maxb then read_back maxb (got + int (length c)) cs (c @ acc) else acc)"

definition readTail :: "units list \<Rightarrow> int \<Rightarrow> units" where
  "readTail ring maxb = read_back maxb 0 (rev ring) []"

definition readCurrentScreen :: "gate_opts \<Rightarrow> look \<Rightarrow> units option" where
  "readCurrentScreen o1 l = (case lk_session l of None \<Rightarrow> None
     | Some s \<Rightarrow> if go_has_screen o1 \<and> gs_workspace s \<noteq> [] then lk_screen l else None)"

record visibility =
  vi_observable :: bool
  vi_visible :: bool
  vi_source :: string
  vi_empty :: "bool option"
  vi_reason :: "string option"

definition observeBodyVisibility :: "(units \<Rightarrow> units) \<Rightarrow> gate_opts \<Rightarrow> units \<Rightarrow> look \<Rightarrow> visibility" where
  "observeBodyVisibility strip o1 body l =
     (let needle = normalize_text body in
      if needle = [] then
        \<lparr>vi_observable = True, vi_visible = False, vi_source = ''body'', vi_empty = None, vi_reason = Some ''empty_body''\<rparr>
      else case readCurrentScreen o1 l of
        Some (c # cs) \<Rightarrow> (let hay = normalize_text (strip (c # cs)) in
          \<lparr>vi_observable = True, vi_visible = contains hay needle, vi_source = ''screen'',
           vi_empty = Some (hay = []), vi_reason = None\<rparr>)
      | _ \<Rightarrow> (case Option.bind (lk_session l) gs_ring of
          None \<Rightarrow> \<lparr>vi_observable = False, vi_visible = False, vi_source = ''none'', vi_empty = None,
                   vi_reason = Some ''no_ring''\<rparr>
        | Some ring \<Rightarrow> (let hay = normalize_text (strip (readTail ring (opt (go_tail_bytes o1) 8192))) in
            \<lparr>vi_observable = True, vi_visible = contains hay needle, vi_source = ''output_ring'',
             vi_empty = Some (hay = []), vi_reason = None\<rparr>)))"

section \<open>Waiting for the prompt\<close>

record repl_result =
  rr_ready :: bool
  rr_reason :: "string option"
  rr_last :: "pty_state option"
  rr_waited :: int

text \<open>A transition told to the listener, or the timer firing, with \<open>getState\<close> at that moment.\<close>

datatype gate_event =
    Told string pty_state "state_view option" int
  | Timer "state_view option" int

fun repl_step :: "string \<Rightarrow> int \<Rightarrow> int \<Rightarrow> unit \<Rightarrow> gate_event \<Rightarrow> repl_result + unit" where
  "repl_step sid min_conf start u (Told i st cur now) =
     (if i \<noteq> sid then Inr ()
      else if st \<in> set READY_STATES then
        (if isReady cur min_conf
         then Inl \<lparr>rr_ready = True, rr_reason = None, rr_last = Some st, rr_waited = now - start\<rparr> else Inr ())
      else if st \<in> set FAIL_STATES
      then Inl \<lparr>rr_ready = False, rr_reason = Some (''session_'' @ state_name st), rr_last = Some st, rr_waited = now - start\<rparr>
      else Inr ())"
| "repl_step sid min_conf start u (Timer cur now) =
     Inl \<lparr>rr_ready = False, rr_reason = Some ''timeout'', rr_last = map_option sv_state cur, rr_waited = now - start\<rparr>"

definition awaitReplReady :: "gate_opts \<Rightarrow> string \<Rightarrow> int \<Rightarrow> state_view option \<Rightarrow> gate_event list \<Rightarrow> repl_result option" where
  "awaitReplReady o1 sid start initial events =
     (let min_conf = opt (go_min_confidence o1) 50; fail = (\<lambda>reason last.
        Some \<lparr>rr_ready = False, rr_reason = Some reason, rr_last = last, rr_waited = 0\<rparr>) in
      if \<not> go_has_state o1 then fail ''no_state_manager'' None
      else case initial of
        None \<Rightarrow> fail ''no_state'' None
      | Some s \<Rightarrow>
        if isReady initial min_conf
        then Some \<lparr>rr_ready = True, rr_reason = None, rr_last = Some (sv_state s), rr_waited = 0\<rparr>
        else if isFailed initial then fail (''session_'' @ state_name (sv_state s)) (Some (sv_state s))
        else poll_loop (repl_step sid min_conf start) () events)"

section \<open>Waiting for the body to be consumed\<close>

record verify_result =
  vf_consumed :: bool
  vf_reason :: string
  vf_waited :: int

text \<open>The ring of a session is an array that the daemon appends to: it is there in every round.\<close>

definition ring_text :: "(units \<Rightarrow> units) \<Rightarrow> gate_opts \<Rightarrow> look \<Rightarrow> units" where
  "ring_text strip o1 l = (case Option.bind (lk_session l) gs_ring of None \<Rightarrow> []
     | Some ring \<Rightarrow> normalize_text (strip (readTail ring (opt (go_tail_bytes o1) 8192))))"

definition has_ring :: "look \<Rightarrow> bool" where
  "has_ring l \<longleftrightarrow> Option.bind (lk_session l) gs_ring \<noteq> None"

definition verify_step :: "(units \<Rightarrow> units) \<Rightarrow> gate_opts \<Rightarrow> units \<Rightarrow> int \<Rightarrow> bool \<Rightarrow> look \<Rightarrow> verify_result + bool" where
  "verify_step strip o1 needle start ever_seen l =
     (if \<not> contains (ring_text strip o1 l) needle
      then Inl \<lparr>vf_consumed = True, vf_reason = (if ever_seen then ''consumed'' else ''never_visible''),
                vf_waited = lk_now l - start\<rparr>
      else if lk_now l - start \<ge> opt (go_timeout o1) 1500
      then Inl \<lparr>vf_consumed = False, vf_reason = ''still_visible'', vf_waited = lk_now l - start\<rparr>
      else Inr True)"

definition verifyBodyConsumed :: "(units \<Rightarrow> units) \<Rightarrow> gate_opts \<Rightarrow> units \<Rightarrow> look list \<Rightarrow> verify_result option" where
  "verifyBodyConsumed strip o1 body looks = (case looks of [] \<Rightarrow> None
     | l # _ \<Rightarrow>
       if \<not> has_ring l then Some \<lparr>vf_consumed = False, vf_reason = ''no_ring'', vf_waited = 0\<rparr>
       else if normalize_text body = [] then Some \<lparr>vf_consumed = True, vf_reason = ''empty_body'', vf_waited = 0\<rparr>
       else poll_loop (verify_step strip o1 (normalize_text body) (lk_now l)) False looks)"

section \<open>Confirming the submit\<close>

record confirm_result =
  cf_accepted :: bool
  cf_retryable :: bool
  cf_waited :: int
  cf_reason :: string
  cf_ambiguous :: bool
  cf_state :: "state_view option"
  cf_visibility :: "visibility option"

record confirm_memory =
  cm_last :: "visibility option"
  cm_ever_visible :: bool
  cm_ever_output :: bool

definition confirmed :: "int \<Rightarrow> string \<Rightarrow> bool \<Rightarrow> state_view option \<Rightarrow> visibility option \<Rightarrow> confirm_result" where
  "confirmed waited reason ambiguous st vis = \<lparr>cf_accepted = True, cf_retryable = False, cf_waited = waited,
     cf_reason = reason, cf_ambiguous = ambiguous, cf_state = st, cf_visibility = vis\<rparr>"

definition unsubmitted :: "int \<Rightarrow> string \<Rightarrow> state_view option \<Rightarrow> visibility option \<Rightarrow> confirm_result" where
  "unsubmitted waited reason st vis = \<lparr>cf_accepted = False, cf_retryable = True, cf_waited = waited,
     cf_reason = reason, cf_ambiguous = False, cf_state = st, cf_visibility = vis\<rparr>"

definition confirm_step ::
    "(units \<Rightarrow> units) \<Rightarrow> gate_opts \<Rightarrow> units \<Rightarrow> int \<Rightarrow> int \<Rightarrow> confirm_memory \<Rightarrow> look \<Rightarrow> confirm_result + confirm_memory" where
  "confirm_step strip o1 body submitted start m l =
     (let st = (if go_has_state o1 then lk_state l else None); waited = lk_now l - start;
          vis = observeBodyVisibility strip o1 body l;
          output = (cm_ever_output m \<or> (vi_observable vis \<and> vi_empty vis = Some False)) in
      if isAcceptedSubmitState st submitted
      then Inl (confirmed waited (''state_'' @ state_name (sv_state (the st))) False st (cm_last m))
      else if vi_reason vis = Some ''empty_body'' then Inl (confirmed waited ''empty_body'' False None (Some vis))
      else if \<not> vi_observable vis
      then Inl (confirmed waited (case vi_reason vis of None \<Rightarrow> ''no_observable'' | Some r \<Rightarrow> r) True None (Some vis))
      else if \<not> vi_visible vis \<and> cm_ever_visible m
      then Inl (confirmed waited ''body_consumed'' False None (Some vis))
      else if \<not> vi_visible vis \<and> \<not> go_has_state o1
      then Inl (confirmed waited ''body_absent'' False None (Some vis))
      else if waited \<ge> opt (go_timeout o1) 1500 then
        (if vi_visible vis then Inl (unsubmitted waited ''body_still_visible'' st (Some vis))
         else if output then Inl (unsubmitted waited ''no_land'' st (Some vis))
         else Inl (confirmed waited ''no_observable'' True st (Some vis)))
      else Inr \<lparr>cm_last = Some vis, cm_ever_visible = (cm_ever_visible m \<or> vi_visible vis), cm_ever_output = output\<rparr>)"

definition confirmSubmitAccepted :: "(units \<Rightarrow> units) \<Rightarrow> gate_opts \<Rightarrow> units \<Rightarrow> look list \<Rightarrow> confirm_result option" where
  "confirmSubmitAccepted strip o1 body looks = (case looks of [] \<Rightarrow> None
     | l # _ \<Rightarrow> poll_loop (confirm_step strip o1 body (opt (go_submitted_at o1) (lk_now l)) (lk_now l))
         \<lparr>cm_last = None, cm_ever_visible = False, cm_ever_output = False\<rparr> looks)"

section \<open>Waiting for the render to settle\<close>

record settled_result =
  st_ready :: bool
  st_reason :: string
  st_echoed :: bool
  st_settled :: bool
  st_waited :: int

record settle_memory =
  sl_last :: "units option"
  sl_changed_at :: int
  sl_echoed :: bool

definition settle_step ::
    "(units \<Rightarrow> units) \<Rightarrow> gate_opts \<Rightarrow> units \<Rightarrow> int \<Rightarrow> settle_memory \<Rightarrow> look \<Rightarrow> settled_result + settle_memory" where
  "settle_step strip o1 needle start m l =
     (let seen = ring_text strip o1 l; now = lk_now l; echoed = (sl_echoed m \<or> contains seen needle);
          active = (sl_last m \<noteq> Some seen); quiet = (\<not> active \<and> now - sl_changed_at m \<ge> opt (go_quiet_window o1) 100);
          settled = (\<lambda>reason e. Inl \<lparr>st_ready = True, st_reason = reason, st_echoed = e, st_settled = True,
                       st_waited = now - start\<rparr>) in
      if quiet \<and> echoed then settled ''settled'' True
      else if quiet \<and> now - start \<ge> opt (go_echo_grace o1) 400 then settled ''settled_no_echo'' False
      else if now - start \<ge> opt (go_timeout o1) 1500
      then Inl \<lparr>st_ready = False, st_reason = ''timeout'', st_echoed = echoed, st_settled = False, st_waited = now - start\<rparr>
      else Inr \<lparr>sl_last = (if active then Some seen else sl_last m),
                sl_changed_at = (if active then now else sl_changed_at m), sl_echoed = echoed\<rparr>)"

definition awaitInputSettled :: "(units \<Rightarrow> units) \<Rightarrow> gate_opts \<Rightarrow> units \<Rightarrow> look list \<Rightarrow> settled_result option" where
  "awaitInputSettled strip o1 body looks = (case looks of [] \<Rightarrow> None
     | l # _ \<Rightarrow>
       if normalize_text body = []
       then Some \<lparr>st_ready = True, st_reason = ''empty_body'', st_echoed = False, st_settled = True, st_waited = 0\<rparr>
       else if \<not> has_ring l
       then Some \<lparr>st_ready = True, st_reason = ''no_ring'', st_echoed = False, st_settled = False, st_waited = 0\<rparr>
       else poll_loop (settle_step strip o1 (normalize_text body) (lk_now l))
         \<lparr>sl_last = None, sl_changed_at = lk_now l, sl_echoed = False\<rparr> looks)"

section \<open>Echo and consumption\<close>

record echo_result =
  ec_observed :: bool
  ec_reason :: string
  ec_windows :: "int option"

text \<open>\<open>for (i = 0; i + w <= body.length; i += step)\<close>: the windows of the body.\<close>

function echo_windows :: "nat \<Rightarrow> nat \<Rightarrow> units \<Rightarrow> nat \<Rightarrow> units list" where
  "echo_windows w step body i =
     (if i + w \<le> length body then take w (drop i body) # echo_windows w step body (i + max 1 step) else [])"
  by pat_completeness auto
termination by (relation "measure (\<lambda>(w, step, body, i). Suc (length body) - i)") auto

fun count_hits :: "(units \<Rightarrow> bool) \<Rightarrow> int \<Rightarrow> units list \<Rightarrow> int \<Rightarrow> echo_result" where
  "count_hits fresh needed [] hits = \<lparr>ec_observed = False, ec_reason = ''no_echo'', ec_windows = Some hits\<rparr>"
| "count_hits fresh needed (w # ws) hits =
     (if fresh w then
        (if hits + 1 \<ge> needed then \<lparr>ec_observed = True, ec_reason = ''echo'', ec_windows = Some (hits + 1)\<rparr>
         else count_hits fresh needed ws (hits + 1))
      else count_hits fresh needed ws hits)"

text \<open>The window length is taken as a natural number, as it is in every call.\<close>

definition observeInjectEcho :: "(units \<Rightarrow> units) \<Rightarrow> gate_opts \<Rightarrow> units \<Rightarrow> gate_session option \<Rightarrow> echo_result" where
  "observeInjectEcho strip o1 body1 session =
     (let w = nat (opt (go_min_chars o1) 24); body = normalize_text body1;
          no = (\<lambda>reason. \<lparr>ec_observed = False, ec_reason = reason, ec_windows = None\<rparr>) in
      if length body < w then no (if body = [] then ''empty_body'' else ''body_too_short'')
      else case session of None \<Rightarrow> no ''no_ring'' | Some s \<Rightarrow>
        (case gs_ring s of None \<Rightarrow> no ''no_ring'' | Some [] \<Rightarrow> no ''no_ring''
         | Some ring \<Rightarrow>
           (let everything = concat ring;
                appended = (case (go_since_bytes o1, gs_total_bytes s) of
                  (Some since, Some written) \<Rightarrow> Some (max 0 (written - since)) | _ \<Rightarrow> None);
                split = (case appended of None \<Rightarrow> 0 | Some a \<Rightarrow> length everything - nat a);
                pre = normalize_text (strip (take split everything));
                post = normalize_text (strip (drop split everything)) in
            if appended = Some 0 then no ''no_frames_since_inject''
            else count_hits (\<lambda>x. contains post x \<and> \<not> contains pre x) (if length body \<ge> w * 2 then 2 else 1)
              (echo_windows w (w div 2) body 0) 0)))"

record consumption =
  cs_status :: string
  cs_reason :: string
  cs_waited :: int

definition fresh_turn :: "state_view option \<Rightarrow> int \<Rightarrow> bool" where
  "fresh_turn st submitted \<longleftrightarrow> (case st of None \<Rightarrow> False
     | Some s \<Rightarrow> sv_state s \<in> set ACCEPTED_AFTER_SUBMIT_STATES
         \<and> (case sv_since_ms s of None \<Rightarrow> False | Some t \<Rightarrow> t \<ge> submitted))"

definition already_busy :: "state_view option \<Rightarrow> int \<Rightarrow> bool" where
  "already_busy st submitted \<longleftrightarrow> (case st of None \<Rightarrow> False
     | Some s \<Rightarrow> sv_state s \<in> set ACCEPTED_AFTER_SUBMIT_STATES
         \<and> (case sv_since_ms s of None \<Rightarrow> False | Some t \<Rightarrow> t < submitted))"

definition consumption_step ::
    "(units \<Rightarrow> units) \<Rightarrow> gate_opts \<Rightarrow> units \<Rightarrow> int \<Rightarrow> int \<Rightarrow> bool \<Rightarrow> unit \<Rightarrow> look \<Rightarrow> consumption + unit" where
  "consumption_step strip o1 body submitted start started_busy u l =
     (let elapsed = lk_now l - start; parked = ec_observed (observeInjectEcho strip o1 body (lk_session l));
          is = (\<lambda>status reason. Inl \<lparr>cs_status = status, cs_reason = reason, cs_waited = elapsed\<rparr>) in
      if \<not> started_busy \<and> go_has_state o1 \<and> fresh_turn (lk_state l) submitted
      then is ''consumed'' (''turn_started_'' @ state_name (sv_state (the (lk_state l))))
      else if started_busy \<and> elapsed \<ge> opt (go_settle o1) 250 \<and> parked then is ''queued'' ''busy_parked''
      else if elapsed \<ge> opt (go_timeout o1) 1200 then
        (if parked then is ''queued'' (if started_busy then ''busy_parked'' else ''body_parked'')
         else is ''unknown'' (if started_busy then ''busy_no_evidence'' else ''no_turn''))
      else Inr ())"

definition classifyInjectConsumption :: "(units \<Rightarrow> units) \<Rightarrow> gate_opts \<Rightarrow> units \<Rightarrow> look list \<Rightarrow> consumption option" where
  "classifyInjectConsumption strip o1 body looks = (case looks of [] \<Rightarrow> None
     | l # _ \<Rightarrow>
       let text = normalize_text body; submitted = opt (go_submitted_at o1) (lk_now l);
           unknown = (\<lambda>reason. Some \<lparr>cs_status = ''unknown'', cs_reason = reason, cs_waited = 0\<rparr>) in
       if text = [] then unknown ''empty_body''
       else if int (length text) < opt (go_min_chars o1) 24 then unknown ''body_too_short''
       else if \<not> has_ring l then unknown ''no_ring''
       else poll_loop (consumption_step strip o1 body submitted (lk_now l)
           (already_busy (if go_has_state o1 then lk_state l else None) submitted)) () looks)"

section \<open>Holding a parked body and firing it again\<close>

text \<open>One round of the loop: what the injected effects answered, and the clock at its head.\<close>

record hold_round =
  hr_now :: int
  hr_parked :: bool
  hr_idle :: bool
  hr_idle_reason :: "string option"
  hr_still_parked :: bool
  hr_redelivered :: bool
  hr_fire_reason :: "string option"

datatype hold_act = CheckParked bool | AwaitIdle int | FireCR | OnExhausted string

record hold_result =
  ho_status :: string
  ho_reason :: string
  ho_attempts :: int
  ho_log :: "hold_act list"

definition ended :: "string \<Rightarrow> string \<Rightarrow> int \<Rightarrow> hold_act list \<Rightarrow> hold_result + (int \<times> hold_act list)" where
  "ended status reason attempts log = Inl \<lparr>ho_status = status, ho_reason = reason, ho_attempts = attempts, ho_log = log\<rparr>"

definition hold_round_step ::
    "int \<Rightarrow> int \<Rightarrow> int \<Rightarrow> int \<times> hold_act list \<Rightarrow> hold_round \<Rightarrow> hold_result + (int \<times> hold_act list)" where
  "hold_round_step max_attempts limit start m r =
     (let attempts = fst m; log = snd m; log1 = log @ [CheckParked (hr_parked r)];
          log2 = log1 @ [AwaitIdle (limit - (hr_now r - start))]; log3 = log2 @ [CheckParked (hr_still_parked r)];
          log4 = log3 @ [FireCR] in
      if hr_now r - start \<ge> limit then ended ''exhausted'' ''deadline'' attempts (log @ [OnExhausted ''deadline''])
      else if \<not> hr_parked r then ended ''already_consumed'' ''not_parked'' attempts log1
      else if \<not> hr_idle r then ended ''exhausted'' ''idle_timeout'' attempts (log2 @ [OnExhausted (case hr_idle_reason r of None \<Rightarrow> ''idle_timeout'' | Some x \<Rightarrow> x)])
      else if \<not> hr_still_parked r then ended ''already_consumed'' ''consumed_on_idle'' attempts log3
      else if hr_redelivered r
      then ended ''redelivered'' (case hr_fire_reason r of None \<Rightarrow> ''consumed'' | Some x \<Rightarrow> x) (attempts + 1) log4
      else if attempts + 1 \<ge> max_attempts
      then ended ''exhausted'' ''max_attempts'' (attempts + 1) (log4 @ [OnExhausted ''max_attempts''])
      else Inr (attempts + 1, log4))"

definition holdAndRedeliver :: "int option \<Rightarrow> int option \<Rightarrow> bool \<Rightarrow> int \<Rightarrow> hold_round list \<Rightarrow> hold_result option" where
  "holdAndRedeliver max_attempts total_timeout has_deps start rounds =
     (if \<not> has_deps
      then Some \<lparr>ho_status = ''exhausted'', ho_reason = ''no_dependencies'', ho_attempts = 0, ho_log = []\<rparr>
      else if opt max_attempts 3 \<le> 0
      then Some \<lparr>ho_status = ''exhausted'', ho_reason = ''max_attempts'', ho_attempts = 0, ho_log = [OnExhausted ''max_attempts'']\<rparr>
      else poll_loop (hold_round_step (opt max_attempts 3) (opt total_timeout 600000) start) (0, []) rounds)"

section \<open>Waiting for a prompt symbol\<close>

record symbol_result =
  sy_ready :: bool
  sy_reason :: "string option"
  sy_seen_at :: "int option"
  sy_waited :: int

text \<open>A registry entry's detector answers with a reason when it finds the symbol.\<close>

definition symbol_step ::
    "gate_opts \<Rightarrow> (units \<Rightarrow> string option option) \<Rightarrow> int \<Rightarrow> int option \<Rightarrow> look \<Rightarrow> symbol_result + int option" where
  "symbol_step o1 detector start seen l =
     (let now = lk_now l; screen = (case lk_screen l of None \<Rightarrow> [] | Some s \<Rightarrow> s);
          found = (if screen = [] then None else detector screen);
          seen' = (if screen = [] then seen
                   else if found = None then None else if seen = None then Some now else seen) in
      if found \<noteq> None \<and> seen \<noteq> None \<and> now - the seen \<ge> opt (go_stability o1) 200
      then Inl \<lparr>sy_ready = True, sy_reason = the found, sy_seen_at = seen, sy_waited = now - start\<rparr>
      else if now - start \<ge> opt (go_timeout o1) 8000
      then Inl \<lparr>sy_ready = False, sy_reason = Some ''no_prompt_symbol_seen'', sy_seen_at = None, sy_waited = now - start\<rparr>
      else Inr seen')"

definition awaitPromptSymbol ::
    "gate_opts \<Rightarrow> (string \<Rightarrow> (units \<Rightarrow> string option option) option) \<Rightarrow> gate_session option \<Rightarrow> look list \<Rightarrow> symbol_result option" where
  "awaitPromptSymbol o1 find_entry session looks =
     (let skip = (\<lambda>reason. Some \<lparr>sy_ready = False, sy_reason = Some reason, sy_seen_at = None, sy_waited = 0\<rparr>) in
      case session of None \<Rightarrow> skip ''no_screen_primitive''
      | Some s \<Rightarrow>
        if gs_backend s \<noteq> ''cmux'' \<or> gs_workspace s = [] then skip ''no_screen_primitive''
        else case find_entry (gs_command s) of
          None \<Rightarrow> skip ''unknown_cli''
        | Some d \<Rightarrow> (case looks of [] \<Rightarrow> None | l # _ \<Rightarrow> poll_loop (symbol_step o1 d (lk_now l)) None looks))"

end
