(* ===== verification/Submit_Laws.thy ===== *)
theory Submit_Laws
  imports Submit_Gate
begin

text \<open>
  What the submit waits promise: every one of them returns, a retry of the carriage return is only
  ever asked for without evidence of a turn, consumption is never claimed of a busy recipient, and
  redelivery is bounded and never fires on a body that has left the composer.
\<close>

section \<open>Every wait returns\<close>

definition past :: "int option \<Rightarrow> int \<Rightarrow> int \<Rightarrow> look \<Rightarrow> bool" where
  "past t d start l \<longleftrightarrow> lk_now l - start \<ge> opt t d"

interpretation verify: polling "verify_step strip o1 needle start" "past (go_timeout o1) 1500 start"
  for strip o1 needle start
  by unfold_locales (simp add: verify_step_def past_def)

interpretation confirm: polling "confirm_step strip o1 body submitted start" "past (go_timeout o1) 1500 start"
  for strip o1 body submitted start
  by unfold_locales (simp add: confirm_step_def past_def Let_def)

interpretation settle: polling "settle_step strip o1 needle start" "past (go_timeout o1) 1500 start"
  for strip o1 needle start
  by unfold_locales (simp add: settle_step_def past_def Let_def)

interpretation consume: polling "consumption_step strip o1 body submitted start busy" "past (go_timeout o1) 1200 start"
  for strip o1 body submitted start busy
  by unfold_locales (simp add: consumption_step_def past_def Let_def)

interpretation symbol: polling "symbol_step o1 d start" "past (go_timeout o1) 8000 start"
  for o1 d start
  by unfold_locales (simp add: symbol_step_def past_def Let_def)

definition is_timer :: "gate_event \<Rightarrow> bool" where
  "is_timer e = (case e of Told _ _ _ _ \<Rightarrow> False | Timer _ _ \<Rightarrow> True)"

interpretation repl: polling "repl_step sid min_conf start" is_timer for sid min_conf start
  by unfold_locales (auto simp: is_timer_def split: gate_event.splits)

interpretation hold: polling "hold_round_step max_attempts limit start" "\<lambda>r. hr_now r - start \<ge> limit"
  for max_attempts limit start
  by unfold_locales (simp add: hold_round_step_def ended_def Let_def)

text \<open>
  Every wait around a submit comes back: as soon as one of its rounds, or its timer, is at or
  past the deadline, it has a result, whatever the session and the screen did.
\<close>

theorem submit_waits_return:
  assumes late: "list_ex (past (go_timeout o1) 8000 start) looks" and first: "lk_now (hd looks) = start"
    and timer: "list_ex is_timer events"
  shows "confirmSubmitAccepted strip o1 body looks \<noteq> None \<and> verifyBodyConsumed strip o1 body looks \<noteq> None
    \<and> awaitInputSettled strip o1 body looks \<noteq> None \<and> classifyInjectConsumption strip o1 body looks \<noteq> None
    \<and> awaitPromptSymbol o1 registry session looks \<noteq> None \<and> awaitReplReady o1 sid start initial events \<noteq> None"
proof -
  from late first obtain l ls where looks: "looks = l # ls" "lk_now l = start" by (cases looks) auto
  have "list_ex (past (go_timeout o1) 1500 start) looks" "list_ex (past (go_timeout o1) 1200 start) looks"
    using late by (auto simp: list_ex_iff past_def opt_def split: option.splits) force+
  note d = confirm.returns [OF this(1)] verify.returns [OF this(1)] settle.returns [OF this(1)]
    consume.returns [OF this(2)] symbol.returns [OF late] repl.returns [OF timer]
  have "confirmSubmitAccepted strip o1 body looks \<noteq> None" "verifyBodyConsumed strip o1 body looks \<noteq> None"
    "awaitInputSettled strip o1 body looks \<noteq> None" "classifyInjectConsumption strip o1 body looks \<noteq> None"
    using d(1-4) unfolding confirmSubmitAccepted_def verifyBodyConsumed_def awaitInputSettled_def
      classifyInjectConsumption_def by (simp_all add: looks Let_def del: poll_loop.simps)
  moreover have "awaitPromptSymbol o1 registry session looks \<noteq> None" "awaitReplReady o1 sid start initial events \<noteq> None"
    using d(5,6) unfolding awaitPromptSymbol_def awaitReplReady_def
    by (simp_all add: looks Let_def del: poll_loop.simps split: option.splits)
  ultimately show ?thesis by blast
qed

section \<open>When a carriage return may be repeated\<close>

definition submit_state :: "gate_opts \<Rightarrow> look \<Rightarrow> state_view option" where
  "submit_state o1 l = (if go_has_state o1 then lk_state l else None)"

definition body_visible :: "(units \<Rightarrow> units) \<Rightarrow> gate_opts \<Rightarrow> units \<Rightarrow> look \<Rightarrow> bool" where
  "body_visible strip o1 body l \<longleftrightarrow> vi_observable (observeBodyVisibility strip o1 body l) \<and> vi_visible (observeBodyVisibility strip o1 body l)"

text \<open>Once seen, seen in every later round.\<close>

definition stays :: "('a \<Rightarrow> bool) \<Rightarrow> 'a list \<Rightarrow> bool" where
  "stays p ls \<longleftrightarrow> list_all p (dropWhile (\<lambda>x. \<not> p x) ls)"

lemma stays_snoc: "stays p (ls @ [l]) \<longleftrightarrow> stays p ls \<and> (list_ex p ls \<longrightarrow> p l)"
  by (induction ls) (auto simp: stays_def)

lemma visible_observable: "vi_visible (observeBodyVisibility strip o1 body l) \<Longrightarrow> vi_observable (observeBodyVisibility strip o1 body l)"
  by (auto simp: observeBodyVisibility_def Let_def split: option.splits list.splits if_splits)

lemma empty_body_reason: "vi_reason (observeBodyVisibility strip o1 body l) = Some ''empty_body'' \<longleftrightarrow> normalize_text body = []"
  by (auto simp: observeBodyVisibility_def Let_def split: option.splits list.splits)

definition confirm_seen ::
    "(units \<Rightarrow> units) \<Rightarrow> gate_opts \<Rightarrow> units \<Rightarrow> int \<Rightarrow> look list \<Rightarrow> confirm_memory \<Rightarrow> bool" where
  "confirm_seen strip o1 body submitted seen m \<longleftrightarrow>
     list_all (\<lambda>l. \<not> isAcceptedSubmitState (submit_state o1 l) submitted) seen
     \<and> cm_ever_visible m = list_ex (body_visible strip o1 body) seen \<and> stays (body_visible strip o1 body) seen"

definition confirm_says ::
    "(units \<Rightarrow> units) \<Rightarrow> gate_opts \<Rightarrow> units \<Rightarrow> int \<Rightarrow> int \<Rightarrow> look list \<Rightarrow> confirm_result \<Rightarrow> bool" where
  "confirm_says strip o1 body submitted start seen r \<longleftrightarrow>
     (if cf_retryable r then
        \<not> cf_accepted r \<and> past (go_timeout o1) 1500 start (last seen)
        \<and> list_all (\<lambda>l. \<not> isAcceptedSubmitState (submit_state o1 l) submitted) seen
        \<and> stays (body_visible strip o1 body) seen
      else if cf_ambiguous r then True
      else isAcceptedSubmitState (submit_state o1 (last seen)) submitted \<or> normalize_text body = []
        \<or> \<not> body_visible strip o1 body (last seen)
          \<and> (list_ex (body_visible strip o1 body) seen \<or> \<not> go_has_state o1))"

lemma confirm_goes_on:
  assumes "confirm_seen strip o1 body submitted seen m" and "confirm_step strip o1 body submitted start m l = Inr m'"
  shows "confirm_seen strip o1 body submitted (seen @ [l]) m'"
  using assms
  by (auto simp: confirm_step_def Let_def confirm_seen_def submit_state_def stays_snoc body_visible_def
      dest: visible_observable split: if_splits)

lemma confirm_decides:
  assumes "confirm_seen strip o1 body submitted seen m" and "confirm_step strip o1 body submitted start m l = Inl r"
  shows "confirm_says strip o1 body submitted start (seen @ [l]) r"
  using assms
  by (auto simp: confirm_step_def Let_def confirm_seen_def confirm_says_def submit_state_def stays_snoc body_visible_def
      confirmed_def unsubmitted_def past_def empty_body_reason dest: visible_observable split: if_splits)

text \<open>
  A repeated carriage return is never a second submit by mistake: it is asked for only at the
  deadline, when no round saw a turn begin and the body, once seen, was in the composer to the
  end. An acceptance that is not called ambiguous has evidence: a busy state after the submit, or
  the body gone after it was there (without a state machine: not there), or nothing to submit.
\<close>

theorem retry_needs_no_evidence:
  assumes "confirmSubmitAccepted strip o1 body looks = Some r"
  shows "\<exists>n < length looks. confirm_says strip o1 body (opt (go_submitted_at o1) (lk_now (hd looks)))
    (lk_now (hd looks)) (take (Suc n) looks) r"
proof -
  from assms obtain l ls where looks: "looks = l # ls"
    by (cases looks) (auto simp: confirmSubmitAccepted_def)
  let ?s = "opt (go_submitted_at o1) (lk_now l)"
  from assms have "poll_loop (confirm_step strip o1 body ?s (lk_now l))
      \<lparr>cm_last = None, cm_ever_visible = False, cm_ever_output = False\<rparr> looks = Some r"
    by (simp add: confirmSubmitAccepted_def looks)
  then obtain n where "n < length looks" "confirm_says strip o1 body ?s (lk_now l) (take (Suc n) looks) r"
    by (rule poll_loop_result [where P = "confirm_seen strip o1 body ?s" and Q = "confirm_says strip o1 body ?s (lk_now l)"])
       (auto simp: confirm_seen_def [of _ _ _ _ "[]"] stays_def intro: confirm_goes_on confirm_decides)
  then show ?thesis by (auto simp: looks)
qed

section \<open>Consumption is never claimed of a busy recipient\<close>

definition consumption_says ::
    "(units \<Rightarrow> units) \<Rightarrow> gate_opts \<Rightarrow> units \<Rightarrow> int \<Rightarrow> bool \<Rightarrow> look list \<Rightarrow> consumption \<Rightarrow> bool" where
  "consumption_says strip o1 body submitted busy seen c \<longleftrightarrow>
     (if cs_status c = ''consumed'' then \<not> busy \<and> fresh_turn (lk_state (last seen)) submitted
      else if cs_status c = ''queued'' then ec_observed (observeInjectEcho strip o1 body (lk_session (last seen)))
      else cs_status c = ''unknown'')"

lemma consumption_decides:
  "consumption_step strip o1 body submitted start busy u l = Inl c \<Longrightarrow>
     consumption_says strip o1 body submitted busy (seen @ [l]) c"
  by (auto simp: consumption_step_def Let_def consumption_says_def split: if_splits)

text \<open>
  Consumption is claimed only on evidence: the recipient was not in a turn that began before
  the submit, and the round that decides saw it in a turn that began no earlier; \<open>queued\<close> is
  claimed only when the body is seen echoed in that round. A busy recipient is never \<open>consumed\<close>.
\<close>

theorem consumption_needs_fresh_turn:
  assumes "classifyInjectConsumption strip o1 body looks = Some c"
  shows "\<exists>n < length looks. consumption_says strip o1 body (opt (go_submitted_at o1) (lk_now (hd looks)))
    (already_busy (submit_state o1 (hd looks)) (opt (go_submitted_at o1) (lk_now (hd looks)))) (take (Suc n) looks) c"
proof -
  from assms obtain l ls where looks: "looks = l # ls"
    by (cases looks) (auto simp: classifyInjectConsumption_def)
  let ?s = "opt (go_submitted_at o1) (lk_now l)"
  let ?b = "already_busy (submit_state o1 l) ?s"
  show ?thesis
  proof (cases "poll_loop (consumption_step strip o1 body ?s (lk_now l) ?b) () looks = Some c")
    case True
    then obtain n where "n < length looks" "consumption_says strip o1 body ?s ?b (take (Suc n) looks) c"
      by (rule poll_loop_result [where P = "\<lambda>_ _. True" and Q = "consumption_says strip o1 body ?s ?b"])
         (auto intro: consumption_decides)
    then show ?thesis by (auto simp: looks)
  next
    case False
    then have "cs_status c = ''unknown''"
      using assms by (auto simp: classifyInjectConsumption_def looks Let_def submit_state_def split: if_splits)
    then show ?thesis by (intro exI [of _ 0]) (simp add: looks consumption_says_def)
  qed
qed

section \<open>Redelivery is bounded and guarded\<close>

text \<open>Every carriage return of the log comes right after the parked check, the idle wait and the second check.\<close>

fun guarded :: "hold_act list \<Rightarrow> bool" where
  "guarded (CheckParked p # AwaitIdle t # CheckParked q # FireCR # r) = (p \<and> q \<and> guarded r)"
| "guarded (FireCR # r) = False"
| "guarded (x # r) = guarded r"
| "guarded [] = True"

definition fires :: "hold_act list \<Rightarrow> int" where
  "fires log = int (length (filter (\<lambda>x. x = FireCR) log))"

lemma fires_simps [simp]: "fires [] = 0" "fires (x # log) = (if x = FireCR then 1 else 0) + fires log"
  "fires (xs @ ys) = fires xs + fires ys"
  by (simp_all add: fires_def)

definition hold_seen :: "int \<Rightarrow> hold_round list \<Rightarrow> int \<times> hold_act list \<Rightarrow> bool" where
  "hold_seen max_attempts seen m \<longleftrightarrow> fst m = int (length seen) \<and> fires (snd m) = fst m \<and> fst m < max_attempts
     \<and> (\<forall>more. guarded (snd m @ more) = guarded more)"

definition hold_says :: "int \<Rightarrow> hold_round list \<Rightarrow> hold_result \<Rightarrow> bool" where
  "hold_says max_attempts seen r \<longleftrightarrow> fires (ho_log r) = ho_attempts r \<and> ho_attempts r \<le> max_attempts \<and> guarded (ho_log r)"

definition fired_chunk :: "int \<Rightarrow> hold_act list" where
  "fired_chunk t = [CheckParked True, AwaitIdle t, CheckParked True, FireCR]"

lemma guarded_chunk [simp]: "guarded (fired_chunk t @ rest) = guarded rest" "fires (fired_chunk t) = 1"
  by (simp_all add: fired_chunk_def)

lemma hold_continues:
  "hold_round_step a limit start m r = Inr m' \<Longrightarrow>
     \<exists>t. m' = (fst m + 1, snd m @ fired_chunk t) \<and> fst m + 1 < a"
  by (auto simp: hold_round_step_def Let_def ended_def fired_chunk_def split: if_splits)

text \<open>A deciding round adds a log of its own; if it fired, it fired once.\<close>

lemma hold_ends:
  assumes "hold_round_step a limit start m r = Inl x" and "fst m < a"
  obtains tail where "ho_log x = snd m @ tail" "guarded tail" "ho_attempts x = fst m + fires tail" "ho_attempts x \<le> a"
proof (cases "hr_now r - start \<ge> limit \<or> \<not> hr_parked r \<or> \<not> hr_idle r \<or> \<not> hr_still_parked r")
  case True
  then show ?thesis using assms that
    by (auto simp: hold_round_step_def Let_def ended_def split: if_splits)
next
  case False
  let ?c = "fired_chunk (limit - (hr_now r - start))"
  have "ho_log x = snd m @ ?c \<or> ho_log x = snd m @ ?c @ [OnExhausted ''max_attempts'']" "ho_attempts x = fst m + 1"
    using False assms(1) by (auto simp: hold_round_step_def Let_def ended_def fired_chunk_def split: if_splits)
  then show ?thesis using that [of ?c] that [of "?c @ [OnExhausted ''max_attempts'']"] assms(2)
      guarded_chunk(1) [of _ "[]"] by auto
qed

lemma hold_goes_on:
  assumes "hold_seen a seen m" and "hold_round_step a limit start m r = Inr m'"
  shows "hold_seen a (seen @ [r]) m'"
proof -
  from hold_continues [OF assms(2)] obtain t where m: "m' = (fst m + 1, snd m @ fired_chunk t)" "fst m + 1 < a" by blast
  have "guarded (snd m @ fired_chunk t @ rest) = guarded rest" for rest
    using assms(1) by (simp only: hold_seen_def guarded_chunk)
  with m assms(1) show ?thesis by (simp add: hold_seen_def)
qed

lemma hold_decides:
  assumes "hold_seen a seen m" and "hold_round_step a limit start m r = Inl x"
  shows "hold_says a (seen @ [r]) x"
proof -
  have m: "fst m < a" "fires (snd m) = fst m" "\<And>rest. guarded (snd m @ rest) = guarded rest"
    using assms(1) by (simp_all add: hold_seen_def)
  show ?thesis by (rule hold_ends [OF assms(2) m(1)]) (simp add: hold_says_def m(2,3))
qed

lemma hold_returns:
  "hold_seen a seen m \<Longrightarrow> a \<le> int (length seen + length rs) \<Longrightarrow> poll_loop (hold_round_step a limit start) m rs \<noteq> None"
proof (induction rs arbitrary: seen m)
  case Nil
  then show ?case by (simp add: hold_seen_def)
next
  case (Cons r rs)
  then show ?case using hold_goes_on [OF Cons.prems(1), of limit start r] Cons.IH [of "seen @ [r]"]
    by (auto split: sum.splits)
qed

text \<open>
  C39. Redelivery ends within its number of attempts, however the recipient behaves, and it fires
  at most that many carriage returns, counts them right, and fires each only right after finding
  the body still parked both before and after waiting for the recipient to be idle.
\<close>

theorem redelivery_bounded_and_guarded:
  assumes "opt max_attempts 3 \<le> int (length rounds)"
  shows "\<exists>r. holdAndRedeliver max_attempts limit deps start rounds = Some r
    \<and> fires (ho_log r) = ho_attempts r \<and> ho_attempts r \<le> max 0 (opt max_attempts 3) \<and> guarded (ho_log r)"
proof (cases "deps \<and> 0 < opt max_attempts 3")
  case True
  let ?run = "poll_loop (hold_round_step (opt max_attempts 3) (opt limit 600000) start) (0, []) rounds"
  have init: "hold_seen (opt max_attempts 3) [] (0, [])" using True by (simp add: hold_seen_def)
  from hold_returns [OF this] assms obtain r where r: "?run = Some r" by fastforce
  then obtain n where "hold_says (opt max_attempts 3) (take (Suc n) rounds) r"
    by (rule poll_loop_result [where P = "hold_seen (opt max_attempts 3)" and Q = "hold_says (opt max_attempts 3)"])
       (auto intro: init hold_goes_on hold_decides)
  with r True show ?thesis by (simp add: holdAndRedeliver_def hold_says_def)
qed (auto simp: holdAndRedeliver_def)

section \<open>An acceptance that is not a turn\<close>

text \<open>Options as \<open>POST /submit\<close> leaves them: the defaults, with the state machine and without a screen reader.\<close>

definition no_opts :: gate_opts where
  "no_opts = \<lparr>go_timeout = None, go_min_confidence = None, go_tail_bytes = None, go_submitted_at = None,
     go_quiet_window = None, go_echo_grace = None, go_settle = None, go_min_chars = None,
     go_since_bytes = None, go_stability = None, go_has_state = True, go_has_screen = False\<rparr>"

text \<open>
  A recipient in a turn that began before the submit is confirmed as having taken it as soon as
  it prints anything: the state check is satisfied by output after the submit, without any
  transition, although no turn can have been started by it.
\<close>

theorem confirm_accepts_running_turn:
  "let s = \<lparr>sv_state = Working, sv_confidence = Some 90, sv_since_ms = Some 100, sv_duration_ms = Some 900,
            sv_last_output_at = Some 1000\<rparr>;
       o1 = no_opts\<lparr>go_submitted_at := Some 1000\<rparr>;
       l = \<lparr>lk_now = 1000, lk_state = Some s, lk_session = None, lk_screen = None\<rparr>
   in already_busy (Some s) 1000 \<and> \<not> fresh_turn (Some s) 1000
      \<and> map_option (\<lambda>r. (cf_accepted r, cf_ambiguous r, cf_reason r)) (confirmSubmitAccepted strip o1 body [l])
        = Some (True, False, ''state_working'')"
  by (simp add: no_opts_def already_busy_def fresh_turn_def confirmSubmitAccepted_def confirm_step_def
      isAcceptedSubmitState_def ACCEPTED_AFTER_SUBMIT_STATES_def opt_def confirmed_def Let_def)

section \<open>Witnesses\<close>

text \<open>A session whose ring shows the text \<open>hi\<close>, in no known state.\<close>

definition hi_session :: gate_session where
  "hi_session = \<lparr>gs_ring = Some [[62, 32], units_of ''hi''], gs_total_bytes = None, gs_backend = ''pty'',
     gs_workspace = [], gs_command = []\<rparr>"

definition hi_look :: "int \<Rightarrow> look" where
  "hi_look t = \<lparr>lk_now = t, lk_state = None, lk_session = Some hi_session, lk_screen = None\<rparr>"

lemma submit_waits_return_witness:
  "confirmSubmitAccepted id no_opts (units_of ''hi'') [hi_look 0, hi_look 9000] \<noteq> None"
  using submit_waits_return [of no_opts 0 "[hi_look 0, hi_look 9000]" "[Timer None 9000]" id "units_of ''hi''"
      "\<lambda>_. None" None "''s''" None]
  by (simp add: hi_look_def past_def no_opts_def opt_def is_timer_def del: poll_loop.simps)

lemma retry_needs_no_evidence_witness:
  "list_ex (\<lambda>n. confirm_says id no_opts (units_of ''hi'') 0 0 (take (Suc n) [hi_look 0, hi_look 2000])
     (unsubmitted 2000 ''body_still_visible'' None
       (Some (observeBodyVisibility id no_opts (units_of ''hi'') (hi_look 2000))))) [0, 1]"
proof -
  have "confirmSubmitAccepted id no_opts (units_of ''hi'') [hi_look 0, hi_look 2000]
      = Some (unsubmitted 2000 ''body_still_visible'' None
          (Some (observeBodyVisibility id no_opts (units_of ''hi'') (hi_look 2000))))"
    by code_simp
  note says = retry_needs_no_evidence [OF this]
  have "opt (go_submitted_at no_opts) (lk_now (hd [hi_look 0, hi_look 2000])) = 0"
    "lk_now (hd [hi_look 0, hi_look 2000]) = 0" by (simp_all add: hi_look_def no_opts_def opt_def)
  with says obtain n where n: "n < Suc (Suc 0)"
    "confirm_says id no_opts (units_of ''hi'') 0 0 (take (Suc n) [hi_look 0, hi_look 2000])
     (unsubmitted 2000 ''body_still_visible'' None
       (Some (observeBodyVisibility id no_opts (units_of ''hi'') (hi_look 2000))))"
    by (auto simp del: take_Suc_Cons)
  then have "n = 0 \<or> n = 1" by arith
  with n(2) show ?thesis by (auto simp del: take_Suc_Cons)
qed

text \<open>A session that turns from idle to working after the submit at 10.\<close>

definition turn_look :: "int \<Rightarrow> pty_state \<Rightarrow> int \<Rightarrow> look" where
  "turn_look t st since = \<lparr>lk_now = t, lk_state = Some \<lparr>sv_state = st, sv_confidence = None, sv_since_ms = Some since,
     sv_duration_ms = None, sv_last_output_at = None\<rparr>, lk_session = Some hi_session, lk_screen = None\<rparr>"

lemma consumption_needs_fresh_turn_witness:
  "list_ex (\<lambda>n. consumption_says id (no_opts\<lparr>go_min_chars := Some 2\<rparr>) (units_of ''hi'') 10 False
     (take (Suc n) [turn_look 10 Idle 1, turn_look 50 Working 20])
     \<lparr>cs_status = ''consumed'', cs_reason = ''turn_started_working'', cs_waited = 40\<rparr>) [0, 1]"
proof -
  let ?o = "no_opts\<lparr>go_min_chars := Some 2\<rparr>"
  let ?looks = "[turn_look 10 Idle 1, turn_look 50 Working 20]"
  let ?c = "\<lparr>cs_status = ''consumed'', cs_reason = ''turn_started_working'', cs_waited = 40\<rparr>"
  have "classifyInjectConsumption id ?o (units_of ''hi'') ?looks = Some ?c" by code_simp
  note says = consumption_needs_fresh_turn [OF this]
  have s: "opt (go_submitted_at ?o) (lk_now (hd ?looks)) = 10" by (simp add: turn_look_def no_opts_def opt_def)
  have "\<not> already_busy (submit_state ?o (hd ?looks)) 10"
    by (simp add: turn_look_def no_opts_def already_busy_def submit_state_def ACCEPTED_AFTER_SUBMIT_STATES_def)
  with says obtain n where n: "n < Suc (Suc 0)"
    "consumption_says id ?o (units_of ''hi'') 10 False (take (Suc n) ?looks) ?c"
    unfolding s by (auto simp del: take_Suc_Cons)
  then have "n = 0 \<or> n = 1" by arith
  with n(2) show ?thesis by (auto simp del: take_Suc_Cons)
qed

lemma redelivery_bounded_and_guarded_witness:
  "map_option ho_attempts (holdAndRedeliver (Some 1) None True 0
     [\<lparr>hr_now = 5, hr_parked = True, hr_idle = True, hr_idle_reason = None, hr_still_parked = True,
       hr_redelivered = True, hr_fire_reason = None\<rparr>]) = Some 1"
proof -
  let ?r = "\<lparr>hr_now = 5, hr_parked = True, hr_idle = True, hr_idle_reason = None, hr_still_parked = True,
       hr_redelivered = True, hr_fire_reason = None\<rparr>"
  have "opt (Some 1) 3 \<le> int (length [?r])" by (simp add: opt_def)
  from redelivery_bounded_and_guarded [OF this, of None True 0]
  obtain r where r: "holdAndRedeliver (Some 1) None True 0 [?r] = Some r" "fires (ho_log r) = ho_attempts r" by blast
  then have "ho_log r = [CheckParked True, AwaitIdle 599995, CheckParked True, FireCR]"
    by (auto simp: holdAndRedeliver_def hold_round_step_def ended_def opt_def Let_def)
  with r show ?thesis by simp
qed

end
