(* ===== verification/Completion.thy ===== *)
theory Completion
  imports Session_Laws Submit_Laws
begin

text \<open>
  \<open>src/completion-observation.js\<close>: what may be said about an inject's consumption and about a task's
  outcome. Built on the other components' results: the confirmation is the submit gate's, the
  observation kind the session state machine's.
\<close>

section \<open>Consumption\<close>

definition SCREEN_DERIVED_CONFIRM_REASONS :: "string list" where
  "SCREEN_DERIVED_CONFIRM_REASONS = [''body_consumed'', ''state_working'', ''state_thinking'']"

text \<open>The recorded confirmation of a submit; \<open>accepted\<close> and \<open>ambiguous\<close> may be missing.\<close>

record confirmation =
  cn_accepted :: "bool option"
  cn_ambiguous :: "bool option"
  cn_reason :: "string option"

definition isScreenDerivedConfirm :: "confirmation option \<Rightarrow> bool" where
  "isScreenDerivedConfirm c \<longleftrightarrow> (case c of None \<Rightarrow> False
     | Some k \<Rightarrow> cn_accepted k = Some True \<and> cn_ambiguous k \<noteq> Some True
         \<and> list_ex (\<lambda>r. cn_reason k = Some r) SCREEN_DERIVED_CONFIRM_REASONS)"

text \<open>A transition recorded when a session became busy.\<close>

record busy_edge =
  ed_from :: pty_state
  ed_to :: pty_state
  ed_since :: "int option"
  ed_at :: "int option"

definition isFreshBusyEdge :: "busy_edge option \<Rightarrow> int option \<Rightarrow> bool" where
  "isFreshBusyEdge edge submitted \<longleftrightarrow> (case (edge, submitted) of
     (Some e, Some t) \<Rightarrow> ed_to e \<in> {Working, Thinking} \<and> ed_from e \<in> {Idle, Waiting}
        \<and> (case ed_since e of None \<Rightarrow> False | Some s \<Rightarrow> s \<ge> t)
   | _ \<Rightarrow> False)"

record pending_report =
  pr_confirm :: "confirmation option"
  pr_unconfirmed_at :: "int option"
  pr_confirmed_at :: "int option"
  pr_submit_started_at :: "int option"
  pr_candidate :: "busy_edge option"
  pr_watermark_at :: "int option"
  pr_ring_bytes_delta :: "int option"
  pr_elapsed_ms :: "int option"

datatype fact_value = FText string | FNum int | FNull | FState pty_state

record consumption_view =
  cv_status :: string
  cv_basis :: string
  cv_facts :: "(string \<times> fact_value) list"

definition text_or_null :: "string option \<Rightarrow> fact_value" where
  "text_or_null x = (case x of None \<Rightarrow> FNull | Some s \<Rightarrow> if s = [] then FNull else FText s)"

definition num_or_null_fact :: "int option \<Rightarrow> fact_value" where
  "num_or_null_fact x = (case x of None \<Rightarrow> FNull | Some n \<Rightarrow> FNum n)"

definition confirm_reason :: "confirmation option \<Rightarrow> string option" where
  "confirm_reason c = Option.bind c cn_reason"

definition not_established :: "string \<Rightarrow> (string \<times> fact_value) list \<Rightarrow> consumption_view" where
  "not_established basis facts = \<lparr>cv_status = ''not_established'', cv_basis = basis, cv_facts = facts\<rparr>"

definition classifyConsumption :: "pending_report \<Rightarrow> bool \<Rightarrow> string option \<Rightarrow> consumption_view" where
  "classifyConsumption pr echo echo_reason =
     (let confirm = pr_confirm pr; reason = text_or_null (confirm_reason confirm) in
      if (case confirm of None \<Rightarrow> False | Some k \<Rightarrow> cn_accepted k = Some False)
      then not_established ''submit_rejection_observed''
        [(''submit_confirm_reason'', reason), (''submit_confirmed_at'', num_or_null_fact (pr_unconfirmed_at pr))]
      else if isFreshBusyEdge (pr_candidate pr) (pr_submit_started_at pr) \<and> isScreenDerivedConfirm confirm
      then \<lparr>cv_status = ''observed'', cv_basis = ''fresh_busy_transition'', cv_facts =
        [(''submit_confirm_reason'', reason), (''submit_confirmed_at'', num_or_null_fact (pr_confirmed_at pr)),
         (''transition_from'', FState (ed_from (the (pr_candidate pr)))), (''transition_to'', FState (ed_to (the (pr_candidate pr)))),
         (''transition_at'', num_or_null_fact (ed_at (the (pr_candidate pr)))),
         (''evaluated_at'', FText ''consumption_classification'')]\<rparr>
      else if pr_watermark_at pr \<noteq> None
      then not_established ''submit_accepted_and_output_advanced''
        [(''submit_confirm_reason'', reason), (''ring_bytes_delta'', num_or_null_fact (pr_ring_bytes_delta pr)),
         (''elapsed_ms'', num_or_null_fact (pr_elapsed_ms pr))]
      else if isScreenDerivedConfirm confirm
      then not_established
        (if confirm_reason confirm = Some ''body_consumed'' then ''submit_body_removed_observed'' else ''busy_state_after_submit_observed'')
        [(''submit_confirm_reason'', reason), (''submit_confirmed_at'', num_or_null_fact (pr_confirmed_at pr)),
         (''shortfall'', FText ''no_qualifying_fresh_busy_edge'')]
      else if echo then not_established ''inject_echo_observed'' [(''echo_reason'', text_or_null echo_reason)]
      else not_established ''no_consumption_evidence'' [(''submit_confirm_reason'', reason)])"

section \<open>The statement about a task\<close>

text \<open>The one capability the push decision reads; the rest of the table is constant text.\<close>

record capability =
  cp_turn_boundary :: string
  cp_outcome_protocol :: string
  cp_outcome_authority :: string

definition CAPABILITY_STAGE_A :: capability where
  "CAPABILITY_STAGE_A = \<lparr>cp_turn_boundary = ''unavailable'', cp_outcome_protocol = ''unavailable'',
     cp_outcome_authority = ''orchestrator''\<rparr>"

record envelope =
  en_session_id :: "string option"
  en_inject_id :: "string option"
  en_completion_fact :: "string option"
  en_terminal :: bool
  en_observation :: mapped
  en_consumption :: consumption_view
  en_capability :: capability
  en_seq :: "int option"

definition buildCompletionUnknown ::
    "string option \<Rightarrow> string option \<Rightarrow> mapped option \<Rightarrow> consumption_view option \<Rightarrow> capability option \<Rightarrow> int option \<Rightarrow> envelope" where
  "buildCompletionUnknown sid inject obs cons cap seq =
     \<lparr>en_session_id = sid, en_inject_id = inject, en_completion_fact = None, en_terminal = False,
      en_observation = (case obs of Some x \<Rightarrow> x
        | None \<Rightarrow> \<lparr>mo_kind = unmapped_kind, mo_cause = None, mo_fields = [(''trigger'', JNull)]\<rparr>),
      en_consumption = (case cons of Some x \<Rightarrow> x | None \<Rightarrow> not_established ''no_consumption_evidence'' []),
      en_capability = (case cap of Some x \<Rightarrow> x | None \<Rightarrow> CAPABILITY_STAGE_A), en_seq = seq\<rparr>"

definition PROCESS_FACT_OBSERVATION_KINDS :: "string list" where
  "PROCESS_FACT_OBSERVATION_KINDS = [''session_process_exited'', ''session_termination_kill_failed'',
     ''owner_replaced_observed'', ''owner_transport_detached'']"

text \<open>\<open>push_env\<close>: the operator set \<open>TELEPTY_COMPLETION_UNKNOWN_PUSH=1\<close>.\<close>

definition shouldPushCompletionUnknown :: "envelope \<Rightarrow> bool \<Rightarrow> bool" where
  "shouldPushCompletionUnknown e push_env \<longleftrightarrow> push_env
     \<or> cp_outcome_protocol (en_capability e) \<noteq> ''unavailable''
     \<or> mo_kind (en_observation e) \<in> set PROCESS_FACT_OBSERVATION_KINDS"

section \<open>What is claimed\<close>

text \<open>
  Consumption is claimed observed exactly when the session turned busy from rest at or after the submit
  and the submit's confirmation is accepted, unambiguous and read from the screen; a rejection
  wins over everything recorded before it.
\<close>

theorem observed_exactly_on_fresh_edge:
  "cv_status (classifyConsumption pr echo er) = ''observed'' \<longleftrightarrow>
     (\<exists>k e t s. pr_confirm pr = Some k \<and> cn_accepted k = Some True \<and> cn_ambiguous k \<noteq> Some True
        \<and> cn_reason k \<in> Some ` set SCREEN_DERIVED_CONFIRM_REASONS
        \<and> pr_candidate pr = Some e \<and> pr_submit_started_at pr = Some t \<and> ed_since e = Some s \<and> t \<le> s
        \<and> ed_from e \<in> {Idle, Waiting} \<and> ed_to e \<in> {Working, Thinking})"
  (is "?l \<longleftrightarrow> ?r")
proof
  assume ?l
  then have "isFreshBusyEdge (pr_candidate pr) (pr_submit_started_at pr)" "isScreenDerivedConfirm (pr_confirm pr)"
    by (simp_all add: classifyConsumption_def not_established_def Let_def split: if_splits)
  then show ?r
    by (auto simp: isFreshBusyEdge_def isScreenDerivedConfirm_def list_ex_iff split: option.splits)
next
  assume ?r
  then have "isFreshBusyEdge (pr_candidate pr) (pr_submit_started_at pr)" "isScreenDerivedConfirm (pr_confirm pr)"
    "\<not> (case pr_confirm pr of None \<Rightarrow> False | Some k \<Rightarrow> cn_accepted k = Some False)"
    by (auto simp: isFreshBusyEdge_def isScreenDerivedConfirm_def list_ex_iff)
  then show ?l by (simp add: classifyConsumption_def Let_def)
qed

text \<open>The table's rows for the kinds that are pushed, by the states they may be reported from.\<close>

definition pushed_causes :: "string list" where
  "pushed_causes = [''process_exit'', ''termination_kill_failed'', ''owner_epoch_replaced'', ''owner_transport_detached'']"

lemma pushed_kinds:
  assumes "map_of OBSERVATION_CAUSES c = Some r" and "cr_kind r \<in> set PROCESS_FACT_OBSERVATION_KINDS"
  shows "c \<in> set pushed_causes"
proof -
  have "list_all (\<lambda>p. cr_kind (snd p) \<in> set PROCESS_FACT_OBSERVATION_KINDS \<longrightarrow> fst p \<in> set pushed_causes) OBSERVATION_CAUSES"
    by (simp add: OBSERVATION_CAUSES_def row_def PROCESS_FACT_OBSERVATION_KINDS_def pushed_causes_def)
  from this [unfolded list_all_iff, rule_format, OF map_of_SomeD [OF assms(1)]] show ?thesis
    using assms(2) by simp
qed

lemma pushed_rows:
  assumes r: "map_of OBSERVATION_CAUSES c = Some r" and d: "state_name st \<in> set (cr_destinations r)"
  shows "cr_kind r \<in> set PROCESS_FACT_OBSERVATION_KINDS \<longleftrightarrow> st = Dead \<and> c \<in> {''process_exit'', ''termination_kill_failed''}"
proof
  assume "cr_kind r \<in> set PROCESS_FACT_OBSERVATION_KINDS"
  from pushed_kinds [OF r this] consider "c = ''process_exit'' \<or> c = ''termination_kill_failed''"
    | "c = ''owner_epoch_replaced'' \<or> c = ''owner_transport_detached''"
    unfolding pushed_causes_def set_simps by (elim insertE emptyE) simp_all
  then show "st = Dead \<and> c \<in> {''process_exit'', ''termination_kill_failed''}"
  proof cases
    case 1
    then have "cr_destinations r = [''dead'']" using r by (elim disjE) (auto simp: OBSERVATION_CAUSES_def row_def)
    with d have "state_name st = ''dead''" by simp
    then have "st = Dead" by (cases st) simp_all
    with 1 show ?thesis by simp
  next
    case 2
    then have "cr_destinations r = [''*'']" using r by (elim disjE) (auto simp: OBSERVATION_CAUSES_def row_def)
    with d have "state_name st = ''*''" by simp
    then show ?thesis by (cases st) simp_all
  qed
next
  assume "st = Dead \<and> c \<in> {''process_exit'', ''termination_kill_failed''}"
  with r show "cr_kind r \<in> set PROCESS_FACT_OBSERVATION_KINDS"
    by (auto simp: OBSERVATION_CAUSES_def row_def PROCESS_FACT_OBSERVATION_KINDS_def)
qed

text \<open>
  Who is interrupted: over any run of a session's machine, its reported activity is pushed to the
  source exactly when the session is dead because its process was observed exiting or because killing
  it failed; silence, prompts, spinners, error text and requested teardowns are only recorded.
\<close>

theorem pushed_only_for_process_facts:
  "let m = fold (apply_sm lower) ops (new_machine cfg now) in
     shouldPushCompletionUnknown (buildCompletionUnknown sid inject (Some (activity_observation m)) cons None seq) False
     \<longleftrightarrow> sm_state m = Dead \<and> trigger_of (sm_detail m) \<in> {Some ''process_exit'', Some ''termination_kill_failed''}"
proof -
  let ?m = "fold (apply_sm lower) ops (new_machine cfg now)"
  have n: "well_named (sm_state ?m) (sm_detail ?m)" using machine_run by (simp add: sm_named_def)
  then obtain t r where t: "trigger_of (sm_detail ?m) = Some t" "map_of OBSERVATION_CAUSES t = Some r"
    "state_name (sm_state ?m) \<in> set (cr_destinations r)"
    by (auto simp: well_named_def split: option.splits)
  have "mo_kind (activity_observation ?m) = cr_kind r"
    using activity_observation_kind [of lower ops cfg now] t(1,2) by (auto simp: Let_def)
  then have push: "shouldPushCompletionUnknown (buildCompletionUnknown sid inject (Some (activity_observation ?m)) cons None seq) False
      \<longleftrightarrow> cr_kind r \<in> set PROCESS_FACT_OBSERVATION_KINDS"
    by (simp add: shouldPushCompletionUnknown_def buildCompletionUnknown_def CAPABILITY_STAGE_A_def)
  have "cr_kind r \<in> set PROCESS_FACT_OBSERVATION_KINDS \<longleftrightarrow>
      sm_state ?m = Dead \<and> t \<in> {''process_exit'', ''termination_kill_failed''}"
    using t(2,3) by (rule pushed_rows)
  with push t(1) show ?thesis by (auto simp: Let_def)
qed

end
