(* ===== verification/Js_Json.thy ===== *)
theory Js_Json
  imports Js_Regex "HOL-Library.Multiset"
begin

text \<open>
  JSON values as the source handles them: what \<open>JSON.parse\<close> builds (objects with own, enumerable
  data properties only, in insertion order), property access, UTF-8 lengths and the canonical
  text that requests are hashed over. Texts are UTF-16 code units; a number that is not an
  integer is the text it prints as.
\<close>

datatype json =
    VNull
  | VBool bool
  | VInt int
  | VFrac string
  | VStr units
  | VArr "json list"
  | VObj "(string \<times> json) list"

abbreviation vtext :: "string \<Rightarrow> json" where
  "vtext s \<equiv> VStr (units_of s)"

text \<open>\<open>o[k]\<close> on an own property; \<open>undefined\<close> is \<open>None\<close>. \<open>has_own\<close> is \<open>hasOwnProperty\<close>.\<close>

fun fields_of :: "json \<Rightarrow> (string \<times> json) list" where
  "fields_of (VObj fs) = fs"
| "fields_of _ = []"

definition fld :: "json \<Rightarrow> string \<Rightarrow> json option" where
  "fld v k = map_of (fields_of v) k"

definition has_own :: "json \<Rightarrow> string \<Rightarrow> bool" where
  "has_own v k \<longleftrightarrow> fld v k \<noteq> None"

definition fld2 :: "json \<Rightarrow> string \<Rightarrow> string \<Rightarrow> json option" where
  "fld2 v a b = Option.bind (fld v a) (\<lambda>x. fld x b)"

text \<open>Strict equality of an own property with a constant or with another property.\<close>

definition is_text :: "json option \<Rightarrow> string \<Rightarrow> bool" where
  "is_text v s \<longleftrightarrow> v = Some (vtext s)"

definition text_in :: "json option \<Rightarrow> string list \<Rightarrow> bool" where
  "text_in v ss \<longleftrightarrow> list_ex (is_text v) ss"

definition safe_number :: "json option \<Rightarrow> bool" where
  "safe_number v \<longleftrightarrow> (case v of Some (VInt n) \<Rightarrow> safe_int n | _ \<Rightarrow> False)"

definition num_of :: "json option \<Rightarrow> int" where
  "num_of v = (case v of Some (VInt n) \<Rightarrow> n | _ \<Rightarrow> 0)"

definition text_of :: "json option \<Rightarrow> units" where
  "text_of v = (case v of Some (VStr s) \<Rightarrow> s | _ \<Rightarrow> [])"

definition is_string :: "json option \<Rightarrow> bool" where
  "is_string v \<longleftrightarrow> (case v of Some (VStr s) \<Rightarrow> True | _ \<Rightarrow> False)"

text \<open>A value read as a condition.\<close>

definition truthy_json :: "json option \<Rightarrow> bool" where
  "truthy_json v \<longleftrightarrow> (case v of None \<Rightarrow> False | Some VNull \<Rightarrow> False | Some (VBool b) \<Rightarrow> b | Some (VInt n) \<Rightarrow> n \<noteq> 0
     | Some (VStr s) \<Rightarrow> s \<noteq> [] | Some _ \<Rightarrow> True)"

section \<open>Lengths and text\<close>

definition high_surrogate :: "int \<Rightarrow> bool" where
  "high_surrogate c \<longleftrightarrow> 55296 \<le> c \<and> c \<le> 56319"

definition low_surrogate :: "int \<Rightarrow> bool" where
  "low_surrogate c \<longleftrightarrow> 56320 \<le> c \<and> c \<le> 57343"

definition unit_bytes :: "int \<Rightarrow> int" where
  "unit_bytes c = (if c < 128 then 1 else if c < 2048 then 2 else 3)"

text \<open>\<open>Buffer.byteLength(s)\<close>: a surrogate pair is four bytes, a lone surrogate the replacement's three.\<close>

fun byte_length :: "units \<Rightarrow> int" where
  "byte_length (c # d # s) =
     (if high_surrogate c \<and> low_surrogate d then 4 + byte_length s else unit_bytes c + byte_length (d # s))"
| "byte_length [c] = unit_bytes c"
| "byte_length [] = 0"

definition hex_digit :: "int \<Rightarrow> int" where
  "hex_digit n = (if n < 10 then 48 + n else 87 + n)"

definition unicode_escape :: "int \<Rightarrow> units" where
  "unicode_escape c = [92, 117, hex_digit (c div 4096), hex_digit (c div 256 mod 16),
     hex_digit (c div 16 mod 16), hex_digit (c mod 16)]"

definition quote_unit :: "int \<Rightarrow> units" where
  "quote_unit c = (if c = 34 then [92, 34] else if c = 92 then [92, 92] else if c = 8 then [92, 98]
     else if c = 12 then [92, 102] else if c = 10 then [92, 110] else if c = 13 then [92, 114]
     else if c = 9 then [92, 116] else if c < 32 \<or> high_surrogate c \<or> low_surrogate c then unicode_escape c else [c])"

fun quote_units :: "units \<Rightarrow> units" where
  "quote_units (c # d # s) =
     (if high_surrogate c \<and> low_surrogate d then c # d # quote_units s else quote_unit c @ quote_units (d # s))"
| "quote_units [c] = quote_unit c"
| "quote_units [] = []"

definition quoted :: "units \<Rightarrow> units" where
  "quoted s = 34 # quote_units s @ [34]"

fun decimal :: "nat \<Rightarrow> units" where
  "decimal n = (if n < 10 then [48 + int n] else decimal (n div 10) @ [48 + int (n mod 10)])"

declare decimal.simps [simp del]

definition show_int :: "int \<Rightarrow> units" where
  "show_int n = (if n < 0 then 45 # decimal (nat (- n)) else decimal (nat n))"

fun join_units :: "units \<Rightarrow> units list \<Rightarrow> units" where
  "join_units sep [] = []"
| "join_units sep [x] = x"
| "join_units sep (x # y # xs) = x @ sep @ join_units sep (y # xs)"

text \<open>\<open>Array.prototype.sort\<close> on keys: by code units.\<close>

fun key_le :: "string \<Rightarrow> string \<Rightarrow> bool" where
  "key_le [] ys = True"
| "key_le (x # xs) [] = False"
| "key_le (x # xs) (y # ys) = (unit_of x < unit_of y \<or> (unit_of x = unit_of y \<and> key_le xs ys))"

fun insert_key :: "string \<times> units \<Rightarrow> (string \<times> units) list \<Rightarrow> (string \<times> units) list" where
  "insert_key p [] = [p]"
| "insert_key p (q # qs) = (if key_le (fst p) (fst q) then p # q # qs else q # insert_key p qs)"

definition sort_keys :: "(string \<times> units) list \<Rightarrow> (string \<times> units) list" where
  "sort_keys ps = foldr insert_key ps []"

fun canonical :: "json \<Rightarrow> units" where
  "canonical VNull = units_of ''null''"
| "canonical (VBool b) = units_of (if b then ''true'' else ''false'')"
| "canonical (VInt n) = show_int n"
| "canonical (VFrac s) = units_of s"
| "canonical (VStr s) = quoted s"
| "canonical (VArr xs) = [91] @ join_units [44] (map canonical xs) @ [93]"
| "canonical (VObj fs) = [123]
     @ join_units [44] (map (\<lambda>p. quoted (units_of (fst p)) @ [58] @ snd p)
         (sort_keys (map (\<lambda>(k, v). (k, canonical v)) fs))) @ [125]"

definition is_digit_unit :: "int \<Rightarrow> bool" where
  "is_digit_unit c \<longleftrightarrow> 48 \<le> c \<and> c \<le> 57"

definition digits_value :: "units \<Rightarrow> int" where
  "digits_value ds = foldl (\<lambda>n c. n * 10 + (c - 48)) 0 ds"

section \<open>Numbers out of texts\<close>

text \<open>
  \<open>Number(v)\<close> where the source only asks whether it is an integer, and which: \<open>None\<close> is
  every other answer. A decimal literal is read exactly, so a fraction that would round to an
  integer as a double is not one here; \<open>VFrac\<close> never is.
\<close>

definition split_sign :: "units \<Rightarrow> int \<times> units" where
  "split_sign s = (case s of [] \<Rightarrow> (1, []) | c # r \<Rightarrow> if c = 45 then (-1, r) else if c = 43 then (1, r) else (1, s))"

definition scaled :: "int \<Rightarrow> int \<Rightarrow> int option" where
  "scaled m k = (if 0 \<le> k then Some (m * 10 ^ nat k)
     else if m mod 10 ^ nat (- k) = 0 then Some (m div 10 ^ nat (- k)) else None)"

definition exponent_part :: "units \<Rightarrow> int option" where
  "exponent_part s = (case s of [] \<Rightarrow> Some 0
     | c # r \<Rightarrow> if c \<noteq> 69 \<and> c \<noteq> 101 then None
       else let (g, ds) = split_sign r in
         if ds = [] \<or> \<not> list_all is_digit_unit ds then None else Some (g * digits_value ds))"

definition decimal_literal :: "units \<Rightarrow> int option" where
  "decimal_literal s =
     (let (g, r) = split_sign s; whole = takeWhile is_digit_unit r; r1 = dropWhile is_digit_unit r;
          dot = (case r1 of [] \<Rightarrow> False | c # _ \<Rightarrow> c = 46);
          frac = (if dot then takeWhile is_digit_unit (tl r1) else []);
          r2 = (if dot then dropWhile is_digit_unit (tl r1) else r1) in
      if whole @ frac = [] then None
      else case exponent_part r2 of None \<Rightarrow> None
      | Some e \<Rightarrow> scaled (g * digits_value (whole @ frac)) (e - int (length frac)))"

definition radix_digit :: "int \<Rightarrow> int" where
  "radix_digit c = (if is_digit_unit c then c - 48 else if 97 \<le> ascii_lower c \<and> ascii_lower c \<le> 122 then ascii_lower c - 87 else 99)"

definition radix_literal :: "int \<Rightarrow> units \<Rightarrow> int option" where
  "radix_literal b ds = (if ds = [] \<or> list_ex (\<lambda>c. radix_digit c \<ge> b) ds then None
     else Some (foldl (\<lambda>n c. n * b + radix_digit c) 0 ds))"

definition number_text :: "units \<Rightarrow> int option" where
  "number_text s0 =
     (let s = trim s0; p = map ascii_lower (take 2 s) in
      if s = [] then Some 0
      else if p = units_of ''0x'' then radix_literal 16 (drop 2 s)
      else if p = units_of ''0o'' then radix_literal 8 (drop 2 s)
      else if p = units_of ''0b'' then radix_literal 2 (drop 2 s)
      else decimal_literal s)"

fun list_number :: "json \<Rightarrow> int option" where
  "list_number VNull = Some 0"
| "list_number (VInt n) = Some n"
| "list_number (VStr s) = number_text s"
| "list_number (VArr []) = Some 0"
| "list_number (VArr [x]) = list_number x"
| "list_number _ = None"

definition to_number :: "json option \<Rightarrow> int option" where
  "to_number v = (case v of None \<Rightarrow> None | Some (VBool b) \<Rightarrow> Some (if b then 1 else 0) | Some x \<Rightarrow> list_number x)"

section \<open>Decimal texts\<close>

lemma digits_value_append: "digits_value (ds @ [c]) = digits_value ds * 10 + (c - 48)"
  by (simp add: digits_value_def)

lemma decimal_step: "\<not> n < 10 \<Longrightarrow> decimal n = decimal (n div 10) @ [48 + int (n mod 10)]"
  by (subst decimal.simps) simp

lemma decimal_small: "n < 10 \<Longrightarrow> decimal n = [48 + int n]"
  by (subst decimal.simps) simp

lemma decimal_value: "digits_value (decimal n) = int n"
proof (induction n rule: less_induct)
  case (less n)
  have split: "int n = int (n div 10) * 10 + int (n mod 10)"
    by (metis div_mult_mod_eq of_nat_add of_nat_mult of_nat_numeral)
  show ?case
  proof (cases "n < 10")
    case False
    then have "digits_value (decimal (n div 10)) = int (n div 10)" by (intro less) simp
    then show ?thesis unfolding decimal_step [OF False] digits_value_append using split by simp
  qed (simp add: decimal_small digits_value_def)
qed

lemma digit_of_mod: "is_digit_unit (48 + int (n mod 10))"
proof -
  have "n mod 10 < 10" by simp
  then show ?thesis unfolding is_digit_unit_def by linarith
qed

lemma decimal_digits: "list_all is_digit_unit (decimal n) \<and> decimal n \<noteq> []"
proof (induction n rule: less_induct)
  case (less n)
  show ?case
  proof (cases "n < 10")
    case False
    then have "list_all is_digit_unit (decimal (n div 10))" using less [of "n div 10"] by simp
    then show ?thesis unfolding decimal_step [OF False] using digit_of_mod [of n] by simp
  qed (simp add: decimal_small is_digit_unit_def)
qed

section \<open>Canonical text does not see the order of properties\<close>

lemma unit_of_eq [simp]: "unit_of a = unit_of b \<longleftrightarrow> a = b"
  by (simp add: unit_of_def)

lemma key_le_Nil [simp]: "key_le a [] \<longleftrightarrow> a = []"
  by (cases a) auto

lemma key_le_total: "key_le a b \<or> key_le b a"
  by (induction a b rule: key_le.induct) auto

lemma key_le_antisym: "key_le a b \<Longrightarrow> key_le b a \<Longrightarrow> a = b"
  by (induction a b rule: key_le.induct) auto

lemma key_le_trans: "key_le a b \<Longrightarrow> key_le b c \<Longrightarrow> key_le a c"
proof (induction a b arbitrary: c rule: key_le.induct)
  case (3 x xs y ys)
  then show ?case by (cases c) auto
qed auto

lemma insert_key_commute:
  assumes "fst p \<noteq> fst q"
  shows "insert_key p (insert_key q ps) = insert_key q (insert_key p ps)"
proof (induction ps)
  case Nil
  show ?case using key_le_total [of "fst p" "fst q"] key_le_antisym assms by auto
next
  case (Cons r ps)
  have "key_le (fst p) (fst q) \<or> key_le (fst q) (fst p)" "\<not> (key_le (fst p) (fst q) \<and> key_le (fst q) (fst p))"
    using key_le_total key_le_antisym assms by blast+
  then show ?case using Cons key_le_trans by auto
qed

lemma sort_keys_permuted:
  assumes "mset ps = mset qs" and "distinct (map fst ps)"
  shows "sort_keys ps = sort_keys qs"
proof -
  have "fold insert_key (rev ps) = fold insert_key (rev qs)"
  proof (rule fold_multiset_equiv)
    show "mset (rev ps) = mset (rev qs)" using assms(1) by simp
  next
    fix x y
    assume "x \<in> set (rev ps)" "y \<in> set (rev ps)"
    then have "x = y \<or> fst x \<noteq> fst y" using assms(2) by (auto simp: distinct_map inj_on_def)
    then show "insert_key x \<circ> insert_key y = insert_key y \<circ> insert_key x"
      by (elim disjE) (simp_all add: fun_eq_iff insert_key_commute [of x y])
  qed
  then show ?thesis by (simp add: sort_keys_def foldr_conv_fold)
qed

lemma canonical_permuted:
  assumes "mset fs = mset gs" and "distinct (map fst fs)"
  shows "canonical (VObj fs) = canonical (VObj gs)"
proof -
  let ?f = "\<lambda>(k, v). (k, canonical v)"
  have "mset (map ?f fs) = mset (map ?f gs)" using assms(1) by simp
  moreover have "map fst (map ?f fs) = map fst fs" by auto
  ultimately have "sort_keys (map ?f fs) = sort_keys (map ?f gs)"
    using sort_keys_permuted assms(2) by metis
  then show ?thesis by simp
qed

end
