(* ===== verification/Lifecycle.thy ===== *)
theory Lifecycle
  imports Js_Json
begin

text \<open>
  \<open>src/lifecycle.js\<close>: durations, the choice of a session's process and the escalation that ends it,
  which sessions an idle sweep or a clean-up takes, and the surface checks of the garbage
  collector. Times are milliseconds; a timestamp that does not parse is \<open>None\<close>. The answers of the
  operating system (\<open>kill\<close>, \<open>isAlive\<close>) are arguments.
\<close>

section \<open>Durations\<close>

text \<open>
  What \<open>parseDuration\<close> may be given: nothing, an integer, a number strictly between two integers,
  an infinite or undefined number, or a text. A result past \<open>2^53\<close> is exact here and rounded there.
\<close>

datatype duration_arg = DMissing | DInt int | DBetween int | DNotFinite | DText units

datatype duration = DOff | DMs int

definition UNIT_MS :: "(string \<times> int) list" where
  "UNIT_MS = [(''ms'', 1), (''s'', 1000), (''m'', 60 * 1000), (''h'', 60 * 60 * 1000), (''d'', 24 * 60 * 60 * 1000)]"

text \<open>
  \<open>toLowerCase\<close> is taken on ASCII letters: no other unit becomes one of the letters that the
  patterns \<open>off\<close> and \<open>^(\d+)(ms|s|m|h|d)$\<close> look for.
\<close>

definition parseDuration :: "duration_arg \<Rightarrow> string + duration" where
  "parseDuration v = (case v of
     DMissing \<Rightarrow> Inl ''is required''
   | DInt n \<Rightarrow> if n < 0 then Inl ''must be a non-negative duration'' else Inr (DMs n)
   | DBetween n \<Rightarrow> if n < 0 then Inl ''must be a non-negative duration'' else Inr (DMs n)
   | DNotFinite \<Rightarrow> Inl ''must be a non-negative duration''
   | DText [] \<Rightarrow> Inl ''is required''
   | DText s \<Rightarrow>
       (let raw = map ascii_lower (trim s); ds = takeWhile is_digit_unit raw; suffix = dropWhile is_digit_unit raw in
        if raw = units_of ''off'' then Inr DOff
        else if ds = [] then Inl ''must be a duration like 30m, 1h, 2d, or off''
        else case find (\<lambda>p. units_of (fst p) = suffix) UNIT_MS of
          None \<Rightarrow> Inl ''must be a duration like 30m, 1h, 2d, or off''
        | Some (_, k) \<Rightarrow> if \<not> safe_int (digits_value ds) then Inl ''is too large'' else Inr (DMs (digits_value ds * k))))"

definition computeIdleSeconds :: "int option \<Rightarrow> int \<Rightarrow> int option" where
  "computeIdleSeconds active now = (case active of None \<Rightarrow> None | Some t \<Rightarrow> Some (max 0 ((now - t) div 1000)))"

definition formatIdleDuration :: "int \<Rightarrow> units" where
  "formatIdleDuration seconds =
     (let total = max 0 (seconds div 60); days = total div (24 * 60); hours = total mod (24 * 60) div 60; minutes = total mod 60 in
      if days > 0 then show_int days @ units_of ''d '' @ show_int hours @ units_of ''h''
      else if hours > 0 then show_int hours @ units_of ''h '' @ show_int minutes @ units_of ''m''
      else show_int minutes @ units_of ''m'')"

section \<open>Ending a process\<close>

text \<open>The candidates for a session's process id, in the order the source tries them.\<close>

record session_pids =
  sp_ssh_remote :: bool
  sp_owner_pid :: "int option"
  sp_candidates :: "int option list"

definition good_pid :: "int option \<Rightarrow> bool" where
  "good_pid p \<longleftrightarrow> (case p of None \<Rightarrow> False | Some n \<Rightarrow> n > 0)"

definition getSessionPid :: "session_pids option \<Rightarrow> int option" where
  "getSessionPid s = (case s of None \<Rightarrow> None
     | Some x \<Rightarrow> if sp_ssh_remote x \<and> good_pid (sp_owner_pid x) then sp_owner_pid x
         else case find good_pid (sp_candidates x) of None \<Rightarrow> None | Some p \<Rightarrow> p)"

text \<open>What \<open>process.kill\<close> does: deliver, or throw with an error code.\<close>

datatype kill_answer = Delivered | Threw string

datatype signal = SIGTERM | SIGKILL | Probe

definition isProcessAlive :: "int option \<Rightarrow> kill_answer \<Rightarrow> bool" where
  "isProcessAlive pid ans \<longleftrightarrow> good_pid pid \<and> (ans = Delivered \<or> ans = Threw ''EPERM'')"

text \<open>\<open>sendSignal\<close>: on Windows the answer is the helper's; elsewhere \<open>ESRCH\<close> is no process and other errors are thrown on.\<close>

definition sendSignal :: "bool \<Rightarrow> bool \<Rightarrow> kill_answer \<Rightarrow> string + bool" where
  "sendSignal windows helper ans =
     (if windows then Inr helper
      else case ans of Delivered \<Rightarrow> Inr True | Threw code \<Rightarrow> if code = ''ESRCH'' then Inr False else Inl code)"

record kill_world =
  kw_windows :: bool
  kw_term_helper :: bool
  kw_kill_helper :: bool
  kw_term :: kill_answer
  kw_kill :: kill_answer
  kw_alive_after :: bool

record kill_result =
  kr_pid :: "int option"
  kr_signaled :: bool
  kr_signal :: "signal option"
  kr_escalated :: bool
  kr_reason :: "string option"

definition kill_report :: "int option \<Rightarrow> bool \<Rightarrow> signal option \<Rightarrow> bool \<Rightarrow> string option \<Rightarrow> kill_result" where
  "kill_report pid sent sig esc reason = \<lparr>kr_pid = pid, kr_signaled = sent, kr_signal = sig, kr_escalated = esc, kr_reason = reason\<rparr>"

text \<open>The result and the signals attempted, in order; a thrown error ends the function.\<close>

definition killSessionProcess :: "int option \<Rightarrow> bool \<Rightarrow> kill_world \<Rightarrow> (string + kill_result) \<times> signal list" where
  "killSessionProcess pid force w =
     (let term = sendSignal (kw_windows w) (kw_term_helper w) (kw_term w);
          kill = sendSignal (kw_windows w) (kw_kill_helper w) (kw_kill w) in
      if pid = None \<or> pid = Some 0 then (Inr (kill_report None False None False (Some ''NO_PROCESS'')), [])
      else if force then (case kill of Inl e \<Rightarrow> (Inl e, [SIGKILL])
        | Inr k \<Rightarrow> (Inr (kill_report pid k (Some SIGKILL) False (if k then None else Some ''NOT_RUNNING'')), [SIGKILL]))
      else case term of
        Inl e \<Rightarrow> (Inl e, [SIGTERM])
      | Inr False \<Rightarrow> (Inr (kill_report pid False (Some SIGTERM) False (Some ''NOT_RUNNING'')), [SIGTERM])
      | Inr True \<Rightarrow>
          if \<not> kw_alive_after w then (Inr (kill_report pid True (Some SIGTERM) False None), [SIGTERM])
          else (case kill of Inl e \<Rightarrow> (Inl e, [SIGTERM, SIGKILL])
            | Inr k \<Rightarrow> (Inr (kill_report pid True (Some SIGTERM) k (if k then None else Some ''ESCALATION_FAILED'')), [SIGTERM, SIGKILL])))"

section \<open>Sweeps\<close>

text \<open>
  What the sweeps read of a session: an own \<open>idleTtlMs\<close> or \<open>idle_ttl_ms\<close> property is an outer
  \<open>Some\<close>, whose value may be null.
\<close>

record swept_session =
  sw_closing :: bool
  sw_idle_ttl :: "int option option"
  sw_idle_ttl_legacy :: "int option option"
  sw_last_activity :: "int option"
  sw_created :: "int option"

definition effectiveIdleTtlMs :: "swept_session \<Rightarrow> int option \<Rightarrow> int option" where
  "effectiveIdleTtlMs s default_ttl = (case sw_idle_ttl s of Some t \<Rightarrow> t
     | None \<Rightarrow> (case sw_idle_ttl_legacy s of Some t \<Rightarrow> t | None \<Rightarrow> default_ttl))"

record victim =
  vc_id :: string
  vc_idle_ms :: int
  vc_idle_seconds :: int
  vc_ttl_ms :: int

text \<open>A null ttl is not finite, so the session is passed over.\<close>

definition idle_victim :: "int option \<Rightarrow> int \<Rightarrow> string \<times> swept_session \<Rightarrow> victim list" where
  "idle_victim default_ttl now p = (case (effectiveIdleTtlMs (snd p) default_ttl, computeIdleSeconds (sw_last_activity (snd p)) now) of
     (Some ttl, Some secs) \<Rightarrow>
       if sw_closing (snd p) \<or> ttl < 0 \<or> \<not> secs * 1000 > ttl then []
       else [\<lparr>vc_id = fst p, vc_idle_ms = secs * 1000, vc_idle_seconds = secs, vc_ttl_ms = ttl\<rparr>]
   | _ \<Rightarrow> [])"

definition selectIdleTtlVictims :: "(string \<times> swept_session) list \<Rightarrow> int option \<Rightarrow> int \<Rightarrow> victim list" where
  "selectIdleTtlVictims sessions default_ttl now = concat (map (idle_victim default_ttl now) sessions)"

record clean_target =
  ct_id :: string
  ct_reference :: string
  ct_age_ms :: int
  ct_age_seconds :: int

definition selectCleanOlderThanTargets :: "(string \<times> swept_session) list \<Rightarrow> int option \<Rightarrow> bool \<Rightarrow> int \<Rightarrow> string + clean_target list" where
  "selectCleanOlderThanTargets sessions older use_idle now = (case older of
     None \<Rightarrow> Inl ''olderThanMs must be a non-negative duration''
   | Some limit \<Rightarrow> if limit < 0 then Inl ''olderThanMs must be a non-negative duration''
     else Inr (concat (map (\<lambda>(i, s).
       case (if use_idle then sw_last_activity s else sw_created s) of
         None \<Rightarrow> []
       | Some t \<Rightarrow> (let age = max 0 (now - t) in if age > limit
           then [\<lparr>ct_id = i, ct_reference = (if use_idle then ''lastActivityAt'' else ''createdAt''),
                 ct_age_ms = age, ct_age_seconds = age div 1000\<rparr>] else [])) sessions)))"

section \<open>Surfaces\<close>

datatype gc_verdict = Mark | Reclaim | Recover | Skip | Signal

definition decideSurfaceGc :: "string \<Rightarrow> int option \<Rightarrow> int \<Rightarrow> int \<Rightarrow> gc_verdict" where
  "decideSurfaceGc liveness gone_at now grace =
     (if liveness = ''gone'' then (case gone_at of None \<Rightarrow> Mark
        | Some t \<Rightarrow> if (now - t) div 1000 \<ge> grace then Reclaim else Skip)
      else if liveness = ''alive'' \<and> gone_at \<noteq> None then Recover else Skip)"

definition decideSurfaceGcAction :: "gc_verdict \<Rightarrow> bool \<Rightarrow> bool \<Rightarrow> gc_verdict" where
  "decideSurfaceGcAction verdict owner_connected already_signalled =
     (if verdict \<noteq> Reclaim then verdict else if \<not> owner_connected then Reclaim
      else if already_signalled then Skip else Signal)"

record mismatch_state =
  mm_at :: "int option"
  mm_observed :: "string option"
  mm_emitted :: bool

definition clearSurfaceMismatchState :: "mismatch_state \<Rightarrow> mismatch_state" where
  "clearSurfaceMismatchState s = s\<lparr>mm_at := None, mm_observed := None, mm_emitted := False\<rparr>"

text \<open>A probe's answer; \<open>None\<close> is no probe. Empty texts count as absent.\<close>

record surface_probe =
  pb_status :: string
  pb_reason :: "string option"
  pb_key :: "string option"
  pb_surface :: "string option"

definition nonempty :: "string option \<Rightarrow> string option" where
  "nonempty x = (case x of Some (c # cs) \<Rightarrow> Some (c # cs) | _ \<Rightarrow> None)"

definition or_else :: "'a option \<Rightarrow> 'a option \<Rightarrow> 'a option" where
  "or_else x y = (case x of None \<Rightarrow> y | Some v \<Rightarrow> Some v)"

definition getSurfaceMismatchObservedKey :: "surface_probe option \<Rightarrow> string option" where
  "getSurfaceMismatchObservedKey p = (case p of None \<Rightarrow> None
     | Some x \<Rightarrow> or_else (nonempty (pb_key x)) (nonempty (pb_surface x)))"

datatype mismatch_action = MSkip | MRecover | MMark | MEmit

record mismatch_result =
  mr_action :: mismatch_action
  mr_reason :: string
  mr_seconds :: "int option"

definition mm_says :: "mismatch_action \<Rightarrow> string \<Rightarrow> int option \<Rightarrow> mismatch_result" where
  "mm_says a reason secs = \<lparr>mr_action = a, mr_reason = reason, mr_seconds = secs\<rparr>"

definition reason_or :: "string option \<Rightarrow> string \<Rightarrow> string" where
  "reason_or x d = (case nonempty x of None \<Rightarrow> d | Some r \<Rightarrow> r)"

definition had_state :: "mismatch_state \<Rightarrow> bool" where
  "had_state s \<longleftrightarrow> mm_at s \<noteq> None \<or> mm_observed s \<noteq> None \<or> mm_emitted s"

definition is_mismatch :: "surface_probe option \<Rightarrow> bool" where
  "is_mismatch p \<longleftrightarrow> (case p of None \<Rightarrow> False | Some x \<Rightarrow> pb_status x = ''mismatch'')"

text \<open>The start of a mismatch is stored by this function only, so it always parses.\<close>

definition applySurfaceMismatchProbe ::
    "surface_probe option \<Rightarrow> int \<Rightarrow> int \<Rightarrow> mismatch_state \<Rightarrow> mismatch_result \<times> mismatch_state" where
  "applySurfaceMismatchProbe p now debounce s =
     (if \<not> is_mismatch p
      then (mm_says (if had_state s then MRecover else MSkip)
          (case p of None \<Rightarrow> ''not_mismatch'' | Some x \<Rightarrow> reason_or (pb_reason x) (reason_or (Some (pb_status x)) ''not_mismatch'')) None,
        clearSurfaceMismatchState s)
      else case getSurfaceMismatchObservedKey p of
        None \<Rightarrow> (mm_says MSkip ''observed_surface_unknown'' None, clearSurfaceMismatchState s)
      | Some key \<Rightarrow>
        (case mm_at s of
          None \<Rightarrow> (mm_says MMark (reason_or (pb_reason (the p)) ''mismatch'') (Some 0),
            s\<lparr>mm_at := Some now, mm_observed := Some key, mm_emitted := False\<rparr>)
        | Some t \<Rightarrow>
          if mm_observed s \<noteq> Some key
          then (mm_says MMark (reason_or (pb_reason (the p)) ''mismatch'') (Some 0),
            s\<lparr>mm_at := Some now, mm_observed := Some key, mm_emitted := False\<rparr>)
          else let secs = max 0 ((now - t) div 1000) in
            if mm_emitted s then (mm_says MSkip ''already_emitted'' (Some secs), s)
            else if secs < debounce then (mm_says MSkip ''debouncing'' (Some secs), s)
            else (mm_says MEmit (reason_or (pb_reason (the p)) ''mismatch'') (Some secs), s\<lparr>mm_emitted := True\<rparr>)))"

section \<open>Durations are read back as they are written\<close>

lemma digit_not_space: "is_digit_unit c \<Longrightarrow> \<not> is_space c"
  by (simp add: is_digit_unit_def is_space_def)

lemma lower_digits: "list_all is_digit_unit ds \<Longrightarrow> map ascii_lower ds = ds"
  by (induction ds) (auto simp: is_digit_unit_def ascii_lower_def)

lemma trim_plain:
  assumes "s \<noteq> []" and "\<not> is_space (hd s)" and "\<not> is_space (last s)"
  shows "trim s = s"
proof -
  have "dropWhile is_space s = s" using assms(1,2) by (cases s) auto
  moreover have "dropWhile is_space (rev s) = rev s" using assms(1,3) by (cases s rule: rev_cases) auto
  ultimately show ?thesis by (simp add: trim_def trim_start_def)
qed

lemma unit_texts:
  assumes "(u, k) \<in> set UNIT_MS"
  shows "units_of u \<noteq> []" "\<not> is_space (last (units_of u))" "map ascii_lower (units_of u) = units_of u"
    "\<not> is_digit_unit (hd (units_of u))" "find (\<lambda>p. units_of (fst p) = units_of u) UNIT_MS = Some (u, k)"
proof -
  have "list_all (\<lambda>(u, k). units_of u \<noteq> [] \<and> \<not> is_space (last (units_of u)) \<and> map ascii_lower (units_of u) = units_of u
      \<and> \<not> is_digit_unit (hd (units_of u)) \<and> find (\<lambda>p. units_of (fst p) = units_of u) UNIT_MS = Some (u, k)) UNIT_MS"
    by code_simp
  then have "case (u, k) of (u, k) \<Rightarrow> units_of u \<noteq> [] \<and> \<not> is_space (last (units_of u)) \<and> map ascii_lower (units_of u) = units_of u
      \<and> \<not> is_digit_unit (hd (units_of u)) \<and> find (\<lambda>p. units_of (fst p) = units_of u) UNIT_MS = Some (u, k)"
    using assms unfolding list_all_iff by (rule bspec)
  then show "units_of u \<noteq> []" "\<not> is_space (last (units_of u))" "map ascii_lower (units_of u) = units_of u"
    "\<not> is_digit_unit (hd (units_of u))" "find (\<lambda>p. units_of (fst p) = units_of u) UNIT_MS = Some (u, k)"
    by simp_all
qed

text \<open>
  A duration written as a number and a unit of the table is read as that many of the unit,
  unless the number is past the safe integers, which is refused.
\<close>

theorem duration_roundtrip:
  assumes "(u, k) \<in> set UNIT_MS"
  shows "parseDuration (DText (decimal n @ units_of u))
    = (if safe_int (int n) then Inr (DMs (int n * k)) else Inl ''is too large'')"
proof -
  note d = decimal_digits [of n]
  note t = unit_texts [OF assms]
  have "trim (decimal n @ units_of u) = decimal n @ units_of u"
  proof (rule trim_plain)
    show "\<not> is_space (hd (decimal n @ units_of u))"
      using d by (cases "decimal n") (auto dest: digit_not_space)
    show "\<not> is_space (last (decimal n @ units_of u))" using t(1,2) by simp
  qed (use d in simp)
  then have raw: "map ascii_lower (trim (decimal n @ units_of u)) = decimal n @ units_of u"
    using d t(3) lower_digits by simp
  have "takeWhile is_digit_unit (decimal n @ units_of u) = decimal n" "dropWhile is_digit_unit (decimal n @ units_of u) = units_of u"
    using d t(1,4) by (cases "units_of u"; simp add: list_all_iff takeWhile_append dropWhile_append)+
  moreover have "decimal n @ units_of u \<noteq> units_of ''off''"
    using d by (cases "decimal n") (auto simp: units_of_def unit_of_def is_digit_unit_def)
  moreover obtain c cs where "decimal n @ units_of u = c # cs" using d by (cases "decimal n") auto
  ultimately show ?thesis
    using raw d t(5) by (simp add: parseDuration_def Let_def decimal_value)
qed

lemma duration_roundtrip_witness: "parseDuration (DText (decimal 30 @ units_of ''m'')) = Inr (DMs 1800000)"
  using duration_roundtrip [of "''m''" "60 * 1000" 30] by (simp add: UNIT_MS_def safe_int_def max_safe_integer_def)

section \<open>A mismatch is reported once, and not at once\<close>

type_synonym probe_log = "(surface_probe option \<times> int \<times> mismatch_action) list"

definition probe_step :: "int \<Rightarrow> probe_log \<times> mismatch_state \<Rightarrow> surface_probe option \<times> int \<Rightarrow> probe_log \<times> mismatch_state" where
  "probe_step debounce ls pn = (let (r, s) = applySurfaceMismatchProbe (fst pn) (snd pn) debounce (snd ls)
     in (fst ls @ [(fst pn, snd pn, mr_action r)], s))"

definition no_mismatch :: mismatch_state where
  "no_mismatch = \<lparr>mm_at = None, mm_observed = None, mm_emitted = False\<rparr>"

definition probe_run :: "int \<Rightarrow> (surface_probe option \<times> int) list \<Rightarrow> probe_log \<times> mismatch_state" where
  "probe_run debounce ps = foldl (probe_step debounce) ([], no_mismatch) ps"

text \<open>
  An episode of a key that began at \<open>t\<close>: the log ends with a mark at \<open>t\<close> and then only probes that
  saw the same key; \<open>e\<close> says whether one of them was reported.
\<close>

definition sees :: "string \<Rightarrow> surface_probe option \<Rightarrow> bool" where
  "sees key p \<longleftrightarrow> is_mismatch p \<and> getSurfaceMismatchObservedKey p = Some key"

definition episode :: "string \<Rightarrow> int \<Rightarrow> bool \<Rightarrow> probe_log \<Rightarrow> bool" where
  "episode key t e log \<longleftrightarrow> (\<exists>pre p mid. log = pre @ (p, t, MMark) # mid \<and> sees key p
     \<and> list_all (\<lambda>(q, _, a). sees key q \<and> a \<in> {MSkip, MEmit}) mid \<and> (e \<longleftrightarrow> list_ex (\<lambda>(_, _, a). a = MEmit) mid))"

lemma episode_starts: "sees key p \<Longrightarrow> episode key t False (log @ [(p, t, MMark)])"
  unfolding episode_def by (intro exI [of _ log] exI [of _ p] exI [of _ "[]"]) simp

lemma episode_goes_on:
  assumes "episode key t e log" and "sees key p" and "a \<in> {MSkip, MEmit}"
  shows "episode key t (e \<or> a = MEmit) (log @ [(p, now, a)])"
proof -
  from assms(1) obtain pre q mid where "log = pre @ (q, t, MMark) # mid" "sees key q"
    "list_all (\<lambda>(q, _, a). sees key q \<and> a \<in> {MSkip, MEmit}) mid" "e \<longleftrightarrow> list_ex (\<lambda>(_, _, a). a = MEmit) mid"
    unfolding episode_def by blast
  with assms(2,3) show ?thesis unfolding episode_def
    by (intro exI [of _ pre] exI [of _ q] exI [of _ "mid @ [(p, now, a)]"]) auto
qed

definition probe_inv :: "probe_log \<times> mismatch_state \<Rightarrow> bool" where
  "probe_inv ls \<longleftrightarrow> (case mm_at (snd ls) of None \<Rightarrow> True
     | Some t \<Rightarrow> \<exists>key. mm_observed (snd ls) = Some key \<and> episode key t (mm_emitted (snd ls)) (fst ls))"

lemma probe_cases:
  assumes "mm_at s = None \<or> mm_observed s \<noteq> None"
  obtains (idle) r where "applySurfaceMismatchProbe p now d s = (r, clearSurfaceMismatchState s)" "mr_action r \<in> {MSkip, MRecover}"
  | (start) r key where "applySurfaceMismatchProbe p now d s = (r, s\<lparr>mm_at := Some now, mm_observed := Some key, mm_emitted := False\<rparr>)"
      "mr_action r = MMark" "sees key p"
  | (same) r key where "applySurfaceMismatchProbe p now d s = (r, s)" "mr_action r = MSkip" "sees key p" "mm_observed s = Some key"
  | (report) r key t where "applySurfaceMismatchProbe p now d s = (r, s\<lparr>mm_emitted := True\<rparr>)" "mr_action r = MEmit" "sees key p"
      "mm_at s = Some t" "mm_observed s = Some key" "\<not> mm_emitted s" "d \<le> max 0 ((now - t) div 1000)"
proof (cases "is_mismatch p")
  case False
  then show thesis using idle by (simp add: applySurfaceMismatchProbe_def mm_says_def)
next
  case m: True
  show thesis
  proof (cases "getSurfaceMismatchObservedKey p")
    case None
    then show thesis using m idle by (simp add: applySurfaceMismatchProbe_def mm_says_def)
  next
    case (Some key)
    with m have k: "sees key p" by (simp add: sees_def)
    show thesis
    proof (cases "mm_at s = None \<or> mm_observed s \<noteq> Some key")
      case True
      let ?r = "mm_says MMark (reason_or (pb_reason (the p)) ''mismatch'') (Some 0)"
      have "applySurfaceMismatchProbe p now d s = (?r, s\<lparr>mm_at := Some now, mm_observed := Some key, mm_emitted := False\<rparr>)"
        using m Some True by (auto simp: applySurfaceMismatchProbe_def split: option.split)
      then show thesis by (rule start) (simp_all add: mm_says_def k)
    next
      case False
      then obtain t where t: "mm_at s = Some t" "mm_observed s = Some key" by auto
      show thesis
        using m Some t k same [OF _ _ k t(2)] report [OF _ _ k t]
        by (cases "mm_emitted s"; cases "max 0 ((now - t) div 1000) < d")
           (auto simp: applySurfaceMismatchProbe_def mm_says_def Let_def not_less)
    qed
  qed
qed

lemma probe_step_inv:
  assumes "probe_inv ls" and "ls' = probe_step d ls (p, now)"
  shows "probe_inv ls'"
    and "snd (snd (last (fst ls'))) = MEmit \<Longrightarrow> \<exists>key t. episode key t False (fst ls) \<and> sees key p \<and> d \<le> max 0 ((now - t) div 1000)"
proof -
  have "mm_at (snd ls) = None \<or> mm_observed (snd ls) \<noteq> None"
    using assms(1) by (auto simp: probe_inv_def split: option.splits)
  then have "probe_inv ls' \<and> (snd (snd (last (fst ls'))) = MEmit \<longrightarrow>
      (\<exists>key t. episode key t False (fst ls) \<and> sees key p \<and> d \<le> max 0 ((now - t) div 1000)))"
  proof (cases rule: probe_cases [of "snd ls" p now d])
    case (idle r)
    then show ?thesis by (auto simp: assms(2) probe_step_def probe_inv_def clearSurfaceMismatchState_def)
  next
    case (start r key)
    then show ?thesis by (simp add: assms(2) probe_step_def probe_inv_def episode_starts)
  next
    case (same r key)
    have "episode key t (mm_emitted (snd ls)) (fst ls @ [(p, now, MSkip)])" if "mm_at (snd ls) = Some t" for t
      using assms(1) that same(3,4) episode_goes_on [of key t "mm_emitted (snd ls)" "fst ls" p MSkip now]
      by (auto simp: probe_inv_def)
    with same show ?thesis by (auto simp: assms(2) probe_step_def probe_inv_def split: option.split)
  next
    case (report r key t)
    have "episode key t False (fst ls)" using assms(1) report by (auto simp: probe_inv_def)
    with report episode_goes_on [OF this report(3), of MEmit now] show ?thesis
      by (auto simp: assms(2) probe_step_def probe_inv_def)
  qed
  then show "probe_inv ls'"
    and "snd (snd (last (fst ls'))) = MEmit \<Longrightarrow> \<exists>key t. episode key t False (fst ls) \<and> sees key p \<and> d \<le> max 0 ((now - t) div 1000)"
    by auto
qed

lemma probe_run_snoc: "probe_run d (ps @ [x]) = probe_step d (probe_run d ps) x"
  by (simp add: probe_run_def)

lemma probe_run_inv: "probe_inv (probe_run d ps)"
proof (induction ps rule: rev_induct)
  case Nil
  show ?case by (simp add: probe_run_def probe_inv_def no_mismatch_def)
next
  case (snoc x ps)
  then show ?case using probe_step_inv(1) [of "probe_run d ps" _ d "fst x" "snd x"] by (simp add: probe_run_snoc)
qed

lemma probe_log_snoc: "\<exists>a. fst (probe_run d (ps @ [(p, now)])) = fst (probe_run d ps) @ [(p, now, a)]"
  by (simp add: probe_run_snoc probe_step_def Let_def split: prod.split)

text \<open>
  A wrong surface is reported once per episode, and only after it lasted: every report in a run
  of probes follows an episode of its own key that began at least the debounce time before, all of
  whose probes saw that same surface, and in which nothing was reported yet.
\<close>

theorem mismatch_reported_once_per_episode:
  assumes "fst (probe_run debounce ps) = before @ (p, now, MEmit) # after" and "1 \<le> debounce"
  shows "\<exists>key t. episode key t False before \<and> sees key p \<and> debounce * 1000 \<le> now - t"
  using assms(1)
proof (induction ps arbitrary: after rule: rev_induct)
  case Nil
  then show ?case by (simp add: probe_run_def)
next
  case (snoc x ps)
  note log_so_far = snoc.prems and earlier = snoc.IH
  obtain q u where x: "x = (q, u)" by (cases x)
  from probe_log_snoc [of debounce ps q u] obtain a where
    log: "fst (probe_run debounce (ps @ [x])) = fst (probe_run debounce ps) @ [(q, u, a)]" by (auto simp: x)
  show ?case
  proof (cases after rule: rev_cases)
    case Nil
    then have new: "fst (probe_run debounce ps) = before" "q = p" "u = now" "a = MEmit" using log_so_far log by auto
    have "snd (snd (last (fst (probe_run debounce (ps @ [x]))))) = MEmit" using log new by simp
    from probe_step_inv(2) [OF probe_run_inv probe_run_snoc [of debounce ps x, unfolded x] this [unfolded x]]
    obtain key t where k: "episode key t False (fst (probe_run debounce ps))" "sees key q" "debounce \<le> max 0 ((u - t) div 1000)"
      by blast
    then have "debounce \<le> (u - t) div 1000" using assms(2) by (auto simp: max_def split: if_splits)
    then have "debounce * 1000 \<le> u - t" by linarith
    with k new show ?thesis by blast
  next
    case (snoc after' y)
    then have "fst (probe_run debounce ps) = before @ (p, now, MEmit) # after'" using log_so_far log by simp
    then show ?thesis by (rule earlier)
  qed
qed

text \<open>A surface that stays wrong: marked at 0, reported at 12 seconds.\<close>

definition wrong_probe :: "surface_probe option" where
  "wrong_probe = Some \<lparr>pb_status = ''mismatch'', pb_reason = None, pb_key = Some ''k'', pb_surface = None\<rparr>"

lemma mismatch_reported_once_per_episode_witness:
  "\<exists>key t. episode key t False [(wrong_probe, 0, MMark), (wrong_probe, 4000, MSkip)] \<and> sees key wrong_probe \<and> 10000 \<le> 12000 - t"
proof -
  have "fst (probe_run 10 [(wrong_probe, 0), (wrong_probe, 4000), (wrong_probe, 12000), (wrong_probe, 20000)])
      = [(wrong_probe, 0, MMark), (wrong_probe, 4000, MSkip)] @ (wrong_probe, 12000, MEmit) # [(wrong_probe, 20000, MSkip)]"
    by code_simp
  from mismatch_reported_once_per_episode [OF this] show ?thesis by simp
qed

end
