(* ===== verification/Interaction_Request.thy ===== *)
theory Interaction_Request
  imports Js_Json
begin

text \<open>
  The request side of \<open>src/interaction.js\<close>: the closed schema of an interaction request, its
  expiry, and the fences that an observation of the prompt must meet. A request, an observation
  and an owner binding are JSON values; a chain of early returns is a list of conditions with
  their reasons, in the order of the source.
\<close>

section \<open>Early returns\<close>

fun first_error :: "(bool \<times> string) list \<Rightarrow> string option" where
  "first_error [] = None"
| "first_error ((bad, reason) # rest) = (if bad then Some reason else first_error rest)"

named_theorems accepted_iff \<open>when a chain of early returns lets a value through\<close>

lemma first_error_None [accepted_iff]: "first_error cs = None \<longleftrightarrow> list_all (\<lambda>c. \<not> fst c) cs"
  by (induction cs rule: first_error.induct) auto

lemma first_error_Some: "first_error cs = Some e \<Longrightarrow> e \<in> snd ` set cs"
  by (induction cs rule: first_error.induct) (auto split: if_splits)

section \<open>The schema\<close>

text \<open>\<open>/^[A-Za-z0-9][A-Za-z0-9_.:-]{0,127}$/\<close> and \<open>/^[a-f0-9]{64}$/\<close>.\<close>

definition id_start :: "int \<Rightarrow> bool" where
  "id_start c \<longleftrightarrow> (48 \<le> c \<and> c \<le> 57) \<or> (65 \<le> c \<and> c \<le> 90) \<or> (97 \<le> c \<and> c \<le> 122)"

definition id_part :: "int \<Rightarrow> bool" where
  "id_part c \<longleftrightarrow> id_start c \<or> c = 95 \<or> c = 46 \<or> c = 58 \<or> c = 45"

definition validId :: "json option \<Rightarrow> bool" where
  "validId v \<longleftrightarrow> (case v of Some (VStr (c # cs)) \<Rightarrow> id_start c \<and> list_all id_part cs \<and> length cs \<le> 127 | _ \<Rightarrow> False)"

definition hex64 :: "json option \<Rightarrow> bool" where
  "hex64 v \<longleftrightarrow> (case v of Some (VStr s) \<Rightarrow> length s = 64
     \<and> list_all (\<lambda>c. (48 \<le> c \<and> c \<le> 57) \<or> (97 \<le> c \<and> c \<le> 102)) s | _ \<Rightarrow> False)"

definition KEYS :: "(string \<times> units) list" where
  "KEYS = [(''up'', [27, 91, 65]), (''down'', [27, 91, 66]), (''left'', [27, 91, 68]), (''right'', [27, 91, 67]),
    (''tab'', [9]), (''shift-tab'', [27, 91, 90]), (''space'', [32]), (''enter'', [13]), (''escape'', [27]),
    (''home'', [27, 91, 72]), (''end'', [27, 91, 70]), (''backspace'', [127]), (''delete'', [27, 91, 51, 126])]"

definition FENCE_FIELDS :: "string list" where
  "FENCE_FIELDS = [''sid'', ''session_epoch'', ''credential_generation'', ''owner_generation'',
    ''input_generation'', ''geometry_generation'', ''prompt_revision'', ''frame_digest'', ''surface_id'', ''cols'', ''rows'']"

definition REFUSALS :: "string list" where
  "REFUSALS = [''unsupported_capability'', ''stale_prompt'', ''wrong_owner'', ''wrong_attempt'',
    ''authority_required'', ''payload_conflict'', ''busy'', ''cancelled'', ''expired'', ''observation_unavailable'',
    ''write_failed'', ''outcome_unknown'', ''invalid_request'', ''storage_unavailable'']"

definition schemaContainer :: "json option \<Rightarrow> string list \<Rightarrow> string list \<Rightarrow> bool" where
  "schemaContainer v required extra \<longleftrightarrow> (case v of Some (VObj fs) \<Rightarrow>
       length fs \<le> length required + length extra
       \<and> list_all (\<lambda>p. fst p \<in> set required \<or> fst p \<in> set extra) fs
       \<and> list_all (\<lambda>k. k \<in> fst ` set fs) required
     | _ \<Rightarrow> False)"

definition TASK_FIELDS :: "string list" where
  "TASK_FIELDS = [''task_id'', ''sandbox_attempt'', ''dispatch_id'']"

definition long_text :: "json option \<Rightarrow> bool" where
  "long_text v \<longleftrightarrow> \<not> (is_string v \<and> text_of v \<noteq> [] \<and> length (text_of v) \<le> 256)"

text \<open>A count or generation that is not a non-negative safe integer.\<close>

definition bad_count :: "json option \<Rightarrow> bool" where
  "bad_count v \<longleftrightarrow> \<not> safe_number v \<or> num_of v < 0"

definition unsafe_text :: "units \<Rightarrow> bool" where
  "unsafe_text s \<longleftrightarrow> list_ex (\<lambda>c. (0 \<le> c \<and> c \<le> 31) \<or> (127 \<le> c \<and> c \<le> 159) \<or> c = 8232 \<or> c = 8233) s"

definition request_checks :: "json \<Rightarrow> (bool \<times> string) list" where
  "request_checks r =
    (let f = fld r; sub = fld2 r; kind = sub ''identity'' ''kind''; inv = ''invalid_request'' in
     [(\<not> schemaContainer (Some r) [''schema_version'', ''action_id'', ''interaction_request_id'', ''identity'',
         ''expected'', ''operation'', ''value'', ''authority'', ''expires_at''] [''pending_inject_id'', ''payload_digest''], inv),
      (\<not> schemaContainer (f ''identity'') [''kind'', ''sid''] TASK_FIELDS
         \<or> \<not> schemaContainer (f ''expected'') (FENCE_FIELDS @ [''question_id'']) []
         \<or> \<not> schemaContainer (f ''authority'') [''provenance'', ''reference''] [], inv),
      (f ''schema_version'' \<noteq> Some (VInt 1) \<or> \<not> validId (f ''action_id'') \<or> \<not> validId (f ''interaction_request_id'')
         \<or> \<not> validId (sub ''identity'' ''sid'') \<or> \<not> text_in kind [''manual'', ''task''], inv),
      (is_text kind ''task'' \<and> (list_ex (\<lambda>k. \<not> validId (sub ''identity'' k)) TASK_FIELDS
         \<or> \<not> validId (f ''pending_inject_id'')), ''wrong_attempt''),
      (is_text kind ''manual'' \<and> list_ex (\<lambda>k. sub ''identity'' k \<noteq> None) TASK_FIELDS, ''wrong_attempt''),
      (has_own r ''pending_inject_id'' \<noteq> has_own r ''payload_digest'', inv),
      (has_own r ''pending_inject_id'' \<and> (\<not> validId (f ''pending_inject_id'') \<or> \<not> hex64 (f ''payload_digest'')), inv),
      (\<not> text_in (sub ''authority'' ''provenance'') [''controller-policy'', ''actual-human-decision'']
         \<or> \<not> validId (sub ''authority'' ''reference''), ''authority_required''),
      (\<not> text_in (f ''operation'') [''key'', ''text'', ''select'', ''toggle'', ''confirm'', ''cancel'', ''next'', ''back''],
         ''unsupported_capability''),
      (\<not> is_string (f ''value'') \<or> byte_length (text_of (f ''value'')) > 4096, inv),
      (is_text (f ''operation'') ''text'' \<and> unsafe_text (text_of (f ''value'')), ''unsupported_capability''),
      (is_text (f ''operation'') ''key'' \<and> \<not> text_in (f ''value'') (map fst KEYS), ''unsupported_capability''),
      (list_ex (\<lambda>k. long_text (sub ''expected'' k)) [''session_epoch'', ''owner_generation'', ''surface_id''], inv),
      (long_text (sub ''expected'' ''prompt_revision'') \<and> bad_count (sub ''expected'' ''prompt_revision''), inv),
      (sub ''expected'' ''sid'' \<noteq> sub ''identity'' ''sid'' \<or> \<not> validId (sub ''expected'' ''question_id'')
         \<or> \<not> hex64 (sub ''expected'' ''frame_digest''), inv),
      (list_ex (\<lambda>k. bad_count (sub ''expected'' k))
         [''credential_generation'', ''input_generation'', ''geometry_generation'', ''cols'', ''rows''], inv),
      (num_of (sub ''expected'' ''cols'') < 1 \<or> num_of (sub ''expected'' ''rows'') < 1
         \<or> num_of (sub ''expected'' ''cols'') > 1000 \<or> num_of (sub ''expected'' ''rows'') > 1000, inv),
      (bad_count (f ''expires_at''), inv),
      (byte_length (canonical r) > 16384, inv)])"

definition validateRequestStructure :: "json \<Rightarrow> string option" where
  "validateRequestStructure r = first_error (request_checks r)"

definition validateRequest :: "json \<Rightarrow> int \<Rightarrow> string option" where
  "validateRequest r now = (case validateRequestStructure r of Some e \<Rightarrow> Some e
     | None \<Rightarrow> if num_of (fld r ''expires_at'') \<le> now \<or> num_of (fld r ''expires_at'') > now + 60000
         then Some ''expired'' else None)"

section \<open>The fences\<close>

definition OWNER_FIELDS :: "string list" where
  "OWNER_FIELDS = [''sid'', ''session_epoch'', ''credential_generation'', ''owner_generation'', ''input_generation'',
    ''geometry_generation'', ''surface_id'', ''cols'', ''rows'']"

definition listed :: "json option \<Rightarrow> json option \<Rightarrow> bool" where
  "listed xs v \<longleftrightarrow> (case (xs, v) of (Some (VArr ys), Some x) \<Rightarrow> x \<in> set ys | _ \<Rightarrow> False)"

text \<open>An absent observation or binding is \<open>None\<close>; its properties are read as \<open>undefined\<close>.\<close>

definition ofld :: "json option \<Rightarrow> string \<Rightarrow> json option" where
  "ofld v k = Option.bind v (\<lambda>x. fld x k)"

definition observation_checks :: "json \<Rightarrow> json option \<Rightarrow> json option \<Rightarrow> int \<Rightarrow> (bool \<times> string) list" where
  "observation_checks r obs binding now =
    (let sub = fld2 r; seen = ofld obs; own = ofld binding; oper = fld r ''operation'' in
     [(binding = None \<or> own ''sid'' \<noteq> sub ''identity'' ''sid'' \<or> \<not> truthy_json (own ''session_epoch'')
         \<or> own ''session_epoch'' \<noteq> sub ''expected'' ''session_epoch'', ''wrong_owner''),
      (is_text (sub ''identity'' ''kind'') ''task''
         \<and> list_ex (\<lambda>k. \<not> truthy_json (own k) \<or> own k \<noteq> sub ''identity'' k) TASK_FIELDS, ''wrong_attempt''),
      (obs = None \<or> seen ''available'' \<noteq> Some (VBool True) \<or> seen ''current_frame'' \<noteq> Some (VBool True)
         \<or> \<not> is_text (seen ''provenance'') ''measured-provider'', ''observation_unavailable''),
      (\<not> safe_number (seen ''expires_at'') \<or> num_of (seen ''expires_at'') \<le> now, ''expired''),
      (list_ex (\<lambda>k. seen k \<noteq> sub ''expected'' k) FENCE_FIELDS, ''stale_prompt''),
      (list_ex (\<lambda>k. own k \<noteq> seen k) OWNER_FIELDS, ''wrong_owner''),
      (seen ''question_id'' \<noteq> sub ''expected'' ''question_id'', ''stale_prompt''),
      (\<not> listed (seen ''supported_operations'') oper, ''unsupported_capability''),
      (text_in (seen ''mode'') [''permission_trust'', ''authentication_bootstrap_failure'', ''unknown'', ''running''],
         ''authority_required''),
      (seen ''routine'' \<noteq> Some (VBool True) \<or> \<not> is_text (sub ''authority'' ''provenance'') ''controller-policy'',
         ''authority_required''),
      (is_text oper ''text'' \<and> \<not> is_text (seen ''mode'') ''text_response'', ''unsupported_capability''),
      (text_in oper [''select'', ''toggle''] \<and> \<not> listed (seen ''option_ids'') (fld r ''value''), ''stale_prompt'')])"

definition validateObservation :: "json \<Rightarrow> json option \<Rightarrow> json option \<Rightarrow> int \<Rightarrow> string option" where
  "validateObservation r obs binding now = first_error (observation_checks r obs binding now)"

text \<open>The digest of a value: \<open>sha\<close> is SHA-256 in hexadecimal over the canonical text.\<close>

definition digest :: "(units \<Rightarrow> units) \<Rightarrow> json \<Rightarrow> units" where
  "digest sha v = sha (canonical v)"

section \<open>What passing the checks means\<close>

lemma text_in_iff: "text_in v ss \<longleftrightarrow> (\<exists>s \<in> set ss. v = Some (vtext s))"
  by (auto simp: text_in_def is_text_def list_ex_iff)

lemma validRequest_structure: "validateRequest r now \<in> {None, Some ''expired''} \<Longrightarrow> validateRequestStructure r \<in> {None, Some ''expired''}"
  by (auto simp: validateRequest_def split: option.splits if_splits)

lemma structure_not_expired: "validateRequestStructure r \<noteq> Some ''expired''"
  by (auto dest!: first_error_Some simp: validateRequestStructure_def request_checks_def Let_def)

lemma accepted_structure:
  "validateRequest r now \<in> {None, Some ''expired''} \<Longrightarrow> list_all (\<lambda>c. \<not> fst c) (request_checks r)"
  using validRequest_structure [of r now] structure_not_expired [of r]
  by (auto simp: validateRequestStructure_def first_error_None)

lemma accepted_ids:
  assumes "validateRequest r now \<in> {None, Some ''expired''}"
  shows "\<exists>a s. fld r ''action_id'' = Some (VStr a) \<and> fld2 r ''identity'' ''sid'' = Some (VStr s)"
proof -
  have "validId (fld r ''action_id'') \<and> validId (fld2 r ''identity'' ''sid'')"
    using accepted_structure [OF assms] unfolding request_checks_def Let_def list.pred_inject fst_conv by blast
  then show ?thesis by (auto simp: validId_def split: option.splits json.splits)
qed

end
