(* ===== verification/Interaction_Core.thy ===== *)
theory Interaction_Core
  imports Interaction_Request
begin

text \<open>
  \<open>createInteractionCore\<close>: the host's side of an interaction. \<open>act\<close> is asynchronous, so its code
  between two awaits is one event: admitting a request up to the first commit, the answer of a commit
  with what follows it, the answer of the dispatch, and a crash of the process, which forgets the calls
  in flight but not the ledger. What the code is given (authorisation, the owner binding, the held
  task, the observation, the clock, the commit's outcome) is part of the event.
\<close>

datatype stage = Prepared | RefusedStage | DispatchedStage | WrittenStage | OutcomeUnknownStage

record action =
  ia_id :: units
  ia_digest :: units
  ia_interaction :: units
  ia_sid :: units
  ia_request :: json
  ia_pending_id :: "units option"
  ia_stage :: stage
  ia_reason :: "string option"
  ia_terminal :: bool
  ia_bytes :: "int option"
  ia_seq :: int
  ia_updated_at :: int

record held_task =
  ht_inject_id :: units
  ht_payload :: "json option"
  ht_payload_digest :: "json option"
  ht_identity :: json
  ht_binding :: json
  ht_retained_at :: int

type_synonym action_map = "(units, action) jsmap"

text \<open>What a caller gets: the public part of a record, or a refusal with its storage qualifiers.\<close>

record receipt =
  rc_id :: units
  rc_digest :: units
  rc_interaction :: units
  rc_sid :: units
  rc_stage :: stage
  rc_reason :: "string option"
  rc_terminal :: bool
  rc_bytes :: "int option"
  rc_seq :: int
  rc_pending_id :: "units option"
  rc_updated_at :: int

datatype reply = Receipt receipt | Refusal string | StorageRefusal bool bool

definition publicReceipt :: "action \<Rightarrow> receipt" where
  "publicReceipt a = \<lparr>rc_id = ia_id a, rc_digest = ia_digest a, rc_interaction = ia_interaction a, rc_sid = ia_sid a,
     rc_stage = ia_stage a, rc_reason = ia_reason a, rc_terminal = ia_terminal a, rc_bytes = ia_bytes a,
     rc_seq = ia_seq a, rc_pending_id = ia_pending_id a, rc_updated_at = ia_updated_at a\<rparr>"

text \<open>A call in flight, by the await it is in, with the record it is committing or has committed.\<close>

datatype act_phase =
    Preparing action "held_task option"
  | Refusing action
  | Marking action
  | Sent action
  | Finishing action

fun phase_action :: "act_phase \<Rightarrow> action" where
  "phase_action (Preparing a _) = a"
| "phase_action (Refusing a) = a"
| "phase_action (Marking a) = a"
| "phase_action (Sent a) = a"
| "phase_action (Finishing a) = a"

record core =
  co_actions :: action_map
  co_held :: "(units, held_task) jsmap"
  co_active :: "units list"
  co_calls :: "(nat, act_phase) jsmap"
  co_sent :: "(units \<times> units) list"
  co_replies :: "(nat \<times> reply) list"

section \<open>Admission\<close>

definition uncertain :: "units \<Rightarrow> action_map \<Rightarrow> bool" where
  "uncertain sid acts \<longleftrightarrow> list_ex (\<lambda>(_, a). ia_sid a = sid \<and> ia_stage a \<in> {DispatchedStage, OutcomeUnknownStage}) acts"

text \<open>What admitting a call reads from outside: \<open>be_task\<close> is what \<open>pendingTask\<close> answers.\<close>

record begin_env =
  be_now :: int
  be_authorized :: bool
  be_ledger :: bool
  be_reserved :: bool
  be_binding :: "json option"
  be_task :: "(json option \<times> json option) option"

definition identity_of :: "json \<Rightarrow> json" where
  "identity_of r = (case fld r ''identity'' of Some v \<Rightarrow> v | None \<Rightarrow> VNull)"

definition binding_json :: "json option \<Rightarrow> json" where
  "binding_json b = (case b of Some v \<Rightarrow> v | None \<Rightarrow> VNull)"

text \<open>The held task of a request that names one: taken fresh, or the one retained before.\<close>

definition hold_task ::
    "(units \<Rightarrow> units) \<Rightarrow> json \<Rightarrow> begin_env \<Rightarrow> (units, held_task) jsmap \<Rightarrow> string + held_task option" where
  "hold_task sha r e helds =
     (if \<not> has_own r ''pending_inject_id'' then Inr None
      else case be_task e of None \<Rightarrow> Inl ''payload_conflict''
      | Some (payload, pdigest) \<Rightarrow>
        if pdigest \<noteq> fld r ''payload_digest'' then Inl ''payload_conflict''
        else if \<not> is_string payload \<or> byte_length (text_of payload) > 1048576
          \<or> Some (VStr (sha (text_of payload))) \<noteq> fld r ''payload_digest'' then Inl ''payload_conflict''
        else let inject = text_of (fld r ''pending_inject_id'') in
          (case jm_get helds inject of
            None \<Rightarrow> Inr (Some \<lparr>ht_inject_id = inject, ht_payload = payload, ht_payload_digest = pdigest,
              ht_identity = identity_of r, ht_binding = binding_json (be_binding e), ht_retained_at = be_now e\<rparr>)
          | Some prior \<Rightarrow>
            if ht_payload_digest prior \<noteq> pdigest \<or> digest sha (ht_identity prior) \<noteq> digest sha (identity_of r)
              \<or> fld (ht_binding prior) ''session_epoch'' \<noteq> ofld (be_binding e) ''session_epoch''
            then Inl ''payload_conflict'' else Inr (Some prior)))"

text \<open>The synchronous part of \<open>act\<close>: a reply, or the record to prepare.\<close>

definition admit_act ::
    "(units \<Rightarrow> units) \<Rightarrow> json \<Rightarrow> begin_env \<Rightarrow> core \<Rightarrow> reply + action \<times> held_task option" where
  "admit_act sha r e c =
     (let err = validateRequest r (be_now e); aid = text_of (fld r ''action_id''); sid = text_of (fld2 r ''identity'' ''sid'');
          hash = digest sha r; own = ofld (be_binding e); no = (\<lambda>reason. Inl (Refusal reason)) in
      if err \<notin> {None, Some ''expired''} then no (the err)
      else if \<not> be_authorized e then no ''authority_required''
      else if \<not> be_ledger e then no ''storage_unavailable''
      else case jm_get (co_actions c) aid of
        Some prior \<Rightarrow> if ia_digest prior = hash then Inl (Receipt (publicReceipt prior)) else no ''payload_conflict''
      | None \<Rightarrow>
        if err \<noteq> None then no (the err)
        else if length (co_actions c) \<ge> 10000 then no ''busy''
        else if sid \<in> set (co_active c) \<or> uncertain sid (co_actions c) then no ''busy''
        else if \<not> be_reserved e then no ''busy''
        else if be_binding e = None \<or> own ''sid'' \<noteq> Some (VStr sid)
          \<or> own ''session_epoch'' \<noteq> fld2 r ''expected'' ''session_epoch'' then no ''wrong_owner''
        else if is_text (fld2 r ''identity'' ''kind'') ''task''
          \<and> list_ex (\<lambda>k. own k \<noteq> fld2 r ''identity'' k) TASK_FIELDS then no ''wrong_attempt''
        else case hold_task sha r e (co_held c) of
          Inl reason \<Rightarrow> no reason
        | Inr held \<Rightarrow> Inr (\<lparr>ia_id = aid, ia_digest = hash, ia_interaction = text_of (fld r ''interaction_request_id''),
            ia_sid = sid, ia_request = r,
            ia_pending_id = (if has_own r ''pending_inject_id'' then Some (text_of (fld r ''pending_inject_id'')) else None),
            ia_stage = Prepared, ia_reason = None, ia_terminal = False, ia_bytes = Some 0, ia_seq = 1,
            ia_updated_at = be_now e\<rparr>, held))"

section \<open>The events\<close>

text \<open>A commit is acknowledged, refused before any write, or of unknown durability: then it may have happened.\<close>

datatype commit_outcome = Committed | NotCommitted | Indeterminate bool

definition next_stage :: "int \<Rightarrow> stage \<Rightarrow> string option \<Rightarrow> int option \<Rightarrow> bool \<Rightarrow> action \<Rightarrow> action" where
  "next_stage now st reason bytes terminal a = a\<lparr>ia_stage := st, ia_reason := reason, ia_bytes := bytes,
     ia_terminal := terminal, ia_seq := ia_seq a + 1, ia_updated_at := now\<rparr>"

definition saveRecord :: "commit_outcome \<Rightarrow> action \<Rightarrow> held_task option \<Rightarrow> core \<Rightarrow> core" where
  "saveRecord out a held c = (if out \<in> {Committed, Indeterminate True}
     then c\<lparr>co_actions := jm_set (ia_id a) a (co_actions c),
            co_held := (case held of None \<Rightarrow> co_held c | Some h \<Rightarrow> jm_set (ht_inject_id h) h (co_held c))\<rparr>
     else c)"

text \<open>The \<open>finally\<close> of a call: it replies and leaves the active set.\<close>

definition finish_call :: "nat \<Rightarrow> reply \<Rightarrow> core \<Rightarrow> core" where
  "finish_call n rep c = (case jm_get (co_calls c) n of None \<Rightarrow> c
     | Some p \<Rightarrow> c\<lparr>co_calls := jm_delete n (co_calls c),
         co_active := filter (\<lambda>s. s \<noteq> ia_sid (phase_action p)) (co_active c),
         co_replies := co_replies c @ [(n, rep)]\<rparr>)"

definition move_call :: "nat \<Rightarrow> act_phase \<Rightarrow> core \<Rightarrow> core" where
  "move_call n p c = c\<lparr>co_calls := jm_set n p (co_calls c)\<rparr>"

definition storageRefusal :: "commit_outcome \<Rightarrow> bool \<Rightarrow> reply" where
  "storageRefusal out unknown = StorageRefusal (out \<noteq> NotCommitted) unknown"

text \<open>What the writer answered; \<open>None\<close> is a dispatch that threw.\<close>

record write_answer =
  wa_stage :: string
  wa_bytes :: "int option"
  wa_reason :: "string option"

definition known_answer :: "write_answer option \<Rightarrow> bool" where
  "known_answer w \<longleftrightarrow> (case w of None \<Rightarrow> False | Some x \<Rightarrow>
     (wa_stage x = ''refused'' \<and> wa_bytes x = Some 0 \<and> (\<exists>y \<in> set REFUSALS. wa_reason x = Some y))
     \<or> (wa_stage x = ''written'' \<and> wa_reason x = None
        \<and> (case wa_bytes x of None \<Rightarrow> False | Some b \<Rightarrow> 0 < b \<and> b \<le> 8192)))"

definition finished_action :: "int \<Rightarrow> write_answer option \<Rightarrow> action \<Rightarrow> action" where
  "finished_action now w a =
     (if known_answer w then
        next_stage now (if wa_stage (the w) = ''written'' then WrittenStage else RefusedStage)
          (wa_reason (the w)) (wa_bytes (the w)) (wa_stage (the w) \<noteq> ''written'') a
      else next_stage now OutcomeUnknownStage (Some ''outcome_unknown'') None True a)"

datatype event =
    Begin nat json begin_env
  | CommitDone nat commit_outcome "json option" "json option" int
  | DispatchDone nat "write_answer option" int
  | Crash

definition begin_call :: "(units \<Rightarrow> units) \<Rightarrow> nat \<Rightarrow> json \<Rightarrow> begin_env \<Rightarrow> core \<Rightarrow> core" where
  "begin_call sha n r e c =
     (if jm_has (co_calls c) n then c
      else case admit_act sha r e c of
        Inl rep \<Rightarrow> c\<lparr>co_replies := co_replies c @ [(n, rep)]\<rparr>
      | Inr (a, held) \<Rightarrow> c\<lparr>co_active := ia_sid a # co_active c, co_calls := jm_set n (Preparing a held) (co_calls c)\<rparr>)"

text \<open>After a commit: the code up to the next await. The observation and the binding are read again here.\<close>

definition commit_done :: "nat \<Rightarrow> commit_outcome \<Rightarrow> json option \<Rightarrow> json option \<Rightarrow> int \<Rightarrow> core \<Rightarrow> core" where
  "commit_done n out obs own now c = (case jm_get (co_calls c) n of
     None \<Rightarrow> c
   | Some (Preparing a held) \<Rightarrow> (let c1 = saveRecord out a held c in
       if out \<noteq> Committed then finish_call n (storageRefusal out False) c1
       else case validateObservation (ia_request a) obs own now of
         Some reason \<Rightarrow> move_call n (Refusing (next_stage now RefusedStage (Some reason) (ia_bytes a) True a)) c1
       | None \<Rightarrow> move_call n (Marking (next_stage now DispatchedStage None None False a)) c1)
   | Some (Refusing a) \<Rightarrow> finish_call n
       (if out = Committed then Receipt (publicReceipt a) else storageRefusal out False) (saveRecord out a None c)
   | Some (Marking a) \<Rightarrow> (let c1 = saveRecord out a None c in
       if out \<noteq> Committed then finish_call n (storageRefusal out False) c1
       else (move_call n (Sent a) c1)\<lparr>co_sent := co_sent c1 @ [(ia_id a, ia_sid a)]\<rparr>)
   | Some (Sent a) \<Rightarrow> c
   | Some (Finishing a) \<Rightarrow> finish_call n
       (if out = Committed then Receipt (publicReceipt a) else storageRefusal out True) (saveRecord out a None c))"

definition dispatch_done :: "nat \<Rightarrow> write_answer option \<Rightarrow> int \<Rightarrow> core \<Rightarrow> core" where
  "dispatch_done n w now c = (case jm_get (co_calls c) n of
     Some (Sent a) \<Rightarrow> move_call n (Finishing (finished_action now w a)) c
   | _ \<Rightarrow> c)"

definition crash :: "core \<Rightarrow> core" where
  "crash c = c\<lparr>co_active := [], co_calls := []\<rparr>"

fun apply_event :: "(units \<Rightarrow> units) \<Rightarrow> event \<Rightarrow> core \<Rightarrow> core" where
  "apply_event sha (Begin n r e) c = begin_call sha n r e c"
| "apply_event sha (CommitDone n out obs own now) c = commit_done n out obs own now c"
| "apply_event sha (DispatchDone n w now) c = dispatch_done n w now c"
| "apply_event sha Crash c = crash c"

definition isBusy :: "units \<Rightarrow> core \<Rightarrow> bool" where
  "isBusy sid c \<longleftrightarrow> sid \<in> set (co_active c) \<or> uncertain sid (co_actions c)"

text \<open>A process start: a ledger, and nothing in flight.\<close>

definition start_core :: "action_map \<Rightarrow> (units, held_task) jsmap \<Rightarrow> core" where
  "start_core acts helds = \<lparr>co_actions = acts, co_held = helds, co_active = [], co_calls = [], co_sent = [], co_replies = []\<rparr>"

end
