(* ===== verification/Interaction_Laws.thy ===== *)
theory Interaction_Laws
  imports Interaction_Core
begin

text \<open>
  What the host's side guarantees through any interleaving of calls, lost acknowledgements and
  crashes: an action reaches a session's writer at most once, after its record is durable; and
  the one way in which two sessions can share an action id.
\<close>

section \<open>The invariant\<close>

fun may_send :: "act_phase \<Rightarrow> bool" where
  "may_send (Preparing _ _) = True"
| "may_send (Marking _) = True"
| "may_send _ = False"

text \<open>Past its first commit, a call's action id is in the ledger.\<close>

fun recorded :: "act_phase \<Rightarrow> bool" where
  "recorded (Preparing _ _) = False"
| "recorded _ = True"

abbreviation call_id :: "act_phase \<Rightarrow> units" where
  "call_id p \<equiv> ia_id (phase_action p)"

abbreviation call_sid :: "act_phase \<Rightarrow> units" where
  "call_sid p \<equiv> ia_sid (phase_action p)"

definition one_per_session :: "(nat, act_phase) jsmap \<Rightarrow> units list \<Rightarrow> bool" where
  "one_per_session calls active \<longleftrightarrow>
     (\<forall>n p. jm_get calls n = Some p \<longrightarrow> call_sid p \<in> set active)
     \<and> (\<forall>n m p q. jm_get calls n = Some p \<longrightarrow> jm_get calls m = Some q \<longrightarrow> call_sid p = call_sid q \<longrightarrow> n = m)"

definition on_record :: "action_map \<Rightarrow> (nat, act_phase) jsmap \<Rightarrow> bool" where
  "on_record acts calls \<longleftrightarrow> (\<forall>n p. jm_get calls n = Some p \<longrightarrow> recorded p \<longrightarrow> jm_has acts (call_id p))"

definition sent_once :: "action_map \<Rightarrow> (nat, act_phase) jsmap \<Rightarrow> (units \<times> units) list \<Rightarrow> bool" where
  "sent_once acts calls sent \<longleftrightarrow> distinct sent \<and> (\<forall>i s. (i, s) \<in> set sent \<longrightarrow> jm_has acts i
     \<and> (\<forall>n p. jm_get calls n = Some p \<longrightarrow> may_send p \<longrightarrow> call_id p = i \<longrightarrow> call_sid p \<noteq> s))"

definition core_ok :: "core \<Rightarrow> bool" where
  "core_ok c \<longleftrightarrow> one_per_session (co_calls c) (co_active c) \<and> on_record (co_actions c) (co_calls c)
     \<and> sent_once (co_actions c) (co_calls c) (co_sent c)"

lemmas core_parts = core_ok_def one_per_session_def on_record_def sent_once_def

lemma sessionD: "core_ok c \<Longrightarrow> jm_get (co_calls c) n = Some p \<Longrightarrow> call_sid p \<in> set (co_active c)"
  unfolding core_ok_def one_per_session_def by blast

lemma onlyD: "core_ok c \<Longrightarrow> jm_get (co_calls c) n = Some p \<Longrightarrow> jm_get (co_calls c) m = Some q \<Longrightarrow>
    call_sid p = call_sid q \<Longrightarrow> n = m"
  unfolding core_ok_def one_per_session_def by blast

lemma recordD: "core_ok c \<Longrightarrow> jm_get (co_calls c) n = Some p \<Longrightarrow> recorded p \<Longrightarrow> jm_has (co_actions c) (call_id p)"
  unfolding core_ok_def on_record_def by blast

lemma sentD: "core_ok c \<Longrightarrow> (i, s) \<in> set (co_sent c) \<Longrightarrow> jm_has (co_actions c) i"
  unfolding core_ok_def sent_once_def by blast

lemma unsentD: "core_ok c \<Longrightarrow> jm_get (co_calls c) n = Some p \<Longrightarrow> may_send p \<Longrightarrow> (call_id p, call_sid p) \<notin> set (co_sent c)"
  unfolding core_ok_def sent_once_def by blast

section \<open>The pieces of an event keep it\<close>

lemma has_set [simp]: "jm_has (jm_set k v m) k' \<longleftrightarrow> k' = k \<or> jm_has m k'"
  by (simp add: jm_has_def)

lemma save_frame [simp]:
  "co_calls (saveRecord out a h c) = co_calls c" "co_active (saveRecord out a h c) = co_active c"
  "co_sent (saveRecord out a h c) = co_sent c"
  by (simp_all add: saveRecord_def)

lemma save_has: "jm_has (co_actions c) i \<Longrightarrow> jm_has (co_actions (saveRecord out a h c)) i"
  by (simp add: saveRecord_def)

lemma save_has_own [simp]: "jm_has (co_actions (saveRecord Committed a h c)) (ia_id a)"
  by (simp add: saveRecord_def)

lemma save_ok: "core_ok c \<Longrightarrow> core_ok (saveRecord out a h c)"
  by (auto simp: core_parts intro: save_has)

lemma finish_ok: "core_ok c \<Longrightarrow> core_ok (finish_call n rep c)"
proof (cases "jm_get (co_calls c) n")
  case (Some p)
  assume "core_ok c"
  with Some show ?thesis
    by (auto simp: finish_call_def core_parts)
qed (simp add: finish_call_def)

lemma move_ok:
  assumes "core_ok c" and "jm_get (co_calls c) n = Some p"
    and "call_id q = call_id p" "call_sid q = call_sid p"
    and "recorded q \<Longrightarrow> jm_has (co_actions c) (call_id p)" and "may_send q \<Longrightarrow> may_send p"
  shows "core_ok (move_call n q c)"
  using assms unfolding core_ok_def move_call_def
  by (auto simp: one_per_session_def on_record_def sent_once_def)

section \<open>Every event keeps it\<close>

lemma admit_fresh:
  assumes "admit_act sha r e c = Inr (a, held)"
  shows "ia_sid a \<notin> set (co_active c)" "\<not> jm_has (co_actions c) (ia_id a)" "\<not> uncertain (ia_sid a) (co_actions c)"
  using assms
  by (auto simp: admit_act_def Let_def jm_has_def split: option.splits sum.splits if_splits)

lemma begin_ok: "core_ok c \<Longrightarrow> core_ok (begin_call sha n r e c)"
proof (cases "admit_act sha r e c")
  case (Inr x)
  then obtain a held where x: "admit_act sha r e c = Inr (a, held)" by (cases x) auto
  assume ok: "core_ok c"
  have "call_sid p \<noteq> ia_sid a" if "jm_get (co_calls c) k = Some p" for k p
    using sessionD [OF ok that] admit_fresh(1) [OF x] by metis
  moreover have "i \<noteq> ia_id a" if "(i, s) \<in> set (co_sent c)" for i s
    using sentD [OF ok that] admit_fresh(2) [OF x] by blast
  ultimately show ?thesis using ok x
    by (auto simp: begin_call_def core_parts) metis+
next
  case (Inl rep)
  assume "core_ok c"
  with Inl show ?thesis by (simp add: begin_call_def core_ok_def)
qed

lemma next_stage_frame [simp]:
  "ia_id (next_stage now st reason bytes terminal a) = ia_id a" "ia_sid (next_stage now st reason bytes terminal a) = ia_sid a"
  "ia_stage (next_stage now st reason bytes terminal a) = st"
  by (simp_all add: next_stage_def)

lemma finished_frame [simp]: "ia_id (finished_action now w a) = ia_id a" "ia_sid (finished_action now w a) = ia_sid a"
  by (simp_all add: finished_action_def)

text \<open>Sending: the call leaves the phases that may send, and its pair is new.\<close>

lemma send_ok:
  assumes ok: "core_ok c" and n: "jm_get (co_calls c) n = Some (Marking a)"
  shows "core_ok ((move_call n (Sent a) c)\<lparr>co_sent := co_sent c @ [(ia_id a, ia_sid a)]\<rparr>)"
proof -
  have i: "jm_has (co_actions c) (ia_id a)" using recordD [OF ok n] by simp
  have m: "core_ok (move_call n (Sent a) c)"
    by (rule move_ok [OF ok n]) (use i in simp_all)
  have new: "(ia_id a, ia_sid a) \<notin> set (co_sent c)"
    using unsentD [OF ok n] by simp
  have others: "call_sid p \<noteq> ia_sid a" if "jm_get (co_calls (move_call n (Sent a) c)) k = Some p" "may_send p" for k p
  proof
    assume "call_sid p = ia_sid a"
    then have "k = n" by (intro onlyD [OF m that(1), where q = "Sent a"]) (simp_all add: move_call_def)
    with that show False by (auto simp: move_call_def)
  qed
  let ?m = "move_call n (Sent a) c"
  have old: "sent_once (co_actions c) (co_calls ?m) (co_sent c)"
    using m by (simp add: core_ok_def move_call_def)
  have "sent_once (co_actions c) (co_calls ?m) (co_sent c @ [(ia_id a, ia_sid a)])"
    unfolding sent_once_def
  proof (intro conjI allI impI)
    show "distinct (co_sent c @ [(ia_id a, ia_sid a)])" using old new by (simp add: sent_once_def)
  next
    fix j s
    assume "(j, s) \<in> set (co_sent c @ [(ia_id a, ia_sid a)])"
    then show "jm_has (co_actions c) j" using old i by (auto simp: sent_once_def)
  next
    fix j s k p
    assume "(j, s) \<in> set (co_sent c @ [(ia_id a, ia_sid a)])" and k: "jm_get (co_calls ?m) k = Some p" "may_send p" "call_id p = j"
    then consider "(j, s) \<in> set (co_sent c)" | "s = ia_sid a" by auto
    then show "call_sid p \<noteq> s" using old k others [OF k(1,2)] by cases (auto simp: sent_once_def)
  qed
  with m show ?thesis by (simp add: core_ok_def move_call_def)
qed

lemma commit_ok: "core_ok c \<Longrightarrow> core_ok (commit_done n out obs own now c)"
proof (cases "jm_get (co_calls c) n")
  case (Some p)
  assume ok: "core_ok c"
  note s = save_ok [OF ok]
  have n: "jm_get (co_calls (saveRecord out a h c)) n = Some p" for a h using Some by simp
  show ?thesis
  proof (cases p)
    case (Preparing a held)
    have "core_ok (move_call n (Refusing (next_stage now RefusedStage x y True a)) (saveRecord Committed a held c))"
      "core_ok (move_call n (Marking (next_stage now DispatchedStage x y False a)) (saveRecord Committed a held c))" for x y
      by (rule move_ok [OF s], use Some Preparing in simp, simp_all add: Preparing)+
    then show ?thesis using Some Preparing s
      by (auto simp: commit_done_def Let_def finish_ok split: option.splits)
  next
    case (Marking a)
    show ?thesis using Some Marking s send_ok [OF s [of Committed a None], of n a]
      by (simp add: commit_done_def Let_def finish_ok)
  qed (use Some ok s in \<open>auto simp: commit_done_def finish_ok\<close>)
qed (simp add: commit_done_def)

lemma dispatch_ok: "core_ok c \<Longrightarrow> core_ok (dispatch_done n w now c)"
proof (cases "jm_get (co_calls c) n")
  case (Some p)
  assume ok: "core_ok c"
  show ?thesis
  proof (cases p)
    case (Sent a)
    have "core_ok (move_call n (Finishing (finished_action now w a)) c)"
      by (rule move_ok [OF ok Some])
         (use recordD [OF ok Some] Sent in simp_all)
    then show ?thesis using Some Sent by (simp add: dispatch_done_def)
  qed (use Some ok in \<open>simp_all add: dispatch_done_def\<close>)
qed (simp add: dispatch_done_def)

lemma crash_ok: "core_ok c \<Longrightarrow> core_ok (crash c)"
  by (auto simp: crash_def core_parts)

interpretation interaction: op_machine "apply_event sha" "\<lambda>_. True" core_ok for sha
proof
  fix x c
  assume "core_ok c"
  then show "core_ok (apply_event sha x c)"
    by (cases x) (simp_all add: begin_ok commit_ok dispatch_ok crash_ok)
qed

lemma start_ok: "core_ok (start_core acts helds)"
  by (simp add: start_core_def core_parts)

text \<open>
  C35. An action is handed to a session's writer at most once in the life of its ledger: however calls
  interleave, commits fail or are lost, writers answer and the process crashes and restarts, no pair of
  action id and session is ever dispatched a second time.
\<close>

theorem interaction_at_most_once:
  "distinct (co_sent (fold (apply_event sha) events (start_core acts helds)))"
  using interaction.run_keeps [of events "start_core acts helds" sha] start_ok
  by (simp add: list_all_iff core_ok_def sent_once_def)

section \<open>Durable before sent\<close>

text \<open>A call that is marking carries a record in the dispatched stage.\<close>

definition marking_staged :: "core \<Rightarrow> bool" where
  "marking_staged c \<longleftrightarrow> (\<forall>n a. jm_get (co_calls c) n = Some (Marking a) \<longrightarrow> ia_stage a = DispatchedStage)"

lemma staged_event: "marking_staged c \<Longrightarrow> marking_staged (apply_event sha x c)"
  by (cases x) (auto simp: marking_staged_def begin_call_def commit_done_def dispatch_done_def crash_def finish_call_def
      move_call_def Let_def split: option.splits sum.splits act_phase.splits if_splits)

interpretation staging: op_machine "apply_event sha" "\<lambda>_. True" marking_staged for sha
  by unfold_locales (rule staged_event)

text \<open>
  C36. Nothing is dispatched that is not durable first: whenever an event of a run dispatches a pair,
  the ledger then holds, committed, that action's record for that session in the dispatched stage,
  so after a crash the session is found busy and the action is not prepared again.
\<close>

theorem dispatch_after_durable_record:
  fixes sha events acts helds x
  defines "c \<equiv> fold (apply_event sha) events (start_core acts helds)"
  shows "co_sent (apply_event sha x c) = co_sent c
    \<or> (\<exists>a. co_sent (apply_event sha x c) = co_sent c @ [(ia_id a, ia_sid a)]
        \<and> jm_get (co_actions (apply_event sha x c)) (ia_id a) = Some a \<and> ia_stage a = DispatchedStage
        \<and> isBusy (ia_sid a) (crash (apply_event sha x c)))"
proof -
  have st: "marking_staged c"
    unfolding c_def by (rule staging.run_keeps) (simp_all add: list_all_iff marking_staged_def start_core_def)
  show ?thesis
  proof (cases "\<exists>n out obs own now a. x = CommitDone n out obs own now \<and> jm_get (co_calls c) n = Some (Marking a) \<and> out = Committed")
    case True
    then obtain n obs own now a where x: "x = CommitDone n Committed obs own now" and n: "jm_get (co_calls c) n = Some (Marking a)"
      by blast
    let ?d = "apply_event sha x c"
    have "co_sent ?d = co_sent c @ [(ia_id a, ia_sid a)]" "jm_get (co_actions ?d) (ia_id a) = Some a"
      using n by (simp_all add: x commit_done_def Let_def saveRecord_def move_call_def)
    moreover have "ia_stage a = DispatchedStage" using st n by (simp add: marking_staged_def)
    moreover from calculation have "isBusy (ia_sid a) (crash ?d)"
      by (force simp: isBusy_def uncertain_def crash_def list_ex_iff dest: map_of_SomeD)
    ultimately show ?thesis by blast
  next
    case False
    then have "co_sent (apply_event sha x c) = co_sent c"
      by (cases x) (auto simp: begin_call_def commit_done_def dispatch_done_def crash_def finish_call_def
          move_call_def Let_def split: option.splits sum.splits act_phase.splits if_splits)
    then show ?thesis ..
  qed
qed

section \<open>An action id shared by two sessions\<close>

text \<open>A complete request, observation and owner binding for a session, for concrete runs.\<close>

definition sample_fence :: "string \<Rightarrow> (string \<times> json) list" where
  "sample_fence sid = [(''sid'', vtext sid), (''session_epoch'', vtext ''e''), (''credential_generation'', VInt 1),
     (''owner_generation'', vtext ''o''), (''input_generation'', VInt 1), (''geometry_generation'', VInt 1),
     (''prompt_revision'', VInt 1), (''frame_digest'', VStr (replicate 64 97)), (''surface_id'', vtext ''s''),
     (''cols'', VInt 80), (''rows'', VInt 24), (''question_id'', vtext ''q'')]"

definition sample_request :: "string \<Rightarrow> string \<Rightarrow> json" where
  "sample_request aid sid = VObj [(''schema_version'', VInt 1), (''action_id'', vtext aid), (''interaction_request_id'', vtext ''i''),
     (''identity'', VObj [(''kind'', vtext ''manual''), (''sid'', vtext sid)]), (''expected'', VObj (sample_fence sid)),
     (''operation'', vtext ''key''), (''value'', vtext ''enter''),
     (''authority'', VObj [(''provenance'', vtext ''controller-policy''), (''reference'', vtext ''r'')]),
     (''expires_at'', VInt 1000)]"

definition sample_prompt :: "string \<Rightarrow> json" where
  "sample_prompt sid = VObj (sample_fence sid @ [(''available'', VBool True), (''current_frame'', VBool True),
     (''provenance'', vtext ''measured-provider''), (''expires_at'', VInt 2000), (''routine'', VBool True),
     (''mode'', vtext ''menu''), (''supported_operations'', VArr [vtext ''key''])])"

definition sample_binding :: "string \<Rightarrow> json option" where
  "sample_binding sid = Some (VObj (sample_fence sid))"

definition sample_env :: "string \<Rightarrow> begin_env" where
  "sample_env sid = \<lparr>be_now = 10, be_authorized = True, be_ledger = True, be_reserved = True,
     be_binding = sample_binding sid, be_task = None\<rparr>"

definition sample_commit :: "nat \<Rightarrow> string \<Rightarrow> event" where
  "sample_commit n sid = CommitDone n Committed (Some (sample_prompt sid)) (sample_binding sid) 20"

text \<open>
  The at-most-once promise is per session, not per action id: a second request with the same id
  for another session passes the duplicate check while the first is still committing its record.
  Both are dispatched, the second record replaces the first, and after a crash the first session,
  whose outcome nobody knows, counts as free.
\<close>

theorem action_id_shared_by_two_sessions:
  "let c = fold (apply_event id)
     [Begin 0 (sample_request ''x'' ''a'') (sample_env ''a''), Begin 1 (sample_request ''x'' ''b'') (sample_env ''b''),
      sample_commit 0 ''a'', sample_commit 1 ''b'', sample_commit 0 ''a'', sample_commit 1 ''b''] (start_core [] [])
   in co_sent c = [(units_of ''x'', units_of ''a''), (units_of ''x'', units_of ''b'')]
      \<and> \<not> isBusy (units_of ''a'') (crash c) \<and> isBusy (units_of ''b'') (crash c)"
  by code_simp
end
