(* ===== verification/Interaction_Writer.thy ===== *)
theory Interaction_Writer
  imports Interaction_Laws
begin

text \<open>
  \<open>createInteractionWriter\<close>: the session's side, a synchronous handler that turns an authenticated
  frame into bytes at most once, and \<open>invalidateInteraction\<close>. What it is given for a frame (the clock,
  the fresh observation and binding, the encoder's bytes, whether the write threw) is the frame's environment.
\<close>

record writer =
  wr_receipts :: "(units, units \<times> write_answer) jsmap"
  wr_consumed :: "units option"
  wr_written :: "(units \<times> units \<times> units) list"

definition new_writer :: writer where
  "new_writer = \<lparr>wr_receipts = [], wr_consumed = None, wr_written = []\<rparr>"

record writer_frame =
  fm_request :: json
  fm_digest :: units
  fm_now :: int
  fm_observation :: "json option"
  fm_binding :: "json option"
  fm_bytes :: "units option"
  fm_write_ok :: bool

datatype writer_reply = WRefused string | WReceipt write_answer

text \<open>The identity of the observed prompt, from the validated observation only.\<close>

definition prompt_revision :: "(units \<Rightarrow> units) \<Rightarrow> json option \<Rightarrow> units" where
  "prompt_revision sha obs = digest sha (VObj (List.map_filter
     (\<lambda>k. map_option (\<lambda>v. (k, v)) (ofld obs k)) (FENCE_FIELDS @ [''question_id''])))"

definition unknown_answer :: write_answer where
  "unknown_answer = \<lparr>wa_stage = ''outcome_unknown'', wa_bytes = None, wa_reason = Some ''outcome_unknown''\<rparr>"

definition written_answer :: "int \<Rightarrow> write_answer" where
  "written_answer n = \<lparr>wa_stage = ''written'', wa_bytes = Some n, wa_reason = None\<rparr>"

text \<open>The last part: encode, remember the attempt, write. A write that throws leaves the unknown answer.\<close>

definition write_bytes :: "writer_frame \<Rightarrow> units \<Rightarrow> units \<Rightarrow> units \<Rightarrow> writer \<Rightarrow> writer_reply \<times> writer" where
  "write_bytes f aid hash prompt w =
     (case fm_bytes f of None \<Rightarrow> (WRefused ''unsupported_capability'', w)
      | Some bytes \<Rightarrow>
        if bytes = [] \<or> byte_length bytes > 8192 then (WRefused ''unsupported_capability'', w)
        else let answer = (if fm_write_ok f then written_answer (byte_length bytes) else unknown_answer) in
          (WReceipt answer, w\<lparr>wr_receipts := jm_set aid (hash, answer) (wr_receipts w), wr_consumed := Some prompt,
             wr_written := wr_written w @ [(aid, prompt, bytes)]\<rparr>))"

text \<open>A frame seen for the first time.\<close>

definition handle_new :: "(units \<Rightarrow> units) \<Rightarrow> writer_frame \<Rightarrow> writer \<Rightarrow> writer_reply \<times> writer" where
  "handle_new sha f w =
     (let r = fm_request f; prompt = prompt_revision sha (fm_observation f) in
      case validateRequest r (fm_now f) of
        Some e \<Rightarrow> (WRefused e, w)
      | None \<Rightarrow>
        if length (wr_receipts w) \<ge> 10000 then (WRefused ''busy'', w)
        else case validateObservation r (fm_observation f) (fm_binding f) (fm_now f) of
          Some reason \<Rightarrow> (WRefused reason, w)
        | None \<Rightarrow>
          if wr_consumed w = Some prompt then (WRefused ''stale_prompt'', w)
          else write_bytes f (text_of (fld r ''action_id'')) (digest sha r) prompt w)"

definition handle :: "(units \<Rightarrow> units) \<Rightarrow> writer_frame \<Rightarrow> writer \<Rightarrow> writer_reply \<times> writer" where
  "handle sha f w =
     (let r = fm_request f; err = validateRequest r (fm_now f); hash = digest sha r in
      if err \<notin> {None, Some ''expired''} then (WRefused (the err), w)
      else if hash \<noteq> fm_digest f then (WRefused ''payload_conflict'', w)
      else case jm_get (wr_receipts w) (text_of (fld r ''action_id'')) of
        Some (prior_hash, prior) \<Rightarrow>
          (if prior_hash = hash then WReceipt prior else WRefused ''payload_conflict'', w)
      | None \<Rightarrow> handle_new sha f w)"

record interaction_state =
  is_input_generation :: int
  is_geometry_generation :: int
  is_invalidation :: "string option"

definition invalidateInteraction :: "string \<Rightarrow> interaction_state \<Rightarrow> interaction_state" where
  "invalidateInteraction reason s = s\<lparr>is_input_generation := is_input_generation s + 1,
     is_geometry_generation := (if reason = ''resize'' then is_geometry_generation s + 1 else is_geometry_generation s),
     is_invalidation := Some reason\<rparr>"

section \<open>One physical effect per action and per prompt\<close>

text \<open>Every byte sequence written has a receipt, no action twice, no prompt twice in a row.\<close>

fun no_repeat :: "'a list \<Rightarrow> bool" where
  "no_repeat (x # y # xs) = (x \<noteq> y \<and> no_repeat (y # xs))"
| "no_repeat _ = True"

lemma no_repeat_snoc: "no_repeat (xs @ [x]) \<longleftrightarrow> no_repeat xs \<and> (xs \<noteq> [] \<longrightarrow> last xs \<noteq> x)"
  by (induction xs rule: no_repeat.induct) auto

definition writer_ok :: "writer \<Rightarrow> bool" where
  "writer_ok w \<longleftrightarrow> distinct (map fst (wr_written w))
     \<and> list_all (jm_has (wr_receipts w)) (map fst (wr_written w))
     \<and> no_repeat (map (fst \<circ> snd) (wr_written w))
     \<and> (wr_written w \<noteq> [] \<longrightarrow> wr_consumed w = Some (fst (snd (last (wr_written w)))))"

definition wrote :: "(units \<Rightarrow> units) \<Rightarrow> writer_frame \<Rightarrow> writer \<Rightarrow> writer \<Rightarrow> bool" where
  "wrote sha f w w' \<longleftrightarrow> (\<exists>aid prompt bytes x. \<not> jm_has (wr_receipts w) aid \<and> wr_consumed w \<noteq> Some prompt
     \<and> validateRequest (fm_request f) (fm_now f) = None
     \<and> validateObservation (fm_request f) (fm_observation f) (fm_binding f) (fm_now f) = None
     \<and> w' = w\<lparr>wr_receipts := jm_set aid x (wr_receipts w), wr_consumed := Some prompt,
          wr_written := wr_written w @ [(aid, prompt, bytes)]\<rparr>)"

lemma write_bytes_writes:
  "snd (write_bytes f aid hash prompt w) = w \<or> (\<exists>bytes x. snd (write_bytes f aid hash prompt w) =
     w\<lparr>wr_receipts := jm_set aid x (wr_receipts w), wr_consumed := Some prompt, wr_written := wr_written w @ [(aid, prompt, bytes)]\<rparr>)"
  by (auto simp: write_bytes_def Let_def split: option.splits)

lemma handle_new_writes:
  assumes new: "\<not> jm_has (wr_receipts w) (text_of (fld (fm_request f) ''action_id''))"
  shows "snd (handle_new sha f w) = w \<or> wrote sha f w (snd (handle_new sha f w))"
proof (cases "validateRequest (fm_request f) (fm_now f) = None \<and> length (wr_receipts w) < 10000
    \<and> validateObservation (fm_request f) (fm_observation f) (fm_binding f) (fm_now f) = None
    \<and> wr_consumed w \<noteq> Some (prompt_revision sha (fm_observation f))")
  case True
  then have "handle_new sha f w = write_bytes f (text_of (fld (fm_request f) ''action_id'')) (digest sha (fm_request f))
      (prompt_revision sha (fm_observation f)) w"
    by (simp add: handle_new_def Let_def)
  with True new write_bytes_writes show ?thesis unfolding wrote_def by metis
next
  case False
  then have "snd (handle_new sha f w) = w"
    by (auto simp: handle_new_def Let_def not_less split: option.split)
  then show ?thesis ..
qed

lemma handle_writes: "snd (handle sha f w) = w \<or> wrote sha f w (snd (handle sha f w))"
proof (cases "jm_get (wr_receipts w) (text_of (fld (fm_request f) ''action_id''))")
  case None
  then have "snd (handle sha f w) \<in> {w, snd (handle_new sha f w)}" by (simp add: handle_def Let_def)
  with handle_new_writes [of w f sha] None show ?thesis by (auto simp: jm_has_def)
next
  case (Some x)
  then show ?thesis by (cases x) (simp add: handle_def Let_def)
qed

lemma receipt_add [simp]: "jm_has (jm_set k v m) k' \<longleftrightarrow> k' = k \<or> jm_has m k'"
  by (simp add: jm_has_def)

lemma handle_ok: "writer_ok w \<Longrightarrow> writer_ok (snd (handle sha f w))"
proof -
  assume ok: "writer_ok w"
  show ?thesis
  proof (cases "snd (handle sha f w) = w")
    case False
    then obtain aid prompt bytes x where new: "\<not> jm_has (wr_receipts w) aid" "wr_consumed w \<noteq> Some prompt"
      and w': "snd (handle sha f w) = w\<lparr>wr_receipts := jm_set aid x (wr_receipts w), wr_consumed := Some prompt,
        wr_written := wr_written w @ [(aid, prompt, bytes)]\<rparr>"
      using handle_writes [of sha f w] unfolding wrote_def by blast
    have "aid \<notin> set (map fst (wr_written w))" using ok new(1) unfolding writer_ok_def list_all_iff by blast
    moreover have "list_all (jm_has (jm_set aid x (wr_receipts w))) (map fst (wr_written w))"
      using ok unfolding writer_ok_def list_all_iff by simp
    ultimately show ?thesis using ok new(2) by (auto simp: w' writer_ok_def no_repeat_snoc last_map)
  qed (use ok in simp)
qed

interpretation interaction_writer: op_machine "\<lambda>f w. snd (handle sha f w)" "\<lambda>_. True" writer_ok for sha
  by unfold_locales (rule handle_ok)

text \<open>
  C37. Whatever frames arrive, in whatever order and however often, no action's bytes are written
  twice, and no prompt is answered twice in a row.
\<close>

theorem writer_writes_once:
  "let w = fold (\<lambda>f w. snd (handle sha f w)) frames new_writer in
     distinct (map fst (wr_written w)) \<and> no_repeat (map (fst \<circ> snd) (wr_written w))"
  using interaction_writer.run_keeps [of frames new_writer sha]
  by (simp add: Let_def list_all_iff writer_ok_def new_writer_def)


definition sample_frame :: writer_frame where
  "sample_frame = \<lparr>fm_request = sample_request ''x'' ''a'', fm_digest = canonical (sample_request ''x'' ''a''), fm_now = 20,
     fm_observation = Some (sample_prompt ''a''), fm_binding = sample_binding ''a'', fm_bytes = Some [13],
     fm_write_ok = True\<rparr>"


end
