(* ===== verification/Vt_Screen.thy ===== *)
theory Vt_Screen
  imports Js_Json
begin

text \<open>
  \<open>src/vt/session-screen.js\<close>: the terminal grid kept beside a session's output. The terminal
  itself (\<open>@xterm/headless\<close>) is third-party code: a value of \<open>vterm\<close> says which of its calls
  return and what its buffer shows, as functions of the calls made on it so far, and a generation
  holds its terminal as the list of those calls. Every operation takes its own \<open>vterm\<close>, so the
  library may appear, fail or recover between two of them. A field of an incoming message is the
  JSON value it carries, absent or of any type. Counters are UTF-16 code units.
\<close>

section \<open>Bounds\<close>

definition VT_MIN_DIMENSION :: int where "VT_MIN_DIMENSION = 1"
definition VT_MAX_DIMENSION :: int where "VT_MAX_DIMENSION = 1000"
definition VT_QUEUE_MAX_UNITS :: int where "VT_QUEUE_MAX_UNITS = 1048576"
definition VT_QUEUE_MAX_OPS :: int where "VT_QUEUE_MAX_OPS = 4096"
definition VT_MAX_WRITE_CHUNK_UNITS :: int where "VT_MAX_WRITE_CHUNK_UNITS = 65536"
definition VT_MAX_ROW_CHARS_PER_COL :: int where "VT_MAX_ROW_CHARS_PER_COL = 8"
definition VT_MAX_SNAPSHOT_BYTES :: int where "VT_MAX_SNAPSHOT_BYTES = 262144"
definition VT_CELL_AUDIT_INTERVAL_UNITS :: int where "VT_CELL_AUDIT_INTERVAL_UNITS = 262144"
definition VT_MAX_GRID_UNITS :: int where "VT_MAX_GRID_UNITS = 2097152"
definition VT_DRAIN_WAIT_MS :: int where "VT_DRAIN_WAIT_MS = 250"
definition VT_DRAIN_WAIT_MAX_MS :: int where "VT_DRAIN_WAIT_MAX_MS = 1000"
definition VT_MAX_STREAM_ID_UNITS :: int where "VT_MAX_STREAM_ID_UNITS = 256"
definition VT_OVERLAP_WINDOW_UNITS :: int where "VT_OVERLAP_WINDOW_UNITS = 65536"

section \<open>Data\<close>

datatype completeness = Complete | PartialAttach | PartialRestore | PartialLoss

primrec COMPLETENESS_RANK :: "completeness \<Rightarrow> nat" where
  "COMPLETENESS_RANK Complete = 0"
| "COMPLETENESS_RANK PartialAttach = 1"
| "COMPLETENESS_RANK PartialRestore = 2"
| "COMPLETENESS_RANK PartialLoss = 3"

datatype continuity = Verified | Unverified | Conflicting | Invalid

primrec CONTINUITY_RANK :: "continuity \<Rightarrow> nat" where
  "CONTINUITY_RANK Verified = 0"
| "CONTINUITY_RANK Unverified = 1"
| "CONTINUITY_RANK Conflicting = 2"
| "CONTINUITY_RANK Invalid = 3"

datatype gen_cause = StreamOrigin | AttachedMidStream | StreamChanged | OwnerReplaced | RecordReplaced | Restored

definition ORIGIN_ELIGIBLE_CAUSES :: "gen_cause set" where
  "ORIGIN_ELIGIBLE_CAUSES = {StreamOrigin, AttachedMidStream, StreamChanged}"

datatype geo_source = LocalPty | BridgeReported | GeoUnverified | GeoInvalid

definition VALID_GEOMETRY_SOURCES :: "geo_source set" where
  "VALID_GEOMETRY_SOURCES = {LocalPty, BridgeReported}"

text \<open>The valid source a field names, if it does.\<close>

definition valid_source :: "json option \<Rightarrow> geo_source option" where
  "valid_source v = (if is_text v ''local_pty'' then Some LocalPty
     else if is_text v ''bridge_reported'' then Some BridgeReported else None)"

text \<open>The reasons a generation can be degraded for, in the order of their names.\<close>

datatype vt_reason = CellAuditFailed | CellGrowthBoundExceeded | DropBoundsInvalid | ExplicitDrop | Gap
  | GenerationStopped | GeometryAtUnitsInvalid | GeometryAtUnitsUnattested | GeometryBoundaryMismatch
  | GeometryInvalid | GeometryPendingUnusable | GeometryStreamMismatch | InvalidOutputPayload
  | InvalidStreamId | InvalidStreamOffset | NoVtObservation | OverlapConflict | OverlapUnverifiable
  | QueueOverflow | QueueOverflowOp | RestoredNoVtState | RowTruncated | SnapshotFailed | SnapshotTruncated
  | VtConstructFailed | VtDisposed | VtLibraryInvalid | VtLibraryUnavailable | VtResizeFailed | VtWriteFailed

definition reasons_in_order :: "vt_reason list" where
  "reasons_in_order = [CellAuditFailed, CellGrowthBoundExceeded, DropBoundsInvalid, ExplicitDrop, Gap,
     GenerationStopped, GeometryAtUnitsInvalid, GeometryAtUnitsUnattested, GeometryBoundaryMismatch,
     GeometryInvalid, GeometryPendingUnusable, GeometryStreamMismatch, InvalidOutputPayload,
     InvalidStreamId, InvalidStreamOffset, NoVtObservation, OverlapConflict, OverlapUnverifiable,
     QueueOverflow, QueueOverflowOp, RestoredNoVtState, RowTruncated, SnapshotFailed, SnapshotTruncated,
     VtConstructFailed, VtDisposed, VtLibraryInvalid, VtLibraryUnavailable, VtResizeFailed, VtWriteFailed]"

text \<open>The operations of the one queue. \<open>atUnits\<close> is \<open>None\<close> for an unattested boundary.\<close>

record resize_op =
  rz_cols :: int
  rz_rows :: int
  rz_stream :: "units option"
  rz_at :: "int option"
  rz_anchor :: int
  rz_self_stamped :: bool
  rz_unattested :: bool
  rz_source :: geo_source

datatype vt_op =
    OutOp units int
  | ResizeOp resize_op
  | DropOp "units option" int int

text \<open>The units of an operation; only output has any.\<close>

primrec op_units :: "vt_op \<Rightarrow> int" where
  "op_units (OutOp d _) = int (length d)"
| "op_units (ResizeOp _) = 0"
| "op_units (DropOp _ _ _) = 0"

primrec is_output :: "vt_op \<Rightarrow> bool" where
  "is_output (OutOp _ _) = True"
| "is_output (ResizeOp _) = False"
| "is_output (DropOp _ _ _) = False"

section \<open>The terminal library\<close>

datatype term_call = TNew int int | TWrite units | TResize int int

datatype lib_state = LibMissing | LibInvalid | LibReady

text \<open>
  What the buffer shows: its kind, the cursor, and for each visible row the text with its trailing
  blanks and without.
\<close>

record grid =
  gr_alternate :: bool
  gr_cursor :: "int \<times> int"
  gr_full :: "nat \<Rightarrow> units option"
  gr_text :: "nat \<Rightarrow> units option"

record vterm =
  vt_lib :: lib_state
  vt_makes :: "int \<Rightarrow> int \<Rightarrow> bool"
  vt_writes :: "term_call list \<Rightarrow> units \<Rightarrow> bool"
  vt_resizes :: "term_call list \<Rightarrow> int \<Rightarrow> int \<Rightarrow> bool"
  vt_view :: "term_call list \<Rightarrow> grid option"

section \<open>Small validators\<close>

definition isSafeOffset :: "json option \<Rightarrow> bool" where
  "isSafeOffset v \<longleftrightarrow> (case v of Some (VInt n) \<Rightarrow> 0 \<le> n \<and> n \<le> max_safe_integer | _ \<Rightarrow> False)"

definition sanitizeDimension :: "json option \<Rightarrow> int option" where
  "sanitizeDimension v = (case to_number v of None \<Rightarrow> None
     | Some n \<Rightarrow> if n < VT_MIN_DIMENSION \<or> n > VT_MAX_DIMENSION then None else Some n)"

definition sanitizeStreamId :: "json option \<Rightarrow> units option" where
  "sanitizeStreamId v = (case v of
     Some (VStr s) \<Rightarrow> if length s = 0 \<or> int (length s) > VT_MAX_STREAM_ID_UNITS then None else Some s
   | _ \<Rightarrow> None)"

text \<open>On an integral wait; any other one only changes how long the read waits.\<close>

definition clampDrainWait :: "int option \<Rightarrow> int" where
  "clampDrainWait v = (case v of None \<Rightarrow> VT_DRAIN_WAIT_MS
     | Some n \<Rightarrow> if n < 0 then VT_DRAIN_WAIT_MS else min n VT_DRAIN_WAIT_MAX_MS)"

definition safeSplitIndex :: "units \<Rightarrow> nat \<Rightarrow> nat" where
  "safeSplitIndex s n = (if n \<ge> length s then length s else if high_surrogate (s ! (n - 1)) then n - 1 else n)"

text \<open>\<open>undefined\<close> or \<open>null\<close>: the field was not sent.\<close>

definition absent :: "json option \<Rightarrow> bool" where
  "absent v \<longleftrightarrow> v = None \<or> v = Some VNull"

section \<open>A generation\<close>

record gen =
  gn_index :: int
  gn_cause :: gen_cause
  gn_local :: bool
  gn_stream :: "units option"
  gn_cols :: "int option"
  gn_rows :: "int option"
  gn_geo :: geo_source
  gn_geo_first :: bool
  gn_complete :: completeness
  gn_cont :: continuity
  gn_cont_degraded :: bool
  gn_origin :: bool
  gn_reasons :: "vt_reason set"
  gn_observed :: int
  gn_applied :: int
  gn_dropped :: int
  gn_queued :: int
  gn_pos :: "int option"
  gn_queue :: "vt_op list"
  gn_writing :: bool
  gn_waiters :: "int list"
  gn_woken :: "int list"
  gn_tail :: units
  gn_tail_start :: "int option"
  gn_audit :: int
  gn_stopped :: bool
  gn_term :: "term_call list option"

definition add_reason :: "vt_reason \<Rightarrow> gen \<Rightarrow> gen" where
  "add_reason r g = g\<lparr>gn_reasons := insert r (gn_reasons g)\<rparr>"

definition degradeCompleteness :: "completeness \<Rightarrow> gen \<Rightarrow> gen" where
  "degradeCompleteness v g =
     (if COMPLETENESS_RANK v > COMPLETENESS_RANK (gn_complete g) then g\<lparr>gn_complete := v\<rparr> else g)"

definition degradeContinuity :: "continuity \<Rightarrow> gen \<Rightarrow> gen" where
  "degradeContinuity v g =
     (let g1 = g\<lparr>gn_cont_degraded := True\<rparr> in
      if CONTINUITY_RANK v > CONTINUITY_RANK (gn_cont g) then g1\<lparr>gn_cont := v\<rparr> else g1)"

definition verifyContinuity :: "gen \<Rightarrow> gen" where
  "verifyContinuity g = (if gn_cont_degraded g then g else g\<lparr>gn_cont := Verified\<rparr>)"

definition noteLoss :: "int \<Rightarrow> vt_reason \<Rightarrow> gen \<Rightarrow> gen" where
  "noteLoss n r g =
     (let g1 = (if 0 < n \<and> n \<le> max_safe_integer
                then g\<lparr>gn_dropped := min (gn_dropped g + n) max_safe_integer\<rparr> else g)
      in degradeCompleteness PartialLoss (add_reason r g1))"

definition determineOrigin :: "int option \<Rightarrow> units option \<Rightarrow> gen \<Rightarrow> gen" where
  "determineOrigin off sid g =
     (if gn_origin g then g
      else let g1 = g\<lparr>gn_origin := True\<rparr> in
        if gn_complete g \<noteq> PartialAttach then g1
        else if gn_cause g \<notin> ORIGIN_ELIGIBLE_CAUSES then g1
        else if off \<noteq> Some 0 then g1
        else if \<not> gn_geo_first g then g1
        else if gn_geo g \<notin> VALID_GEOMETRY_SOURCES then g1
        else if gn_stream g \<noteq> None \<and> gn_stream g \<noteq> Some [] \<and> sid \<noteq> None \<and> sid \<noteq> Some [] \<and> gn_stream g \<noteq> sid then g1
        else if gn_reasons g \<noteq> {} then g1
        else g1\<lparr>gn_complete := Complete\<rparr>)"

definition releaseDrainWaiters :: "gen \<Rightarrow> gen" where
  "releaseDrainWaiters g = g\<lparr>gn_woken := gn_woken g @ gn_waiters g, gn_waiters := []\<rparr>"

text \<open>\<open>_ensureTerminal\<close>: a terminal is made when there is none and none was stopped.\<close>

definition ensureTerminal :: "vterm \<Rightarrow> gen \<Rightarrow> gen" where
  "ensureTerminal T g =
     (if gn_term g \<noteq> None \<or> gn_stopped g then g
      else case vt_lib T of
        LibInvalid \<Rightarrow> add_reason VtLibraryInvalid g
      | LibMissing \<Rightarrow> add_reason VtLibraryUnavailable g
      | LibReady \<Rightarrow>
          (let c = (case gn_cols g of None \<Rightarrow> 80 | Some c \<Rightarrow> c); r = (case gn_rows g of None \<Rightarrow> 24 | Some r \<Rightarrow> r) in
           if vt_makes T c r then g\<lparr>gn_term := Some [TNew c r], gn_cols := Some c, gn_rows := Some r\<rparr>
           else add_reason VtConstructFailed g))"

section \<open>The head of the queue\<close>

definition applyResize :: "vterm \<Rightarrow> resize_op \<Rightarrow> gen \<Rightarrow> gen" where
  "applyResize T op g =
     (if rz_stream op \<noteq> None \<and> gn_stream g \<noteq> None \<and> rz_stream op \<noteq> gn_stream g
      then add_reason GeometryStreamMismatch g
      else if \<not> rz_self_stamped op \<and> \<not> rz_unattested op \<and> rz_at op \<noteq> Some (rz_anchor op)
      then add_reason GeometryBoundaryMismatch (g\<lparr>gn_geo := GeoUnverified\<rparr>)
      else let g1 = (if rz_unattested op then add_reason GeometryAtUnitsUnattested g else g);
               src = (if rz_unattested op then GeoUnverified else rz_source op);
               g2 = ensureTerminal T g1 in
        case gn_term g2 of
          None \<Rightarrow> g2\<lparr>gn_cols := Some (rz_cols op), gn_rows := Some (rz_rows op), gn_geo := src\<rparr>
        | Some cs \<Rightarrow>
            (let g3 = g2\<lparr>gn_term := Some (cs @ [TResize (rz_cols op) (rz_rows op)])\<rparr> in
             if vt_resizes T cs (rz_cols op) (rz_rows op)
             then g3\<lparr>gn_cols := Some (rz_cols op), gn_rows := Some (rz_rows op), gn_geo := src,
                     gn_geo_first := (if \<not> rz_unattested op \<and> gn_observed g = 0 then True else gn_geo_first g)\<rparr>
             else (add_reason VtResizeFailed g3)\<lparr>gn_geo := GeoUnverified\<rparr>))"

definition applyDropped :: "int \<Rightarrow> int \<Rightarrow> gen \<Rightarrow> gen" where
  "applyDropped from_units to_units g =
     (let g1 = noteLoss (to_units - from_units) ExplicitDrop g;
          p = (case gn_pos g1 of None \<Rightarrow> 0 | Some p \<Rightarrow> p);
          g2 = (if to_units > p then g1\<lparr>gn_pos := Some to_units\<rparr> else g1)
      in g2\<lparr>gn_tail := [], gn_tail_start := Some to_units\<rparr>)"

fun run_heads :: "vterm \<Rightarrow> vt_op list \<Rightarrow> gen \<Rightarrow> gen" where
  "run_heads T [] g = g\<lparr>gn_queue := []\<rparr>"
| "run_heads T (OutOp d w # ops) g = g\<lparr>gn_queue := OutOp d w # ops\<rparr>"
| "run_heads T (ResizeOp op # ops) g = run_heads T ops (applyResize T op g)"
| "run_heads T (DropOp sid a b # ops) g = run_heads T ops (applyDropped a b g)"

text \<open>
  The chunk that the outputs at the head make: the text, the watermark and what is left of the
  queue. An output that does not fit is cut, never inside a surrogate pair.
\<close>

fun take_chunk :: "vt_op list \<Rightarrow> units \<Rightarrow> int \<Rightarrow> units \<times> int \<times> vt_op list" where
  "take_chunk (OutOp d w # ops) chunk mark =
     (if int (length chunk) \<ge> VT_MAX_WRITE_CHUNK_UNITS then (chunk, mark, OutOp d w # ops)
      else let room = VT_MAX_WRITE_CHUNK_UNITS - int (length chunk) in
        if int (length d) \<le> room then take_chunk ops (chunk @ d) w
        else let cut = safeSplitIndex d (nat room) in
          if cut = 0 then (chunk, mark, OutOp d w # ops)
          else (chunk @ take cut d, w - int (length d - cut), OutOp (drop cut d) w # ops))"
| "take_chunk ops chunk mark = (chunk, mark, ops)"

text \<open>A write's callback: the generation, the watermark and the length of what was written.\<close>

record vt_callback =
  cb_gen :: int
  cb_mark :: int
  cb_units :: int

definition write_chunk :: "vterm \<Rightarrow> units \<Rightarrow> int \<Rightarrow> gen \<Rightarrow> gen \<times> vt_callback option" where
  "write_chunk T chunk mark g =
     (let cs = (case gn_term g of None \<Rightarrow> [] | Some cs \<Rightarrow> cs);
          g1 = g\<lparr>gn_term := Some (cs @ [TWrite chunk])\<rparr> in
      if vt_writes T cs chunk
      then (g1\<lparr>gn_writing := True\<rparr>, Some \<lparr>cb_gen = gn_index g, cb_mark = mark, cb_units = int (length chunk)\<rparr>)
      else (releaseDrainWaiters (noteLoss (int (length chunk)) VtWriteFailed
              (add_reason VtWriteFailed (g1\<lparr>gn_writing := False\<rparr>))), None))"

definition pump :: "vterm \<Rightarrow> gen \<Rightarrow> gen \<times> vt_callback option" where
  "pump T g =
     (if gn_writing g \<or> gn_stopped g then (g, None)
      else let g1 = run_heads T (gn_queue g) g in
        if gn_queue g1 = [] then (releaseDrainWaiters g1, None)
        else let g2 = ensureTerminal T g1 in
          if gn_term g2 = None then (g2, None)
          else let (chunk, mark, rest) = take_chunk (gn_queue g2) [] (gn_applied g2);
                   g3 = g2\<lparr>gn_queue := rest, gn_queued := gn_queued g2 - int (length chunk)\<rparr> in
            if chunk = [] then (releaseDrainWaiters g3, None)
            else write_chunk T chunk mark g3)"

text \<open>
  \<open>_enqueue\<close>. The watermark of an output is the count of observed units it brings the generation
  to.
\<close>

definition enqueue_vt :: "vterm \<Rightarrow> vt_op \<Rightarrow> gen \<Rightarrow> gen \<times> vt_callback option" where
  "enqueue_vt T op g =
     (if gn_stopped g then (if is_output op then noteLoss (op_units op) GenerationStopped g else g, None)
      else if int (length (gn_queue g)) + 1 > VT_QUEUE_MAX_OPS \<or> gn_queued g + op_units op > VT_QUEUE_MAX_UNITS
      then (noteLoss (op_units op) (if is_output op then QueueOverflow else QueueOverflowOp) g, None)
      else let seen = gn_observed g + op_units op;
               op' = (case op of OutOp d _ \<Rightarrow> OutOp d seen | _ \<Rightarrow> op)
           in pump T (g\<lparr>gn_queue := gn_queue g @ [op'], gn_queued := gn_queued g + op_units op, gn_observed := seen\<rparr>))"

section \<open>Producers\<close>

record pending_geometry =
  pg_stream :: units
  pg_cols :: "int option"
  pg_rows :: "int option"
  pg_source :: geo_source
  pg_at :: "int option"
  pg_ambiguous :: bool

record screen =
  sc_session :: units
  sc_counter :: int
  sc_frame_seq :: int
  sc_disposed :: bool
  sc_restored :: bool
  sc_pending :: "pending_geometry option"
  sc_gen :: "gen option"
  sc_callbacks :: "vt_callback list"

record gen_options =
  go_cols :: "json option"
  go_rows :: "json option"
  go_source :: "json option"
  go_stream :: "json option"
  go_local :: bool
  go_restored :: bool

definition no_options :: gen_options where
  "no_options = \<lparr>go_cols = None, go_rows = None, go_source = None, go_stream = None, go_local = False, go_restored = False\<rparr>"

text \<open>
  \<open>_teardownGeneration\<close> drops the generation with its queue and terminal; a callback that is still
  due finds another generation, or none.
\<close>

definition teardownGeneration :: "screen \<Rightarrow> screen" where
  "teardownGeneration s = (if sc_gen s = None then s else s\<lparr>sc_pending := None, sc_gen := None\<rparr>)"

definition local_stream :: "units \<Rightarrow> int \<Rightarrow> units" where
  "local_stream session n = units_of ''local-'' @ session @ units_of ''-'' @ show_int n"

definition fresh_gen :: "int \<Rightarrow> units \<Rightarrow> gen_cause \<Rightarrow> gen_options \<Rightarrow> gen" where
  "fresh_gen n session cause opts =
     (let cols = sanitizeDimension (go_cols opts); rows = sanitizeDimension (go_rows opts);
          valid = cols \<noteq> None \<and> rows \<noteq> None \<and> valid_source (go_source opts) \<noteq> None;
          direct = cause = StreamOrigin \<and> go_local opts \<and> valid in
      \<lparr>gn_index = n, gn_cause = cause, gn_local = go_local opts,
       gn_stream = (case sanitizeStreamId (go_stream opts) of Some i \<Rightarrow> Some i
         | None \<Rightarrow> if go_local opts then Some (local_stream session n) else None),
       gn_cols = cols, gn_rows = rows,
       gn_geo = (if valid then the (valid_source (go_source opts)) else GeoUnverified), gn_geo_first = valid,
       gn_complete = (if cause = Restored then PartialRestore else if direct then Complete else PartialAttach),
       gn_cont = (if go_local opts then Verified else Unverified), gn_cont_degraded = False,
       gn_origin = (cause \<noteq> Restored \<and> (direct \<or> cause \<notin> ORIGIN_ELIGIBLE_CAUSES)),
       gn_reasons = {}, gn_observed = 0, gn_applied = 0, gn_dropped = 0, gn_queued = 0,
       gn_pos = (if go_local opts then Some 0 else None), gn_queue = [], gn_writing = False,
       gn_waiters = [], gn_woken = [], gn_tail = [], gn_tail_start = (if go_local opts then Some 0 else None),
       gn_audit = 0, gn_stopped = False, gn_term = None\<rparr>)"

definition restore_floor :: "bool \<Rightarrow> gen \<Rightarrow> gen" where
  "restore_floor restored g = (if restored then (degradeCompleteness PartialRestore g)\<lparr>gn_origin := True\<rparr> else g)"

definition refuse_geometry :: "gen_options \<Rightarrow> gen \<Rightarrow> gen" where
  "refuse_geometry opts g =
     (if \<not> gn_geo_first g \<and> (go_cols opts \<noteq> None \<or> go_rows opts \<noteq> None)
      then add_reason GeometryInvalid
        (g\<lparr>gn_geo := (if gn_cols g = None \<or> gn_rows g = None then GeoInvalid else GeoUnverified)\<rparr>)
      else g)"

text \<open>\<open>newGeneration\<close>; a cause that is none of the known ones is \<open>None\<close>.\<close>

definition newGeneration :: "vterm \<Rightarrow> gen_cause option \<Rightarrow> gen_options \<Rightarrow> screen \<Rightarrow> screen" where
  "newGeneration T cause opts s =
     (if sc_disposed s then s
      else let s1 = teardownGeneration s; n = sc_counter s + 1;
               restored = sc_restored s \<or> go_restored opts;
               c = (case cause of None \<Rightarrow> AttachedMidStream | Some c \<Rightarrow> c);
               g = refuse_geometry opts (restore_floor restored (fresh_gen n (sc_session s) c opts))
           in s1\<lparr>sc_counter := n, sc_restored := restored, sc_gen := Some (ensureTerminal T g)\<rparr>)"

definition new_screen :: "vterm \<Rightarrow> units \<Rightarrow> gen_cause option \<Rightarrow> gen_options \<Rightarrow> screen" where
  "new_screen T session cause opts = newGeneration T cause opts
     \<lparr>sc_session = session, sc_counter = 0, sc_frame_seq = 0, sc_disposed = False, sc_restored = go_restored opts,
      sc_pending = None, sc_gen = None, sc_callbacks = []\<rparr>"

text \<open>What an operation leaves of the current generation, and the callback it may have left due.\<close>

definition put_gen :: "screen \<Rightarrow> gen \<times> vt_callback option \<Rightarrow> screen" where
  "put_gen s p = s\<lparr>sc_gen := Some (fst p),
     sc_callbacks := sc_callbacks s @ (case snd p of None \<Rightarrow> [] | Some c \<Rightarrow> [c])\<rparr>"

definition parkPendingGeometry ::
    "units \<Rightarrow> json option \<Rightarrow> json option \<Rightarrow> json option \<Rightarrow> json option \<Rightarrow> pending_geometry option \<Rightarrow> pending_geometry" where
  "parkPendingGeometry sid cols0 rows0 at0 source0 prior =
     (let cols = sanitizeDimension cols0; rows = sanitizeDimension rows0;
          source = (case valid_source source0 of None \<Rightarrow> BridgeReported | Some x \<Rightarrow> x);
          at = (if isSafeOffset at0 then Some (num_of at0) else None);
          usable = cols \<noteq> None \<and> rows \<noteq> None \<and> at \<noteq> None;
          new = \<lparr>pg_stream = sid, pg_cols = cols, pg_rows = rows, pg_source = source, pg_at = at,
                 pg_ambiguous = (\<not> usable \<or> prior \<noteq> None)\<rparr> in
      case prior of
        Some p \<Rightarrow>
          if pg_stream p = sid
          then if \<not> usable \<or> pg_cols p \<noteq> cols \<or> pg_rows p \<noteq> rows \<or> pg_at p \<noteq> at then p\<lparr>pg_ambiguous := True\<rparr> else p
          else new
      | None \<Rightarrow> new)"

datatype taken = NothingParked | Unusable | Parked "int option" "int option" geo_source

definition takePendingGeometry :: "units \<Rightarrow> int option \<Rightarrow> pending_geometry option \<Rightarrow> taken \<times> pending_geometry option" where
  "takePendingGeometry sid off pending =
     (case pending of
        None \<Rightarrow> (NothingParked, None)
      | Some p \<Rightarrow>
          if pg_stream p \<noteq> sid then (NothingParked, pending)
          else if pg_ambiguous p \<or> off = None \<or> pg_at p \<noteq> off then (Unusable, None)
          else (Parked (pg_cols p) (pg_rows p) (pg_source p), None))"

subsection \<open>Output\<close>

text \<open>The retained window, its length and start kept in step.\<close>

definition retainOverlap :: "units \<Rightarrow> gen \<Rightarrow> gen" where
  "retainOverlap d g =
     (if gn_local g \<or> d = [] then g
      else let start = (case gn_tail_start g of Some a \<Rightarrow> a
                 | None \<Rightarrow> (case gn_pos g of None \<Rightarrow> 0 | Some p \<Rightarrow> max 0 (p - int (length d))));
               tail = gn_tail g @ d; excess = nat (int (length tail) - VT_OVERLAP_WINDOW_UNITS) in
        g\<lparr>gn_tail := drop excess tail, gn_tail_start := Some (start + int excess)\<rparr>)"

text \<open>A unit that was already seen: compared with the window where that is possible.\<close>

definition check_overlap :: "int \<Rightarrow> int \<Rightarrow> units \<Rightarrow> gen \<Rightarrow> gen" where
  "check_overlap off pos d g =
     (let span = min (pos - off) (int (length d)) in
      case gn_tail_start g of
        Some a \<Rightarrow>
          if off \<ge> a \<and> a + int (length (gn_tail g)) \<ge> off + span
          then if take (nat span) (drop (nat (off - a)) (gn_tail g)) \<noteq> take (nat span) d
               then degradeCompleteness PartialLoss (degradeContinuity Conflicting (add_reason OverlapConflict g))
               else g
          else degradeContinuity Unverified (add_reason OverlapUnverifiable g)
      | None \<Rightarrow> degradeContinuity Unverified (add_reason OverlapUnverifiable g))"

text \<open>
  Where a chunk of a bridged stream lies: what is left of it to apply, \<open>None\<close> when all of it is a
  replay, and the generation with its position moved.
\<close>

definition moved_to :: "int option \<Rightarrow> units option \<Rightarrow> units \<Rightarrow> gen \<Rightarrow> gen" where
  "moved_to off sid d g =
     (case off of None \<Rightarrow> g
      | Some k \<Rightarrow>
          (let g1 = g\<lparr>gn_pos := Some (k + int (length d))\<rparr> in if sid \<noteq> None then verifyContinuity g1 else g1))"

definition place_output :: "units option \<Rightarrow> int option \<Rightarrow> units \<Rightarrow> gen \<Rightarrow> gen \<times> units option" where
  "place_output sid off d g =
     (if off = None \<or> sid = None
      then let g1 = degradeContinuity Unverified g;
               g2 = (case gn_pos g1 of None \<Rightarrow> g1 | Some p \<Rightarrow> g1\<lparr>gn_pos := Some (p + int (length d))\<rparr>)
           in (moved_to off sid d g2, Some d)
      else case gn_pos g of
        None \<Rightarrow> (moved_to off sid d g, Some d)
      | Some p \<Rightarrow>
          if the off > p
          then (moved_to off sid d ((noteLoss (the off - p) Gap g)\<lparr>gn_tail := [], gn_tail_start := off\<rparr>), Some d)
          else if the off < p
          then let g1 = check_overlap (the off) p d g; rest = drop (nat (p - the off)) d in
            if rest = [] then (g1, None) else (moved_to off sid d g1, Some rest)
          else (moved_to off sid d g, Some d))"

definition accept_output :: "vterm \<Rightarrow> units option \<Rightarrow> int option \<Rightarrow> units \<Rightarrow> gen \<Rightarrow> gen \<times> vt_callback option" where
  "accept_output T sid off d g0 =
     (let g = (if gn_stream g0 = None then g0\<lparr>gn_stream := sid\<rparr> else g0);
          (g1, rest) = (if gn_local g
            then (g\<lparr>gn_pos := Some ((case gn_pos g of None \<Rightarrow> 0 | Some p \<Rightarrow> p) + int (length d))\<rparr>, Some d)
            else place_output sid off d g) in
      case rest of
        None \<Rightarrow> (g1, None)
      | Some payload \<Rightarrow>
          (let g2 = determineOrigin (if gn_local g1 then Some 0 else off) sid g1
           in enqueue_vt T (OutOp payload 0) (retainOverlap payload g2)))"

definition read_offset :: "json option \<Rightarrow> gen \<Rightarrow> gen \<times> int option" where
  "read_offset v g =
     (if absent v then (g, None)
      else if isSafeOffset v then (g, Some (num_of v))
      else (degradeContinuity Invalid (add_reason InvalidStreamOffset g), None))"

definition confirm_stream :: "vterm \<Rightarrow> units \<Rightarrow> int option \<Rightarrow> screen \<Rightarrow> screen" where
  "confirm_stream T sid off s =
     (let (t, pending) = takePendingGeometry sid off (sc_pending s);
          base = no_options\<lparr>go_stream := Some (VStr sid), go_source := Some (vtext ''unverified'')\<rparr>;
          opts = (case t of Parked c r src \<Rightarrow>
              base\<lparr>go_cols := map_option VInt c, go_rows := map_option VInt r,
                   go_source := Some (vtext (if src = LocalPty then ''local_pty'' else ''bridge_reported''))\<rparr>
            | _ \<Rightarrow> base);
          s1 = newGeneration T (Some StreamChanged) opts (s\<lparr>sc_pending := pending\<rparr>) in
      if t = Unusable then s1\<lparr>sc_gen := map_option (add_reason GeometryPendingUnusable) (sc_gen s1)\<rparr> else s1)"

definition noteOutput :: "vterm \<Rightarrow> json option \<Rightarrow> json option \<Rightarrow> json option \<Rightarrow> screen \<Rightarrow> screen" where
  "noteOutput T data stream_id stream_offset s =
     (case sc_gen s of
        None \<Rightarrow> s
      | Some g \<Rightarrow>
        if sc_disposed s then s
        else if \<not> is_string data then s\<lparr>sc_gen := Some (degradeContinuity Invalid (add_reason InvalidOutputPayload g))\<rparr>
        else let d = text_of data; sid = sanitizeStreamId stream_id in
        if d = [] then s
        else if \<not> absent stream_id \<and> sid = None
        then s\<lparr>sc_gen := Some (degradeContinuity Invalid (add_reason InvalidStreamId g))\<rparr>
        else let (g1, off) = read_offset stream_offset g in
        if sid \<noteq> None \<and> gn_stream g1 \<noteq> None \<and> sid \<noteq> gn_stream g1 \<and> \<not> gn_local g1
        then let s1 = confirm_stream T (the sid) off (s\<lparr>sc_gen := Some g1\<rparr>) in
          (case sc_gen s1 of None \<Rightarrow> s1
           | Some g2 \<Rightarrow> put_gen s1 (accept_output T sid off d (fst (read_offset stream_offset g2))))
        else put_gen s (accept_output T sid off d g1))"

subsection \<open>Geometry\<close>

definition accept_geometry :: "vterm \<Rightarrow> json option \<Rightarrow> json option \<Rightarrow> json option \<Rightarrow> json option \<Rightarrow> units option
    \<Rightarrow> gen \<Rightarrow> gen \<times> vt_callback option" where
  "accept_geometry T cols0 rows0 at0 source0 sid g =
     (case (sanitizeDimension cols0, sanitizeDimension rows0) of
        (Some cols, Some rows) \<Rightarrow>
          (let source = (case valid_source source0 of None \<Rightarrow> BridgeReported | Some x \<Rightarrow> x);
               g1 = (if gn_stream g = None then g\<lparr>gn_stream := sid\<rparr> else g) in
           if \<not> absent at0 \<and> \<not> isSafeOffset at0
           then (add_reason GeometryAtUnitsInvalid (g1\<lparr>gn_geo := GeoUnverified\<rparr>), None)
           else let at = (if absent at0 then None else Some (num_of at0));
                    self = (at = None \<and> gn_local g1); un = (at = None \<and> \<not> self);
                    anchor = (case (at, gn_pos g1) of (None, None) \<Rightarrow> 0 | (_, Some p) \<Rightarrow> p | (Some a, None) \<Rightarrow> a);
                    g2 = (if at \<noteq> None \<and> gn_pos g1 = None then g1\<lparr>gn_pos := at\<rparr> else g1)
                in enqueue_vt T (ResizeOp \<lparr>rz_cols = cols, rz_rows = rows, rz_stream = sid,
                     rz_at = (if un then None else if at = None then Some anchor else at), rz_anchor = anchor,
                     rz_self_stamped = self, rz_unattested = un, rz_source = source\<rparr>) g2)
      | _ \<Rightarrow> (add_reason GeometryInvalid (g\<lparr>gn_geo := GeoInvalid\<rparr>), None))"

definition noteGeometry ::
    "vterm \<Rightarrow> json option \<Rightarrow> json option \<Rightarrow> json option \<Rightarrow> json option \<Rightarrow> json option \<Rightarrow> screen \<Rightarrow> screen" where
  "noteGeometry T cols rows stream_id at_units source s =
     (case sc_gen s of
        None \<Rightarrow> s
      | Some g \<Rightarrow>
        if sc_disposed s then s
        else let sid = sanitizeStreamId stream_id in
        if \<not> absent stream_id \<and> sid = None
        then s\<lparr>sc_gen := Some (add_reason InvalidStreamId (g\<lparr>gn_geo := GeoUnverified\<rparr>))\<rparr>
        else if sid \<noteq> None \<and> gn_stream g \<noteq> None \<and> sid \<noteq> gn_stream g \<and> \<not> gn_local g
        then s\<lparr>sc_pending := Some (parkPendingGeometry (the sid) cols rows at_units source (sc_pending s))\<rparr>
        else put_gen s (accept_geometry T cols rows at_units source sid g))"

subsection \<open>Losses the bridge reports\<close>

definition noteDropped :: "vterm \<Rightarrow> json option \<Rightarrow> json option \<Rightarrow> json option \<Rightarrow> screen \<Rightarrow> screen" where
  "noteDropped T from_units to_units stream_id s =
     (case sc_gen s of
        None \<Rightarrow> s
      | Some g \<Rightarrow>
        if sc_disposed s then s
        else let sid = sanitizeStreamId stream_id in
        if \<not> absent stream_id \<and> sid = None
        then s\<lparr>sc_gen := Some (degradeContinuity Invalid (add_reason InvalidStreamId g))\<rparr>
        else if \<not> isSafeOffset from_units \<or> \<not> isSafeOffset to_units \<or> num_of to_units < num_of from_units
        then s\<lparr>sc_gen := Some (degradeCompleteness PartialLoss (add_reason DropBoundsInvalid g))\<rparr>
        else put_gen s (enqueue_vt T (DropOp sid (num_of from_units) (num_of to_units)) g))"

end
