(* ===== verification/Vt_Frame.thy ===== *)
theory Vt_Frame
  imports Vt_Screen
begin

text \<open>
  \<open>src/vt/session-screen.js\<close>, continued: the write callback with its audit of what the cells hold,
  the observation frame a reader gets, and the helpers that keep one screen on a session record.
\<close>

section \<open>The write callback\<close>

definition stopGeneration :: "gen \<Rightarrow> gen" where
  "stopGeneration g = releaseDrainWaiters
     (g\<lparr>gn_stopped := True, gn_writing := False, gn_queue := [], gn_queued := 0,
        gn_dropped := gn_dropped g + sum_list (map op_units (gn_queue g)), gn_term := None\<rparr>)"

fun audit_total :: "(nat \<Rightarrow> units option) \<Rightarrow> nat list \<Rightarrow> int \<Rightarrow> int" where
  "audit_total line [] n = n"
| "audit_total line (i # is) n =
     (case line i of
        None \<Rightarrow> audit_total line is n
      | Some s \<Rightarrow> let m = n + int (length s) in if m > VT_MAX_GRID_UNITS then m else audit_total line is m)"

definition row_numbers :: "gen \<Rightarrow> nat list" where
  "row_numbers g = [0..<nat (case gn_rows g of None \<Rightarrow> 0 | Some r \<Rightarrow> r)]"

definition auditCellGrowth :: "vterm \<Rightarrow> gen \<Rightarrow> gen" where
  "auditCellGrowth T g =
     (case gn_term g of None \<Rightarrow> g
      | Some cs \<Rightarrow>
        (case vt_view T cs of None \<Rightarrow> add_reason CellAuditFailed g
         | Some v \<Rightarrow>
           if audit_total (gr_full v) (row_numbers g) 0 > VT_MAX_GRID_UNITS
           then stopGeneration (degradeCompleteness PartialLoss (add_reason CellGrowthBoundExceeded g))
           else g))"

definition acknowledge :: "vterm \<Rightarrow> vt_callback \<Rightarrow> gen \<Rightarrow> gen \<times> vt_callback option" where
  "acknowledge T c g =
     (let g1 = g\<lparr>gn_writing := False, gn_applied := max (gn_applied g) (cb_mark c), gn_audit := gn_audit g + cb_units c\<rparr> in
      if gn_audit g1 \<ge> VT_CELL_AUDIT_INTERVAL_UNITS
      then let g2 = auditCellGrowth T (g1\<lparr>gn_audit := 0\<rparr>) in if gn_stopped g2 then (g2, None) else pump T g2
      else pump T g1)"

text \<open>A callback fires, in whatever order: it counts only for the generation that wrote.\<close>

definition onWritten :: "vterm \<Rightarrow> nat \<Rightarrow> screen \<Rightarrow> screen" where
  "onWritten T k s =
     (if k \<ge> length (sc_callbacks s) then s
      else let c = sc_callbacks s ! k;
               s1 = s\<lparr>sc_callbacks := take k (sc_callbacks s) @ drop (Suc k) (sc_callbacks s)\<rparr> in
        case sc_gen s of None \<Rightarrow> s1
        | Some g \<Rightarrow> if sc_disposed s \<or> gn_index g \<noteq> cb_gen c then s1 else put_gen s1 (acknowledge T c g))"

section \<open>Reading\<close>

text \<open>
  \<open>_waitForDrain\<close>: the reader waits unless there is nothing to wait for. Its own timer bounds the
  wait; what is left is who gets woken.
\<close>

definition waitForDrain :: "int \<Rightarrow> screen \<Rightarrow> screen" where
  "waitForDrain reader s =
     (case sc_gen s of None \<Rightarrow> s
      | Some g \<Rightarrow> if gn_stopped g \<or> (\<not> gn_writing g \<and> gn_queue g = []) then s
        else s\<lparr>sc_gen := Some (g\<lparr>gn_waiters := gn_waiters g @ [reader]\<rparr>)\<rparr>)"

record snapshot =
  sn_rows :: "units list"
  sn_bytes :: int
  sn_truncated :: bool
  sn_cursor :: "(int \<times> int) option"
  sn_alternate :: "bool option"
  sn_reasons :: "vt_reason list"

definition empty_snapshot :: snapshot where
  "empty_snapshot = \<lparr>sn_rows = [], sn_bytes = 0, sn_truncated = False, sn_cursor = None, sn_alternate = None, sn_reasons = []\<rparr>"

definition cut_row :: "nat \<Rightarrow> units \<Rightarrow> units" where
  "cut_row n s = (if length s > n then take (safeSplitIndex s n) s else s)"

fun snapshot_rows :: "nat \<Rightarrow> (nat \<Rightarrow> units option) \<Rightarrow> nat list \<Rightarrow> snapshot \<Rightarrow> snapshot" where
  "snapshot_rows width line [] sn = sn"
| "snapshot_rows width line (i # is) sn =
     (let raw = (case line i of None \<Rightarrow> [] | Some s \<Rightarrow> s); row = cut_row width raw;
          sn1 = (if length raw > width \<and> RowTruncated \<notin> set (sn_reasons sn)
                 then sn\<lparr>sn_reasons := sn_reasons sn @ [RowTruncated]\<rparr> else sn);
          size = byte_length row + 1 in
      if sn_bytes sn1 + size > VT_MAX_SNAPSHOT_BYTES
      then sn1\<lparr>sn_truncated := True, sn_reasons := sn_reasons sn1 @ [SnapshotTruncated]\<rparr>
      else snapshot_rows width line is (sn1\<lparr>sn_bytes := sn_bytes sn1 + size, sn_rows := sn_rows sn1 @ [row]\<rparr>))"

definition max_row_chars :: "gen \<Rightarrow> nat" where
  "max_row_chars g = nat (max 1 ((case gn_cols g of None \<Rightarrow> 0 | Some c \<Rightarrow> c) * VT_MAX_ROW_CHARS_PER_COL))"

definition snapshot_of :: "vterm \<Rightarrow> gen \<Rightarrow> snapshot" where
  "snapshot_of T g =
     (case gn_term g of None \<Rightarrow> empty_snapshot
      | Some cs \<Rightarrow>
        if gn_stopped g then empty_snapshot
        else case vt_view T cs of
          None \<Rightarrow> empty_snapshot\<lparr>sn_reasons := [SnapshotFailed]\<rparr>
        | Some v \<Rightarrow> snapshot_rows (max_row_chars g) (gr_text v) (row_numbers g)
            (empty_snapshot\<lparr>sn_cursor := Some (gr_cursor v), sn_alternate := Some (gr_alternate v)\<rparr>))"

datatype freshness = Current | Lagging | StaleOwnerDisconnected

datatype basis = VtGrid | VtGridDegraded | BasisUnavailable

record vt_frame =
  vf_basis :: basis
  vf_reasons :: "vt_reason list"
  vf_complete :: completeness
  vf_generation :: int
  vf_cause :: gen_cause
  vf_seq :: int
  vf_applied :: int
  vf_observed :: int
  vf_lag :: int
  vf_fresh :: freshness
  vf_cont :: continuity
  vf_stream :: "units option"
  vf_dropped :: int
  vf_cols :: "int option"
  vf_rows :: "int option"
  vf_geo :: geo_source
  vf_snapshot :: snapshot

definition blank_frame :: "int \<Rightarrow> int \<Rightarrow> vt_reason list \<Rightarrow> completeness \<Rightarrow> gen_cause \<Rightarrow> bool \<Rightarrow> vt_frame" where
  "blank_frame generation seq reasons complete cause disconnected =
     \<lparr>vf_basis = BasisUnavailable, vf_reasons = reasons, vf_complete = complete, vf_generation = generation,
      vf_cause = cause, vf_seq = seq, vf_applied = 0, vf_observed = 0, vf_lag = 0,
      vf_fresh = (if disconnected then StaleOwnerDisconnected else Lagging), vf_cont = Unverified,
      vf_stream = None, vf_dropped = 0, vf_cols = None, vf_rows = None, vf_geo = GeoUnverified,
      vf_snapshot = empty_snapshot\<rparr>"

definition gen_freshness :: "bool \<Rightarrow> gen \<Rightarrow> freshness" where
  "gen_freshness disconnected g =
     (if disconnected then StaleOwnerDisconnected
      else if \<not> gn_stopped g \<and> gn_applied g = gn_observed g then Current else Lagging)"

definition frame_basis :: "bool \<Rightarrow> vt_reason set \<Rightarrow> gen \<Rightarrow> basis" where
  "frame_basis disconnected reasons g =
     (if gn_term g = None \<or> gn_stopped g then BasisUnavailable
      else if gn_complete g = Complete \<and> gn_geo g \<in> VALID_GEOMETRY_SOURCES \<and> gn_cont g = Verified
        \<and> gen_freshness disconnected g = Current \<and> reasons = {}
      then VtGrid else VtGridDegraded)"

definition gen_frame :: "vterm \<Rightarrow> int \<Rightarrow> bool \<Rightarrow> gen \<Rightarrow> vt_frame" where
  "gen_frame T seq disconnected g =
     (let sn = snapshot_of T g; reasons = gn_reasons g \<union> set (sn_reasons sn) in
      \<lparr>vf_basis = frame_basis disconnected reasons g, vf_reasons = filter (\<lambda>r. r \<in> reasons) reasons_in_order,
       vf_complete = gn_complete g, vf_generation = gn_index g, vf_cause = gn_cause g, vf_seq = seq,
       vf_applied = gn_applied g, vf_observed = gn_observed g, vf_lag = max 0 (gn_observed g - gn_applied g),
       vf_fresh = gen_freshness disconnected g, vf_cont = gn_cont g, vf_stream = gn_stream g,
       vf_dropped = gn_dropped g, vf_cols = gn_cols g, vf_rows = gn_rows g, vf_geo = gn_geo g, vf_snapshot = sn\<rparr>)"

definition readFrameSync :: "vterm \<Rightarrow> bool \<Rightarrow> screen \<Rightarrow> vt_frame \<times> screen" where
  "readFrameSync T disconnected s =
     (let seq = sc_frame_seq s + 1; s1 = s\<lparr>sc_frame_seq := seq\<rparr> in
      case sc_gen s of
        None \<Rightarrow> (blank_frame (sc_counter s) seq [VtDisposed] PartialAttach AttachedMidStream disconnected, s1)
      | Some g \<Rightarrow> (gen_frame T seq disconnected g, s1))"

definition dispose :: "screen \<Rightarrow> screen" where
  "dispose s = (if sc_disposed s then s else teardownGeneration (s\<lparr>sc_disposed := True\<rparr>))"

section \<open>A screen on a session record\<close>

text \<open>
  The helpers are total in the source as they are here: a \<open>catch\<close> around each leaves the session as it
  was, and nothing in the model throws.
\<close>

record vt_session =
  vs_id :: units
  vs_restored :: bool
  vs_screen :: "screen option"

definition ensureSessionScreen :: "vterm \<Rightarrow> gen_cause option \<Rightarrow> gen_options \<Rightarrow> vt_session \<Rightarrow> vt_session" where
  "ensureSessionScreen T cause opts v =
     (case vs_screen v of Some _ \<Rightarrow> v
      | None \<Rightarrow> v\<lparr>vs_screen := Some (new_screen T (vs_id v) cause (opts\<lparr>go_restored := vs_restored v\<rparr>))\<rparr>)"

definition rotateSessionScreen :: "vterm \<Rightarrow> gen_cause option \<Rightarrow> gen_options \<Rightarrow> vt_session \<Rightarrow> vt_session" where
  "rotateSessionScreen T cause opts v =
     (case vs_screen v of None \<Rightarrow> ensureSessionScreen T cause opts v
      | Some s \<Rightarrow> v\<lparr>vs_screen := Some (newGeneration T cause (opts\<lparr>go_restored := vs_restored v\<rparr>) s)\<rparr>)"

definition on_screen :: "(screen \<Rightarrow> screen) \<Rightarrow> vt_session \<Rightarrow> vt_session" where
  "on_screen f v = v\<lparr>vs_screen := map_option f (vs_screen v)\<rparr>"

definition disposeSessionScreen :: "vt_session \<Rightarrow> vt_session" where
  "disposeSessionScreen v = v\<lparr>vs_screen := None\<rparr>"

definition readSessionFrame :: "vterm \<Rightarrow> bool \<Rightarrow> vt_session \<Rightarrow> vt_frame \<times> vt_session" where
  "readSessionFrame T disconnected v =
     (case vs_screen v of
        None \<Rightarrow> (blank_frame 0 0 (if vs_restored v then [NoVtObservation, RestoredNoVtState] else [NoVtObservation])
            (if vs_restored v then PartialRestore else PartialAttach)
            (if vs_restored v then Restored else AttachedMidStream) disconnected, v)
      | Some s \<Rightarrow> let (f, s1) = readFrameSync T disconnected s in (f, v\<lparr>vs_screen := Some s1\<rparr>))"

section \<open>Runs\<close>

text \<open>What can happen to a screen, one event at a time.\<close>

datatype vt_event =
    Output "json option" "json option" "json option"
  | Geometry "json option" "json option" "json option" "json option" "json option"
  | Dropped "json option" "json option" "json option"
  | Written nat
  | NewGeneration "gen_cause option" gen_options
  | Waits int
  | Reads bool
  | Disposes

definition vt_step :: "vterm \<times> vt_event \<Rightarrow> screen \<Rightarrow> screen" where
  "vt_step e s = (case snd e of
     Output d i k \<Rightarrow> noteOutput (fst e) d i k s
   | Geometry c r i a src \<Rightarrow> noteGeometry (fst e) c r i a src s
   | Dropped a b i \<Rightarrow> noteDropped (fst e) a b i s
   | Written k \<Rightarrow> onWritten (fst e) k s
   | NewGeneration c opts \<Rightarrow> newGeneration (fst e) c opts s
   | Waits reader \<Rightarrow> waitForDrain reader s
   | Reads b \<Rightarrow> snd (readFrameSync (fst e) b s)
   | Disposes \<Rightarrow> dispose s)"

end
