(* ===== verification/Vt_Laws.thy ===== *)
theory Vt_Laws
  imports Vt_Frame
begin

text \<open>
  What the grid of \<open>Vt_Screen\<close> is worth: what the terminal has been told is what arrived, in order;
  a frame that calls itself \<open>vt_grid\<close> shows the child's output from its first unit on with nothing
  missing and nothing twice; the queue, the snapshot and the qualification stay within their bounds.
\<close>

named_theorems vt_simps \<open>fields that an operation on a generation leaves alone\<close>

section \<open>What the terminal is told\<close>

datatype told = Shown int | Sized int int

primrec call_told :: "term_call \<Rightarrow> told list" where
  "call_told (TNew c r) = []"
| "call_told (TWrite d) = map Shown d"
| "call_told (TResize c r) = [Sized c r]"

primrec op_told :: "vt_op \<Rightarrow> told list" where
  "op_told (OutOp d w) = map Shown d"
| "op_told (ResizeOp op) = [Sized (rz_cols op) (rz_rows op)]"
| "op_told (DropOp i a b) = []"

definition calls_told :: "term_call list option \<Rightarrow> told list" where
  "calls_told t = (case t of None \<Rightarrow> [] | Some cs \<Rightarrow> concat (map call_told cs))"

definition queue_told :: "vt_op list \<Rightarrow> told list" where
  "queue_told ops = concat (map op_told ops)"

definition text_told :: "told list \<Rightarrow> units" where
  "text_told ts = concat (map (\<lambda>t. case t of Shown u \<Rightarrow> [u] | Sized c r \<Rightarrow> []) ts)"

text \<open>The text written to the terminal and the text that waits in the queue.\<close>

definition written :: "gen \<Rightarrow> units" where
  "written g = text_told (calls_told (gn_term g))"

definition waiting :: "vt_op list \<Rightarrow> units" where
  "waiting ops = text_told (queue_told ops)"

text \<open>Each output's watermark counts the units up to its end.\<close>

fun marks :: "int \<Rightarrow> vt_op list \<Rightarrow> bool" where
  "marks n [] = True"
| "marks n (OutOp d w # ops) = (w = n + int (length d) \<and> marks w ops)"
| "marks n (ResizeOp op # ops) = marks n ops"
| "marks n (DropOp i a b # ops) = marks n ops"

lemma text_told_simps [simp]: "text_told [] = []" "text_told (Shown u # ts) = u # text_told ts"
    "text_told (Sized c r # ts) = text_told ts" "text_told (xs @ ys) = text_told xs @ text_told ys"
  by (simp_all add: text_told_def)

lemma text_told_shown [simp]: "text_told (map Shown d) = d"
  by (induction d) simp_all

lemma calls_told_simps [simp]: "calls_told None = []" "calls_told (Some []) = []"
    "calls_told (Some (cs @ [c])) = calls_told (Some cs) @ call_told c" "calls_told (Some [TNew c' r]) = []"
  by (simp_all add: calls_told_def)

lemma queue_told_simps [simp]: "queue_told [] = []" "queue_told (op # ops) = op_told op @ queue_told ops"
    "queue_told (xs @ ys) = queue_told xs @ queue_told ys"
  by (simp_all add: queue_told_def)

lemma waiting_simps [simp]: "waiting [] = []" "waiting (op # ops) = text_told (op_told op) @ waiting ops"
    "waiting (xs @ ys) = waiting xs @ waiting ys"
  by (simp_all add: waiting_def)

lemma marks_snoc: "marks n ops \<Longrightarrow> marks n (ops @ [OutOp d (n + int (length (waiting ops)) + int (length d))])"
  by (induction n ops rule: marks.induct) (simp_all add: algebra_simps)

lemma marks_snoc_other: "marks n ops \<Longrightarrow> \<not> is_output op \<Longrightarrow> marks n (ops @ [op])"
  by (induction n ops rule: marks.induct) (cases op; simp)+

lemma waiting_other: "\<not> is_output op \<Longrightarrow> text_told (op_told op) = []"
  by (cases op) simp_all

section \<open>A generation that has lost nothing\<close>

definition lossless :: "gen \<Rightarrow> bool" where
  "lossless g \<longleftrightarrow> gn_reasons g = {} \<and> gn_complete g \<noteq> PartialLoss \<and> \<not> gn_cont_degraded g \<and> \<not> gn_stopped g"

lemma lossless_degrade [simp]: "\<not> lossless (add_reason r g)" "\<not> lossless (degradeContinuity v g)"
    "\<not> lossless (noteLoss n r g)" "\<not> lossless (degradeCompleteness PartialLoss g)"
  by (cases "gn_complete g"; simp add: lossless_def add_reason_def degradeContinuity_def noteLoss_def
      degradeCompleteness_def Let_def)+

lemma lossless_release [simp]: "lossless (releaseDrainWaiters g) = lossless g"
  by (simp add: lossless_def releaseDrainWaiters_def)

lemma lossless_fields [simp]: "lossless (g\<lparr>gn_geo := a\<rparr>) = lossless g" "lossless (g\<lparr>gn_cols := b\<rparr>) = lossless g"
    "lossless (g\<lparr>gn_rows := b\<rparr>) = lossless g" "lossless (g\<lparr>gn_term := t\<rparr>) = lossless g"
    "lossless (g\<lparr>gn_queue := q\<rparr>) = lossless g" "lossless (g\<lparr>gn_queued := n\<rparr>) = lossless g"
    "lossless (g\<lparr>gn_geo_first := c\<rparr>) = lossless g" "lossless (g\<lparr>gn_writing := c\<rparr>) = lossless g"
    "lossless (g\<lparr>gn_pos := p\<rparr>) = lossless g" "lossless (g\<lparr>gn_tail := d\<rparr>) = lossless g"
    "lossless (g\<lparr>gn_tail_start := p\<rparr>) = lossless g" "lossless (g\<lparr>gn_stream := i\<rparr>) = lossless g"
    "lossless (g\<lparr>gn_applied := n\<rparr>) = lossless g" "lossless (g\<lparr>gn_observed := n\<rparr>) = lossless g"
    "lossless (g\<lparr>gn_audit := n\<rparr>) = lossless g" "lossless (g\<lparr>gn_cont := v\<rparr>) = lossless g"
    "lossless (g\<lparr>gn_origin := c\<rparr>) = lossless g" "lossless (g\<lparr>gn_waiters := ws\<rparr>) = lossless g"
  by (simp_all add: lossless_def)

text \<open>What the queue's machinery leaves alone while nothing is lost.\<close>

definition same :: "gen \<Rightarrow> gen \<Rightarrow> bool" where
  "same g h \<longleftrightarrow> gn_index h = gn_index g \<and> gn_local h = gn_local g \<and> gn_stream h = gn_stream g
     \<and> gn_complete h = gn_complete g \<and> gn_cont h = gn_cont g \<and> gn_origin h = gn_origin g
     \<and> gn_observed h = gn_observed g \<and> gn_applied h = gn_applied g \<and> gn_dropped h = gn_dropped g
     \<and> gn_pos h = gn_pos g \<and> gn_tail h = gn_tail g \<and> gn_tail_start h = gn_tail_start g"

lemma same_refl [simp]: "same g g"
  by (simp add: same_def)

lemma same_trans: "same g h \<Longrightarrow> same h k \<Longrightarrow> same g k"
  by (simp add: same_def)

lemma lossless_ensure:
  assumes "lossless (ensureTerminal T g)"
  shows "lossless g" "same g (ensureTerminal T g)" "calls_told (gn_term (ensureTerminal T g)) = calls_told (gn_term g)"
    "gn_queue (ensureTerminal T g) = gn_queue g" "gn_queued (ensureTerminal T g) = gn_queued g"
    "gn_term (ensureTerminal T g) \<noteq> None"
  using assms by (auto simp: ensureTerminal_def lossless_def same_def add_reason_def Let_def split: if_splits lib_state.splits)

lemma lossless_resize:
  assumes "lossless (applyResize T op g)"
  shows "lossless g" "same g (applyResize T op g)" "gn_queue (applyResize T op g) = gn_queue g"
    "gn_queued (applyResize T op g) = gn_queued g"
    "calls_told (gn_term (applyResize T op g)) = calls_told (gn_term g) @ [Sized (rz_cols op) (rz_rows op)]"
proof -
  let ?h = "ensureTerminal T g"
  have un: "\<not> rz_unattested op"
    and ok: "lossless ?h" and upd: "\<exists>cs. gn_term ?h = Some cs \<and> applyResize T op g =
      ?h\<lparr>gn_term := Some (cs @ [TResize (rz_cols op) (rz_rows op)]), gn_cols := Some (rz_cols op),
         gn_rows := Some (rz_rows op), gn_geo := rz_source op,
         gn_geo_first := (if \<not> rz_unattested op \<and> gn_observed g = 0 then True else gn_geo_first ?h)\<rparr>"
  proof -
    let ?skip = "rz_stream op \<noteq> None \<and> gn_stream g \<noteq> None \<and> rz_stream op \<noteq> gn_stream g"
    let ?off = "\<not> rz_self_stamped op \<and> \<not> rz_unattested op \<and> rz_at op \<noteq> Some (rz_anchor op)"
    have s: "\<not> ?skip" by (rule notI) (use assms in \<open>simp add: applyResize_def\<close>)
    have o: "\<not> ?off"
    proof
      assume o: ?off
      from assms have "lossless (add_reason GeometryBoundaryMismatch (g\<lparr>gn_geo := GeoUnverified\<rparr>))"
        unfolding applyResize_def if_not_P [OF s] if_P [OF o] .
      then show False by simp
    qed
    let ?r = "add_reason GeometryAtUnitsUnattested g"
    have E: "applyResize T op g = (let g1 = (if rz_unattested op then ?r else g);
               src = (if rz_unattested op then GeoUnverified else rz_source op); g2 = ensureTerminal T g1 in
        case gn_term g2 of
          None \<Rightarrow> g2\<lparr>gn_cols := Some (rz_cols op), gn_rows := Some (rz_rows op), gn_geo := src\<rparr>
        | Some cs \<Rightarrow>
            (let g3 = g2\<lparr>gn_term := Some (cs @ [TResize (rz_cols op) (rz_rows op)])\<rparr> in
             if vt_resizes T cs (rz_cols op) (rz_rows op)
             then g3\<lparr>gn_cols := Some (rz_cols op), gn_rows := Some (rz_rows op), gn_geo := src,
                     gn_geo_first := (if \<not> rz_unattested op \<and> gn_observed g = 0 then True else gn_geo_first g)\<rparr>
             else (add_reason VtResizeFailed g3)\<lparr>gn_geo := GeoUnverified\<rparr>))"
      unfolding applyResize_def if_not_P [OF s] if_not_P [OF o] by (rule refl)
    have first: "gn_geo_first ?h = gn_geo_first g"
      by (simp add: ensureTerminal_def add_reason_def Let_def split: lib_state.split)
    have "\<not> lossless (ensureTerminal T ?r)" using lossless_ensure(1) [of T ?r] by auto
    then show un: "\<not> rz_unattested op"
      using assms unfolding E Let_def by (cases "rz_unattested op") (simp_all split: option.splits if_splits)
    have "lossless ?h" using assms un unfolding E Let_def by (simp split: option.splits if_splits)
    then show "lossless ?h" .
    from lossless_ensure(6) [OF this] obtain cs where cs: "gn_term ?h = Some cs" by auto
    have "vt_resizes T cs (rz_cols op) (rz_rows op)"
      using assms un cs unfolding E Let_def by (simp split: if_splits)
    then show "\<exists>cs. gn_term ?h = Some cs \<and> applyResize T op g =
      ?h\<lparr>gn_term := Some (cs @ [TResize (rz_cols op) (rz_rows op)]), gn_cols := Some (rz_cols op),
         gn_rows := Some (rz_rows op), gn_geo := rz_source op,
         gn_geo_first := (if \<not> rz_unattested op \<and> gn_observed g = 0 then True else gn_geo_first ?h)\<rparr>"
      using un cs first unfolding E Let_def by simp
  qed
  show "lossless g" "same g (applyResize T op g)" "gn_queue (applyResize T op g) = gn_queue g"
    "gn_queued (applyResize T op g) = gn_queued g"
    "calls_told (gn_term (applyResize T op g)) = calls_told (gn_term g) @ [Sized (rz_cols op) (rz_rows op)]"
    using lossless_ensure [OF ok] upd by (auto simp: same_def)
qed


lemma not_lossless_dropped [simp]: "\<not> lossless (applyDropped a b g)"
  by (simp add: applyDropped_def Let_def)

lemma lossless_heads:
  assumes "lossless (run_heads T ops g)"
  defines "h \<equiv> run_heads T ops g"
  shows "lossless g" "same g h" "gn_queued h = gn_queued g"
    "calls_told (gn_term h) @ queue_told (gn_queue h) = calls_told (gn_term g) @ queue_told ops"
    "written h = written g" "waiting (gn_queue h) = waiting ops" "marks n ops \<Longrightarrow> marks n (gn_queue h)"
proof -
  have "lossless (run_heads T ops g) \<Longrightarrow> lossless g \<and> same g (run_heads T ops g) \<and> gn_queued (run_heads T ops g) = gn_queued g
    \<and> calls_told (gn_term (run_heads T ops g)) @ queue_told (gn_queue (run_heads T ops g)) = calls_told (gn_term g) @ queue_told ops
    \<and> written (run_heads T ops g) = written g \<and> waiting (gn_queue (run_heads T ops g)) = waiting ops
    \<and> (marks n ops \<longrightarrow> marks n (gn_queue (run_heads T ops g)))"
  proof (induction T ops g rule: run_heads.induct)
    case (3 T op ops g)
    then have "lossless (run_heads T ops (applyResize T op g))" by simp
    note IH = 3(1) [OF this]
    then have "lossless (applyResize T op g)" by blast
    note r = lossless_resize [OF this]
    show ?case using IH r by (auto simp: written_def intro: same_trans)
  next
    case (4 T sid a b ops g)
    then show ?case by auto
  qed (auto simp: same_def written_def)
  then show "lossless g" "same g h" "gn_queued h = gn_queued g"
    "calls_told (gn_term h) @ queue_told (gn_queue h) = calls_told (gn_term g) @ queue_told ops"
    "written h = written g" "waiting (gn_queue h) = waiting ops" "marks n ops \<Longrightarrow> marks n (gn_queue h)"
    using assms by auto
qed

lemma take_chunk_told:
  assumes "take_chunk ops chunk mark = (chunk', mark', rest)"
  shows "map Shown chunk' @ queue_told rest = map Shown chunk @ queue_told ops"
    "chunk' @ waiting rest = chunk @ waiting ops"
    "marks n ops \<Longrightarrow> marks (n + int (length chunk') - int (length chunk)) rest
       \<and> (mark = n \<or> length chunk' > length chunk \<longrightarrow> mark' = n + int (length chunk') - int (length chunk))"
    "length chunk' \<ge> length chunk"
proof -
  have "map Shown chunk' @ queue_told rest = map Shown chunk @ queue_told ops
    \<and> chunk' @ waiting rest = chunk @ waiting ops
    \<and> (marks n ops \<longrightarrow> marks (n + int (length chunk') - int (length chunk)) rest
       \<and> (mark = n \<or> length chunk' > length chunk \<longrightarrow> mark' = n + int (length chunk') - int (length chunk)))
    \<and> length chunk' \<ge> length chunk" for n
    using assms
  proof (induction ops chunk mark arbitrary: n rule: take_chunk.induct)
    case (1 d w ops chunk mark)
    let ?room = "VT_MAX_WRITE_CHUNK_UNITS - int (length chunk)" and ?cut = "safeSplitIndex d (nat (VT_MAX_WRITE_CHUNK_UNITS - int (length chunk)))"
    consider "int (length chunk) \<ge> VT_MAX_WRITE_CHUNK_UNITS"
      | "int (length chunk) < VT_MAX_WRITE_CHUNK_UNITS" "int (length d) \<le> ?room"
      | "int (length chunk) < VT_MAX_WRITE_CHUNK_UNITS" "int (length d) > ?room" "?cut = 0"
      | "int (length chunk) < VT_MAX_WRITE_CHUNK_UNITS" "int (length d) > ?room" "?cut > 0" by linarith
    then show ?case
    proof cases
      case 2
      then have "take_chunk ops (chunk @ d) w = (chunk', mark', rest)" using 1(2) by simp
      note IH = 1(1) [OF _ refl _ this] 
      show ?thesis using IH [of w] IH [of "n + int (length d)"] 2 by (auto simp: add_diff_eq)
    next
      case 4
      define c where "c = ?cut"
      have c: "c < length d" using 4 unfolding safeSplitIndex_def c_def by auto
      have r: "chunk' = chunk @ take c d" "mark' = w - int (length d - c)" "rest = OutOp (drop c d) w # ops"
        using 1(2) 4 by (simp_all add: Let_def c_def)
      have "map Shown (take c d) @ map Shown (drop c d) = map Shown d" by (metis append_take_drop_id map_append)
      moreover have "take c d @ drop c d @ waiting ops = d @ waiting ops" by simp
      ultimately show ?thesis using c unfolding r by (auto simp: of_nat_diff)
    qed (use 1(2) in \<open>auto simp: Let_def\<close>)
  qed auto
  then show "map Shown chunk' @ queue_told rest = map Shown chunk @ queue_told ops"
    "chunk' @ waiting rest = chunk @ waiting ops"
    "marks n ops \<Longrightarrow> marks (n + int (length chunk') - int (length chunk)) rest
       \<and> (mark = n \<or> length chunk' > length chunk \<longrightarrow> mark' = n + int (length chunk') - int (length chunk))"
    "length chunk' \<ge> length chunk" by auto
qed


section \<open>The queue is first in, first out\<close>

text \<open>
  What the pump keeps of a generation that has lost nothing: the told part and the waiting part
  together, and the watermarks.
\<close>

definition told :: "gen \<Rightarrow> told list" where
  "told g = calls_told (gn_term g) @ queue_told (gn_queue g)"

definition accounted :: "gen \<Rightarrow> bool" where
  "accounted g \<longleftrightarrow> gn_observed g = int (length (text_told (told g))) \<and> gn_applied g \<le> int (length (written g))
     \<and> marks (int (length (written g))) (gn_queue g) \<and> gn_dropped g = 0"

definition callback_ok :: "gen \<Rightarrow> vt_callback \<Rightarrow> bool" where
  "callback_ok g c \<longleftrightarrow> cb_gen c = gn_index g \<and> cb_mark c \<le> int (length (written g))"

lemma text_told_told: "text_told (told g) = written g @ waiting (gn_queue g)"
  by (simp add: told_def written_def waiting_def)

lemma lossless_write:
  assumes "lossless (fst (write_chunk T chunk mark g))"
  shows "lossless g" "same g (fst (write_chunk T chunk mark g))"
    "calls_told (gn_term (fst (write_chunk T chunk mark g))) = calls_told (gn_term g) @ map Shown chunk"
    "gn_queue (fst (write_chunk T chunk mark g)) = gn_queue g"
    "snd (write_chunk T chunk mark g) = Some \<lparr>cb_gen = gn_index g, cb_mark = mark, cb_units = int (length chunk)\<rparr>"
  using assms by (auto simp: write_chunk_def Let_def same_def split: if_splits option.splits)

lemma pump_keeps:
  assumes "lossless (fst (pump T g))" and "accounted g"
  defines "h \<equiv> fst (pump T g)"
  shows "lossless g \<and> same g h \<and> told h = told g \<and> accounted h \<and> (\<exists>d. written h = written g @ d)
     \<and> (\<forall>c. snd (pump T g) = Some c \<longrightarrow> callback_ok h c)"
proof -
  define g1 where "g1 = run_heads T (gn_queue g) g"
  define g2 where "g2 = ensureTerminal T g1"
  obtain chunk mark rest where ch: "take_chunk (gn_queue g2) [] (gn_applied g2) = (chunk, mark, rest)"
    by (cases "take_chunk (gn_queue g2) [] (gn_applied g2)") auto
  define g3 where "g3 = g2\<lparr>gn_queue := rest, gn_queued := gn_queued g2 - int (length chunk)\<rparr>"
  have P: "pump T g = (if gn_writing g \<or> gn_stopped g then (g, None)
      else if gn_queue g1 = [] then (releaseDrainWaiters g1, None)
      else if gn_term g2 = None then (g2, None)
      else if chunk = [] then (releaseDrainWaiters g3, None) else write_chunk T chunk mark g3)"
    unfolding pump_def Let_def g1_def [symmetric] g2_def [symmetric] ch g3_def by simp
  have rel: "same j (releaseDrainWaiters k) = same j k" "told (releaseDrainWaiters k) = told k"
      "accounted (releaseDrainWaiters k) = accounted k" "written (releaseDrainWaiters k) = written k" for j k
    by (simp_all add: releaseDrainWaiters_def same_def told_def accounted_def written_def)
  have heads: "lossless g1 \<Longrightarrow> lossless g \<and> same g g1 \<and> told g1 = told g \<and> accounted g1 \<and> written g1 = written g"
    using lossless_heads(1-6) [of T "gn_queue g" g] lossless_heads(7) [of T "gn_queue g" g "int (length (written g))"] assms(2)
    unfolding g1_def by (auto simp: told_def accounted_def same_def)
  have ens: "lossless g2 \<Longrightarrow> lossless g \<and> same g g2 \<and> told g2 = told g \<and> accounted g2 \<and> written g2 = written g"
  proof -
    assume l: "lossless g2"
    note e = lossless_ensure [OF l [unfolded g2_def], folded g2_def]
    have "told g2 = told g1" "written g2 = written g1" "accounted g2 = accounted g1"
      using e(2-4) by (simp_all add: told_def written_def accounted_def same_def)
    then show ?thesis using heads [OF e(1)] e(2) by (auto intro: same_trans)
  qed
  show ?thesis
  proof (cases "gn_writing g \<or> gn_stopped g \<or> gn_queue g1 = [] \<or> gn_term g2 = None")
    case True
    then show ?thesis using assms heads ens rel P unfolding h_def by (auto split: if_splits)
  next
    case F: False
    then have P': "pump T g = (if chunk = [] then (releaseDrainWaiters g3, None) else write_chunk T chunk mark g3)"
      using P by (auto split: if_splits)
    have "lossless (fst (pump T g)) \<Longrightarrow> lossless g3"
      unfolding P' using lossless_write(1) [of T chunk mark g3] by (auto split: if_splits)
    then have l3: "lossless g3" using assms(1) by blast
    then have l2: "lossless g2" by (simp add: g3_def)
    note E = ens [OF this]
    then have acc2: "accounted g2" by blast
    then have m: "marks (int (length (written g2))) (gn_queue g2)" unfolding accounted_def by blast
    note t = take_chunk_told(1,2) [OF ch] take_chunk_told(3) [OF ch m]
    show ?thesis
    proof (cases "chunk = []")
      case True
      then have tq: "queue_told rest = queue_told (gn_queue g2)" using t(1) by simp
      have f: "gn_observed g3 = gn_observed g2" "gn_applied g3 = gn_applied g2" "gn_dropped g3 = gn_dropped g2"
        "gn_queue g3 = rest" by (simp_all add: g3_def)
      have t3: "told g3 = told g2" "written g3 = written g2" "same g2 g3"
        by (simp_all add: told_def written_def same_def g3_def tq)
      moreover have "accounted g3" using acc2 t(3) True unfolding accounted_def f t3(1,2) by simp
      ultimately show ?thesis using P' True E rel unfolding h_def by (auto intro: same_trans)
    next
      case False
      then have h: "h = fst (write_chunk T chunk mark g3)" and c: "snd (pump T g) = snd (write_chunk T chunk mark g3)"
        using P' by (simp_all add: h_def)
      have lh: "lossless (fst (write_chunk T chunk mark g3))" using assms(1) P' False by simp
      note w = lossless_write [OF lh]
      have "told h = told g2" using w t(1) by (simp add: h told_def g3_def)
      moreover have wr: "written h = written g2 @ chunk" using w by (simp add: h written_def g3_def)
      moreover have "same g2 h" using w(2) by (simp add: h same_def g3_def)
      moreover have "marks (int (length (written h))) (gn_queue h)" "mark = int (length (written h))"
        using t(3) False w(4) by (simp_all add: wr, simp_all add: h g3_def)
      moreover have "accounted h"
        using acc2 calculation unfolding accounted_def same_def by auto
      ultimately show ?thesis using E w(5) c
        by (auto simp: callback_ok_def g3_def same_def)
    qed
  qed
qed

lemma enqueue_keeps:
  assumes "lossless (fst (enqueue_vt T op g))" and "accounted g"
  defines "h \<equiv> fst (enqueue_vt T op g)"
  shows "lossless g" "same (g\<lparr>gn_observed := gn_observed g + op_units op\<rparr>) h" "told h = told g @ op_told op" "accounted h"
    "\<exists>d. written h = written g @ d" "\<forall>c. snd (enqueue_vt T op g) = Some c \<longrightarrow> callback_ok h c"
proof -
  define seen where "seen = gn_observed g + op_units op"
  define op' where "op' = (case op of OutOp d _ \<Rightarrow> OutOp d seen | _ \<Rightarrow> op)"
  define g1 where "g1 = g\<lparr>gn_queue := gn_queue g @ [op'], gn_queued := gn_queued g + op_units op, gn_observed := seen\<rparr>"
  have n: "\<not> gn_stopped g" "\<not> (int (length (gn_queue g)) + 1 > VT_QUEUE_MAX_OPS \<or> gn_queued g + op_units op > VT_QUEUE_MAX_UNITS)"
    using assms(1) by (auto simp: enqueue_vt_def lossless_def split: if_splits)
      (metis lossless_def lossless_degrade(3))+
  have e: "enqueue_vt T op g = pump T g1"
    unfolding enqueue_vt_def if_not_P [OF n(1)] if_not_P [OF n(2)] Let_def g1_def op'_def seen_def by (rule refl)
  have told': "op_told op' = op_told op" "int (length (text_told (op_told op))) = op_units op"
    by (cases op; simp add: op'_def)+
  have obs: "gn_observed g = int (length (written g)) + int (length (waiting (gn_queue g)))"
    using assms(2) by (simp add: accounted_def text_told_told)
  have "marks (int (length (written g))) (gn_queue g @ [op'])"
  proof (cases op)
    case (OutOp d w)
    then show ?thesis using marks_snoc [of "int (length (written g))" "gn_queue g" d] assms(2) obs
      by (simp add: op'_def seen_def accounted_def)
  qed (use assms(2) in \<open>simp_all add: op'_def accounted_def marks_snoc_other\<close>)
  then have acc: "accounted g1" using assms(2) told' obs
    by (auto simp: accounted_def g1_def told_def written_def seen_def waiting_def)
  have "told g1 = told g @ op_told op" "written g1 = written g"
    using told' by (simp_all add: g1_def told_def written_def)
  moreover have "same (g\<lparr>gn_observed := gn_observed g + op_units op\<rparr>) g1" by (simp add: same_def g1_def seen_def)
  moreover note pump_keeps [OF _ acc, of T]
  ultimately show "lossless g" "same (g\<lparr>gn_observed := gn_observed g + op_units op\<rparr>) h" "told h = told g @ op_told op"
    "accounted h" "\<exists>d. written h = written g @ d" "\<forall>c. snd (enqueue_vt T op g) = Some c \<longrightarrow> callback_ok h c"
    using assms(1) unfolding h_def e by (auto simp: g1_def intro: same_trans)
qed


lemma pump_lossless: "lossless (fst (pump T g)) \<Longrightarrow> lossless g"
proof -
  assume l: "lossless (fst (pump T g))"
  define g1 where "g1 = run_heads T (gn_queue g) g"
  define g2 where "g2 = ensureTerminal T g1"
  obtain chunk mark rest where ch: "take_chunk (gn_queue g2) [] (gn_applied g2) = (chunk, mark, rest)"
    by (cases "take_chunk (gn_queue g2) [] (gn_applied g2)") auto
  define g3 where "g3 = g2\<lparr>gn_queue := rest, gn_queued := gn_queued g2 - int (length chunk)\<rparr>"
  have P: "pump T g = (if gn_writing g \<or> gn_stopped g then (g, None)
      else if gn_queue g1 = [] then (releaseDrainWaiters g1, None)
      else if gn_term g2 = None then (g2, None)
      else if chunk = [] then (releaseDrainWaiters g3, None) else write_chunk T chunk mark g3)"
    unfolding pump_def Let_def g1_def [symmetric] g2_def [symmetric] ch g3_def by simp
  have "lossless g1 \<Longrightarrow> lossless g" using lossless_heads(1) [of T "gn_queue g" g] by (simp add: g1_def)
  moreover have "lossless g2 \<Longrightarrow> lossless g1" using lossless_ensure(1) [of T g1] by (simp add: g2_def)
  moreover have "lossless g3 = lossless g2" by (simp add: g3_def)
  ultimately show ?thesis using l lossless_write(1) [of T chunk mark g3] unfolding P by (auto split: if_splits)
qed

lemma enqueue_lossless: "lossless (fst (enqueue_vt T op g)) \<Longrightarrow> lossless g"
proof -
  assume l: "lossless (fst (enqueue_vt T op g))"
  show ?thesis
  proof (cases "gn_stopped g \<or> int (length (gn_queue g)) + 1 > VT_QUEUE_MAX_OPS \<or> gn_queued g + op_units op > VT_QUEUE_MAX_UNITS")
    case True
    then show ?thesis using l by (auto simp: enqueue_vt_def split: if_splits)
  next
    case False
    then have n: "\<not> gn_stopped g" "\<not> (int (length (gn_queue g)) + 1 > VT_QUEUE_MAX_OPS \<or> gn_queued g + op_units op > VT_QUEUE_MAX_UNITS)"
      by auto
    show ?thesis using pump_lossless [OF l [unfolded enqueue_vt_def if_not_P [OF n(1)] if_not_P [OF n(2)] Let_def]] by simp
  qed
qed

section \<open>A bridged stream\<close>

text \<open>
  \<open>S i\<close> is all the text that the child with stream id \<open>i\<close> ever produces. A chunk that names its
  stream and a usable offset is honest if it is the piece of the stream that lies there; chunks may
  come twice, late, or not at all.
\<close>

definition piece :: "units \<Rightarrow> int \<Rightarrow> units \<Rightarrow> bool" where
  "piece xs k d \<longleftrightarrow> 0 \<le> k \<and> nat k + length d \<le> length xs \<and> take (length d) (drop (nat k) xs) = d"

definition fed_from :: "(units \<Rightarrow> units) \<Rightarrow> gen \<Rightarrow> bool" where
  "fed_from S g \<longleftrightarrow> accounted g
     \<and> (gn_pos g = None \<longrightarrow> gn_observed g = 0) \<and> (\<forall>p. gn_pos g = Some p \<longrightarrow> gn_observed g \<le> p)
     \<and> (gn_complete g = Complete \<longrightarrow> gn_pos g = Some (gn_observed g))
     \<and> (gn_observed g > 0 \<longrightarrow> gn_origin g
         \<and> (\<exists>i p. gn_stream g = Some i \<and> gn_pos g = Some p \<and> piece (S i) (p - gn_observed g) (text_told (told g))))
     \<and> (gn_observed g = 0 \<longrightarrow> gn_tail g = [])"

definition fed :: "(units \<Rightarrow> units) \<Rightarrow> gen \<Rightarrow> bool" where
  "fed S g \<longleftrightarrow> (\<not> gn_local g \<longrightarrow> lossless g \<longrightarrow> fed_from S g)"

lemma piece_extend:
  assumes "piece xs (p - int (length t)) t" and "piece xs k d" and "k \<le> p" and "p < k + int (length d)"
  shows "piece xs (p - int (length t)) (t @ drop (nat (p - k)) d)"
proof -
  define b where "b = nat (p - int (length t))"
  have b: "0 \<le> p - int (length t)" "b + length t \<le> length xs" "take (length t) (drop b xs) = t"
    using assms(1) by (simp_all add: piece_def b_def)
  have k: "0 \<le> k" "nat k + length d \<le> length xs" "take (length d) (drop (nat k) xs) = d"
    using assms(2) by (simp_all add: piece_def)
  define e where "e = drop (nat (p - k)) d"
  have "nat (p - k) + nat k = b + length t" using b(1) k(1) assms(3) by (simp add: b_def)
  then have "e = take (length d - nat (p - k)) (drop (b + length t) xs)"
    unfolding e_def using k(3) by (metis drop_drop drop_take)
  then have "take (length e) (drop (b + length t) xs) = e" by (simp add: min_def)
  then have "take (length t + length e) (drop b xs) = t @ e"
    using b(3) take_add [of "length t" "length e" "drop b xs"] by (simp add: add.commute)
  moreover have "b + (length t + length e) \<le> length xs" using k assms(3,4) b(1) by (simp add: b_def e_def)
  ultimately show ?thesis using b(1) by (simp add: piece_def b_def e_def)
qed

lemma lossless_verify [simp]: "lossless (verifyContinuity g) = lossless g"
  by (simp add: verifyContinuity_def)

lemma lossless_moved [simp]: "lossless (moved_to off sid d g) = lossless g"
  by (cases off) (simp_all add: moved_to_def Let_def)

lemma lossless_overlap:
  assumes "lossless (check_overlap k p d g)"
  shows "check_overlap k p d g = g \<and> (\<exists>a. gn_tail_start g = Some a \<and> a \<le> k
    \<and> k + min (p - k) (int (length d)) \<le> a + int (length (gn_tail g)))"
  using assms unfolding check_overlap_def Let_def by (auto split: option.splits if_splits)

lemma lossless_place:
  assumes "lossless (fst (place_output sid off d g))"
  obtains i k where "sid = Some i" "off = Some k" "lossless g"
    "\<And>p. gn_pos g = Some p \<Longrightarrow> k \<le> p"
    "\<And>p. gn_pos g = Some p \<Longrightarrow> k < p \<Longrightarrow> check_overlap k p d g = g"
    "\<And>p. gn_pos g = Some p \<Longrightarrow> k < p \<Longrightarrow> lossless (check_overlap k p d g)"
    "place_output sid off d g = (g, None) \<or> (\<exists>rest. place_output sid off d g =
       (g\<lparr>gn_pos := Some (k + int (length d)), gn_cont := Verified\<rparr>, Some rest)
       \<and> (gn_pos g = None \<and> rest = d
         \<or> (\<exists>p. gn_pos g = Some p \<and> rest = drop (nat (p - k)) d \<and> (k < p \<longrightarrow> rest \<noteq> []))))"
proof -
  have n: "\<not> (off = None \<or> sid = None)"
  proof
    assume a: "off = None \<or> sid = None"
    have "\<not> lossless (fst (place_output sid off d g))"
      unfolding place_output_def if_P [OF a] Let_def by (simp split: option.split)
    then show False using assms by blast
  qed
  then obtain i k where ik: "sid = Some i" "off = Some k" by auto
  have mv: "moved_to off sid d g' = g'\<lparr>gn_pos := Some (k + int (length d)), gn_cont := Verified\<rparr>" if "lossless g'" for g'
    using that by (simp add: moved_to_def ik verifyContinuity_def lossless_def Let_def)
  show thesis
  proof (cases "gn_pos g")
    case None
    then have e: "place_output sid off d g = (moved_to off sid d g, Some d)" by (simp add: place_output_def ik)
    then have "lossless g" using assms by simp
    then show thesis by (intro that [OF ik \<open>lossless g\<close>]) (simp_all add: None e mv)
  next
    case (Some p)
    have le: "k \<le> p"
    proof (rule ccontr)
      assume "\<not> k \<le> p"
      then show False using assms Some by (simp add: place_output_def ik)
    qed
    show thesis
    proof (cases "k = p")
      case True
      then have e: "place_output sid off d g = (moved_to off sid d g, Some d)"
        using Some by (simp add: place_output_def ik)
      then have "lossless g" using assms by simp
      then show thesis by (intro that [OF ik \<open>lossless g\<close>]) (simp_all add: Some True e mv)
    next
      case False
      then have lt: "k < p" using le by simp
      then have e: "place_output sid off d g = (let g1 = check_overlap k p d g; rest = drop (nat (p - k)) d in
          if rest = [] then (g1, None) else (moved_to off sid d g1, Some rest))"
        using Some by (simp add: place_output_def ik Let_def)
      then have lo: "lossless (check_overlap k p d g)" using assms by (simp add: Let_def split: if_splits)
      then have g: "check_overlap k p d g = g" using lossless_overlap by blast
      then have "lossless g" using lo by simp
      then show thesis
        by (intro that [OF ik \<open>lossless g\<close>]) (use lo g lt in \<open>auto simp: Some e mv Let_def\<close>)
    qed
  qed
qed

lemma origin_fields [simp]: "gn_pos (determineOrigin off sid g) = gn_pos g" "gn_observed (determineOrigin off sid g) = gn_observed g"
    "gn_tail (determineOrigin off sid g) = gn_tail g" "gn_stream (determineOrigin off sid g) = gn_stream g"
    "gn_local (determineOrigin off sid g) = gn_local g" "gn_index (determineOrigin off sid g) = gn_index g"
    "told (determineOrigin off sid g) = told g" "written (determineOrigin off sid g) = written g"
    "accounted (determineOrigin off sid g) = accounted g" "lossless (determineOrigin off sid g) = lossless g"
    "gn_origin (determineOrigin off sid g)" "gn_tail_start (determineOrigin off sid g) = gn_tail_start g"
  by (auto simp: determineOrigin_def told_def written_def accounted_def lossless_def Let_def)

lemma origin_complete:
  "gn_complete (determineOrigin off sid g) = Complete \<Longrightarrow> gn_complete g = Complete \<or> (off = Some 0 \<and> \<not> gn_origin g)"
  by (auto simp: determineOrigin_def Let_def split: if_splits)

lemma retain_fields [simp]: "gn_pos (retainOverlap d g) = gn_pos g" "gn_observed (retainOverlap d g) = gn_observed g"
    "gn_stream (retainOverlap d g) = gn_stream g" "gn_local (retainOverlap d g) = gn_local g"
    "gn_index (retainOverlap d g) = gn_index g" "told (retainOverlap d g) = told g" "written (retainOverlap d g) = written g"
    "accounted (retainOverlap d g) = accounted g" "lossless (retainOverlap d g) = lossless g"
    "gn_origin (retainOverlap d g) = gn_origin g" "gn_complete (retainOverlap d g) = gn_complete g"
  by (auto simp: retainOverlap_def told_def written_def accounted_def lossless_def Let_def)


lemma fed_fromD:
  assumes "fed_from S g"
  shows "accounted g" "gn_pos g = None \<Longrightarrow> gn_observed g = 0" "gn_pos g = Some p \<Longrightarrow> gn_observed g \<le> p"
    "gn_complete g = Complete \<Longrightarrow> gn_pos g = Some (gn_observed g)" "gn_observed g > 0 \<Longrightarrow> gn_origin g"
    "gn_observed g > 0 \<Longrightarrow> gn_stream g = Some i \<Longrightarrow> gn_pos g = Some p
       \<Longrightarrow> piece (S i) (p - gn_observed g) (text_told (told g))"
    "gn_observed g > 0 \<Longrightarrow> gn_stream g \<noteq> None" "gn_observed g = 0 \<Longrightarrow> gn_tail g = []"
  using assms by (auto simp: fed_from_def)

lemma fed_from_stream: "fed_from S g \<Longrightarrow> gn_stream g = None \<Longrightarrow> fed_from S (g\<lparr>gn_stream := i\<rparr>)"
  by (auto simp: fed_from_def accounted_def told_def written_def)

lemma accounted_observed: "accounted g \<Longrightarrow> gn_observed g = int (length (text_told (told g)))"
  by (simp add: accounted_def)

lemma accept_output_lossless:
  assumes ok: "lossless (fst (accept_output T sid off d g0))" and nl: "\<not> gn_local g0"
  defines "g \<equiv> if gn_stream g0 = None then g0\<lparr>gn_stream := sid\<rparr> else g0"
  shows "lossless (fst (place_output sid off d g))" "lossless g0"
proof -
  obtain g1 rest where pl: "place_output sid off d g = (g1, rest)" by fastforce
  have A: "accept_output T sid off d g0 = (case rest of None \<Rightarrow> (g1, None)
      | Some x \<Rightarrow> enqueue_vt T (OutOp x 0) (retainOverlap x (determineOrigin (if gn_local g1 then Some 0 else off) sid g1)))"
    using nl pl by (simp add: accept_output_def g_def Let_def)
  have "lossless g1"
  proof (cases rest)
    case (Some x)
    then show ?thesis using ok A enqueue_lossless by fastforce
  qed (use ok A in simp)
  then show l: "lossless (fst (place_output sid off d g))" using pl by simp
  have "lossless g" by (rule lossless_place [OF l])
  then show "lossless g0" by (simp add: g_def split: if_splits)
qed

text \<open>
  A chunk accepted without a loss continues the stream where the text told so far ends; a replay of
  what was told changes nothing.
\<close>

lemma accept_output_fed:
  assumes F: "fed S g0" and nl: "\<not> gn_local g0" and d: "d \<noteq> []"
    and sid: "sid = None \<or> gn_stream g0 = None \<or> gn_stream g0 = sid"
    and honest: "\<And>i k. sid = Some i \<Longrightarrow> off = Some k \<Longrightarrow> piece (S i) k d"
    and ok: "lossless (fst (accept_output T sid off d g0))"
  defines "h \<equiv> fst (accept_output T sid off d g0)"
  shows "lossless g0 \<and> fed_from S h \<and> gn_index h = gn_index g0 \<and> (\<exists>e. written h = written g0 @ e)
     \<and> (\<forall>c. snd (accept_output T sid off d g0) = Some c \<longrightarrow> callback_ok h c)"
proof -
  define g where "g = (if gn_stream g0 = None then g0\<lparr>gn_stream := sid\<rparr> else g0)"
  have g: "\<not> gn_local g" "told g = told g0" "written g = written g0" "gn_index g = gn_index g0" "lossless g = lossless g0"
    "accounted g = accounted g0" "gn_observed g = gn_observed g0" "gn_pos g = gn_pos g0" "gn_origin g = gn_origin g0"
    "gn_complete g = gn_complete g0" "gn_tail g = gn_tail g0" "gn_tail_start g = gn_tail_start g0"
    using nl by (simp_all add: g_def told_def written_def accounted_def lossless_def)
  obtain g1 rest where pl: "place_output sid off d g = (g1, rest)" by fastforce
  have A: "accept_output T sid off d g0 = (case rest of None \<Rightarrow> (g1, None)
      | Some x \<Rightarrow> enqueue_vt T (OutOp x 0) (retainOverlap x (determineOrigin (if gn_local g1 then Some 0 else off) sid g1)))"
    using g(1) pl by (simp add: accept_output_def g_def [symmetric] Let_def)
  have "lossless (fst (place_output sid off d g))" using accept_output_lossless(1) [OF ok nl] by (simp add: g_def)
  then obtain i k where ik: "sid = Some i" "off = Some k" and lg: "lossless g"
    and kp: "\<And>p. gn_pos g = Some p \<Longrightarrow> k \<le> p"
    and ov: "\<And>p. gn_pos g = Some p \<Longrightarrow> k < p \<Longrightarrow> lossless (check_overlap k p d g)"
    and cs: "place_output sid off d g = (g, None) \<or> (\<exists>rest. place_output sid off d g =
       (g\<lparr>gn_pos := Some (k + int (length d)), gn_cont := Verified\<rparr>, Some rest)
       \<and> (gn_pos g = None \<and> rest = d
         \<or> (\<exists>p. gn_pos g = Some p \<and> rest = drop (nat (p - k)) d \<and> (k < p \<longrightarrow> rest \<noteq> []))))"
    by (rule lossless_place) blast
  have F0: "fed_from S g0" using F nl lg g(5) by (simp add: fed_def)
  have st: "gn_stream g = Some i" using sid ik by (auto simp: g_def)
  show ?thesis
  proof (cases rest)
    case None
    then have "accept_output T sid off d g0 = (g, None)" using A cs pl by auto
    moreover have "fed_from S g" using F0 fed_from_stream by (simp add: g_def)
    ultimately show ?thesis using lg g unfolding h_def by auto
  next
    case (Some x)
    then have g1: "g1 = g\<lparr>gn_pos := Some (k + int (length d)), gn_cont := Verified\<rparr>"
      and x: "gn_pos g = None \<and> x = d
         \<or> (\<exists>p. gn_pos g = Some p \<and> x = drop (nat (p - k)) d \<and> (k < p \<longrightarrow> x \<noteq> []))" using cs pl by auto
    have Fg: "fed_from S g" using F0 fed_from_stream by (simp add: g_def)
    define g2 where "g2 = retainOverlap x (determineOrigin off sid g1)"
    have A': "accept_output T sid off d g0 = enqueue_vt T (OutOp x 0) g2"
      using A Some g(1) by (simp add: g1 g2_def)
    have k1: "told g1 = told g" "written g1 = written g" "accounted g1 = accounted g" "gn_stream g1 = gn_stream g"
        "gn_index g1 = gn_index g" "gn_observed g1 = gn_observed g" "gn_pos g1 = Some (k + int (length d))"
      by (simp_all add: g1 told_def written_def accounted_def)
    have g2: "told g2 = told g" "written g2 = written g" "accounted g2" "gn_stream g2 = Some i" "gn_index g2 = gn_index g"
        "gn_origin g2" "gn_observed g2 = gn_observed g" "gn_pos g2 = Some (k + int (length d))"
      using fed_fromD(1) [OF Fg] st by (simp_all add: g2_def k1)
    have c2: "gn_complete g2 = Complete \<Longrightarrow> gn_complete g = Complete \<or> (k = 0 \<and> \<not> gn_origin g)"
      using origin_complete [of off sid g1] ik by (simp add: g2_def g1)
    have "lossless (fst (enqueue_vt T (OutOp x 0) g2))" using ok A' by simp
    note E = enqueue_keeps [OF this g2(3)]
    let ?t = "text_told (told g)"
    have o: "gn_observed g = int (length ?t)" using accounted_observed fed_fromD(1) [OF Fg] by simp
    have H: "told h = told g @ map Shown x" "accounted h" "gn_observed h = int (length ?t) + int (length x)"
        "gn_pos h = Some (k + int (length d))" "gn_stream h = Some i" "gn_origin h" "gn_index h = gn_index g"
        "gn_complete h = gn_complete g2"
      using E(2-4) g2 o unfolding h_def A' by (simp_all add: same_def)
    have P: "piece (S i) k d" using honest ik by blast
    then have len: "0 \<le> k" "k + int (length d) \<le> int (length (S i))" by (auto simp: piece_def)
    have xne: "x \<noteq> []" using x d kp by (auto simp: le_less)
    have PC: "piece (S i) (k + int (length d) - gn_observed h) (?t @ x)
      \<and> (gn_complete h = Complete \<longrightarrow> k + int (length d) = gn_observed h) \<and> gn_observed h \<le> k + int (length d)"
    proof (cases "gn_pos g")
      case None
      then have "x = d" "?t = []" using x fed_fromD(2) [OF Fg] o by auto
      moreover have "gn_complete h = Complete \<longrightarrow> k = 0" using c2 fed_fromD(4) [OF Fg] None H(8) by auto
      ultimately show ?thesis using P H(3) len by auto
    next
      case (Some p)
      then have xd: "x = drop (nat (p - k)) d" and le: "k \<le> p" using x kp by auto
      have lt: "p < k + int (length d)" using xne xd le by auto
      have lx: "int (length x) = k + int (length d) - p" using xd le lt by (simp add: of_nat_diff)
      have op: "int (length ?t) \<le> p" using fed_fromD(3) [OF Fg Some] o by simp
      have "piece (S i) (p - int (length ?t)) ?t"
      proof (cases "?t = []")
        case True
        then show ?thesis using op lt len by (simp add: piece_def)
      next
        case False
        then show ?thesis using fed_fromD(6) [OF Fg _ st Some] o by simp
      qed
      then have "piece (S i) (p - int (length ?t)) (?t @ x)" using piece_extend P le lt xd by blast
      moreover have "p = int (length ?t)" if "gn_complete h = Complete"
      proof -
        from c2 that H(8) consider "gn_complete g = Complete" | "k = 0" "\<not> gn_origin g" by auto
        then show ?thesis
        proof cases
          case 1
          then show ?thesis using fed_fromD(4) [OF Fg] Some o by simp
        next
          case 2
          then have "gn_observed g = 0" using fed_fromD(5) [OF Fg] o by force
          then have z: "?t = []" "gn_tail g = []" using o fed_fromD(8) [OF Fg] by simp_all
          have "\<not> k < p"
          proof
            assume kp: "k < p"
            then have "lossless (check_overlap k p d g)" using ov Some by blast
            from lossless_overlap [OF this] obtain a where "a \<le> k" "k + min (p - k) (int (length d)) \<le> a"
              using z by auto
            moreover have "0 < length d" using d by simp
            ultimately show False using kp by linarith
          qed
          then show ?thesis using z 2 le by simp
        qed
      qed
      moreover have "p - int (length ?t) = k + int (length d) - gn_observed h" using H(3) lx by simp
      ultimately show ?thesis using op by auto
    qed
    moreover have "gn_observed h \<noteq> 0" using xne by (cases x) (simp_all add: H(3))
    ultimately have "fed_from S h" using H unfolding fed_from_def by auto
    then show ?thesis using E(5,6) H(7) lg g(3-5) g2(2) unfolding h_def A' by auto
  qed
qed


text \<open>The other operations on a bridged generation.\<close>

lemma fed_from_same:
  assumes "fed_from S g" and "same g h" and "told h = told g" and "accounted h"
  shows "fed_from S h"
  using assms unfolding fed_from_def same_def by auto

lemma enqueue_other_fed:
  assumes F: "fed_from S g" and op: "\<not> is_output op" and ok: "lossless (fst (enqueue_vt T op g))"
  defines "h \<equiv> fst (enqueue_vt T op g)"
  shows "fed_from S h \<and> gn_index h = gn_index g \<and> (\<exists>e. written h = written g @ e)
     \<and> (\<forall>c. snd (enqueue_vt T op g) = Some c \<longrightarrow> callback_ok h c)"
proof -
  note E = enqueue_keeps [OF ok fed_fromD(1) [OF F], folded h_def]
  have "op_units op = 0" using op by (cases op) simp_all
  then have "same g h" using E(2) by (simp add: same_def)
  moreover have "text_told (told h) = text_told (told g)" using E(3) op by (simp add: waiting_other)
  ultimately show ?thesis using F E(4-6) unfolding fed_from_def same_def by auto
qed

lemma fed_from_anchor:
  assumes "fed_from S g" and "gn_pos g = None" and "0 \<le> a"
  shows "fed_from S (g\<lparr>gn_pos := Some a\<rparr>)"
  using assms by (auto simp: fed_from_def accounted_def told_def written_def)

lemma accept_geometry_fed:
  assumes F: "fed S g" and nl: "\<not> gn_local g" and ok: "lossless (fst (accept_geometry T c0 r0 at0 src0 sid g))"
  defines "h \<equiv> fst (accept_geometry T c0 r0 at0 src0 sid g)"
  shows "lossless g \<and> fed_from S h \<and> gn_index h = gn_index g \<and> (\<exists>e. written h = written g @ e)
     \<and> (\<forall>c. snd (accept_geometry T c0 r0 at0 src0 sid g) = Some c \<longrightarrow> callback_ok h c)"
proof -
  define g1 where "g1 = (if gn_stream g = None then g\<lparr>gn_stream := sid\<rparr> else g)"
  define at where "at = (if absent at0 then None else Some (num_of at0))"
  define g2 where "g2 = (if at \<noteq> None \<and> gn_pos g1 = None then g1\<lparr>gn_pos := at\<rparr> else g1)"
  have dims: "sanitizeDimension c0 \<noteq> None" "sanitizeDimension r0 \<noteq> None"
    and aok: "absent at0 \<or> isSafeOffset at0"
    using ok by (auto simp: accept_geometry_def Let_def split: option.splits if_splits)
  have "\<exists>op. \<not> is_output op \<and> accept_geometry T c0 r0 at0 src0 sid g = enqueue_vt T op g2"
  proof -
    have n: "\<not> (\<not> absent at0 \<and> \<not> isSafeOffset at0)" using aok by blast
    obtain cols rows where cr: "sanitizeDimension c0 = Some cols" "sanitizeDimension r0 = Some rows" using dims by auto
    show ?thesis
      unfolding accept_geometry_def cr prod.case option.case Let_def g1_def [symmetric] if_not_P [OF n] at_def [symmetric]
        g2_def [symmetric]
      by (intro exI conjI, rule_tac [2] refl) simp
  qed
  then obtain op where op: "\<not> is_output op" and e: "accept_geometry T c0 r0 at0 src0 sid g = enqueue_vt T op g2" by blast
  have l2: "lossless g2" using ok enqueue_lossless unfolding e by blast
  then have lg: "lossless g" by (simp add: g2_def g1_def split: if_splits)
  then have "fed_from S g1" using F nl fed_from_stream by (simp add: fed_def g1_def)
  moreover have "0 \<le> a" if "at = Some a" for a
    using that aok by (auto simp: at_def isSafeOffset_def num_of_def split: if_splits option.splits json.splits)
  ultimately have "fed_from S g2" using fed_from_anchor by (auto simp: g2_def)
  moreover have "gn_index g2 = gn_index g" "written g2 = written g" by (simp_all add: g2_def g1_def written_def)
  ultimately show ?thesis using enqueue_other_fed [OF _ op ok [unfolded e]] lg unfolding h_def e by simp
qed

lemma acknowledge_fed:
  assumes F: "fed S g" and nl: "\<not> gn_local g" and c: "lossless g \<Longrightarrow> callback_ok g c"
    and ok: "lossless (fst (acknowledge T c g))"
  defines "h \<equiv> fst (acknowledge T c g)"
  shows "lossless g \<and> fed_from S h \<and> gn_index h = gn_index g \<and> (\<exists>e. written h = written g @ e)
     \<and> (\<forall>b. snd (acknowledge T c g) = Some b \<longrightarrow> callback_ok h b)"
proof -
  define g1 where "g1 = g\<lparr>gn_writing := False, gn_applied := max (gn_applied g) (cb_mark c), gn_audit := gn_audit g + cb_units c\<rparr>"
  have audit: "lossless (auditCellGrowth T k) \<Longrightarrow> auditCellGrowth T k = k" for k
    by (auto simp: auditCellGrowth_def stopGeneration_def lossless_def releaseDrainWaiters_def add_reason_def
        split: option.splits if_splits)
  have "\<exists>n. acknowledge T c g = pump T (g1\<lparr>gn_audit := n\<rparr>)"
  proof (cases "gn_audit g1 \<ge> VT_CELL_AUDIT_INTERVAL_UNITS")
    case False
    then have "acknowledge T c g = pump T (g1\<lparr>gn_audit := gn_audit g1\<rparr>)"
      by (simp add: acknowledge_def g1_def [symmetric] Let_def)
    then show ?thesis by blast
  next
    case True
    let ?k = "auditCellGrowth T (g1\<lparr>gn_audit := 0\<rparr>)"
    have e: "acknowledge T c g = (if gn_stopped ?k then (?k, None) else pump T ?k)"
      using True by (simp add: acknowledge_def g1_def [symmetric] Let_def)
    then have "lossless ?k" using ok pump_lossless [of T ?k] by (auto split: if_splits)
    then have "?k = g1\<lparr>gn_audit := 0\<rparr>" and "\<not> gn_stopped ?k" using audit by (blast, simp add: lossless_def)
    then show ?thesis using e by auto
  qed
  then obtain n where e: "acknowledge T c g = pump T (g1\<lparr>gn_audit := n\<rparr>)" by blast
  let ?g2 = "g1\<lparr>gn_audit := n\<rparr>"
  have lg: "lossless g" using ok pump_lossless [of T ?g2] unfolding e by (simp add: g1_def)
  then have Fg: "fed_from S g" using F nl by (simp add: fed_def)
  have k: "told ?g2 = told g" "written ?g2 = written g" "gn_index ?g2 = gn_index g"
    by (simp_all add: g1_def told_def written_def)
  have f: "gn_observed ?g2 = gn_observed g" "gn_applied ?g2 = max (gn_applied g) (cb_mark c)" "gn_queue ?g2 = gn_queue g"
      "gn_dropped ?g2 = gn_dropped g" by (simp_all add: g1_def)
  have acc: "accounted ?g2" using fed_fromD(1) [OF Fg] c [OF lg] unfolding accounted_def callback_ok_def k f by auto
  have F2: "fed_from S ?g2" using Fg acc unfolding fed_from_def k by (simp add: g1_def)
  note P = pump_keeps [OF ok [unfolded e] acc]
  then show ?thesis using fed_from_same [OF F2] lg k unfolding h_def e by (auto simp: same_def)
qed

end
