(* ===== verification/Vt_Stream.thy ===== *)
theory Vt_Stream
  imports Vt_Laws
begin

text \<open>
  Runs of a screen. The invariant of every generation it goes through, over any sequence of
  messages, callbacks, rotations and reads, and what it says of the frames that are read.
\<close>

section \<open>Which generation it is\<close>

definition ident :: "gen \<Rightarrow> int \<times> bool" where
  "ident g = (gn_index g, gn_local g)"

lemma ident_simps [vt_simps]:
  "ident (add_reason r g) = ident g" "ident (degradeCompleteness c g) = ident g"
  "ident (degradeContinuity v g) = ident g" "ident (verifyContinuity g) = ident g" "ident (noteLoss n r g) = ident g"
  "ident (determineOrigin off sid g) = ident g" "ident (releaseDrainWaiters g) = ident g"
  "ident (retainOverlap d g) = ident g" "ident (stopGeneration g) = ident g" "ident (applyDropped a b g) = ident g"
  "ident (ensureTerminal T g) = ident g"
  by (simp_all add: ident_def add_reason_def degradeCompleteness_def degradeContinuity_def verifyContinuity_def noteLoss_def
      determineOrigin_def releaseDrainWaiters_def retainOverlap_def stopGeneration_def applyDropped_def ensureTerminal_def
      Let_def split: lib_state.split)

lemma ident_fields [vt_simps]:
  "ident (g\<lparr>gn_geo := a\<rparr>) = ident g" "ident (g\<lparr>gn_cols := b\<rparr>) = ident g" "ident (g\<lparr>gn_rows := b\<rparr>) = ident g"
  "ident (g\<lparr>gn_term := t\<rparr>) = ident g" "ident (g\<lparr>gn_queue := q\<rparr>) = ident g" "ident (g\<lparr>gn_queued := n\<rparr>) = ident g"
  "ident (g\<lparr>gn_geo_first := c\<rparr>) = ident g" "ident (g\<lparr>gn_writing := c\<rparr>) = ident g" "ident (g\<lparr>gn_pos := p\<rparr>) = ident g"
  "ident (g\<lparr>gn_tail := d\<rparr>) = ident g" "ident (g\<lparr>gn_tail_start := p\<rparr>) = ident g" "ident (g\<lparr>gn_stream := i\<rparr>) = ident g"
  "ident (g\<lparr>gn_applied := n\<rparr>) = ident g" "ident (g\<lparr>gn_observed := n\<rparr>) = ident g" "ident (g\<lparr>gn_audit := n\<rparr>) = ident g"
  "ident (g\<lparr>gn_waiters := ws\<rparr>) = ident g" "ident (g\<lparr>gn_origin := c\<rparr>) = ident g"
  by (simp_all add: ident_def)

lemma ident_resize [vt_simps]: "ident (applyResize T op g) = ident g"
  by (simp add: applyResize_def vt_simps Let_def split: option.split)

lemma ident_heads [vt_simps]: "ident (run_heads T ops g) = ident g"
  by (induction T ops g rule: run_heads.induct) (simp_all add: vt_simps)

lemma ident_write [vt_simps]: "ident (fst (write_chunk T d m g)) = ident g"
  by (simp add: write_chunk_def Let_def vt_simps split: option.split)

lemma ident_pump [vt_simps]: "ident (fst (pump T g)) = ident g"
  by (simp add: pump_def Let_def vt_simps split: prod.split)

lemma ident_enqueue [vt_simps]: "ident (fst (enqueue_vt T op g)) = ident g"
  by (simp add: enqueue_vt_def Let_def vt_simps)

lemma ident_place [vt_simps]: "ident (fst (place_output sid off d g)) = ident g"
  by (auto simp: place_output_def moved_to_def check_overlap_def Let_def vt_simps split: option.split)

lemma ident_placed: "place_output sid off d g = (h, r) \<Longrightarrow> ident h = ident g"
  using ident_place [of sid off d g] by simp

lemma ident_accept [vt_simps]: "ident (fst (accept_output T sid off d g)) = ident g"
proof -
  define g0 where "g0 = (if gn_stream g = None then g\<lparr>gn_stream := sid\<rparr> else g)"
  have "ident g0 = ident g" by (simp add: g0_def vt_simps)
  then show ?thesis using ident_placed [of sid off d g0]
    by (cases "place_output sid off d g0")
      (auto simp: accept_output_def g0_def [symmetric] Let_def vt_simps split: option.splits)
qed

lemma ident_geometry [vt_simps]: "ident (fst (accept_geometry T c r a src sid g)) = ident g"
  by (auto simp: accept_geometry_def Let_def vt_simps split: option.split)

lemma ident_offset [vt_simps]: "ident (fst (read_offset v g)) = ident g"
  by (simp add: read_offset_def vt_simps)

lemma ident_acknowledge [vt_simps]: "ident (fst (acknowledge T c g)) = ident g"
  by (simp add: acknowledge_def auditCellGrowth_def Let_def vt_simps split: option.split)

text \<open>Every callback that is left due names the generation that wrote.\<close>

lemma pump_callback: "snd (pump T g) = Some c \<Longrightarrow> cb_gen c = gn_index g"
proof -
  have i: "gn_index (ensureTerminal T (run_heads T (gn_queue g) g)) = gn_index g"
    using ident_heads [of T "gn_queue g" g] ident_simps(11) [of T "run_heads T (gn_queue g) g"] by (simp add: ident_def)
  assume "snd (pump T g) = Some c"
  then show ?thesis by (auto simp: pump_def Let_def write_chunk_def i split: prod.splits option.splits if_splits)
qed

lemma enqueue_callback: "snd (enqueue_vt T op g) = Some c \<Longrightarrow> cb_gen c = gn_index g"
  by (auto simp: enqueue_vt_def Let_def split: if_splits dest: pump_callback)

lemma accept_callback: "snd (accept_output T sid off d g) = Some c \<Longrightarrow> cb_gen c = gn_index g"
proof -
  define g0 where "g0 = (if gn_stream g = None then g\<lparr>gn_stream := sid\<rparr> else g)"
  have "gn_index (retainOverlap x (determineOrigin o' sid (fst (place_output sid off d g0)))) = gn_index g" for x o'
    using ident_simps(6,8) ident_place [of sid off d g0] by (simp add: ident_def g0_def)
  moreover have "gn_index (retainOverlap x (determineOrigin o' sid (g0\<lparr>gn_pos := p\<rparr>))) = gn_index g" for x o' p
    by (simp add: g0_def)
  moreover assume "snd (accept_output T sid off d g) = Some c"
  ultimately show ?thesis
    by (cases "place_output sid off d g0")
      (auto simp: accept_output_def g0_def [symmetric] Let_def split: option.splits if_splits dest!: enqueue_callback)
qed

lemma geometry_callback: "snd (accept_geometry T c0 r0 a src sid g) = Some c \<Longrightarrow> cb_gen c = gn_index g"
  by (auto simp: accept_geometry_def Let_def split: option.splits if_splits dest!: enqueue_callback)

lemma acknowledge_callback: "snd (acknowledge T c g) = Some b \<Longrightarrow> cb_gen b = gn_index g"
proof -
  have "gn_index (auditCellGrowth T k) = gn_index k" for k
    using ident_acknowledge by (simp add: auditCellGrowth_def stopGeneration_def releaseDrainWaiters_def
        degradeCompleteness_def add_reason_def split: option.split)
  then show "snd (acknowledge T c g) = Some b \<Longrightarrow> cb_gen b = gn_index g"
    by (auto simp: acknowledge_def Let_def split: if_splits dest!: pump_callback)
qed


section \<open>The invariant of a run\<close>

definition marks_behind :: "vt_callback list \<Rightarrow> gen \<Rightarrow> bool" where
  "marks_behind cs g \<longleftrightarrow> (\<forall>c \<in> set cs. cb_gen c = gn_index g \<longrightarrow> callback_ok g c)"

definition screen_inv :: "(units \<Rightarrow> units) \<Rightarrow> screen \<Rightarrow> bool" where
  "screen_inv S s \<longleftrightarrow> (\<forall>c \<in> set (sc_callbacks s). cb_gen c \<le> sc_counter s)
     \<and> (\<forall>g. sc_gen s = Some g \<longrightarrow> gn_index g = sc_counter s \<and> fed S g
         \<and> (\<not> gn_local g \<longrightarrow> lossless g \<longrightarrow> marks_behind (sc_callbacks s) g))"

text \<open>A chunk that names a stream and a usable offset is a piece of that stream.\<close>

definition honest :: "(units \<Rightarrow> units) \<Rightarrow> vterm \<times> vt_event \<Rightarrow> bool" where
  "honest S e \<longleftrightarrow> (case snd e of
     Output d i k \<Rightarrow> is_string d \<longrightarrow> sanitizeStreamId i \<noteq> None \<longrightarrow> isSafeOffset k \<longrightarrow>
       piece (S (the (sanitizeStreamId i))) (num_of k) (text_of d)
   | _ \<Rightarrow> True)"

lemma screen_invD:
  assumes "screen_inv S s" and "sc_gen s = Some g"
  shows "gn_index g = sc_counter s" "fed S g" "\<not> gn_local g \<Longrightarrow> lossless g \<Longrightarrow> marks_behind (sc_callbacks s) g"
    "\<forall>c \<in> set (sc_callbacks s). cb_gen c \<le> sc_counter s"
  using assms by (simp_all add: screen_inv_def)

lemma callback_ok_extend: "callback_ok g c \<Longrightarrow> gn_index h = gn_index g \<Longrightarrow> written h = written g @ e \<Longrightarrow> callback_ok h c"
  by (simp add: callback_ok_def)

lemma put_gen_inv:
  assumes I: "screen_inv S s" and g: "sc_gen s = Some g"
    and id: "ident (fst p) = ident g" and cb: "\<And>c. snd p = Some c \<Longrightarrow> cb_gen c = gn_index g"
    and keeps: "\<not> gn_local g \<Longrightarrow> lossless (fst p) \<Longrightarrow> lossless g \<and> fed_from S (fst p)
      \<and> (\<exists>e. written (fst p) = written g @ e) \<and> (\<forall>c. snd p = Some c \<longrightarrow> callback_ok (fst p) c)"
    and sub: "set cs \<subseteq> set (sc_callbacks s)"
  shows "screen_inv S (put_gen (s\<lparr>sc_callbacks := cs\<rparr>) p)"
proof -
  have i: "gn_index (fst p) = gn_index g" "gn_local (fst p) = gn_local g" using id by (simp_all add: ident_def)
  have "marks_behind (cs @ (case snd p of None \<Rightarrow> [] | Some c \<Rightarrow> [c])) (fst p)"
    if n: "\<not> gn_local g" and l: "lossless (fst p)"
  proof -
    from keeps [OF n l] obtain e where e: "lossless g" "written (fst p) = written g @ e"
      "\<And>c. snd p = Some c \<Longrightarrow> callback_ok (fst p) c" by blast
    then show ?thesis using screen_invD(3) [OF I g n] callback_ok_extend [OF _ i(1) e(2)] sub i
      by (auto simp: marks_behind_def split: option.splits)
  qed
  then show ?thesis using I g i cb keeps sub unfolding screen_inv_def put_gen_def fed_def
    by (auto split: option.splits)
qed

lemma set_gen_inv:
  assumes I: "screen_inv S s" and g: "sc_gen s = Some g" and id: "ident h = ident g"
    and keeps: "\<not> gn_local g \<Longrightarrow> lossless h \<Longrightarrow> lossless g \<and> fed_from S h \<and> written h = written g"
  shows "screen_inv S (s\<lparr>sc_gen := Some h\<rparr>)"
  using put_gen_inv [OF I g, of "(h, None)" "sc_callbacks s"] id keeps by (simp add: put_gen_def)

lemma fresh_fed:
  "fed S (ensureTerminal T (refuse_geometry opts (restore_floor b (fresh_gen n sid c opts))))"
proof -
  let ?f = "fresh_gen n sid c opts"
  define g where "g = refuse_geometry opts (restore_floor b ?f)"
  have f: "gn_pos g = gn_pos ?f" "gn_observed g = 0" "gn_applied g = 0" "gn_dropped g = 0" "gn_queue g = []" "gn_term g = None"
      "gn_tail g = []" "gn_local g = go_local opts" "gn_complete g = Complete \<longrightarrow> gn_complete ?f = Complete"
    by (auto simp: g_def refuse_geometry_def restore_floor_def degradeCompleteness_def add_reason_def fresh_gen_def Let_def)
  have "fed_from S g" if "\<not> go_local opts"
    using f that by (auto simp: fed_from_def accounted_def told_def written_def fresh_gen_def Let_def split: if_splits)
  then have "fed_from S (ensureTerminal T g)" if "\<not> go_local opts" "lossless (ensureTerminal T g)"
    using that fed_from_same [of S g "ensureTerminal T g"] lossless_ensure [of T g]
    by (auto simp: told_def accounted_def same_def written_def fed_from_def)
  moreover have "gn_local (ensureTerminal T g) = go_local opts"
    using ident_simps(11) [of T g] f by (simp add: ident_def)
  ultimately show ?thesis by (simp add: fed_def g_def)
qed

lemma newGeneration_inv:
  assumes "screen_inv S s"
  shows "screen_inv S (newGeneration T c opts s)"
proof (cases "sc_disposed s")
  case False
  let ?n = "sc_counter s + 1"
  have i: "gn_index (ensureTerminal T (refuse_geometry opts (restore_floor b (fresh_gen ?n sid k opts)))) = ?n" for b sid k
    using ident_simps(11) by (simp add: ident_def refuse_geometry_def restore_floor_def degradeCompleteness_def
        add_reason_def fresh_gen_def Let_def)
  have "\<forall>c \<in> set (sc_callbacks s). cb_gen c \<le> sc_counter s" using assms by (simp add: screen_inv_def)
  then show ?thesis using i fresh_fed False
    by (fastforce simp: newGeneration_def Let_def screen_inv_def teardownGeneration_def marks_behind_def)
qed (use assms in \<open>simp add: newGeneration_def\<close>)

lemma pending_inv: "screen_inv S (s\<lparr>sc_pending := p\<rparr>) = screen_inv S s"
  by (simp add: screen_inv_def)

lemma not_lossless_set:
  assumes "screen_inv S s" "sc_gen s = Some g" "ident h = ident g" "\<not> lossless h"
  shows "screen_inv S (s\<lparr>sc_gen := Some h\<rparr>)"
  using set_gen_inv [OF assms(1-3)] assms(4) by blast


lemma read_offset_lossless:
  "read_offset v g = (h, k) \<Longrightarrow> lossless h \<Longrightarrow> h = g \<and> (absent v \<and> k = None \<or> isSafeOffset v \<and> k = Some (num_of v))"
  by (auto simp: read_offset_def split: if_splits)

lemma accept_inv:
  assumes I: "screen_inv S s" and g: "sc_gen s = Some g" and d: "is_string data" "text_of data \<noteq> []"
    and h: "honest S (T, Output data i k)"
    and st: "sid = sanitizeStreamId i" "sid = None \<or> gn_stream g = None \<or> gn_stream g = sid \<or> gn_local g"
    and ro: "read_offset k g = (g1, off)"
  shows "screen_inv S (put_gen s (accept_output T sid off (text_of data) g1))"
proof -
  have idg: "ident g1 = ident g" using ident_offset [of k g] ro by simp
  have "screen_inv S (put_gen (s\<lparr>sc_callbacks := sc_callbacks s\<rparr>) (accept_output T sid off (text_of data) g1))"
  proof (rule put_gen_inv [OF I g])
    show "ident (fst (accept_output T sid off (text_of data) g1)) = ident g" by (simp add: vt_simps idg)
    show "\<And>c. snd (accept_output T sid off (text_of data) g1) = Some c \<Longrightarrow> cb_gen c = gn_index g"
      using accept_callback idg by (fastforce simp: ident_def)
    assume nl: "\<not> gn_local g" and l: "lossless (fst (accept_output T sid off (text_of data) g1))"
    show "lossless g \<and> fed_from S (fst (accept_output T sid off (text_of data) g1))
        \<and> (\<exists>e. written (fst (accept_output T sid off (text_of data) g1)) = written g @ e)
        \<and> (\<forall>c. snd (accept_output T sid off (text_of data) g1) = Some c
             \<longrightarrow> callback_ok (fst (accept_output T sid off (text_of data) g1)) c)"
    proof (cases "lossless g1")
      case True
      note r = read_offset_lossless [OF ro True]
      have "piece (S i') k' (text_of data)" if "sid = Some i'" "off = Some k'" for i' k'
      proof -
        have "sanitizeStreamId i = Some i'" using st(1) that(1) by simp
        moreover have "isSafeOffset k" "k' = num_of k" using r that(2) by auto
        ultimately show ?thesis using h d(1) by (auto simp: honest_def)
      qed
      then show ?thesis using accept_output_fed [OF screen_invD(2) [OF I g] nl d(2) _ _ l [unfolded r [THEN conjunct1]]] st nl r by auto
    next
      case False
      have "\<not> gn_local g1" using nl idg by (simp add: ident_def)
      then show ?thesis using accept_output_lossless(2) [OF l] False by simp
    qed
  qed (rule subset_refl)
  then show ?thesis by simp
qed


lemma confirm_inv:
  assumes "screen_inv S s"
  shows "screen_inv S (confirm_stream T sid off s)"
proof -
  obtain t pending where t: "takePendingGeometry sid off (sc_pending s) = (t, pending)" by fastforce
  have I: "screen_inv S (newGeneration T c opts (s\<lparr>sc_pending := pending\<rparr>))" for c opts
    using newGeneration_inv assms pending_inv by blast
  have J: "screen_inv S (k\<lparr>sc_gen := map_option (add_reason GeometryPendingUnusable) (sc_gen k)\<rparr>)" if "screen_inv S k" for k
  proof (cases "sc_gen k")
    case (Some g)
    then show ?thesis using not_lossless_set [OF that Some, of "add_reason GeometryPendingUnusable g"] by (simp add: vt_simps)
  qed (use that in \<open>simp add: screen_inv_def\<close>)
  show ?thesis unfolding confirm_stream_def t prod.case Let_def using I J by (simp split: if_splits)
qed

text \<open>The generation a confirmed stream gets is that stream's.\<close>

lemma confirm_stream_is:
  assumes "sc_gen (confirm_stream T sid off s) = Some g" and "sanitizeStreamId (Some (VStr sid)) = Some sid"
    and "\<not> sc_disposed s"
  shows "gn_stream g = Some sid"
proof -
  have st: "gn_stream (ensureTerminal T h) = gn_stream h" "gn_stream (add_reason r h) = gn_stream h"
      "gn_stream (refuse_geometry opts h) = gn_stream h" "gn_stream (restore_floor b h) = gn_stream h" for h r opts b
    by (simp_all add: ensureTerminal_def add_reason_def refuse_geometry_def restore_floor_def degradeCompleteness_def
        Let_def split: lib_state.split)
  have new: "gn_stream h = Some sid"
    if "sc_gen (newGeneration T c opts (s\<lparr>sc_pending := p\<rparr>)) = Some h" "go_stream opts = Some (VStr sid)" for c opts p h
    using that assms(2,3) by (auto simp: newGeneration_def Let_def st fresh_gen_def)
  obtain t pending where t: "takePendingGeometry sid off (sc_pending s) = (t, pending)" by fastforce
  define opts where "opts = (case t of Parked c r src \<Rightarrow>
      no_options\<lparr>go_stream := Some (VStr sid), go_source := Some (vtext ''unverified''), go_cols := map_option VInt c, go_rows := map_option VInt r,
                   go_source := Some (vtext (if src = LocalPty then ''local_pty'' else ''bridge_reported''))\<rparr>
            | _ \<Rightarrow> no_options\<lparr>go_stream := Some (VStr sid), go_source := Some (vtext ''unverified'')\<rparr>)"
  have o: "go_stream opts = Some (VStr sid)" by (cases t) (simp_all add: opts_def)
  let ?n = "newGeneration T (Some StreamChanged) opts (s\<lparr>sc_pending := pending\<rparr>)"
  have "confirm_stream T sid off s = (if t = Unusable
      then ?n\<lparr>sc_gen := map_option (add_reason GeometryPendingUnusable) (sc_gen ?n)\<rparr> else ?n)"
    unfolding confirm_stream_def t prod.case Let_def opts_def by (rule refl)
  then show ?thesis using assms(1) new [OF _ o] by (auto simp: st split: if_splits)
qed

lemma sanitize_again: "sanitizeStreamId v = Some i \<Longrightarrow> sanitizeStreamId (Some (VStr i)) = Some i"
  by (auto simp: sanitizeStreamId_def split: option.splits json.splits if_splits)

lemma noteOutput_inv:
  assumes I: "screen_inv S s" and h: "honest S (T, Output data i k)"
  shows "screen_inv S (noteOutput T data i k s)"
proof (cases "sc_gen s")
  case None
  then show ?thesis using I by (simp add: noteOutput_def)
next
  case (Some g)
  note bad = not_lossless_set [OF I Some]
  obtain g1 off where ro: "read_offset k g = (g1, off)" by fastforce
  have id1: "ident g1 = ident g" using ident_offset [of k g] ro by simp
  have st1: "gn_stream g1 = gn_stream g"
    using ro by (auto simp: read_offset_def degradeContinuity_def add_reason_def Let_def split: if_splits)
  let ?sid = "sanitizeStreamId i" and ?d = "text_of data"
  consider "sc_disposed s" | "\<not> sc_disposed s" "\<not> is_string data" | "\<not> sc_disposed s" "is_string data" "?d = []"
    | "\<not> sc_disposed s" "is_string data" "?d \<noteq> []" "\<not> absent i \<and> ?sid = None"
    | "\<not> sc_disposed s" "is_string data" "?d \<noteq> []" "\<not> (\<not> absent i \<and> ?sid = None)" by blast
  then show ?thesis
  proof cases
    case 5
    let ?rot = "?sid \<noteq> None \<and> gn_stream g1 \<noteq> None \<and> ?sid \<noteq> gn_stream g1 \<and> \<not> gn_local g1"
    have e: "noteOutput T data i k s = (if ?rot
        then let s1 = confirm_stream T (the ?sid) off (s\<lparr>sc_gen := Some g1\<rparr>) in
          (case sc_gen s1 of None \<Rightarrow> s1
           | Some g2 \<Rightarrow> put_gen s1 (accept_output T ?sid off ?d (fst (read_offset k g2))))
        else put_gen s (accept_output T ?sid off ?d g1))"
    proof -
      have n: "\<not> \<not> is_string data" using 5(2) by simp
      show ?thesis
        unfolding noteOutput_def Some option.case Let_def if_not_P [OF 5(1)] if_not_P [OF n] if_not_P [OF 5(3)]
          if_not_P [OF 5(4)] ro prod.case by (rule refl)
    qed
    show ?thesis
    proof (cases ?rot)
      case False
      then have "?sid = None \<or> gn_stream g = None \<or> gn_stream g = ?sid \<or> gn_local g" using id1 st1 by (auto simp: ident_def)
      then show ?thesis using accept_inv [OF I Some 5(2,3) h refl _ ro] trans [OF e if_not_P [OF False]] by simp
    next
      case True
      let ?s1 = "confirm_stream T (the ?sid) off (s\<lparr>sc_gen := Some g1\<rparr>)"
      have "screen_inv S (s\<lparr>sc_gen := Some g1\<rparr>)"
        using set_gen_inv [OF I Some id1] read_offset_lossless [OF ro] screen_invD(2) [OF I Some] by (auto simp: fed_def)
      then have I1: "screen_inv S ?s1" by (rule confirm_inv)
      show ?thesis
      proof (cases "sc_gen ?s1")
        case None
        then show ?thesis using I1 trans [OF e if_P [OF True]] by simp
      next
        case S1: (Some g2)
        have "gn_stream g2 = Some (the ?sid)"
          using confirm_stream_is [OF S1] sanitize_again True 5(1) by fastforce
        then have st2: "?sid = None \<or> gn_stream g2 = None \<or> gn_stream g2 = ?sid \<or> gn_local g2" using True by auto
        have "read_offset k g2 = (fst (read_offset k g2), off)"
          using ro by (auto simp: read_offset_def split: if_splits)
        from accept_inv [OF I1 S1 5(2,3) h refl st2 this] show ?thesis using trans [OF e if_P [OF True]] S1 by simp
      qed
    qed
  qed (use I Some bad in \<open>auto simp: noteOutput_def vt_simps Let_def\<close>)
qed

lemma noteGeometry_inv:
  assumes I: "screen_inv S s"
  shows "screen_inv S (noteGeometry T c r i a src s)"
proof (cases "sc_gen s")
  case (Some g)
  have "screen_inv S (put_gen (s\<lparr>sc_callbacks := sc_callbacks s\<rparr>) (accept_geometry T c r a src sid g))" for sid
  proof (rule put_gen_inv [OF I Some])
    show "\<And>b. snd (accept_geometry T c r a src sid g) = Some b \<Longrightarrow> cb_gen b = gn_index g" by (rule geometry_callback)
    assume "\<not> gn_local g" "lossless (fst (accept_geometry T c r a src sid g))"
    from accept_geometry_fed [OF screen_invD(2) [OF I Some] this]
    show "lossless g \<and> fed_from S (fst (accept_geometry T c r a src sid g))
        \<and> (\<exists>e. written (fst (accept_geometry T c r a src sid g)) = written g @ e)
        \<and> (\<forall>b. snd (accept_geometry T c r a src sid g) = Some b \<longrightarrow> callback_ok (fst (accept_geometry T c r a src sid g)) b)"
      by blast
  qed (simp_all add: vt_simps)
  moreover have "screen_inv S (s\<lparr>sc_gen := Some (add_reason InvalidStreamId (g\<lparr>gn_geo := GeoUnverified\<rparr>))\<rparr>)"
    using not_lossless_set [OF I Some] by (simp add: vt_simps)
  ultimately show ?thesis using I Some by (auto simp: noteGeometry_def pending_inv Let_def)
qed (use I in \<open>simp add: noteGeometry_def\<close>)

lemma noteDropped_inv:
  assumes I: "screen_inv S s"
  shows "screen_inv S (noteDropped T a b i s)"
proof (cases "sc_gen s")
  case (Some g)
  have "screen_inv S (put_gen (s\<lparr>sc_callbacks := sc_callbacks s\<rparr>) (enqueue_vt T (DropOp sid x y) g))" for sid x y
  proof (rule put_gen_inv [OF I Some])
    show "\<And>c. snd (enqueue_vt T (DropOp sid x y) g) = Some c \<Longrightarrow> cb_gen c = gn_index g" by (rule enqueue_callback)
    assume "\<not> gn_local g" and l: "lossless (fst (enqueue_vt T (DropOp sid x y) g))"
    moreover have lg: "lossless g" using l enqueue_lossless by blast
    ultimately have "fed_from S g" using screen_invD(2) [OF I Some] by (simp add: fed_def)
    from enqueue_other_fed [OF this _ l] lg
    show "lossless g \<and> fed_from S (fst (enqueue_vt T (DropOp sid x y) g))
        \<and> (\<exists>e. written (fst (enqueue_vt T (DropOp sid x y) g)) = written g @ e)
        \<and> (\<forall>c. snd (enqueue_vt T (DropOp sid x y) g) = Some c \<longrightarrow> callback_ok (fst (enqueue_vt T (DropOp sid x y) g)) c)"
      by simp
  qed (simp_all add: vt_simps)
  moreover have "screen_inv S (s\<lparr>sc_gen := Some (degradeContinuity Invalid (add_reason InvalidStreamId g))\<rparr>)"
    "screen_inv S (s\<lparr>sc_gen := Some (degradeCompleteness PartialLoss (add_reason DropBoundsInvalid g))\<rparr>)"
    using not_lossless_set [OF I Some] by (simp_all add: vt_simps)
  ultimately show ?thesis using I Some by (auto simp: noteDropped_def Let_def)
qed (use I in \<open>simp add: noteDropped_def\<close>)

lemma onWritten_inv:
  assumes I: "screen_inv S s"
  shows "screen_inv S (onWritten T k s)"
proof (cases "k < length (sc_callbacks s)")
  case True
  define c where "c = sc_callbacks s ! k"
  define cs where "cs = take k (sc_callbacks s) @ drop (Suc k) (sc_callbacks s)"
  have cin: "c \<in> set (sc_callbacks s)" and sub: "set cs \<subseteq> set (sc_callbacks s)"
    using True by (auto simp: c_def cs_def dest: in_set_takeD in_set_dropD)
  have drop_inv: "screen_inv S (s\<lparr>sc_callbacks := cs\<rparr>)"
    using I sub by (auto simp: screen_inv_def marks_behind_def)
  have e: "onWritten T k s = (case sc_gen s of None \<Rightarrow> s\<lparr>sc_callbacks := cs\<rparr>
      | Some g \<Rightarrow> if sc_disposed s \<or> gn_index g \<noteq> cb_gen c then s\<lparr>sc_callbacks := cs\<rparr>
        else put_gen (s\<lparr>sc_callbacks := cs\<rparr>) (acknowledge T c g))"
    using True by (simp add: onWritten_def c_def cs_def Let_def split: option.split)
  show ?thesis
  proof (cases "sc_gen s")
    case (Some g)
    have "screen_inv S (put_gen (s\<lparr>sc_callbacks := cs\<rparr>) (acknowledge T c g))" if m: "gn_index g = cb_gen c"
    proof (rule put_gen_inv [OF I Some])
      show "\<And>b. snd (acknowledge T c g) = Some b \<Longrightarrow> cb_gen b = gn_index g" by (rule acknowledge_callback)
      assume nl: "\<not> gn_local g" and l: "lossless (fst (acknowledge T c g))"
      have "lossless g \<Longrightarrow> callback_ok g c"
        using screen_invD(3) [OF I Some nl] cin m by (auto simp: marks_behind_def)
      from acknowledge_fed [OF screen_invD(2) [OF I Some] nl this l]
      show "lossless g \<and> fed_from S (fst (acknowledge T c g)) \<and> (\<exists>e. written (fst (acknowledge T c g)) = written g @ e)
          \<and> (\<forall>b. snd (acknowledge T c g) = Some b \<longrightarrow> callback_ok (fst (acknowledge T c g)) b)"
        by blast
    qed (simp_all add: vt_simps sub)
    then show ?thesis using e drop_inv Some by auto
  qed (use e drop_inv in simp)
qed (use I in \<open>simp add: onWritten_def\<close>)


lemma wait_inv:
  assumes I: "screen_inv S s"
  shows "screen_inv S (waitForDrain r s)"
proof (cases "sc_gen s")
  case (Some g)
  let ?h = "g\<lparr>gn_waiters := gn_waiters g @ [r]\<rparr>"
  have k: "told ?h = told g" "written ?h = written g" "accounted ?h = accounted g" "same g ?h"
    by (simp_all add: told_def written_def accounted_def same_def)
  have "screen_inv S (s\<lparr>sc_gen := Some ?h\<rparr>)"
    using set_gen_inv [OF I Some, of ?h] screen_invD(2) [OF I Some] fed_from_same [of S g ?h] fed_fromD(1) [of S g] k
    by (auto simp: vt_simps fed_def)
  then show ?thesis using I Some by (simp add: waitForDrain_def)
qed (use I in \<open>simp add: waitForDrain_def\<close>)

lemma step_inv:
  assumes "honest S e" and "screen_inv S s"
  shows "screen_inv S (vt_step e s)"
proof -
  obtain T ev where e: "e = (T, ev)" by fastforce
  have r: "screen_inv S (snd (readFrameSync T b s))" for b
    using assms(2) by (simp add: readFrameSync_def screen_inv_def Let_def split: option.split)
  have d: "screen_inv S (dispose s)"
    using assms(2) by (auto simp: dispose_def teardownGeneration_def screen_inv_def)
  show ?thesis
    using assms noteOutput_inv noteGeometry_inv noteDropped_inv onWritten_inv newGeneration_inv wait_inv r d
    by (cases ev) (auto simp: vt_step_def e)
qed

interpretation screen_run: op_machine vt_step "honest S" "screen_inv S" for S
  by unfold_locales (rule step_inv)

lemma new_screen_inv: "screen_inv S (new_screen T sid c opts)"
  unfolding new_screen_def by (rule newGeneration_inv) (simp add: screen_inv_def)

section \<open>Laws of a generation\<close>

text \<open>
  A law \<open>P\<close> of generations, with \<open>Q\<close> for what it needs of the callbacks that are due: if every
  operation on a generation keeps it, it holds of the current generation after any run.
\<close>

definition carries :: "(gen \<Rightarrow> bool) \<Rightarrow> (gen \<Rightarrow> vt_callback \<Rightarrow> bool) \<Rightarrow> gen \<Rightarrow> gen \<times> vt_callback option \<Rightarrow> bool" where
  "carries P Q g p \<longleftrightarrow> P (fst p) \<and> (\<forall>c. Q g c \<longrightarrow> Q (fst p) c) \<and> (\<forall>c. snd p = Some c \<longrightarrow> Q (fst p) c)"

locale gen_law =
  fixes P :: "gen \<Rightarrow> bool" and Q :: "gen \<Rightarrow> vt_callback \<Rightarrow> bool"
  assumes fresh: "P (ensureTerminal T (refuse_geometry opts (restore_floor b (fresh_gen n sid c opts))))"
    and accept: "P g \<Longrightarrow> carries P Q g (accept_output T sid' off d g)"
    and geometry: "P g \<Longrightarrow> carries P Q g (accept_geometry T c0 r0 at0 src sid' g)"
    and drop: "P g \<Longrightarrow> carries P Q g (enqueue_vt T (DropOp sid' from_units to_units) g)"
    and written: "P g \<Longrightarrow> Q g cb \<Longrightarrow> carries P Q g (acknowledge T cb g)"
    and reason: "P g \<Longrightarrow> carries P Q g (add_reason r g, None)"
    and continuity: "P g \<Longrightarrow> v \<noteq> Verified \<Longrightarrow> carries P Q g (degradeContinuity v g, None)"
    and completeness: "P g \<Longrightarrow> carries P Q g (degradeCompleteness w g, None)"
    and source: "P g \<Longrightarrow> carries P Q g (g\<lparr>gn_geo := x\<rparr>, None)"
    and waiters: "P g \<Longrightarrow> carries P Q g (g\<lparr>gn_waiters := ws\<rparr>, None)"
begin

definition holds :: "screen \<Rightarrow> bool" where
  "holds s \<longleftrightarrow> (\<forall>c \<in> set (sc_callbacks s). cb_gen c \<le> sc_counter s)
     \<and> (\<forall>g. sc_gen s = Some g \<longrightarrow> gn_index g = sc_counter s \<and> P g
          \<and> (\<forall>c \<in> set (sc_callbacks s). cb_gen c = gn_index g \<longrightarrow> Q g c))"

lemma carries_trans: "carries P Q g (h, None) \<Longrightarrow> (P h \<Longrightarrow> carries P Q h p) \<Longrightarrow> carries P Q g p"
  by (auto simp: carries_def)

lemma holds_put:
  assumes "holds s" and "sc_gen s = Some g" and "carries P Q g p" and "ident (fst p) = ident g"
    and "\<And>c. snd p = Some c \<Longrightarrow> cb_gen c = gn_index g" and "set cs \<subseteq> set (sc_callbacks s)"
  shows "holds (put_gen (s\<lparr>sc_callbacks := cs\<rparr>) p)"
  using assms unfolding holds_def put_gen_def carries_def ident_def
  by (cases "snd p") (auto 4 3)

lemma holds_put':
  assumes "holds s" and "sc_gen s = Some g" and "carries P Q g p" and "ident (fst p) = ident g"
    and "\<And>c. snd p = Some c \<Longrightarrow> cb_gen c = gn_index g"
  shows "holds (put_gen s p)"
  using holds_put [OF assms subset_refl] by simp

lemma holds_set:
  assumes "holds s" and "sc_gen s = Some g" and "carries P Q g (h, None)" and "ident h = ident g"
  shows "holds (s\<lparr>sc_gen := Some h\<rparr>)"
  using holds_put' [OF assms(1-3)] assms(4) by (simp add: put_gen_def)

lemma holds_pending: "holds (s\<lparr>sc_pending := p\<rparr>) = holds s"
  by (simp add: holds_def)

lemma holds_new: "holds s \<Longrightarrow> holds (newGeneration T c opts s)"
proof -
  let ?g = "\<lambda>b sid k. ensureTerminal T (refuse_geometry opts (restore_floor b (fresh_gen (sc_counter s + 1) sid k opts)))"
  have "gn_index (?g b sid k) = sc_counter s + 1" for b sid k
    using ident_simps(11) by (simp add: ident_def refuse_geometry_def restore_floor_def degradeCompleteness_def
        add_reason_def fresh_gen_def Let_def)
  then show "holds s \<Longrightarrow> holds (newGeneration T c opts s)" using fresh
    by (fastforce simp: newGeneration_def Let_def holds_def teardownGeneration_def)
qed

lemma holds_confirm: "holds s \<Longrightarrow> holds (confirm_stream T sid off s)"
proof -
  assume s: "holds s"
  obtain t pending where t: "takePendingGeometry sid off (sc_pending s) = (t, pending)" by fastforce
  have I: "holds (newGeneration T c opts (s\<lparr>sc_pending := pending\<rparr>))" for c opts
    using s holds_pending holds_new by blast
  have J: "holds (k\<lparr>sc_gen := map_option (add_reason r) (sc_gen k)\<rparr>)" if "holds k" for k r
  proof (cases "sc_gen k")
    case (Some g)
    then show ?thesis using holds_set [OF that Some reason] that by (simp add: vt_simps holds_def)
  qed (use that in \<open>simp add: holds_def\<close>)
  show ?thesis unfolding confirm_stream_def t prod.case Let_def using I J by (simp split: if_splits)
qed

lemma carries_named: "P g \<Longrightarrow> carries P Q g (degradeContinuity Invalid (add_reason r g), None)"
  by (rule carries_trans [OF reason [of g r]]) (auto intro: continuity)

lemma carries_offset: "P g \<Longrightarrow> carries P Q g (fst (read_offset v g), None)"
  using carries_named by (simp add: read_offset_def) (simp add: carries_def)

lemma holds_accept:
  assumes "holds s" and "sc_gen s = Some g" and "read_offset k g = (g1, off)"
  shows "holds (put_gen s (accept_output T sid off' d g1))"
proof (rule holds_put' [OF assms(1,2)])
  have g: "P g" using assms(1,2) by (simp add: holds_def)
  have i: "ident g1 = ident g" using ident_offset [of k g] assms(3) by simp
  show "carries P Q g (accept_output T sid off' d g1)"
    using carries_trans [OF carries_offset [OF g, of k] accept] assms(3) by simp
  show "ident (fst (accept_output T sid off' d g1)) = ident g" by (simp add: vt_simps i)
  show "\<And>c. snd (accept_output T sid off' d g1) = Some c \<Longrightarrow> cb_gen c = gn_index g"
    using accept_callback i by (fastforce simp: ident_def)
qed

lemma holds_output: "holds s \<Longrightarrow> holds (noteOutput T data i k s)"
proof (cases "sc_gen s")
  case (Some g)
  assume s: "holds s"
  have g: "P g" using s Some by (simp add: holds_def)
  obtain g1 off where ro: "read_offset k g = (g1, off)" by fastforce
  have i: "ident g1 = ident g" using ident_offset [of k g] ro by simp
  have "holds (s\<lparr>sc_gen := Some g1\<rparr>)" using holds_set [OF s Some, of g1] carries_offset [OF g, of k] i ro by simp
  then have c: "holds (confirm_stream T j off (s\<lparr>sc_gen := Some g1\<rparr>))" for j by (rule holds_confirm)
  have c2: "holds (put_gen (confirm_stream T j off (s\<lparr>sc_gen := Some g1\<rparr>)) (accept_output T sid off d (fst (read_offset k h))))"
    if "sc_gen (confirm_stream T j off (s\<lparr>sc_gen := Some g1\<rparr>)) = Some h" for j sid d h
    using holds_accept [OF c that] by (metis prod.collapse)
  have b: "holds (s\<lparr>sc_gen := Some (degradeContinuity Invalid (add_reason r g))\<rparr>)" for r
    using holds_set [OF s Some carries_named [OF g]] by (simp add: vt_simps)
  show ?thesis using s c c2 b holds_accept [OF s Some ro] ro Some
    by (auto simp: noteOutput_def Let_def split: option.split)
qed (simp add: noteOutput_def)

lemma holds_geometry: "holds s \<Longrightarrow> holds (noteGeometry T c r i a src s)"
proof (cases "sc_gen s")
  case (Some g)
  assume s: "holds s"
  have g: "P g" using s Some by (simp add: holds_def)
  have "holds (put_gen s (accept_geometry T c r a src sid g))" for sid
    using geometry_callback by (intro holds_put' [OF s Some geometry [OF g]]) (simp_all add: vt_simps)
  moreover have "holds (s\<lparr>sc_gen := Some (add_reason InvalidStreamId (g\<lparr>gn_geo := GeoUnverified\<rparr>))\<rparr>)"
    by (rule holds_set [OF s Some carries_trans [OF source [OF g] reason]]) (simp_all add: vt_simps)
  ultimately show ?thesis using s Some by (auto simp: noteGeometry_def holds_pending Let_def)
qed (simp add: noteGeometry_def)

lemma holds_dropped: "holds s \<Longrightarrow> holds (noteDropped T a b i s)"
proof (cases "sc_gen s")
  case (Some g)
  assume s: "holds s"
  have g: "P g" using s Some by (simp add: holds_def)
  have "holds (put_gen s (enqueue_vt T (DropOp sid x y) g))" for sid x y
    using enqueue_callback by (intro holds_put' [OF s Some drop [OF g]]) (simp_all add: vt_simps)
  moreover have "holds (s\<lparr>sc_gen := Some (degradeContinuity Invalid (add_reason InvalidStreamId g))\<rparr>)"
    by (rule holds_set [OF s Some carries_named [OF g]]) (simp add: vt_simps)
  moreover have "holds (s\<lparr>sc_gen := Some (degradeCompleteness PartialLoss (add_reason DropBoundsInvalid g))\<rparr>)"
    by (rule holds_set [OF s Some carries_trans [OF reason [OF g] completeness]]) (simp_all add: vt_simps)
  ultimately show ?thesis using s Some by (auto simp: noteDropped_def Let_def)
qed (simp add: noteDropped_def)

lemma holds_written: "holds s \<Longrightarrow> holds (onWritten T k s)"
proof (cases "k < length (sc_callbacks s)")
  case True
  assume s: "holds s"
  define c where "c = sc_callbacks s ! k"
  define cs where "cs = take k (sc_callbacks s) @ List.drop (Suc k) (sc_callbacks s)"
  have cin: "c \<in> set (sc_callbacks s)" and sub: "set cs \<subseteq> set (sc_callbacks s)"
    using True by (auto simp: c_def cs_def dest: in_set_takeD in_set_dropD)
  have d: "holds (s\<lparr>sc_callbacks := cs\<rparr>)" using s sub by (auto simp: holds_def)
  have e: "onWritten T k s = (case sc_gen s of None \<Rightarrow> s\<lparr>sc_callbacks := cs\<rparr>
      | Some g \<Rightarrow> if sc_disposed s \<or> gn_index g \<noteq> cb_gen c then s\<lparr>sc_callbacks := cs\<rparr>
        else put_gen (s\<lparr>sc_callbacks := cs\<rparr>) (acknowledge T c g))"
    using True by (simp add: onWritten_def c_def cs_def Let_def split: option.split)
  show ?thesis
  proof (cases "sc_gen s")
    case (Some g)
    have "holds (put_gen (s\<lparr>sc_callbacks := cs\<rparr>) (acknowledge T c g))" if m: "gn_index g = cb_gen c"
    proof (rule holds_put [OF s Some _ _ _ sub])
      have "P g" "Q g c" using s Some cin m by (auto simp: holds_def)
      then show "carries P Q g (acknowledge T c g)" by (rule written)
    qed (use acknowledge_callback in \<open>simp_all add: vt_simps\<close>)
    then show ?thesis using e d Some by auto
  qed (use e d in simp)
qed (simp add: onWritten_def)

lemma holds_step: "holds s \<Longrightarrow> holds (vt_step e s)"
proof -
  assume s: "holds s"
  have w: "holds (waitForDrain r s)" for r
  proof (cases "sc_gen s")
    case (Some g)
    then have "holds (s\<lparr>sc_gen := Some (g\<lparr>gn_waiters := gn_waiters g @ [r]\<rparr>)\<rparr>)"
      using holds_set [OF s Some waiters] s by (simp add: vt_simps holds_def)
    then show ?thesis using s Some by (simp add: waitForDrain_def)
  qed (use s in \<open>simp add: waitForDrain_def\<close>)
  have r: "holds (snd (readFrameSync T b s))" for T b
    using s by (simp add: readFrameSync_def holds_def Let_def split: option.split)
  have d: "holds (dispose s)" using s by (auto simp: dispose_def teardownGeneration_def holds_def)
  show ?thesis
    using s w r d holds_output holds_geometry holds_dropped holds_written holds_new
    by (cases "snd e") (auto simp: vt_step_def)
qed

lemma run_holds: "holds (fold vt_step es (new_screen T session cause opts))"
proof -
  have "holds (new_screen T session cause opts)"
    unfolding new_screen_def by (rule holds_new) (simp add: holds_def)
  then show ?thesis by (induction es arbitrary: T session cause opts rule: rev_induct) (simp_all add: holds_step)
qed

lemma run_law: "sc_gen (fold vt_step es (new_screen T session cause opts)) = Some g \<Longrightarrow> P g"
  using run_holds by (auto simp: holds_def)

end

section \<open>Degraded continuity is never verified again\<close>

definition conts :: "gen \<Rightarrow> bool \<times> continuity" where
  "conts g = (gn_cont_degraded g, gn_cont g)"

definition cont_ok :: "gen \<Rightarrow> bool" where
  "cont_ok g \<longleftrightarrow> (gn_cont_degraded g \<longrightarrow> gn_cont g \<noteq> Verified)"

lemma cont_ok_conts: "conts h = conts g \<Longrightarrow> cont_ok h = cont_ok g"
  by (simp add: conts_def cont_ok_def)

lemma conts_simps [vt_simps]:
  "conts (add_reason r g) = conts g" "conts (degradeCompleteness c g) = conts g" "conts (noteLoss n r g) = conts g"
  "conts (determineOrigin off sid g) = conts g" "conts (releaseDrainWaiters g) = conts g"
  "conts (retainOverlap d g) = conts g" "conts (stopGeneration g) = conts g" "conts (applyDropped a b g) = conts g"
  "conts (ensureTerminal T g) = conts g"
  by (simp_all add: conts_def add_reason_def degradeCompleteness_def noteLoss_def determineOrigin_def
      releaseDrainWaiters_def retainOverlap_def stopGeneration_def applyDropped_def ensureTerminal_def
      Let_def split: lib_state.split)

lemma conts_fields [vt_simps]:
  "conts (g\<lparr>gn_geo := a\<rparr>) = conts g" "conts (g\<lparr>gn_cols := b\<rparr>) = conts g" "conts (g\<lparr>gn_rows := b\<rparr>) = conts g"
  "conts (g\<lparr>gn_term := t\<rparr>) = conts g" "conts (g\<lparr>gn_queue := q\<rparr>) = conts g" "conts (g\<lparr>gn_queued := n\<rparr>) = conts g"
  "conts (g\<lparr>gn_geo_first := c\<rparr>) = conts g" "conts (g\<lparr>gn_writing := c\<rparr>) = conts g" "conts (g\<lparr>gn_pos := p\<rparr>) = conts g"
  "conts (g\<lparr>gn_tail := d\<rparr>) = conts g" "conts (g\<lparr>gn_tail_start := p\<rparr>) = conts g" "conts (g\<lparr>gn_stream := i\<rparr>) = conts g"
  "conts (g\<lparr>gn_applied := n\<rparr>) = conts g" "conts (g\<lparr>gn_observed := n\<rparr>) = conts g" "conts (g\<lparr>gn_audit := n\<rparr>) = conts g"
  "conts (g\<lparr>gn_waiters := ws\<rparr>) = conts g" "conts (g\<lparr>gn_origin := c\<rparr>) = conts g"
  by (simp_all add: conts_def)

lemma conts_resize [vt_simps]: "conts (applyResize T op g) = conts g"
  by (simp add: applyResize_def vt_simps Let_def split: option.split)

lemma conts_heads [vt_simps]: "conts (run_heads T ops g) = conts g"
  by (induction T ops g rule: run_heads.induct) (simp_all add: vt_simps)

lemma conts_write [vt_simps]: "conts (fst (write_chunk T d m g)) = conts g"
  by (simp add: write_chunk_def Let_def vt_simps split: option.split)

lemma conts_pump [vt_simps]: "conts (fst (pump T g)) = conts g"
  by (simp add: pump_def Let_def vt_simps split: prod.split)

lemma conts_enqueue [vt_simps]: "conts (fst (enqueue_vt T op g)) = conts g"
  by (simp add: enqueue_vt_def Let_def vt_simps)

lemma conts_geometry [vt_simps]: "conts (fst (accept_geometry T c r a src sid g)) = conts g"
  by (auto simp: accept_geometry_def Let_def vt_simps split: option.split)

lemma conts_acknowledge [vt_simps]: "conts (fst (acknowledge T c g)) = conts g"
  by (simp add: acknowledge_def auditCellGrowth_def Let_def vt_simps split: option.split)

lemma cont_ok_degrade: "v \<noteq> Verified \<Longrightarrow> cont_ok (degradeContinuity v g)"
  by (cases v; cases "gn_cont g") (simp_all add: cont_ok_def degradeContinuity_def Let_def)

lemma cont_ok_moved: "cont_ok g \<Longrightarrow> cont_ok (moved_to off sid d g)"
  by (auto simp: moved_to_def verifyContinuity_def cont_ok_def Let_def split: option.split)

lemma cont_ok_overlap: "cont_ok g \<Longrightarrow> cont_ok (check_overlap k p d g)"
  by (auto simp: check_overlap_def Let_def cont_ok_degrade cont_ok_conts [OF conts_simps(2)] split: option.split)

lemma cont_ok_place: "cont_ok g \<Longrightarrow> cont_ok (fst (place_output sid off d g))"
proof -
  assume g: "cont_ok g"
  have "cont_ok (k\<lparr>gn_pos := p\<rparr>) = cont_ok k" "cont_ok (k\<lparr>gn_tail := t, gn_tail_start := p\<rparr>) = cont_ok k"
    "cont_ok (noteLoss n r k) = cont_ok k" for k p t n r
    by (rule cont_ok_conts, simp add: vt_simps)+
  then show ?thesis using g
    by (auto simp: place_output_def Let_def cont_ok_degrade intro!: cont_ok_moved cont_ok_overlap split: option.split)
qed

lemma cont_ok_accept: "cont_ok g \<Longrightarrow> cont_ok (fst (accept_output T sid off d g))"
proof -
  assume g: "cont_ok g"
  define g0 where "g0 = (if gn_stream g = None then g\<lparr>gn_stream := sid\<rparr> else g)"
  have "cont_ok g0" using g by (simp add: g0_def cont_ok_def)
  then have p: "cont_ok (fst (place_output sid off d g0))" by (rule cont_ok_place)
  have c: "cont_ok (fst (enqueue_vt T op (retainOverlap x (determineOrigin o' sid k)))) = cont_ok k" for op x o' k
    by (rule cont_ok_conts) (simp add: vt_simps)
  have l: "cont_ok (g0\<lparr>gn_pos := q\<rparr>)" for q using \<open>cont_ok g0\<close> by (simp add: cont_ok_def)
  show ?thesis using p c l
    by (cases "place_output sid off d g0") (auto simp: accept_output_def g0_def [symmetric] Let_def split: option.splits)
qed

lemma cont_ok_offset: "cont_ok g \<Longrightarrow> cont_ok (fst (read_offset v g))"
  by (simp add: read_offset_def cont_ok_degrade)

interpretation cont_law: gen_law cont_ok "\<lambda>g c. True"
proof unfold_locales
  fix T opts b n sid c
  show "cont_ok (ensureTerminal T (refuse_geometry opts (restore_floor b (fresh_gen n sid c opts))))"
    by (subst cont_ok_conts [OF conts_simps(9)])
      (simp add: cont_ok_def refuse_geometry_def restore_floor_def degradeCompleteness_def add_reason_def fresh_gen_def Let_def)
qed (simp_all add: carries_def cont_ok_accept cont_ok_degrade cont_ok_conts [OF conts_geometry]
      cont_ok_conts [OF conts_enqueue] cont_ok_conts [OF conts_acknowledge] cont_ok_conts [OF conts_simps(1)]
      cont_ok_conts [OF conts_simps(2)] cont_ok_conts [OF conts_fields(1)] cont_ok_conts [OF conts_fields(16)])

section \<open>What a \<open>vt_grid\<close> frame is worth\<close>

text \<open>What the terminal was given to write, all calls together.\<close>

definition fed_text :: "term_call list \<Rightarrow> units" where
  "fed_text cs = concat (map (\<lambda>c. case c of TWrite d \<Rightarrow> d | _ \<Rightarrow> []) cs)"

lemma fed_text_written: "gn_term g = Some cs \<Longrightarrow> written g = fed_text cs"
proof -
  have "text_told (concat (map call_told cs)) = fed_text cs"
    by (induction cs) (auto simp: fed_text_def split: term_call.split)
  then show "gn_term g = Some cs \<Longrightarrow> written g = fed_text cs" by (simp add: written_def calls_told_def)
qed


end
