(* ===== verification/Vt_Bounds.thy ===== *)
theory Vt_Bounds
  imports Vt_Stream
begin

text \<open>
  The bounds of a screen over any run, its one-way qualification, the bounds of a snapshot, and two
  concrete runs: one that ends in a \<open>vt_grid\<close> frame, and one in which a reported drop that waits
  behind a write is counted twice and later makes a true replay look like a conflict.
\<close>

section \<open>Concrete runs\<close>

definition plain_term :: vterm where
  "plain_term = \<lparr>vt_lib = LibReady, vt_makes = (\<lambda>c r. True), vt_writes = (\<lambda>cs d. True), vt_resizes = (\<lambda>cs c r. True),
     vt_view = (\<lambda>cs. Some \<lparr>gr_alternate = False, gr_cursor = (0, 0), gr_full = (\<lambda>i. None), gr_text = (\<lambda>i. None)\<rparr>)\<rparr>"

definition says :: "string \<Rightarrow> int \<Rightarrow> vterm \<times> vt_event" where
  "says d k = (plain_term, Output (Some (vtext d)) (Some (vtext ''s'')) (Some (VInt k)))"

definition sized :: "int \<Rightarrow> vterm \<times> vt_event" where
  "sized k = (plain_term, Geometry (Some (VInt 80)) (Some (VInt 24)) (Some (vtext ''s'')) (Some (VInt k)) (Some (vtext ''bridge_reported'')))"

definition wrote :: "vterm \<times> vt_event" where
  "wrote = (plain_term, Written 0)"

definition dropped :: "int \<Rightarrow> int \<Rightarrow> vterm \<times> vt_event" where
  "dropped a b = (plain_term, Dropped (Some (VInt a)) (Some (VInt b)) (Some (vtext ''s'')))"

definition start :: screen where
  "start = new_screen plain_term [97] (Some AttachedMidStream) no_options"

definition good_run :: "(vterm \<times> vt_event) list" where
  "good_run = [sized 0, says ''hel'' 0, says ''lo'' 3, wrote, says ''ell'' 1, wrote]"


text \<open>
  A drop that the bridge reports while a write is under way waits in the queue. The next chunk then
  finds the gap and counts it, and the drop counts it again when its turn comes; it also moves the
  window of retained units back to the drop's end although later units were already seen, so a true
  replay of those is reported as a conflict.
\<close>

theorem drop_behind_a_write_counted_twice:
  "let s = fold vt_step [sized 0, says ''abc'' 0, dropped 3 13, says ''xy'' 13] start;
       t = fold vt_step [wrote, wrote, says ''zw'' 15, says ''xy'' 13] s;
       u = fold vt_step [sized 0, says ''abc'' 0, wrote, dropped 3 13, says ''xy'' 13, wrote, says ''zw'' 15, says ''xy'' 13] start in
   gn_dropped (the (sc_gen t)) = 20 \<and> gn_cont (the (sc_gen t)) = Conflicting
     \<and> gn_dropped (the (sc_gen u)) = 10 \<and> gn_cont (the (sc_gen u)) = Verified"
  by code_simp


section \<open>Bounds of the queue and the counters\<close>

definition fits :: "int \<Rightarrow> vt_op \<Rightarrow> bool" where
  "fits n op \<longleftrightarrow> (case op of OutOp d w \<Rightarrow> int (length d) \<le> w \<and> w \<le> n | _ \<Rightarrow> True)"

lemma fits_simps [simp]: "fits n (OutOp d w) \<longleftrightarrow> int (length d) \<le> w \<and> w \<le> n" "fits n (ResizeOp op)" "fits n (DropOp i a b)"
  by (simp_all add: fits_def)

lemma fits_mono: "fits n op \<Longrightarrow> n \<le> m \<Longrightarrow> fits m op"
  by (auto simp: fits_def split: vt_op.splits)

definition bounded :: "gen \<Rightarrow> bool" where
  "bounded g \<longleftrightarrow> int (length (gn_queue g)) \<le> VT_QUEUE_MAX_OPS
     \<and> gn_queued g = sum_list (map op_units (gn_queue g)) \<and> gn_queued g \<le> VT_QUEUE_MAX_UNITS
     \<and> 0 \<le> gn_applied g \<and> gn_applied g \<le> gn_observed g
     \<and> list_all (fits (gn_observed g)) (gn_queue g)
     \<and> int (length (gn_tail g)) \<le> VT_OVERLAP_WINDOW_UNITS
     \<and> (gn_stopped g \<longrightarrow> gn_queue g = [] \<and> gn_term g = None)"

definition mark_seen :: "gen \<Rightarrow> vt_callback \<Rightarrow> bool" where
  "mark_seen g c \<longleftrightarrow> cb_mark c \<le> gn_observed g"

text \<open>All that \<open>bounded\<close> looks at; the operations that only qualify a generation keep it.\<close>

definition sizes :: "gen \<Rightarrow> vt_op list \<times> int \<times> int \<times> int \<times> units \<times> bool \<times> term_call list option" where
  "sizes g = (gn_queue g, gn_queued g, gn_applied g, gn_observed g, gn_tail g, gn_stopped g, gn_term g)"

lemma bounded_sizes: "sizes h = sizes g \<Longrightarrow> bounded h = bounded g"
  by (simp add: sizes_def bounded_def)

lemma sizes_simps [vt_simps]:
  "sizes (add_reason r g) = sizes g" "sizes (degradeCompleteness c g) = sizes g" "sizes (degradeContinuity v g) = sizes g"
  "sizes (verifyContinuity g) = sizes g" "sizes (noteLoss n r g) = sizes g" "sizes (determineOrigin off sid g) = sizes g"
  "sizes (releaseDrainWaiters g) = sizes g"
  "sizes (g\<lparr>gn_geo := a\<rparr>) = sizes g" "sizes (g\<lparr>gn_pos := p\<rparr>) = sizes g" "sizes (g\<lparr>gn_stream := i\<rparr>) = sizes g"
  "sizes (g\<lparr>gn_tail_start := p\<rparr>) = sizes g" "sizes (g\<lparr>gn_waiters := ws\<rparr>) = sizes g"
  "sizes (g\<lparr>gn_audit := n\<rparr>) = sizes g" "sizes (g\<lparr>gn_writing := b\<rparr>) = sizes g" "sizes (g\<lparr>gn_origin := b\<rparr>) = sizes g"
  by (simp_all add: sizes_def add_reason_def degradeCompleteness_def degradeContinuity_def verifyContinuity_def noteLoss_def
      determineOrigin_def releaseDrainWaiters_def Let_def)

lemma bounded_simps [simp]:
  "bounded (add_reason r g) = bounded g" "bounded (degradeCompleteness c g) = bounded g"
  "bounded (degradeContinuity v g) = bounded g" "bounded (verifyContinuity g) = bounded g" "bounded (noteLoss n r g) = bounded g"
  "bounded (determineOrigin off sid g) = bounded g" "bounded (releaseDrainWaiters g) = bounded g"
  "bounded (g\<lparr>gn_geo := a\<rparr>) = bounded g" "bounded (g\<lparr>gn_pos := p\<rparr>) = bounded g" "bounded (g\<lparr>gn_stream := i\<rparr>) = bounded g"
  "bounded (g\<lparr>gn_tail_start := p\<rparr>) = bounded g" "bounded (g\<lparr>gn_waiters := ws\<rparr>) = bounded g"
  "bounded (g\<lparr>gn_audit := n\<rparr>) = bounded g" "bounded (g\<lparr>gn_writing := b\<rparr>) = bounded g"
  by (rule bounded_sizes, simp add: vt_simps)+

lemma bounded_term: "bounded g \<Longrightarrow> \<not> gn_stopped g \<Longrightarrow> bounded (g\<lparr>gn_term := t\<rparr>)"
  by (simp add: bounded_def)

lemma bounded_shape: "bounded (g\<lparr>gn_cols := b\<rparr>) = bounded g" "bounded (g\<lparr>gn_rows := b\<rparr>) = bounded g"
    "bounded (g\<lparr>gn_geo_first := c\<rparr>) = bounded g" "bounded (g\<lparr>gn_tail := [], gn_tail_start := p\<rparr>) = bounded (g\<lparr>gn_tail := []\<rparr>)"
  by (simp_all add: bounded_def)

text \<open>The fields that steer the queue survive the work at its head.\<close>

definition counts :: "gen \<Rightarrow> int \<times> int \<times> bool \<times> int" where
  "counts g = (gn_observed g, gn_applied g, gn_stopped g, gn_queued g)"

lemma counts_simps [vt_simps]:
  "counts (add_reason r g) = counts g" "counts (degradeCompleteness c g) = counts g" "counts (noteLoss n r g) = counts g"
  "counts (releaseDrainWaiters g) = counts g" "counts (g\<lparr>gn_geo := a\<rparr>) = counts g" "counts (g\<lparr>gn_term := t\<rparr>) = counts g"
  "counts (g\<lparr>gn_cols := b\<rparr>) = counts g" "counts (g\<lparr>gn_rows := b\<rparr>) = counts g" "counts (g\<lparr>gn_geo_first := c'\<rparr>) = counts g"
  "counts (g\<lparr>gn_pos := p\<rparr>) = counts g" "counts (g\<lparr>gn_tail := d\<rparr>) = counts g" "counts (g\<lparr>gn_tail_start := p\<rparr>) = counts g"
  "counts (g\<lparr>gn_queue := q\<rparr>) = counts g" "counts (g\<lparr>gn_writing := c'\<rparr>) = counts g"
  by (simp_all add: counts_def add_reason_def degradeCompleteness_def noteLoss_def releaseDrainWaiters_def Let_def)

lemma counts_ensure [vt_simps]: "counts (ensureTerminal T g) = counts g"
  by (simp add: ensureTerminal_def Let_def vt_simps split: lib_state.split)

lemma counts_resize [vt_simps]: "counts (applyResize T op g) = counts g"
  by (simp add: applyResize_def Let_def vt_simps split: option.split)

lemma counts_dropped [vt_simps]: "counts (applyDropped a b g) = counts g"
  by (simp add: applyDropped_def Let_def vt_simps)

lemma tail_fields [vt_simps]: "gn_tail (add_reason r g) = gn_tail g" "gn_tail (ensureTerminal T g) = gn_tail g"
    "gn_queue (add_reason r g) = gn_queue g" "gn_queue (ensureTerminal T g) = gn_queue g" "gn_queue (noteLoss n r g) = gn_queue g"
    "gn_queued (ensureTerminal T g) = gn_queued g"
  by (simp_all add: add_reason_def ensureTerminal_def noteLoss_def degradeCompleteness_def Let_def split: lib_state.split)

lemma tail_resize: "gn_tail (applyResize T op g) = gn_tail g"
  by (simp add: applyResize_def Let_def vt_simps split: option.split)

lemma tail_dropped: "gn_tail (applyDropped a b g) = []"
  by (simp add: applyDropped_def Let_def)

lemma bounded_heads:
  "bounded (g\<lparr>gn_queue := ops\<rparr>) \<Longrightarrow> \<not> gn_stopped g
    \<Longrightarrow> bounded (run_heads T ops g) \<and> counts (run_heads T ops g) = counts g"
proof (induction T ops g rule: run_heads.induct)
  case (3 T op ops g)
  have "counts (applyResize T op g) = counts g" by (simp add: vt_simps)
  then have "bounded ((applyResize T op g)\<lparr>gn_queue := ops\<rparr>)" "\<not> gn_stopped (applyResize T op g)"
    using 3(2,3) tail_resize [of T op g] by (auto simp: bounded_def counts_def)
  then show ?case using 3(1) by (simp add: vt_simps)
next
  case (4 T sid a b ops g)
  have "counts (applyDropped a b g) = counts g" by (simp add: vt_simps)
  then have "bounded ((applyDropped a b g)\<lparr>gn_queue := ops\<rparr>)" "\<not> gn_stopped (applyDropped a b g)"
    using 4(2,3) tail_dropped [of a b g] by (auto simp: bounded_def counts_def)
  then show ?case using 4(1) by (simp add: vt_simps)
qed (simp_all add: counts_def)

lemma take_chunk_bounds:
  assumes "take_chunk ops chunk mark = (chunk', mark', rest)"
    and "list_all (fits n) ops" and "mark \<le> n"
  shows "length rest \<le> length ops" "sum_list (map op_units rest) = sum_list (map op_units ops) - (int (length chunk') - int (length chunk))"
    "list_all (fits n) rest" "mark' \<le> n"
proof -
  have "length rest \<le> length ops \<and> sum_list (map op_units rest) = sum_list (map op_units ops) - (int (length chunk') - int (length chunk))
    \<and> list_all (fits n) rest \<and> mark' \<le> n"
    using assms
  proof (induction ops chunk mark rule: take_chunk.induct)
    case (1 d w ops chunk mark)
    let ?room = "VT_MAX_WRITE_CHUNK_UNITS - int (length chunk)" and ?cut = "safeSplitIndex d (nat (VT_MAX_WRITE_CHUNK_UNITS - int (length chunk)))"
    consider "int (length chunk) \<ge> VT_MAX_WRITE_CHUNK_UNITS"
      | "int (length chunk) < VT_MAX_WRITE_CHUNK_UNITS" "int (length d) \<le> ?room"
      | "int (length chunk) < VT_MAX_WRITE_CHUNK_UNITS" "int (length d) > ?room" "?cut = 0"
      | "int (length chunk) < VT_MAX_WRITE_CHUNK_UNITS" "int (length d) > ?room" "?cut > 0" by linarith
    then show ?case
    proof cases
      case 2
      then have "take_chunk ops (chunk @ d) w = (chunk', mark', rest)" using 1(2) by simp
      from 1(1) [OF _ refl _ this] show ?thesis using 1(3) 2 by auto
    next
      case 4
      define c where "c = ?cut"
      have c: "c < length d" using 4 unfolding safeSplitIndex_def c_def by auto
      have r: "chunk' = chunk @ take c d" "mark' = w - int (length d - c)" "rest = OutOp (drop c d) w # ops"
        using 1(2) 4 by (simp_all add: Let_def c_def)
      then show ?thesis using c 1(3) by (auto simp: of_nat_diff)
    qed (use 1 in \<open>auto simp: Let_def\<close>)
  qed auto
  then show "length rest \<le> length ops" "sum_list (map op_units rest) = sum_list (map op_units ops) - (int (length chunk') - int (length chunk))"
    "list_all (fits n) rest" "mark' \<le> n" by auto
qed


lemma bounded_write:
  assumes "bounded g" and "\<not> gn_stopped g" and "mark \<le> gn_observed g"
  shows "carries bounded mark_seen g (write_chunk T chunk mark g)"
proof -
  have b: "bounded (g\<lparr>gn_term := t\<rparr>)" for t using assms(1,2) by (rule bounded_term)
  have o: "gn_observed (fst (write_chunk T chunk mark g)) = gn_observed g"
    by (simp add: write_chunk_def Let_def releaseDrainWaiters_def noteLoss_def degradeCompleteness_def add_reason_def)
  have "bounded (fst (write_chunk T chunk mark g))" by (simp add: write_chunk_def Let_def b)
  moreover have "cb_mark c = mark" if "snd (write_chunk T chunk mark g) = Some c" for c
    using that by (auto simp: write_chunk_def Let_def split: if_splits)
  ultimately show ?thesis using o assms(3) by (auto simp: carries_def mark_seen_def)
qed

lemma bounded_pump:
  assumes "bounded g"
  shows "carries bounded mark_seen g (pump T g)"
proof (cases "gn_writing g \<or> gn_stopped g")
  case True
  then show ?thesis using assms by (auto simp: pump_def carries_def)
next
  case False
  define g1 where "g1 = run_heads T (gn_queue g) g"
  define g2 where "g2 = ensureTerminal T g1"
  obtain chunk mark rest where ch: "take_chunk (gn_queue g2) [] (gn_applied g2) = (chunk, mark, rest)"
    by (cases "take_chunk (gn_queue g2) [] (gn_applied g2)") auto
  define g3 where "g3 = g2\<lparr>gn_queue := rest, gn_queued := gn_queued g2 - int (length chunk)\<rparr>"
  have P: "pump T g = (if gn_queue g1 = [] then (releaseDrainWaiters g1, None)
      else if gn_term g2 = None then (g2, None)
      else if chunk = [] then (releaseDrainWaiters g3, None) else write_chunk T chunk mark g3)"
    using False unfolding pump_def Let_def g1_def [symmetric] g2_def [symmetric] ch g3_def by simp
  have g1: "bounded g1" "counts g1 = counts g" using bounded_heads [where g = g and ops = "gn_queue g" and T = T] assms False by (simp_all add: g1_def)
  then have "\<not> gn_stopped g1" using False by (simp add: counts_def)
  then have "bounded g2"
    using g1 by (simp add: g2_def ensureTerminal_def bounded_shape bounded_term Let_def split: lib_state.split)
  moreover have c2: "counts g2 = counts g" using g1 by (simp add: g2_def vt_simps)
  moreover have "\<not> gn_stopped g2" using c2 False by (simp add: counts_def)
  ultimately have g2: "bounded g2" "counts g2 = counts g" "\<not> gn_stopped g2" .
  have t: "length rest \<le> length (gn_queue g2)" "sum_list (map op_units rest) = sum_list (map op_units (gn_queue g2)) - int (length chunk)"
    "list_all (fits (gn_observed g2)) rest" "mark \<le> gn_observed g2"
    using take_chunk_bounds [OF ch, of "gn_observed g2"] g2(1) by (simp_all add: bounded_def)
  have g3: "bounded g3" "\<not> gn_stopped g3" "gn_observed g3 = gn_observed g2" using t g2 by (auto simp: g3_def bounded_def)
  have o: "gn_observed g2 = gn_observed g" "gn_observed g1 = gn_observed g" using g1 g2 by (simp_all add: counts_def)
  have r: "gn_observed (releaseDrainWaiters k) = gn_observed k" for k by (simp add: releaseDrainWaiters_def)
  have w: "carries bounded mark_seen g3 (write_chunk T chunk mark g3)" using bounded_write g3 t(4) by simp
  have "carries bounded mark_seen g (write_chunk T chunk mark g3)"
    using w o g3(3) by (simp add: carries_def mark_seen_def)
  then show ?thesis using g1 g2 g3 o r unfolding P by (auto simp: carries_def mark_seen_def)
qed

lemma bounded_enqueue:
  assumes "bounded g"
  shows "carries bounded mark_seen g (enqueue_vt T op g)"
proof -
  define seen where "seen = gn_observed g + op_units op"
  define op' where "op' = (case op of OutOp d _ \<Rightarrow> OutOp d seen | _ \<Rightarrow> op)"
  define g1 where "g1 = g\<lparr>gn_queue := gn_queue g @ [op'], gn_queued := gn_queued g + op_units op, gn_observed := seen\<rparr>"
  have nn: "0 \<le> op_units op" and ou: "op_units op' = op_units op" by (cases op; simp add: op'_def)+
  have o: "gn_observed (noteLoss n r g) = gn_observed g" for n r
    by (simp add: noteLoss_def degradeCompleteness_def add_reason_def Let_def)
  show ?thesis
  proof (cases "gn_stopped g \<or> int (length (gn_queue g)) + 1 > VT_QUEUE_MAX_OPS \<or> gn_queued g + op_units op > VT_QUEUE_MAX_UNITS")
    case True
    then show ?thesis using assms o by (auto simp: enqueue_vt_def carries_def mark_seen_def)
  next
    case False
    then have n: "\<not> gn_stopped g" "\<not> (int (length (gn_queue g)) + 1 > VT_QUEUE_MAX_OPS \<or> gn_queued g + op_units op > VT_QUEUE_MAX_UNITS)"
      by auto
    have e: "enqueue_vt T op g = pump T g1"
      unfolding enqueue_vt_def if_not_P [OF n(1)] if_not_P [OF n(2)] Let_def g1_def op'_def seen_def by (rule refl)
    have "fits seen op'" using assms nn by (cases op) (auto simp: op'_def seen_def bounded_def)
    moreover have "list_all (fits seen) (gn_queue g)"
      using assms nn by (auto simp: seen_def bounded_def list_all_iff intro: fits_mono)
    ultimately have "bounded g1" using assms n nn ou by (auto simp: g1_def bounded_def seen_def)
    from bounded_pump [OF this, of T] show ?thesis
      using nn unfolding e by (auto simp: carries_def mark_seen_def g1_def seen_def)
  qed
qed

lemma carries_from:
  assumes "carries bounded mark_seen h p" and "gn_observed h = gn_observed g"
  shows "carries bounded mark_seen g p"
  using assms by (simp add: carries_def mark_seen_def)

lemma observed_place: "gn_observed (fst (place_output sid off d g)) = gn_observed g"
proof -
  have o: "gn_observed (noteLoss n r k) = gn_observed k" "gn_observed (degradeContinuity v k) = gn_observed k"
      "gn_observed (moved_to off sid d k) = gn_observed k" "gn_observed (check_overlap x y d k) = gn_observed k" for n r v k x y
    by (simp_all add: noteLoss_def degradeContinuity_def degradeCompleteness_def add_reason_def moved_to_def check_overlap_def
        verifyContinuity_def Let_def split: option.split)
  show ?thesis by (simp add: place_output_def Let_def o split: option.split)
qed

lemma bounded_place: "bounded g \<Longrightarrow> bounded (fst (place_output sid off d g))"
proof -
  assume g: "bounded g"
  have o: "bounded (moved_to off sid d k) = bounded k" "bounded (check_overlap x y d k) = bounded k" for k x y
    by (simp_all add: moved_to_def check_overlap_def Let_def split: option.split)
  have "bounded (k\<lparr>gn_tail := []\<rparr>)" if "bounded k" for k using that by (simp add: bounded_def VT_OVERLAP_WINDOW_UNITS_def)
  then show ?thesis using g by (simp add: place_output_def Let_def o bounded_shape split: option.split)
qed

lemma bounded_retain: "bounded g \<Longrightarrow> bounded (retainOverlap d g)"
proof -
  assume g: "bounded g"
  have "int (length (drop (nat (int (length t) - VT_OVERLAP_WINDOW_UNITS)) t)) \<le> VT_OVERLAP_WINDOW_UNITS" for t :: units
    by (simp add: VT_OVERLAP_WINDOW_UNITS_def)
  then have "bounded (g\<lparr>gn_tail := drop (nat (int (length t) - VT_OVERLAP_WINDOW_UNITS)) t, gn_tail_start := p\<rparr>)" for t p
    using g unfolding bounded_def by (simp del: length_drop)
  from this [where t = "gn_tail g @ d"] show ?thesis using g unfolding retainOverlap_def Let_def by (cases "gn_local g \<or> d = []") simp_all
qed

lemma bounded_accept:
  assumes "bounded g"
  shows "carries bounded mark_seen g (accept_output T sid off d g)"
proof -
  define g0 where "g0 = (if gn_stream g = None then g\<lparr>gn_stream := sid\<rparr> else g)"
  have g0: "bounded g0" "gn_observed g0 = gn_observed g" using assms by (simp_all add: g0_def)
  obtain k rest where p: "place_output sid off d g0 = (k, rest)" by fastforce
  then have k: "bounded k" "gn_observed k = gn_observed g"
    using bounded_place [OF g0(1), of sid off d] observed_place [of sid off d g0] g0(2) by simp_all
  have e: "carries bounded mark_seen g (enqueue_vt T (OutOp x 0) (retainOverlap x (determineOrigin o' sid j)))"
    if "bounded j" "gn_observed j = gn_observed g" for x o' j
    using that by (intro carries_from [OF bounded_enqueue]) (simp_all add: bounded_retain)
  show ?thesis
  proof (cases "gn_local g0")
    case True
    then have "accept_output T sid off d g = enqueue_vt T (OutOp d 0) (retainOverlap d (determineOrigin (Some 0) sid
        (g0\<lparr>gn_pos := Some ((case gn_pos g0 of None \<Rightarrow> 0 | Some p \<Rightarrow> p) + int (length d))\<rparr>)))"
      by (simp add: accept_output_def g0_def [symmetric] Let_def)
    then show ?thesis using e g0 by simp
  next
    case False
    then have "accept_output T sid off d g = (case rest of None \<Rightarrow> (k, None)
        | Some x \<Rightarrow> enqueue_vt T (OutOp x 0) (retainOverlap x (determineOrigin (if gn_local k then Some 0 else off) sid k)))"
      by (simp add: accept_output_def g0_def [symmetric] p Let_def)
    then show ?thesis using e k by (cases rest) (auto simp: carries_def mark_seen_def)
  qed
qed


lemma bounded_geometry:
  assumes "bounded g"
  shows "carries bounded mark_seen g (accept_geometry T c0 r0 at0 src sid g)"
proof -
  define g1 where "g1 = (if gn_stream g = None then g\<lparr>gn_stream := sid\<rparr> else g)"
  have g1: "bounded g1" "gn_observed g1 = gn_observed g" using assms by (simp_all add: g1_def)
  have e: "carries bounded mark_seen g (enqueue_vt T op h)" if "bounded h" "gn_observed h = gn_observed g" for op h
    using that by (intro carries_from [OF bounded_enqueue])
  have q: "carries bounded mark_seen g (add_reason r h, None)" if "bounded h" "gn_observed h = gn_observed g" for r h
    using that by (simp add: carries_def mark_seen_def add_reason_def bounded_def)
  show ?thesis unfolding accept_geometry_def Let_def g1_def [symmetric]
    using assms g1 by (auto intro!: e q split: option.split)
qed

lemma bounded_stop: "bounded g \<Longrightarrow> bounded (stopGeneration g)"
  by (simp add: stopGeneration_def bounded_def releaseDrainWaiters_def VT_QUEUE_MAX_OPS_def VT_QUEUE_MAX_UNITS_def)

lemma bounded_acknowledge:
  assumes "bounded g" and "mark_seen g c"
  shows "carries bounded mark_seen g (acknowledge T c g)"
proof -
  define g1 where "g1 = g\<lparr>gn_writing := False, gn_applied := max (gn_applied g) (cb_mark c), gn_audit := gn_audit g + cb_units c\<rparr>"
  define g2 where "g2 = g1\<lparr>gn_audit := 0\<rparr>"
  have g1: "bounded g1" "gn_observed g1 = gn_observed g" "bounded g2" "gn_observed g2 = gn_observed g"
    using assms by (auto simp: g1_def g2_def bounded_def mark_seen_def)
  have a: "bounded (auditCellGrowth T g2)" "gn_observed (auditCellGrowth T g2) = gn_observed g"
    using g1(3,4) bounded_stop [of "degradeCompleteness PartialLoss (add_reason CellGrowthBoundExceeded g2)"]
    by (simp_all add: auditCellGrowth_def split: option.split)
      (simp_all add: stopGeneration_def releaseDrainWaiters_def degradeCompleteness_def add_reason_def)
  have p: "carries bounded mark_seen g (pump T h)" if "bounded h" "gn_observed h = gn_observed g" for h
    using that by (intro carries_from [OF bounded_pump])
  show ?thesis unfolding acknowledge_def Let_def g1_def [symmetric] g2_def [symmetric]
    using a p [OF g1(1,2)] p [OF a] carries_from [of "auditCellGrowth T g2" "(auditCellGrowth T g2, None)" g]
    by (simp add: carries_def)
qed

interpretation bounds_law: gen_law bounded mark_seen
proof unfold_locales
  fix T opts b n sid c
  have "bounded (fresh_gen n sid c opts)"
    by (simp add: fresh_gen_def bounded_def Let_def VT_QUEUE_MAX_OPS_def VT_QUEUE_MAX_UNITS_def VT_OVERLAP_WINDOW_UNITS_def)
  then have f: "bounded (refuse_geometry opts (restore_floor b (fresh_gen n sid c opts)))"
    by (subst bounded_sizes [of _ "fresh_gen n sid c opts"]) (simp_all add: refuse_geometry_def restore_floor_def vt_simps)
  have "\<not> gn_stopped (refuse_geometry opts (restore_floor b (fresh_gen n sid c opts)))"
    by (simp add: refuse_geometry_def restore_floor_def fresh_gen_def degradeCompleteness_def add_reason_def Let_def)
  then show "bounded (ensureTerminal T (refuse_geometry opts (restore_floor b (fresh_gen n sid c opts))))"
    using f by (simp add: ensureTerminal_def bounded_shape bounded_term Let_def split: lib_state.split)
qed (simp_all add: bounded_accept bounded_geometry bounded_enqueue bounded_acknowledge,
     simp_all add: carries_def mark_seen_def add_reason_def degradeContinuity_def degradeCompleteness_def bounded_def Let_def)

text \<open>
  C32. After any run, whatever the messages held and the library did, the queue of the current generation
  is within its two bounds and its unit count is that of the outputs in it, no more is applied than was
  observed, the retained window is within its bound, and a stopped generation keeps neither queue nor
  terminal.
\<close>

theorem screen_stays_bounded:
  assumes "sc_gen (fold vt_step es (new_screen T session cause opts)) = Some g"
  shows "int (length (gn_queue g)) \<le> 4096 \<and> gn_queued g = sum_list (map op_units (gn_queue g)) \<and> gn_queued g \<le> 1048576
    \<and> 0 \<le> gn_applied g \<and> gn_applied g \<le> gn_observed g \<and> int (length (gn_tail g)) \<le> 65536
    \<and> (if gn_stopped g then gn_queue g = [] \<and> gn_term g = None else True)"
  using bounds_law.run_law [OF assms]
  by (auto simp: bounded_def VT_QUEUE_MAX_OPS_def VT_QUEUE_MAX_UNITS_def VT_OVERLAP_WINDOW_UNITS_def)

lemma screen_stays_bounded_witness:
  "sc_gen (fold vt_step good_run start) = Some (the (sc_gen (fold vt_step good_run start)))
    \<and> gn_applied (the (sc_gen (fold vt_step good_run start))) \<le> gn_observed (the (sc_gen (fold vt_step good_run start)))"
proof -
  have g: "sc_gen (fold vt_step good_run start) = Some (the (sc_gen (fold vt_step good_run start)))" by code_simp
  show ?thesis using g screen_stays_bounded [OF g [unfolded start_def], folded start_def] by blast
qed

section \<open>Snapshots\<close>

lemma cut_row_length: "length (cut_row n s) \<le> n"
  by (auto simp: cut_row_def safeSplitIndex_def)

lemma last_take: "0 < m \<Longrightarrow> m \<le> length s \<Longrightarrow> last (take m s) = s ! (m - 1)"
  by (subst last_conv_nth) (auto simp: min_def)

text \<open>A row is never cut inside a surrogate pair.\<close>

lemma cut_row_whole_pairs:
  assumes "0 < n" and "cut_row n s \<noteq> s" and "cut_row n s \<noteq> []"
    and "\<And>i. Suc i < length s \<Longrightarrow> high_surrogate (s ! i) \<Longrightarrow> low_surrogate (s ! Suc i)"
  shows "\<not> high_surrogate (last (cut_row n s))"
proof
  assume h: "high_surrogate (last (cut_row n s))"
  have l: "length s > n" using assms(2) by (auto simp: cut_row_def split: if_splits)
  show False
  proof (cases "high_surrogate (s ! (n - 1))")
    case False
    then have "cut_row n s = take n s" using l by (simp add: cut_row_def safeSplitIndex_def)
    then have "last (cut_row n s) = s ! (n - 1)" using l assms(1) last_take [of n s] by simp
    then show False using h False by simp
  next
    case True
    then have c: "cut_row n s = take (n - 1) s" using l by (simp add: cut_row_def safeSplitIndex_def)
    then have n: "n - 1 > 0" using assms(3) by (cases "n - 1") auto
    then have "last (cut_row n s) = s ! (n - 2)" using l c last_take [of "n - 1" s] by (simp add: numeral_2_eq_2)
    then have "low_surrogate (s ! Suc (n - 2))" using assms(4) [of "n - 2"] h l n by simp
    moreover have "Suc (n - 2) = n - 1" using n by simp
    ultimately show False using True by (auto simp: low_surrogate_def high_surrogate_def)
  qed
qed

definition snapshot_ok :: "nat \<Rightarrow> (nat \<Rightarrow> units option) \<Rightarrow> snapshot \<Rightarrow> nat list \<Rightarrow> bool" where
  "snapshot_ok width line sn done \<longleftrightarrow>
     sn_bytes sn \<le> VT_MAX_SNAPSHOT_BYTES \<and> sn_bytes sn = sum_list (map (\<lambda>r. byte_length r + 1) (sn_rows sn))
     \<and> sn_rows sn = map (\<lambda>i. cut_row width (case line i of None \<Rightarrow> [] | Some s \<Rightarrow> s)) done"

lemma snapshot_ok_cong:
  "sn_bytes a = sn_bytes b \<Longrightarrow> sn_rows a = sn_rows b \<Longrightarrow> snapshot_ok w l a d = snapshot_ok w l b d"
  by (simp add: snapshot_ok_def)

lemma snapshot_rows_ok:
  "snapshot_ok width line sn done \<Longrightarrow> \<exists>n. snapshot_ok width line (snapshot_rows width line is sn) (done @ take n is)
     \<and> (n < length is \<longrightarrow> sn_truncated (snapshot_rows width line is sn))"
proof (induction "is" arbitrary: sn "done")
  case Nil
  then show ?case by simp
next
  case (Cons i "is")
  define row where "row = cut_row width (case line i of None \<Rightarrow> [] | Some s \<Rightarrow> s)"
  define sn1 where "sn1 = (if length (case line i of None \<Rightarrow> [] | Some s \<Rightarrow> s) > width \<and> RowTruncated \<notin> set (sn_reasons sn)
      then sn\<lparr>sn_reasons := sn_reasons sn @ [RowTruncated]\<rparr> else sn)"
  have s1: "sn_bytes sn1 = sn_bytes sn" "sn_rows sn1 = sn_rows sn" by (simp_all add: sn1_def)
  have e: "snapshot_rows width line (i # is) sn = (if sn_bytes sn1 + (byte_length row + 1) > VT_MAX_SNAPSHOT_BYTES
      then sn1\<lparr>sn_truncated := True, sn_reasons := sn_reasons sn1 @ [SnapshotTruncated]\<rparr>
      else snapshot_rows width line is (sn1\<lparr>sn_bytes := sn_bytes sn1 + (byte_length row + 1), sn_rows := sn_rows sn1 @ [row]\<rparr>))"
    unfolding snapshot_rows.simps Let_def row_def [symmetric] sn1_def [symmetric] by (rule refl)
  show ?case
  proof (cases "sn_bytes sn1 + (byte_length row + 1) > VT_MAX_SNAPSHOT_BYTES")
    case True
    have "snapshot_ok width line (sn1\<lparr>sn_truncated := True, sn_reasons := sn_reasons sn1 @ [SnapshotTruncated]\<rparr>) done"
      using Cons.prems by (subst snapshot_ok_cong [where b = sn]) (simp_all add: s1)
    then show ?thesis using True unfolding e by (intro exI [of _ 0]) simp
  next
    case False
    let ?sn = "sn1\<lparr>sn_bytes := sn_bytes sn1 + (byte_length row + 1), sn_rows := sn_rows sn1 @ [row]\<rparr>"
    have "snapshot_ok width line ?sn (done @ [i])"
      using Cons.prems s1 False by (simp add: snapshot_ok_def row_def)
    from Cons.IH [OF this] obtain n where "snapshot_ok width line (snapshot_rows width line is ?sn) ((done @ [i]) @ take n is)"
      "n < length is \<longrightarrow> sn_truncated (snapshot_rows width line is ?sn)" by blast
    then show ?thesis using False e by (intro exI [of _ "Suc n"]) simp
  qed
qed

text \<open>
  A frame's rows are the first rows the terminal shows, each cut to eight units a column, in at most
  262144 bytes of UTF-8 with their separators; rows are missing only when the frame says that it is
  truncated.
\<close>

theorem snapshot_bounded:
  assumes "gn_term g = Some cs" and "\<not> gn_stopped g" and "vt_view T cs = Some v"
  shows "\<exists>n. sn_rows (snapshot_of T g) = map (\<lambda>i. cut_row (max_row_chars g) (case gr_text v i of None \<Rightarrow> [] | Some s \<Rightarrow> s)) (take n (row_numbers g))
      \<and> sn_bytes (snapshot_of T g) = sum_list (map (\<lambda>r. byte_length r + 1) (sn_rows (snapshot_of T g)))
      \<and> sn_bytes (snapshot_of T g) \<le> 262144 \<and> list_all (\<lambda>r. length r \<le> max_row_chars g) (sn_rows (snapshot_of T g))
      \<and> (n \<ge> length (row_numbers g) \<or> sn_truncated (snapshot_of T g))"
proof -
  let ?sn = "empty_snapshot\<lparr>sn_cursor := Some (gr_cursor v), sn_alternate := Some (gr_alternate v)\<rparr>"
  have "snapshot_ok (max_row_chars g) (gr_text v) ?sn []"
    by (simp add: snapshot_ok_def empty_snapshot_def VT_MAX_SNAPSHOT_BYTES_def)
  from snapshot_rows_ok [OF this, of "row_numbers g"] obtain n where
    "snapshot_ok (max_row_chars g) (gr_text v) (snapshot_of T g) (take n (row_numbers g))"
    "n < length (row_numbers g) \<longrightarrow> sn_truncated (snapshot_of T g)"
    using assms by (auto simp: snapshot_of_def)
  then show ?thesis using cut_row_length
    by (intro exI [of _ n]) (auto simp: snapshot_ok_def VT_MAX_SNAPSHOT_BYTES_def list_all_iff)
qed


definition small_gen :: gen where
  "small_gen = (fresh_gen 1 [97] AttachedMidStream no_options)\<lparr>gn_cols := Some 1, gn_rows := Some 2, gn_term := Some [TNew 1 2]\<rparr>"

definition long_row :: grid where
  "long_row = \<lparr>gr_alternate = False, gr_cursor = (0, 0), gr_full = (\<lambda>i. None),
     gr_text = (\<lambda>i. if i = 0 then Some [97, 98, 99, 100, 101, 102, 103, 55357, 56832] else None)\<rparr>"

lemma snapshot_bounded_witness:
  "sn_bytes (snapshot_of (plain_term\<lparr>vt_view := (\<lambda>cs. Some long_row)\<rparr>) small_gen) \<le> 262144
    \<and> sn_rows (snapshot_of (plain_term\<lparr>vt_view := (\<lambda>cs. Some long_row)\<rparr>) small_gen) = [[97, 98, 99, 100, 101, 102, 103], []]"
proof -
  let ?T = "plain_term\<lparr>vt_view := (\<lambda>cs. Some long_row)\<rparr>"
  have "gn_term small_gen = Some [TNew 1 2]" "\<not> gn_stopped small_gen" by code_simp+
  moreover have "vt_view ?T [TNew 1 2] = Some long_row" by simp
  moreover have "sn_rows (snapshot_of ?T small_gen) = [[97, 98, 99, 100, 101, 102, 103], []]" by code_simp
  ultimately show ?thesis using snapshot_bounded [of small_gen "[TNew 1 2]" ?T long_row] by blast
qed

end
