(* ===== verification/Vt_Qualify.thy ===== *)
theory Vt_Qualify
  imports Vt_Bounds
begin

text \<open>
  The qualification of a generation only ever gets worse, with one exception: the first output may
  attest the origin, once. Shown as an order on generations that every operation follows.
\<close>

section \<open>The order\<close>

definition attested :: "gen \<Rightarrow> gen \<Rightarrow> bool" where
  "attested g h \<longleftrightarrow> \<not> gn_origin g \<and> gn_complete g = PartialAttach \<and> gn_complete h = Complete \<and> gn_origin h"

definition worse :: "gen \<Rightarrow> gen \<Rightarrow> bool" where
  "worse g h \<longleftrightarrow> gn_reasons g \<subseteq> gn_reasons h \<and> (gn_cont_degraded g \<longrightarrow> gn_cont_degraded h)
     \<and> (gn_cont_degraded g \<longrightarrow> CONTINUITY_RANK (gn_cont g) \<le> CONTINUITY_RANK (gn_cont h))
     \<and> (gn_stopped g \<longrightarrow> gn_stopped h) \<and> (gn_origin g \<longrightarrow> gn_origin h)
     \<and> (COMPLETENESS_RANK (gn_complete g) \<le> COMPLETENESS_RANK (gn_complete h) \<or> attested g h)"

lemma worse_refl [simp]: "worse g g"
  by (simp add: worse_def)

lemma rank_zero [simp]: "COMPLETENESS_RANK c = 0 \<longleftrightarrow> c = Complete" "COMPLETENESS_RANK c \<le> Suc 0 \<longleftrightarrow> c = Complete \<or> c = PartialAttach"
  by (cases c; simp)+

lemma worse_trans:
  assumes "worse g h" and "worse h k"
  shows "worse g k"
proof -
  have "COMPLETENESS_RANK (gn_complete g) \<le> COMPLETENESS_RANK (gn_complete k) \<or> attested g k"
  proof (cases "attested g h")
    case True
    then show ?thesis using assms(2) by (cases "gn_complete k") (auto simp: worse_def attested_def)
  next
    case False
    then have "COMPLETENESS_RANK (gn_complete g) \<le> COMPLETENESS_RANK (gn_complete h)" using assms(1) by (simp add: worse_def)
    then show ?thesis using assms by (cases "gn_complete g") (auto simp: worse_def attested_def)
  qed
  moreover have "gn_cont_degraded g \<longrightarrow> CONTINUITY_RANK (gn_cont g) \<le> CONTINUITY_RANK (gn_cont k)"
    using assms order_trans unfolding worse_def by meson
  moreover have "gn_reasons g \<subseteq> gn_reasons k" "gn_cont_degraded g \<longrightarrow> gn_cont_degraded k"
    "gn_stopped g \<longrightarrow> gn_stopped k" "gn_origin g \<longrightarrow> gn_origin k" using assms unfolding worse_def by blast+
  ultimately show ?thesis unfolding worse_def by blast
qed

lemma worse_fields [simp]:
  "worse g (h\<lparr>gn_geo := a\<rparr>) = worse g h" "worse g (h\<lparr>gn_cols := b\<rparr>) = worse g h" "worse g (h\<lparr>gn_rows := b\<rparr>) = worse g h"
  "worse g (h\<lparr>gn_term := t\<rparr>) = worse g h" "worse g (h\<lparr>gn_queue := q\<rparr>) = worse g h" "worse g (h\<lparr>gn_queued := n\<rparr>) = worse g h"
  "worse g (h\<lparr>gn_geo_first := c\<rparr>) = worse g h" "worse g (h\<lparr>gn_writing := c\<rparr>) = worse g h" "worse g (h\<lparr>gn_pos := p\<rparr>) = worse g h"
  "worse g (h\<lparr>gn_tail := d\<rparr>) = worse g h" "worse g (h\<lparr>gn_tail_start := p\<rparr>) = worse g h" "worse g (h\<lparr>gn_stream := i\<rparr>) = worse g h"
  "worse g (h\<lparr>gn_applied := n\<rparr>) = worse g h" "worse g (h\<lparr>gn_observed := n\<rparr>) = worse g h" "worse g (h\<lparr>gn_audit := n\<rparr>) = worse g h"
  "worse g (h\<lparr>gn_waiters := ws\<rparr>) = worse g h" "worse g (h\<lparr>gn_woken := ws\<rparr>) = worse g h" "worse g (h\<lparr>gn_dropped := n\<rparr>) = worse g h"
  by (simp_all add: worse_def attested_def)

lemma worse_add_reason: "worse g h \<Longrightarrow> worse g (add_reason r h)"
  by (auto simp: worse_def attested_def add_reason_def)

lemma worse_completeness: "worse g (degradeCompleteness v g)"
  by (simp add: worse_def degradeCompleteness_def)

lemma worse_continuity: "worse g (degradeContinuity v g)"
  by (auto simp: worse_def degradeContinuity_def Let_def)

lemma worse_verify: "worse g (verifyContinuity g)"
  by (simp add: worse_def verifyContinuity_def)

lemma worse_loss: "worse g (noteLoss n r g)"
  unfolding noteLoss_def Let_def by (rule worse_trans [OF _ worse_completeness]) (simp add: worse_add_reason)

lemma worse_origin: "worse g (determineOrigin off sid g)"
  by (auto simp: worse_def attested_def determineOrigin_def Let_def)

lemma worse_release [simp]: "worse g (releaseDrainWaiters h) = worse g h"
  by (simp add: releaseDrainWaiters_def)

lemma worse_retain [simp]: "worse g (retainOverlap d h) = worse g h"
  by (simp add: retainOverlap_def Let_def)

lemma worse_ensure: "worse g (ensureTerminal T g)"
  by (simp add: ensureTerminal_def Let_def worse_add_reason split: lib_state.split)

lemma worse_resize: "worse g (applyResize T op g)"
proof -
  have e: "worse g (ensureTerminal T g)" "worse g (ensureTerminal T (add_reason r g))" for r
    by (rule worse_ensure, rule worse_trans [OF worse_add_reason [OF worse_refl] worse_ensure])
  show ?thesis by (auto simp: applyResize_def Let_def e worse_add_reason split: option.split)
qed

lemma worse_dropped: "worse g (applyDropped a b g)"
  using worse_loss by (simp add: applyDropped_def Let_def)

lemma worse_heads: "worse g (run_heads T ops g)"
proof (induction T ops g rule: run_heads.induct)
  case (3 T op ops g)
  then show ?case using worse_trans [OF worse_resize] by auto
next
  case (4 T sid a b ops g)
  then show ?case using worse_trans [OF worse_dropped] by auto
qed simp_all

lemma worse_write: "worse g (fst (write_chunk T d m g))"
proof -
  have l: "worse g (noteLoss n r (add_reason r' (g\<lparr>gn_term := t, gn_writing := b\<rparr>)))" for n r r' t b
    by (rule worse_trans [OF _ worse_loss]) (simp add: worse_add_reason)
  show ?thesis by (simp add: write_chunk_def Let_def l)
qed

lemma worse_pump: "worse g (fst (pump T g))"
proof -
  let ?g2 = "ensureTerminal T (run_heads T (gn_queue g) g)"
  have h: "worse g ?g2" by (rule worse_trans [OF worse_heads worse_ensure])
  have w: "worse g (fst (write_chunk T d m (?g2\<lparr>gn_queue := q, gn_queued := n\<rparr>)))" for d m q n
    by (rule worse_trans [OF _ worse_write]) (simp add: h)
  show ?thesis by (auto simp: pump_def Let_def worse_heads h w split: prod.split)
qed

lemma worse_enqueue: "worse g (fst (enqueue_vt T op g))"
proof -
  have p: "worse g (fst (pump T (g\<lparr>gn_queue := q, gn_queued := n, gn_observed := k\<rparr>)))" for q n k
    by (rule worse_trans [OF _ worse_pump]) simp
  show ?thesis by (simp add: enqueue_vt_def Let_def worse_loss p)
qed

lemma worse_overlap: "worse g (check_overlap k p d g)"
proof -
  have u: "worse g (degradeContinuity v (add_reason r g))" for v r
    by (rule worse_trans [OF worse_add_reason [OF worse_refl] worse_continuity])
  then have "worse g (degradeCompleteness w (degradeContinuity v (add_reason r g)))" for w v r
    by (rule worse_trans [OF _ worse_completeness])
  then show ?thesis using u by (simp add: check_overlap_def Let_def split: option.split)
qed

lemma worse_moved: "worse g (moved_to off sid d g)"
  using worse_trans [OF _ worse_verify, of g "g\<lparr>gn_pos := p\<rparr>" for p]
  by (simp add: moved_to_def Let_def split: option.split)

lemma worse_place: "worse g (fst (place_output sid off d g))"
proof -
  have m: "worse g (moved_to off' sid' d' h)" if "worse g h" for off' sid' d' h by (rule worse_trans [OF that worse_moved])
  show ?thesis
    by (auto simp: place_output_def Let_def worse_continuity worse_loss worse_overlap intro!: m split: option.split)
qed

lemma worse_accept: "worse g (fst (accept_output T sid off d g))"
proof -
  define g0 where "g0 = (if gn_stream g = None then g\<lparr>gn_stream := sid\<rparr> else g)"
  have g0: "worse g g0" by (simp add: g0_def)
  obtain k rest where p: "place_output sid off d g0 = (k, rest)" by fastforce
  then have k: "worse g k" using worse_trans [OF g0 worse_place, of sid off d] by simp
  have e: "worse g (fst (enqueue_vt T op (retainOverlap x (determineOrigin o' sid j))))" if "worse g j" for op x o' j
    by (rule worse_trans [OF _ worse_enqueue]) (simp add: worse_trans [OF that worse_origin])
  show ?thesis using e k g0
    by (auto simp: accept_output_def g0_def [symmetric] p Let_def split: option.split)
qed

lemma worse_geometry: "worse g (fst (accept_geometry T c r a src sid g))"
proof -
  have e: "worse g (fst (enqueue_vt T op h))" if "worse g h" for op h by (rule worse_trans [OF that worse_enqueue])
  show ?thesis by (auto simp: accept_geometry_def Let_def worse_add_reason intro!: e split: option.split)
qed

lemma worse_audit: "worse g (auditCellGrowth T g)"
proof -
  have "worse h (stopGeneration h)" for h by (simp add: stopGeneration_def worse_def attested_def releaseDrainWaiters_def)
  then have "worse g (stopGeneration (degradeCompleteness v (add_reason r g)))" for v r
    by (rule worse_trans [OF worse_trans [OF worse_add_reason [OF worse_refl] worse_completeness]])
  then show ?thesis by (simp add: auditCellGrowth_def worse_add_reason split: option.split)
qed

lemma worse_acknowledge: "worse g (fst (acknowledge T c g))"
proof -
  have p: "worse g (fst (pump T h))" if "worse g h" for h by (rule worse_trans [OF that worse_pump])
  have a: "worse g (auditCellGrowth T h)" if "worse g h" for h by (rule worse_trans [OF that worse_audit])
  show ?thesis by (auto simp: acknowledge_def Let_def intro!: p a)
qed

section \<open>Steps\<close>

text \<open>A generation that survives a step is the same one, no better qualified, or another one altogether.\<close>

lemma new_generation_index:
  "sc_gen (newGeneration T c opts s) = Some h \<Longrightarrow> \<not> sc_disposed s \<Longrightarrow> gn_index h = sc_counter s + 1"
  using ident_simps(11) by (auto simp: newGeneration_def Let_def ident_def refuse_geometry_def restore_floor_def
      degradeCompleteness_def add_reason_def fresh_gen_def)

lemma confirm_index:
  "sc_gen (confirm_stream T sid off s) = Some h \<Longrightarrow> \<not> sc_disposed s \<Longrightarrow> gn_index h = sc_counter s + 1"
proof -
  assume a: "sc_gen (confirm_stream T sid off s) = Some h" "\<not> sc_disposed s"
  obtain t pending where t: "takePendingGeometry sid off (sc_pending s) = (t, pending)" by fastforce
  have n: "gn_index k = sc_counter s + 1" if "sc_gen (newGeneration T c opts (s\<lparr>sc_pending := pending\<rparr>)) = Some k" for c opts k
    using new_generation_index [OF that] a(2) by simp
  show ?thesis using a(1) unfolding confirm_stream_def t prod.case Let_def
    by (auto simp: add_reason_def dest: n split: if_splits)
qed

lemma output_qualifies:
  assumes "sc_gen s = Some g" and "gn_index g = sc_counter s" and "sc_gen (noteOutput T data i k s) = Some h"
    and "gn_index h = gn_index g"
  shows "worse g h"
proof -
  obtain g1 off where ro: "read_offset k g = (g1, off)" by fastforce
  have cont: "worse g (degradeContinuity v (add_reason r g))" for v r
    by (rule worse_trans [OF worse_add_reason [OF worse_refl] worse_continuity])
  have g1: "worse g g1" using ro cont by (auto simp: read_offset_def split: if_splits)
  have acc: "worse g (fst (accept_output T sid off d g1))" for sid d by (rule worse_trans [OF g1 worse_accept])
  have rot: "gn_index h' \<noteq> gn_index g" if "sc_gen (confirm_stream T j off (s\<lparr>sc_gen := Some g1\<rparr>)) = Some h'" "\<not> sc_disposed s" for j h'
    using confirm_index [OF that(1)] that(2) assms(2) by simp
  have id: "gn_index (fst (accept_output T sid off d (fst (read_offset k h')))) = gn_index h'" for sid d h'
    using ident_accept [of T sid off d "fst (read_offset k h')"] ident_offset [of k h'] by (simp add: ident_def)
  show ?thesis
    using assms(1,3,4) cont acc rot id ro
    by (auto simp: noteOutput_def Let_def put_gen_def split: if_splits option.splits)
qed

lemma step_qualifies:
  assumes "sc_gen s = Some g" and "gn_index g = sc_counter s" and "sc_gen (vt_step e s) = Some h" and "gn_index h = gn_index g"
  shows "worse g h"
proof -
  obtain T ev where e: "e = (T, ev)" by fastforce
  have cont: "worse g (degradeContinuity v (add_reason r g))" for v r
    by (rule worse_trans [OF worse_add_reason [OF worse_refl] worse_continuity])
  show ?thesis
  proof (cases ev)
    case (Output d i k)
    then show ?thesis using output_qualifies [OF assms(1,2) _ assms(4)] assms(3) by (simp add: vt_step_def e)
  next
    case (Geometry c r i a src)
    then show ?thesis using assms(1,3) worse_geometry [of g T c r a src]
      by (auto simp: vt_step_def e noteGeometry_def Let_def put_gen_def worse_add_reason split: if_splits)
  next
    case (Dropped a b i)
    have "worse g (degradeCompleteness w (add_reason r g))" for w r
      by (rule worse_trans [OF worse_add_reason [OF worse_refl] worse_completeness])
    then show ?thesis using Dropped assms(1,3) cont worse_enqueue [of g T]
      by (auto simp: vt_step_def e noteDropped_def Let_def put_gen_def split: if_splits)
  next
    case (Written k)
    then show ?thesis using assms(1,3) worse_acknowledge [of g T]
      by (auto simp: vt_step_def e onWritten_def Let_def put_gen_def split: if_splits)
  next
    case (NewGeneration c opts)
    then show ?thesis using assms new_generation_index [of T c opts s h]
      by (cases "sc_disposed s") (auto simp: vt_step_def e newGeneration_def)
  next
    case (Waits r)
    then show ?thesis using assms(1,3) by (auto simp: vt_step_def e waitForDrain_def split: if_splits)
  next
    case (Reads b)
    then show ?thesis using assms(1,3) by (auto simp: vt_step_def e readFrameSync_def Let_def)
  next
    case Disposes
    then show ?thesis using assms(1,3) by (auto simp: vt_step_def e dispose_def teardownGeneration_def split: if_splits)
  qed
qed

text \<open>Only a new generation brings one back, and the counter never falls.\<close>

lemma born:
  assumes "sc_gen s = None" and "sc_gen (vt_step e s) = Some h"
  shows "sc_counter (vt_step e s) = sc_counter s + 1"
proof -
  obtain T ev where e: "e = (T, ev)" by fastforce
  show ?thesis using assms
    by (cases ev) (auto simp: vt_step_def e noteOutput_def noteGeometry_def noteDropped_def onWritten_def waitForDrain_def
        readFrameSync_def dispose_def teardownGeneration_def newGeneration_def Let_def split: if_splits)
qed

text \<open>
  While one generation lasts, its qualification never improves, whatever happens in between, except
  that completeness may once go from \<open>partial_since_attach\<close> to \<open>complete\<close>, at the first output; a
  reason once named stays named and a stopped generation stays stopped.
\<close>

theorem qualification_only_worsens:
  assumes "s = fold vt_step es (new_screen T0 session cause opts)" and "sc_gen s = Some g"
    and "sc_gen (fold vt_step fs s) = Some h" and "gn_index h = gn_index g"
  shows "gn_reasons g \<subseteq> gn_reasons h \<and> (gn_stopped h \<or> \<not> gn_stopped g)
    \<and> (\<not> gn_cont_degraded g \<or> CONTINUITY_RANK (gn_cont g) \<le> CONTINUITY_RANK (gn_cont h))
    \<and> (COMPLETENESS_RANK (gn_complete g) \<le> COMPLETENESS_RANK (gn_complete h)
       \<or> (\<not> gn_origin g \<and> gn_complete g = PartialAttach \<and> gn_complete h = Complete \<and> gn_origin h))"
proof -
  have "worse g h"
    using assms(3,4)
  proof (induction fs arbitrary: h rule: rev_induct)
    case Nil
    then show ?case using assms(2) by simp
  next
    case (snoc e fs)
    let ?m = "fold vt_step fs s"
    have cur: "bounds_law.holds (fold vt_step (es @ xs) (new_screen T0 session cause opts))" for xs
      by (rule bounds_law.run_holds)
    have m: "\<And>k. sc_gen ?m = Some k \<Longrightarrow> gn_index k = sc_counter ?m"
      using cur [of fs] assms(1) by (simp add: bounds_law.holds_def)
    have gi: "gn_index g = sc_counter s" using cur [of "[]"] assms(1,2) by (simp add: bounds_law.holds_def)
    have mono: "sc_counter t \<le> sc_counter (vt_step a t)" for a t
    proof -
      obtain T ev where a: "a = (T, ev)" by fastforce
      have c: "sc_counter u \<le> sc_counter (newGeneration T c opts u)" for c opts u
        by (simp add: newGeneration_def Let_def)
      have d: "sc_counter u \<le> sc_counter (confirm_stream T i off u)" for i off u
        using c [of "u\<lparr>sc_pending := p\<rparr>" for p] by (auto simp: confirm_stream_def Let_def split: prod.split)
      have d': "sc_counter u \<le> sc_counter (confirm_stream T i off (u\<lparr>sc_gen := x\<rparr>))" for i off u x
        using d [of "u\<lparr>sc_gen := x\<rparr>"] by simp
      show ?thesis using c d'
        by (cases ev) (auto simp: vt_step_def a noteOutput_def noteGeometry_def noteDropped_def onWritten_def waitForDrain_def
            readFrameSync_def dispose_def teardownGeneration_def put_gen_def Let_def split: option.split prod.split)
    qed
    have grow: "sc_counter s \<le> sc_counter (fold vt_step xs s)" for xs
      by (induction xs rule: rev_induct) (auto intro: order_trans mono)
    have hi: "gn_index h = sc_counter (vt_step e ?m)"
      using cur [of "fs @ [e]"] assms(1) snoc.prems(1) by (simp add: bounds_law.holds_def)
    then have "sc_counter (vt_step e ?m) = sc_counter ?m" using grow [of fs] mono [of ?m e] gi snoc.prems(2) by simp
    then have c: "sc_counter (vt_step e ?m) = sc_counter ?m" .
    obtain k where k: "sc_gen ?m = Some k"
      using born [of ?m e h] snoc.prems(1) c by (cases "sc_gen ?m") auto
    then have i: "gn_index k = gn_index g" using m c hi snoc.prems(2) by simp
    show ?case
      using worse_trans [OF snoc.IH [OF k i] step_qualifies [OF k m [OF k]]] snoc.prems i by simp
  qed
  then show ?thesis by (auto simp: worse_def attested_def)
qed


lemma qualification_only_worsens_witness:
  "gn_reasons (the (sc_gen (fold vt_step [sized 0, says ''a'' 0] start)))
     \<subseteq> gn_reasons (the (sc_gen (fold vt_step [wrote, says ''c'' 2] (fold vt_step [sized 0, says ''a'' 0] start))))
   \<and> gn_complete (the (sc_gen (fold vt_step [sized 0, says ''a'' 0] start))) = Complete
   \<and> gn_complete (the (sc_gen (fold vt_step [wrote, says ''c'' 2] (fold vt_step [sized 0, says ''a'' 0] start)))) = PartialLoss"
proof -
  define s where "s = fold vt_step [sized 0, says ''a'' 0] start"
  have g: "sc_gen s = Some (the (sc_gen s))" unfolding s_def by code_simp
  have h: "sc_gen (fold vt_step [wrote, says ''c'' 2] s) = Some (the (sc_gen (fold vt_step [wrote, says ''c'' 2] s)))"
    unfolding s_def by code_simp
  have i: "gn_index (the (sc_gen (fold vt_step [wrote, says ''c'' 2] s))) = gn_index (the (sc_gen s))"
    unfolding s_def by code_simp
  have c: "gn_complete (the (sc_gen s)) = Complete" "gn_complete (the (sc_gen (fold vt_step [wrote, says ''c'' 2] s))) = PartialLoss"
    unfolding s_def by code_simp+
  show ?thesis unfolding s_def [symmetric]
    using qualification_only_worsens [OF s_def [unfolded start_def] g h i] c by blast
qed

end
