(* ===== verification/Js_Bytes.thy ===== *)
theory Js_Bytes
  imports Js_Json
begin

text \<open>
  Bytes and texts as Node converts them: UTF-8 out of and into UTF-16 code units (a \<open>Buffer\<close>'s
  \<open>toString\<close> puts U+FFFD for every maximal ill-formed part, and writes a lone surrogate as
  U+FFFD), base64url, and percent-encoding, with the round trips the authentication code needs.
\<close>

type_synonym bytes = "int list"

definition byte_ok :: "int \<Rightarrow> bool" where
  "byte_ok b \<longleftrightarrow> 0 \<le> b \<and> b < 256"

section \<open>UTF-8\<close>

definition code_bytes :: "int \<Rightarrow> bytes" where
  "code_bytes p = (if p < 128 then [p]
     else if p < 2048 then [192 + p div 64, 128 + p mod 64]
     else if p < 65536 then [224 + p div 4096, 128 + p div 64 mod 64, 128 + p mod 64]
     else [240 + p div 262144, 128 + p div 4096 mod 64, 128 + p div 64 mod 64, 128 + p mod 64])"

definition pair_code :: "int \<Rightarrow> int \<Rightarrow> int" where
  "pair_code c d = 65536 + (c - 55296) * 1024 + (d - 56320)"

definition code_units :: "int \<Rightarrow> units" where
  "code_units p = (if p < 65536 then [p] else [55296 + (p - 65536) div 1024, 56320 + (p - 65536) mod 1024])"

definition lone_bytes :: "int \<Rightarrow> bytes" where
  "lone_bytes c = code_bytes (if high_surrogate c \<or> low_surrogate c then 65533 else c)"

text \<open>\<open>Buffer.from(s, 'utf8')\<close>.\<close>

fun utf8_bytes :: "units \<Rightarrow> bytes" where
  "utf8_bytes (c # d # s) =
     (if high_surrogate c \<and> low_surrogate d then code_bytes (pair_code c d) @ utf8_bytes s else lone_bytes c @ utf8_bytes (d # s))"
| "utf8_bytes [c] = lone_bytes c"
| "utf8_bytes [] = []"

text \<open>The decoder: what is still needed of a sequence, its code so far, and the next byte's bounds.\<close>

record utf8_state =
  us_need :: int
  us_code :: int
  us_low :: int
  us_high :: int

definition utf8_start :: utf8_state where
  "utf8_start = \<lparr>us_need = 0, us_code = 0, us_low = 128, us_high = 191\<rparr>"

definition utf8_lead :: "int \<Rightarrow> units \<times> utf8_state" where
  "utf8_lead b = (if b < 128 then ([b], utf8_start)
     else if 194 \<le> b \<and> b \<le> 223 then ([], utf8_start\<lparr>us_need := 1, us_code := b - 192\<rparr>)
     else if 224 \<le> b \<and> b \<le> 239 then ([], \<lparr>us_need = 2, us_code = b - 224,
       us_low = (if b = 224 then 160 else 128), us_high = (if b = 237 then 159 else 191)\<rparr>)
     else if 240 \<le> b \<and> b \<le> 244 then ([], \<lparr>us_need = 3, us_code = b - 240,
       us_low = (if b = 240 then 144 else 128), us_high = (if b = 244 then 143 else 191)\<rparr>)
     else ([65533], utf8_start))"

definition utf8_step :: "utf8_state \<Rightarrow> int \<Rightarrow> units \<times> utf8_state" where
  "utf8_step u b = (if us_need u = 0 then utf8_lead b
     else if us_low u \<le> b \<and> b \<le> us_high u then
       let p = us_code u * 64 + (b - 128) in
       if us_need u = 1 then (code_units p, utf8_start)
       else ([], utf8_start\<lparr>us_need := us_need u - 1, us_code := p\<rparr>)
     else let (e, v) = utf8_lead b in (65533 # e, v))"

fun utf8_run :: "utf8_state \<Rightarrow> bytes \<Rightarrow> units" where
  "utf8_run u [] = (if us_need u = 0 then [] else [65533])"
| "utf8_run u (b # bs) = (let (e, v) = utf8_step u b in e @ utf8_run v bs)"

text \<open>\<open>buffer.toString('utf8')\<close>.\<close>

definition utf8_text :: "bytes \<Rightarrow> units" where
  "utf8_text bs = utf8_run utf8_start bs"

text \<open>Texts without a lone surrogate.\<close>

fun whole_text :: "units \<Rightarrow> bool" where
  "whole_text (c # d # s) = (if high_surrogate c \<and> low_surrogate d then whole_text s
     else \<not> high_surrogate c \<and> \<not> low_surrogate c \<and> 0 \<le> c \<and> c < 65536 \<and> whole_text (d # s))"
| "whole_text [c] = (\<not> high_surrogate c \<and> \<not> low_surrogate c \<and> 0 \<le> c \<and> c < 65536)"
| "whole_text [] = True"

lemma low_high [simp]: "low_surrogate c \<Longrightarrow> \<not> high_surrogate c"
  by (auto simp: high_surrogate_def low_surrogate_def)

lemma run_four:
  assumes "0 \<le> a" "a \<le> 4" "0 \<le> b" "b \<le> 63" "0 \<le> c" "c \<le> 63" "0 \<le> d" "d \<le> 63"
    and "a = 0 \<longrightarrow> 16 \<le> b" "a = 4 \<longrightarrow> b \<le> 15"
  shows "utf8_run utf8_start ([240 + a, 128 + b, 128 + c, 128 + d] @ t)
     = code_units (262144 * a + 4096 * b + 64 * c + d) @ utf8_run utf8_start t"
  using assms by (simp add: utf8_step_def utf8_lead_def utf8_start_def Let_def algebra_simps)

lemma run_code:
  assumes "0 \<le> p" "p < 1114112" "\<not> (55296 \<le> p \<and> p \<le> 57343)"
  shows "utf8_run utf8_start (code_bytes p @ t) = code_units p @ utf8_run utf8_start t"
proof -
  consider "p < 128" | "128 \<le> p" "p < 2048" | "2048 \<le> p" "p < 65536" | "65536 \<le> p" by linarith
  then show ?thesis
  proof cases
    case 1
    then show ?thesis using assms
      by (simp add: code_bytes_def code_units_def utf8_step_def utf8_lead_def utf8_start_def)
  next
    case 2
    then have "2 \<le> p div 64" "p div 64 \<le> 31" "0 \<le> p mod 64" "p mod 64 \<le> 63" "p div 64 * 64 + p mod 64 = p" by auto
    with 2 show ?thesis
      by (simp add: code_bytes_def code_units_def utf8_step_def utf8_lead_def utf8_start_def)
  next
    case 3
    define a b c where "a = p div 4096" and "b = p div 64 mod 64" and "c = p mod 64"
    have r: "0 \<le> a" "a \<le> 15" "0 \<le> b" "b \<le> 63" "0 \<le> c" "c \<le> 63" "a * 4096 + b * 64 + c = p"
      using 3 zdiv_zmult2_eq [of 64 p 64] div_mult_mod_eq [of "p div 64" 64] div_mult_mod_eq [of p 64]
      unfolding a_def b_def c_def by (simp_all, linarith)
    have gap: "p < 55296 \<or> 57343 < p" using assms(3) by linarith
    have "a = 0 \<longrightarrow> 32 \<le> b" using r 3 by (intro impI) linarith
    moreover have "a = 13 \<longrightarrow> b \<le> 31" using gap r by (intro impI, elim disjE) linarith+
    ultimately
    show ?thesis using 3 r assms
      by (simp add: code_bytes_def code_units_def utf8_step_def utf8_lead_def utf8_start_def
          flip: a_def b_def c_def)
  next
    case 4
    define a b c d where "a = p div 262144" and "b = p div 4096 mod 64" and "c = p div 64 mod 64" and "d = p mod 64"
    have "0 \<le> p div 262144" "p div 262144 < 5" using 4 assms(2) by auto
    moreover have "p div 262144 * 64 + p div 4096 mod 64 = p div 4096" "p div 4096 * 64 + p div 64 mod 64 = p div 64"
      "p div 64 * 64 + p mod 64 = p"
      using zdiv_zmult2_eq [of 64 p 4096] zdiv_zmult2_eq [of 64 p 64] div_mult_mod_eq [of "p div 4096" 64]
        div_mult_mod_eq [of "p div 64" 64] by simp_all
    ultimately have r: "0 \<le> a" "a \<le> 4" "262144 * a + 4096 * b + 64 * c + d = p"
      unfolding a_def b_def c_def d_def by linarith+
    have m: "0 \<le> b" "b \<le> 63" "0 \<le> c" "c \<le> 63" "0 \<le> d" "d \<le> 63"
      by (simp_all add: b_def c_def d_def)
    note r = r m
    have "a = 0 \<longrightarrow> 16 \<le> b" using r 4 by (intro impI) linarith
    moreover have "a = 4 \<longrightarrow> b \<le> 15" using r assms(2) by (intro impI) linarith
    moreover have "code_bytes p = [240 + a, 128 + b, 128 + c, 128 + d]"
      using 4 by (simp add: code_bytes_def a_def b_def c_def d_def)
    ultimately show ?thesis using run_four r by metis
  qed
qed

lemma pair_units:
  assumes "high_surrogate c" "low_surrogate d"
  shows "code_units (pair_code c d) = [c, d] \<and> 65536 \<le> pair_code c d \<and> pair_code c d < 1114112"
proof -
  define j k where "j = c - 55296" and "k = d - 56320"
  have jk: "0 \<le> j" "j < 1024" "0 \<le> k" "k < 1024" and cd: "c = 55296 + j" "d = 56320 + k"
    using assms by (auto simp: j_def k_def high_surrogate_def low_surrogate_def)
  then have "(j * 1024 + k) div 1024 = j" "(j * 1024 + k) mod 1024 = k" by auto
  then show ?thesis using jk by (simp add: code_units_def pair_code_def cd)
qed

lemma run_pair: "high_surrogate c \<Longrightarrow> low_surrogate d \<Longrightarrow>
    utf8_run utf8_start (code_bytes (pair_code c d) @ t) = c # d # utf8_run utf8_start t"
  using pair_units [of c d] run_code [of "pair_code c d" t] by simp

lemma run_lone: "\<not> high_surrogate c \<Longrightarrow> \<not> low_surrogate c \<Longrightarrow> 0 \<le> c \<Longrightarrow> c < 65536 \<Longrightarrow>
    utf8_run utf8_start (lone_bytes c @ t) = c # utf8_run utf8_start t"
  using run_code [of c t] by (auto simp: lone_bytes_def code_units_def high_surrogate_def low_surrogate_def)

lemma utf8_run_text: "whole_text s \<Longrightarrow> utf8_run utf8_start (utf8_bytes s @ t) = s @ utf8_run utf8_start t"
proof (induction s rule: utf8_bytes.induct)
  case (1 c d s)
  show ?case
  proof (cases "high_surrogate c \<and> low_surrogate d")
    case True
    with 1 show ?thesis by (simp add: run_pair)
  next
    case False
    with 1 have "whole_text (d # s)" and c: "\<not> high_surrogate c" "\<not> low_surrogate c" "0 \<le> c" "c < 65536"
      by (auto split: if_splits)
    with 1 False have "utf8_run utf8_start (utf8_bytes (d # s) @ t) = (d # s) @ utf8_run utf8_start t" by blast
    with False run_lone [OF c] show ?thesis by auto
  qed
qed (simp_all add: run_lone)

lemma utf8_roundtrip: "whole_text s \<Longrightarrow> utf8_text (utf8_bytes s) = s"
  using utf8_run_text [of s "[]"] by (simp add: utf8_text_def utf8_start_def)

lemma code_bytes_ok: "0 \<le> p \<Longrightarrow> p < 1114112 \<Longrightarrow> list_all byte_ok (code_bytes p)"
  by (auto simp: code_bytes_def byte_ok_def)

lemma utf8_bytes_ok: "whole_text s \<Longrightarrow> list_all byte_ok (utf8_bytes s)"
proof (induction s rule: utf8_bytes.induct)
  case (1 c d s)
  show ?case
  proof (cases "high_surrogate c \<and> low_surrogate d")
    case True
    with 1 pair_units [of c d] show ?thesis by (simp add: code_bytes_ok)
  next
    case False
    with 1 have "list_all byte_ok (utf8_bytes (d # s))" "0 \<le> c" "c < 65536" by (auto split: if_splits)
    with False show ?thesis by (auto simp: lone_bytes_def code_bytes_ok)
  qed
qed (simp_all add: lone_bytes_def code_bytes_ok)

section \<open>base64url\<close>

definition b64_unit :: "int \<Rightarrow> int" where
  "b64_unit n = (if n < 26 then 65 + n else if n < 52 then 71 + n else if n < 62 then n - 4 else if n = 62 then 45 else 95)"

definition b64_value :: "int \<Rightarrow> int" where
  "b64_value c = (if 65 \<le> c \<and> c \<le> 90 then c - 65 else if 97 \<le> c \<and> c \<le> 122 then c - 71
     else if 48 \<le> c \<and> c \<le> 57 then c + 4 else if c = 45 then 62 else 63)"

text \<open>\<open>/^[A-Za-z0-9_-]$/\<close>.\<close>

definition b64_char :: "int \<Rightarrow> bool" where
  "b64_char c \<longleftrightarrow> (65 \<le> c \<and> c \<le> 90) \<or> (97 \<le> c \<and> c \<le> 122) \<or> (48 \<le> c \<and> c \<le> 57) \<or> c = 45 \<or> c = 95"

fun b64_encode :: "bytes \<Rightarrow> units" where
  "b64_encode (a # b # c # s) = b64_unit (a div 4) # b64_unit (a mod 4 * 16 + b div 16)
     # b64_unit (b mod 16 * 4 + c div 64) # b64_unit (c mod 64) # b64_encode s"
| "b64_encode [a, b] = [b64_unit (a div 4), b64_unit (a mod 4 * 16 + b div 16), b64_unit (b mod 16 * 4)]"
| "b64_encode [a] = [b64_unit (a div 4), b64_unit (a mod 4 * 16)]"
| "b64_encode [] = []"

text \<open>\<open>Buffer.from(s, 'base64url')\<close> on a text of the alphabet: a last single digit and spare bits are dropped.\<close>

fun b64_bytes :: "int list \<Rightarrow> bytes" where
  "b64_bytes (w # x # y # z # s) = (w * 4 + x div 16) # (x mod 16 * 16 + y div 4) # (y mod 4 * 64 + z) # b64_bytes s"
| "b64_bytes [w, x, y] = [w * 4 + x div 16, x mod 16 * 16 + y div 4]"
| "b64_bytes [w, x] = [w * 4 + x div 16]"
| "b64_bytes _ = []"

definition b64_decode :: "units \<Rightarrow> bytes" where
  "b64_decode s = b64_bytes (map b64_value s)"

lemma b64_value_unit [simp]: "0 \<le> n \<Longrightarrow> n < 64 \<Longrightarrow> b64_value (b64_unit n) = n"
  by (simp add: b64_value_def b64_unit_def)

lemma b64_char_unit [simp]: "0 \<le> n \<Longrightarrow> n < 64 \<Longrightarrow> b64_char (b64_unit n)"
  by (simp add: b64_char_def b64_unit_def)

lemma byte_parts:
  assumes "byte_ok a"
  shows "0 \<le> a div 4" "a div 4 < 64" "0 \<le> a mod 4 * 16" "a mod 4 * 16 \<le> 48" "0 \<le> a div 16" "a div 16 < 16"
    "0 \<le> a mod 16 * 4" "a mod 16 * 4 \<le> 60" "0 \<le> a div 64" "a div 64 < 4" "0 \<le> a mod 64" "a mod 64 < 64"
  using assms by (auto simp: byte_ok_def)

lemma digit_parts: "0 \<le> y \<Longrightarrow> y < n \<Longrightarrow> (x * n + y) div n = x" "0 \<le> y \<Longrightarrow> y < n \<Longrightarrow> (x * n + y) mod n = (y :: int)"
  by simp_all

lemma b64_triple:
  assumes "byte_ok a" "byte_ok b" "byte_ok c"
  shows "0 \<le> a mod 4 * 16 + b div 16" "a mod 4 * 16 + b div 16 < 64"
    "0 \<le> b mod 16 * 4 + c div 64" "b mod 16 * 4 + c div 64 < 64"
    "a div 4 * 4 + (a mod 4 * 16 + b div 16) div 16 = a"
    "(a mod 4 * 16 + b div 16) mod 16 * 16 + (b mod 16 * 4 + c div 64) div 4 = b"
    "(b mod 16 * 4 + c div 64) mod 4 * 64 + c mod 64 = c"
proof -
  note ps = byte_parts [OF assms(1)] byte_parts [OF assms(2)] byte_parts [OF assms(3)]
  show "0 \<le> a mod 4 * 16 + b div 16" "a mod 4 * 16 + b div 16 < 64"
    "0 \<le> b mod 16 * 4 + c div 64" "b mod 16 * 4 + c div 64 < 64" using ps by linarith+
  have m: "(a mod 4 * 16 + b div 16) div 16 = a mod 4" "(a mod 4 * 16 + b div 16) mod 16 = b div 16"
    "(b mod 16 * 4 + c div 64) div 4 = b mod 16" "(b mod 16 * 4 + c div 64) mod 4 = c div 64"
    by (intro digit_parts ps)+
  show "a div 4 * 4 + (a mod 4 * 16 + b div 16) div 16 = a"
    "(a mod 4 * 16 + b div 16) mod 16 * 16 + (b mod 16 * 4 + c div 64) div 4 = b"
    "(b mod 16 * 4 + c div 64) mod 4 * 64 + c mod 64 = c" unfolding m by (rule div_mult_mod_eq)+
qed

lemma b64_digits:
  assumes "byte_ok a" "byte_ok b" "byte_ok c"
  shows "b64_value (b64_unit (a div 4)) = a div 4"
    "b64_value (b64_unit (a mod 4 * 16 + b div 16)) = a mod 4 * 16 + b div 16"
    "b64_value (b64_unit (b mod 16 * 4 + c div 64)) = b mod 16 * 4 + c div 64"
    "b64_value (b64_unit (c mod 64)) = c mod 64"
    "b64_char (b64_unit (a div 4))" "b64_char (b64_unit (a mod 4 * 16 + b div 16))"
    "b64_char (b64_unit (b mod 16 * 4 + c div 64))" "b64_char (b64_unit (c mod 64))"
  by (simp_all only: b64_value_unit b64_char_unit b64_triple [OF assms] byte_parts [OF assms(1)] byte_parts [OF assms(3)])

lemmas b64_unfold = b64_decode_def b64_encode.simps list.map b64_bytes.simps list.pred_inject simp_thms

lemma byte_zero [simp]: "byte_ok 0"
  by (simp add: byte_ok_def)

lemma b64_roundtrip: "list_all byte_ok bs \<Longrightarrow> b64_decode (b64_encode bs) = bs"
proof (induction bs rule: b64_encode.induct)
  case (1 a b c s)
  then have ok: "byte_ok a" "byte_ok b" "byte_ok c" and rest: "b64_decode (b64_encode s) = s" by simp_all
  show ?case using rest by (simp only: b64_unfold b64_digits [OF ok] b64_triple(5-7) [OF ok])
next
  case (2 a b)
  then have ok: "byte_ok a" "byte_ok b" "byte_ok 0" by simp_all
  show ?case using b64_digits [OF ok] b64_triple(5-6) [OF ok] by (simp only: b64_unfold div_0 add_0_right)
next
  case (3 a)
  then have ok: "byte_ok a" "byte_ok 0" by simp_all
  show ?case using b64_digits [OF ok(1) ok(2) ok(2)] b64_triple(5) [OF ok(1) ok(2) ok(2)]
    by (simp only: b64_unfold div_0 add_0_right)
qed (simp only: b64_unfold)

lemma b64_encode_chars: "list_all byte_ok bs \<Longrightarrow> list_all b64_char (b64_encode bs)"
proof (induction bs rule: b64_encode.induct)
  case (1 a b c s)
  then have ok: "byte_ok a" "byte_ok b" "byte_ok c" and rest: "list_all b64_char (b64_encode s)" by simp_all
  show ?case using rest b64_digits(5-8) [OF ok] by (simp only: b64_unfold)
next
  case (2 a b)
  then have ok: "byte_ok a" "byte_ok b" "byte_ok 0" by simp_all
  show ?case using b64_digits(5-8) [OF ok] by (simp only: b64_unfold div_0 add_0_right)
next
  case (3 a)
  then have ok: "byte_ok a" "byte_ok 0" by simp_all
  show ?case using b64_digits(5-8) [OF ok(1) ok(2) ok(2)] by (simp only: b64_unfold div_0 add_0_right)
qed (simp only: b64_unfold)

section \<open>Percent-encoding\<close>

definition hex_value :: "int \<Rightarrow> int option" where
  "hex_value c = (if 48 \<le> c \<and> c \<le> 57 then Some (c - 48) else if 97 \<le> c \<and> c \<le> 102 then Some (c - 87)
     else if 65 \<le> c \<and> c \<le> 70 then Some (c - 55) else None)"

definition hex_pair :: "int \<Rightarrow> int \<Rightarrow> int option" where
  "hex_pair h l = (case (hex_value h, hex_value l) of (Some a, Some b) \<Rightarrow> Some (a * 16 + b) | _ \<Rightarrow> None)"

text \<open>What a run of escapes stands for in \<open>decodeURIComponent\<close>, which throws on ill-formed UTF-8.\<close>

definition strict_text :: "bytes \<Rightarrow> units option" where
  "strict_text bs = (if utf8_bytes (utf8_text bs) = bs then Some (utf8_text bs) else None)"

fun uri_decode_after :: "bytes \<Rightarrow> units \<Rightarrow> units option" where
  "uri_decode_after run [] = strict_text run"
| "uri_decode_after run (c # s) =
     (if c = 37 then case s of h # l # s' \<Rightarrow>
          (case hex_pair h l of None \<Rightarrow> None | Some b \<Rightarrow> uri_decode_after (run @ [b]) s')
        | _ \<Rightarrow> None
      else case strict_text run of None \<Rightarrow> None
        | Some t \<Rightarrow> map_option (\<lambda>r. t @ c # r) (uri_decode_after [] s))"

definition decodeURIComponent :: "units \<Rightarrow> units option" where
  "decodeURIComponent s = uri_decode_after [] s"

text \<open>\<open>URLSearchParams\<close>: the names of a query, in order. Escapes that are not two digits stand for themselves.\<close>

fun loose_escapes :: "bytes \<Rightarrow> bytes" where
  "loose_escapes (c # h # l # s) =
     (if c = 37 then case hex_pair h l of Some b \<Rightarrow> b # loose_escapes s | None \<Rightarrow> c # loose_escapes (h # l # s)
      else c # loose_escapes (h # l # s))"
| "loose_escapes s = s"

fun split_on :: "'a \<Rightarrow> 'a list \<Rightarrow> 'a list list" where
  "split_on x [] = [[]]"
| "split_on x (y # ys) = (if x = y then [] # split_on x ys else case split_on x ys of [] \<Rightarrow> [[y]] | p # ps \<Rightarrow> (y # p) # ps)"

definition query_names :: "units \<Rightarrow> units list" where
  "query_names q =
     (let q' = (case q of c # r \<Rightarrow> if c = 63 then r else q | [] \<Rightarrow> []);
          parts = filter (\<lambda>p. p \<noteq> []) (split_on 38 (utf8_bytes q')) in
      map (\<lambda>p. utf8_text (loose_escapes (map (\<lambda>b. if b = 43 then 32 else b) (takeWhile (\<lambda>b. b \<noteq> 61) p)))) parts)"

lemma split_on_joined:
  "x \<notin> set p \<Longrightarrow> split_on x (p @ x # ys) = p # split_on x ys"
  by (induction p) auto

lemma split_on_none: "x \<notin> set p \<Longrightarrow> split_on x p = [p]"
  by (induction p) auto

end
