(* ===== verification/Principal_Encoding.thy ===== *)
theory Principal_Encoding
  imports Js_Bytes "HOL-Library.List_Lexorder"
begin

text \<open>
  \<open>src/principal/encoding.js\<close>: the canonical text a signed request is hashed over, the parser that
  refuses duplicate member names, and the digest of a request's body. A parsed document has its
  own type, as a member name may be any text. \<open>invalid()\<close> is \<open>None\<close>. A number is an exact safe integer or,
  for any other finite double, the text it prints as; the text of the double nearest to a decimal
  literal (\<open>Number\<close> then \<open>String\<close>; \<open>None\<close> when it overflows) and SHA-256 are the parameters \<open>nr\<close> and \<open>sha\<close>.
\<close>

datatype jdoc =
    DNull
  | DBool bool
  | DInt int
  | DReal units
  | DStr units
  | DArr "jdoc list"
  | DObj "(units \<times> jdoc) list"

definition MAX_JSON_BYTES :: int where
  "MAX_JSON_BYTES = 102400"

definition MAX_NODES :: nat where
  "MAX_NODES = 4096"

definition MAX_LEVELS :: nat where
  "MAX_LEVELS = 33"

section \<open>The canonical text\<close>

text \<open>
  \<open>visit\<close>: the levels and the nodes still allowed are counted down. Every failure is the same
  error and the nodes only add up, so the members are visited as they come and sorted after.
\<close>

definition member_text :: "units \<times> units \<Rightarrow> units" where
  "member_text p = quoted (fst p) @ [58] @ snd p"

definition brackets :: "int \<Rightarrow> units list \<Rightarrow> int \<Rightarrow> units" where
  "brackets a ts z = [a] @ join_units [44] ts @ [z]"

fun visit :: "nat \<Rightarrow> jdoc \<Rightarrow> nat \<Rightarrow> (units \<times> nat) option"
  and visit_items :: "nat \<Rightarrow> jdoc list \<Rightarrow> nat \<Rightarrow> (units list \<times> nat) option"
  and visit_members :: "nat \<Rightarrow> (units \<times> jdoc) list \<Rightarrow> nat \<Rightarrow> ((units \<times> units) list \<times> nat) option" where
  "visit k v b = (if b = 0 \<or> k = 0 then None else case v of
       DNull \<Rightarrow> Some (units_of ''null'', b - 1)
     | DBool c \<Rightarrow> Some (units_of (if c then ''true'' else ''false''), b - 1)
     | DInt n \<Rightarrow> Some (show_int n, b - 1)
     | DReal s \<Rightarrow> Some (s, b - 1)
     | DStr s \<Rightarrow> Some (quoted s, b - 1)
     | DArr xs \<Rightarrow> map_option (\<lambda>(ts, b'). (brackets 91 ts 93, b')) (visit_items (k - 1) xs (b - 1))
     | DObj fs \<Rightarrow> map_option (\<lambda>(ts, b'). (brackets 123 (map member_text (sort_key fst ts)) 125, b')) (visit_members (k - 1) fs (b - 1)))"
| "visit_items k [] b = Some ([], b)"
| "visit_items k (x # xs) b = (case visit k x b of None \<Rightarrow> None
     | Some (t, b') \<Rightarrow> map_option (\<lambda>(ts, b''). (t # ts, b'')) (visit_items k xs b'))"
| "visit_members k [] b = Some ([], b)"
| "visit_members k ((name, x) # fs) b = (case visit k x b of None \<Rightarrow> None
     | Some (t, b') \<Rightarrow> map_option (\<lambda>(ts, b''). ((name, t) # ts, b'')) (visit_members k fs b'))"

declare visit.simps [simp del]

definition canonicalJSON :: "jdoc \<Rightarrow> units option" where
  "canonicalJSON v = (case visit MAX_LEVELS v MAX_NODES of None \<Rightarrow> None
     | Some (t, _) \<Rightarrow> if byte_length t > MAX_JSON_BYTES then None else Some t)"

section \<open>The parser\<close>

type_synonym 'a reader = "units \<Rightarrow> nat \<Rightarrow> ('a \<times> units \<times> nat) option"

definition whitespace :: "units \<Rightarrow> units" where
  "whitespace s = dropWhile (\<lambda>c. c = 9 \<or> c = 13 \<or> c = 10 \<or> c = 32) s"

text \<open>The scan for the closing quote, and \<open>JSON.parse\<close> of the literal between the quotes.\<close>

fun string_end :: "units \<Rightarrow> (units \<times> units) option" where
  "string_end [] = None"
| "string_end (c # s) = (if c = 34 then Some ([], s)
     else if c = 92 then case s of [] \<Rightarrow> None | d # s' \<Rightarrow> map_option (\<lambda>(t, r). (c # d # t, r)) (string_end s')
     else if c < 32 then None else map_option (\<lambda>(t, r). (c # t, r)) (string_end s))"

definition hex4 :: "int \<Rightarrow> int \<Rightarrow> int \<Rightarrow> int \<Rightarrow> int option" where
  "hex4 a b c d = (case (hex_pair a b, hex_pair c d) of (Some h, Some l) \<Rightarrow> Some (h * 256 + l) | _ \<Rightarrow> None)"

definition simple_escape :: "int \<Rightarrow> int option" where
  "simple_escape d = (if d = 34 \<or> d = 92 \<or> d = 47 then Some d else if d = 98 then Some 8 else if d = 102 then Some 12
     else if d = 110 then Some 10 else if d = 114 then Some 13 else if d = 116 then Some 9 else None)"

fun unescape :: "units \<Rightarrow> units option" where
  "unescape [] = Some []"
| "unescape (c # s) = (if c = 34 \<or> c < 32 then None
     else if c \<noteq> 92 then map_option (\<lambda>t. c # t) (unescape s)
     else case s of [] \<Rightarrow> None
       | d # s' \<Rightarrow> (if d = 117 then case s' of e # f # g # h # s'' \<Rightarrow>
              (case hex4 e f g h of None \<Rightarrow> None | Some u \<Rightarrow> map_option (\<lambda>t. u # t) (unescape s''))
            | _ \<Rightarrow> None
          else case simple_escape d of None \<Rightarrow> None | Some u \<Rightarrow> map_option (\<lambda>t. u # t) (unescape s')))"

definition read_string :: "units \<Rightarrow> (units \<times> units) option" where
  "read_string s = (case string_end s of None \<Rightarrow> None
     | Some (t, r) \<Rightarrow> map_option (\<lambda>u. (u, r)) (unescape t))"

text \<open>The match of the number pattern at the start of a text.\<close>

definition fraction_prefix :: "units \<Rightarrow> units" where
  "fraction_prefix s = (case s of [] \<Rightarrow> [] | c # r \<Rightarrow>
     if c = 46 \<and> takeWhile is_digit_unit r \<noteq> [] then c # takeWhile is_digit_unit r else [])"

definition exponent_prefix :: "units \<Rightarrow> units" where
  "exponent_prefix s = (case s of [] \<Rightarrow> [] | c # r \<Rightarrow>
     if c = 69 \<or> c = 101 then
       let sg = (case r of [] \<Rightarrow> [] | d # _ \<Rightarrow> if d = 43 \<or> d = 45 then [d] else []);
           ds = takeWhile is_digit_unit (drop (length sg) r)
       in if ds = [] then [] else c # sg @ ds
     else [])"

definition number_prefix :: "units \<Rightarrow> units option" where
  "number_prefix s =
     (let sg = (case s of [] \<Rightarrow> [] | c # _ \<Rightarrow> if c = 45 then [c] else []);
          r = drop (length sg) s;
          whole = (case r of [] \<Rightarrow> [] | c # _ \<Rightarrow> if c = 48 then [c] else takeWhile is_digit_unit r);
          r1 = drop (length whole) r;
          frac = fraction_prefix r1
      in if whole = [] then None
         else Some (sg @ whole @ frac @ exponent_prefix (drop (length frac) r1)))"

definition exact_number :: "units \<Rightarrow> jdoc option" where
  "exact_number t = (case decimal_literal t of None \<Rightarrow> None | Some n \<Rightarrow> if safe_int n then Some (DInt n) else None)"

definition read_number :: "(units \<Rightarrow> units option) \<Rightarrow> units \<Rightarrow> jdoc option" where
  "read_number nr t = (case exact_number t of Some v \<Rightarrow> Some v
     | None \<Rightarrow> map_option (\<lambda>p. case exact_number p of Some v \<Rightarrow> v | None \<Rightarrow> DReal p) (nr t))"

text \<open>
  The two loops. Their first number is fuel: each turn reads a value and so uses up a node, and
  with no node left the value is refused, so as many turns as there are nodes is enough.
\<close>

fun read_items :: "jdoc reader \<Rightarrow> nat \<Rightarrow> jdoc list reader" where
  "read_items rd 0 s b = None"
| "read_items rd (Suc f) s b = (case rd s b of None \<Rightarrow> None
     | Some (x, s1, b1) \<Rightarrow> (case whitespace s1 of [] \<Rightarrow> None
       | c # s2 \<Rightarrow> if c = 93 then Some ([x], s2, b1)
           else if c = 44 then map_option (\<lambda>(xs, r). (x # xs, r)) (read_items rd f s2 b1) else None))"

definition read_member :: "jdoc reader \<Rightarrow> units set \<Rightarrow> (units \<times> jdoc) reader" where
  "read_member rd seen s b = (case whitespace s of [] \<Rightarrow> None
     | q # s0 \<Rightarrow> if q \<noteq> 34 then None
       else case read_string s0 of None \<Rightarrow> None
       | Some (name, s1) \<Rightarrow> if name \<in> seen then None
         else case whitespace s1 of [] \<Rightarrow> None
         | c # s2 \<Rightarrow> if c \<noteq> 58 then None else map_option (\<lambda>(x, r). ((name, x), r)) (rd s2 b))"

fun read_members :: "jdoc reader \<Rightarrow> nat \<Rightarrow> units set \<Rightarrow> (units \<times> jdoc) list reader" where
  "read_members rd 0 seen s b = None"
| "read_members rd (Suc f) seen s b = (case read_member rd seen s b of None \<Rightarrow> None
     | Some (m, s1, b1) \<Rightarrow> (case whitespace s1 of [] \<Rightarrow> None
       | c # s2 \<Rightarrow> if c = 125 then Some ([m], s2, b1)
           else if c = 44 then map_option (\<lambda>(ms, r). (m # ms, r)) (read_members rd f (insert (fst m) seen) s2 b1) else None))"

definition starts :: "string \<Rightarrow> units \<Rightarrow> bool" where
  "starts w s \<longleftrightarrow> take (length w) s = units_of w"

definition read_word :: "(units \<Rightarrow> units option) \<Rightarrow> units \<Rightarrow> (jdoc \<times> units) option" where
  "read_word nr s =
     (if starts ''true'' s then Some (DBool True, drop 4 s)
      else if starts ''false'' s then Some (DBool False, drop 5 s)
      else if starts ''null'' s then Some (DNull, drop 4 s)
      else case number_prefix s of None \<Rightarrow> None
        | Some t \<Rightarrow> map_option (\<lambda>v. (v, drop (length t) s)) (read_number nr t))"

text \<open>\<open>value(depth)\<close>: the levels and nodes left are counted down.\<close>

fun read_value :: "(units \<Rightarrow> units option) \<Rightarrow> nat \<Rightarrow> jdoc reader" where
  "read_value nr 0 s b = None"
| "read_value nr (Suc k) s b = (if b = 0 then None else
     let s1 = whitespace s; b1 = b - 1 in
     case s1 of [] \<Rightarrow> None
     | c # r \<Rightarrow>
       if c = 34 then map_option (\<lambda>(t, r'). (DStr t, r', b1)) (read_string r)
       else if c = 123 then (case whitespace r of [] \<Rightarrow> None
         | d # r' \<Rightarrow> if d = 125 then Some (DObj [], r', b1)
             else map_option (\<lambda>(ms, r''). (DObj ms, r'')) (read_members (read_value nr k) b1 {} (d # r') b1))
       else if c = 91 then (case whitespace r of [] \<Rightarrow> None
         | d # r' \<Rightarrow> if d = 93 then Some (DArr [], r', b1)
             else map_option (\<lambda>(xs, r''). (DArr xs, r'')) (read_items (read_value nr k) b1 (d # r') b1))
       else map_option (\<lambda>(v, r'). (v, r', b1)) (read_word nr s1))"

definition parseUnambiguousJSON :: "(units \<Rightarrow> units option) \<Rightarrow> bytes \<Rightarrow> jdoc option" where
  "parseUnambiguousJSON nr input =
     (if int (length input) > MAX_JSON_BYTES then None
      else let text = utf8_text input in
        if utf8_bytes text \<noteq> input then None
        else case read_value nr MAX_LEVELS text MAX_NODES of None \<Rightarrow> None
          | Some (v, r, _) \<Rightarrow> if whitespace r = [] then Some v else None)"

section \<open>Digests\<close>

definition bodyDigest :: "(units \<Rightarrow> units) \<Rightarrow> jdoc option \<Rightarrow> units option" where
  "bodyDigest sha body = (case body of None \<Rightarrow> Some (sha []) | Some v \<Rightarrow> map_option sha (canonicalJSON v))"

record http_body =
  hb_raw :: "bytes option"
  hb_body :: "jdoc option"
  hb_transfer_encoding :: bool
  hb_content_length :: int

definition requestBodyDigest :: "(units \<Rightarrow> units option) \<Rightarrow> (units \<Rightarrow> units) \<Rightarrow> http_body \<Rightarrow> units option" where
  "requestBodyDigest nr sha req = (case hb_raw req of
       Some raw \<Rightarrow>
         if raw = [] then bodyDigest sha None
         else (case parseUnambiguousJSON nr raw of None \<Rightarrow> None
           | Some parsed \<Rightarrow> (case (canonicalJSON parsed, Option.bind (hb_body req) canonicalJSON) of
               (Some a, Some b) \<Rightarrow> if a \<noteq> b then None else bodyDigest sha (Some parsed)
             | _ \<Rightarrow> None))
     | None \<Rightarrow>
         if hb_body req \<notin> {None, Some (DObj [])} then None
         else if hb_transfer_encoding req \<or> hb_content_length req > 0 then None
         else bodyDigest sha None)"

end
