(* ===== verification/Principal_Canonical.thy ===== *)
theory Principal_Canonical
  imports Principal_Encoding
begin

text \<open>
  The canonical text and the parser fit together: the parser reads a canonical text back to the
  document with its members sorted, so equal digests mean equal documents; and what the parser
  accepts has no member name twice at any level.
\<close>

section \<open>Sizes, the text and the sorted form of a document\<close>

fun nodes :: "jdoc \<Rightarrow> nat" where
  "nodes (DArr xs) = Suc (sum_list (map nodes xs))"
| "nodes (DObj fs) = Suc (sum_list (map (\<lambda>(_, v). nodes v) fs))"
| "nodes v = 1"

fun fits_levels :: "nat \<Rightarrow> jdoc \<Rightarrow> bool" where
  "fits_levels 0 v = False"
| "fits_levels (Suc k) v = (case v of DArr xs \<Rightarrow> list_all (fits_levels k) xs | DObj fs \<Rightarrow> list_all (\<lambda>(_, v). fits_levels k v) fs | _ \<Rightarrow> True)"

fun doc_text :: "jdoc \<Rightarrow> units" where
  "doc_text DNull = units_of ''null''"
| "doc_text (DBool c) = units_of (if c then ''true'' else ''false'')"
| "doc_text (DInt n) = show_int n"
| "doc_text (DReal s) = s"
| "doc_text (DStr s) = quoted s"
| "doc_text (DArr xs) = brackets 91 (map doc_text xs) 93"
| "doc_text (DObj fs) = brackets 123 (map member_text (sort_key fst (map (\<lambda>(k, v). (k, doc_text v)) fs))) 125"

fun sorted_doc :: "jdoc \<Rightarrow> jdoc" where
  "sorted_doc (DArr xs) = DArr (map sorted_doc xs)"
| "sorted_doc (DObj fs) = DObj (sort_key fst (map (\<lambda>(k, v). (k, sorted_doc v)) fs))"
| "sorted_doc v = v"

text \<open>
  The documents the source can hold: names are distinct, texts are UTF-16, an \<open>DInt\<close> is safe
  and a \<open>DReal\<close> is a printed number that is read back as itself.
\<close>

definition units_ok :: "units \<Rightarrow> bool" where
  "units_ok s \<longleftrightarrow> list_all (\<lambda>c. 0 \<le> c \<and> c < 65536) s"

definition real_ok :: "(units \<Rightarrow> units option) \<Rightarrow> units \<Rightarrow> bool" where
  "real_ok nr s \<longleftrightarrow> number_prefix s = Some s \<and> read_number nr s = Some (DReal s)"

fun doc_ok :: "(units \<Rightarrow> units option) \<Rightarrow> jdoc \<Rightarrow> bool" where
  "doc_ok nr (DInt n) = safe_int n"
| "doc_ok nr (DReal s) = real_ok nr s"
| "doc_ok nr (DStr s) = units_ok s"
| "doc_ok nr (DArr xs) = list_all (doc_ok nr) xs"
| "doc_ok nr (DObj fs) = (distinct (map fst fs) \<and> list_all (\<lambda>(k, v). units_ok k \<and> doc_ok nr v) fs)"
| "doc_ok nr v = True"

lemma visit_characterised:
  "visit k v b = (if fits_levels k v \<and> nodes v \<le> b then Some (doc_text v, b - nodes v) else None)"
  "visit_items k xs b = (if list_all (fits_levels k) xs \<and> sum_list (map nodes xs) \<le> b
     then Some (map doc_text xs, b - sum_list (map nodes xs)) else None)"
  "visit_members k fs b = (if list_all (\<lambda>(_, v). fits_levels k v) fs \<and> sum_list (map (\<lambda>(_, v). nodes v) fs) \<le> b
     then Some (map (\<lambda>(n, v). (n, doc_text v)) fs, b - sum_list (map (\<lambda>(_, v). nodes v) fs)) else None)"
proof (induction k v b and k xs b and k fs b rule: visit_visit_items_visit_members.induct)
  case (1 k v b)
  show ?case
  proof (cases "b = 0 \<or> k = 0")
    case True
    then show ?thesis by (cases v; cases k) (auto simp: visit.simps)
  next
    case False
    then obtain j where k: "k = Suc j" by (cases k) auto
    have sm: "Suc n \<le> b \<longleftrightarrow> n \<le> b - 1" for n using False by auto
    show ?thesis
      by (cases v) (use False 1 k sm in \<open>auto simp: visit.simps\<close>)
  qed
qed (auto split: option.splits if_splits)

lemma canonicalJSON_characterised:
  "canonicalJSON v = (if fits_levels MAX_LEVELS v \<and> nodes v \<le> MAX_NODES \<and> byte_length (doc_text v) \<le> MAX_JSON_BYTES
     then Some (doc_text v) else None)"
  by (auto simp: canonicalJSON_def visit_characterised)

section \<open>Reading a printed text back\<close>

lemma string_end_plain: "c \<noteq> 34 \<Longrightarrow> c \<noteq> 92 \<Longrightarrow> \<not> c < 32 \<Longrightarrow> string_end (c # s) = map_option (\<lambda>(t, r). (c # t, r)) (string_end s)"
  by simp

lemma string_end_escape: "string_end (92 # d # s) = map_option (\<lambda>(t, r). (92 # d # t, r)) (string_end s)"
  by simp

lemma hex_value_digit: "0 \<le> n \<Longrightarrow> n < 16 \<Longrightarrow> hex_value (hex_digit n) = Some n"
  by (auto simp: hex_value_def hex_digit_def)

lemma hex_digit_plain: "0 \<le> n \<Longrightarrow> hex_digit n \<noteq> 34 \<and> hex_digit n \<noteq> 92 \<and> \<not> hex_digit n < 32"
  by (auto simp: hex_digit_def)

lemma hex4_digits:
  assumes "0 \<le> a" "a < 16" "0 \<le> b" "b < 16" "0 \<le> c" "c < 16" "0 \<le> d" "d < 16"
  shows "hex4 (hex_digit a) (hex_digit b) (hex_digit c) (hex_digit d) = Some (4096 * a + 256 * b + 16 * c + d)"
  using assms by (simp add: hex4_def hex_pair_def hex_value_digit)

lemma hex4_escape:
  assumes "0 \<le> c" "c < 65536"
  shows "hex4 (hex_digit (c div 4096)) (hex_digit (c div 256 mod 16)) (hex_digit (c div 16 mod 16)) (hex_digit (c mod 16)) = Some c"
proof -
  have q: "c div 4096 = c div 256 div 16" "c div 256 = c div 16 div 16"
    using zdiv_zmult2_eq [of 16 c 256] zdiv_zmult2_eq [of 16 c 16] by simp_all
  have "4096 * (c div 4096) + 256 * (c div 256 mod 16) + 16 * (c div 16 mod 16) + c mod 16 = c"
    using div_mult_mod_eq [of "c div 256" 16] div_mult_mod_eq [of "c div 16" 16] div_mult_mod_eq [of c 16] q by linarith
  moreover have "0 \<le> c div 4096" "c div 4096 < 16" using assms by linarith+
  moreover have "0 \<le> x mod 16" "x mod 16 < 16" for x :: int by simp_all
  ultimately show ?thesis using hex4_digits by presburger
qed

definition reads_as :: "units \<Rightarrow> units \<Rightarrow> bool" where
  "reads_as q c \<longleftrightarrow> (\<forall>s t r. string_end s = Some (t, r) \<longrightarrow> string_end (q @ s) = Some (q @ t, r))
     \<and> (\<forall>t u. unescape t = Some u \<longrightarrow> unescape (q @ t) = Some (c @ u))"

lemma reads_as_append: "reads_as p c \<Longrightarrow> reads_as q d \<Longrightarrow> reads_as (p @ q) (c @ d)"
  by (simp add: reads_as_def)

lemma reads_as_plain: "c \<noteq> 34 \<Longrightarrow> c \<noteq> 92 \<Longrightarrow> \<not> c < 32 \<Longrightarrow> reads_as [c] [c]"
  by (simp add: reads_as_def)

lemma reads_as_simple: "simple_escape d = Some c \<Longrightarrow> d \<noteq> 117 \<Longrightarrow> reads_as [92, d] [c]"
  by (simp add: reads_as_def)

lemma reads_as_unicode:
  assumes "0 \<le> c" "c < 65536"
  shows "reads_as (unicode_escape c) [c]"
  using hex4_escape [OF assms] hex_digit_plain assms
  by (simp add: reads_as_def unicode_escape_def)

lemma reads_as_unit:
  assumes "0 \<le> c" "c < 65536"
  shows "reads_as (quote_unit c) [c]"
  unfolding quote_unit_def
  using reads_as_unicode [OF assms] reads_as_plain [of c] reads_as_simple [of _ c]
  by (auto simp: simple_escape_def)

lemma reads_as_quoted: "units_ok s \<Longrightarrow> reads_as (quote_units s) s"
proof (induction s rule: quote_units.induct)
  case (1 c d s)
  show ?case
  proof (cases "high_surrogate c \<and> low_surrogate d")
    case True
    then have "reads_as [c] [c]" "reads_as [d] [d]"
      by (auto intro!: reads_as_plain simp: high_surrogate_def low_surrogate_def)
    with 1 True reads_as_append [of "[c]" "[c]"] reads_as_append [of "[d]" "[d]"] show ?thesis
      by (auto simp: units_ok_def)
  next
    case False
    with 1 reads_as_append [OF reads_as_unit [of c]] show ?thesis by (auto simp: units_ok_def)
  qed
qed (auto simp: units_ok_def reads_as_unit, simp add: reads_as_def)

lemma read_quoted: "units_ok s \<Longrightarrow> read_string (quote_units s @ 34 # r) = Some (s, r)"
proof -
  assume "units_ok s"
  from reads_as_quoted [OF this] have "string_end (quote_units s @ 34 # r) = Some (quote_units s, r)"
    "unescape (quote_units s) = Some s"
    by (force simp: reads_as_def dest: spec [where x = "[]"])+
  then show ?thesis by (simp add: read_string_def)
qed

section \<open>Numbers\<close>

text \<open>A text that can follow a value: its end, or a comma or a closing bracket.\<close>

definition stops :: "units \<Rightarrow> bool" where
  "stops r \<longleftrightarrow> (case r of [] \<Rightarrow> True | c # _ \<Rightarrow> c = 44 \<or> c = 93 \<or> c = 125)"

lemma stops_simps [simp]: "stops []" "stops (44 # r)" "stops (93 # r)" "stops (125 # r)"
  by (simp_all add: stops_def)

lemma takeWhile_stops: "stops r \<Longrightarrow> takeWhile is_digit_unit (ds @ r) = takeWhile is_digit_unit ds"
  by (induction ds) (auto simp: stops_def is_digit_unit_def split: list.splits)

lemma fraction_stops: "stops r \<Longrightarrow> fraction_prefix (s @ r) = fraction_prefix s"
  by (cases s) (auto simp: fraction_prefix_def takeWhile_stops stops_def split: list.splits)

lemma exponent_stops: "stops r \<Longrightarrow> exponent_prefix (s @ r) = exponent_prefix s"
proof (cases s)
  case Nil
  then show "stops r \<Longrightarrow> ?thesis" by (auto simp: exponent_prefix_def stops_def split: list.splits)
next
  case (Cons c s')
  assume r: "stops r"
  show ?thesis
  proof (cases s')
    case Nil
    with r Cons show ?thesis by (auto simp: exponent_prefix_def stops_def is_digit_unit_def Let_def split: list.splits)
  next
    case (Cons d s'')
    with r \<open>s = c # s'\<close> takeWhile_stops [OF r, of s''] takeWhile_stops [OF r, of s'] show ?thesis
      by (auto simp: exponent_prefix_def Let_def)
  qed
qed

definition whole_prefix :: "units \<Rightarrow> units" where
  "whole_prefix r = (case r of [] \<Rightarrow> [] | c # _ \<Rightarrow> if c = 48 then [c] else takeWhile is_digit_unit r)"

definition sign_prefix :: "units \<Rightarrow> units" where
  "sign_prefix s = (case s of [] \<Rightarrow> [] | c # _ \<Rightarrow> if c = 45 then [c] else [])"

lemma prefix_lengths:
  "length (whole_prefix r) \<le> length r" "length (sign_prefix s) \<le> length s" "length (fraction_prefix s) \<le> length s"
  by (auto simp: whole_prefix_def sign_prefix_def fraction_prefix_def length_takeWhile_le split: list.splits)

lemma number_prefix_alt: "number_prefix s =
    (let r = drop (length (sign_prefix s)) s; w = whole_prefix r; r1 = drop (length w) r; f = fraction_prefix r1
     in if w = [] then None else Some (sign_prefix s @ w @ f @ exponent_prefix (drop (length f) r1)))"
  by (simp add: number_prefix_def whole_prefix_def sign_prefix_def Let_def cong: list.case_cong if_cong)

lemma number_prefix_stops:
  assumes "stops r"
  shows "number_prefix (s @ r) = number_prefix s"
proof -
  have sg: "sign_prefix (s @ r) = sign_prefix s"
    using assms by (auto simp: sign_prefix_def stops_def split: list.splits)
  have w: "whole_prefix (x @ r) = whole_prefix x" for x
    using assms takeWhile_stops [OF assms, of x]
    by (cases x) (auto simp: whole_prefix_def stops_def is_digit_unit_def split: list.splits)
  have d: "drop (length p) (x @ r) = drop (length p) x @ r" if "length p \<le> length x" for p x :: units
    using that by simp
  show ?thesis
    by (simp only: number_prefix_alt Let_def sg w d [OF prefix_lengths(1)] d [OF prefix_lengths(2)] d [OF prefix_lengths(3)]
        fraction_stops [OF assms] exponent_stops [OF assms])
qed

lemma decimal_leading: "decimal n = [48] \<and> n = 0 \<or> (\<exists>c cs. decimal n = c # cs \<and> c \<noteq> 48)"
proof (induction n rule: decimal.induct)
  case (1 n)
  show ?case
  proof (cases "n < 10")
    case True
    then show ?thesis by (auto simp: decimal_small)
  next
    case False
    then have "n div 10 \<noteq> 0" by auto
    with 1 False show ?thesis unfolding decimal_step [OF False] by auto
  qed
qed

lemma takeWhile_all: "list_all P xs \<Longrightarrow> takeWhile P xs = xs"
  by (induction xs) auto

lemma number_prefix_decimal: "number_prefix (decimal n) = Some (decimal n)"
proof -
  obtain c cs where dc: "decimal n = c # cs" and lead: "c = 48 \<Longrightarrow> cs = []" using decimal_leading [of n] by auto
  have "is_digit_unit c" "takeWhile is_digit_unit (c # cs) = c # cs"
    using decimal_digits [of n] takeWhile_all dc by auto
  then have "c \<noteq> 45" "whole_prefix (c # cs) = c # cs" using lead by (auto simp: whole_prefix_def is_digit_unit_def)
  then show ?thesis unfolding dc by (simp add: number_prefix_alt sign_prefix_def fraction_prefix_def exponent_prefix_def Let_def)
qed

lemma number_prefix_minus: "number_prefix (decimal n) = Some (decimal n) \<Longrightarrow> number_prefix (45 # decimal n) = Some (45 # decimal n)"
proof -
  obtain c cs where dc: "decimal n = c # cs" using decimal_leading [of n] by auto
  have "is_digit_unit c" using decimal_digits [of n] dc by auto
  then have "sign_prefix (decimal n) = []" by (auto simp: dc sign_prefix_def is_digit_unit_def)
  then show "number_prefix (decimal n) = Some (decimal n) \<Longrightarrow> ?thesis"
    by (auto simp: number_prefix_alt sign_prefix_def Let_def split: if_splits)
qed

lemma number_prefix_int: "number_prefix (show_int n) = Some (show_int n)"
  by (simp add: show_int_def number_prefix_decimal number_prefix_minus)

lemma decimal_literal_int: "decimal_literal (show_int n) = Some n"
proof -
  have lit: "decimal_literal (decimal m) = Some (int m)" "decimal_literal (45 # decimal m) = Some (- int m)" for m
  proof -
    obtain c cs where dc: "decimal m = c # cs" using decimal_leading [of m] by auto
    have dg: "is_digit_unit c" and all: "list_all is_digit_unit (c # cs)" using decimal_digits [of m] dc by auto
    have tw: "takeWhile is_digit_unit (c # cs) = c # cs" "dropWhile is_digit_unit (c # cs) = []"
      using takeWhile_all [OF all] all by (auto simp: list_all_iff dropWhile_eq_Nil_conv)
    have "split_sign (c # cs) = (1, c # cs)" "split_sign (45 # c # cs) = (-1, c # cs)"
      using dg by (auto simp: split_sign_def is_digit_unit_def)
    then show "decimal_literal (decimal m) = Some (int m)" "decimal_literal (45 # decimal m) = Some (- int m)"
      unfolding dc decimal_literal_def Let_def using decimal_value [of m, unfolded dc] tw
      by (simp_all add: exponent_part_def scaled_def)
  qed
  show ?thesis by (cases "n < 0") (simp_all add: show_int_def lit)
qed

lemma read_number_int: "safe_int n \<Longrightarrow> read_number nr (show_int n) = Some (DInt n)"
  by (simp add: read_number_def exact_number_def decimal_literal_int)

section \<open>Reading a canonical text\<close>

definition blank :: "int \<Rightarrow> bool" where
  "blank c \<longleftrightarrow> c = 9 \<or> c = 13 \<or> c = 10 \<or> c = 32"

lemma whitespace_simps: "\<not> blank c \<Longrightarrow> whitespace (c # s) = c # s" "whitespace [] = []"
  by (simp_all add: whitespace_def blank_def)

lemma not_blank [simp]: "\<not> blank 34" "\<not> blank 44" "\<not> blank 58" "\<not> blank 91" "\<not> blank 93" "\<not> blank 123" "\<not> blank 125"
  by (simp_all add: blank_def)

lemma number_first: "number_prefix s = Some t \<Longrightarrow> \<exists>c s'. s = c # s' \<and> (c = 45 \<or> is_digit_unit c)"
proof -
  assume n: "number_prefix s = Some t"
  obtain c s' where s: "s = c # s'" using n by (cases s) (auto simp: number_prefix_def)
  have "c = 45 \<or> is_digit_unit c"
  proof (rule ccontr)
    assume no: "\<not> ?thesis"
    then have "c \<noteq> 48" by (auto simp: is_digit_unit_def)
    with no n show False by (simp add: s number_prefix_def Let_def)
  qed
  with s show ?thesis by blast
qed

lemma read_word_number:
  assumes "number_prefix t = Some t" "read_number nr t = Some v" "stops r"
  shows "read_word nr (t @ r) = Some (v, r)"
proof -
  obtain c s' where "t = c # s'" "c = 45 \<or> is_digit_unit c" using number_first [OF assms(1)] by auto
  then have "\<not> starts ''true'' (t @ r)" "\<not> starts ''false'' (t @ r)" "\<not> starts ''null'' (t @ r)"
    by (auto simp: starts_def units_of_def unit_of_def is_digit_unit_def)
  then show ?thesis using assms number_prefix_stops [OF assms(3), of t] by (simp add: read_word_def)
qed

lemma word_units: "units_of ''true'' = [116, 114, 117, 101]" "units_of ''false'' = [102, 97, 108, 115, 101]"
    "units_of ''null'' = [110, 117, 108, 108]"
  by (simp_all add: units_of_def unit_of_def)

lemma read_word_literal:
  "read_word nr (units_of ''true'' @ r) = Some (DBool True, r)" "read_word nr (units_of ''false'' @ r) = Some (DBool False, r)"
  "read_word nr (units_of ''null'' @ r) = Some (DNull, r)"
  by (simp_all add: read_word_def starts_def word_units)

lemma doc_first:
  assumes "doc_ok nr v"
  shows "\<exists>c s. doc_text v = c # s \<and> \<not> blank c \<and> c \<noteq> 93 \<and> c \<noteq> 125"
proof -
  have number: "\<exists>c s. t = c # s \<and> \<not> blank c \<and> c \<noteq> 93 \<and> c \<noteq> 125" if "number_prefix t = Some t" for t
    using number_first [OF that] by (auto simp: blank_def is_digit_unit_def)
  show ?thesis
  proof (cases v)
    case (DInt n)
    then show ?thesis using number [OF number_prefix_int] by simp
  next
    case (DReal s)
    then show ?thesis using number assms by (simp add: real_ok_def)
  qed (auto simp: word_units quoted_def brackets_def blank_def)
qed

lemma join_Cons: "join_units sep (x # xs) = (if xs = [] then x else x @ sep @ join_units sep xs)"
  by (cases xs) auto

declare read_value.simps(2) [simp del]

definition reads :: "jdoc reader \<Rightarrow> jdoc \<Rightarrow> bool" where
  "reads rd v \<longleftrightarrow> (\<forall>r b. stops r \<longrightarrow> nodes v \<le> b \<longrightarrow> rd (doc_text v @ r) b = Some (sorted_doc v, r, b - nodes v))"

lemma readsD: "reads rd v \<Longrightarrow> stops r \<Longrightarrow> nodes v \<le> b \<Longrightarrow> rd (doc_text v @ r) b = Some (sorted_doc v, r, b - nodes v)"
  by (simp add: reads_def)

lemma read_items_text:
  assumes "list_all (reads rd) xs" "xs \<noteq> []" "sum_list (map nodes xs) \<le> b" "length xs \<le> f"
  shows "read_items rd f (join_units [44] (map doc_text xs) @ 93 # r) b = Some (map sorted_doc xs, r, b - sum_list (map nodes xs))"
  using assms
proof (induction xs arbitrary: b f)
  case (Cons x xs)
  then obtain f' where f: "f = Suc f'" by (cases f) auto
  from Cons.prems have x: "reads rd x" "nodes x \<le> b" by auto
  show ?case
  proof (cases "xs = []")
    case True
    then show ?thesis using readsD [OF x(1) _ x(2), of "93 # r"] by (simp add: f whitespace_simps)
  next
    case False
    with Cons.prems f have "read_items rd f' (join_units [44] (map doc_text xs) @ 93 # r) (b - nodes x)
        = Some (map sorted_doc xs, r, b - nodes x - sum_list (map nodes xs))"
      by (intro Cons.IH) auto
    then show ?thesis using False readsD [OF x(1) _ x(2), of "44 # join_units [44] (map doc_text xs) @ 93 # r"]
      by (simp add: f whitespace_simps join_Cons)
  qed
qed simp

lemma read_member_text:
  assumes "reads rd v" "units_ok n" "n \<notin> seen" "stops r" "nodes v \<le> b"
  shows "read_member rd seen (member_text (n, doc_text v) @ r) b = Some ((n, sorted_doc v), r, b - nodes v)"
  using assms by (simp add: read_member_def member_text_def quoted_def whitespace_simps read_quoted readsD)

lemma read_members_text:
  assumes "list_all (\<lambda>(n, v). reads rd v \<and> units_ok n) ps" "ps \<noteq> []" "sum_list (map (\<lambda>(_, v). nodes v) ps) \<le> b" "length ps \<le> f"
    and "distinct (map fst ps)" "fst ` set ps \<inter> seen = {}"
  shows "read_members rd f seen (join_units [44] (map member_text (map (\<lambda>(n, v). (n, doc_text v)) ps)) @ 125 # r) b
     = Some (map (\<lambda>(n, v). (n, sorted_doc v)) ps, r, b - sum_list (map (\<lambda>(_, v). nodes v) ps))"
  using assms
proof (induction ps arbitrary: b f seen)
  case (Cons p ps)
  obtain n v where p: "p = (n, v)" by (cases p)
  from Cons.prems obtain f' where f: "f = Suc f'" by (cases f) auto
  from Cons.prems p have x: "reads rd v" "units_ok n" "n \<notin> seen" "nodes v \<le> b" by auto
  show ?case
  proof (cases "ps = []")
    case True
    then show ?thesis using read_member_text [OF x(1-3) _ x(4), of "125 # r"] by (simp add: f p whitespace_simps)
  next
    case False
    let ?rest = "join_units [44] (map member_text (map (\<lambda>(n, v). (n, doc_text v)) ps)) @ 125 # r"
    from False Cons.prems f p have "read_members rd f' (insert n seen) ?rest (b - nodes v)
        = Some (map (\<lambda>(n, v). (n, sorted_doc v)) ps, r, b - nodes v - sum_list (map (\<lambda>(_, v). nodes v) ps))"
      by (intro Cons.IH) auto
    then show ?thesis using False read_member_text [OF x(1-3) _ x(4), of "44 # ?rest"]
      by (simp add: f p whitespace_simps join_Cons)
  qed
qed simp

lemma insort_map: "insort_key fst (k, f v) (map (\<lambda>(k, v). (k, f v)) ps) = map (\<lambda>(k, v). (k, f v)) (insort_key fst (k, v) ps)"
  by (induction ps) auto

lemma sort_map: "sort_key fst (map (\<lambda>(k, v). (k, f v)) ps) = map (\<lambda>(k, v). (k, f v)) (sort_key fst ps)"
  by (induction ps) (auto simp: insort_map)

lemma sorted_sum: "sum_list (map f (sort_key g ps)) = (sum_list (map f ps) :: nat)"
  by (metis mset_map mset_sort sum_mset_sum_list)

lemma distinct_sorted: "distinct (map fst (sort_key g ps)) = distinct (map fst ps)"
proof -
  have "mset (map fst (sort_key g ps)) = mset (map fst ps)" by simp
  then show ?thesis by (rule mset_eq_imp_distinct_iff)
qed

lemma nodes_pos: "0 < nodes v"
  by (cases v) auto

lemma length_le_sum: "(\<And>x. 0 < f x) \<Longrightarrow> length xs \<le> sum_list (map f xs)" for f :: "'a \<Rightarrow> nat"
proof (induction xs)
  case (Cons x xs)
  from Cons.prems [of x] Cons.IH [OF Cons.prems] show ?case by simp
qed simp

lemma length_le_nodes: "length xs \<le> sum_list (map nodes xs)" "length ps \<le> sum_list (map (\<lambda>(_, v). nodes v) ps)"
  by (auto intro!: length_le_sum nodes_pos split: prod.splits)

theorem read_canonical:
  assumes "fits_levels k v" "doc_ok nr v"
  shows "reads (read_value nr k) v"
  using assms
proof (induction k arbitrary: v)
  case (Suc k)
  show ?case unfolding reads_def
  proof (intro allI impI)
    fix r b
    assume r: "stops r" and b: "nodes v \<le> b"
    have b0: "b \<noteq> 0" using nodes_pos [of v] b by auto
    have word: "read_value nr (Suc k) (t @ r) b = Some (u, r, b - 1)"
      if "read_word nr (t @ r) = Some (u, r)" "t = c # t'" "\<not> blank c" "c \<notin> {34, 91, 123}" for t u c t'
      using that b0 by (simp add: whitespace_simps read_value.simps(2) Let_def)
    have number: "read_value nr (Suc k) (t @ r) b = Some (u, r, b - 1)"
      if t: "number_prefix t = Some t" "read_number nr t = Some u" for t u
    proof -
      obtain c t' where "t = c # t'" "c = 45 \<or> is_digit_unit c" using number_first [OF t(1)] by auto
      then show ?thesis using word [OF read_word_number [OF t r]] by (auto simp: is_digit_unit_def blank_def)
    qed
    show "read_value nr (Suc k) (doc_text v @ r) b = Some (sorted_doc v, r, b - nodes v)"
    proof (cases v)
      case DNull
      then show ?thesis using word [OF read_word_literal(3)] by (simp add: word_units blank_def)
    next
      case (DBool c)
      then show ?thesis using word [OF read_word_literal(1)] word [OF read_word_literal(2)] by (simp add: word_units blank_def)
    next
      case (DInt n)
      then show ?thesis using number [OF number_prefix_int read_number_int] Suc.prems by simp
    next
      case (DReal s)
      then show ?thesis using number Suc.prems by (simp add: real_ok_def)
    next
      case (DStr s)
      then show ?thesis using b0 Suc.prems by (simp add: quoted_def whitespace_simps read_quoted read_value.simps(2) Let_def)
    next
      case (DArr xs)
      show ?thesis
      proof (cases "xs = []")
        case True
        then show ?thesis using DArr b0 by (simp add: brackets_def whitespace_simps read_value.simps(2) Let_def)
      next
        case False
        let ?t = "join_units [44] (map doc_text xs)"
        have rd: "list_all (reads (read_value nr k)) xs" using Suc DArr by (auto simp: list_all_iff)
        have fit: "sum_list (map nodes xs) \<le> b - 1" "length xs \<le> b - 1"
          using b DArr length_le_nodes(1) [of xs] by auto
        obtain x ys where xs: "xs = x # ys" using False by (cases xs) auto
        have "doc_ok nr x" using Suc.prems DArr xs by simp
        then obtain c s where d: "doc_text x = c # s" "\<not> blank c" "c \<noteq> 93" using doc_first [of nr x] by auto
        then have "?t = c # (if ys = [] then s else s @ [44] @ join_units [44] (map doc_text ys))"
          by (simp add: xs join_Cons)
        with d show ?thesis using DArr b0 read_items_text [OF rd False fit, of r]
          by (simp add: brackets_def whitespace_simps read_value.simps(2) Let_def)
      qed
    next
      case (DObj fs)
      show ?thesis
      proof (cases "fs = []")
        case True
        then show ?thesis using DObj b0 by (simp add: brackets_def whitespace_simps read_value.simps(2) Let_def)
      next
        case False
        define gs where "gs = sort_key fst fs"
        have gs: "gs \<noteq> []" "set gs = set fs" using False set_sort [of fst fs] by (auto simp: gs_def simp del: set_sort)
        have rd: "list_all (\<lambda>(n, v). reads (read_value nr k) v \<and> units_ok n) gs"
          using Suc DObj gs by (fastforce simp: list_all_iff)
        have sum: "sum_list (map (\<lambda>(_, v). nodes v) gs) = sum_list (map (\<lambda>(_, v). nodes v) fs)"
          unfolding gs_def by (rule sorted_sum)
        then have fit: "sum_list (map (\<lambda>(_, v). nodes v) gs) \<le> b - 1" "length gs \<le> b - 1"
          using b DObj length_le_nodes(2) [of gs] by auto
        have dist: "distinct (map fst gs)" "fst ` set gs \<inter> {} = {}"
          using Suc.prems DObj by (simp_all add: gs_def distinct_sorted)
        have printed: "doc_text v = brackets 123 (map member_text (map (\<lambda>(n, v). (n, doc_text v)) gs)) 125"
          and doc: "sorted_doc v = DObj (map (\<lambda>(n, v). (n, sorted_doc v)) gs)"
          by (simp_all add: DObj gs_def sort_map)
        obtain g hs where "gs = g # hs" using gs(1) by (cases gs) auto
        then obtain s where c: "join_units [44] (map member_text (map (\<lambda>(n, v). (n, doc_text v)) gs)) = 34 # s"
          by (cases "hs = []"; cases g) (auto simp: join_Cons member_text_def quoted_def)
        show ?thesis unfolding printed doc using b0 sum DObj read_members_text [OF rd gs(1) fit dist, of r] c
          by (simp add: brackets_def whitespace_simps read_value.simps(2) Let_def del: map_map)
      qed
    qed
  qed
qed simp

section \<open>The text as bytes\<close>

lemma whole_append: "whole_text s \<Longrightarrow> whole_text (s @ t) \<longleftrightarrow> whole_text t"
proof (induction s rule: utf8_bytes.induct)
  case (1 c d s)
  show ?case
  proof (cases "high_surrogate c \<and> low_surrogate d")
    case False
    with 1 have "whole_text (d # s)" "whole_text ((d # s) @ t) = whole_text t" by (auto split: if_splits)
    with 1 False show ?thesis by auto
  qed (use 1 in auto)
next
  case (2 c)
  then show ?case by (cases t) auto
qed simp

definition ascii :: "units \<Rightarrow> bool" where
  "ascii s \<longleftrightarrow> list_all (\<lambda>c. 0 \<le> c \<and> c < 128) s"

lemma ascii_unit: "0 \<le> c \<Longrightarrow> c < 128 \<Longrightarrow> \<not> high_surrogate c \<and> \<not> low_surrogate c \<and> c < 65536"
  by (auto simp: high_surrogate_def low_surrogate_def)

lemma small_unit [simp]: "c < 128 \<Longrightarrow> \<not> high_surrogate c" "c < 128 \<Longrightarrow> \<not> low_surrogate c"
  by (simp_all add: high_surrogate_def low_surrogate_def)

lemma whole_ascii: "ascii s \<Longrightarrow> whole_text s"
  by (induction s rule: whole_text.induct) (auto simp: ascii_def ascii_unit)

lemma whole_Cons: "0 \<le> c \<Longrightarrow> c < 128 \<Longrightarrow> whole_text (c # t) \<longleftrightarrow> whole_text t"
  by (cases t) (auto simp: ascii_unit)

lemma ascii_hex: "0 \<le> n \<Longrightarrow> n < 16 \<Longrightarrow> 0 \<le> hex_digit n \<and> hex_digit n < 128"
  by (simp add: hex_digit_def)

lemma whole_unit: "0 \<le> c \<Longrightarrow> c < 65536 \<Longrightarrow> whole_text (quote_unit c)"
proof -
  assume c: "0 \<le> c" "c < 65536"
  have "0 \<le> c div 4096" "c div 4096 < 16" using c by linarith+
  then have u: "whole_text (unicode_escape c)"
    by (intro whole_ascii) (simp add: ascii_def unicode_escape_def ascii_hex)
  show ?thesis
  proof (cases "c < 32 \<or> high_surrogate c \<or> low_surrogate c")
    case True
    then show ?thesis using u by (auto simp: quote_unit_def whole_Cons high_surrogate_def low_surrogate_def)
  next
    case False
    then show ?thesis using c by (auto simp: quote_unit_def whole_Cons)
  qed
qed

lemma whole_quoted: "units_ok s \<Longrightarrow> whole_text (quoted s)"
proof -
  have "whole_text (quote_units s)" if "units_ok s"
    using that
  proof (induction s rule: quote_units.induct)
    case (1 c d s)
    show ?case
    proof (cases "high_surrogate c \<and> low_surrogate d")
      case True
      then show ?thesis using 1 by (simp add: units_ok_def)
    next
      case False
      then have "whole_text (quote_units (d # s))" using 1 by (simp add: units_ok_def)
      then show ?thesis using 1 False whole_unit [of c] by (auto simp: units_ok_def whole_append)
    qed
  qed (simp_all add: units_ok_def whole_unit)
  then show "units_ok s \<Longrightarrow> ?thesis"
    by (simp add: quoted_def whole_append whole_Cons ascii_unit)
qed

lemma whole_join: "list_all whole_text ts \<Longrightarrow> whole_text (join_units [44] ts)"
  by (induction ts) (auto simp: join_Cons whole_append whole_Cons)

lemma whole_brackets: "list_all whole_text ts \<Longrightarrow> ascii [a, z] \<Longrightarrow> whole_text (brackets a ts z)"
  using whole_join [of ts] by (simp add: brackets_def whole_append whole_Cons ascii_def)

lemma ascii_digits: "list_all is_digit_unit s \<Longrightarrow> ascii s"
  by (induction s) (auto simp: ascii_def is_digit_unit_def)

lemma ascii_append: "ascii (s @ t) \<longleftrightarrow> ascii s \<and> ascii t"
  by (simp add: ascii_def)

lemma list_all_takeWhile: "list_all P (takeWhile P s)"
  by (induction s) auto

lemma ascii_number: "number_prefix s = Some t \<Longrightarrow> ascii t"
proof -
  have d: "ascii (takeWhile is_digit_unit x)" for x by (intro ascii_digits list_all_takeWhile)
  have e: "ascii (exponent_prefix x)" for x
    using d by (auto simp: exponent_prefix_def ascii_append Let_def ascii_def split: list.splits if_splits)
  have f: "ascii (fraction_prefix x)" for x
    using d by (auto simp: fraction_prefix_def ascii_def split: list.splits if_splits)
  have w: "ascii (whole_prefix x)" "ascii (sign_prefix x)" for x
    using d [of x] by (auto simp: whole_prefix_def sign_prefix_def ascii_def split: list.splits if_splits)
  show "number_prefix s = Some t \<Longrightarrow> ascii t"
    by (auto simp: number_prefix_alt Let_def ascii_append d e f w split: if_splits)
qed

lemma ascii_int: "ascii (show_int n)"
  using ascii_number [OF number_prefix_int] .

lemma whole_doc: "doc_ok nr v \<Longrightarrow> whole_text (doc_text v)"
proof (induction v rule: doc_text.induct)
  case (7 fs)
  have "whole_text (member_text (k, doc_text v))" if "(k, v) \<in> set fs" for k v
  proof -
    have "whole_text (doc_text v)" "units_ok k" using 7 that by (fastforce simp: list_all_iff)+
    then show ?thesis by (simp add: member_text_def whole_append whole_quoted whole_Cons)
  qed
  then have "list_all whole_text (map member_text (map (\<lambda>(k, v). (k, doc_text v)) (sort_key fst fs)))"
    by (auto simp: list_all_iff)
  then show ?case unfolding doc_text.simps sort_map by (intro whole_brackets) (simp_all add: ascii_def)
next
  case (6 xs)
  then have "list_all whole_text (map doc_text xs)" by (auto simp: list_all_iff)
  then show ?case unfolding doc_text.simps by (intro whole_brackets) (simp_all add: ascii_def)
next
  case (4 s)
  then show ?case using ascii_number [of s s] by (simp add: real_ok_def whole_ascii)
qed (simp_all add: whole_ascii ascii_int whole_quoted, simp_all add: word_units whole_Cons)

lemma length_utf8: "whole_text s \<Longrightarrow> int (length (utf8_bytes s)) = byte_length s"
proof (induction s rule: utf8_bytes.induct)
  case (1 c d s)
  show ?case
  proof (cases "high_surrogate c \<and> low_surrogate d")
    case True
    then show ?thesis using 1 pair_units [of c d] by (simp add: code_bytes_def)
  next
    case False
    with 1 have "int (length (utf8_bytes (d # s))) = byte_length (d # s)" and "\<not> high_surrogate c" "\<not> low_surrogate c" "c < 65536"
      by (auto split: if_splits)
    then show ?thesis using False by (auto simp: lone_bytes_def code_bytes_def unit_bytes_def)
  qed
qed (auto simp: lone_bytes_def code_bytes_def unit_bytes_def)

section \<open>The sorted form has the same text\<close>

lemma sort_sorted: "sorted (map fst ps) \<Longrightarrow> sort_key fst ps = ps"
proof (induction ps)
  case (Cons p ps)
  then show ?case by (cases ps) (auto simp: insort_is_Cons)
qed simp

lemma sort_twice: "sort_key fst (map (\<lambda>(k, v). (k, f v)) (sort_key fst ps)) = map (\<lambda>(k, v). (k, f v)) (sort_key fst ps)"
  by (rule sort_sorted) (simp add: sort_map [symmetric])

lemma same_text: "doc_text (sorted_doc v) = doc_text v \<and> nodes (sorted_doc v) = nodes v"
proof (induction v rule: sorted_doc.induct)
  case (1 xs)
  then have "map (doc_text \<circ> sorted_doc) xs = map doc_text xs" "map (nodes \<circ> sorted_doc) xs = map nodes xs" by auto
  then show ?case by (simp only: sorted_doc.simps doc_text.simps nodes.simps map_map)
next
  case (2 fs)
  let ?gs = "sort_key fst fs"
  have "map (\<lambda>(k, v). (k, doc_text (sorted_doc v))) ?gs = map (\<lambda>(k, v). (k, doc_text v)) ?gs"
    and n: "map (\<lambda>(k, v). nodes (sorted_doc v)) ?gs = map (\<lambda>(k, v). nodes v) ?gs"
    using 2 by fastforce+
  moreover have "map (\<lambda>(k, v). (k, doc_text v)) (map (\<lambda>(k, v). (k, sorted_doc v)) ?gs) = map (\<lambda>(k, v). (k, doc_text (sorted_doc v))) ?gs"
    by auto
  ultimately have "doc_text (sorted_doc (DObj fs)) = doc_text (DObj fs)"
    by (simp only: sorted_doc.simps doc_text.simps sort_map sort_twice sort_twice [of id, simplified])
  moreover have "nodes (sorted_doc (DObj fs)) = Suc (sum_list (map (\<lambda>(k, v). nodes (sorted_doc v)) ?gs))"
    by (simp only: sorted_doc.simps sort_map nodes.simps map_map) (simp add: comp_def case_prod_unfold)
  then have "nodes (sorted_doc (DObj fs)) = nodes (DObj fs)"
    unfolding n by (simp add: sorted_sum)
  ultimately show ?case by simp
qed simp_all

lemma same_levels: "fits_levels k (sorted_doc v) = fits_levels k v"
proof (induction k arbitrary: v)
  case (Suc k)
  then show ?case by (cases v) (auto simp: sort_map list_all_iff)
qed simp

section \<open>What the parser accepts\<close>

fun unambiguous :: "jdoc \<Rightarrow> bool" where
  "unambiguous (DArr xs) = list_all unambiguous xs"
| "unambiguous (DObj fs) = (distinct (map fst fs) \<and> list_all (\<lambda>(_, v). unambiguous v) fs)"
| "unambiguous v = True"

definition yields :: "(jdoc \<Rightarrow> bool) \<Rightarrow> jdoc reader \<Rightarrow> bool" where
  "yields Q rd \<longleftrightarrow> (\<forall>s b x r b'. rd s b = Some (x, r, b') \<longrightarrow> Q x \<and> nodes x + b' = b)"

lemma yieldsD: "yields Q rd \<Longrightarrow> rd s b = Some (x, r, b') \<Longrightarrow> Q x \<and> nodes x + b' = b"
  unfolding yields_def by blast

lemma items_yield: "yields Q rd \<Longrightarrow> read_items rd f s b = Some (xs, r, b') \<Longrightarrow> list_all Q xs \<and> sum_list (map nodes xs) + b' = b"
proof (induction f arbitrary: s b xs)
  case (Suc f)
  then obtain x s1 b1 c s2 where x: "rd s b = Some (x, s1, b1)" and c: "whitespace s1 = c # s2"
    by (auto split: option.splits list.splits)
  note q = yieldsD [OF Suc.prems(1) x]
  show ?case
  proof (cases "c = 93")
    case True
    with Suc.prems q show ?thesis by (auto simp: x c)
  next
    case False
    with Suc.prems obtain ys where ys: "read_items rd f s2 b1 = Some (ys, r, b')" "xs = x # ys"
      by (auto simp: x c split: if_splits)
    with Suc.IH [OF Suc.prems(1) ys(1)] q show ?thesis by auto
  qed
qed simp

lemma member_yields: "yields Q rd \<Longrightarrow> read_member rd seen s b = Some ((n, x), r, b') \<Longrightarrow> n \<notin> seen \<and> Q x \<and> nodes x + b' = b"
  by (auto simp: read_member_def yields_def split: list.splits option.splits if_splits)

lemma members_yield: "yields Q rd \<Longrightarrow> read_members rd f seen s b = Some (ms, r, b') \<Longrightarrow>
    list_all (\<lambda>(_, v). Q v) ms \<and> sum_list (map (\<lambda>(_, v). nodes v) ms) + b' = b \<and> distinct (map fst ms) \<and> fst ` set ms \<inter> seen = {}"
proof (induction f arbitrary: seen s b ms)
  case (Suc f)
  then obtain n x s1 b1 c s2 where x: "read_member rd seen s b = Some ((n, x), s1, b1)" and c: "whitespace s1 = c # s2"
    by (auto split: option.splits list.splits)
  note q = member_yields [OF Suc.prems(1) x]
  show ?case
  proof (cases "c = 125")
    case True
    with Suc.prems q show ?thesis by (auto simp: x c)
  next
    case False
    with Suc.prems obtain ns where ns: "read_members rd f (insert n seen) s2 b1 = Some (ns, r, b')" "ms = (n, x) # ns"
      by (auto simp: x c split: if_splits)
    with Suc.IH [OF Suc.prems(1) ns(1)] q show ?thesis by auto
  qed
qed simp

lemma word_scalar: "read_word nr s = Some (v, r) \<Longrightarrow> fits_levels (Suc k) v \<and> nodes v = 1 \<and> unambiguous v"
  by (auto simp: read_word_def read_number_def exact_number_def split: if_splits option.splits)

lemma value_yields: "yields (\<lambda>v. fits_levels k v \<and> unambiguous v) (read_value nr k)"
proof (induction k)
  case (Suc k)
  show ?case unfolding yields_def
  proof (intro allI impI)
    fix s b x r b'
    assume rd: "read_value nr (Suc k) s b = Some (x, r, b')"
    then have b: "b \<noteq> 0" by (cases b) (auto simp: read_value.simps(2))
    from rd obtain c t where ws: "whitespace s = c # t"
      by (auto simp: read_value.simps(2) Let_def split: if_splits list.splits)
    consider "c = 34" | "c = 123" | "c = 91" | "c \<notin> {34, 123, 91}" by blast
    then show "(fits_levels (Suc k) x \<and> unambiguous x) \<and> nodes x + b' = b"
    proof cases
      case 1
      then show ?thesis using rd b by (auto simp: read_value.simps(2) ws)
    next
      case 2
      then show ?thesis using rd b
        by (auto simp: read_value.simps(2) ws list_all_iff Let_def split: list.splits if_splits dest!: members_yield [OF Suc])
    next
      case 3
      then show ?thesis using rd b
        by (auto simp: read_value.simps(2) ws list_all_iff Let_def split: list.splits if_splits dest!: items_yield [OF Suc])
    next
      case 4
      then show ?thesis using rd b
        by (auto simp: read_value.simps(2) ws dest!: word_scalar [where k = k])
    qed
  qed
qed (simp add: yields_def)

lemma parse_canonical:
  assumes "canonicalJSON v = Some t" and "doc_ok nr v"
  shows "parseUnambiguousJSON nr (utf8_bytes t) = Some (sorted_doc v)"
proof -
  from assms(1) have t: "t = doc_text v" "fits_levels MAX_LEVELS v" "nodes v \<le> MAX_NODES" "byte_length t \<le> MAX_JSON_BYTES"
    by (auto simp: canonicalJSON_characterised split: if_splits)
  have w: "whole_text t" using whole_doc assms(2) t(1) by simp
  have "read_value nr MAX_LEVELS t MAX_NODES = Some (sorted_doc v, [], MAX_NODES - nodes v)"
    using readsD [OF read_canonical [OF t(2) assms(2)], of "[]"] t by simp
  then show ?thesis
    using t(4) length_utf8 [OF w] by (simp add: parseUnambiguousJSON_def utf8_roundtrip [OF w] whitespace_simps)
qed

lemma canonical_sorted: "canonicalJSON (sorted_doc v) = canonicalJSON v"
  by (simp add: canonicalJSON_characterised same_text same_levels)

section \<open>Properties\<close>

text \<open>
  C13. The canonical text of a document, as bytes, is read back by the parser that refuses
  ambiguous input: the document comes back with its members sorted by name, and that sorted
  document has the same canonical text. The hypothesis on a document is what the source's values
  satisfy anyway: names are distinct in each object, texts are UTF-16, and a number is a safe
  integer or a printed double.
\<close>

theorem canonical_text_roundtrip:
  assumes "canonicalJSON v = Some t" and "doc_ok nr v"
  shows "parseUnambiguousJSON nr (utf8_bytes t) = Some (sorted_doc v) \<and> canonicalJSON (sorted_doc v) = Some t"
  using parse_canonical [OF assms] assms(1) by (simp add: canonical_sorted)

theorem canonical_text_roundtrip_witness:
  "parseUnambiguousJSON (\<lambda>_. None) (utf8_bytes (units_of ''{\"a\":[true,-12],\"b\":null}''))
     = Some (DObj [(units_of ''a'', DArr [DBool True, DInt (- 12)]), (units_of ''b'', DNull)])"
proof -
  let ?v = "DObj [(units_of ''b'', DNull), (units_of ''a'', DArr [DBool True, DInt (- 12)])]"
  have "canonicalJSON ?v = Some (units_of ''{\"a\":[true,-12],\"b\":null}'')" "doc_ok (\<lambda>_. None) ?v" by code_simp+
  from canonical_text_roundtrip [OF this] show ?thesis by (simp add: units_of_def unit_of_def)
qed

text \<open>
  Two documents with the same digest are the same document up to the order of members, or
  their canonical texts are a collision of the hash.
\<close>

theorem digest_binds_document:
  assumes "bodyDigest sha (Some v) = Some h" and "bodyDigest sha (Some w) = Some h" and "doc_ok nr v" and "doc_ok nr w"
  shows "sorted_doc v = sorted_doc w \<or> (doc_text v \<noteq> doc_text w \<and> sha (doc_text v) = sha (doc_text w))"
proof -
  have t: "canonicalJSON v = Some (doc_text v)" "canonicalJSON w = Some (doc_text w)" "sha (doc_text v) = h" "sha (doc_text w) = h"
    using assms(1,2) by (auto simp: bodyDigest_def canonicalJSON_characterised split: if_splits)
  show ?thesis using parse_canonical [OF t(1) assms(3)] parse_canonical [OF t(2) assms(4)] t(3,4) by fastforce
qed

theorem digest_binds_document_witness:
  "sorted_doc (DObj [([98], DNull), ([97], DInt 7)]) = sorted_doc (DObj [([97], DInt 7), ([98], DNull)])
    \<or> doc_text (DObj [([98], DNull), ([97], DInt 7)]) \<noteq> doc_text (DObj [([97], DInt 7), ([98], DNull)])"
proof -
  let ?v = "DObj [([98], DNull), ([97], DInt 7)]" and ?w = "DObj [([97], DInt 7), ([98], DNull)]"
  have "bodyDigest id (Some ?v) = Some (units_of ''{\"a\":7,\"b\":null}'')"
    "bodyDigest id (Some ?w) = Some (units_of ''{\"a\":7,\"b\":null}'')" "doc_ok (\<lambda>_. None) ?v" "doc_ok (\<lambda>_. None) ?w"
    by code_simp+
  from digest_binds_document [OF this] show ?thesis by blast
qed

lemma parsed_unambiguous:
  "parseUnambiguousJSON nr input = Some v \<Longrightarrow> unambiguous v \<and> fits_levels MAX_LEVELS v \<and> nodes v \<le> MAX_NODES"
proof -
  assume "parseUnambiguousJSON nr input = Some v"
  then obtain r b where "read_value nr MAX_LEVELS (utf8_text input) MAX_NODES = Some (v, r, b)"
    by (auto simp: parseUnambiguousJSON_def Let_def split: if_splits option.splits)
  from yieldsD [OF value_yields this] show ?thesis by simp
qed

text \<open>
  C14. Every document the parser lets through has distinct member names in each of its objects, at
  most 33 levels and at most 4096 nodes, whatever the bytes were.
\<close>

theorem parsed_documents_are_unambiguous:
  "parseUnambiguousJSON nr input \<in> {None} \<union> Some ` {v. unambiguous v \<and> fits_levels MAX_LEVELS v \<and> nodes v \<le> MAX_NODES}"
  using parsed_unambiguous [of nr input] by (cases "parseUnambiguousJSON nr input") auto

end
