(* ===== verification/Principal_Proof.thy ===== *)
theory Principal_Proof
  imports Principal_Canonical
begin

text \<open>
  \<open>src/principal/proof.js\<close>: the trust configuration, the signed assertion and its verifier with
  the replay table. The crypto library is given by parameters: \<open>spki\<close> reads a PEM key (its type and its
  fingerprint, which stands for the key), \<open>signs\<close> makes and \<open>ed_ok\<close> checks an Ed25519 signature.
  \<open>configError()\<close> and a thrown \<open>Error\<close> are \<open>None\<close>.
\<close>

section \<open>Reading documents\<close>

fun members :: "jdoc \<Rightarrow> (units \<times> jdoc) list" where
  "members (DObj fs) = fs"
| "members _ = []"

lemma inj_units_of: "inj units_of"
  by (auto simp: inj_def units_of_def intro!: map_injective [where f = unit_of])

definition member :: "jdoc \<Rightarrow> string \<Rightarrow> jdoc option" where
  "member v k = map_of (members v) (units_of k)"

definition doc_string :: "jdoc option \<Rightarrow> units option" where
  "doc_string v = (case v of Some (DStr s) \<Rightarrow> Some s | _ \<Rightarrow> None)"

definition doc_items :: "jdoc option \<Rightarrow> jdoc list option" where
  "doc_items v = (case v of Some (DArr xs) \<Rightarrow> Some xs | _ \<Rightarrow> None)"

definition doc_safe :: "jdoc option \<Rightarrow> int option" where
  "doc_safe v = (case v of Some (DInt n) \<Rightarrow> if safe_int n then Some n else None | _ \<Rightarrow> None)"

text \<open>\<open>String(v || '')\<close>, which is what a pattern is tested against; no pattern here matches an object's text.\<close>

fun js_string :: "jdoc \<Rightarrow> units" where
  "js_string DNull = []"
| "js_string (DBool b) = (if b then units_of ''true'' else units_of ''false'')"
| "js_string (DInt n) = show_int n"
| "js_string (DReal s) = s"
| "js_string (DStr s) = s"
| "js_string (DArr xs) = join_units [44] (map js_string xs)"
| "js_string (DObj fs) = units_of ''[object Object]''"

definition or_empty :: "jdoc option \<Rightarrow> units" where
  "or_empty v = (case v of None \<Rightarrow> [] | Some (DBool False) \<Rightarrow> [] | Some (DInt n) \<Rightarrow> if n = 0 then [] else show_int n | Some x \<Rightarrow> js_string x)"

definition exactFields :: "jdoc \<Rightarrow> string list \<Rightarrow> bool" where
  "exactFields v names \<longleftrightarrow> (case v of DObj fs \<Rightarrow> list_all (\<lambda>p. fst p \<in> units_of ` set names) fs | _ \<Rightarrow> False)"

definition alnum_unit :: "int \<Rightarrow> bool" where
  "alnum_unit c \<longleftrightarrow> (48 \<le> c \<and> c \<le> 57) \<or> (65 \<le> c \<and> c \<le> 90) \<or> (97 \<le> c \<and> c \<le> 122)"

definition identifier_text :: "units \<Rightarrow> bool" where
  "identifier_text s \<longleftrightarrow> (case s of [] \<Rightarrow> False | c # r \<Rightarrow> alnum_unit c
     \<and> list_all (\<lambda>d. alnum_unit d \<or> d = 46 \<or> d = 95 \<or> d = 45) r \<and> length r \<le> 127)"

definition opaque_text :: "units \<Rightarrow> bool" where
  "opaque_text s \<longleftrightarrow> s \<noteq> [] \<and> byte_length s \<le> 256 \<and> \<not> list_ex (\<lambda>c. c \<le> 32 \<or> c = 127) s"

definition action_name :: "units \<Rightarrow> bool" where
  "action_name s \<longleftrightarrow> (case s of [] \<Rightarrow> False | c # r \<Rightarrow> 97 \<le> c \<and> c \<le> 122 \<and> length r \<le> 63
     \<and> list_all (\<lambda>d. (97 \<le> d \<and> d \<le> 122) \<or> (48 \<le> d \<and> d \<le> 57) \<or> d = 95 \<or> d = 46 \<or> d = 45) r)"

definition hex64_text :: "units \<Rightarrow> bool" where
  "hex64_text s \<longleftrightarrow> length s = 64 \<and> list_all (\<lambda>c. (97 \<le> c \<and> c \<le> 102) \<or> (48 \<le> c \<and> c \<le> 57)) s"

definition token_text :: "units \<Rightarrow> bool" where
  "token_text s \<longleftrightarrow> 16 \<le> length s \<and> length s \<le> 128 \<and> list_all b64_char s"

definition string_and :: "(units \<Rightarrow> bool) \<Rightarrow> jdoc option \<Rightarrow> bool" where
  "string_and P v \<longleftrightarrow> (case doc_string v of None \<Rightarrow> False | Some s \<Rightarrow> P s)"

section \<open>The trust configuration\<close>

record grant =
  gr_action :: units
  gr_targets :: "units list"

record trust_key =
  tk_id :: units
  tk_operator :: bool
  tk_public :: units
  tk_grants :: "grant list"

record trust =
  tr_audience :: units
  tr_keys :: "(units, trust_key) jsmap"
  tr_actions :: "units list"

definition HTTP_ACTIONS :: "string list" where
  "HTTP_ACTIONS = [''daemon.inspect'', ''daemon.stop'', ''session.list'', ''session.inspect'', ''session.register'',
     ''session.observe'', ''session.events'', ''session.publish'', ''session.app_events'', ''session.bus'', ''session.owner'',
     ''session.input_stream'', ''session.create'', ''session.takeover'', ''session.inject'', ''session.forwarded_inject'',
     ''session.state'', ''session.input'', ''session.rename'', ''session.destroy'', ''mailbox.read'', ''mailbox.ack'', ''mailbox.renew'']"

definition pem_pattern :: regex where
  "pem_pattern = seqs [TextStart, lit ''-----BEGIN PUBLIC KEY-----'', optional (one_of [13]), one_of [10],
     Unit (\<lambda>c. alnum_unit c \<or> c \<in> {43, 47, 61, 13, 10}), Rep (Unit (\<lambda>c. alnum_unit c \<or> c \<in> {43, 47, 61, 13, 10})),
     lit ''-----END PUBLIC KEY-----'', optional (one_of [13]), optional (one_of [10]), TextEnd]"

definition read_authority :: "jdoc option \<Rightarrow> bool option" where
  "read_authority v = (if v = None \<or> v = Some (DStr (units_of ''principal'')) then Some False
     else if v = Some (DStr (units_of ''operator'')) then Some True else None)"

fun all_some :: "'a option list \<Rightarrow> 'a list option" where
  "all_some [] = Some []"
| "all_some (None # xs) = None"
| "all_some (Some x # xs) = map_option (\<lambda>ys. x # ys) (all_some xs)"

definition wildcard_actions :: "units list" where
  "wildcard_actions = map units_of [''session.inspect'', ''session.list'', ''daemon.inspect'']"

definition read_grant :: "units list \<Rightarrow> bool \<Rightarrow> jdoc \<Rightarrow> grant option" where
  "read_grant actions operator g =
     (case (doc_string (member g ''action''), Option.bind (doc_items (member g ''targets'')) (all_some \<circ> map (doc_string \<circ> Some))) of
        (Some action, Some targets) \<Rightarrow>
          if \<not> exactFields g [''action'', ''targets''] \<or> action \<notin> set actions \<or> targets = [] \<or> length targets > 128
             \<or> \<not> list_all opaque_text targets \<or> \<not> distinct targets
             \<or> (units_of ''*'' \<in> set targets \<and> \<not> (operator \<and> action \<in> set wildcard_actions))
          then None else Some \<lparr>gr_action = action, gr_targets = targets\<rparr>
      | _ \<Rightarrow> None)"

text \<open>One entry of \<open>keys\<close>; the key ids and fingerprints seen so far must not come back.\<close>

definition read_key :: "(units \<Rightarrow> (units \<times> units) option) \<Rightarrow> units list \<Rightarrow> (units, trust_key) jsmap \<Rightarrow> jdoc \<Rightarrow> (units \<times> trust_key) option" where
  "read_key spki actions seen e =
     (case (doc_string (member e ''key_id''), doc_string (member e ''principal_id''), doc_string (member e ''public_key_spki''),
            read_authority (member e ''authority''), doc_items (member e ''grants'')) of
        (Some kid, Some pid, Some pem, Some operator, Some gs) \<Rightarrow>
          if \<not> exactFields e [''key_id'', ''principal_id'', ''public_key_spki'', ''authority'', ''grants'']
             \<or> \<not> identifier_text kid \<or> \<not> identifier_text pid \<or> jm_has seen kid \<or> int (length pem) > 1024 \<or> \<not> rx_test pem_pattern pem
             \<or> gs = [] \<or> length gs > 128 then None
          else (case spki pem of None \<Rightarrow> None
            | Some (kind, fingerprint) \<Rightarrow>
              if kind \<noteq> units_of ''ed25519'' \<or> fingerprint \<in> tk_public ` snd ` set seen then None
              else map_option (\<lambda>grants. (kid, \<lparr>tk_id = pid, tk_operator = operator, tk_public = fingerprint, tk_grants = grants\<rparr>))
                (all_some (map (read_grant actions operator) gs)))
      | _ \<Rightarrow> None)"

fun read_keys :: "(units \<Rightarrow> (units \<times> units) option) \<Rightarrow> units list \<Rightarrow> (units, trust_key) jsmap \<Rightarrow> jdoc list \<Rightarrow> (units, trust_key) jsmap option" where
  "read_keys spki actions seen [] = Some seen"
| "read_keys spki actions seen (e # es) = (case read_key spki actions seen e of None \<Rightarrow> None
     | Some (kid, k) \<Rightarrow> read_keys spki actions (jm_set kid k seen) es)"

definition validateTrustConfiguration ::
    "(units \<Rightarrow> (units \<times> units) option) \<Rightarrow> jdoc \<Rightarrow> units option \<Rightarrow> units list \<Rightarrow> trust option" where
  "validateTrustConfiguration spki c audience allowed =
     (case doc_items (member c ''keys'') of None \<Rightarrow> None
      | Some es \<Rightarrow>
        if canonicalJSON c = None \<or> \<not> exactFields c [''schema'', ''audience'', ''keys'']
           \<or> member c ''schema'' \<noteq> Some (DStr (units_of ''telepty.principals/v1'')) \<or> es = [] \<or> length es > 64 then None
        else (case (if member c ''audience'' = None then audience else doc_string (member c ''audience'')) of
            None \<Rightarrow> None
          | Some aud \<Rightarrow>
            if \<not> opaque_text aud \<or> allowed = [] \<or> \<not> list_all action_name allowed then None
            else map_option (\<lambda>keys. \<lparr>tr_audience = aud, tr_keys = keys, tr_actions = allowed\<rparr>)
                   (read_keys spki allowed [] es)))"

section \<open>The assertion\<close>

definition lower_text :: "units \<Rightarrow> units" where
  "lower_text s = map (\<lambda>c. if c = 8490 then 107 else ascii_lower c) s"

text \<open>\<open>validTarget\<close>. Lower case only matters where the result is ASCII: the letters and the Kelvin sign.\<close>

definition validTarget :: "units \<Rightarrow> bool" where
  "validTarget t \<longleftrightarrow> int (length t) \<le> 4096 \<and> take 1 t = [47] \<and> take 2 t \<noteq> [47, 47]
     \<and> \<not> list_ex (\<lambda>c. c = 92 \<or> c = 35 \<or> c \<le> 32 \<or> c = 127) t
     \<and> (let names = query_names (drop 1 (dropWhile (\<lambda>c. c \<noteq> 63) t)) in distinct names
        \<and> list_all (\<lambda>n. lower_text n \<notin> set (map units_of [''token'', ''access_token'', ''authorization'', ''owner_token''])) names)"

definition DOCUMENT_FIELDS :: "string list" where
  "DOCUMENT_FIELDS = [''v'', ''key_id'', ''principal_id'', ''audience'', ''method'', ''target'', ''action'', ''transport'',
     ''body_sha256'', ''challenge'', ''nonce'', ''issued_at'', ''expires_at'', ''session_epoch'']"

definition documentValid :: "jdoc \<Rightarrow> bool" where
  "documentValid d \<longleftrightarrow> exactFields d DOCUMENT_FIELDS
     \<and> member d ''v'' = Some (DInt 1) \<and> string_and identifier_text (member d ''key_id'') \<and> string_and identifier_text (member d ''principal_id'')
     \<and> string_and opaque_text (member d ''audience'')
     \<and> string_and (\<lambda>s. 3 \<le> length s \<and> length s \<le> 16 \<and> list_all (\<lambda>c. 65 \<le> c \<and> c \<le> 90) s) (member d ''method'')
     \<and> string_and validTarget (member d ''target'') \<and> string_and action_name (member d ''action'')
     \<and> member d ''transport'' \<in> {Some (DStr (units_of ''http'')), Some (DStr (units_of ''websocket''))}
     \<and> hex64_text (or_empty (member d ''body_sha256'')) \<and> token_text (or_empty (member d ''challenge''))
     \<and> token_text (or_empty (member d ''nonce''))
     \<and> (case (doc_safe (member d ''issued_at''), doc_safe (member d ''expires_at'')) of
          (Some i, Some e) \<Rightarrow> 0 \<le> i \<and> i < e \<and> e - i \<le> 60 | _ \<Rightarrow> False)
     \<and> (member d ''session_epoch'' = None \<or> string_and (\<lambda>s. s \<noteq> [] \<and> length s \<le> 128) (member d ''session_epoch''))"

definition DOMAIN :: units where
  "DOMAIN = units_of ''telepty.principal-assertion/v1'' @ [10]"

record assertion =
  as_key_id :: units
  as_principal_id :: units
  as_audience :: units
  as_challenge :: units
  as_method :: units
  as_target :: units
  as_body :: "jdoc option"
  as_action :: units
  as_nonce :: units
  as_issued_at :: int
  as_ttl :: int
  as_session_epoch :: "units option"
  as_transport :: units

definition assertion_document :: "units \<Rightarrow> assertion \<Rightarrow> jdoc" where
  "assertion_document body_hash a = DObj (map (\<lambda>(k, v). (units_of k, v))
     ([(''v'', DInt 1), (''key_id'', DStr (as_key_id a)), (''principal_id'', DStr (as_principal_id a)),
       (''audience'', DStr (as_audience a)), (''challenge'', DStr (as_challenge a)), (''method'', DStr (as_method a)),
       (''target'', DStr (as_target a)), (''action'', DStr (as_action a)), (''transport'', DStr (as_transport a)),
       (''body_sha256'', DStr body_hash), (''nonce'', DStr (as_nonce a)), (''issued_at'', DInt (as_issued_at a)),
       (''expires_at'', DInt (as_issued_at a + as_ttl a))]
      @ (case as_session_epoch a of None \<Rightarrow> [] | Some e \<Rightarrow> [(''session_epoch'', DStr e)])))"

definition createSignedAssertion :: "(units \<Rightarrow> units) \<Rightarrow> (units \<Rightarrow> bytes) \<Rightarrow> assertion \<Rightarrow> units option" where
  "createSignedAssertion sha signs a =
     (case bodyDigest sha (as_body a) of None \<Rightarrow> None
      | Some h \<Rightarrow> let d = assertion_document h a in
          if \<not> documentValid d then None
          else map_option (\<lambda>encoded. units_of ''v1.'' @ b64_encode (utf8_bytes encoded) @ [46] @ b64_encode (signs (DOMAIN @ encoded)))
                 (canonicalJSON d))"

section \<open>The verifier\<close>

record binding =
  bi_method :: units
  bi_target :: units
  bi_body_sha256 :: units
  bi_action :: units
  bi_grant_target :: units
  bi_transport :: "units option"
  bi_session_epoch :: "units option"

record principal =
  pr_id :: units
  pr_key_id :: units
  pr_operator :: bool
  pr_audience :: units

record verified =
  vd_principal :: principal
  vd_action :: units
  vd_target :: units
  vd_session_epoch :: "units option"
  vd_expires_at :: int

datatype 'a checked = Denied string int | Granted 'a

record verifier =
  vf_latest :: int
  vf_replay :: "(units, int) jsmap"

definition proof_denied :: "'a checked" where
  "proof_denied = Denied ''PRINCIPAL_PROOF_INVALID'' 401"

text \<open>\<open>createPrincipalVerifier\<close>: the guards, and the first reading of the clock.\<close>

definition createPrincipalVerifier :: "units \<Rightarrow> int \<Rightarrow> int \<Rightarrow> verifier option" where
  "createPrincipalVerifier challenge capacity now_ms =
     (if \<not> token_text challenge \<or> \<not> safe_int capacity \<or> capacity < 1 \<or> capacity > 65536 then None
      else Some \<lparr>vf_latest = now_ms div 1000, vf_replay = []\<rparr>)"

text \<open>The header: three parts, both of them in the one base64url form of their bytes.\<close>

definition split_header :: "units \<Rightarrow> (bytes \<times> bytes) option" where
  "split_header h = (if int (length h) > 8192 then None else case split_on 46 h of
       [version, payload, signature] \<Rightarrow>
         if version \<noteq> units_of ''v1'' \<or> payload = [] \<or> \<not> list_all b64_char payload
            \<or> length signature \<noteq> 86 \<or> \<not> list_all b64_char signature
            \<or> b64_encode (b64_decode payload) \<noteq> payload \<or> b64_encode (b64_decode signature) \<noteq> signature
            \<or> length (b64_decode signature) \<noteq> 64 then None
         else Some (b64_decode payload, b64_decode signature)
     | _ \<Rightarrow> None)"

definition read_payload :: "(units \<Rightarrow> units option) \<Rightarrow> bytes \<Rightarrow> (jdoc \<times> units) option" where
  "read_payload nr payload = (case parseUnambiguousJSON nr payload of None \<Rightarrow> None
     | Some d \<Rightarrow> (case canonicalJSON d of None \<Rightarrow> None
       | Some encoded \<Rightarrow> if encoded \<noteq> utf8_text payload \<or> \<not> documentValid d then None else Some (d, encoded)))"

definition text_is :: "jdoc \<Rightarrow> string \<Rightarrow> units \<Rightarrow> bool" where
  "text_is d k s \<longleftrightarrow> member d k = Some (DStr s)"

definition number_at :: "jdoc \<Rightarrow> string \<Rightarrow> int" where
  "number_at d k = (case doc_safe (member d k) of Some n \<Rightarrow> n | None \<Rightarrow> 0)"

definition string_at :: "jdoc \<Rightarrow> string \<Rightarrow> units" where
  "string_at d k = (case doc_string (member d k) of Some s \<Rightarrow> s | None \<Rightarrow> [])"

definition binds :: "trust \<Rightarrow> units \<Rightarrow> int \<Rightarrow> trust_key \<Rightarrow> jdoc \<Rightarrow> binding \<Rightarrow> bool" where
  "binds tr challenge at k d b \<longleftrightarrow> text_is d ''principal_id'' (tk_id k) \<and> text_is d ''audience'' (tr_audience tr)
     \<and> text_is d ''challenge'' challenge \<and> number_at d ''issued_at'' \<le> at \<and> at < number_at d ''expires_at''
     \<and> text_is d ''method'' (bi_method b) \<and> text_is d ''target'' (bi_target b) \<and> text_is d ''action'' (bi_action b)
     \<and> text_is d ''transport'' (case bi_transport b of None \<Rightarrow> units_of ''http'' | Some t \<Rightarrow> t)
     \<and> text_is d ''body_sha256'' (bi_body_sha256 b)
     \<and> (case bi_session_epoch b of None \<Rightarrow> True | Some e \<Rightarrow> text_is d ''session_epoch'' e)"

definition grants :: "trust_key \<Rightarrow> binding \<Rightarrow> bool" where
  "grants k b \<longleftrightarrow> list_ex (\<lambda>g. gr_action g = bi_action b
     \<and> (bi_grant_target b \<in> set (gr_targets g) \<or> (tk_operator k \<and> units_of ''*'' \<in> set (gr_targets g)))) (tk_grants k)"

definition replay_key :: "jdoc \<Rightarrow> units" where
  "replay_key d = string_at d ''key_id'' @ [58] @ or_empty (member d ''nonce'')"

definition live_entries :: "int \<Rightarrow> (units, int) jsmap \<Rightarrow> (units, int) jsmap" where
  "live_entries at r = filter (\<lambda>p. \<not> snd p \<le> at) r"

text \<open>The part after the clock has been accepted.\<close>

definition check_document ::
    "(units \<Rightarrow> units \<Rightarrow> bytes \<Rightarrow> bool) \<Rightarrow> trust \<Rightarrow> units \<Rightarrow> int \<Rightarrow> bool \<Rightarrow> int \<Rightarrow> binding \<Rightarrow> jdoc \<Rightarrow> units \<Rightarrow> bytes \<Rightarrow> verifier \<Rightarrow> verified checked \<times> verifier" where
  "check_document ed_ok tr challenge capacity consume at b d encoded signature vf =
     (case jm_get (tr_keys tr) (string_at d ''key_id'') of None \<Rightarrow> (proof_denied, vf)
      | Some k \<Rightarrow>
        if \<not> binds tr challenge at k d b \<or> \<not> ed_ok (DOMAIN @ encoded) (tk_public k) signature then (proof_denied, vf)
        else if \<not> grants k b then (Denied ''PRINCIPAL_GRANT_DENIED'' 403, vf)
        else let replay = live_entries at (vf_replay vf); vf1 = vf\<lparr>vf_replay := replay\<rparr>; nonce = replay_key d in
          if jm_has replay nonce then (Denied ''PRINCIPAL_REPLAY'' 409, vf1)
          else if int (length replay) \<ge> capacity then (Denied ''PRINCIPAL_REPLAY_CAPACITY'' 503, vf1)
          else (Granted \<lparr>vd_principal = \<lparr>pr_id = tk_id k, pr_key_id = string_at d ''key_id'', pr_operator = tk_operator k, pr_audience = tr_audience tr\<rparr>,
                  vd_action = bi_action b, vd_target = bi_grant_target b, vd_session_epoch = doc_string (member d ''session_epoch''),
                  vd_expires_at = number_at d ''expires_at'' * 1000\<rparr>,
                if consume then vf1\<lparr>vf_replay := jm_set nonce (number_at d ''expires_at'') replay\<rparr> else vf1))"

definition check :: "(units \<Rightarrow> units option) \<Rightarrow> (units \<Rightarrow> units \<Rightarrow> bytes \<Rightarrow> bool) \<Rightarrow> trust \<Rightarrow> units \<Rightarrow> int \<Rightarrow> bool
    \<Rightarrow> int \<Rightarrow> units option \<Rightarrow> binding \<Rightarrow> verifier \<Rightarrow> verified checked \<times> verifier" where
  "check nr ed_ok tr challenge capacity consume now_ms header b vf =
     (case Option.bind header split_header of None \<Rightarrow> (proof_denied, vf)
      | Some (payload, signature) \<Rightarrow>
        if bi_action b \<notin> set (tr_actions tr) then (proof_denied, vf)
        else (case read_payload nr payload of None \<Rightarrow> (proof_denied, vf)
          | Some (d, encoded) \<Rightarrow>
            let at = now_ms div 1000 in
            if \<not> safe_int at \<or> at < vf_latest vf then (Denied ''PRINCIPAL_CLOCK_UNSAFE'' 503, vf)
            else check_document ed_ok tr challenge capacity consume at b d encoded signature (vf\<lparr>vf_latest := at\<rparr>)))"

end
