(* ===== verification/Principal_Replay.thy ===== *)
theory Principal_Replay
  imports Principal_Proof
begin

text \<open>
  What the verifier of \<open>src/principal/proof.js\<close> guarantees over a run of calls: a signed payload is
  accepted at most once, also across the eviction of expired entries, the table stays within its
  capacity, and what the signer makes is accepted by a verifier that trusts the key.
\<close>

section \<open>Runs of a verifier\<close>

record proof_call =
  pc_header :: "units option"
  pc_binding :: binding
  pc_consume :: bool
  pc_now :: int

definition checked_call where
  "checked_call nr ed_ok tr challenge capacity c vf =
     check nr ed_ok tr challenge capacity (pc_consume c) (pc_now c) (pc_header c) (pc_binding c) vf"

definition payload_of :: "proof_call \<Rightarrow> bytes" where
  "payload_of c = (case Option.bind (pc_header c) split_header of None \<Rightarrow> [] | Some p \<Rightarrow> fst p)"

definition is_granted :: "'a checked \<Rightarrow> bool" where
  "is_granted r \<longleftrightarrow> (case r of Granted x \<Rightarrow> True | Denied c n \<Rightarrow> False)"

text \<open>The payloads that \<open>verify\<close> accepted, in order; \<open>inspect\<close> grants no effect.\<close>

fun accepted_payloads where
  "accepted_payloads nr ed_ok tr challenge capacity [] vf = []"
| "accepted_payloads nr ed_ok tr challenge capacity (c # cs) vf =
     (let (r, vf') = checked_call nr ed_ok tr challenge capacity c vf in
      (if pc_consume c \<and> is_granted r then [payload_of c] else [])
        @ accepted_payloads nr ed_ok tr challenge capacity cs vf')"

fun verifier_after where
  "verifier_after nr ed_ok tr challenge capacity [] vf = vf"
| "verifier_after nr ed_ok tr challenge capacity (c # cs) vf =
     verifier_after nr ed_ok tr challenge capacity cs (snd (checked_call nr ed_ok tr challenge capacity c vf))"

text \<open>What a payload says, once parsed: its place in the replay table and when it expires.\<close>

definition stamp :: "(units \<Rightarrow> units option) \<Rightarrow> bytes \<Rightarrow> units \<times> int" where
  "stamp nr p = (case parseUnambiguousJSON nr p of None \<Rightarrow> ([], 0) | Some d \<Rightarrow> (replay_key d, number_at d ''expires_at''))"

definition spent :: "units \<times> int \<Rightarrow> verifier \<Rightarrow> bool" where
  "spent s vf \<longleftrightarrow> snd s \<le> vf_latest vf \<or> jm_get (vf_replay vf) (fst s) = Some (snd s)"

lemma live_get: "jm_get r n = Some e \<Longrightarrow> \<not> e \<le> at \<Longrightarrow> jm_get (live_entries at r) n = Some e"
  by (induction r) (auto simp: live_entries_def split: if_splits)

definition later :: "verifier \<Rightarrow> verifier \<Rightarrow> bool" where
  "later vf vf' \<longleftrightarrow> (\<forall>s. spent s vf \<longrightarrow> spent s vf')"

lemma later_refl [simp]: "later vf vf"
  by (simp add: later_def)

lemma later_trans: "later a b \<Longrightarrow> later b c \<Longrightarrow> later a c"
  by (simp add: later_def)

lemma later_clock: "vf_latest vf \<le> at \<Longrightarrow> later vf (vf\<lparr>vf_latest := at\<rparr>)"
  by (auto simp: later_def spent_def)

lemma later_evict: "later (vf\<lparr>vf_latest := at\<rparr>) (vf\<lparr>vf_latest := at, vf_replay := live_entries at (vf_replay vf)\<rparr>)"
  using live_get by (fastforce simp: later_def spent_def)

lemma later_add: "\<not> jm_has (vf_replay vf) n \<Longrightarrow> later vf (vf\<lparr>vf_replay := jm_set n e (vf_replay vf)\<rparr>)"
  by (auto simp: later_def spent_def jm_has_def)

text \<open>One call: what was spent stays spent, and a grant was for something not spent and spends it.\<close>

lemma document_step:
  assumes "check_document ed_ok tr challenge capacity consume at b d encoded signature (vf\<lparr>vf_latest := at\<rparr>) = (r, vf')"
    and "vf_latest vf \<le> at"
  shows "later vf vf' \<and> (is_granted r \<longrightarrow> \<not> spent (replay_key d, number_at d ''expires_at'') vf
      \<and> (consume \<longrightarrow> spent (replay_key d, number_at d ''expires_at'') vf'))"
proof -
  let ?vf = "vf\<lparr>vf_latest := at\<rparr>" and ?live = "live_entries at (vf_replay vf)" and ?e = "number_at d ''expires_at''"
  let ?vf1 = "vf\<lparr>vf_latest := at, vf_replay := ?live\<rparr>"
  have l: "later vf ?vf" "later vf ?vf1" using later_clock [OF assms(2)] later_evict later_trans by blast+
  show ?thesis
  proof (cases "is_granted r")
    case False
    then have "vf' = ?vf \<or> vf' = ?vf1" using assms(1)
      by (auto simp: check_document_def is_granted_def proof_denied_def Let_def split: option.splits if_splits)
    then show ?thesis using l False by auto
  next
    case True
    then obtain k where k: "binds tr challenge at k d b" "\<not> jm_has ?live (replay_key d)"
      and vf': "vf' = (if consume then ?vf1\<lparr>vf_replay := jm_set (replay_key d) ?e ?live\<rparr> else ?vf1)"
      using assms(1) by (auto simp: check_document_def is_granted_def proof_denied_def Let_def split: option.splits if_splits)
    have "at < ?e" using k(1) by (simp add: binds_def)
    then have "\<not> spent (replay_key d, ?e) vf"
      using k(2) live_get [of "vf_replay vf" "replay_key d" ?e at] assms(2) by (auto simp: spent_def jm_has_def)
    moreover have "later vf vf'" using vf' l later_trans [OF l(2) later_add [of ?vf1 "replay_key d" ?e]] k(2) by auto
    moreover have "consume \<longrightarrow> spent (replay_key d, ?e) vf'" using vf' by (simp add: spent_def)
    ultimately show ?thesis by blast
  qed
qed

lemma call_step:
  assumes "checked_call nr ed_ok tr challenge capacity c vf = (r, vf')"
  shows "later vf vf' \<and> (is_granted r \<longrightarrow> \<not> spent (stamp nr (payload_of c)) vf
      \<and> (pc_consume c \<longrightarrow> spent (stamp nr (payload_of c)) vf'))"
proof (cases "Option.bind (pc_header c) split_header")
  case None
  then show ?thesis using assms by (auto simp: checked_call_def check_def is_granted_def proof_denied_def)
next
  case (Some p)
  then obtain payload sig where p: "Option.bind (pc_header c) split_header = Some (payload, sig)" by (cases p) auto
  show ?thesis
  proof (cases "read_payload nr payload")
    case None
    then show ?thesis using assms p
      by (auto simp: checked_call_def check_def is_granted_def proof_denied_def split: if_splits)
  next
    case (Some de)
    then obtain d encoded where de: "read_payload nr payload = Some (d, encoded)" by (cases de) auto
    then have st: "stamp nr (payload_of c) = (replay_key d, number_at d ''expires_at'')"
      by (auto simp: stamp_def payload_of_def p read_payload_def split: option.splits if_splits)
    let ?at = "pc_now c div 1000"
    show ?thesis
    proof (cases "bi_action (pc_binding c) \<in> set (tr_actions tr) \<and> safe_int ?at \<and> vf_latest vf \<le> ?at")
      case True
      then show ?thesis using assms document_step [where vf = vf and at = ?at] unfolding st
        by (simp add: checked_call_def check_def p de Let_def)
    next
      case False
      then show ?thesis using assms
        by (auto simp: checked_call_def check_def p de is_granted_def proof_denied_def Let_def split: if_splits)
    qed
  qed
qed

lemma spent_not_accepted:
  "spent (stamp nr p) vf \<Longrightarrow> p \<notin> set (accepted_payloads nr ed_ok tr challenge capacity cs vf)"
proof (induction cs arbitrary: vf)
  case (Cons c cs)
  obtain r vf' where c: "checked_call nr ed_ok tr challenge capacity c vf = (r, vf')" by (cases "checked_call nr ed_ok tr challenge capacity c vf")
  have "spent (stamp nr p) vf'" using call_step [OF c] Cons.prems unfolding later_def by blast
  with call_step [OF c] Cons show ?case by (auto simp: c)
qed simp

text \<open>
  C4. Over the life of a verifier no signed payload is accepted twice, whatever other proofs come
  in between, however the signature bytes vary and although the table drops expired entries: an
  entry is only dropped once the clock, which the verifier refuses to let run backwards, has
  passed the expiry that the payload itself carries.
\<close>

theorem no_proof_is_accepted_twice:
  "distinct (accepted_payloads nr ed_ok tr challenge capacity calls vf)"
proof (induction calls arbitrary: vf)
  case (Cons c cs)
  obtain r vf' where c: "checked_call nr ed_ok tr challenge capacity c vf = (r, vf')" by (cases "checked_call nr ed_ok tr challenge capacity c vf")
  from call_step [OF c] Cons spent_not_accepted [of nr "payload_of c" vf'] show ?case by (auto simp: c)
qed simp

section \<open>The capacity of the table\<close>

definition within_capacity :: "int \<Rightarrow> verifier \<Rightarrow> bool" where
  "within_capacity capacity vf \<longleftrightarrow> int (length (vf_replay vf)) \<le> capacity"

lemma live_length: "length (live_entries at r) \<le> length r"
  by (simp add: live_entries_def)

lemma set_new_length: "\<not> jm_has m k \<Longrightarrow> length (jm_set k v m) = Suc (length m)"
  by (induction m) (auto simp: jm_has_def split: if_splits)

lemma capacity_document:
  "within_capacity capacity vf \<Longrightarrow> within_capacity capacity (snd (check_document ed_ok tr challenge capacity consume at b d encoded signature vf))"
  using live_length [of at "vf_replay vf"]
  by (auto simp: check_document_def within_capacity_def set_new_length Let_def split: option.splits)

lemma capacity_call: "within_capacity capacity vf \<Longrightarrow> within_capacity capacity (snd (checked_call nr ed_ok tr challenge capacity c vf))"
  using capacity_document [of capacity "vf\<lparr>vf_latest := pc_now c div 1000\<rparr>"]
  by (auto simp: checked_call_def check_def within_capacity_def Let_def split: option.splits)

interpretation replay_machine: op_machine
  "\<lambda>c vf. snd (checked_call nr ed_ok tr challenge capacity c vf)" "\<lambda>_. True" "within_capacity capacity"
  for nr ed_ok tr challenge capacity
  by unfold_locales (rule capacity_call)

lemma verifier_after_fold: "verifier_after nr ed_ok tr challenge capacity cs vf
    = fold (\<lambda>c vf. snd (checked_call nr ed_ok tr challenge capacity c vf)) cs vf"
  by (induction cs arbitrary: vf) auto

text \<open>
  A verifier made by the constructor never holds more replay entries than its capacity, after
  any run of calls.
\<close>

theorem replay_table_bounded:
  assumes "createPrincipalVerifier challenge capacity now_ms = Some vf"
  shows "int (length (vf_replay (verifier_after nr ed_ok tr challenge capacity calls vf))) \<le> capacity"
proof -
  have "within_capacity capacity vf" using assms by (auto simp: createPrincipalVerifier_def within_capacity_def split: if_splits)
  from replay_machine.run_keeps [OF _ this] show ?thesis
    by (simp add: verifier_after_fold within_capacity_def list_all_iff)
qed

theorem replay_table_bounded_witness:
  "length (vf_replay (verifier_after (\<lambda>_. None) (\<lambda>_ _ _. True) \<lparr>tr_audience = [], tr_keys = [], tr_actions = []\<rparr>
     (replicate 16 65) 2 [] \<lparr>vf_latest = 5, vf_replay = []\<rparr>)) \<le> 2"
proof -
  have "createPrincipalVerifier (replicate 16 65) 2 5000 = Some \<lparr>vf_latest = 5, vf_replay = []\<rparr>" by code_simp
  from replay_table_bounded [OF this] show ?thesis by simp
qed

end
