(* ===== verification/Principal_Assertion.thy ===== *)
theory Principal_Assertion
  imports Principal_Replay
begin

text \<open>
  Signing and verifying fit together: what \<open>createSignedAssertion\<close> makes is accepted by a verifier
  that trusts the key and has not seen it, and what a verifier accepts was signed, by the key it
  names, for exactly the request at hand.
\<close>

section \<open>The header of an assertion\<close>

lemma b64_length: "length (b64_encode bs) = (4 * length bs + 2) div 3"
  by (induction bs rule: b64_encode.induct) auto

lemma no_dot: "list_all b64_char s \<Longrightarrow> 46 \<notin> set s"
  by (auto simp: list_all_iff b64_char_def)

lemma split_signed:
  assumes "list_all byte_ok p" "p \<noteq> []" "list_all byte_ok s" "length s = 64"
    and "int (length (units_of ''v1.'' @ b64_encode p @ [46] @ b64_encode s)) \<le> 8192"
  shows "split_header (units_of ''v1.'' @ b64_encode p @ [46] @ b64_encode s) = Some (p, s)"
proof -
  have v: "units_of ''v1.'' = units_of ''v1'' @ [46]" "46 \<notin> set (units_of ''v1'')" by (simp_all add: units_of_def unit_of_def)
  have c: "list_all b64_char (b64_encode p)" "list_all b64_char (b64_encode s)" using b64_encode_chars assms by auto
  have "split_on 46 (units_of ''v1.'' @ b64_encode p @ [46] @ b64_encode s) = [units_of ''v1'', b64_encode p, b64_encode s]"
    using split_on_joined [OF v(2)] split_on_joined [OF no_dot [OF c(1)]] split_on_none [OF no_dot [OF c(2)]] by (simp add: v(1))
  moreover have "b64_encode p \<noteq> []" using assms(2) by (cases p rule: b64_encode.cases) auto
  ultimately show ?thesis using assms c by (simp add: split_header_def b64_roundtrip b64_length)
qed

section \<open>The document of an assertion\<close>

lemma sorted_member:
  assumes "distinct (map fst fs)" "list_all (\<lambda>(_, v). sorted_doc v = v) fs"
  shows "map_of (members (sorted_doc (DObj fs))) = map_of fs" "fst ` set (members (sorted_doc (DObj fs))) = fst ` set fs"
proof -
  have "map (\<lambda>(k, v). (k, sorted_doc v)) fs = fs" using assms(2) by (induction fs) auto
  then have m: "members (sorted_doc (DObj fs)) = sort_key fst fs" by simp
  show "map_of (members (sorted_doc (DObj fs))) = map_of fs" "fst ` set (members (sorted_doc (DObj fs))) = fst ` set fs"
    unfolding m using assms(1) by (auto intro!: map_of_eqI simp: distinct_sorted map_of_inject_set)
qed

lemma documentValid_cong:
  assumes "d = DObj gs" "e = DObj fs" "map_of (members d) = map_of (members e)" "fst ` set (members d) = fst ` set (members e)"
  shows "documentValid d = documentValid e"
proof -
  have m: "member d k = member e k" for k using assms(3) by (simp add: member_def)
  have "fst ` set gs \<subseteq> N \<longleftrightarrow> fst ` set fs \<subseteq> N" for N using assms by simp
  then have x: "exactFields d names = exactFields e names" for names
    unfolding assms(1,2) exactFields_def list_all_iff jdoc.case by blast
  show ?thesis unfolding documentValid_def m x by (rule refl)
qed

definition assertion_members :: "units \<Rightarrow> assertion \<Rightarrow> (units \<times> jdoc) list" where
  "assertion_members h a = members (assertion_document h a)"

lemma assertion_members: "assertion_document h a = DObj (assertion_members h a)"
  by (simp add: assertion_members_def assertion_document_def)

lemma assertion_names: "distinct (map fst (assertion_members h a))"
proof -
  define names where "names = [''v'', ''key_id'', ''principal_id'', ''audience'', ''challenge'', ''method'', ''target'', ''action'',
      ''transport'', ''body_sha256'', ''nonce'', ''issued_at'', ''expires_at'', ''session_epoch'']"
  have "map fst (assertion_members h a) = map units_of (case as_session_epoch a of None \<Rightarrow> butlast names | Some e \<Rightarrow> names)"
    by (cases "as_session_epoch a") (simp_all add: names_def assertion_members_def assertion_document_def)
  moreover have "distinct names" "distinct (butlast names)" by (simp_all add: names_def)
  ultimately show ?thesis
    by (cases "as_session_epoch a") (simp_all add: distinct_map inj_on_subset [OF inj_units_of])
qed

lemma assertion_scalars: "list_all (\<lambda>(_, v). sorted_doc v = v) (assertion_members h a)"
  by (cases "as_session_epoch a") (simp_all add: assertion_members_def assertion_document_def)

definition assertion_texts :: "assertion \<Rightarrow> units list" where
  "assertion_texts a = [as_key_id a, as_principal_id a, as_audience a, as_challenge a, as_method a, as_target a, as_action a,
     as_nonce a, as_transport a] @ (case as_session_epoch a of None \<Rightarrow> [] | Some e \<Rightarrow> [e])"

lemma member_of_assertion:
  "member (assertion_document h a) ''key_id'' = Some (DStr (as_key_id a))"
  "member (assertion_document h a) ''principal_id'' = Some (DStr (as_principal_id a))"
  "member (assertion_document h a) ''audience'' = Some (DStr (as_audience a))"
  "member (assertion_document h a) ''challenge'' = Some (DStr (as_challenge a))"
  "member (assertion_document h a) ''method'' = Some (DStr (as_method a))"
  "member (assertion_document h a) ''target'' = Some (DStr (as_target a))"
  "member (assertion_document h a) ''action'' = Some (DStr (as_action a))"
  "member (assertion_document h a) ''transport'' = Some (DStr (as_transport a))"
  "member (assertion_document h a) ''body_sha256'' = Some (DStr h)"
  "member (assertion_document h a) ''nonce'' = Some (DStr (as_nonce a))"
  "member (assertion_document h a) ''issued_at'' = Some (DInt (as_issued_at a))"
  "member (assertion_document h a) ''expires_at'' = Some (DInt (as_issued_at a + as_ttl a))"
  "member (assertion_document h a) ''session_epoch'' = map_option DStr (as_session_epoch a)"
  by (cases "as_session_epoch a"; simp add: member_def assertion_document_def units_of_def unit_of_def)+

lemma hex_units: "hex64_text h \<Longrightarrow> units_ok h"
  by (auto simp: hex64_text_def units_ok_def list_all_iff)

lemma name_units: "units_ok (units_of k)"
proof -
  have "0 \<le> unit_of c \<and> unit_of c < 65536" for c
    using pos_mod_bound [of 256 "of_char c :: int"] pos_mod_sign [of 256 "of_char c :: int"]
    by (simp add: unit_of_def)
  then show ?thesis by (simp add: units_ok_def units_of_def list_all_iff)
qed

lemma assertion_ok:
  assumes "documentValid (assertion_document h a)" "list_all units_ok (assertion_texts a)"
  shows "doc_ok nr (assertion_document h a)"
proof -
  have "hex64_text h" using assms(1) by (auto simp: documentValid_def member_of_assertion or_empty_def)
  moreover have "safe_int (as_issued_at a)" "safe_int (as_issued_at a + as_ttl a)"
    using assms(1) by (auto simp: documentValid_def member_of_assertion doc_safe_def split: if_splits)
  moreover have "safe_int 1" by (simp add: safe_int_def max_safe_integer_def)
  ultimately show ?thesis using assms(2) assertion_names [of h a]
    by (cases "as_session_epoch a")
      (simp_all add: assertion_members_def assertion_document_def assertion_texts_def hex_units name_units)
qed

text \<open>
  What a verifier knows of an assertion it should accept: the key with the signer's names is
  trusted, the binding is the request that was signed, the clock is inside the window and not
  behind, and there is room for a nonce that is not in use.
\<close>

definition request_matches :: "units \<Rightarrow> trust \<Rightarrow> units \<Rightarrow> int \<Rightarrow> int \<Rightarrow> binding \<Rightarrow> assertion \<Rightarrow> units \<Rightarrow> trust_key \<Rightarrow> verifier \<Rightarrow> bool" where
  "request_matches h tr challenge capacity at b a pub k vf \<longleftrightarrow>
     jm_get (tr_keys tr) (as_key_id a) = Some k \<and> tk_id k = as_principal_id a \<and> tk_public k = pub \<and> grants k b
     \<and> as_audience a = tr_audience tr \<and> as_challenge a = challenge
     \<and> bi_method b = as_method a \<and> bi_target b = as_target a \<and> bi_action b = as_action a \<and> bi_body_sha256 b = h
     \<and> bi_transport b \<in> {Some (as_transport a)} \<union> (if as_transport a = units_of ''http'' then {None} else {})
     \<and> bi_session_epoch b \<in> {None, as_session_epoch a} \<and> as_action a \<in> set (tr_actions tr)
     \<and> safe_int at \<and> vf_latest vf \<le> at \<and> as_issued_at a \<le> at \<and> at < as_issued_at a + as_ttl a
     \<and> \<not> jm_has (live_entries at (vf_replay vf)) (as_key_id a @ [58] @ as_nonce a)
     \<and> int (length (live_entries at (vf_replay vf))) < capacity"

lemma or_empty_string: "or_empty (Some (DStr s)) = s"
  by (simp add: or_empty_def)

lemma assertion_accepted:
  assumes made: "createSignedAssertion sha signs a = Some header" "bodyDigest sha (as_body a) = Some h"
    and texts: "list_all units_ok (assertion_texts a)"
    and scheme: "\<And>m. ed_ok m pub (signs m)" "\<And>m. length (signs m) = 64 \<and> list_all byte_ok (signs m)"
    and room: "int (length header) \<le> 8192"
    and fit: "request_matches h tr challenge capacity (now_ms div 1000) b a pub k vf"
  shows "\<exists>r. fst (check nr ed_ok tr challenge capacity consume now_ms (Some header) b vf) = Granted r
     \<and> pr_id (vd_principal r) = as_principal_id a \<and> pr_key_id (vd_principal r) = as_key_id a
     \<and> pr_audience (vd_principal r) = as_audience a \<and> pr_operator (vd_principal r) = tk_operator k
     \<and> vd_action r = as_action a \<and> vd_session_epoch r = as_session_epoch a"
proof -
  let ?d = "assertion_document h a" and ?s = "sorted_doc (assertion_document h a)"
  obtain encoded where valid: "documentValid ?d" and enc: "canonicalJSON ?d = Some encoded"
    and header: "header = units_of ''v1.'' @ b64_encode (utf8_bytes encoded) @ [46] @ b64_encode (signs (DOMAIN @ encoded))"
    using made by (auto simp: createSignedAssertion_def Let_def split: if_splits)
  have ok: "doc_ok nr ?d" using assertion_ok valid texts by blast
  have whole: "whole_text encoded" using whole_doc [OF ok] enc by (auto simp: canonicalJSON_characterised split: if_splits)
  have "encoded \<noteq> []" using enc by (auto simp: canonicalJSON_characterised assertion_members brackets_def split: if_splits)
  then have "utf8_bytes encoded \<noteq> []" using utf8_roundtrip [OF whole] by (auto simp: utf8_text_def utf8_start_def)
  then have split: "split_header header = Some (utf8_bytes encoded, signs (DOMAIN @ encoded))"
    unfolding header using split_signed [OF utf8_bytes_ok [OF whole]] scheme(2) room header by simp
  note sm' = sorted_member [OF assertion_names [of h a] assertion_scalars, unfolded assertion_members [symmetric]]
  have sm: "map_of (members ?s) = map_of (members ?d)" "fst ` set (members ?s) = fst ` set (members ?d)"
    using sm' by (simp_all only: assertion_members members.simps)
  have m: "member ?s k' = member ?d k'" for k' using sm(1) by (simp only: member_def)
  obtain gs where gs: "?s = DObj gs" by (simp add: assertion_members)
  have "documentValid ?s" using valid documentValid_cong [OF gs assertion_members sm] by blast
  moreover have "parseUnambiguousJSON nr (utf8_bytes encoded) = Some ?s" by (rule parse_canonical [OF enc ok])
  ultimately have payload: "read_payload nr (utf8_bytes encoded) = Some (?s, encoded)"
    using enc utf8_roundtrip [OF whole] by (simp add: read_payload_def canonical_sorted)
  have safe: "doc_safe (Some (DInt (as_issued_at a))) = Some (as_issued_at a)"
    "doc_safe (Some (DInt (as_issued_at a + as_ttl a))) = Some (as_issued_at a + as_ttl a)"
    using valid by (auto simp: documentValid_def member_of_assertion doc_safe_def split: if_splits)
  have key: "string_at ?s ''key_id'' = as_key_id a" "replay_key ?s = as_key_id a @ [58] @ as_nonce a"
    by (simp_all add: string_at_def replay_key_def m member_of_assertion doc_string_def or_empty_string)
  have binds: "binds tr challenge (now_ms div 1000) k ?s b"
    using fit by (auto simp: request_matches_def binds_def text_is_def number_at_def m member_of_assertion safe split: option.splits if_splits)
  have epoch: "doc_string (member ?s ''session_epoch'') = as_session_epoch a"
    by (cases "as_session_epoch a") (simp_all add: m member_of_assertion doc_string_def)
  show ?thesis using fit binds scheme(1)
    by (simp add: check_def split payload check_document_def key epoch request_matches_def Let_def)
qed

text \<open>
  C17. What \<open>createSignedAssertion\<close> makes is accepted by \<open>verify\<close>: if the signature scheme accepts
  its own 64-byte signatures, a verifier that trusts the key and is asked about the request that
  was signed, within the window, grants it to that principal and binds it to the signed epoch.
\<close>

theorem signed_assertion_accepted:
  assumes made: "createSignedAssertion sha signs a = Some header" "bodyDigest sha (as_body a) = Some h"
    and texts: "list_all units_ok (assertion_texts a)"
    and scheme: "\<And>m. ed_ok m pub (signs m)" "\<And>m. length (signs m) = 64 \<and> list_all byte_ok (signs m)"
    and room: "int (length header) \<le> 8192"
    and fit: "request_matches h tr challenge capacity (now_ms div 1000) b a pub k vf"
  shows "\<exists>r. fst (check nr ed_ok tr challenge capacity consume now_ms (Some header) b vf) = Granted r
     \<and> pr_id (vd_principal r) = as_principal_id a \<and> pr_key_id (vd_principal r) = as_key_id a
     \<and> pr_audience (vd_principal r) = as_audience a \<and> pr_operator (vd_principal r) = tk_operator k
     \<and> vd_action r = as_action a \<and> vd_session_epoch r = as_session_epoch a"
  using assms by (rule assertion_accepted)

text \<open>A signer, a trust with its key, and an assertion for a request on a session.\<close>

definition sample_signs :: "units \<Rightarrow> bytes" where
  "sample_signs m = replicate 64 (int (length m) mod 256)"

definition sample_ed_ok :: "units \<Rightarrow> units \<Rightarrow> bytes \<Rightarrow> bool" where
  "sample_ed_ok m pub s \<longleftrightarrow> pub = units_of ''key'' \<and> s = sample_signs m"

definition sample_sha :: "units \<Rightarrow> units" where
  "sample_sha s = replicate 64 97"

definition sample_key :: trust_key where
  "sample_key = \<lparr>tk_id = units_of ''ada'', tk_operator = False, tk_public = units_of ''key'',
     tk_grants = [\<lparr>gr_action = units_of ''session.input'', gr_targets = [units_of ''s1'']\<rparr>,
       \<lparr>gr_action = units_of ''session.observe'', gr_targets = [units_of ''s1'']\<rparr>]\<rparr>"

definition sample_trust :: trust where
  "sample_trust = \<lparr>tr_audience = units_of ''host'', tr_keys = [(units_of ''k1'', sample_key)], tr_actions = map units_of HTTP_ACTIONS\<rparr>"

definition sample_assertion :: assertion where
  "sample_assertion = \<lparr>as_key_id = units_of ''k1'', as_principal_id = units_of ''ada'', as_audience = units_of ''host'',
     as_challenge = replicate 16 65, as_method = units_of ''POST'', as_target = units_of ''/api/sessions/s1/submit'',
     as_body = None, as_action = units_of ''session.input'', as_nonce = replicate 16 66, as_issued_at = 1000, as_ttl = 30,
     as_session_epoch = Some (units_of ''e1''), as_transport = units_of ''http''\<rparr>"

definition sample_binding :: binding where
  "sample_binding = \<lparr>bi_method = units_of ''POST'', bi_target = units_of ''/api/sessions/s1/submit'',
     bi_body_sha256 = replicate 64 97, bi_action = units_of ''session.input'', bi_grant_target = units_of ''s1'',
     bi_transport = None, bi_session_epoch = Some (units_of ''e1'')\<rparr>"

definition sample_verifier :: verifier where
  "sample_verifier = \<lparr>vf_latest = 900, vf_replay = []\<rparr>"

definition sample_header :: "assertion \<Rightarrow> units" where
  "sample_header a = (case createSignedAssertion sample_sha sample_signs a of None \<Rightarrow> [] | Some h \<Rightarrow> h)"

lemma sample_signed:
  assumes valid: "documentValid (assertion_document (replicate 64 97) a)"
    and size: "case canonicalJSON (assertion_document (replicate 64 97) a) of None \<Rightarrow> False | Some e \<Rightarrow> byte_length e \<le> 3000"
    and texts: "list_all units_ok (assertion_texts a)" and body: "bodyDigest sample_sha (as_body a) = Some (replicate 64 97)"
  shows "createSignedAssertion sample_sha sample_signs a = Some (sample_header a) \<and> int (length (sample_header a)) \<le> 8192"
proof -
  let ?d = "assertion_document (replicate 64 97) a"
  obtain e where e: "canonicalJSON ?d = Some e" "byte_length e \<le> 3000" using size by (auto split: option.splits)
  have "doc_ok (\<lambda>_. None) ?d" by (rule assertion_ok [OF valid texts])
  from whole_doc [OF this] have w: "whole_text e" using e(1) by (auto simp: canonicalJSON_characterised split: if_splits)
  have m: "createSignedAssertion sample_sha sample_signs a
      = Some (units_of ''v1.'' @ b64_encode (utf8_bytes e) @ [46] @ b64_encode (sample_signs (DOMAIN @ e)))"
    using valid e(1) body by (simp add: createSignedAssertion_def)
  then show ?thesis
    using length_utf8 [OF w] e(2) by (simp add: sample_header_def b64_length sample_signs_def units_of_def)
qed

lemma sample_scheme:
  "sample_ed_ok m (units_of ''key'') (sample_signs m)"
  "length (sample_signs m) = 64 \<and> list_all byte_ok (sample_signs m)"
  by (simp_all add: sample_ed_ok_def sample_signs_def byte_ok_def list_all_length)

lemma sample_texts: "list_all units_ok (assertion_texts sample_assertion)"
  and sample_body: "bodyDigest sample_sha (as_body sample_assertion) = Some (replicate 64 97)"
  by code_simp+

lemma sample_made: "createSignedAssertion sample_sha sample_signs sample_assertion = Some (sample_header sample_assertion)
    \<and> int (length (sample_header sample_assertion)) \<le> 8192"
  by (rule sample_signed [OF _ _ sample_texts sample_body]) code_simp+

lemma sample_fit: "request_matches (replicate 64 97) sample_trust (replicate 16 65) 4 1010 sample_binding sample_assertion (units_of ''key'')
    sample_key sample_verifier"
  by code_simp

definition sample_check :: "verified checked" where
  "sample_check = fst (check (\<lambda>_. None) sample_ed_ok sample_trust (replicate 16 65) 4 True 1010999 (Some (sample_header sample_assertion))
     sample_binding sample_verifier)"

theorem signed_assertion_accepted_witness:
  "list_ex (\<lambda>r. pr_id (vd_principal r) = units_of ''ada'' \<and> vd_session_epoch r = Some (units_of ''e1''))
     (case sample_check of Granted r \<Rightarrow> [r] | Denied c n \<Rightarrow> [])"
proof -
  have "request_matches (replicate 64 97) sample_trust (replicate 16 65) 4 (1010999 div 1000) sample_binding sample_assertion
      (units_of ''key'') sample_key sample_verifier" using sample_fit by simp
  from signed_assertion_accepted [where ed_ok = sample_ed_ok and nr = "\<lambda>_. None" and consume = True,
      OF conjunct1 [OF sample_made] sample_body sample_texts sample_scheme conjunct2 [OF sample_made] this]
  show ?thesis by (auto simp: sample_assertion_def sample_check_def)
qed

lemma sample_granted: "\<exists>r. sample_check = Granted r"
proof -
  have "request_matches (replicate 64 97) sample_trust (replicate 16 65) 4 (1010999 div 1000) sample_binding sample_assertion
      (units_of ''key'') sample_key sample_verifier" using sample_fit by simp
  from assertion_accepted [where ed_ok = sample_ed_ok and nr = "\<lambda>_. None" and consume = True,
      OF conjunct1 [OF sample_made] sample_body sample_texts sample_scheme conjunct2 [OF sample_made] this]
  show ?thesis by (auto simp: sample_check_def)
qed

lemma granted_core:
  assumes "fst (check nr ed_ok tr challenge capacity consume now_ms header b vf) = Granted r"
  shows "\<exists>d k s. jm_get (tr_keys tr) (pr_key_id (vd_principal r)) = Some k \<and> tk_id k = pr_id (vd_principal r)
     \<and> ed_ok (DOMAIN @ doc_text d) (tk_public k) s \<and> unambiguous d
     \<and> text_is d ''key_id'' (pr_key_id (vd_principal r)) \<and> text_is d ''principal_id'' (tk_id k)
     \<and> text_is d ''method'' (bi_method b) \<and> text_is d ''target'' (bi_target b) \<and> text_is d ''action'' (bi_action b)
     \<and> text_is d ''body_sha256'' (bi_body_sha256 b) \<and> text_is d ''challenge'' challenge
     \<and> (bi_session_epoch b = None \<or> text_is d ''session_epoch'' (the (bi_session_epoch b)))
     \<and> number_at d ''issued_at'' \<le> now_ms div 1000 \<and> now_ms div 1000 < number_at d ''expires_at''
     \<and> number_at d ''expires_at'' \<le> number_at d ''issued_at'' + 60 \<and> grants k b
     \<and> vd_action r = bi_action b \<and> vd_target r = bi_grant_target b
     \<and> (bi_session_epoch b = None \<or> vd_session_epoch r = bi_session_epoch b)"
proof -
  from assms obtain payload s d encoded where rd: "read_payload nr payload = Some (d, encoded)"
    and cd: "fst (check_document ed_ok tr challenge capacity consume (now_ms div 1000) b d encoded s (vf\<lparr>vf_latest := now_ms div 1000\<rparr>)) = Granted r"
    by (auto simp: check_def proof_denied_def Let_def split: option.splits prod.splits if_splits)
  from rd have p: "parseUnambiguousJSON nr payload = Some d" "canonicalJSON d = Some encoded" "documentValid d"
    by (auto simp: read_payload_def split: option.splits if_splits)
  have enc: "encoded = doc_text d" using p(2) by (auto simp: canonicalJSON_characterised split: if_splits)
  have un: "unambiguous d" using parsed_unambiguous [OF p(1)] by simp
  have key: "text_is d ''key_id'' (string_at d ''key_id'')"
    using p(3) by (auto simp: documentValid_def string_and_def text_is_def string_at_def doc_string_def split: option.splits jdoc.splits)
  have win: "number_at d ''expires_at'' \<le> number_at d ''issued_at'' + 60"
    using p(3) by (auto simp: documentValid_def number_at_def split: option.splits)
  from cd obtain k where k: "jm_get (tr_keys tr) (string_at d ''key_id'') = Some k" "binds tr challenge (now_ms div 1000) k d b"
    "ed_ok (DOMAIN @ encoded) (tk_public k) s" "grants k b" "pr_key_id (vd_principal r) = string_at d ''key_id''" "pr_id (vd_principal r) = tk_id k"
    "vd_action r = bi_action b" "vd_target r = bi_grant_target b" "vd_session_epoch r = doc_string (member d ''session_epoch'')"
    by (auto simp: check_document_def proof_denied_def Let_def split: option.splits if_splits)
  have "bi_session_epoch b = None \<or> text_is d ''session_epoch'' (the (bi_session_epoch b))"
    using k(2) by (cases "bi_session_epoch b") (simp_all add: binds_def)
  moreover from this have "bi_session_epoch b = None \<or> vd_session_epoch r = bi_session_epoch b"
    using k(9) by (cases "bi_session_epoch b") (auto simp: text_is_def doc_string_def)
  ultimately show ?thesis using k(1-8) key win un unfolding enc binds_def by metis
qed

text \<open>
  What a verifier grants was signed for exactly the request at hand: the signature it checked,
  with the key of the principal it names, covers the canonical text of an unambiguous document
  whose method, target, action, transport, body digest and (when the route asks for one) session
  epoch are those of the request, within a window of at most sixty seconds around the clock.
\<close>

theorem granted_proof_was_signed:
  assumes "fst (check nr ed_ok tr challenge capacity consume now_ms header b vf) = Granted r"
  shows "\<exists>d k s. jm_get (tr_keys tr) (pr_key_id (vd_principal r)) = Some k \<and> tk_id k = pr_id (vd_principal r)
     \<and> ed_ok (DOMAIN @ doc_text d) (tk_public k) s \<and> unambiguous d
     \<and> text_is d ''key_id'' (pr_key_id (vd_principal r)) \<and> text_is d ''principal_id'' (tk_id k)
     \<and> text_is d ''method'' (bi_method b) \<and> text_is d ''target'' (bi_target b) \<and> text_is d ''action'' (bi_action b)
     \<and> text_is d ''body_sha256'' (bi_body_sha256 b) \<and> text_is d ''challenge'' challenge
     \<and> (bi_session_epoch b = None \<or> text_is d ''session_epoch'' (the (bi_session_epoch b)))
     \<and> number_at d ''issued_at'' \<le> now_ms div 1000 \<and> now_ms div 1000 < number_at d ''expires_at''
     \<and> number_at d ''expires_at'' \<le> number_at d ''issued_at'' + 60 \<and> grants k b"
  using granted_core [OF assms] by blast

theorem granted_proof_was_signed_witness:
  "list_ex (\<lambda>r. jm_get (tr_keys sample_trust) (pr_key_id (vd_principal r)) \<noteq> None)
     (case sample_check of Granted r \<Rightarrow> [r] | Denied c n \<Rightarrow> [])"
proof -
  obtain r where r: "sample_check = Granted r" using sample_granted by blast
  from granted_proof_was_signed [OF r [unfolded sample_check_def]] show ?thesis unfolding r by auto
qed

end
