(* ===== verification/Principal_Http.thy ===== *)
theory Principal_Http
  imports Principal_Assertion
begin

text \<open>
  \<open>src/principal/http.js\<close>: which action a request asks for, the owner a session stores, and the
  authorization of requests and of web sockets on top of the verifier. A session is the document the
  store holds for it; the store maps session ids to sessions.
\<close>

section \<open>Actions\<close>

definition reserved_paths :: "units list" where
  "reserved_paths = map units_of [''register'', ''spawn'', ''broadcast'', ''multicast'', ''submit-all'', ''clean'']"

definition session_id_ok :: "units \<Rightarrow> bool" where
  "session_id_ok s \<longleftrightarrow> lower_text s \<notin> set reserved_paths \<and> s \<noteq> [] \<and> byte_length s \<le> 128
     \<and> \<not> list_ex (\<lambda>c. c = 47 \<or> c = 92 \<or> c < 32 \<or> c = 127) s \<and> s \<noteq> [46] \<and> s \<noteq> [46, 46]"

record resolved =
  ra_action :: string
  ra_target :: units
  ra_operator_only :: bool
  ra_creation :: bool
  ra_explicit_inject :: bool
  ra_epoch_required :: bool
  ra_forwarded :: bool
  ra_read_only :: bool

definition plain_action :: "string \<Rightarrow> units \<Rightarrow> resolved" where
  "plain_action a t = \<lparr>ra_action = a, ra_target = t, ra_operator_only = False, ra_creation = False,
     ra_explicit_inject = False, ra_epoch_required = False, ra_forwarded = False, ra_read_only = False\<rparr>"

definition epoch_action :: "string \<Rightarrow> units \<Rightarrow> resolved" where
  "epoch_action a t = (plain_action a t)\<lparr>ra_epoch_required := True\<rparr>"

definition read_action :: "string \<Rightarrow> units \<Rightarrow> resolved" where
  "read_action a t = (plain_action a t)\<lparr>ra_read_only := True\<rparr>"

text \<open>The routes of one session, by method and what follows its id.\<close>

definition session_action :: "units \<Rightarrow> units list \<Rightarrow> units \<Rightarrow> resolved option" where
  "session_action method suffix t =
     (let get = (method = units_of ''GET''); post = (method = units_of ''POST''); is = (\<lambda>s. suffix = [units_of s]) in
      if get \<and> (suffix = [] \<or> is ''diagnostics'' \<or> is ''handshake'' \<or> is ''screen'') then Some (read_action ''session.inspect'' t)
      else if get \<and> is ''mailbox'' then Some (read_action ''mailbox.read'' t)
      else if (get \<or> post) \<and> is ''handoff'' then Some (epoch_action ''session.takeover'' t)
      else if post \<and> is ''takeover'' then Some (epoch_action ''session.takeover'' t)
      else if post \<and> is ''inject'' then Some ((plain_action ''session.inject'' t)\<lparr>ra_explicit_inject := True\<rparr>)
      else if post \<and> is ''events'' then Some (epoch_action ''session.publish'' t)
      else if post \<and> is ''state'' then Some (epoch_action ''session.state'' t)
      else if post \<and> is ''submit'' then Some (epoch_action ''session.input'' t)
      else if post \<and> suffix = [units_of ''mailbox'', units_of ''ack''] then Some (epoch_action ''mailbox.ack'' t)
      else if post \<and> is ''lease'' then Some (epoch_action ''mailbox.renew'' t)
      else if (method = units_of ''DELETE'' \<and> suffix = []) \<or> (post \<and> is ''kill'') then Some (epoch_action ''session.destroy'' t)
      else if method = units_of ''PATCH'' \<and> suffix = [] then Some (epoch_action ''session.rename'' t)
      else None)"

definition decoded_id :: "units \<Rightarrow> units option" where
  "decoded_id s = (case decodeURIComponent s of None \<Rightarrow> None | Some t \<Rightarrow> if session_id_ok t then Some t else None)"

definition creation_action :: "bool \<Rightarrow> jdoc option \<Rightarrow> resolved option" where
  "creation_action register body = (case Option.bind body (\<lambda>v. doc_string (member v ''session_id'')) of None \<Rightarrow> None
     | Some t \<Rightarrow> if \<not> session_id_ok t then None
         else Some ((plain_action (if register then ''session.register'' else ''session.create'') t)
                \<lparr>ra_creation := True, ra_operator_only := \<not> register\<rparr>))"

text \<open>The route of a path: by the whole path, then by its segments.\<close>

definition session_suffixes :: "units list list" where
  "session_suffixes = [] # [units_of ''mailbox'', units_of ''ack''] # map (\<lambda>s. [units_of s])
     [''diagnostics'', ''handshake'', ''screen'', ''inject'', ''state'', ''events'', ''submit'', ''kill'', ''takeover'',
      ''handoff'', ''mailbox'', ''lease'']"

definition segment_route :: "units \<Rightarrow> units list \<Rightarrow> resolved option" where
  "segment_route method segs =
     (case segs of
        [a, b, c, d, i, z] \<Rightarrow>
          if method = units_of ''POST'' \<and> a = [] \<and> b = units_of ''api'' \<and> c = units_of ''forwarded'' \<and> d = units_of ''sessions''
             \<and> i \<noteq> [] \<and> z = units_of ''inject''
          then map_option (\<lambda>t. (epoch_action ''session.forwarded_inject'' t)\<lparr>ra_explicit_inject := True, ra_forwarded := True\<rparr>) (decoded_id i)
          else if a = [] \<and> b = units_of ''api'' \<and> c = units_of ''sessions'' \<and> d \<noteq> [] \<and> [i, z] \<in> set session_suffixes
          then Option.bind (decoded_id d) (session_action method [i, z]) else None
      | a # b # c # d # suffix \<Rightarrow>
          if a = [] \<and> b = units_of ''api'' \<and> c = units_of ''sessions'' \<and> d \<noteq> [] \<and> suffix \<in> set session_suffixes
          then Option.bind (decoded_id d) (session_action method suffix) else None
      | _ \<Rightarrow> None)"

definition path_route :: "units \<Rightarrow> jdoc option \<Rightarrow> units \<Rightarrow> resolved option" where
  "path_route method body path =
     (if method = units_of ''GET'' \<and> path = units_of ''/api/meta'' then Some (plain_action ''daemon.inspect'' (units_of ''daemon''))
      else if method = units_of ''GET'' \<and> path = units_of ''/api/sessions''
      then Some ((plain_action ''session.list'' (units_of ''*''))\<lparr>ra_operator_only := True\<rparr>)
      else if method = units_of ''POST'' \<and> path = units_of ''/api/daemon/stop''
      then Some ((plain_action ''daemon.stop'' (units_of ''daemon''))\<lparr>ra_operator_only := True\<rparr>)
      else if method = units_of ''POST'' \<and> path = units_of ''/api/sessions/register'' then creation_action True body
      else if method = units_of ''POST'' \<and> path = units_of ''/api/sessions/spawn'' then creation_action False body
      else segment_route method (split_on 47 path))"

definition resolveAction :: "units \<Rightarrow> units \<Rightarrow> jdoc option \<Rightarrow> resolved option" where
  "resolveAction method target body =
     (if validTarget target then path_route method body (takeWhile (\<lambda>c. c \<noteq> 63) target) else None)"

section \<open>Owners and sessions\<close>

definition storedOwningPrincipal :: "jdoc option \<Rightarrow> (units \<times> units) option" where
  "storedOwningPrincipal v = (case v of None \<Rightarrow> None | Some d \<Rightarrow>
     (case (doc_string (member d ''id''), doc_string (member d ''audience'')) of
        (Some i, Some aud) \<Rightarrow> if member d ''source'' = Some (DStr (units_of ''ed25519'')) \<and> identifier_text i
             \<and> aud \<noteq> [] \<and> byte_length aud \<le> 256 then Some (i, aud) else None
      | _ \<Rightarrow> None))"

definition doc_truthy :: "jdoc option \<Rightarrow> bool" where
  "doc_truthy v \<longleftrightarrow> (case v of None \<Rightarrow> False | Some DNull \<Rightarrow> False | Some (DBool b) \<Rightarrow> b | Some (DInt n) \<Rightarrow> n \<noteq> 0
     | Some (DStr s) \<Rightarrow> s \<noteq> [] | Some _ \<Rightarrow> True)"

type_synonym store = "(units, jdoc) jsmap"

definition is_object :: "jdoc \<Rightarrow> bool" where
  "is_object v \<longleftrightarrow> (case v of DObj fs \<Rightarrow> True | DArr xs \<Rightarrow> True | _ \<Rightarrow> False)"

definition ownSession :: "store \<Rightarrow> units \<Rightarrow> jdoc option" where
  "ownSession st i = (case jm_get st i of None \<Rightarrow> None | Some v \<Rightarrow> if is_object v then Some v else None)"

definition session_epoch_of :: "jdoc option \<Rightarrow> units option" where
  "session_epoch_of s = Option.bind s (\<lambda>v. doc_string (member v ''sessionEpoch''))"

definition session_owner :: "jdoc option \<Rightarrow> (units \<times> units) option" where
  "session_owner s = storedOwningPrincipal (Option.bind s (\<lambda>v. member v ''owningPrincipal''))"

definition owned_by :: "jdoc option \<Rightarrow> principal \<Rightarrow> bool" where
  "owned_by s p \<longleftrightarrow> session_owner s = Some (pr_id p, pr_audience p)"

definition closing :: "jdoc option \<Rightarrow> bool" where
  "closing s \<longleftrightarrow> doc_truthy (Option.bind s (\<lambda>v. member v ''isClosing''))"

definition active_handoff :: "jdoc option \<Rightarrow> bool" where
  "active_handoff s \<longleftrightarrow> (case Option.bind s (\<lambda>v. member v ''cooperativeHandoff'') of None \<Rightarrow> False
     | Some h \<Rightarrow> doc_truthy (Some h)
         \<and> member h ''state'' \<notin> {Some (DStr (units_of ''committed'')), Some (DStr (units_of ''refused''))})"

section \<open>Authorization of a request\<close>

record request =
  rq_method :: units
  rq_target :: units
  rq_content :: http_body
  rq_proof_headers :: nat
  rq_proof :: "units option"

text \<open>What a request carries once it is authorized: the private context the routes check again.\<close>

record request_context =
  cx_principal :: principal
  cx_action :: units
  cx_target :: units
  cx_method :: units
  cx_request_target :: units
  cx_body_sha256 :: units
  cx_session_epoch :: "units option"

definition daemon_actions :: "string list" where
  "daemon_actions = [''daemon.inspect'', ''session.list'', ''daemon.stop'']"

definition text_member :: "jdoc option \<Rightarrow> string \<Rightarrow> units option" where
  "text_member v k = Option.bind v (\<lambda>d. doc_string (member d k))"

text \<open>The checks after the proof: the first that fails, if any.\<close>

definition operator_needed :: "resolved \<Rightarrow> jdoc option \<Rightarrow> jdoc option \<Rightarrow> bool" where
  "operator_needed a s body \<longleftrightarrow> ra_operator_only a \<or> (ra_action a = ''session.register''
     \<and> (case s of Some v \<Rightarrow> text_member (Some v) ''type'' \<noteq> Some (units_of ''mailbox'')
        | None \<Rightarrow> text_member body ''delivery_type'' \<noteq> Some (units_of ''mailbox'')))"

definition rename_granted :: "trust \<Rightarrow> principal \<Rightarrow> jdoc option \<Rightarrow> bool" where
  "rename_granted tr p body \<longleftrightarrow> (case (text_member body ''new_id'', jm_get (tr_keys tr) (pr_key_id p)) of
     (Some next_id, Some k) \<Rightarrow> session_id_ok next_id
        \<and> list_ex (\<lambda>g. gr_action g = units_of ''session.rename'' \<and> next_id \<in> set (gr_targets g)) (tk_grants k)
   | _ \<Rightarrow> False)"

definition authorize_refusal :: "trust \<Rightarrow> resolved \<Rightarrow> jdoc option \<Rightarrow> jdoc option \<Rightarrow> verified \<Rightarrow> (string \<times> int) option" where
  "authorize_refusal tr a s body v =
     (let p = vd_principal v in
      if ra_forwarded a \<and> (text_member body ''expected_epoch'' = None \<or> text_member body ''expected_epoch'' \<noteq> session_epoch_of s)
      then Some (''PRINCIPAL_SESSION_EPOCH_MISMATCH'', 409)
      else if operator_needed a s body \<and> \<not> pr_operator p then Some (''PRINCIPAL_OPERATOR_REQUIRED'', 403)
      else if s \<noteq> None \<and> \<not> ra_explicit_inject a \<and> \<not> owned_by s p \<and> \<not> (ra_read_only a \<and> pr_operator p)
      then Some (''PRINCIPAL_SESSION_OWNER_REQUIRED'', 403)
      else if \<not> (s \<noteq> None \<and> \<not> ra_explicit_inject a) \<and> s = None \<and> \<not> ra_creation a \<and> ra_action a \<notin> set daemon_actions
      then Some (''PRINCIPAL_SESSION_NOT_FOUND'', 404)
      else if closing s \<and> \<not> ra_read_only a then Some (''SESSION_CLOSING'', 409)
      else if vd_session_epoch v \<noteq> None \<and> s \<noteq> None \<and> vd_session_epoch v \<noteq> session_epoch_of s
      then Some (''PRINCIPAL_SESSION_EPOCH_MISMATCH'', 409)
      else if ra_action a = ''session.rename'' \<and> \<not> rename_granted tr p body then Some (''PRINCIPAL_GRANT_DENIED'', 403)
      else None)"

text \<open>What an authenticator is made of: its parameters, the trust, its challenge and its capacity.\<close>

record authenticator =
  au_nr :: "units \<Rightarrow> units option"
  au_sha :: "units \<Rightarrow> units"
  au_ed_ok :: "units \<Rightarrow> units \<Rightarrow> bytes \<Rightarrow> bool"
  au_trust :: trust
  au_challenge :: units
  au_capacity :: int

definition au_verify :: "authenticator \<Rightarrow> int \<Rightarrow> units option \<Rightarrow> binding \<Rightarrow> verifier \<Rightarrow> verified checked \<times> verifier" where
  "au_verify au now_ms header b vf =
     check (au_nr au) (au_ed_ok au) (au_trust au) (au_challenge au) (au_capacity au) True now_ms header b vf"

definition request_binding :: "request \<Rightarrow> units \<Rightarrow> resolved \<Rightarrow> units option \<Rightarrow> binding" where
  "request_binding req body_hash a epoch = \<lparr>bi_method = rq_method req, bi_target = rq_target req, bi_body_sha256 = body_hash,
     bi_action = units_of (ra_action a), bi_grant_target = ra_target a, bi_transport = Some (units_of ''http''), bi_session_epoch = epoch\<rparr>"

definition authorize :: "authenticator \<Rightarrow> store \<Rightarrow> int \<Rightarrow> request \<Rightarrow> verifier \<Rightarrow> request_context checked \<times> verifier" where
  "authorize au st now_ms req vf =
     (case requestBodyDigest (au_nr au) (au_sha au) (rq_content req) of
       None \<Rightarrow> (Denied ''PRINCIPAL_ENCODING_INVALID'' 400, vf)
     | Some body_hash \<Rightarrow>
       (case resolveAction (rq_method req) (rq_target req) (hb_body (rq_content req)) of
         None \<Rightarrow> (Denied ''PRINCIPAL_ACTION_DENIED'' 403, vf)
       | Some a \<Rightarrow>
         if rq_proof_headers req > 1 then (Denied ''PRINCIPAL_HEADER_INVALID'' 400, vf)
         else
           let s = (if ra_action a \<in> set daemon_actions then None else ownSession st (ra_target a));
               bound = ra_epoch_required a \<or> (ra_creation a \<and> s \<noteq> None) in
           if bound \<and> session_epoch_of s = None then (Denied ''PRINCIPAL_SESSION_IDENTITY_UNAVAILABLE'' 403, vf)
           else
             let epoch = (if bound then session_epoch_of s else None) in
             case au_verify au now_ms (rq_proof req) (request_binding req body_hash a epoch) vf of
               (Denied code status, vf') \<Rightarrow> (Denied code status, vf')
             | (Granted v, vf') \<Rightarrow>
               (case authorize_refusal (au_trust au) a s (hb_body (rq_content req)) v of
                  Some (code, status) \<Rightarrow> (Denied code status, vf')
                | None \<Rightarrow> (Granted \<lparr>cx_principal = vd_principal v, cx_action = vd_action v, cx_target = vd_target v,
                     cx_method = rq_method req, cx_request_target = rq_target req, cx_body_sha256 = body_hash,
                     cx_session_epoch = vd_session_epoch v\<rparr>, vf'))))"

text \<open>\<open>verifiedRequestPrincipal\<close>: what a route reads, checked against the request once more.\<close>

definition verifiedRequestPrincipal ::
    "authenticator \<Rightarrow> request \<Rightarrow> request_context option \<Rightarrow> principal option \<Rightarrow> units option \<Rightarrow> units option \<Rightarrow> principal option" where
  "verifiedRequestPrincipal au req cx authenticated action target =
     (case cx of None \<Rightarrow> None
      | Some c \<Rightarrow>
        if authenticated \<noteq> Some (cx_principal c) \<or> cx_method c \<noteq> rq_method req \<or> cx_request_target c \<noteq> rq_target req
           \<or> (action \<noteq> None \<and> action \<noteq> Some (cx_action c)) \<or> (target \<noteq> None \<and> target \<noteq> Some (cx_target c)) then None
        else if requestBodyDigest (au_nr au) (au_sha au) (rq_content req) \<noteq> Some (cx_body_sha256 c) then None
        else Some (cx_principal c))"

definition verifiedRequestBinding :: "authenticator \<Rightarrow> request \<Rightarrow> request_context option \<Rightarrow> principal option
    \<Rightarrow> (principal \<times> units \<times> units \<times> units option) option" where
  "verifiedRequestBinding au req cx authenticated =
     map_option (\<lambda>p. (p, cx_action (the cx), cx_target (the cx), cx_session_epoch (the cx)))
       (verifiedRequestPrincipal au req cx authenticated None None)"

section \<open>Authorization of a web socket\<close>

record upgrade =
  up_method :: units
  up_url :: units
  up_proof_headers :: nat
  up_proof :: "units option"
  up_transfer_encoding :: bool
  up_content_length :: "units option"

text \<open>The id in \<open>/^prefix([^/?]+)$/\<close>, and the kinds of socket with their action and rules.\<close>

definition socket_id :: "string \<Rightarrow> units \<Rightarrow> units option" where
  "socket_id prefix url = (let p = units_of prefix; r = drop (length p) url in
     if take (length p) url = p \<and> r \<noteq> [] \<and> 47 \<notin> set r \<and> 63 \<notin> set r then Some r else None)"

datatype socket_kind = OwnerSocket | BusSocket | InputSocket | ApplicationEventsSocket | EventsSocket | ObserverSocket

fun socket_prefix :: "socket_kind \<Rightarrow> string" where
  "socket_prefix OwnerSocket = ''/api/owner/sessions/''"
| "socket_prefix BusSocket = ''/api/bus/sessions/''"
| "socket_prefix InputSocket = ''/api/input/sessions/''"
| "socket_prefix ApplicationEventsSocket = ''/api/application-events/sessions/''"
| "socket_prefix EventsSocket = ''/api/events/sessions/''"
| "socket_prefix ObserverSocket = ''/api/observe/sessions/''"

fun socket_action :: "socket_kind \<Rightarrow> string" where
  "socket_action OwnerSocket = ''session.owner''"
| "socket_action BusSocket = ''session.bus''"
| "socket_action InputSocket = ''session.input_stream''"
| "socket_action ApplicationEventsSocket = ''session.app_events''"
| "socket_action EventsSocket = ''session.events''"
| "socket_action ObserverSocket = ''session.observe''"

definition delegated :: "socket_kind \<Rightarrow> bool" where
  "delegated k \<longleftrightarrow> k = BusSocket \<or> k = InputSocket"

definition authorizeSocket :: "authenticator \<Rightarrow> store \<Rightarrow> int \<Rightarrow> socket_kind \<Rightarrow> upgrade \<Rightarrow> verifier
    \<Rightarrow> (verified \<times> units) checked \<times> verifier" where
  "authorizeSocket au st now_ms kind up vf =
     (case (if up_method up \<noteq> units_of ''GET'' \<or> \<not> validTarget (up_url up) then None
            else Option.bind (socket_id (socket_prefix kind) (up_url up)) decoded_id) of
       None \<Rightarrow> (Denied ''PRINCIPAL_ACTION_DENIED'' 403, vf)
     | Some i \<Rightarrow>
       if up_proof_headers up > 1 \<or> up_transfer_encoding up \<or> up_content_length up \<notin> {None, Some [], Some [48]}
       then (Denied ''PRINCIPAL_HEADER_INVALID'' 400, vf)
       else
         let s = ownSession st i in
         if s = None \<or> closing s \<or> (kind = OwnerSocket \<and> active_handoff s) \<or> session_epoch_of s = None
            \<or> (kind = OwnerSocket \<and> text_member s ''type'' \<noteq> Some (units_of ''wrapped''))
         then (Denied ''PRINCIPAL_SESSION_NOT_FOUND'' 404, vf)
         else
           let b = \<lparr>bi_method = units_of ''GET'', bi_target = up_url up,
                 bi_body_sha256 = (case bodyDigest (au_sha au) (Some (DObj [])) of None \<Rightarrow> [] | Some h \<Rightarrow> h),
                 bi_action = units_of (socket_action kind), bi_grant_target = i,
                 bi_transport = Some (units_of ''websocket''), bi_session_epoch = session_epoch_of s\<rparr> in
           case au_verify au now_ms (up_proof up) b vf of
             (Denied code status, vf') \<Rightarrow> (Denied code status, vf')
           | (Granted v, vf') \<Rightarrow>
             if \<not> delegated kind \<and> \<not> owned_by s (vd_principal v) \<and> (kind = OwnerSocket \<or> \<not> pr_operator (vd_principal v))
             then (Denied ''PRINCIPAL_SESSION_OWNER_REQUIRED'' 403, vf')
             else (Granted (v, i), vf'))"

section \<open>From the environment\<close>

text \<open>
  The two ways a daemon gets an authenticator: \<open>None\<close> is a refusal to start, \<open>Some None\<close> is the
  feature switched off. \<open>loaded\<close> is what reading and validating the trust file gives.
\<close>

definition createPrincipalAuthenticationFromEnvironment ::
    "units option \<Rightarrow> trust option \<Rightarrow> int option \<Rightarrow> units \<Rightarrow> int \<Rightarrow> (trust \<times> verifier) option option" where
  "createPrincipalAuthenticationFromEnvironment mode loaded capacity challenge now_ms =
     (if mode \<in> {None, Some [], Some (units_of ''legacy'')} then Some None
      else if mode \<noteq> Some (units_of ''strict'') then None
      else case (loaded, createPrincipalVerifier challenge (case capacity of None \<Rightarrow> 4096 | Some n \<Rightarrow> n) now_ms) of
          (Some tr, Some vf) \<Rightarrow> Some (Some (tr, vf)) | _ \<Rightarrow> None)"

definition createSupervisionAuthenticationFromEnvironment ::
    "units option \<Rightarrow> units option \<Rightarrow> trust option \<Rightarrow> units \<Rightarrow> int \<Rightarrow> (trust \<times> verifier) option option" where
  "createSupervisionAuthenticationFromEnvironment file mode loaded challenge now_ms =
     (if file \<in> {None, Some []} then Some None
      else if mode = Some (units_of ''strict'') then None
      else case (loaded, createPrincipalVerifier challenge 4096 now_ms) of
          (Some tr, Some vf) \<Rightarrow> Some (Some (tr, vf)) | _ \<Rightarrow> None)"

section \<open>Properties\<close>

text \<open>A grant rests on a signature over this request, by the key of the principal it names.\<close>

definition signed_for :: "authenticator \<Rightarrow> units \<Rightarrow> units \<Rightarrow> units \<Rightarrow> units \<Rightarrow> principal \<Rightarrow> bool" where
  "signed_for au method target action body_hash p \<longleftrightarrow>
     (\<exists>d k s. jm_get (tr_keys (au_trust au)) (pr_key_id p) = Some k \<and> tk_id k = pr_id p
        \<and> au_ed_ok au (DOMAIN @ doc_text d) (tk_public k) s \<and> text_is d ''method'' method \<and> text_is d ''target'' target
        \<and> text_is d ''action'' action \<and> text_is d ''body_sha256'' body_hash)"

lemma verify_signed:
  assumes "au_verify au now_ms header b vf = (Granted v, vf')"
  shows "signed_for au (bi_method b) (bi_target b) (bi_action b) (bi_body_sha256 b) (vd_principal v)"
    "vd_action v = bi_action b" "vd_target v = bi_grant_target b" "bi_session_epoch b = None \<or> vd_session_epoch v = bi_session_epoch b"
proof -
  have "fst (check (au_nr au) (au_ed_ok au) (au_trust au) (au_challenge au) (au_capacity au) True now_ms header b vf) = Granted v"
    using assms by (simp add: au_verify_def)
  from granted_core [OF this] show
    "signed_for au (bi_method b) (bi_target b) (bi_action b) (bi_body_sha256 b) (vd_principal v)"
    "vd_action v = bi_action b" "vd_target v = bi_grant_target b" "bi_session_epoch b = None \<or> vd_session_epoch v = bi_session_epoch b"
    unfolding signed_for_def by blast+
qed

definition target_session :: "store \<Rightarrow> resolved \<Rightarrow> jdoc option" where
  "target_session st a = (if ra_action a \<in> set daemon_actions then None else ownSession st (ra_target a))"

definition epoch_bound :: "resolved \<Rightarrow> jdoc option \<Rightarrow> bool" where
  "epoch_bound a s \<longleftrightarrow> ra_epoch_required a \<or> (ra_creation a \<and> s \<noteq> None)"

text \<open>What a grant takes, by the session it is for.\<close>

definition entitled :: "resolved \<Rightarrow> jdoc option \<Rightarrow> request_context \<Rightarrow> bool" where
  "entitled a session c \<longleftrightarrow> (case session of
       None \<Rightarrow> ra_creation a \<or> ra_action a \<in> set daemon_actions
     | Some s \<Rightarrow> (ra_explicit_inject a \<or> owned_by session (cx_principal c) \<or> (ra_read_only a \<and> pr_operator (cx_principal c)))
         \<and> (\<not> closing session \<or> ra_read_only a)
         \<and> (\<not> epoch_bound a session \<or> (session_epoch_of session \<noteq> None \<and> cx_session_epoch c = session_epoch_of session)))
     \<and> (\<not> ra_operator_only a \<or> pr_operator (cx_principal c))"

lemma if_Some_None: "(if P then Some x else e) = None \<longleftrightarrow> \<not> P \<and> e = None"
  by simp

lemma authorize_refusal_None:
  assumes "authorize_refusal tr a s body v = None"
  shows "\<not> operator_needed a s body \<or> pr_operator (vd_principal v)"
    "s = None \<or> ra_explicit_inject a \<or> owned_by s (vd_principal v) \<or> (ra_read_only a \<and> pr_operator (vd_principal v))"
    "s \<noteq> None \<or> ra_creation a \<or> ra_action a \<in> set daemon_actions" "\<not> closing s \<or> ra_read_only a"
proof -
  note r = assms [unfolded authorize_refusal_def Let_def if_Some_None]
  show "\<not> operator_needed a s body \<or> pr_operator (vd_principal v)" using r by blast
  show "s = None \<or> ra_explicit_inject a \<or> owned_by s (vd_principal v) \<or> (ra_read_only a \<and> pr_operator (vd_principal v))" using r by blast
  show "s \<noteq> None \<or> ra_creation a \<or> ra_action a \<in> set daemon_actions" using r by auto
  show "\<not> closing s \<or> ra_read_only a" using r by blast
qed

lemma authorized_core:
  assumes "authorize au st now_ms req vf = (Granted c, vf')"
  shows "\<exists>a. resolveAction (rq_method req) (rq_target req) (hb_body (rq_content req)) = Some a
     \<and> requestBodyDigest (au_nr au) (au_sha au) (rq_content req) = Some (cx_body_sha256 c)
     \<and> signed_for au (rq_method req) (rq_target req) (units_of (ra_action a)) (cx_body_sha256 c) (cx_principal c)
     \<and> cx_action c = units_of (ra_action a) \<and> cx_target c = ra_target a \<and> entitled a (target_session st a) c"
proof -
  from assms obtain h a where h: "requestBodyDigest (au_nr au) (au_sha au) (rq_content req) = Some h"
    and a: "resolveAction (rq_method req) (rq_target req) (hb_body (rq_content req)) = Some a"
    by (auto simp: authorize_def split: option.splits)
  define s where "s = target_session st a"
  define epoch where "epoch = (if epoch_bound a s then session_epoch_of s else None)"
  define res where "res = au_verify au now_ms (rq_proof req) (request_binding req h a epoch) vf"
  have unf: "authorize au st now_ms req vf = (if rq_proof_headers req > 1 then (Denied ''PRINCIPAL_HEADER_INVALID'' 400, vf)
      else if epoch_bound a s \<and> session_epoch_of s = None then (Denied ''PRINCIPAL_SESSION_IDENTITY_UNAVAILABLE'' 403, vf)
      else case res of (Denied code status, vf') \<Rightarrow> (Denied code status, vf')
        | (Granted v, vf') \<Rightarrow> (case authorize_refusal (au_trust au) a s (hb_body (rq_content req)) v of
            Some (code, status) \<Rightarrow> (Denied code status, vf')
          | None \<Rightarrow> (Granted \<lparr>cx_principal = vd_principal v, cx_action = vd_action v, cx_target = vd_target v,
                 cx_method = rq_method req, cx_request_target = rq_target req, cx_body_sha256 = h, cx_session_epoch = vd_session_epoch v\<rparr>, vf')))"
    by (simp only: authorize_def h a option.case Let_def res_def s_def epoch_def target_session_def epoch_bound_def)
  have e: "\<not> (epoch_bound a s \<and> session_epoch_of s = None)" using assms unfolding unf by (simp split: if_splits)
  obtain v vf1 where v1: "res = (Granted v, vf1)"
    using assms unfolding unf by (cases res; cases "fst res") (auto split: if_splits)
  then have r: "authorize_refusal (au_trust au) a s (hb_body (rq_content req)) v = None"
    and c: "c = \<lparr>cx_principal = vd_principal v, cx_action = vd_action v, cx_target = vd_target v,
                 cx_method = rq_method req, cx_request_target = rq_target req, cx_body_sha256 = h, cx_session_epoch = vd_session_epoch v\<rparr>"
    using assms unfolding unf by (auto split: if_splits option.splits)
  have v: "au_verify au now_ms (rq_proof req) (request_binding req h a epoch) vf = (Granted v, vf1)" using v1 by (simp add: res_def)
  note vs = verify_signed [OF v, unfolded request_binding_def, simplified]
  have "\<not> epoch_bound a s \<or> (session_epoch_of s \<noteq> None \<and> cx_session_epoch c = session_epoch_of s)"
    using vs(4) e by (auto simp: epoch_def c)
  moreover have "\<not> ra_operator_only a \<or> pr_operator (vd_principal v)" using authorize_refusal_None(1) [OF r] by (auto simp: operator_needed_def)
  ultimately have "entitled a s c"
    using authorize_refusal_None(2-4) [OF r] unfolding entitled_def by (cases s) (simp_all add: c)
  then show ?thesis using vs h a c by (auto simp: s_def)
qed

text \<open>A session and its owner, a request that submits to it and a socket that observes it.\<close>

definition sample_session :: jdoc where
  "sample_session = DObj [(units_of ''sessionEpoch'', DStr (units_of ''e1'')),
     (units_of ''owningPrincipal'', DObj [(units_of ''id'', DStr (units_of ''ada'')), (units_of ''source'', DStr (units_of ''ed25519'')),
        (units_of ''audience'', DStr (units_of ''host''))])]"

definition sample_store :: store where
  "sample_store = [(units_of ''s1'', sample_session)]"

definition sample_au :: authenticator where
  "sample_au = \<lparr>au_nr = \<lambda>_. None, au_sha = sample_sha, au_ed_ok = sample_ed_ok, au_trust = sample_trust,
     au_challenge = replicate 16 65, au_capacity = 4\<rparr>"

definition sample_request :: request where
  "sample_request = \<lparr>rq_method = units_of ''POST'', rq_target = units_of ''/api/sessions/s1/submit'',
     rq_content = \<lparr>hb_raw = None, hb_body = None, hb_transfer_encoding = False, hb_content_length = 0\<rparr>,
     rq_proof_headers = 1, rq_proof = Some (sample_header sample_assertion)\<rparr>"

definition sample_observer :: assertion where
  "sample_observer = sample_assertion\<lparr>as_method := units_of ''GET'', as_target := units_of ''/api/observe/sessions/s1'',
     as_body := Some (DObj []), as_action := units_of ''session.observe'', as_transport := units_of ''websocket''\<rparr>"

definition sample_upgrade :: upgrade where
  "sample_upgrade = \<lparr>up_method = units_of ''GET'', up_url = units_of ''/api/observe/sessions/s1'', up_proof_headers = 1,
     up_proof = Some (sample_header sample_observer), up_transfer_encoding = False, up_content_length = None\<rparr>"

lemma sample_request_fields:
  "rq_method sample_request = units_of ''POST''" "rq_target sample_request = units_of ''/api/sessions/s1/submit''"
  "rq_content sample_request = \<lparr>hb_raw = None, hb_body = None, hb_transfer_encoding = False, hb_content_length = 0\<rparr>"
  "rq_proof_headers sample_request = 1" "rq_proof sample_request = Some (sample_header sample_assertion)"
  by (simp_all add: sample_request_def)

lemma sample_upgrade_fields:
  "up_method sample_upgrade = units_of ''GET''" "up_url sample_upgrade = units_of ''/api/observe/sessions/s1''"
  "up_proof_headers sample_upgrade = 1" "\<not> up_transfer_encoding sample_upgrade" "up_content_length sample_upgrade = None"
  "up_proof sample_upgrade = Some (sample_header sample_observer)"
  by (simp_all add: sample_upgrade_def)

lemma sample_route: "resolveAction (units_of ''POST'') (units_of ''/api/sessions/s1/submit'') None
    = Some (epoch_action ''session.input'' (units_of ''s1''))"
  by code_simp

lemma sample_session_epoch: "session_epoch_of (Some sample_session) = Some (units_of ''e1'')"
  and sample_session_owner: "session_owner (Some sample_session) = Some (units_of ''ada'', units_of ''host'')"
  and sample_session_open: "\<not> closing (Some sample_session)" and sample_session_found: "ownSession sample_store (units_of ''s1'') = Some sample_session"
  by code_simp+

lemma sample_verified:
  assumes "request_matches (replicate 64 97) sample_trust (replicate 16 65) 4 1010 b a (units_of ''key'') sample_key sample_verifier"
    and made: "createSignedAssertion sample_sha sample_signs a = Some (sample_header a) \<and> int (length (sample_header a)) \<le> 8192"
    and body: "bodyDigest sample_sha (as_body a) = Some (replicate 64 97)" and texts: "list_all units_ok (assertion_texts a)"
  shows "\<exists>v vf. au_verify sample_au 1010999 (Some (sample_header a)) b sample_verifier = (Granted v, vf)
     \<and> pr_id (vd_principal v) = as_principal_id a \<and> pr_audience (vd_principal v) = as_audience a
     \<and> vd_session_epoch v = as_session_epoch a"
proof -
  have "request_matches (replicate 64 97) sample_trust (replicate 16 65) 4 (1010999 div 1000) b a (units_of ''key'') sample_key sample_verifier"
    using assms(1) by simp
  from assertion_accepted [where ed_ok = sample_ed_ok and nr = "\<lambda>_. None" and consume = True,
      OF conjunct1 [OF made] body texts sample_scheme conjunct2 [OF made] this]
  show ?thesis unfolding au_verify_def sample_au_def
    by (cases "check (\<lambda>_. None) sample_ed_ok sample_trust (replicate 16 65) 4 True 1010999 (Some (sample_header a)) b sample_verifier") auto
qed

lemma sample_authorized: "\<exists>c vf. authorize sample_au sample_store 1010999 sample_request sample_verifier = (Granted c, vf)"
proof -
  let ?a = "epoch_action ''session.input'' (units_of ''s1'')"
  let ?b = "request_binding sample_request (replicate 64 97) ?a (Some (units_of ''e1''))"
  have "request_matches (replicate 64 97) sample_trust (replicate 16 65) 4 1010 ?b sample_assertion (units_of ''key'') sample_key sample_verifier"
    unfolding request_binding_def sample_request_fields by code_simp
  from sample_verified [OF this sample_made sample_body sample_texts] obtain v vf where
    v: "au_verify sample_au 1010999 (Some (sample_header sample_assertion)) ?b sample_verifier = (Granted v, vf)"
      "pr_id (vd_principal v) = units_of ''ada''" "pr_audience (vd_principal v) = units_of ''host''"
      "vd_session_epoch v = Some (units_of ''e1'')"
    by (auto simp: sample_assertion_def)
  have d: "requestBodyDigest (au_nr sample_au) (au_sha sample_au) (rq_content sample_request) = Some (replicate 64 97)"
    unfolding sample_request_fields by code_simp
  have "authorize_refusal (au_trust sample_au) ?a (Some sample_session) (hb_body (rq_content sample_request)) v = None"
    using v sample_session_owner sample_session_open
    by (simp add: authorize_refusal_def operator_needed_def owned_by_def sample_session_epoch epoch_action_def plain_action_def)
  moreover have "ra_action ?a = ''session.input''" "ra_target ?a = units_of ''s1''" "\<not> ra_creation ?a" "ra_epoch_required ?a"
    by (simp_all add: epoch_action_def plain_action_def)
  ultimately show ?thesis
    by (simp add: authorize_def d [unfolded sample_request_fields] sample_request_fields sample_route sample_session_found sample_session_epoch v(1) daemon_actions_def)
qed

lemma sample_socket: "\<exists>v i vf. authorizeSocket sample_au sample_store 1010999 ObserverSocket sample_upgrade sample_verifier = (Granted (v, i), vf)"
proof -
  let ?b = "\<lparr>bi_method = units_of ''GET'', bi_target = up_url sample_upgrade,
     bi_body_sha256 = (case bodyDigest (au_sha sample_au) (Some (DObj [])) of None \<Rightarrow> [] | Some h \<Rightarrow> h),
     bi_action = units_of (socket_action ObserverSocket), bi_grant_target = units_of ''s1'',
     bi_transport = Some (units_of ''websocket''), bi_session_epoch = Some (units_of ''e1'')\<rparr>"
  have made: "createSignedAssertion sample_sha sample_signs sample_observer = Some (sample_header sample_observer)
      \<and> int (length (sample_header sample_observer)) \<le> 8192"
    by (rule sample_signed) code_simp+
  have fit: "request_matches (replicate 64 97) sample_trust (replicate 16 65) 4 1010 ?b sample_observer (units_of ''key'') sample_key sample_verifier"
    unfolding sample_upgrade_fields by code_simp
  have "bodyDigest sample_sha (as_body sample_observer) = Some (replicate 64 97)" "list_all units_ok (assertion_texts sample_observer)"
    by code_simp+
  from sample_verified [OF fit made this] obtain v vf where
    v: "au_verify sample_au 1010999 (Some (sample_header sample_observer)) ?b sample_verifier = (Granted v, vf)"
      "pr_id (vd_principal v) = units_of ''ada''" "pr_audience (vd_principal v) = units_of ''host''"
    by (auto simp: sample_observer_def sample_assertion_def)
  have i: "(if up_method sample_upgrade \<noteq> units_of ''GET'' \<or> \<not> validTarget (up_url sample_upgrade) then None
      else Option.bind (socket_id (socket_prefix ObserverSocket) (up_url sample_upgrade)) decoded_id) = Some (units_of ''s1'')"
    unfolding sample_upgrade_fields by code_simp
  show ?thesis unfolding authorizeSocket_def i option.case
    using v sample_session_owner sample_session_open
    by (simp add: sample_upgrade_fields(3-6) sample_session_found sample_session_epoch owned_by_def)
qed





end
