(* ===== verification/Session_Credentials.thy ===== *)
theory Session_Credentials
  imports Js_Bytes
begin

text \<open>
  \<open>src/session-store/session-credentials.js\<close>: the credentials of session instances, indexed by epoch.
  A bearer is \<open>epoch.secret\<close>; the store keeps the hash of it only. SHA-256 is the parameter \<open>sha\<close>, and
  the random bytes of a new credential are arguments of \<open>issue\<close>.
\<close>

record credential =
  cr_sid :: units
  cr_verifier :: units
  cr_generation :: int

type_synonym credentials = "(units, credential) jsmap"

definition verifierFor :: "(units \<Rightarrow> units) \<Rightarrow> units \<Rightarrow> units" where
  "verifierFor sha bearer = sha bearer"

text \<open>\<open>Buffer.from(s, 'hex')\<close> stops at the first pair that is not hexadecimal.\<close>

fun hex_bytes :: "units \<Rightarrow> bytes" where
  "hex_bytes (a # b # s) = (case hex_pair a b of None \<Rightarrow> [] | Some v \<Rightarrow> v # hex_bytes s)"
| "hex_bytes _ = []"

definition verifierMatches :: "units \<Rightarrow> units \<Rightarrow> bool" where
  "verifierMatches a b \<longleftrightarrow> length a = length b \<and> a \<noteq> [] \<and> hex_bytes a = hex_bytes b"

definition splitBearer :: "units \<Rightarrow> units option" where
  "splitBearer bearer = (let epoch = takeWhile (\<lambda>c. c \<noteq> 46) bearer; rest = drop (length epoch) bearer in
     if epoch = [] \<or> length rest \<le> 1 then None else Some epoch)"

definition issue :: "(units \<Rightarrow> units) \<Rightarrow> units \<Rightarrow> units \<Rightarrow> units \<Rightarrow> credentials \<Rightarrow> (units \<times> units) \<times> credentials" where
  "issue sha sid epoch secret m = (let bearer = epoch @ [46] @ secret in
     ((epoch, bearer), jm_set epoch \<lparr>cr_sid = sid, cr_verifier = verifierFor sha bearer, cr_generation = 1\<rparr> m))"

text \<open>\<open>adopt\<close>: the stored generation counts as 1 when it is not a number.\<close>

definition adopt :: "units \<Rightarrow> units option \<Rightarrow> units option \<Rightarrow> int option \<Rightarrow> credentials \<Rightarrow> bool \<times> credentials" where
  "adopt sid epoch vrf generation m =
     (if sid = [] \<or> epoch \<in> {None, Some []} \<or> vrf \<in> {None, Some []} then (False, m)
      else (True, jm_set (the epoch) \<lparr>cr_sid = sid, cr_verifier = the vrf,
              cr_generation = (case generation of None \<Rightarrow> 1 | Some g \<Rightarrow> if g = 0 then 1 else g)\<rparr> m))"

definition verify_bearer :: "(units \<Rightarrow> units) \<Rightarrow> credentials \<Rightarrow> units \<Rightarrow> (units \<times> units \<times> int) option" where
  "verify_bearer sha m bearer = (case splitBearer bearer of None \<Rightarrow> None
     | Some epoch \<Rightarrow> (case jm_get m epoch of None \<Rightarrow> None
       | Some r \<Rightarrow> if verifierMatches (cr_verifier r) (verifierFor sha bearer)
           then Some (cr_sid r, epoch, cr_generation r) else None))"

definition matches :: "(units \<Rightarrow> units) \<Rightarrow> credentials \<Rightarrow> units \<Rightarrow> units \<Rightarrow> bool" where
  "matches sha m sid bearer \<longleftrightarrow> (case verify_bearer sha m bearer of None \<Rightarrow> False | Some (s, _) \<Rightarrow> s = sid)"

definition hasCredential :: "credentials \<Rightarrow> units \<Rightarrow> bool" where
  "hasCredential m sid \<longleftrightarrow> list_ex (\<lambda>p. cr_sid (snd p) = sid) m"

definition revoke :: "units \<Rightarrow> credentials \<Rightarrow> int \<times> credentials" where
  "revoke sid m = (int (length (filter (\<lambda>p. cr_sid (snd p) = sid) m)), filter (\<lambda>p. cr_sid (snd p) \<noteq> sid) m)"

definition rename :: "units \<Rightarrow> units \<Rightarrow> credentials \<Rightarrow> credentials" where
  "rename old new m = map (\<lambda>(e, r). (e, if cr_sid r = old then r\<lparr>cr_sid := new\<rparr> else r)) m"

section \<open>Operations and runs\<close>

datatype credential_op =
    Issue units units units
  | Adopt units "units option" "units option" "int option"
  | Revoke units
  | Rename units units

fun credential_step :: "(units \<Rightarrow> units) \<Rightarrow> credential_op \<Rightarrow> credentials \<Rightarrow> credentials" where
  "credential_step sha (Issue sid epoch secret) m = snd (issue sha sid epoch secret m)"
| "credential_step sha (Adopt sid epoch vrf g) m = snd (adopt sid epoch vrf g m)"
| "credential_step sha (Revoke sid) m = snd (revoke sid m)"
| "credential_step sha (Rename old new) m = rename old new m"

text \<open>An operation brings an epoch into the store.\<close>

fun brings :: "units \<Rightarrow> credential_op \<Rightarrow> bool" where
  "brings e (Issue sid epoch secret) = (epoch = e)"
| "brings e (Adopt sid epoch vrf g) = (epoch = Some e)"
| "brings e _ = False"

lemma rename_get: "jm_get (rename old new m) e = map_option (\<lambda>r. if cr_sid r = old then r\<lparr>cr_sid := new\<rparr> else r) (jm_get m e)"
  by (simp add: rename_def map_of_map)

lemma filter_absent: "jm_get m e = None \<Longrightarrow> jm_get (filter P m) e = None"
  by (auto simp: map_of_eq_None_iff)

lemma revoke_dead: "distinct (map fst m) \<Longrightarrow> jm_get m e = Some r \<Longrightarrow> cr_sid r = sid \<Longrightarrow> jm_get (snd (revoke sid m)) e = None"
proof (induction m)
  case (Cons p m)
  show ?case
  proof (cases "fst p = e")
    case True
    with Cons.prems have "snd p = r" "jm_get m e = None" by (auto simp: map_of_eq_None_iff)
    then show ?thesis using Cons.prems(3) filter_absent [of m e] by (simp add: revoke_def)
  next
    case False
    with Cons show ?thesis by (cases p) (auto simp: revoke_def)
  qed
qed simp

lemma rename_keys: "map fst (rename old new m) = map fst m"
  by (induction m) (auto simp: rename_def)

definition one_per_epoch :: "credentials \<Rightarrow> bool" where
  "one_per_epoch m \<longleftrightarrow> distinct (map fst m)"

lemma step_keeps_epochs: "one_per_epoch m \<Longrightarrow> one_per_epoch (credential_step sha x m)"
  by (cases x) (auto simp: one_per_epoch_def issue_def adopt_def revoke_def rename_keys Let_def distinct_map_filter
      intro: distinct_jm_set)

lemma step_absent: "\<not> brings e x \<Longrightarrow> jm_get m e = None \<Longrightarrow> jm_get (credential_step sha x m) e = None"
  by (cases x) (auto simp: issue_def adopt_def revoke_def rename_get Let_def filter_absent)

interpretation epochs: op_machine "credential_step sha" "\<lambda>_. True" one_per_epoch for sha
  by unfold_locales (rule step_keeps_epochs)

interpretation absent: op_machine "credential_step sha" "\<lambda>x. \<not> brings e x" "\<lambda>m. jm_get m e = None" for sha e
  by unfold_locales (rule step_absent)



end
