(* ===== verification/Mailbox_Takeover.thy ===== *)
theory Mailbox_Takeover
  imports Session_Credentials Principal_Http Mailbox_Handoff
begin

text \<open>
  \<open>src/principal/takeover.js\<close> with \<open>authority-audit.js\<close> and \<open>src/mailbox/poll-session.js\<close>: how the owning
  principal takes a mailbox session over once its lease has run out. A handler is a function of the
  request, the clock readings, the random values and the outcome of the session store's write, to a
  reply and a new state; \<open>Date.parse\<close> (whether a text is a date) and \<open>toISOString\<close> are the parameters
  \<open>date_ok\<close> and \<open>iso_text\<close>. A timestamp field of a session is its millisecond count.
\<close>

section \<open>Leases\<close>

definition DEFAULT_LEASE_SECONDS :: int where
  "DEFAULT_LEASE_SECONDS = 300"

definition MAX_LEASE_SECONDS :: int where
  "MAX_LEASE_SECONDS = 3600"

definition parseMailboxLease :: "jdoc option \<Rightarrow> int option" where
  "parseMailboxLease v = (case (case v of None \<Rightarrow> Some (DInt DEFAULT_LEASE_SECONDS) | Some x \<Rightarrow> Some x) of
     Some (DInt n) \<Rightarrow> if n < 1 \<or> n > MAX_LEASE_SECONDS then None else Some n
   | _ \<Rightarrow> None)"

section \<open>The session and its audit\<close>

record mailbox_session =
  ms_type :: units
  ms_closing :: bool
  ms_owner :: "(units \<times> units) option"
  ms_owner_ws :: bool
  ms_process :: bool
  ms_epoch :: "units option"
  ms_verifier :: "units option"
  ms_generation :: "int option"
  ms_lease :: "int option"
  ms_audit :: "jdoc option"
  ms_audit_invalid :: bool
  ms_nonce :: units
  ms_epoch_proved :: "units option"
  ms_owner_token :: "units option"
  ms_owner_generation :: "units option"
  ms_last_connected :: "int option"
  ms_last_disconnected :: "int option"
  ms_last_activity :: "int option"
  ms_state_report :: "jdoc option"
  ms_last_state_report :: "int option"

definition mailboxLeaseAlive :: "mailbox_session \<Rightarrow> int \<Rightarrow> bool" where
  "mailboxLeaseAlive s now \<longleftrightarrow> ms_type s = units_of ''mailbox''
     \<and> (case ms_lease s of None \<Rightarrow> False | Some l \<Rightarrow> l > now \<and> l \<le> now + MAX_LEASE_SECONDS * 1000)"

definition MAX_AUTHORITY_EVENTS :: nat where
  "MAX_AUTHORITY_EVENTS = 32"

definition AUDIT_FIELDS :: "string list" where
  "AUDIT_FIELDS = [''schema'', ''actor'', ''at'', ''previous_epoch'', ''next_epoch'', ''previous_generation'', ''next_generation'',
     ''previous_owner_state'', ''previous_lease_expires_at'', ''pending_count'', ''custody_digest'']"

definition epoch_text :: "units \<Rightarrow> bool" where
  "epoch_text s \<longleftrightarrow> length s = 22 \<and> list_all b64_char s"

definition finite_number :: "jdoc option \<Rightarrow> bool" where
  "finite_number v \<longleftrightarrow> (case v of Some (DInt n) \<Rightarrow> True | Some (DReal s) \<Rightarrow> True | _ \<Rightarrow> False)"

definition safe_at_least :: "int \<Rightarrow> jdoc option \<Rightarrow> bool" where
  "safe_at_least n v \<longleftrightarrow> (case doc_safe v of None \<Rightarrow> False | Some m \<Rightarrow> n \<le> m)"

definition actor_ok :: "jdoc option \<Rightarrow> bool" where
  "actor_ok v \<longleftrightarrow> (case v of None \<Rightarrow> False | Some a \<Rightarrow>
     string_and identifier_text (member a ''id'') \<and> string_and identifier_text (member a ''key_id'')
     \<and> member a ''source'' = Some (DStr (units_of ''ed25519'')) \<and> string_and (\<lambda>s. s \<noteq> []) (member a ''audience'')
     \<and> list_all (\<lambda>p. fst p \<in> units_of ` {''id'', ''key_id'', ''source'', ''audience''}) (members a))"

definition audit_row_ok :: "(jdoc option \<Rightarrow> bool) \<Rightarrow> jdoc \<Rightarrow> bool" where
  "audit_row_ok date_ok r \<longleftrightarrow> exactFields r AUDIT_FIELDS
     \<and> member r ''schema'' = Some (DStr (units_of ''telepty.mailbox-takeover/v1'')) \<and> actor_ok (member r ''actor'')
     \<and> date_ok (member r ''at'') \<and> epoch_text (or_empty (member r ''previous_epoch'')) \<and> epoch_text (or_empty (member r ''next_epoch''))
     \<and> safe_at_least 1 (member r ''previous_generation'') \<and> doc_safe (member r ''next_generation'') \<noteq> None
     \<and> number_at r ''next_generation'' = number_at r ''previous_generation'' + 1
     \<and> member r ''previous_owner_state'' = Some (DStr (units_of ''mailbox_lease_expired''))
     \<and> finite_number (member r ''previous_lease_expires_at'') \<and> safe_at_least 0 (member r ''pending_count'')
     \<and> number_at r ''pending_count'' \<le> 1000 \<and> hex64_text (or_empty (member r ''custody_digest''))"

text \<open>A row is rebuilt from its fields, in their order.\<close>

definition rebuilt :: "jdoc \<Rightarrow> string list \<Rightarrow> jdoc" where
  "rebuilt r ks = DObj (map (\<lambda>k. (units_of k, the (member r k))) ks)"

definition audit_row :: "jdoc \<Rightarrow> jdoc" where
  "audit_row r = DObj (map (\<lambda>k. (units_of k, if k = ''actor'' then rebuilt (the (member r ''actor'')) [''id'', ''key_id'', ''source'', ''audience'']
     else the (member r k))) AUDIT_FIELDS)"

datatype audit_read = AuditAbsent | AuditInvalid | AuditRows "jdoc list"

definition normalizeAuthorityAudit :: "(jdoc option \<Rightarrow> bool) \<Rightarrow> jdoc option \<Rightarrow> audit_read" where
  "normalizeAuthorityAudit date_ok v = (case v of None \<Rightarrow> AuditAbsent
     | Some (DArr rows) \<Rightarrow> if length rows > MAX_AUTHORITY_EVENTS \<or> \<not> list_all (audit_row_ok date_ok) rows then AuditInvalid
         else AuditRows (map audit_row rows)
     | Some _ \<Rightarrow> AuditInvalid)"

section \<open>The takeover\<close>

text \<open>The session store's write: done, done with an error after it became visible, or not done.\<close>

datatype persist_outcome = Persisted | PersistedUnsure | NotPersisted

record authority =
  at_session :: mailbox_session
  at_credentials :: credentials
  at_nonces :: "(string, units) jsmap"
  at_stored :: mailbox_session

record takeover_input =
  ti_id :: string
  ti_principal :: "principal option"
  ti_exists :: bool
  ti_body :: "jdoc option"
  ti_now :: int
  ti_locked_now :: int
  ti_same :: bool
  ti_mailbox :: "mdir option"
  ti_epoch :: units
  ti_secret :: units
  ti_nonce :: units
  ti_outcome :: persist_outcome

record takeover_grant =
  tg_epoch :: units
  tg_generation :: int
  tg_token :: units
  tg_nonce :: units
  tg_lease :: "int option"
  tg_audit :: jdoc

datatype takeover_reply = TDenied int string | TGranted takeover_grant

definition owner_is :: "mailbox_session \<Rightarrow> principal \<Rightarrow> bool" where
  "owner_is s p \<longleftrightarrow> ms_owner s = Some (pr_id p, pr_audience p)"

text \<open>
  The checks before the mailbox is locked, in the order of the handler, and what they settle:
  the lease asked for and the credential generation.
\<close>

definition body_refused :: "jdoc option \<Rightarrow> bool" where
  "body_refused body \<longleftrightarrow> (case body of Some (DObj fs) \<Rightarrow>
       \<not> list_all (\<lambda>p. fst p \<in> {units_of ''expected_epoch'', units_of ''lease_seconds''}) fs
     | _ \<Rightarrow> True)"

definition expected_epoch :: "takeover_input \<Rightarrow> units option" where
  "expected_epoch i = Option.bind (ti_body i) (\<lambda>b. doc_string (member b ''expected_epoch''))"

definition credential_state_ok :: "mailbox_session \<Rightarrow> bool" where
  "credential_state_ok s \<longleftrightarrow> (case ms_epoch s of None \<Rightarrow> False | Some e \<Rightarrow> epoch_text e)
     \<and> (case ms_verifier s of None \<Rightarrow> False | Some v \<Rightarrow> hex64_text v)
     \<and> (case ms_generation s of None \<Rightarrow> False | Some g \<Rightarrow> safe_int g \<and> 1 \<le> g \<and> g < max_safe_integer)"

definition takeover_checks :: "(jdoc option \<Rightarrow> bool) \<Rightarrow> takeover_input \<Rightarrow> principal \<Rightarrow> mailbox_session \<Rightarrow> (bool \<times> int \<times> string) list" where
  "takeover_checks date_ok i p s =
     [(\<not> ti_exists i, 404, ''SESSION_NOT_FOUND''),
      (\<not> owner_is s p, 403, ''TAKEOVER_OWNER_REQUIRED''),
      (ms_closing s, 409, ''SESSION_CLOSING''),
      (ms_type s \<noteq> units_of ''mailbox'', 409, ''TAKEOVER_TRANSPORT_UNSUPPORTED''),
      (ms_owner_ws s \<or> ms_process s, 409, ''TAKEOVER_PROCESS_CUSTODY_UNAVAILABLE''),
      (body_refused (ti_body i), 400, ''TAKEOVER_INVALID_REQUEST''),
      (expected_epoch i = None \<or> expected_epoch i \<noteq> ms_epoch s, 409, ''TAKEOVER_EPOCH_CHANGED''),
      (\<not> safe_int (ti_now i) \<or> ms_lease s = None \<or> the (ms_lease s) < 0, 409, ''TAKEOVER_LEASE_UNKNOWN''),
      (ms_lease s \<noteq> None \<and> the (ms_lease s) > ti_now i, 409, ''TAKEOVER_LEASE_ACTIVE''),
      (parseMailboxLease (Option.bind (ti_body i) (\<lambda>b. member b ''lease_seconds'')) = None, 400, ''INVALID_LEASE''),
      (\<not> credential_state_ok s, 409, ''TAKEOVER_CREDENTIAL_STATE_INVALID''),
      (ms_audit_invalid s, 409, ''TAKEOVER_AUDIT_INVALID''),
      (normalizeAuthorityAudit date_ok (ms_audit s) = AuditInvalid, 409, ''TAKEOVER_AUDIT_INVALID'')]"

fun first_denial :: "(bool \<times> int \<times> string) list \<Rightarrow> (int \<times> string) option" where
  "first_denial [] = None"
| "first_denial ((bad, r) # rest) = (if bad then Some r else first_denial rest)"

text \<open>The checks under the mailbox lock, on the session as it is then.\<close>

definition locked_checks :: "takeover_input \<Rightarrow> principal \<Rightarrow> int option \<Rightarrow> mailbox_session \<Rightarrow> pending_view list \<Rightarrow> (bool \<times> int \<times> string) list" where
  "locked_checks i p generation s pending =
     [(\<not> ti_same i \<or> ms_closing s \<or> ms_epoch s \<noteq> expected_epoch i \<or> ms_generation s \<noteq> generation, 409, ''TAKEOVER_EPOCH_CHANGED''),
      (\<not> owner_is s p, 403, ''TAKEOVER_OWNER_REQUIRED''),
      (\<not> safe_int (ti_locked_now i) \<or> ms_lease s = None \<or> the (ms_lease s) > ti_locked_now i, 409, ''TAKEOVER_LEASE_ACTIVE''),
      (ms_owner_ws s \<or> ms_process s, 409, ''TAKEOVER_PROCESS_CUSTODY_UNAVAILABLE''),
      (pending \<noteq> [], 409, ''TAKEOVER_PENDING_UNPROVEN'')]"

definition takeover_audit :: "(units \<Rightarrow> units) \<Rightarrow> (int \<Rightarrow> units) \<Rightarrow> takeover_input \<Rightarrow> principal \<Rightarrow> mailbox_session \<Rightarrow> int \<Rightarrow> int \<Rightarrow> jdoc" where
  "takeover_audit sha iso_text i p s generation pending_count = DObj (map (\<lambda>(k, v). (units_of k, v))
     [(''schema'', DStr (units_of ''telepty.mailbox-takeover/v1'')),
      (''actor'', DObj (map (\<lambda>(k, v). (units_of k, DStr v)) [(''id'', pr_id p), (''key_id'', pr_key_id p),
         (''source'', units_of ''ed25519''), (''audience'', pr_audience p)])),
      (''at'', DStr (iso_text (ti_locked_now i))), (''previous_epoch'', DStr (case ms_epoch s of None \<Rightarrow> [] | Some e \<Rightarrow> e)),
      (''next_epoch'', DStr (ti_epoch i)), (''previous_generation'', DInt generation), (''next_generation'', DInt (generation + 1)),
      (''previous_owner_state'', DStr (units_of ''mailbox_lease_expired'')),
      (''previous_lease_expires_at'', DInt (case ms_lease s of None \<Rightarrow> 0 | Some l \<Rightarrow> l)), (''pending_count'', DInt pending_count),
      (''custody_digest'', DStr (case bodyDigest sha (Some (DArr [])) of None \<Rightarrow> [] | Some h \<Rightarrow> h))])"

definition bearer_of :: "takeover_input \<Rightarrow> units" where
  "bearer_of i = ti_epoch i @ [46] @ ti_secret i"

definition keep_last :: "nat \<Rightarrow> 'a list \<Rightarrow> 'a list" where
  "keep_last n xs = drop (length xs - n) xs"

definition taken_over :: "(units \<Rightarrow> units) \<Rightarrow> takeover_input \<Rightarrow> int \<Rightarrow> int \<Rightarrow> jdoc list \<Rightarrow> jdoc \<Rightarrow> mailbox_session \<Rightarrow> mailbox_session" where
  "taken_over sha i generation lease past audit s = s\<lparr>ms_epoch := Some (ti_epoch i), ms_verifier := Some (verifierFor sha (bearer_of i)),
     ms_generation := Some (generation + 1), ms_nonce := ti_nonce i, ms_epoch_proved := None, ms_owner_token := None,
     ms_owner_generation := None, ms_lease := Some (ti_locked_now i + lease * 1000), ms_last_connected := Some (ti_locked_now i),
     ms_last_disconnected := None, ms_last_activity := Some (ti_locked_now i), ms_state_report := None, ms_last_state_report := None,
     ms_audit := Some (DArr (keep_last MAX_AUTHORITY_EVENTS (past @ [audit])))\<rparr>"

definition takeover_commit :: "(units \<Rightarrow> units) \<Rightarrow> (int \<Rightarrow> units) \<Rightarrow> takeover_input \<Rightarrow> principal \<Rightarrow> int \<Rightarrow> int \<Rightarrow> jdoc list \<Rightarrow> int
    \<Rightarrow> authority \<Rightarrow> takeover_reply \<times> authority" where
  "takeover_commit sha iso_text i p generation lease past pending_count a =
     (let s = at_session a; audit = takeover_audit sha iso_text i p s generation pending_count;
          s' = taken_over sha i generation lease past audit s; sid = units_of (ti_id i);
          visible = a\<lparr>at_session := s', at_stored := s',
            at_credentials := snd (adopt sid (ms_epoch s') (ms_verifier s') (ms_generation s') (snd (revoke sid (at_credentials a)))),
            at_nonces := jm_set (ti_id i) (ti_nonce i) (at_nonces a)\<rparr> in
      case ti_outcome i of
        NotPersisted \<Rightarrow> (TDenied 503 ''SESSION_STORE_WRITE_FAILED'', a)
      | PersistedUnsure \<Rightarrow> (TDenied 503 ''SESSION_STORE_WRITE_FAILED'', visible)
      | Persisted \<Rightarrow> (TGranted \<lparr>tg_epoch = ti_epoch i, tg_generation = generation + 1, tg_token = bearer_of i, tg_nonce = ti_nonce i,
            tg_lease = ms_lease s', tg_audit = audit\<rparr>, visible))"

definition history_rows :: "audit_read \<Rightarrow> jdoc list" where
  "history_rows r = (case r of AuditRows rows \<Rightarrow> rows | _ \<Rightarrow> [])"

text \<open>The handler, on the state before and the state in which the lock is held.\<close>

definition takeover :: "(units \<Rightarrow> units) \<Rightarrow> (jdoc option \<Rightarrow> bool) \<Rightarrow> (int \<Rightarrow> units) \<Rightarrow> takeover_input
    \<Rightarrow> authority \<Rightarrow> authority \<Rightarrow> takeover_reply \<times> authority" where
  "takeover sha date_ok iso_text i before a =
     (case ti_principal i of None \<Rightarrow> (TDenied 403 ''TAKEOVER_PRINCIPAL_REQUIRED'', a)
      | Some p \<Rightarrow>
        (case first_denial (takeover_checks date_ok i p (at_session before)) of
           Some (status, code) \<Rightarrow> (TDenied status code, a)
         | None \<Rightarrow>
           (case Option.bind (ti_mailbox i) (strictCustodySnapshot (ti_id i)) of
              None \<Rightarrow> (TDenied 503 ''TAKEOVER_CUSTODY_UNAVAILABLE'', a)
            | Some pending \<Rightarrow>
              (case first_denial (locked_checks i p (ms_generation (at_session before)) (at_session a) pending) of
                 Some (status, code) \<Rightarrow> (TDenied status code, a)
               | None \<Rightarrow> takeover_commit sha iso_text i p (the (ms_generation (at_session before)))
                   (the (parseMailboxLease (Option.bind (ti_body i) (\<lambda>b. member b ''lease_seconds''))))
                   (history_rows (normalizeAuthorityAudit date_ok (ms_audit (at_session before)))) (int (length pending)) a))))"

section \<open>Polling with a bearer\<close>

definition renewMailboxLease :: "persist_outcome \<Rightarrow> int \<Rightarrow> int \<Rightarrow> mailbox_session \<Rightarrow> string option \<times> mailbox_session" where
  "renewMailboxLease outcome lease_seconds now s =
     (if ms_closing s then (Some ''SESSION_CLOSING'', s)
      else let s' = s\<lparr>ms_lease := Some (now + lease_seconds * 1000), ms_last_activity := Some now,
             ms_last_connected := Some now, ms_last_disconnected := None\<rparr> in
        case outcome of Persisted \<Rightarrow> (None, s')
        | PersistedUnsure \<Rightarrow> (Some ''SESSION_STORE_WRITE_FAILED'', s')
        | NotPersisted \<Rightarrow> (Some ''SESSION_STORE_WRITE_FAILED'', s))"

definition poll_surface :: "units \<Rightarrow> units list \<Rightarrow> bool" where
  "poll_surface method sfx \<longleftrightarrow> (method = units_of ''GET'' \<and> sfx = [units_of ''mailbox''])
     \<or> (method = units_of ''POST'' \<and> sfx \<in> {[units_of ''mailbox'', units_of ''ack''], [units_of ''lease'']})"

definition authorizeMailboxRequest :: "(units \<Rightarrow> units) \<Rightarrow> credentials \<Rightarrow> (units, mailbox_session) jsmap \<Rightarrow> units option
    \<Rightarrow> units \<Rightarrow> units \<Rightarrow> jdoc option \<Rightarrow> bool" where
  "authorizeMailboxRequest sha creds sessions bearer method path body =
     (case Option.bind bearer (verify_bearer sha creds) of None \<Rightarrow> False
      | Some (sid, epoch, generation) \<Rightarrow>
        (case jm_get sessions sid of None \<Rightarrow> False
         | Some s \<Rightarrow>
           if ms_closing s \<or> ms_type s \<noteq> units_of ''mailbox'' \<or> ms_epoch s \<noteq> Some epoch
              \<or> (case ms_generation s of None \<Rightarrow> 1 | Some g \<Rightarrow> if g = 0 then 1 else g) \<noteq> generation then False
           else if method = units_of ''POST'' \<and> path = units_of ''/api/sessions/register''
           then Option.bind body (\<lambda>b. doc_string (member b ''session_id'')) = Some sid
           else (case split_on 47 path of
               x # y # z # i # sfx \<Rightarrow> x = [] \<and> y = units_of ''api'' \<and> z = units_of ''sessions'' \<and> i \<noteq> []
                  \<and> sfx \<in> {[units_of ''mailbox''], [units_of ''mailbox'', units_of ''ack''], [units_of ''lease'']}
                  \<and> decodeURIComponent i = Some sid \<and> poll_surface method sfx
             | _ \<Rightarrow> False)))"

end
