(* ===== verification/Takeover_Laws.thy ===== *)
theory Takeover_Laws
  imports Mailbox_Takeover
begin

text \<open>
  What a takeover guarantees: it happens only to an idle, expired mailbox with nothing left to
  deliver, it moves the whole authority or none of it, and of the requests that name one epoch at
  most one is granted.
\<close>

lemma first_denial_None: "first_denial cs = None \<longleftrightarrow> list_all (\<lambda>c. \<not> fst c) cs"
  by (induction cs rule: first_denial.induct) auto

lemma lease_bounds: "parseMailboxLease v = Some n \<Longrightarrow> 1 \<le> n \<and> n \<le> 3600"
  by (auto simp: parseMailboxLease_def MAX_LEASE_SECONDS_def DEFAULT_LEASE_SECONDS_def split: option.splits jdoc.splits if_splits)

text \<open>A reply that is not a refusal before the commit is the commit's.\<close>

lemma takeover_cases:
  obtains status code where "takeover sha date_ok iso_text i before a = (TDenied status code, a)"
  | p generation lease past d where "ti_principal i = Some p" "ti_mailbox i = Some d" "strictCustodySnapshot (ti_id i) d = Some []"
      "list_all (\<lambda>c. \<not> fst c) (takeover_checks date_ok i p (at_session before))"
      "list_all (\<lambda>c. \<not> fst c) (locked_checks i p (Some generation) (at_session a) [])"
      "1 \<le> lease" "lease \<le> 3600" "ms_generation (at_session before) = Some generation"
      "takeover sha date_ok iso_text i before a = takeover_commit sha iso_text i p generation lease past 0 a"
proof (cases "ti_principal i")
  case None
  then show ?thesis using that(1) by (simp add: takeover_def)
next
  case (Some p)
  note p = Some
  let ?lease = "parseMailboxLease (Option.bind (ti_body i) (\<lambda>b. member b ''lease_seconds''))"
  show ?thesis
  proof (cases "first_denial (takeover_checks date_ok i p (at_session before))")
    case (Some r)
    then show ?thesis using that(1) [of "fst r" "snd r"] by (simp add: takeover_def p prod.case_eq_if)
  next
    case None
    then have ok: "list_all (\<lambda>c. \<not> fst c) (takeover_checks date_ok i p (at_session before))" by (simp add: first_denial_None)
    then obtain lease generation where l: "?lease = Some lease" and g: "ms_generation (at_session before) = Some generation"
      by (auto simp: takeover_checks_def credential_state_ok_def split: option.splits)
    show ?thesis
    proof (cases "Option.bind (ti_mailbox i) (strictCustodySnapshot (ti_id i))")
      case n: None
      then show ?thesis using that(1) by (simp add: takeover_def p None)
    next
      case (Some pending)
      note pend = Some
      show ?thesis
      proof (cases "first_denial (locked_checks i p (Some generation) (at_session a) pending)")
        case (Some r)
        then show ?thesis using that(1) [of "fst r" "snd r"] by (simp add: takeover_def p None pend g prod.case_eq_if)
      next
        case lk: None
        then have lc: "list_all (\<lambda>c. \<not> fst c) (locked_checks i p (Some generation) (at_session a) pending)" by (simp add: first_denial_None)
        then have e: "pending = []" by (simp add: locked_checks_def)
        obtain d where d: "ti_mailbox i = Some d" "strictCustodySnapshot (ti_id i) d = Some []"
          using pend e by (cases "ti_mailbox i") auto
        have "takeover sha date_ok iso_text i before a = takeover_commit sha iso_text i p generation lease
            (history_rows (normalizeAuthorityAudit date_ok (ms_audit (at_session before)))) 0 a"
          using lk by (simp add: takeover_def p None pend g l e)
        from that(2) [OF p d ok lc [unfolded e] conjunct1 [OF lease_bounds [OF l]] conjunct2 [OF lease_bounds [OF l]] g this]
        show ?thesis .
      qed
    qed
  qed
qed

definition reply_of :: "takeover_reply \<Rightarrow> takeover_grant option" where
  "reply_of r = (case r of TGranted g \<Rightarrow> Some g | TDenied s c \<Rightarrow> None)"


section \<open>All or nothing\<close>

lemma split_made: "46 \<notin> set e \<Longrightarrow> e \<noteq> [] \<Longrightarrow> s \<noteq> [] \<Longrightarrow> splitBearer (e @ [46] @ s) = Some e"
proof -
  assume e: "46 \<notin> set e" "e \<noteq> []" "s \<noteq> []"
  have "takeWhile (\<lambda>c. c \<noteq> 46) (e @ [46] @ s) = e" using e(1) by (simp add: takeWhile_append)
  then show ?thesis using e by (simp add: splitBearer_def Let_def)
qed

text \<open>A bearer put in place of all of a session's others is the only one that resolves to it.\<close>

lemma reissued:
  assumes fresh: "e \<noteq> []" "46 \<notin> set e" "s \<noteq> []" "sha (e @ [46] @ s) \<noteq> []"
    and m': "m' = jm_set e \<lparr>cr_sid = sid, cr_verifier = sha (e @ [46] @ s), cr_generation = g\<rparr> (snd (revoke sid m))"
  shows "verify_bearer sha m' (e @ [46] @ s) = Some (sid, e, g)"
    and "verify_bearer sha m' b = Some (sid, e', g') \<Longrightarrow> e' = e"
proof -
  show "verify_bearer sha m' (e @ [46] @ s) = Some (sid, e, g)"
    using fresh unfolding verify_bearer_def split_made [OF fresh(2,1,3)] m'
    by (simp add: verifierMatches_def verifierFor_def)
next
  assume "verify_bearer sha m' b = Some (sid, e', g')"
  then obtain r where r: "jm_get m' e' = Some r" "cr_sid r = sid"
    by (auto simp: verify_bearer_def split: option.splits if_splits)
  show "e' = e"
  proof (rule ccontr)
    assume "e' \<noteq> e"
    with r(1) have "jm_get (snd (revoke sid m)) e' = Some r" by (auto simp: m')
    then have "(e', r) \<in> set (snd (revoke sid m))" by (rule map_of_SomeD)
    with r(2) show False by (simp add: revoke_def)
  qed
qed

definition authority_moved :: "(units \<Rightarrow> units) \<Rightarrow> takeover_input \<Rightarrow> authority \<Rightarrow> authority \<Rightarrow> bool" where
  "authority_moved sha i a a' \<longleftrightarrow> ms_epoch (at_session a') = Some (ti_epoch i)
     \<and> map_option (\<lambda>g. g + 1) (ms_generation (at_session a)) = ms_generation (at_session a')
     \<and> at_stored a' = at_session a' \<and> mailboxLeaseAlive (at_session a') (ti_locked_now i)
     \<and> jm_get (at_nonces a') (ti_id i) = Some (ti_nonce i)
     \<and> verify_bearer sha (at_credentials a') (bearer_of i) = Some (units_of (ti_id i), ti_epoch i, the (ms_generation (at_session a')))
     \<and> (\<forall>bearer e g. verify_bearer sha (at_credentials a') bearer = Some (units_of (ti_id i), e, g) \<longrightarrow> e = ti_epoch i)"

definition fresh_values :: "(units \<Rightarrow> units) \<Rightarrow> takeover_input \<Rightarrow> bool" where
  "fresh_values sha i \<longleftrightarrow> ti_epoch i \<noteq> [] \<and> 46 \<notin> set (ti_epoch i) \<and> ti_secret i \<noteq> [] \<and> sha (bearer_of i) \<noteq> [] \<and> ti_id i \<noteq> []"

lemma commit_moves:
  assumes fresh: "fresh_values sha i" and lease: "1 \<le> lease" "lease \<le> 3600"
    and gen: "ms_generation (at_session a) = Some generation" "generation + 1 \<noteq> 0" "ms_type (at_session a) = units_of ''mailbox''"
    and c: "takeover_commit sha iso_text i p generation lease past n a = (r, a')" "ti_outcome i \<noteq> NotPersisted"
  shows "authority_moved sha i a a'"
proof -
  let ?sid = "units_of (ti_id i)"
  let ?r = "\<lparr>cr_sid = ?sid, cr_verifier = sha (bearer_of i), cr_generation = generation + 1\<rparr>"
  have sid: "?sid \<noteq> []" using fresh by (simp add: fresh_values_def units_of_def)
  have cr: "at_credentials a' = jm_set (ti_epoch i) ?r (snd (revoke ?sid (at_credentials a)))"
    using c fresh sid gen(2) by (cases "ti_outcome i")
      (auto simp: takeover_commit_def taken_over_def adopt_def verifierFor_def fresh_values_def Let_def)
  have s: "ms_epoch (at_session a') = Some (ti_epoch i)" "ms_generation (at_session a') = Some (generation + 1)"
    "at_stored a' = at_session a'" "ms_lease (at_session a') = Some (ti_locked_now i + lease * 1000)" "ms_type (at_session a') = units_of ''mailbox''"
    "jm_get (at_nonces a') (ti_id i) = Some (ti_nonce i)"
    using c gen by (cases "ti_outcome i"; auto simp: takeover_commit_def taken_over_def Let_def)+
  have f: "ti_epoch i \<noteq> []" "46 \<notin> set (ti_epoch i)" "ti_secret i \<noteq> []" "sha (ti_epoch i @ [46] @ ti_secret i) \<noteq> []"
    using fresh by (simp_all add: fresh_values_def bearer_of_def)
  have v: "verify_bearer sha (at_credentials a') (bearer_of i) = Some (?sid, ti_epoch i, generation + 1)"
    using reissued(1) [where sha = sha, OF f cr [unfolded bearer_of_def]] by (simp add: bearer_of_def)
  have n: "e = ti_epoch i" if vb: "verify_bearer sha (at_credentials a') bearer = Some (?sid, e, g)" for bearer e g
    using reissued(2) [where sha = sha, OF f cr [unfolded bearer_of_def]] vb by blast
  have l: "mailboxLeaseAlive (at_session a') (ti_locked_now i)"
    using s(4,5) lease by (simp add: mailboxLeaseAlive_def MAX_LEASE_SECONDS_def)
  have nn: "\<forall>bearer e g. verify_bearer sha (at_credentials a') bearer = Some (?sid, e, g) \<longrightarrow> e = ti_epoch i"
    using n by blast
  show ?thesis unfolding authority_moved_def
    by (simp only: s(1,2,3,6) gen(1) option.map option.sel v l simp_thms, rule nn)
qed

text \<open>
  C7. A takeover moves the whole authority over a session or none of it. Unless the store's write
  became visible, session, stored session, credentials and nonce are as before, and a refusal after
  a write that only may have been made durable discloses no bearer. When the write is visible,
  epoch, generation, lease, stored copy, nonce and credentials have all moved together: the new
  bearer resolves to the new generation, and every bearer that still resolves to the session is of
  the new epoch.
\<close>

theorem takeover_moves_all_or_nothing:
  assumes "takeover sha date_ok iso_text i before a = (r, a')" and "at_session before = at_session a"
    and "fresh_values sha i"
  shows "if a' = a then reply_of r = None
     else authority_moved sha i a a' \<and> (if ti_outcome i = Persisted then map_option tg_token (reply_of r) = Some (bearer_of i) else reply_of r = None)"
proof (rule takeover_cases [of sha date_ok iso_text i before a])
  fix status code
  assume "takeover sha date_ok iso_text i before a = (TDenied status code, a)"
  with assms(1) show ?thesis by (auto simp: reply_of_def)
next
  fix p generation lease past d
  assume "list_all (\<lambda>c. \<not> fst c) (takeover_checks date_ok i p (at_session before))" and lease: "1 \<le> lease" "lease \<le> 3600"
    and gen: "ms_generation (at_session before) = Some generation"
    and eq: "takeover sha date_ok iso_text i before a = takeover_commit sha iso_text i p generation lease past 0 a"
  then have g: "generation + 1 \<noteq> 0" "ms_type (at_session a) = units_of ''mailbox''"
    using assms(2) by (auto simp: takeover_checks_def credential_state_ok_def)
  have c: "takeover_commit sha iso_text i p generation lease past 0 a = (r, a')" using eq assms(1) by simp
  show ?thesis
  proof (cases "ti_outcome i = NotPersisted")
    case True
    then show ?thesis using c by (auto simp: takeover_commit_def reply_of_def)
  next
    case False
    have m: "authority_moved sha i a a'"
      using commit_moves [OF assms(3) lease gen [unfolded assms(2)] g c False] .
    have "ms_generation (at_session a') \<noteq> ms_generation (at_session a)" using m gen assms(2) by (auto simp: authority_moved_def)
    then have "a' \<noteq> a" by auto
    with m c False show ?thesis
      by (cases "ti_outcome i") (auto simp: takeover_commit_def reply_of_def Let_def)
  qed
qed

section \<open>One winner per epoch\<close>

fun takeovers where
  "takeovers sha date_ok iso_text [] a = []"
| "takeovers sha date_ok iso_text (i # is) a =
     (let (r, a') = takeover sha date_ok iso_text i a a in
      (if reply_of r = None then [] else [expected_epoch i]) @ takeovers sha date_ok iso_text is a')"

lemma takeover_epoch:
  assumes "takeover sha date_ok iso_text i a a = (r, a')"
  shows "ms_epoch (at_session a') \<in> {ms_epoch (at_session a), Some (ti_epoch i)}"
    and "reply_of r \<noteq> None \<Longrightarrow> expected_epoch i = ms_epoch (at_session a) \<and> ms_epoch (at_session a') = Some (ti_epoch i)"
proof -
  have "ms_epoch (at_session a') \<in> {ms_epoch (at_session a), Some (ti_epoch i)} \<and> (reply_of r \<noteq> None \<longrightarrow>
      expected_epoch i = ms_epoch (at_session a) \<and> ms_epoch (at_session a') = Some (ti_epoch i))"
  proof (rule takeover_cases [of sha date_ok iso_text i a a])
    fix status code
    assume "takeover sha date_ok iso_text i a a = (TDenied status code, a)"
    with assms show ?thesis by (auto simp: reply_of_def)
  next
    fix p generation lease past d
    assume "list_all (\<lambda>c. \<not> fst c) (locked_checks i p (Some generation) (at_session a) [])"
      and "takeover sha date_ok iso_text i a a = takeover_commit sha iso_text i p generation lease past 0 a"
    with assms show ?thesis
      by (cases "ti_outcome i") (auto simp: takeover_commit_def taken_over_def locked_checks_def reply_of_def Let_def)
  qed
  then show "ms_epoch (at_session a') \<in> {ms_epoch (at_session a), Some (ti_epoch i)}"
    and "reply_of r \<noteq> None \<Longrightarrow> expected_epoch i = ms_epoch (at_session a) \<and> ms_epoch (at_session a') = Some (ti_epoch i)" by blast+
qed

lemma takeovers_name: "set (takeovers sha date_ok iso_text is a) \<subseteq> insert (ms_epoch (at_session a)) (Some ` ti_epoch ` set is)"
proof (induction "is" arbitrary: a)
  case (Cons i "is")
  obtain r a' where t: "takeover sha date_ok iso_text i a a = (r, a')" by (cases "takeover sha date_ok iso_text i a a")
  show ?case using Cons [of a'] takeover_epoch [OF t] by (auto simp: t split: if_splits)
qed simp

text \<open>
  C19. Of all takeover requests that name the same epoch at most one is granted, in any run of
  requests on a session: the loser of a race finds the epoch changed. (The random epochs that the
  handler draws are different from each other and from the first one.)
\<close>

theorem takeover_has_one_winner_per_epoch:
  assumes "distinct (ms_epoch (at_session a) # map (Some \<circ> ti_epoch) is)"
  shows "distinct (takeovers sha date_ok iso_text is a)"
  using assms
proof (induction "is" arbitrary: a)
  case (Cons i "is")
  obtain r a' where t: "takeover sha date_ok iso_text i a a = (r, a')" by (cases "takeover sha date_ok iso_text i a a")
  note e = takeover_epoch [OF t]
  have "distinct (ms_epoch (at_session a') # map (Some \<circ> ti_epoch) is)" using Cons.prems e(1) by (auto simp: image_iff comp_def)
  then have d: "distinct (takeovers sha date_ok iso_text is a')" by (rule Cons.IH)
  show ?case
  proof (cases "reply_of r = None")
    case True
    then show ?thesis using d by (simp add: t)
  next
    case False
    with e(2) have "expected_epoch i = ms_epoch (at_session a)" "ms_epoch (at_session a') = Some (ti_epoch i)" by blast+
    then have "expected_epoch i \<notin> set (takeovers sha date_ok iso_text is a')"
      using takeovers_name [of sha date_ok iso_text "is" a'] Cons.prems by (auto simp: image_iff)
    then show ?thesis using d False by (simp add: t)
  qed
qed simp

section \<open>A takeover that happens\<close>

definition idle_session :: mailbox_session where
  "idle_session = \<lparr>ms_type = units_of ''mailbox'', ms_closing = False, ms_owner = Some (units_of ''ada'', units_of ''host''),
     ms_owner_ws = False, ms_process = False, ms_epoch = Some (replicate 22 65), ms_verifier = Some (replicate 64 97),
     ms_generation = Some 3, ms_lease = Some 5000, ms_audit = None, ms_audit_invalid = False, ms_nonce = [], ms_epoch_proved = None,
     ms_owner_token = None, ms_owner_generation = None, ms_last_connected = None, ms_last_disconnected = None, ms_last_activity = None,
     ms_state_report = None, ms_last_state_report = None\<rparr>"

definition idle_authority :: authority where
  "idle_authority = \<lparr>at_session = idle_session, at_credentials = [(replicate 22 65, \<lparr>cr_sid = units_of ''s1'',
     cr_verifier = replicate 64 97, cr_generation = 3\<rparr>)], at_nonces = [], at_stored = idle_session\<rparr>"

definition idle_mailbox :: mdir where
  "idle_mailbox = \<lparr>inbox_file = Some [], state_file = Some [], dead_file = None\<rparr>"

definition sample_takeover :: takeover_input where
  "sample_takeover = \<lparr>ti_id = ''s1'', ti_principal = Some \<lparr>pr_id = units_of ''ada'', pr_key_id = units_of ''k1'', pr_operator = False,
     pr_audience = units_of ''host''\<rparr>, ti_exists = True, ti_body = Some (DObj [(units_of ''expected_epoch'', DStr (replicate 22 65))]),
     ti_now = 6000, ti_locked_now = 6001, ti_same = True, ti_mailbox = Some idle_mailbox, ti_epoch = replicate 22 66,
     ti_secret = [67], ti_nonce = [68], ti_outcome = Persisted\<rparr>"

abbreviation sample_takeover_run :: "takeover_reply \<times> authority" where
  "sample_takeover_run \<equiv> takeover sample_sha (\<lambda>_. True) (\<lambda>_. [90]) sample_takeover idle_authority idle_authority"

lemma sample_takeover_granted: "reply_of (fst sample_takeover_run) \<noteq> None"
  by code_simp


theorem takeover_moves_all_or_nothing_witness:
  "authority_moved sample_sha sample_takeover idle_authority (snd sample_takeover_run)"
proof -
  obtain r a' where run: "sample_takeover_run = (r, a')" by (cases sample_takeover_run)
  have "fresh_values sample_sha sample_takeover" by code_simp
  from takeover_moves_all_or_nothing [OF run _ this] sample_takeover_granted show ?thesis by (auto simp: run split: if_splits)
qed

theorem takeover_has_one_winner_per_epoch_witness:
  "length (takeovers sample_sha (\<lambda>_. True) (\<lambda>_. [90]) [sample_takeover, sample_takeover\<lparr>ti_epoch := replicate 22 69\<rparr>] idle_authority) = 1
     \<and> distinct (takeovers sample_sha (\<lambda>_. True) (\<lambda>_. [90]) [sample_takeover, sample_takeover\<lparr>ti_epoch := replicate 22 69\<rparr>] idle_authority)"
proof
  show "length (takeovers sample_sha (\<lambda>_. True) (\<lambda>_. [90]) [sample_takeover, sample_takeover\<lparr>ti_epoch := replicate 22 69\<rparr>] idle_authority) = 1"
    by code_simp
  have "distinct (ms_epoch (at_session idle_authority) # map (Some \<circ> ti_epoch) [sample_takeover, sample_takeover\<lparr>ti_epoch := replicate 22 69\<rparr>])"
    by code_simp
  from takeover_has_one_winner_per_epoch [OF this] show
    "distinct (takeovers sample_sha (\<lambda>_. True) (\<lambda>_. [90]) [sample_takeover, sample_takeover\<lparr>ti_epoch := replicate 22 69\<rparr>] idle_authority)" .
qed

end
