(* ===== verification/Pending_Handoff.thy ===== *)
theory Pending_Handoff
  imports Mailbox_Takeover
begin

text \<open>
  \<open>src/principal/pending-handoff.js\<close>: the consent a queued message carries, the custody record of
  a hand-over, one connection's write requests and their receipts, and the writer on the owner's
  side. Messages, hand-over records and frames are documents; \<open>sha\<close> is SHA-256. An object that
  the source keeps by identity (a socket, a result) is a number, or the id of the request it answers.
\<close>

definition MAX_PENDING :: nat where
  "MAX_PENDING = 8"

definition CUSTODY_SCHEMA :: units where
  "CUSTODY_SCHEMA = units_of ''telepty.pending-handoff-custody/v1''"

definition hex_text :: "units \<Rightarrow> bool" where
  "hex_text s \<longleftrightarrow> list_all (\<lambda>c. (97 \<le> c \<and> c \<le> 102) \<or> (48 \<le> c \<and> c \<le> 57)) s"

text \<open>A version 4 UUID.\<close>

definition generation_text :: "units \<Rightarrow> bool" where
  "generation_text s \<longleftrightarrow> (case split_on 45 s of
       [a, b, c, d, e] \<Rightarrow> length a = 8 \<and> length b = 4 \<and> length c = 4 \<and> length d = 4 \<and> length e = 12
         \<and> hex_text (a @ b @ c @ d @ e) \<and> c ! 0 = 52 \<and> d ! 0 \<in> {56, 57, 97, 98}
     | _ \<Rightarrow> False)"

definition messageId :: "units \<Rightarrow> bool" where
  "messageId s \<longleftrightarrow> s \<noteq> [] \<and> byte_length s \<le> 128 \<and> \<not> list_ex (\<lambda>c. c < 32 \<or> c = 127) s"

definition MESSAGE_FIELDS :: "string list" where
  "MESSAGE_FIELDS = [''msg_id'', ''from'', ''to'', ''payload'', ''created_at'', ''attempt'']"

text \<open>A field that is not there cannot be hashed, except a missing sender, which is \<open>null\<close>.\<close>

definition messageDigest :: "(units \<Rightarrow> units) \<Rightarrow> jdoc \<Rightarrow> units option" where
  "messageDigest sha m =
     (case all_some (map (\<lambda>k. map_option (Pair (units_of k))
          (if member m k = None \<and> k = ''from'' then Some DNull else member m k)) MESSAGE_FIELDS) of
        None \<Rightarrow> None | Some fs \<Rightarrow> bodyDigest sha (Some (DObj fs)))"

section \<open>The session of a hand-over\<close>

text \<open>A hand-over record is an object that is changed in place: its identity and its contents.\<close>

record held =
  hd_serial :: nat
  hd_doc :: jdoc

record handoff_session =
  hs_id :: units
  hs_type :: units
  hs_capable :: bool
  hs_ssh_remote :: bool
  hs_closing :: bool
  hs_external_policy :: bool
  hs_provenance_capable :: bool
  hs_owner :: "(units \<times> units) option"
  hs_owner_ws :: "nat option"
  hs_ws_open :: bool
  hs_strict_connected :: bool
  hs_epoch :: units
  hs_generation :: "int option"
  hs_owner_generation :: "units option"
  hs_verifier :: units
  hs_nonce :: units
  hs_epoch_proved :: "units option"
  hs_owner_token :: "units option"
  hs_owner_pid :: "int option"
  hs_pty_pid :: "int option"
  hs_ready :: bool
  hs_capability :: "(nat option \<times> units option) option"
  hs_handoff :: "held option"
  hs_audit :: "jdoc list"

definition CONSENT_FIELDS :: "string list" where
  "CONSENT_FIELDS = [''schema'', ''sid'', ''origin_epoch'', ''origin_owner_generation'', ''recipient'', ''sender'',
     ''request_sha256'', ''proof_sha256'', ''message_sha256'', ''inject_id'']"

definition only_fields :: "jdoc \<Rightarrow> string list \<Rightarrow> bool" where
  "only_fields v names \<longleftrightarrow> list_all (\<lambda>p. fst p \<in> units_of ` set names) (members v)"

definition sub_doc :: "jdoc \<Rightarrow> string \<Rightarrow> jdoc" where
  "sub_doc v k = (case member v k of None \<Rightarrow> DNull | Some d \<Rightarrow> d)"

definition validConsent :: "(units \<Rightarrow> units) \<Rightarrow> jdoc \<Rightarrow> handoff_session \<Rightarrow> units \<Rightarrow> units option \<Rightarrow> bool" where
  "validConsent sha m s expected owner_generation \<longleftrightarrow>
     (case (member m ''cooperative_handoff'', hs_owner s, owner_generation) of
        (Some c, Some (rid, raud), Some og) \<Rightarrow>
          text_is c ''schema'' (units_of ''telepty.pending-handoff-consent/v1'') \<and> only_fields c CONSENT_FIELDS
          \<and> text_is c ''sid'' (hs_id s) \<and> member m ''to'' = member c ''sid'' \<and> messageId (hs_id s)
          \<and> epoch_text expected \<and> text_is c ''origin_epoch'' expected
          \<and> generation_text og \<and> text_is c ''origin_owner_generation'' og
          \<and> text_is (sub_doc c ''recipient'') ''id'' rid \<and> text_is (sub_doc c ''recipient'') ''audience'' raud
          \<and> only_fields (sub_doc c ''recipient'') [''id'', ''audience'']
          \<and> text_is (sub_doc c ''sender'') ''source'' (units_of ''ed25519'')
          \<and> string_and identifier_text (member (sub_doc c ''sender'') ''id'')
          \<and> string_and identifier_text (member (sub_doc c ''sender'') ''key_id'')
          \<and> string_and opaque_text (member (sub_doc c ''sender'') ''audience'')
          \<and> only_fields (sub_doc c ''sender'') [''id'', ''key_id'', ''audience'', ''source'']
          \<and> string_and hex64_text (member c ''request_sha256'') \<and> string_and hex64_text (member c ''proof_sha256'')
          \<and> string_and hex64_text (member c ''message_sha256'')
          \<and> doc_string (member c ''message_sha256'') = messageDigest sha m \<and> member c ''inject_id'' = Some DNull
      | _ \<Rightarrow> False)"

section \<open>Custody records\<close>

definition row_digest :: "(units \<Rightarrow> units) \<Rightarrow> jdoc \<Rightarrow> jdoc" where
  "row_digest sha r = DStr (case bodyDigest sha (Some r) of None \<Rightarrow> [] | Some h \<Rightarrow> h)"

definition snapshotReceipt :: "(units \<Rightarrow> units) \<Rightarrow> jdoc list \<Rightarrow> (units \<times> jdoc) list" where
  "snapshotReceipt sha rows = map (\<lambda>(k, v). (units_of k, v))
     [(''pending_custody_schema'', DStr CUSTODY_SCHEMA), (''pending_count'', DInt (int (length rows))),
      (''pending_digest'', row_digest sha (DArr rows)),
      (''pending_records'', DArr (map (\<lambda>r. DObj [(units_of ''id'', sub_doc r ''msg_id''), (units_of ''digest'', row_digest sha r)]) rows))]"

definition PENDING_FIELDS :: "string list" where
  "PENDING_FIELDS = [''pending_custody_schema'', ''pending_count'', ''pending_digest'', ''pending_records'',
     ''pending_dispatch_started'', ''pending_write_invoked'']"

definition record_row_ok :: "jdoc \<Rightarrow> bool" where
  "record_row_ok r \<longleftrightarrow> length (members r) = 2 \<and> string_and messageId (member r ''id'') \<and> string_and hex64_text (member r ''digest'')"

text \<open>A list of ids, absent or within another list, with nothing twice.\<close>

definition ids_within :: "jdoc option \<Rightarrow> jdoc list \<Rightarrow> bool" where
  "ids_within v allowed \<longleftrightarrow> (case v of None \<Rightarrow> True | Some (DArr xs) \<Rightarrow> distinct xs \<and> set xs \<subseteq> set allowed | Some _ \<Rightarrow> False)"

definition list_at :: "jdoc \<Rightarrow> string \<Rightarrow> jdoc list" where
  "list_at v k = (case doc_items (member v k) of None \<Rightarrow> [] | Some xs \<Rightarrow> xs)"

definition validPendingAudit :: "(units \<Rightarrow> units) \<Rightarrow> jdoc \<Rightarrow> bool" where
  "validPendingAudit sha v \<longleftrightarrow>
     (if member v ''pending_policy'' = None then list_all (\<lambda>k. member v k = None) PENDING_FIELDS
      else text_is v ''pending_custody_schema'' CUSTODY_SCHEMA
        \<and> (text_is v ''pending_policy'' (units_of ''empty'') \<or> text_is v ''pending_policy'' (units_of ''never-attempted''))
        \<and> safe_at_least 0 (member v ''pending_count'') \<and> number_at v ''pending_count'' \<le> int MAX_PENDING
        \<and> string_and hex64_text (member v ''pending_digest'') \<and> doc_items (member v ''pending_records'') \<noteq> None
        \<and> int (length (list_at v ''pending_records'')) = number_at v ''pending_count''
        \<and> distinct (map (\<lambda>r. member r ''id'') (list_at v ''pending_records''))
        \<and> list_all record_row_ok (list_at v ''pending_records'')
        \<and> (\<not> text_is v ''pending_policy'' (units_of ''empty'') \<or>
             (number_at v ''pending_count'' = 0 \<and> member v ''pending_digest'' = Some (row_digest sha (DArr []))))
        \<and> ids_within (member v ''pending_write_invoked'') (list_at v ''pending_dispatch_started'')
        \<and> ids_within (member v ''pending_dispatch_started'') (map (\<lambda>r. sub_doc r ''id'') (list_at v ''pending_records'')))"

definition eligibleRecipient :: "handoff_session \<Rightarrow> bool" where
  "eligibleRecipient s \<longleftrightarrow> hs_type s = units_of ''wrapped'' \<and> hs_capable s \<and> \<not> hs_ssh_remote s
     \<and> \<not> hs_external_policy s \<and> \<not> hs_provenance_capable s"

definition transferredRecord :: "(units \<Rightarrow> units) \<Rightarrow> handoff_session \<Rightarrow> jdoc \<Rightarrow> jdoc option" where
  "transferredRecord sha s m =
     (case hs_handoff s of None \<Rightarrow> None
      | Some h \<Rightarrow> let e = hd_doc h in
          if \<not> eligibleRecipient s \<or> \<not> text_is e ''state'' (units_of ''committed'') \<or> \<not> text_is e ''next_epoch'' (hs_epoch s)
             \<or> \<not> text_is e ''pending_policy'' (units_of ''never-attempted'') \<or> \<not> validPendingAudit sha e
             \<or> \<not> validConsent sha m s (string_at e ''epoch'') (doc_string (member e ''owner_generation'')) then None
          else if list_ex (\<lambda>r. member r ''id'' = member m ''msg_id'' \<and> member r ''digest'' = Some (row_digest sha m))
                    (list_at e ''pending_records'') then Some e else None)"

text \<open>\<open>pendingNamespaceReserved\<close>; \<open>acknowledged\<close> is whether the mailbox proves the custody acknowledged.\<close>

definition pendingNamespaceReserved :: "(units \<Rightarrow> units) \<Rightarrow> handoff_session \<Rightarrow> bool \<Rightarrow> bool" where
  "pendingNamespaceReserved sha s acknowledged =
     (case hs_handoff s of None \<Rightarrow> False
      | Some h \<Rightarrow> let e = hd_doc h in
          if \<not> text_is e ''state'' (units_of ''committed'') \<or> number_at e ''pending_count'' \<le> 0 then False
          else if \<not> text_is e ''next_epoch'' (hs_epoch s) \<or> \<not> validPendingAudit sha e
               \<or> \<not> list_all (\<lambda>r. sub_doc r ''id'' \<in> set (list_at e ''pending_write_invoked'')) (list_at e ''pending_records'') then True
          else \<not> acknowledged)"

section \<open>Write requests of the daemon\<close>

record write_request =
  wq_id :: units
  wq_ws :: "nat option"
  wq_epoch :: units
  wq_owner :: "units option"
  wq_intent :: "jdoc option"
  wq_msg_id :: "jdoc option"
  wq_digest :: "units option"
  wq_payload_hash :: units
  wq_data :: units
  wq_deadline :: int

datatype write_result = WriteUnknown string | WriteInvoked units int

record write_proof =
  wp_epoch :: units
  wp_intent :: "jdoc option"
  wp_msg_id :: "jdoc option"
  wp_digest :: "units option"

text \<open>
  The attempts of a session, the proofs of verified writes (by the request a result answers) and
  the results in the order in which the promises were resolved.
\<close>

record write_state =
  ws_attempts :: "(units, write_request) jsmap"
  ws_proofs :: "(units, write_proof) jsmap"
  ws_resolved :: "(units \<times> write_result) list"

definition write_unknown :: write_result where
  "write_unknown = WriteUnknown ''HANDOFF_WRITE_UNKNOWN''"

definition finish_write :: "units \<Rightarrow> write_result \<Rightarrow> write_state \<Rightarrow> write_state" where
  "finish_write rid result st = (if jm_has (ws_attempts st) rid
     then st\<lparr>ws_attempts := jm_delete rid (ws_attempts st), ws_resolved := ws_resolved st @ [(rid, result)]\<rparr> else st)"

definition write_request_for :: "(units \<Rightarrow> units) \<Rightarrow> handoff_session \<Rightarrow> jdoc \<Rightarrow> jdoc \<Rightarrow> units \<Rightarrow> int \<Rightarrow> int \<Rightarrow> write_request" where
  "write_request_for sha s e m rid now timeout_ms = \<lparr>wq_id = rid, wq_ws = hs_owner_ws s, wq_epoch = hs_epoch s,
     wq_owner = hs_owner_generation s, wq_intent = member e ''id'', wq_msg_id = member m ''msg_id'',
     wq_digest = bodyDigest sha (Some m), wq_payload_hash = sha (string_at m ''payload''), wq_data = string_at m ''payload'',
     wq_deadline = now + timeout_ms\<rparr>"

text \<open>A request whose socket throws at once is finished at once; \<open>Inl\<close> is a promise that is already resolved.\<close>

definition requestPendingWrite :: "(units \<Rightarrow> units) \<Rightarrow> handoff_session \<Rightarrow> jdoc \<Rightarrow> units \<Rightarrow> int \<Rightarrow> int \<Rightarrow> bool
    \<Rightarrow> write_state \<Rightarrow> (write_result + units) \<times> write_state" where
  "requestPendingWrite sha s m rid now timeout_ms send_ok st =
     (case transferredRecord sha s m of
        None \<Rightarrow> (Inl (WriteUnknown ''HANDOFF_OWNER_UNAVAILABLE''), st)
      | Some e \<Rightarrow>
        if hs_owner_ws s = None \<or> \<not> hs_ws_open s then (Inl (WriteUnknown ''HANDOFF_OWNER_UNAVAILABLE''), st)
        else let st1 = st\<lparr>ws_attempts := jm_set rid (write_request_for sha s e m rid now timeout_ms) (ws_attempts st)\<rparr> in
          (Inr rid, if send_ok then st1 else finish_write rid write_unknown st1))"

definition write_timeout :: "units \<Rightarrow> write_state \<Rightarrow> write_state" where
  "write_timeout rid st = finish_write rid write_unknown st"

definition receipt_matches :: "units \<Rightarrow> handoff_session \<Rightarrow> nat option \<Rightarrow> jdoc \<Rightarrow> write_request \<Rightarrow> bool" where
  "receipt_matches sid s ws f q \<longleftrightarrow> wq_ws q = ws \<and> hs_owner_ws s = ws \<and> hs_epoch s = wq_epoch q
     \<and> hs_owner_generation s = wq_owner q \<and> text_is f ''session_id'' sid
     \<and> text_is f ''session_epoch'' (wq_epoch q) \<and> doc_string (member f ''owner_generation'') = wq_owner q
     \<and> member f ''intent_id'' = wq_intent q \<and> member f ''msg_id'' = wq_msg_id q
     \<and> doc_string (member f ''content_digest'') = wq_digest q \<and> text_is f ''payload_sha256'' (wq_payload_hash q)"

definition acceptPendingReceipt :: "units \<Rightarrow> handoff_session \<Rightarrow> nat option \<Rightarrow> jdoc \<Rightarrow> int \<Rightarrow> write_state \<Rightarrow> bool \<times> write_state" where
  "acceptPendingReceipt sid s ws f now st =
     (if \<not> text_is f ''type'' (units_of ''pending_handoff_receipt'') then (False, st)
      else case Option.bind (doc_string (member f ''request_id'')) (jm_get (ws_attempts st)) of
        None \<Rightarrow> (False, st)
      | Some q \<Rightarrow>
        if \<not> receipt_matches sid s ws f q then (False, st)
        else if now \<ge> wq_deadline q then (False, finish_write (wq_id q) write_unknown st)
        else if text_is f ''stage'' (units_of ''child_write_invoked'') \<and> member f ''bytes_written'' = Some DNull
                \<and> member f ''submitted_bytes'' = Some (DInt (byte_length (wq_data q)))
        then (True, finish_write (wq_id q) (WriteInvoked (wq_id q) (byte_length (wq_data q)))
               (st\<lparr>ws_proofs := jm_set (wq_id q) \<lparr>wp_epoch = wq_epoch q, wp_intent = wq_intent q, wp_msg_id = wq_msg_id q,
                    wp_digest = wq_digest q\<rparr> (ws_proofs st)\<rparr>))
        else (True, finish_write (wq_id q) write_unknown st))"

definition consumeVerifiedPendingWrite :: "(units \<Rightarrow> units) \<Rightarrow> units \<Rightarrow> handoff_session \<Rightarrow> jdoc \<Rightarrow> write_state \<Rightarrow> bool \<times> write_state" where
  "consumeVerifiedPendingWrite sha rid s m st =
     (case jm_get (ws_proofs st) rid of None \<Rightarrow> (False, st)
      | Some p \<Rightarrow> (wp_epoch p = hs_epoch s
           \<and> wp_intent p = Option.bind (hs_handoff s) (\<lambda>h. member (hd_doc h) ''id'') \<and> wp_msg_id p = member m ''msg_id''
           \<and> wp_digest p = bodyDigest sha (Some m), st\<lparr>ws_proofs := jm_delete rid (ws_proofs st)\<rparr>))"

section \<open>The writer of the owner\<close>

record writer_binding =
  wb_sid :: units
  wb_epoch :: units
  wb_owner :: units
  wb_input :: int
  wb_geometry :: int
  wb_child :: units

record pending_receipt =
  rc_stage :: string
  rc_bytes_written :: "int option"
  rc_submitted :: "int option"

definition refused_receipt :: pending_receipt where
  "refused_receipt = \<lparr>rc_stage = ''refused'', rc_bytes_written = Some 0, rc_submitted = Some 0\<rparr>"

record pending_writer =
  pw_receipts :: "(units, units \<times> pending_receipt) jsmap"
  pw_written :: "(units \<times> units) list"

text \<open>What a frame meets: the clock (read three times), the two bindings, the policy and the child.\<close>

record writer_env =
  we_now :: int
  we_late_now :: int
  we_binding :: "writer_binding option"
  we_final_binding :: "writer_binding option"
  we_can_write :: bool
  we_write_ok :: bool

definition frame_admissible :: "(units \<Rightarrow> units) \<Rightarrow> jdoc \<Rightarrow> writer_env \<Rightarrow> bool" where
  "frame_admissible sha f env \<longleftrightarrow> (case we_binding env of None \<Rightarrow> False | Some b \<Rightarrow>
     text_is f ''type'' (units_of ''pending_handoff'') \<and> text_is f ''session_id'' (wb_sid b) \<and> text_is f ''session_epoch'' (wb_epoch b)
     \<and> text_is f ''owner_generation'' (wb_owner b) \<and> string_and generation_text (member f ''request_id'')
     \<and> string_and generation_text (member f ''intent_id'') \<and> string_and messageId (member f ''msg_id'')
     \<and> string_and hex64_text (member f ''content_digest'') \<and> string_and hex64_text (member f ''payload_sha256'')
     \<and> string_and (\<lambda>d. d \<noteq> [] \<and> whole_text d \<and> byte_length d \<le> 4096
          \<and> \<not> list_ex (\<lambda>c. c \<le> 31 \<or> (127 \<le> c \<and> c \<le> 159) \<or> c = 8232 \<or> c = 8233) d) (member f ''data'')
     \<and> text_is f ''payload_sha256'' (sha (string_at f ''data''))
     \<and> (case doc_safe (member f ''deadline'') of None \<Rightarrow> False | Some t \<Rightarrow> we_now env < t \<and> t \<le> we_now env + 5000))"

definition pending_write :: "(units \<Rightarrow> units) \<Rightarrow> jdoc \<Rightarrow> writer_env \<Rightarrow> pending_writer \<Rightarrow> pending_receipt \<times> pending_writer" where
  "pending_write sha f env w =
     (if \<not> frame_admissible sha f env then (refused_receipt, w)
      else case bodyDigest sha (Some f) of
        None \<Rightarrow> (refused_receipt, w)
      | Some fingerprint \<Rightarrow>
        let mid = string_at f ''msg_id''; data = string_at f ''data'' in
        (case jm_get (pw_receipts w) mid of
           Some (prior, result) \<Rightarrow> (if prior = fingerprint then result else refused_receipt, w)
         | None \<Rightarrow>
           if length (pw_receipts w) \<ge> MAX_PENDING then (refused_receipt, w)
           else if \<not> we_can_write env \<or> we_late_now env \<ge> number_at f ''deadline'' \<or> we_final_binding env \<noteq> we_binding env
           then (refused_receipt, w\<lparr>pw_receipts := jm_set mid (fingerprint, refused_receipt) (pw_receipts w)\<rparr>)
           else let result = (if we_write_ok env
                  then \<lparr>rc_stage = ''child_write_invoked'', rc_bytes_written = None, rc_submitted = Some (byte_length data)\<rparr>
                  else \<lparr>rc_stage = ''outcome_unknown'', rc_bytes_written = None, rc_submitted = None\<rparr>) in
             (result, w\<lparr>pw_receipts := jm_set mid (fingerprint, result) (pw_receipts w), pw_written := pw_written w @ [(mid, data)]\<rparr>)))"

end
