(* ===== verification/Cooperative_Handoff.thy ===== *)
theory Cooperative_Handoff
  imports Pending_Handoff
begin

text \<open>
  \<open>src/principal/cooperative-handoff.js\<close>: the release of a live session by its incumbent owner.
  A request records an intent and stops (\<open>handoff_begin\<close>); an acknowledgement or the timer
  settles its promise (\<open>acceptAck\<close>, \<open>handoff_timeout\<close>); then the handler goes on from what it
  captured (\<open>handoff_finish\<close>). Anything else may happen to the session in between. The intent
  is an object that is changed in place, so it is held by its serial number; a missing owner
  generation is \<open>null\<close>.
\<close>

section \<open>Reading a stored hand-over\<close>

fun json_text :: "jdoc \<Rightarrow> units" where
  "json_text DNull = units_of ''null''"
| "json_text (DBool c) = units_of (if c then ''true'' else ''false'')"
| "json_text (DInt n) = show_int n"
| "json_text (DReal s) = s"
| "json_text (DStr s) = quoted s"
| "json_text (DArr xs) = brackets 91 (map json_text xs) 93"
| "json_text (DObj fs) = brackets 123 (map (\<lambda>(k, v). member_text (k, json_text v)) fs) 125"

definition HANDOFF_FIELDS :: "string list" where
  "HANDOFF_FIELDS = [''schema'', ''id'', ''state'', ''epoch'', ''generation'', ''owner_generation'', ''actor'', ''at'', ''expires_at'',
     ''next_epoch'', ''exit_code'', ''exit_signal'', ''completed_at'', ''pending_custody_schema'', ''pending_policy'', ''pending_count'',
     ''pending_digest'', ''pending_records'', ''pending_dispatch_started'', ''pending_write_invoked'']"

definition HANDOFF_STATES :: "string list" where
  "HANDOFF_STATES = [''awaiting_ack'', ''refused'', ''outcome_unknown'', ''committed'']"

text \<open>The regular expression \<open>/^[a-f0-9-]{36}$/\<close>.\<close>

definition owner_text :: "units \<Rightarrow> bool" where
  "owner_text s \<longleftrightarrow> length s = 36 \<and> hex_text (filter (\<lambda>c. c \<noteq> 45) s)"

definition exit_code_ok :: "jdoc option \<Rightarrow> bool" where
  "exit_code_ok v \<longleftrightarrow> v = Some DNull \<or> doc_safe v \<noteq> None"

definition exit_signal_ok :: "jdoc option \<Rightarrow> bool" where
  "exit_signal_ok v \<longleftrightarrow> v = Some DNull
     \<or> string_and (\<lambda>s. length s \<le> 32 \<and> list_all (\<lambda>c. 32 \<le> c \<and> c \<noteq> 127) s) v"

definition handoff_actor_ok :: "jdoc option \<Rightarrow> bool" where
  "handoff_actor_ok v \<longleftrightarrow> doc_truthy v \<and> (case v of None \<Rightarrow> False | Some a \<Rightarrow>
     string_and identifier_text (member a ''id'') \<and> string_and identifier_text (member a ''key_id'')
     \<and> text_is a ''source'' (units_of ''ed25519'') \<and> only_fields a [''id'', ''key_id'', ''audience'', ''source'']
     \<and> string_and (\<lambda>s. s \<noteq> [] \<and> length s \<le> 256 \<and> list_all (\<lambda>c. 33 \<le> c \<and> c \<noteq> 127) s) (member a ''audience''))"

definition safe_in :: "(int \<Rightarrow> bool) \<Rightarrow> jdoc option \<Rightarrow> bool" where
  "safe_in P v \<longleftrightarrow> (case doc_safe v of None \<Rightarrow> False | Some n \<Rightarrow> P n)"

definition handoff_ok :: "(units \<Rightarrow> units) \<Rightarrow> jdoc \<Rightarrow> units \<Rightarrow> int \<Rightarrow> bool" where
  "handoff_ok sha v epoch generation \<longleftrightarrow>
     (let committed = text_is v ''state'' (units_of ''committed''); at = number_at v ''at'' in
      (case v of DObj fs \<Rightarrow> True | _ \<Rightarrow> False) \<and> length (json_text v) \<le> 4096
      \<and> text_is v ''schema'' (units_of ''telepty.cooperative-handoff-intent/v1'') \<and> only_fields v HANDOFF_FIELDS
      \<and> validPendingAudit sha v \<and> list_ex (\<lambda>st. text_is v ''state'' (units_of st)) HANDOFF_STATES
      \<and> generation_text (or_empty (member v ''id'')) \<and> owner_text (or_empty (member v ''owner_generation''))
      \<and> epoch_text (or_empty (member v ''epoch'')) \<and> handoff_actor_ok (member v ''actor'')
      \<and> safe_in (\<lambda>g. 1 \<le> g \<and> g < max_safe_integer) (member v ''generation'')
      \<and> safe_in (\<lambda>n. 0 \<le> n) (member v ''at'') \<and> safe_in (\<lambda>e. at < e \<and> e - at \<le> 60000) (member v ''expires_at'')
      \<and> (committed \<longrightarrow> epoch_text (or_empty (member v ''next_epoch'')) \<and> member v ''next_epoch'' \<noteq> member v ''epoch''
           \<and> safe_in (\<lambda>t. at \<le> t) (member v ''completed_at'') \<and> exit_code_ok (member v ''exit_code'') \<and> exit_signal_ok (member v ''exit_signal''))
      \<and> (if committed then text_is v ''next_epoch'' epoch \<and> number_at v ''generation'' + 1 = generation
         else text_is v ''epoch'' epoch \<and> number_at v ''generation'' = generation))"

definition invalid_handoff :: jdoc where
  "invalid_handoff = DObj [(units_of ''state'', DStr (units_of ''outcome_unknown'')), (units_of ''invalid'', DBool True)]"

definition restoreHandoff :: "(units \<Rightarrow> units) \<Rightarrow> jdoc option \<Rightarrow> units \<Rightarrow> int \<Rightarrow> jdoc option" where
  "restoreHandoff sha v epoch generation =
     map_option (\<lambda>d. if handoff_ok sha d epoch generation then d else invalid_handoff) v"

text \<open>
  \<open>restoreHandoffRecord\<close>: the hand-over and its audit as the daemon finds them on disk; the audit
  that is not acceptable is dropped, and makes the hand-over an unknown outcome.
\<close>

definition audit_entry_ok :: "(units \<Rightarrow> units) \<Rightarrow> jdoc \<Rightarrow> bool" where
  "audit_entry_ok sha r \<longleftrightarrow> text_is r ''state'' (units_of ''committed'')
     \<and> handoff_ok sha r (string_at r ''next_epoch'') (number_at r ''generation'' + 1)"

definition restoreHandoffRecord :: "(units \<Rightarrow> units) \<Rightarrow> bool \<Rightarrow> jdoc option \<Rightarrow> jdoc option \<Rightarrow> units \<Rightarrow> int option
    \<Rightarrow> bool \<times> jdoc option \<times> jdoc list option" where
  "restoreHandoffRecord sha capable handoff audit epoch generation =
     (let h = restoreHandoff sha handoff epoch (case generation of None \<Rightarrow> 1 | Some g \<Rightarrow> if g = 0 then 1 else g) in
      case audit of None \<Rightarrow> (capable, h, None)
      | Some (DArr rows) \<Rightarrow> if length rows > 32 \<or> \<not> list_all (audit_entry_ok sha) rows then (capable, Some invalid_handoff, None)
          else (capable, h, Some rows)
      | Some _ \<Rightarrow> (capable, Some invalid_handoff, None))"

section \<open>State and replies\<close>

definition activeHandoff :: "handoff_session \<Rightarrow> bool" where
  "activeHandoff s \<longleftrightarrow> (case hs_handoff s of None \<Rightarrow> False
     | Some h \<Rightarrow> \<not> text_is (hd_doc h) ''state'' (units_of ''committed'') \<and> \<not> text_is (hd_doc h) ''state'' (units_of ''refused''))"

text \<open>What a waiting handler has captured, and what its promise was settled with.\<close>

record attempt =
  ha_object :: nat
  ha_intent :: nat
  ha_doc :: jdoc
  ha_ws :: "nat option"
  ha_epoch :: units
  ha_generation :: int
  ha_owner_generation :: "units option"
  ha_owner :: "(units \<times> units) option"
  ha_policy :: units
  ha_receipt :: "(units \<times> jdoc) list"
  ha_answer :: "jdoc option option"

record handoff_world =
  cw_id :: units
  cw_object :: nat
  cw_session :: handoff_session
  cw_stored :: handoff_session
  cw_credentials :: credentials
  cw_nonces :: "(units, units) jsmap"
  cw_pending :: "(nat \<times> nat option) option"
  cw_attempts :: "attempt list"
  cw_serial :: nat

record handoff_grant =
  hg_token :: units
  hg_nonce :: units
  hg_generation :: int
  hg_previous_epoch :: units
  hg_status :: jdoc

datatype handoff_reply = HDenied int string | HDeniedWith int string jdoc | HThrown | HGranted handoff_grant

definition value_or_null :: "jdoc option \<Rightarrow> jdoc" where
  "value_or_null v = (case v of None \<Rightarrow> DNull | Some d \<Rightarrow> d)"

definition opt_member :: "string \<Rightarrow> jdoc option \<Rightarrow> (units \<times> jdoc) list" where
  "opt_member k v = (case v of None \<Rightarrow> [] | Some d \<Rightarrow> [(units_of k, d)])"

definition owner_doc :: "units option \<Rightarrow> jdoc" where
  "owner_doc g = (case g of None \<Rightarrow> DNull | Some t \<Rightarrow> DStr t)"

definition handoff_status :: "handoff_session \<Rightarrow> jdoc" where
  "handoff_status s = (let d = (case hs_handoff s of None \<Rightarrow> DNull | Some h \<Rightarrow> hd_doc h) in
     DObj ([(units_of ''schema'', DStr (units_of ''telepty.cooperative-handoff/v1'')), (units_of ''session_id'', DStr (hs_id s))]
       @ opt_member ''intent_id'' (member d ''id'')
       @ [(units_of ''state'', if doc_truthy (member d ''state'') then value_or_null (member d ''state'') else DStr (units_of ''absent'')),
          (units_of ''session_epoch'', DStr (hs_epoch s))]
       @ opt_member ''credential_generation'' (map_option DInt (hs_generation s))
       @ [(units_of ''owner_generation'', if hs_owner_generation s = Some [] then DNull else owner_doc (hs_owner_generation s))]
       @ (if doc_truthy (member d ''pending_policy'')
          then concat (map (\<lambda>k. opt_member k (member d k)) [''pending_policy'', ''pending_count'', ''pending_digest'']) else [])
       @ [(units_of ''pending_transport'', DStr (units_of (case hs_capability s of None \<Rightarrow> ''unavailable''
             | Some (ws, g) \<Rightarrow> if ws = hs_owner_ws s \<and> g = hs_owner_generation s then ''available'' else ''unavailable''))),
          (units_of ''child_exit'', DStr (units_of ''incumbent_report_only'')), (units_of ''process_tree'', DStr (units_of ''unknown'')),
          (units_of ''retryable'', DBool False)]))"

section \<open>The request\<close>

definition HANDOFF_TIMEOUT_MS :: int where
  "HANDOFF_TIMEOUT_MS = 4000"

record handoff_input =
  hi_principal :: "principal option"
  hi_exists :: bool
  hi_body :: "jdoc option"
  hi_bearer :: "units option"
  hi_unsettled :: bool
  hi_rows :: "jdoc list option"
  hi_at :: int
  hi_late :: int
  hi_persist :: persist_outcome
  hi_send_ok :: bool

definition authorizedOwner :: "handoff_input \<Rightarrow> handoff_session \<Rightarrow> bool" where
  "authorizedOwner i s \<longleftrightarrow> (case hi_principal i of None \<Rightarrow> False
     | Some p \<Rightarrow> hi_exists i \<and> hs_owner s = Some (pr_id p, pr_audience p))"

text \<open>\<open>===\<close>: two arrays or objects are never the same value.\<close>

definition same_value :: "jdoc option \<Rightarrow> jdoc option \<Rightarrow> bool" where
  "same_value x y \<longleftrightarrow> x = y \<and> (case x of Some (DArr _) \<Rightarrow> False | Some (DObj _) \<Rightarrow> False | _ \<Rightarrow> True)"

definition in_body :: "handoff_input \<Rightarrow> string \<Rightarrow> jdoc option" where
  "in_body i k = Option.bind (hi_body i) (\<lambda>b. member b k)"

definition body_ok :: "handoff_input \<Rightarrow> bool" where
  "body_ok i \<longleftrightarrow> (case hi_body i of
       Some (DObj fs) \<Rightarrow> only_fields (DObj fs) [''intent_id'', ''expected_epoch'', ''credential_generation'', ''owner_generation'', ''pending_policy'']
         \<and> generation_text (or_empty (in_body i ''intent_id''))
     | _ \<Rightarrow> False)"

definition policy_of :: "handoff_input \<Rightarrow> units option" where
  "policy_of i = (case in_body i ''pending_policy'' of None \<Rightarrow> Some (units_of ''empty'')
     | Some (DStr p) \<Rightarrow> if p \<in> {units_of ''empty'', units_of ''never-attempted''} then Some p else None
     | Some _ \<Rightarrow> None)"

definition already_recorded :: "handoff_input \<Rightarrow> handoff_session \<Rightarrow> bool" where
  "already_recorded i s \<longleftrightarrow> (case hs_handoff s of None \<Rightarrow> False | Some h \<Rightarrow> same_value (member (hd_doc h) ''id'') (in_body i ''intent_id''))"

definition instance_named :: "handoff_input \<Rightarrow> handoff_session \<Rightarrow> bool" where
  "instance_named i s \<longleftrightarrow> in_body i ''expected_epoch'' = Some (DStr (hs_epoch s))
     \<and> in_body i ''credential_generation'' = map_option DInt (hs_generation s)
     \<and> in_body i ''owner_generation'' = Some (owner_doc (hs_owner_generation s))"

definition incumbent_present :: "handoff_session \<Rightarrow> bool" where
  "incumbent_present s \<longleftrightarrow> hs_owner_ws s \<noteq> None \<and> hs_ws_open s \<and> hs_strict_connected s
     \<and> (case hs_generation s of None \<Rightarrow> False | Some g \<Rightarrow> safe_int g \<and> 1 \<le> g \<and> g < max_safe_integer)"

definition consents_to :: "(units \<Rightarrow> units) \<Rightarrow> handoff_session \<Rightarrow> units \<Rightarrow> units option \<Rightarrow> jdoc list \<Rightarrow> bool" where
  "consents_to sha s epoch owner rows \<longleftrightarrow> list_all (\<lambda>r. validConsent sha r s epoch owner) rows"

definition captureCustody :: "(units \<Rightarrow> units) \<Rightarrow> handoff_session \<Rightarrow> units \<Rightarrow> bool \<Rightarrow> jdoc list option \<Rightarrow> jdoc list option" where
  "captureCustody sha s policy unsettled rows =
     (if unsettled then None else case rows of None \<Rightarrow> None | Some rs \<Rightarrow>
        if policy = units_of ''empty'' then (if rs = [] then Some [] else None)
        else if consents_to sha s (hs_epoch s) (hs_owner_generation s) rs then Some rs else None)"

definition begin_checks :: "(units \<Rightarrow> units) \<Rightarrow> handoff_input \<Rightarrow> handoff_world \<Rightarrow> (bool \<times> int \<times> string) list" where
  "begin_checks sha i w = (let s = cw_session w in
     [(\<not> authorizedOwner i s, 403, ''HANDOFF_OWNER_REQUIRED''),
      (hs_type s \<noteq> units_of ''wrapped'' \<or> \<not> hs_capable s \<or> hs_ssh_remote s \<or> hs_closing s, 409, ''HANDOFF_UNSUPPORTED''),
      (\<not> (case hi_bearer i of None \<Rightarrow> False | Some b \<Rightarrow> matches sha (cw_credentials w) (cw_id w) b), 403, ''HANDOFF_BEARER_REQUIRED''),
      (\<not> body_ok i, 400, ''HANDOFF_INVALID_REQUEST''),
      (already_recorded i s, 409, ''HANDOFF_ALREADY_RECORDED''),
      (policy_of i = None, 400, ''HANDOFF_INVALID_REQUEST''),
      (policy_of i = Some (units_of ''never-attempted'') \<and> (hs_external_policy s \<or> hs_provenance_capable s), 409, ''HANDOFF_CONSENT_UNSUPPORTED''),
      (activeHandoff s, 409, ''HANDOFF_FENCED''),
      (\<not> instance_named i s, 409, ''HANDOFF_INSTANCE_CHANGED''),
      (\<not> incumbent_present s, 409, ''HANDOFF_INCUMBENT_UNAVAILABLE''),
      (captureCustody sha s (the (policy_of i)) (hi_unsettled i) (hi_rows i) = None, 409, ''HANDOFF_PENDING_OR_UNKNOWN'')])"

definition intent_document :: "(units \<Rightarrow> units) \<Rightarrow> handoff_input \<Rightarrow> principal \<Rightarrow> handoff_session \<Rightarrow> jdoc list \<Rightarrow> jdoc" where
  "intent_document sha i p s rows = DObj (map (\<lambda>(k, v). (units_of k, v))
       [(''schema'', DStr (units_of ''telepty.cooperative-handoff-intent/v1'')), (''id'', value_or_null (in_body i ''intent_id'')),
        (''state'', DStr (units_of ''awaiting_ack'')), (''epoch'', DStr (hs_epoch s)), (''generation'', DInt (the (hs_generation s))),
        (''owner_generation'', owner_doc (hs_owner_generation s)),
        (''actor'', DObj (map (\<lambda>(k, v). (units_of k, DStr v)) [(''id'', pr_id p), (''key_id'', pr_key_id p),
           (''audience'', pr_audience p), (''source'', units_of ''ed25519'')])),
        (''pending_policy'', DStr (the (policy_of i)))]
     @ snapshotReceipt sha rows
     @ map (\<lambda>(k, v). (units_of k, v)) [(''at'', DInt (hi_at i)), (''expires_at'', DInt (hi_late i + HANDOFF_TIMEOUT_MS))])"

text \<open>A handler that answers at once gives \<open>Some\<close> reply; one that waits for the acknowledgement \<open>None\<close>.\<close>

definition handoff_begin :: "(units \<Rightarrow> units) \<Rightarrow> handoff_input \<Rightarrow> handoff_world \<Rightarrow> handoff_reply option \<times> handoff_world" where
  "handoff_begin sha i w =
     (let s = cw_session w in case first_denial (begin_checks sha i w) of
        Some (status, code) \<Rightarrow>
          (Some (if code = ''HANDOFF_ALREADY_RECORDED'' then HDeniedWith status code (handoff_status s) else HDenied status code), w)
      | None \<Rightarrow>
        let policy = the (policy_of i); rows = the (captureCustody sha s policy (hi_unsettled i) (hi_rows i)) in
        if bodyDigest sha (Some (DArr rows)) = None then (Some HThrown, w)
        else
          let intent = \<lparr>hd_serial = cw_serial w, hd_doc = intent_document sha i (the (hi_principal i)) s rows\<rparr>;
              s' = s\<lparr>hs_handoff := Some intent\<rparr>; w' = w\<lparr>cw_serial := cw_serial w + 1\<rparr> in
          case hi_persist i of
            NotPersisted \<Rightarrow> (Some (HDenied 503 ''HANDOFF_STORE_UNAVAILABLE''), w')
          | PersistedUnsure \<Rightarrow> (Some (HDenied 503 ''HANDOFF_STORE_UNAVAILABLE''), w'\<lparr>cw_session := s', cw_stored := s'\<rparr>)
          | Persisted \<Rightarrow> (None, w'\<lparr>cw_session := s', cw_stored := s', cw_pending := Some (hd_serial intent, hs_owner_ws s),
              cw_attempts := cw_attempts w @ [\<lparr>ha_object = cw_object w, ha_intent = hd_serial intent, ha_doc = hd_doc intent,
                ha_ws = hs_owner_ws s, ha_epoch = hs_epoch s, ha_generation = the (hs_generation s),
                ha_owner_generation = hs_owner_generation s, ha_owner = hs_owner s, ha_policy = policy,
                ha_receipt = snapshotReceipt sha rows, ha_answer = (if hi_send_ok i then None else Some None)\<rparr>]\<rparr>))"

section \<open>The acknowledgement\<close>

definition settle_attempt :: "nat \<Rightarrow> jdoc option \<Rightarrow> handoff_world \<Rightarrow> handoff_world" where
  "settle_attempt n a w = w\<lparr>cw_attempts := map (\<lambda>t. if ha_intent t = n \<and> ha_answer t = None then t\<lparr>ha_answer := Some a\<rparr> else t) (cw_attempts w)\<rparr>"

definition ack_ok :: "jdoc \<Rightarrow> attempt \<Rightarrow> int \<Rightarrow> bool" where
  "ack_ok m t now \<longleftrightarrow> now \<le> number_at (ha_doc t) ''expires_at'' \<and> same_value (member m ''intent_id'') (member (ha_doc t) ''id'')
     \<and> member m ''session_epoch'' = Some (DStr (ha_epoch t)) \<and> member m ''owner_generation'' = Some (owner_doc (ha_owner_generation t))
     \<and> member m ''credential_generation'' = Some (DInt (ha_generation t))
     \<and> (text_is m ''status'' (units_of ''exited'') \<and> exit_code_ok (member m ''exit_code'') \<and> exit_signal_ok (member m ''exit_signal'')
        \<or> text_is m ''status'' (units_of ''refused''))"

definition acceptAck :: "nat option \<Rightarrow> jdoc \<Rightarrow> int \<Rightarrow> handoff_world \<Rightarrow> bool \<times> handoff_world" where
  "acceptAck ws m now w = (case cw_pending w of None \<Rightarrow> (False, w)
     | Some (n, pending_ws) \<Rightarrow>
       (case find (\<lambda>t. ha_intent t = n) (cw_attempts w) of None \<Rightarrow> (False, w)
        | Some t \<Rightarrow> if pending_ws = ws \<and> map_option hd_serial (hs_handoff (cw_session w)) = Some n \<and> ack_ok m t now
            then (True, settle_attempt n (Some m) w) else (False, w)))"

definition handoff_timeout :: "nat \<Rightarrow> handoff_world \<Rightarrow> handoff_world" where
  "handoff_timeout n w = settle_attempt n None w"

section \<open>The rest of the request\<close>

text \<open>What the handler meets after the acknowledgement, and the values it draws.\<close>

record release_facts =
  rl_now :: int
  rl_done :: int
  rl_unsettled :: bool
  rl_rows :: "jdoc list option"
  rl_epoch :: units
  rl_secret :: units
  rl_nonce :: units
  rl_first :: persist_outcome
  rl_second :: persist_outcome

definition still_current :: "attempt \<Rightarrow> handoff_world \<Rightarrow> bool" where
  "still_current t w \<longleftrightarrow> (let s = cw_session w in cw_object w = ha_object t \<and> \<not> hs_closing s \<and> hs_epoch s = ha_epoch t
     \<and> hs_generation s = Some (ha_generation t) \<and> hs_owner_generation s = ha_owner_generation t \<and> hs_owner_ws s = ha_ws t
     \<and> map_option hd_serial (hs_handoff s) = Some (ha_intent t) \<and> hs_owner s = ha_owner t)"

definition doc_set :: "jdoc \<Rightarrow> string \<Rightarrow> jdoc \<Rightarrow> jdoc" where
  "doc_set d k v = DObj (jm_set (units_of k) v (members d))"

definition with_state :: "string \<Rightarrow> handoff_session \<Rightarrow> handoff_session" where
  "with_state st s = s\<lparr>hs_handoff := map_option (\<lambda>h. h\<lparr>hd_doc := doc_set (hd_doc h) ''state'' (DStr (units_of st))\<rparr>) (hs_handoff s)\<rparr>"

definition persistSessions :: "persist_outcome \<Rightarrow> handoff_world \<Rightarrow> handoff_world" where
  "persistSessions result w = (if result = NotPersisted then w else w\<lparr>cw_stored := cw_session w\<rparr>)"

definition in_state :: "string \<Rightarrow> persist_outcome \<Rightarrow> handoff_world \<Rightarrow> handoff_world" where
  "in_state st result w = persistSessions result (w\<lparr>cw_session := with_state st (cw_session w)\<rparr>)"

definition same_custody :: "(units \<Rightarrow> units) \<Rightarrow> attempt \<Rightarrow> handoff_session \<Rightarrow> jdoc list \<Rightarrow> bool" where
  "same_custody sha t s rows \<longleftrightarrow> (if ha_policy t = units_of ''empty'' then rows = []
     else consents_to sha s (ha_epoch t) (ha_owner_generation t) rows
       \<and> jm_get (snapshotReceipt sha rows) (units_of ''pending_digest'') = jm_get (ha_receipt t) (units_of ''pending_digest''))"

definition committed_document :: "jdoc \<Rightarrow> release_facts \<Rightarrow> jdoc \<Rightarrow> jdoc" where
  "committed_document m r d = doc_set (doc_set (doc_set (doc_set (doc_set d ''state'' (DStr (units_of ''committed'')))
     ''next_epoch'' (DStr (rl_epoch r))) ''exit_code'' (value_or_null (member m ''exit_code''))) ''exit_signal'' (value_or_null (member m ''exit_signal'')))
     ''completed_at'' (DInt (rl_done r))"

definition release_bearer :: "release_facts \<Rightarrow> units" where
  "release_bearer r = rl_epoch r @ [46] @ rl_secret r"

definition released :: "(units \<Rightarrow> units) \<Rightarrow> attempt \<Rightarrow> release_facts \<Rightarrow> held \<Rightarrow> handoff_session \<Rightarrow> handoff_session" where
  "released sha t r committed s = s\<lparr>hs_epoch := rl_epoch r, hs_generation := Some (ha_generation t + 1),
     hs_verifier := verifierFor sha (release_bearer r), hs_nonce := rl_nonce r, hs_epoch_proved := None, hs_owner_ws := None,
     hs_owner_token := None, hs_owner_pid := None, hs_pty_pid := None, hs_owner_generation := None, hs_ready := False,
     hs_handoff := Some committed, hs_audit := keep_last 32 (hs_audit s @ [hd_doc committed])\<rparr>"

definition handoff_commit :: "(units \<Rightarrow> units) \<Rightarrow> attempt \<Rightarrow> jdoc \<Rightarrow> release_facts \<Rightarrow> handoff_world \<Rightarrow> handoff_reply \<times> handoff_world" where
  "handoff_commit sha t m r w =
     (let s = cw_session w; w' = w\<lparr>cw_serial := cw_serial w + 1\<rparr>;
          committed = \<lparr>hd_serial = cw_serial w, hd_doc = committed_document m r (hd_doc (the (hs_handoff s)))\<rparr>;
          s' = released sha t r committed s;
          visible = w'\<lparr>cw_session := s', cw_stored := s',
            cw_credentials := snd (adopt (cw_id w) (Some (hs_epoch s')) (Some (hs_verifier s')) (hs_generation s') (snd (revoke (cw_id w) (cw_credentials w)))),
            cw_nonces := jm_set (cw_id w) (rl_nonce r) (cw_nonces w)\<rparr> in
      case rl_first r of
        NotPersisted \<Rightarrow> (HDenied 503 ''HANDOFF_STORE_UNAVAILABLE'', in_state ''outcome_unknown'' (rl_second r) w')
      | PersistedUnsure \<Rightarrow> (HDenied 503 ''HANDOFF_STORE_UNAVAILABLE'', visible)
      | Persisted \<Rightarrow> (HGranted \<lparr>hg_token = release_bearer r, hg_nonce = rl_nonce r, hg_generation = ha_generation t + 1,
            hg_previous_epoch = ha_epoch t, hg_status = handoff_status s'\<rparr>, visible))"

definition with_ack :: "(units \<Rightarrow> units) \<Rightarrow> attempt \<Rightarrow> jdoc \<Rightarrow> release_facts \<Rightarrow> handoff_world \<Rightarrow> handoff_reply \<times> handoff_world" where
  "with_ack sha t m r w = (case rl_rows r of
       None \<Rightarrow> (HDenied 503 ''HANDOFF_CUSTODY_UNAVAILABLE'', in_state ''outcome_unknown'' (rl_first r) w)
     | Some rows \<Rightarrow>
       if ha_policy t \<noteq> units_of ''empty'' \<and> consents_to sha (cw_session w) (ha_epoch t) (ha_owner_generation t) rows
          \<and> bodyDigest sha (Some (DArr rows)) = None
       then (HDenied 503 ''HANDOFF_CUSTODY_UNAVAILABLE'', in_state ''outcome_unknown'' (rl_first r) w)
       else if \<not> same_custody sha t (cw_session w) rows \<or> rl_unsettled r
       then (let w' = in_state ''outcome_unknown'' (rl_first r) w in
             (HDeniedWith 409 ''HANDOFF_PENDING_OR_UNKNOWN'' (handoff_status (cw_session w')), w'))
       else handoff_commit sha t m r w)"

definition not_released :: "jdoc option \<Rightarrow> release_facts \<Rightarrow> handoff_world \<Rightarrow> handoff_reply \<times> handoff_world" where
  "not_released a r w =
     (let refused = (case a of None \<Rightarrow> False | Some m \<Rightarrow> text_is m ''status'' (units_of ''refused''));
          w1 = in_state (if refused then ''refused'' else ''outcome_unknown'') (rl_first r) w;
          w2 = (if rl_first r = Persisted then w1 else w1\<lparr>cw_session := with_state ''outcome_unknown'' (cw_session w1)\<rparr>) in
      (HDeniedWith 409 (if refused then ''HANDOFF_INCUMBENT_REFUSED'' else ''HANDOFF_OUTCOME_UNKNOWN'') (handoff_status (cw_session w2)), w2))"

text \<open>
  The attempt with a settled promise goes on. The awaiting handlers leave one by one; the entry
  they delete from \<open>pending\<close> is that of their session id.
\<close>

definition handoff_finish :: "(units \<Rightarrow> units) \<Rightarrow> nat \<Rightarrow> release_facts \<Rightarrow> handoff_world \<Rightarrow> handoff_reply option \<times> handoff_world" where
  "handoff_finish sha n r w =
     (case find (\<lambda>t. ha_intent t = n) (cw_attempts w) of None \<Rightarrow> (None, w)
      | Some t \<Rightarrow> (case ha_answer t of None \<Rightarrow> (None, w)
        | Some a \<Rightarrow>
          let w0 = w\<lparr>cw_pending := None, cw_attempts := filter (\<lambda>t. ha_intent t \<noteq> n) (cw_attempts w)\<rparr> in
          if \<not> still_current t w0 then (Some (HDenied 409 ''HANDOFF_INSTANCE_CHANGED''), w0)
          else case a of
            Some m \<Rightarrow> if rl_now r > number_at (ha_doc t) ''expires_at'' \<or> \<not> text_is m ''status'' (units_of ''exited'')
                then apfst Some (not_released a r w0) else apfst Some (with_ack sha t m r w0)
          | None \<Rightarrow> apfst Some (not_released None r w0)))"

end
