(* ===== verification/Handoff_Laws.thy ===== *)
theory Handoff_Laws
  imports Takeover_Laws Cooperative_Handoff
begin

text \<open>
  What the release of a live session guarantees over any run of the daemon: requests,
  acknowledgements, timers, other changes of the session, saves, and restarts at any moment.
\<close>

section \<open>Runs\<close>

datatype handoff_op =
    Begin handoff_input
  | Ack "nat option" jdoc int
  | TimeOut nat
  | Finish nat release_facts
  | Outside handoff_session
  | Saved
  | Replaced handoff_session
  | Restart

text \<open>After a restart the session has no socket and its hand-over is what \<open>restoreHandoffRecord\<close> makes of the stored one.\<close>

definition restarted :: "(units \<Rightarrow> units) \<Rightarrow> handoff_world \<Rightarrow> handoff_world" where
  "restarted sha w = (let s = cw_stored w in
     case restoreHandoffRecord sha (hs_capable s) (map_option hd_doc (hs_handoff s)) (Some (DArr (hs_audit s))) (hs_epoch s) (hs_generation s) of
       (capable, h, audit) \<Rightarrow> w\<lparr>cw_object := cw_serial w, cw_serial := cw_serial w + 2, cw_pending := None, cw_attempts := [],
          cw_session := s\<lparr>hs_capable := capable, hs_owner_ws := None, hs_ws_open := False, hs_strict_connected := False,
            hs_owner_generation := None, hs_handoff := map_option (\<lambda>d. \<lparr>hd_serial = cw_serial w + 1, hd_doc = d\<rparr>) h,
            hs_audit := (case audit of None \<Rightarrow> [] | Some rows \<Rightarrow> rows)\<rparr>\<rparr>)"

fun handoff_step :: "(units \<Rightarrow> units) \<Rightarrow> handoff_op \<Rightarrow> handoff_world \<Rightarrow> handoff_reply option \<times> handoff_world" where
  "handoff_step sha (Begin i) w = handoff_begin sha i w"
| "handoff_step sha (Ack ws m now) w = (None, snd (acceptAck ws m now w))"
| "handoff_step sha (TimeOut n) w = (None, handoff_timeout n w)"
| "handoff_step sha (Finish n r) w = handoff_finish sha n r w"
| "handoff_step sha (Outside s) w = (None, w\<lparr>cw_session := s\<lparr>hs_handoff := hs_handoff (cw_session w), hs_audit := hs_audit (cw_session w)\<rparr>\<rparr>)"
| "handoff_step sha Saved w = (None, w\<lparr>cw_stored := cw_session w\<rparr>)"
| "handoff_step sha (Replaced s) w = (None, w\<lparr>cw_session := s\<lparr>hs_handoff := None, hs_audit := []\<rparr>, cw_object := cw_serial w, cw_serial := cw_serial w + 1\<rparr>)"
| "handoff_step sha Restart w = (None, restarted sha w)"

definition handoff_run :: "(units \<Rightarrow> units) \<Rightarrow> handoff_op list \<Rightarrow> handoff_world \<Rightarrow> handoff_world" where
  "handoff_run sha ops w = fold (\<lambda>x. snd \<circ> handoff_step sha x) ops w"

fun handoff_replies :: "(units \<Rightarrow> units) \<Rightarrow> handoff_op list \<Rightarrow> handoff_world \<Rightarrow> handoff_reply option list" where
  "handoff_replies sha [] w = []"
| "handoff_replies sha (x # xs) w = (case handoff_step sha x w of (r, w') \<Rightarrow> r # handoff_replies sha xs w')"

section \<open>The fence\<close>

lemma begin_fenced:
  assumes "activeHandoff (cw_session w)"
  shows "snd (handoff_begin sha i w) = w \<and> (\<exists>r. fst (handoff_begin sha i w) = Some r \<and> (\<forall>g. r \<noteq> HGranted g))"
proof -
  have "first_denial (begin_checks sha i w) \<noteq> None" using assms by (auto simp: first_denial_None begin_checks_def Let_def)
  then obtain status code where "first_denial (begin_checks sha i w) = Some (status, code)" by auto
  then show ?thesis by (simp add: handoff_begin_def)
qed

lemma begin_no_grant: "fst (handoff_begin sha i w) \<noteq> Some (HGranted g)"
  by (auto simp: handoff_begin_def Let_def split: option.splits prod.splits persist_outcome.splits if_splits)

lemma settle_fields [simp]:
  "cw_session (settle_attempt n a w) = cw_session w" "cw_stored (settle_attempt n a w) = cw_stored w"
  "cw_object (settle_attempt n a w) = cw_object w" "cw_serial (settle_attempt n a w) = cw_serial w"
  "cw_credentials (settle_attempt n a w) = cw_credentials w" "cw_id (settle_attempt n a w) = cw_id w"
  "cw_pending (settle_attempt n a w) = cw_pending w" "cw_nonces (settle_attempt n a w) = cw_nonces w"
  by (simp_all add: settle_attempt_def)

lemma settle_attempts: "t \<in> set (cw_attempts (settle_attempt n a w)) \<Longrightarrow>
    \<exists>t0 \<in> set (cw_attempts w). t = t0 \<or> (ha_intent t0 = n \<and> ha_answer t0 = None \<and> t = t0\<lparr>ha_answer := Some a\<rparr>)"
  by (auto simp: settle_attempt_def split: if_splits)

lemma settle_intents [simp]: "map ha_intent (cw_attempts (settle_attempt n a w)) = map ha_intent (cw_attempts w)"
  by (simp add: settle_attempt_def)

text \<open>An attempt that can still go on is one that holds the session's present hand-over.\<close>

definition holds_it :: "handoff_world \<Rightarrow> attempt \<Rightarrow> bool" where
  "holds_it w t \<longleftrightarrow> ha_object t = cw_object w \<and> map_option hd_serial (hs_handoff (cw_session w)) = Some (ha_intent t)"

definition fenced :: "handoff_world \<Rightarrow> bool" where
  "fenced w \<longleftrightarrow> activeHandoff (cw_session w) \<and> activeHandoff (cw_stored w) \<and> (\<forall>t \<in> set (cw_attempts w). \<not> holds_it w t)"

lemma finish_not_current:
  assumes "\<forall>t \<in> set (cw_attempts w). \<not> holds_it w t"
  shows "\<exists>r w'. handoff_finish sha n a w = (r, w') \<and> (w' = w \<or> w' = w\<lparr>cw_pending := None, cw_attempts := filter (\<lambda>t. ha_intent t \<noteq> n) (cw_attempts w)\<rparr>)
     \<and> (\<forall>g. r \<noteq> Some (HGranted g))"
proof (cases "find (\<lambda>t. ha_intent t = n) (cw_attempts w)")
  case (Some t)
  then have "t \<in> set (cw_attempts w)" by (auto simp: find_Some_iff)
  with assms have "\<not> still_current t w" by (auto simp: holds_it_def still_current_def Let_def)
  then have "\<not> still_current t (w\<lparr>cw_pending := None, cw_attempts := as\<rparr>)" for as by (simp add: still_current_def Let_def)
  with Some show ?thesis by (cases "ha_answer t") (simp_all add: handoff_finish_def Let_def)
qed (simp add: handoff_finish_def)

lemma restored_active:
  assumes "activeHandoff s"
  shows "\<exists>d. fst (snd (restoreHandoffRecord sha c (map_option hd_doc (hs_handoff s)) (Some (DArr rows)) e g)) = Some d
     \<and> \<not> text_is d ''state'' (units_of ''committed'') \<and> \<not> text_is d ''state'' (units_of ''refused'')"
proof -
  have i: "\<not> text_is invalid_handoff ''state'' (units_of ''committed'')" "\<not> text_is invalid_handoff ''state'' (units_of ''refused'')" by code_simp+
  from assms obtain h where h: "hs_handoff s = Some h" and d: "\<not> text_is (hd_doc h) ''state'' (units_of ''committed'')"
    "\<not> text_is (hd_doc h) ''state'' (units_of ''refused'')" by (auto simp: activeHandoff_def split: option.splits)
  show ?thesis using i d by (simp add: restoreHandoffRecord_def restoreHandoff_def h Let_def)
qed

lemma restarted_fenced: "activeHandoff (cw_stored w) \<Longrightarrow> fenced (restarted sha w)"
  using restored_active [of "cw_stored w" sha "hs_capable (cw_stored w)" "hs_audit (cw_stored w)" "hs_epoch (cw_stored w)" "hs_generation (cw_stored w)"]
  by (auto simp: restarted_def Let_def fenced_def activeHandoff_def split: prod.splits option.splits)

fun replaces :: "handoff_op \<Rightarrow> bool" where
  "replaces (Replaced s) \<longleftrightarrow> True"
| "replaces (Begin i) \<longleftrightarrow> False"
| "replaces (Ack ws m now) \<longleftrightarrow> False"
| "replaces (TimeOut n) \<longleftrightarrow> False"
| "replaces (Finish n r) \<longleftrightarrow> False"
| "replaces (Outside s) \<longleftrightarrow> False"
| "replaces Saved \<longleftrightarrow> False"
| "replaces Restart \<longleftrightarrow> False"

lemma settle_fenced: "fenced w \<Longrightarrow> fenced (settle_attempt n a w)"
  unfolding fenced_def holds_it_def by (fastforce dest: settle_attempts)

lemma fenced_step:
  assumes "fenced w" and "\<not> replaces x"
  shows "fenced (snd (handoff_step sha x w)) \<and> fst (handoff_step sha x w) \<noteq> Some (HGranted g)"
proof (cases x)
  case (Begin i)
  then show ?thesis using begin_fenced [of w sha i] assms by (auto simp: fenced_def)
next
  case (Ack ws m now)
  then show ?thesis using settle_fenced [OF assms(1)] assms(1) by (auto simp: acceptAck_def split: option.splits)
next
  case (TimeOut n)
  then show ?thesis using settle_fenced [OF assms(1)] by (simp add: handoff_timeout_def)
next
  case (Finish n r)
  then show ?thesis using finish_not_current [of w sha n r] assms(1) by (auto simp: fenced_def holds_it_def)
next
  case (Outside s)
  then show ?thesis using assms(1) by (simp add: fenced_def holds_it_def activeHandoff_def)
next
  case Restart
  then show ?thesis using restarted_fenced assms(1) by (simp add: fenced_def)
qed (use assms in \<open>simp_all add: fenced_def holds_it_def\<close>)

lemma fenced_run:
  "fenced w \<Longrightarrow> list_all (\<lambda>x. \<not> replaces x) ops \<Longrightarrow>
     (\<forall>g. Some (HGranted g) \<notin> set (handoff_replies sha ops w)) \<and> fenced (handoff_run sha ops w)"
proof (induction ops arbitrary: w)
  case (Cons x xs)
  obtain r w' where s: "handoff_step sha x w = (r, w')" by (cases "handoff_step sha x w")
  from fenced_step [OF Cons.prems(1), of x sha] Cons.prems(2) s have "fenced w'" "\<forall>g. r \<noteq> Some (HGranted g)" by auto
  with Cons.IH [of w'] Cons.prems(2) s show ?case by (auto simp: handoff_run_def)
qed (simp add: handoff_run_def)

section \<open>The order of intents\<close>

definition handoff_inv :: "handoff_world \<Rightarrow> bool" where
  "handoff_inv w \<longleftrightarrow> distinct (map ha_intent (cw_attempts w)) \<and> (\<forall>t \<in> set (cw_attempts w). ha_intent t < cw_serial w)"

lemma begin_cases:
  obtains r where "handoff_begin sha i w = (Some r, w)"
  | "first_denial (begin_checks sha i w) = None" "snd (handoff_begin sha i w) = w\<lparr>cw_serial := cw_serial w + 1\<rparr>"
  | s' where "first_denial (begin_checks sha i w) = None"
      "snd (handoff_begin sha i w) = w\<lparr>cw_serial := cw_serial w + 1, cw_session := s', cw_stored := s'\<rparr>"
  | s' t where "first_denial (begin_checks sha i w) = None"
      "bodyDigest sha (Some (DArr (the (captureCustody sha (cw_session w) (the (policy_of i)) (hi_unsettled i) (hi_rows i))))) \<noteq> None"
      "snd (handoff_begin sha i w) = w\<lparr>cw_serial := cw_serial w + 1, cw_session := s', cw_stored := s', cw_pending := Some (cw_serial w, hs_owner_ws (cw_session w)),
         cw_attempts := cw_attempts w @ [t]\<rparr>"
      "t = \<lparr>ha_object = cw_object w, ha_intent = cw_serial w,
         ha_doc = intent_document sha i (the (hi_principal i)) (cw_session w) (the (captureCustody sha (cw_session w) (the (policy_of i)) (hi_unsettled i) (hi_rows i))),
         ha_ws = hs_owner_ws (cw_session w), ha_epoch = hs_epoch (cw_session w), ha_generation = the (hs_generation (cw_session w)),
         ha_owner_generation = hs_owner_generation (cw_session w), ha_owner = hs_owner (cw_session w), ha_policy = the (policy_of i),
         ha_receipt = snapshotReceipt sha (the (captureCustody sha (cw_session w) (the (policy_of i)) (hi_unsettled i) (hi_rows i))),
         ha_answer = (if hi_send_ok i then None else Some None)\<rparr>"
proof (cases "first_denial (begin_checks sha i w)")
  case (Some d)
  then show ?thesis using that(1) by (cases d) (simp add: handoff_begin_def)
next
  case None
  show ?thesis
  proof (cases "bodyDigest sha (Some (DArr (the (captureCustody sha (cw_session w) (the (policy_of i)) (hi_unsettled i) (hi_rows i)))))")
    case n: None
    then show ?thesis using that(1) None by (simp add: handoff_begin_def Let_def)
  next
    case (Some h)
    show ?thesis
    proof (cases "hi_persist i")
      case Persisted
      then show ?thesis using that(4) None Some by (simp add: handoff_begin_def Let_def)
    next
      case PersistedUnsure
      then show ?thesis using that(3) None Some by (simp add: handoff_begin_def Let_def)
    next
      case NotPersisted
      then show ?thesis using that(2) None Some by (simp add: handoff_begin_def Let_def)
    qed
  qed
qed

lemma finish_attempts:
  "cw_attempts (snd (handoff_finish sha n r w)) \<in> {cw_attempts w, filter (\<lambda>t. ha_intent t \<noteq> n) (cw_attempts w)}"
  "cw_serial w \<le> cw_serial (snd (handoff_finish sha n r w))"
  by (auto simp: handoff_finish_def with_ack_def not_released_def handoff_commit_def in_state_def persistSessions_def Let_def
      split: option.splits persist_outcome.splits)

lemma inv_step: "handoff_inv w \<Longrightarrow> handoff_inv (snd (handoff_step sha x w))"
proof (cases x)
  case (Begin i)
  assume inv: "handoff_inv w"
  show ?thesis by (rule begin_cases [of sha i w]) (use Begin inv in \<open>auto simp: handoff_inv_def\<close>)
next
  case (Ack ws m now)
  assume inv: "handoff_inv w"
  have "handoff_inv (settle_attempt n a w)" for n a
    using inv unfolding handoff_inv_def by (fastforce dest: settle_attempts)
  then show ?thesis using Ack inv by (auto simp: acceptAck_def split: option.splits)
next
  case (TimeOut n)
  assume inv: "handoff_inv w"
  have "handoff_inv (settle_attempt n None w)" using inv unfolding handoff_inv_def by (fastforce dest: settle_attempts)
  then show ?thesis using TimeOut by (simp add: handoff_timeout_def)
next
  case (Finish n r)
  assume inv: "handoff_inv w"
  show ?thesis using finish_attempts [where sha = sha and n = n and r = r and w = w] inv Finish by (fastforce simp: handoff_inv_def distinct_map_filter)
qed (auto simp: handoff_inv_def restarted_def Let_def split: prod.splits)

interpretation handoffs: op_machine "\<lambda>x. snd \<circ> handoff_step sha x" "\<lambda>x. True" handoff_inv for sha
  by unfold_locales (simp add: inv_step)

section \<open>After the acknowledgement\<close>

lemma with_state_fields [simp]:
  "map_option hd_serial (hs_handoff (with_state st s)) = map_option hd_serial (hs_handoff s)"
  "hs_epoch (with_state st s) = hs_epoch s"
  by (simp_all add: with_state_def option.map_comp comp_def)

lemma in_state_fields [simp]:
  "cw_object (in_state st p w) = cw_object w" "cw_attempts (in_state st p w) = cw_attempts w"
  "cw_session (in_state st p w) = with_state st (cw_session w)"
  by (simp_all add: in_state_def persistSessions_def)

lemma doc_set_member: "member (doc_set d k v) k' = (if k' = k then Some v else member d k')"
  by (cases d) (auto simp: doc_set_def member_def inj_eq [OF inj_units_of])

lemma committed_state: "text_is (committed_document m r d) ''state'' (units_of ''committed'')"
  by (simp add: committed_document_def text_is_def doc_set_member)

lemma finish_outcome:
  assumes "handoff_finish sha n r w = (Some reply, w')" and "reply \<noteq> HDenied 409 ''HANDOFF_INSTANCE_CHANGED''"
  shows "cw_attempts w' = filter (\<lambda>t. ha_intent t \<noteq> n) (cw_attempts w)"
    and "map_option hd_serial (hs_handoff (cw_session w')) = Some n \<or> \<not> activeHandoff (cw_session w')"
proof -
  from assms(1) obtain t a where t: "find (\<lambda>t. ha_intent t = n) (cw_attempts w) = Some t" "ha_answer t = Some a"
    by (auto simp: handoff_finish_def split: option.splits)
  define w0 where "w0 = w\<lparr>cw_pending := None, cw_attempts := filter (\<lambda>t. ha_intent t \<noteq> n) (cw_attempts w)\<rparr>"
  have c: "still_current t w0" using assms t by (auto simp: handoff_finish_def Let_def w0_def split: if_splits)
  have "ha_intent t = n" using t(1) by (auto simp: find_Some_iff)
  then have s0: "map_option hd_serial (hs_handoff (cw_session w0)) = Some n" using c by (simp add: still_current_def Let_def del: map_option_eq_Some)
  have "(Some reply, w') = (case a of
      Some m \<Rightarrow> if rl_now r > number_at (ha_doc t) ''expires_at'' \<or> \<not> text_is m ''status'' (units_of ''exited'')
        then apfst Some (not_released a r w0) else apfst Some (with_ack sha t m r w0)
    | None \<Rightarrow> apfst Some (not_released None r w0))"
    using assms(1) c unfolding handoff_finish_def t option.case Let_def w0_def [symmetric] by simp
  then have "w' = snd (not_released a r w0) \<or> (\<exists>m. w' = snd (with_ack sha t m r w0))"
    by (cases a) (auto simp: apfst_def map_prod_def split: if_splits prod.splits, metis snd_conv)
  then consider "w' = snd (not_released a r w0)" | m where "w' = snd (with_ack sha t m r w0)" by blast
  then have "cw_attempts w' = cw_attempts w0 \<and> (map_option hd_serial (hs_handoff (cw_session w')) = Some n \<or> \<not> activeHandoff (cw_session w'))"
  proof cases
    case 1
    then show ?thesis using s0 by (simp add: not_released_def Let_def del: map_option_eq_Some)
  next
    case (2 m)
    have "\<not> activeHandoff (cw_session (snd (handoff_commit sha t m r w0))) \<or> map_option hd_serial (hs_handoff (cw_session (snd (handoff_commit sha t m r w0)))) = Some n"
      "cw_attempts (snd (handoff_commit sha t m r w0)) = cw_attempts w0"
      using s0 by (cases "rl_first r"; simp add: handoff_commit_def Let_def activeHandoff_def released_def committed_state del: map_option_eq_Some)+
    then show ?thesis using 2 s0 by (simp add: with_ack_def Let_def del: map_option_eq_Some split: option.split) blast
  qed
  then show "cw_attempts w' = filter (\<lambda>t. ha_intent t \<noteq> n) (cw_attempts w)"
    "map_option hd_serial (hs_handoff (cw_session w')) = Some n \<or> \<not> activeHandoff (cw_session w')" by (simp_all add: w0_def)
qed

text \<open>
  C8. A hand-over whose outcome is not known is never tried again: once the handler has answered
  and left the intent neither committed nor refused, in memory and in the store, no later request,
  late acknowledgement, timer, save or restart of the daemon grants the session to anybody, and
  the session stays fenced, unless the session record itself is replaced.
\<close>

theorem unknown_outcome_stays_fenced:
  assumes "handoff_finish sha n r w = (Some reply, w')" and "reply \<noteq> HDenied 409 ''HANDOFF_INSTANCE_CHANGED''"
    and "activeHandoff (cw_session w')" and "activeHandoff (cw_stored w')" and "list_all (\<lambda>x. \<not> replaces x) ops"
  shows "(\<forall>g. Some (HGranted g) \<notin> set (handoff_replies sha ops w')) \<and> activeHandoff (cw_session (handoff_run sha ops w'))"
proof -
  have "\<forall>t \<in> set (cw_attempts w'). \<not> holds_it w' t"
    using finish_outcome [OF assms(1,2)] assms(3) by (auto simp: holds_it_def)
  then have "fenced w'" using assms(3,4) by (simp add: fenced_def)
  from fenced_run [OF this assms(5)] show ?thesis by (simp add: fenced_def)
qed

section \<open>What a grant rests on\<close>

definition begun :: "(units \<Rightarrow> units) \<Rightarrow> handoff_input \<Rightarrow> handoff_world \<Rightarrow> jdoc list \<Rightarrow> attempt \<Rightarrow> bool" where
  "begun sha i w rows t \<longleftrightarrow> first_denial (begin_checks sha i w) = None
     \<and> captureCustody sha (cw_session w) (the (policy_of i)) (hi_unsettled i) (hi_rows i) = Some rows \<and> bodyDigest sha (Some (DArr rows)) \<noteq> None
     \<and> ha_doc t = intent_document sha i (the (hi_principal i)) (cw_session w) rows \<and> ha_policy t = the (policy_of i)
     \<and> ha_ws t = hs_owner_ws (cw_session w) \<and> ha_epoch t = hs_epoch (cw_session w) \<and> ha_generation t = the (hs_generation (cw_session w))
     \<and> ha_owner_generation t = hs_owner_generation (cw_session w) \<and> ha_owner t = hs_owner (cw_session w)
     \<and> ha_receipt t = snapshotReceipt sha rows"

definition explained :: "(units \<Rightarrow> units) \<Rightarrow> handoff_op list \<Rightarrow> handoff_world \<Rightarrow> bool" where
  "explained sha ops w \<longleftrightarrow> (\<forall>t \<in> set (cw_attempts w).
     (\<exists>i w0 rows. Begin i \<in> set ops \<and> begun sha i w0 rows t)
     \<and> (\<forall>m. ha_answer t = Some (Some m) \<longrightarrow> (\<exists>ws now. Ack ws m now \<in> set ops \<and> ack_ok m t now)))"

lemma ack_ok_answer [simp]: "ack_ok m (t\<lparr>ha_answer := a\<rparr>) now = ack_ok m t now"
  by (simp add: ack_ok_def)

lemma begun_answer [simp]: "begun sha i w rows (t\<lparr>ha_answer := a\<rparr>) = begun sha i w rows t"
  by (simp add: begun_def)

lemma explained_mono: "explained sha ops w \<Longrightarrow> set (cw_attempts w') \<subseteq> set (cw_attempts w) \<Longrightarrow> explained sha (ops @ [x]) w'"
  unfolding explained_def by (simp, meson subsetD)

lemma begin_explained:
  assumes "explained sha ops w"
  shows "explained sha (ops @ [Begin i]) (snd (handoff_begin sha i w))"
proof (rule begin_cases [of sha i w])
  fix s' t
  let ?rows = "the (captureCustody sha (cw_session w) (the (policy_of i)) (hi_unsettled i) (hi_rows i))"
  assume c: "first_denial (begin_checks sha i w) = None" and h: "bodyDigest sha (Some (DArr ?rows)) \<noteq> None"
    and w': "snd (handoff_begin sha i w) = w\<lparr>cw_serial := cw_serial w + 1, cw_session := s', cw_stored := s', cw_pending := Some (cw_serial w, hs_owner_ws (cw_session w)),
         cw_attempts := cw_attempts w @ [t]\<rparr>"
    and t: "t = \<lparr>ha_object = cw_object w, ha_intent = cw_serial w, ha_doc = intent_document sha i (the (hi_principal i)) (cw_session w) ?rows,
         ha_ws = hs_owner_ws (cw_session w), ha_epoch = hs_epoch (cw_session w), ha_generation = the (hs_generation (cw_session w)),
         ha_owner_generation = hs_owner_generation (cw_session w), ha_owner = hs_owner (cw_session w), ha_policy = the (policy_of i),
         ha_receipt = snapshotReceipt sha ?rows, ha_answer = (if hi_send_ok i then None else Some None)\<rparr>"
  have "captureCustody sha (cw_session w) (the (policy_of i)) (hi_unsettled i) (hi_rows i) = Some ?rows"
    using c [unfolded first_denial_None begin_checks_def Let_def] by auto
  then have "begun sha i w ?rows t" using c h by (simp add: begun_def t)
  moreover have "ha_answer t \<noteq> Some (Some m)" for m by (simp add: t)
  ultimately show ?thesis using assms unfolding explained_def w' by auto meson+
qed (use explained_mono [OF assms] in auto)

lemma ack_explained:
  assumes "explained sha ops w" and "handoff_inv w"
  shows "explained sha (ops @ [Ack ws m now]) (snd (acceptAck ws m now w))"
proof (cases "fst (acceptAck ws m now w)")
  case False
  then have "snd (acceptAck ws m now w) = w" by (auto simp: acceptAck_def split: option.splits if_splits)
  then show ?thesis using explained_mono [OF assms(1), of w] by simp
next
  case True
  then obtain n t where t: "find (\<lambda>t. ha_intent t = n) (cw_attempts w) = Some t" and ok: "ack_ok m t now"
    and w': "snd (acceptAck ws m now w) = settle_attempt n (Some m) w"
    by (auto simp: acceptAck_def split: option.splits if_splits)
  from t have t': "t \<in> set (cw_attempts w)" "ha_intent t = n" by (auto simp: find_Some_iff)
  have same: "t0 = t" if "t0 \<in> set (cw_attempts w)" "ha_intent t0 = n" for t0
    using that t' assms(2) by (auto simp: handoff_inv_def distinct_map inj_on_def)
  have "(\<exists>i w0 rows. Begin i \<in> set ops \<and> begun sha i w0 rows u)
     \<and> (\<forall>m'. ha_answer u = Some (Some m') \<longrightarrow> (\<exists>ws' now'. Ack ws' m' now' \<in> set (ops @ [Ack ws m now]) \<and> ack_ok m' u now'))"
    if "u \<in> set (cw_attempts (settle_attempt n (Some m) w))" for u
  proof -
    from settle_attempts [OF that] obtain t0 where t0: "t0 \<in> set (cw_attempts w)"
      "u = t0 \<or> (ha_intent t0 = n \<and> u = t0\<lparr>ha_answer := Some (Some m)\<rparr>)" by blast
    from t0(2) show ?thesis
    proof
      assume "u = t0"
      then show ?thesis using assms(1) t0(1) unfolding explained_def by (simp, meson)
    next
      assume u: "ha_intent t0 = n \<and> u = t0\<lparr>ha_answer := Some (Some m)\<rparr>"
      then have "ack_ok m u now" using same [OF t0(1)] ok by simp
      moreover have "\<exists>i w0 rows. Begin i \<in> set ops \<and> begun sha i w0 rows u"
        using assms(1) t0(1) u unfolding explained_def by simp
      moreover have "ha_answer u = Some (Some m)" using u by simp
      ultimately show ?thesis by auto
    qed
  qed
  then show ?thesis unfolding w' explained_def by simp
qed

lemma timeout_explained: "explained sha ops w \<Longrightarrow> explained sha (ops @ [x]) (settle_attempt n None w)"
  unfolding explained_def by (intro ballI) (drule settle_attempts, fastforce)

lemma explained_step:
  assumes "explained sha ops w" and "handoff_inv w"
  shows "explained sha (ops @ [x]) (snd (handoff_step sha x w))"
proof (cases x)
  case (Begin i)
  then show ?thesis using begin_explained [OF assms(1)] by simp
next
  case (Ack ws m now)
  then show ?thesis using ack_explained [OF assms] by simp
next
  case (TimeOut n)
  then show ?thesis using timeout_explained [OF assms(1)] by (simp add: handoff_timeout_def)
next
  case (Finish n r)
  have "set (cw_attempts (snd (handoff_finish sha n r w))) \<subseteq> set (cw_attempts w)" using finish_attempts(1) [where sha = sha and n = n and r = r and w = w] by auto
  from explained_mono [OF assms(1) this] show ?thesis using Finish by simp
next
  case Restart
  then show ?thesis by (auto simp: explained_def restarted_def Let_def split: prod.splits)
qed (use explained_mono [OF assms(1)] in simp_all)

lemma explained_run:
  assumes "cw_attempts w = []"
  shows "explained sha ops (handoff_run sha ops w)"
proof (induction ops rule: rev_induct)
  case Nil
  then show ?case using assms by (simp add: explained_def handoff_run_def)
next
  case (snoc x xs)
  have "handoff_inv w" using assms by (simp add: handoff_inv_def)
  then have "handoff_inv (handoff_run sha xs w)" unfolding handoff_run_def by (intro handoffs.run_keeps) (simp_all add: list_all_iff)
  from explained_step [OF snoc this, of x] show ?case by (simp add: handoff_run_def)
qed

section \<open>The grant\<close>

lemma grant_cases:
  assumes "handoff_finish sha n r w = (Some (HGranted g), w')"
  obtains t m rows w0 where "t \<in> set (cw_attempts w)" "ha_intent t = n" "ha_answer t = Some (Some m)" "still_current t w"
    "rl_now r \<le> number_at (ha_doc t) ''expires_at''" "text_is m ''status'' (units_of ''exited'')" "rl_rows r = Some rows" "\<not> rl_unsettled r"
    "same_custody sha t (cw_session w) rows" "ha_policy t \<noteq> units_of ''empty'' \<Longrightarrow> bodyDigest sha (Some (DArr rows)) \<noteq> None"
    "cw_session w0 = cw_session w" "cw_credentials w0 = cw_credentials w" "cw_id w0 = cw_id w" "cw_nonces w0 = cw_nonces w"
    "handoff_commit sha t m r w0 = (HGranted g, w')"
proof -
  from assms obtain t a where f: "find (\<lambda>t. ha_intent t = n) (cw_attempts w) = Some t" and a: "ha_answer t = Some a"
    by (auto simp: handoff_finish_def split: option.splits)
  define w0 where "w0 = w\<lparr>cw_pending := None, cw_attempts := filter (\<lambda>t. ha_intent t \<noteq> n) (cw_attempts w)\<rparr>"
  have c: "still_current t w0" using assms f a by (auto simp: handoff_finish_def Let_def w0_def split: if_splits)
  then have c': "still_current t w" by (simp add: still_current_def w0_def Let_def)
  have e: "(Some (HGranted g), w') = (case a of
      Some m \<Rightarrow> if rl_now r > number_at (ha_doc t) ''expires_at'' \<or> \<not> text_is m ''status'' (units_of ''exited'')
        then apfst Some (not_released a r w0) else apfst Some (with_ack sha t m r w0)
    | None \<Rightarrow> apfst Some (not_released None r w0))"
    using assms c unfolding handoff_finish_def f a option.case Let_def w0_def [symmetric] by simp
  have n: "fst (not_released b r w0) \<noteq> HGranted g" for b by (simp add: not_released_def Let_def)
  then obtain m where m: "a = Some m" "rl_now r \<le> number_at (ha_doc t) ''expires_at''" "text_is m ''status'' (units_of ''exited'')"
    and k: "with_ack sha t m r w0 = (HGranted g, w')"
    using e by (cases a; cases "with_ack sha t (the a) r w0") (auto simp: apfst_def map_prod_def split: if_splits prod.splits, (metis fst_conv)+)
  from k obtain rows where rows: "rl_rows r = Some rows" by (auto simp: with_ack_def split: option.splits)
  have s: "cw_session w0 = cw_session w" by (simp add: w0_def)
  from k have "same_custody sha t (cw_session w) rows" "\<not> rl_unsettled r" "handoff_commit sha t m r w0 = (HGranted g, w')"
    "\<not> (ha_policy t \<noteq> units_of ''empty'' \<and> consents_to sha (cw_session w) (ha_epoch t) (ha_owner_generation t) rows \<and> bodyDigest sha (Some (DArr rows)) = None)"
    by (auto simp: with_ack_def rows s Let_def split: if_splits)
  moreover have "t \<in> set (cw_attempts w)" "ha_intent t = n" using f by (auto simp: find_Some_iff)
  ultimately show ?thesis using that [of t m rows w0] a m c' rows by (auto simp: w0_def same_custody_def split: if_splits)
qed

text \<open>The whole authority has moved: to a new epoch whose bearer is the only one left for the session.\<close>

definition handed_over :: "(units \<Rightarrow> units) \<Rightarrow> release_facts \<Rightarrow> int \<Rightarrow> handoff_world \<Rightarrow> handoff_world \<Rightarrow> bool" where
  "handed_over sha r generation w w' \<longleftrightarrow> hs_epoch (cw_session w') = rl_epoch r \<and> hs_generation (cw_session w') = Some (generation + 1)
     \<and> hs_owner_ws (cw_session w') = None \<and> hs_owner_generation (cw_session w') = None \<and> \<not> hs_ready (cw_session w')
     \<and> cw_stored w' = cw_session w' \<and> \<not> activeHandoff (cw_session w') \<and> jm_get (cw_nonces w') (cw_id w) = Some (rl_nonce r)
     \<and> verify_bearer sha (cw_credentials w') (release_bearer r) = Some (cw_id w, rl_epoch r, generation + 1)
     \<and> (\<forall>b e g. verify_bearer sha (cw_credentials w') b = Some (cw_id w, e, g) \<longrightarrow> e = rl_epoch r)"

definition fresh_release :: "(units \<Rightarrow> units) \<Rightarrow> release_facts \<Rightarrow> bool" where
  "fresh_release sha r \<longleftrightarrow> rl_epoch r \<noteq> [] \<and> 46 \<notin> set (rl_epoch r) \<and> rl_secret r \<noteq> [] \<and> sha (release_bearer r) \<noteq> []"

lemma commit_hands_over:
  assumes "handoff_commit sha t m r w = (HGranted g, w')" and f: "fresh_release sha r" and sid: "cw_id w \<noteq> []" and gen: "ha_generation t + 1 \<noteq> 0"
  shows "handed_over sha r (ha_generation t) w w' \<and> hg_token g = release_bearer r"
proof -
  have p: "rl_first r = Persisted" using assms(1) by (cases "rl_first r") (auto simp: handoff_commit_def Let_def)
  have fr: "rl_epoch r \<noteq> []" "46 \<notin> set (rl_epoch r)" "rl_secret r \<noteq> []" "sha (rl_epoch r @ [46] @ rl_secret r) \<noteq> []"
    using f by (simp_all add: fresh_release_def release_bearer_def)
  have cr: "cw_credentials w' = jm_set (rl_epoch r) \<lparr>cr_sid = cw_id w, cr_verifier = sha (rl_epoch r @ [46] @ rl_secret r), cr_generation = ha_generation t + 1\<rparr>
      (snd (revoke (cw_id w) (cw_credentials w)))"
    using assms(1) f sid gen by (auto simp: handoff_commit_def p Let_def released_def adopt_def verifierFor_def fresh_release_def release_bearer_def)
  note v = reissued [where sha = sha, OF fr cr]
  have s: "hs_epoch (cw_session w') = rl_epoch r" "hs_generation (cw_session w') = Some (ha_generation t + 1)" "hs_owner_ws (cw_session w') = None"
    "hs_owner_generation (cw_session w') = None" "\<not> hs_ready (cw_session w')" "cw_stored w' = cw_session w'" "\<not> activeHandoff (cw_session w')"
    "jm_get (cw_nonces w') (cw_id w) = Some (rl_nonce r)" "hg_token g = release_bearer r"
    using assms(1) by (auto simp: handoff_commit_def p Let_def released_def activeHandoff_def committed_state)
  have "\<forall>b e g. verify_bearer sha (cw_credentials w') b = Some (cw_id w, e, g) \<longrightarrow> e = rl_epoch r" using v(2) by blast
  moreover have "verify_bearer sha (cw_credentials w') (release_bearer r) = Some (cw_id w, rl_epoch r, ha_generation t + 1)"
    unfolding release_bearer_def by (rule v(1))
  ultimately show ?thesis using s unfolding handed_over_def by blast
qed

lemma same_digest:
  assumes "same_custody sha t s rows" and "ha_policy t \<noteq> units_of ''empty'' \<Longrightarrow> bodyDigest sha (Some (DArr rows)) \<noteq> None" and "begun sha i w captured t"
  shows "bodyDigest sha (Some (DArr rows)) = bodyDigest sha (Some (DArr captured))"
proof (cases "ha_policy t = units_of ''empty''")
  case True
  have "captureCustody sha (cw_session w) (ha_policy t) (hi_unsettled i) (hi_rows i) = Some captured"
    using assms(3) unfolding begun_def by metis
  then have "captured = []" unfolding captureCustody_def True by (simp split: if_splits option.splits)
  then show ?thesis using assms(1) True by (simp add: same_custody_def)
next
  case False
  have d: "jm_get (snapshotReceipt sha x) (units_of ''pending_digest'') = Some (row_digest sha (DArr x))" for x
    by (simp add: snapshotReceipt_def inj_eq [OF inj_units_of])
  have "row_digest sha (DArr rows) = row_digest sha (DArr captured)"
    using assms(1,3) False by (simp add: same_custody_def begun_def d)
  then show ?thesis using assms(2) [OF False] assms(3) by (auto simp: row_digest_def begun_def)
qed


section \<open>A session that is released\<close>

definition sample_uuid :: units where
  "sample_uuid = units_of ''0a1b2c3d-0000-4000-8000-00000000000f''"

definition held_session :: handoff_session where
  "held_session = \<lparr>hs_id = units_of ''s1'', hs_type = units_of ''wrapped'', hs_capable = True, hs_ssh_remote = False, hs_closing = False,
     hs_external_policy = False, hs_provenance_capable = False, hs_owner = Some (units_of ''alice'', units_of ''m''), hs_owner_ws = Some 7,
     hs_ws_open = True, hs_strict_connected = True, hs_epoch = replicate 22 65, hs_generation = Some 3, hs_owner_generation = Some sample_uuid,
     hs_verifier = [], hs_nonce = [], hs_epoch_proved = None, hs_owner_token = None, hs_owner_pid = None, hs_pty_pid = None, hs_ready = True,
     hs_capability = None, hs_handoff = None, hs_audit = []\<rparr>"

definition held_bearer :: units where
  "held_bearer = replicate 22 65 @ [46, 66]"

definition held_world :: handoff_world where
  "held_world = \<lparr>cw_id = units_of ''s1'', cw_object = 0, cw_session = held_session, cw_stored = held_session,
     cw_credentials = [(replicate 22 65, \<lparr>cr_sid = units_of ''s1'', cr_verifier = sample_sha held_bearer, cr_generation = 3\<rparr>)],
     cw_nonces = [], cw_pending = None, cw_attempts = [], cw_serial = 1\<rparr>"

definition release_request :: handoff_input where
  "release_request = \<lparr>hi_principal = Some \<lparr>pr_id = units_of ''alice'', pr_key_id = units_of ''k'', pr_operator = False, pr_audience = units_of ''m''\<rparr>,
     hi_exists = True, hi_body = Some (DObj [(units_of ''intent_id'', DStr sample_uuid), (units_of ''expected_epoch'', DStr (replicate 22 65)),
       (units_of ''credential_generation'', DInt 3), (units_of ''owner_generation'', DStr sample_uuid)]),
     hi_bearer = Some held_bearer, hi_unsettled = False, hi_rows = Some [], hi_at = 100, hi_late = 100, hi_persist = Persisted, hi_send_ok = True\<rparr>"

definition exit_ack :: jdoc where
  "exit_ack = DObj [(units_of ''intent_id'', DStr sample_uuid), (units_of ''session_epoch'', DStr (replicate 22 65)),
     (units_of ''owner_generation'', DStr sample_uuid), (units_of ''credential_generation'', DInt 3), (units_of ''status'', DStr (units_of ''exited'')),
     (units_of ''exit_code'', DInt 0), (units_of ''exit_signal'', DNull)]"

definition sample_release :: release_facts where
  "sample_release = \<lparr>rl_now = 200, rl_done = 200, rl_unsettled = False, rl_rows = Some [], rl_epoch = replicate 22 67, rl_secret = [68],
     rl_nonce = [69], rl_first = Persisted, rl_second = Persisted\<rparr>"

definition released_run :: "handoff_reply option \<times> handoff_world" where
  "released_run = handoff_finish sample_sha 1 sample_release
     (handoff_run sample_sha [Begin release_request, Ack (Some 7) exit_ack 150] held_world)"


definition timed_out_run :: "handoff_reply option \<times> handoff_world" where
  "timed_out_run = handoff_finish sample_sha 1 sample_release (handoff_run sample_sha [Begin release_request, TimeOut 1] held_world)"

definition later_ops :: "handoff_op list" where
  "later_ops = [Ack (Some 7) exit_ack 160, Finish 1 sample_release, Restart, Begin release_request]"

theorem unknown_outcome_stays_fenced_witness:
  "activeHandoff (cw_session (handoff_run sample_sha later_ops (snd timed_out_run)))"
proof -
  have "(case fst timed_out_run of Some (HDeniedWith n c d) \<Rightarrow> True | _ \<Rightarrow> False)" by code_simp
  then obtain n c d where "fst timed_out_run = Some (HDeniedWith n c d)"
    by (auto split: option.splits handoff_reply.splits)
  then obtain w' where r: "timed_out_run = (Some (HDeniedWith n c d), w')" by (metis prod.collapse)
  have "activeHandoff (cw_session (snd timed_out_run))" "activeHandoff (cw_stored (snd timed_out_run))" "list_all (\<lambda>x. \<not> replaces x) later_ops"
    by code_simp+
  with unknown_outcome_stays_fenced [OF r [unfolded timed_out_run_def]] show ?thesis unfolding r by simp
qed

end
