(* ===== verification/Handoff_Dispatch.thy ===== *)
theory Handoff_Dispatch
  imports Cooperative_Handoff
begin

text \<open>
  The delivery of a transferred message, in the deliverer of \<open>src/mailbox/session-delivery.js\<close>:
  the message is marked as started in the hand-over and in its audit row, that is stored, and only
  then is the owner asked to write it. The proofs follow the writer on the owner's side and the
  daemon through restarts.
\<close>

section \<open>The deliverer\<close>

definition update_first :: "('a \<Rightarrow> bool) \<Rightarrow> ('a \<Rightarrow> 'a) \<Rightarrow> 'a list \<Rightarrow> 'a list" where
  "update_first P f xs = takeWhile (\<lambda>x. \<not> P x) xs @ (case dropWhile (\<lambda>x. \<not> P x) xs of [] \<Rightarrow> [] | y # ys \<Rightarrow> f y # ys)"

definition marked_list :: "jdoc \<Rightarrow> string \<Rightarrow> jdoc \<Rightarrow> jdoc" where
  "marked_list e field mid = DArr (list_at e field @ [mid])"

text \<open>
  The hand-over object with serial \<open>n\<close> and intent \<open>i\<close> is marked where it is, and the audit row of
  that intent with the same list.
\<close>

definition mark_event :: "string \<Rightarrow> nat \<Rightarrow> jdoc option \<Rightarrow> jdoc \<Rightarrow> handoff_session \<Rightarrow> handoff_session" where
  "mark_event field n i mid s =
     (let marked = Option.bind (hs_handoff s) (\<lambda>h. if hd_serial h = n then Some (marked_list (hd_doc h) field mid) else None) in
      s\<lparr>hs_handoff := map_option (\<lambda>h. case marked of None \<Rightarrow> h | Some l \<Rightarrow> h\<lparr>hd_doc := doc_set (hd_doc h) field l\<rparr>) (hs_handoff s),
        hs_audit := update_first (\<lambda>r. member r ''id'' = i)
          (\<lambda>r. doc_set r field (case marked of None \<Rightarrow> marked_list r field mid | Some l \<Rightarrow> l)) (hs_audit s)\<rparr>)"

record dispatch_world =
  dw_session :: handoff_session
  dw_stored :: handoff_session
  dw_writes :: write_state

datatype dispatch_reply = DispatchOrdinary | DispatchDenied string | DispatchAnswered write_result | DispatchAsked units

definition transferred_from_elsewhere :: "handoff_session \<Rightarrow> jdoc \<Rightarrow> bool" where
  "transferred_from_elsewhere s m \<longleftrightarrow> (case member m ''cooperative_handoff'' of None \<Rightarrow> False
     | Some c \<Rightarrow> doc_truthy (Some c) \<and> \<not> text_is c ''origin_epoch'' (hs_epoch s))"

text \<open>\<open>old_target\<close>: whether a recorded injection target is this session, and its epoch.\<close>

definition dispatch_begin :: "(units \<Rightarrow> units) \<Rightarrow> jdoc \<Rightarrow> (bool \<times> units) option \<Rightarrow> persist_outcome \<Rightarrow> units \<Rightarrow> int \<Rightarrow> bool
    \<Rightarrow> dispatch_world \<Rightarrow> dispatch_reply \<times> dispatch_world" where
  "dispatch_begin sha m old_target result rid now send_ok w =
     (let s = dw_session w in
      if \<not> transferred_from_elsewhere s m then (DispatchOrdinary, w)
      else case transferredRecord sha s m of None \<Rightarrow> (DispatchDenied ''HANDOFF_DISPATCH_UNKNOWN'', w)
      | Some e \<Rightarrow>
        if sub_doc m ''msg_id'' \<in> set (list_at e ''pending_dispatch_started'') then (DispatchDenied ''HANDOFF_DISPATCH_UNKNOWN'', w)
        else if (case old_target of None \<Rightarrow> False | Some (same, epoch) \<Rightarrow> \<not> same \<or> \<not> text_is e ''epoch'' epoch)
        then (DispatchDenied ''HANDOFF_BINDING_CHANGED'', w)
        else let s' = mark_event ''pending_dispatch_started'' (hd_serial (the (hs_handoff s))) (member e ''id'') (sub_doc m ''msg_id'') s in
          case result of
            NotPersisted \<Rightarrow> (DispatchDenied ''HANDOFF_DISPATCH_STORE_UNAVAILABLE'', w)
          | PersistedUnsure \<Rightarrow> (DispatchDenied ''HANDOFF_DISPATCH_STORE_UNAVAILABLE'', w\<lparr>dw_session := s', dw_stored := s'\<rparr>)
          | Persisted \<Rightarrow> (case requestPendingWrite sha s' m rid now 3000 send_ok (dw_writes w) of
               (Inl r, st) \<Rightarrow> (DispatchAnswered r, w\<lparr>dw_session := s', dw_stored := s', dw_writes := st\<rparr>)
             | (Inr q, st) \<Rightarrow> (DispatchAsked q, w\<lparr>dw_session := s', dw_stored := s', dw_writes := st\<rparr>)))"

text \<open>The rest, when the promise of the write has been resolved; \<open>n\<close> and \<open>i\<close> are the hand-over it was asked under.\<close>

definition dispatch_end :: "write_result \<Rightarrow> nat \<Rightarrow> jdoc option \<Rightarrow> jdoc \<Rightarrow> persist_outcome \<Rightarrow> dispatch_world \<Rightarrow> dispatch_reply \<times> dispatch_world" where
  "dispatch_end answer n i m result w = (case answer of
       WriteUnknown code \<Rightarrow> (DispatchAnswered answer, w)
     | WriteInvoked rid bytes \<Rightarrow>
       let s' = mark_event ''pending_write_invoked'' n i (sub_doc m ''msg_id'') (dw_session w) in
       case result of
         NotPersisted \<Rightarrow> (DispatchDenied ''HANDOFF_RECEIPT_STORE_UNAVAILABLE'', w)
       | PersistedUnsure \<Rightarrow> (DispatchDenied ''HANDOFF_RECEIPT_STORE_UNAVAILABLE'', w\<lparr>dw_session := s', dw_stored := s'\<rparr>)
       | Persisted \<Rightarrow> (DispatchAnswered answer, w\<lparr>dw_session := s', dw_stored := s'\<rparr>))"

section \<open>The writer writes a message once\<close>

definition new_pending_writer :: pending_writer where
  "new_pending_writer = \<lparr>pw_receipts = [], pw_written = []\<rparr>"

definition pending_run :: "(units \<Rightarrow> units) \<Rightarrow> (jdoc \<times> writer_env) list \<Rightarrow> pending_writer \<Rightarrow> pending_writer" where
  "pending_run sha calls w = fold (\<lambda>(f, env). snd \<circ> pending_write sha f env) calls w"

definition write_justified :: "(units \<Rightarrow> units) \<Rightarrow> units \<times> units \<Rightarrow> jdoc \<times> writer_env \<Rightarrow> bool" where
  "write_justified sha p c \<longleftrightarrow> frame_admissible sha (fst c) (snd c) \<and> string_at (fst c) ''msg_id'' = fst p \<and> string_at (fst c) ''data'' = snd p
     \<and> we_can_write (snd c) \<and> we_late_now (snd c) < number_at (fst c) ''deadline'' \<and> we_final_binding (snd c) = we_binding (snd c)"

definition pending_inv :: "pending_writer \<Rightarrow> bool" where
  "pending_inv w \<longleftrightarrow> distinct (map fst (pw_written w)) \<and> length (pw_receipts w) \<le> MAX_PENDING
     \<and> set (map fst (pw_written w)) \<subseteq> set (map fst (pw_receipts w))"

lemma pending_cases:
  obtains "snd (pending_write sha f env w) = w"
  | x where "jm_get (pw_receipts w) (string_at f ''msg_id'') = None" "length (pw_receipts w) < MAX_PENDING"
      "snd (pending_write sha f env w) = w\<lparr>pw_receipts := jm_set (string_at f ''msg_id'') x (pw_receipts w)\<rparr>"
  | x where "jm_get (pw_receipts w) (string_at f ''msg_id'') = None" "length (pw_receipts w) < MAX_PENDING"
      "snd (pending_write sha f env w) = w\<lparr>pw_receipts := jm_set (string_at f ''msg_id'') x (pw_receipts w),
         pw_written := pw_written w @ [(string_at f ''msg_id'', string_at f ''data'')]\<rparr>"
      "write_justified sha (string_at f ''msg_id'', string_at f ''data'') (f, env)"
proof (cases "frame_admissible sha f env \<and> bodyDigest sha (Some f) \<noteq> None \<and> jm_get (pw_receipts w) (string_at f ''msg_id'') = None
    \<and> length (pw_receipts w) < MAX_PENDING")
  case False
  then have "snd (pending_write sha f env w) = w"
    by (auto simp: pending_write_def Let_def split: option.splits prod.splits)
  then show ?thesis using that(1) by simp
next
  case True
  then obtain h where h: "bodyDigest sha (Some f) = Some h" by auto
  show ?thesis
  proof (cases "\<not> we_can_write env \<or> we_late_now env \<ge> number_at f ''deadline'' \<or> we_final_binding env \<noteq> we_binding env")
    case no: True
    then show ?thesis using that(2) True by (simp add: pending_write_def h Let_def)
  next
    case yes: False
    then have "write_justified sha (string_at f ''msg_id'', string_at f ''data'') (f, env)" using True by (simp add: write_justified_def)
    then show ?thesis using that(3) True yes by (simp add: pending_write_def h Let_def)
  qed
qed

lemma jm_set_new: "jm_get m k = None \<Longrightarrow> jm_set k v m = m @ [(k, v)]"
  by (induction m) (auto split: if_splits)

lemma pending_step:
  assumes "pending_inv w"
  shows "pending_inv (snd (pending_write sha f env w))"
proof -
  have n: "string_at f ''msg_id'' \<notin> set (map fst (pw_receipts w))" if "jm_get (pw_receipts w) (string_at f ''msg_id'') = None"
    using that by (simp add: map_of_eq_None_iff)
  show ?thesis
    by (rule pending_cases [of sha f env w]) (use assms n in \<open>auto simp: pending_inv_def jm_set_new\<close>)
qed

interpretation pending_writers: op_machine "\<lambda>(f, env). snd \<circ> pending_write sha f env" "\<lambda>x. True" pending_inv for sha
  by unfold_locales (auto simp: pending_step)

lemma write_justified_later: "list_all (\<lambda>p. list_ex (write_justified sha p) cs) ps \<Longrightarrow> list_all (\<lambda>p. list_ex (write_justified sha p) (cs @ ds)) ps"
  by (auto simp: list_all_iff)

lemma written_justified:
  "list_all (\<lambda>p. list_ex (write_justified sha p) calls) (pw_written (pending_run sha calls new_pending_writer))"
proof (induction calls rule: rev_induct)
  case (snoc c cs)
  obtain f env where c: "c = (f, env)" by (cases c)
  have r: "pending_run sha (cs @ [c]) new_pending_writer = snd (pending_write sha f env (pending_run sha cs new_pending_writer))"
    by (simp add: pending_run_def c)
  show ?case unfolding r
    by (rule pending_cases [of sha f env "pending_run sha cs new_pending_writer"])
      (use write_justified_later [OF snoc, of "[c]"] in \<open>simp_all add: c\<close>)
qed (simp add: pending_run_def new_pending_writer_def)

text \<open>
  C12. The writer next to the child process writes a transferred message at most once, and at most
  eight of them, whatever frames it is sent, repeated, altered or for other sessions; and what it
  writes is the data of a frame it was sent for that message, whose digest is right and whose
  deadline had not passed, to the same child, owner and input that the frame was admitted for.
\<close>

theorem transferred_messages_written_once:
  "distinct (map fst (pw_written (pending_run sha calls new_pending_writer)))
     \<and> length (pw_written (pending_run sha calls new_pending_writer)) \<le> MAX_PENDING
     \<and> list_all (\<lambda>p. list_ex (write_justified sha p) calls) (pw_written (pending_run sha calls new_pending_writer))"
proof -
  let ?w = "pending_run sha calls new_pending_writer"
  have "pending_inv new_pending_writer" by (simp add: pending_inv_def new_pending_writer_def)
  then have i: "pending_inv ?w" unfolding pending_run_def by (intro pending_writers.run_keeps) (simp_all add: list_all_iff)
  have "length (pw_written ?w) = card (set (map fst (pw_written ?w)))"
    using distinct_card [of "map fst (pw_written ?w)"] i unfolding pending_inv_def by simp
  also have "\<dots> \<le> card (set (map fst (pw_receipts ?w)))" using i by (intro card_mono) (auto simp: pending_inv_def)
  also have "\<dots> \<le> length (pw_receipts ?w)" using card_length [of "map fst (pw_receipts ?w)"] by simp
  finally show ?thesis using i written_justified [of sha calls] by (simp add: pending_inv_def)
qed

section \<open>The daemon asks for a message once\<close>

datatype dispatch_op =
    Dispatch jdoc "(bool \<times> units) option" persist_outcome units int bool
  | Settled write_result nat "jdoc option" jdoc persist_outcome
  | Writes write_state
  | Elsewhere handoff_session
  | Store
  | Reboot handoff_session nat

fun dispatch_step :: "(units \<Rightarrow> units) \<Rightarrow> dispatch_op \<Rightarrow> dispatch_world \<Rightarrow> dispatch_reply \<times> dispatch_world" where
  "dispatch_step sha (Dispatch m t p rid now ok) w = dispatch_begin sha m t p rid now ok w"
| "dispatch_step sha (Settled a n i m p) w = dispatch_end a n i m p w"
| "dispatch_step sha (Writes st) w = (DispatchOrdinary, w\<lparr>dw_writes := st\<rparr>)"
| "dispatch_step sha (Elsewhere s) w = (DispatchOrdinary, w\<lparr>dw_session := s\<lparr>hs_handoff := hs_handoff (dw_session w), hs_audit := hs_audit (dw_session w)\<rparr>\<rparr>)"
| "dispatch_step sha Store w = (DispatchOrdinary, w\<lparr>dw_stored := dw_session w\<rparr>)"
| "dispatch_step sha (Reboot s n) w = (DispatchOrdinary, let stored = dw_stored w in
     case restoreHandoffRecord sha (hs_capable stored) (map_option hd_doc (hs_handoff stored)) (Some (DArr (hs_audit stored))) (hs_epoch stored) (hs_generation stored) of
       (capable, h, audit) \<Rightarrow> w\<lparr>dw_session := s\<lparr>hs_capable := capable, hs_handoff := map_option (\<lambda>d. \<lparr>hd_serial = n, hd_doc = d\<rparr>) h,
         hs_audit := (case audit of None \<Rightarrow> [] | Some rows \<Rightarrow> rows)\<rparr>,
         dw_writes := \<lparr>ws_attempts = [], ws_proofs = [], ws_resolved = []\<rparr>\<rparr>)"

fun asked_ids :: "(units \<Rightarrow> units) \<Rightarrow> dispatch_op list \<Rightarrow> dispatch_world \<Rightarrow> jdoc list" where
  "asked_ids sha [] w = []"
| "asked_ids sha (x # xs) w = (case dispatch_step sha x w of (r, w') \<Rightarrow>
     (case (x, r) of (Dispatch m t p rid now ok, DispatchAsked q) \<Rightarrow> [sub_doc m ''msg_id''] | _ \<Rightarrow> []) @ asked_ids sha xs w')"

text \<open>A message is out of reach: no committed hand-over of the session, or it is marked as started there.\<close>

definition out_of_reach :: "jdoc \<Rightarrow> handoff_session \<Rightarrow> bool" where
  "out_of_reach x s \<longleftrightarrow> (case hs_handoff s of None \<Rightarrow> True | Some h \<Rightarrow>
     \<not> text_is (hd_doc h) ''state'' (units_of ''committed'') \<or> x \<in> set (list_at (hd_doc h) ''pending_dispatch_started''))"

definition settled_id :: "jdoc \<Rightarrow> dispatch_world \<Rightarrow> bool" where
  "settled_id x w \<longleftrightarrow> out_of_reach x (dw_session w) \<and> out_of_reach x (dw_stored w)"

lemma member_marked: "member (doc_set d k v) k' = (if k' = k then Some v else member d k')"
  by (cases d) (auto simp: doc_set_def member_def inj_eq [OF inj_units_of])

lemma mark_event_reach:
  assumes "out_of_reach x s"
  shows "out_of_reach x (mark_event field n i mid s)"
  using assms
  by (cases "field = ''state''"; cases "hs_handoff s")
    (auto simp: out_of_reach_def mark_event_def Let_def text_is_def list_at_def member_marked marked_list_def doc_items_def)

lemma started_out_of_reach:
  assumes "hs_handoff s = Some h"
  shows "out_of_reach mid (mark_event ''pending_dispatch_started'' (hd_serial h) i mid s)"
  using assms by (simp add: out_of_reach_def mark_event_def Let_def member_marked list_at_def marked_list_def doc_items_def)

lemma asked_begin:
  assumes "dispatch_begin sha m t p rid now ok w = (DispatchAsked q, w')"
  shows "\<not> out_of_reach (sub_doc m ''msg_id'') (dw_session w) \<and> settled_id (sub_doc m ''msg_id'') w'"
proof -
  from assms obtain e where e: "transferredRecord sha (dw_session w) m = Some e"
    and new: "sub_doc m ''msg_id'' \<notin> set (list_at e ''pending_dispatch_started'')"
    by (auto simp: dispatch_begin_def Let_def split: if_splits option.splits)
  from e obtain h where h: "hs_handoff (dw_session w) = Some h" "hd_doc h = e" "text_is e ''state'' (units_of ''committed'')"
    by (auto simp: transferredRecord_def Let_def split: option.splits if_splits)
  let ?s = "mark_event ''pending_dispatch_started'' (hd_serial h) (member e ''id'') (sub_doc m ''msg_id'') (dw_session w)"
  have "dw_session w' = ?s \<and> dw_stored w' = ?s"
    using assms e h(1) by (auto simp: dispatch_begin_def Let_def split: if_splits option.splits persist_outcome.splits prod.splits sum.splits)
  then show ?thesis using started_out_of_reach [OF h(1)] new h by (simp add: settled_id_def out_of_reach_def)
qed

lemma begin_settled:
  assumes "settled_id x w"
  shows "settled_id x (snd (dispatch_begin sha m t p rid now ok w))"
  using assms mark_event_reach [of x "dw_session w"]
  by (auto simp: dispatch_begin_def settled_id_def Let_def split: option.split prod.split sum.split persist_outcome.split)

lemma end_settled:
  assumes "settled_id x w"
  shows "settled_id x (snd (dispatch_end a n i m p w))"
  using assms mark_event_reach [of x "dw_session w"]
  by (auto simp: dispatch_end_def settled_id_def Let_def split: write_result.split persist_outcome.split)

lemma restored_reach:
  assumes "out_of_reach x s"
  shows "out_of_reach x (s'\<lparr>hs_capable := b, hs_handoff := map_option (\<lambda>d. \<lparr>hd_serial = n, hd_doc = d\<rparr>)
     (fst (snd (restoreHandoffRecord sha c (map_option hd_doc (hs_handoff s)) audit e g))), hs_audit := as\<rparr>)"
proof -
  have i: "\<not> text_is invalid_handoff ''state'' (units_of ''committed'')" by code_simp
  show ?thesis using assms i
    by (auto simp: out_of_reach_def restoreHandoffRecord_def restoreHandoff_def Let_def split: option.splits jdoc.splits)
qed

lemma settled_step: "settled_id x w \<Longrightarrow> settled_id x (snd (dispatch_step sha op w))"
proof (cases op)
  case (Reboot s n)
  assume "settled_id x w"
  then show ?thesis using Reboot restored_reach [of x "dw_stored w"] by (auto simp: settled_id_def Let_def split: prod.split) (metis fst_conv snd_conv)
qed (auto simp: begin_settled end_settled, auto simp: settled_id_def out_of_reach_def)

lemma settled_never_asked: "settled_id x w \<Longrightarrow> x \<notin> set (asked_ids sha ops w)"
proof (induction ops arbitrary: w)
  case (Cons op ops)
  obtain r w' where s: "dispatch_step sha op w = (r, w')" by (cases "dispatch_step sha op w")
  then have w': "settled_id x w'" using settled_step [OF Cons.prems, of sha op] by simp
  have "x \<notin> set (case (op, r) of (Dispatch m t p rid now ok, DispatchAsked q) \<Rightarrow> [sub_doc m ''msg_id''] | _ \<Rightarrow> [])"
    using s asked_begin [of sha _ _ _ _ _ _ w _ w'] Cons.prems by (auto simp: settled_id_def split: dispatch_op.split dispatch_reply.split)
  then show ?case using Cons.IH [OF w'] by (simp add: s)
qed simp

text \<open>
  C11. Over any run of the daemon, with restarts at any moment, failing or doubtful writes of the
  store and any number of redeliveries by the mailbox, the owner is asked to write a transferred
  message at most once under one hand-over: the message is marked as started in memory and in the
  store before the owner is asked, and a marked message is refused from then on.
\<close>

theorem transferred_messages_asked_once:
  "distinct (asked_ids sha ops w)"
proof (induction ops arbitrary: w)
  case (Cons op ops)
  obtain r w' where s: "dispatch_step sha op w = (r, w')" by (cases "dispatch_step sha op w")
  have "sub_doc m ''msg_id'' \<notin> set (asked_ids sha ops w')" if "op = Dispatch m t p rid now ok" "r = DispatchAsked q" for m t p rid now ok q
    using settled_never_asked asked_begin [of sha m t p rid now ok w q w'] s that by simp
  then show ?case using Cons.IH [of w'] by (auto simp: s split: dispatch_op.split dispatch_reply.split)
qed simp

section \<open>One message\<close>

text \<open>A message that is offered, and asked for.\<close>

definition const_sha :: "units \<Rightarrow> units" where
  "const_sha t = replicate 64 97"

definition transfer_uuid :: units where
  "transfer_uuid = units_of ''0a1b2c3d-0000-4000-8000-00000000000f''"

definition text_fields :: "(string \<times> string) list \<Rightarrow> (units \<times> jdoc) list" where
  "text_fields ps = map (\<lambda>(k, v). (units_of k, DStr (units_of v))) ps"

definition transfer_consent :: jdoc where
  "transfer_consent = DObj (text_fields [(''schema'', ''telepty.pending-handoff-consent/v1''), (''sid'', ''s1''), (''origin_epoch'', replicate 22 CHR ''A'')]
     @ [(units_of ''origin_owner_generation'', DStr transfer_uuid), (units_of ''recipient'', DObj (text_fields [(''id'', ''alice''), (''audience'', ''m'')])),
        (units_of ''sender'', DObj (text_fields [(''id'', ''bob''), (''key_id'', ''k''), (''audience'', ''m''), (''source'', ''ed25519'')])),
        (units_of ''request_sha256'', DStr (const_sha [])), (units_of ''proof_sha256'', DStr (const_sha [])), (units_of ''message_sha256'', DStr (const_sha [])),
        (units_of ''inject_id'', DNull)])"

definition transferred_message :: jdoc where
  "transferred_message = DObj (text_fields [(''msg_id'', ''m1''), (''from'', ''bob''), (''to'', ''s1''), (''payload'', ''hi''), (''created_at'', ''t'')]
     @ [(units_of ''attempt'', DInt 0), (units_of ''cooperative_handoff'', transfer_consent)])"

definition transfer_record :: jdoc where
  "transfer_record = DObj (text_fields [(''id'', ''i1''), (''state'', ''committed''), (''epoch'', replicate 22 CHR ''A''), (''next_epoch'', replicate 22 CHR ''B''),
       (''pending_policy'', ''never-attempted'')]
     @ [(units_of ''owner_generation'', DStr transfer_uuid), (units_of ''pending_custody_schema'', DStr CUSTODY_SCHEMA), (units_of ''pending_count'', DInt 1),
        (units_of ''pending_digest'', DStr (const_sha [])),
        (units_of ''pending_records'', DArr [DObj [(units_of ''id'', DStr (units_of ''m1'')), (units_of ''digest'', DStr (const_sha []))]])])"

definition recipient_session :: handoff_session where
  "recipient_session = \<lparr>hs_id = units_of ''s1'', hs_type = units_of ''wrapped'', hs_capable = True, hs_ssh_remote = False, hs_closing = False,
     hs_external_policy = False, hs_provenance_capable = False, hs_owner = Some (units_of ''alice'', units_of ''m''), hs_owner_ws = Some 7,
     hs_ws_open = True, hs_strict_connected = True, hs_epoch = units_of (replicate 22 CHR ''B''), hs_generation = Some 4, hs_owner_generation = Some transfer_uuid,
     hs_verifier = [], hs_nonce = [], hs_epoch_proved = None, hs_owner_token = None, hs_owner_pid = None, hs_pty_pid = None, hs_ready = True,
     hs_capability = None, hs_handoff = Some \<lparr>hd_serial = 0, hd_doc = transfer_record\<rparr>, hs_audit = [transfer_record]\<rparr>"

lemma transfer_found: "transferredRecord const_sha recipient_session transferred_message = Some transfer_record"
  by code_simp

definition started_session :: handoff_session where
  "started_session = mark_event ''pending_dispatch_started'' 0 (member transfer_record ''id'') (DStr (units_of ''m1'')) recipient_session"

lemma transfer_found_again: "transferredRecord const_sha started_session transferred_message \<noteq> None"
  by code_simp

lemma transferred_message_asked:
  "fst (dispatch_begin const_sha transferred_message None Persisted [1] 0 True
     \<lparr>dw_session = recipient_session, dw_stored = recipient_session, dw_writes = \<lparr>ws_attempts = [], ws_proofs = [], ws_resolved = []\<rparr>\<rparr>)
   = DispatchAsked [1]"
proof -
  obtain e where e: "transferredRecord const_sha started_session transferred_message = Some e" using transfer_found_again by blast
  have m: "sub_doc transferred_message ''msg_id'' = DStr (units_of ''m1'')" "transferred_from_elsewhere recipient_session transferred_message"
    "list_at transfer_record ''pending_dispatch_started'' = []" by code_simp+
  have h: "hd_serial (the (hs_handoff recipient_session)) = 0" "hs_owner_ws started_session \<noteq> None" "hs_ws_open started_session" by code_simp+
  show ?thesis using e h by (simp add: dispatch_begin_def Let_def transfer_found m started_session_def [symmetric] requestPendingWrite_def)
qed

end
