(* ===== verification/Spec2Isabelle.thy ===== *)
theory Spec2Isabelle
  imports Mailbox_Handoff Mailbox_Lock Ledger_Checkpoint Ledger_Index Ledger_Reservations Session_Manager Completion Lifecycle Interaction_Writer Vt_Qualify
    Principal_Replay Principal_Http Session_Credentials Takeover_Laws Handoff_Laws Handoff_Dispatch
begin

text \<open>
  A verification library for telepty, the daemon that connects terminal sessions of coding
  agents: it injects text into a session, queues what cannot be injected yet, watches what the
  session prints, records what happened in a ledger, and lets principals with Ed25519 keys drive
  sessions and hand them over.

  \<^bold>\<open>The program's parts and how they meet.\<close>  A request enters through the HTTP or socket
  authorization (\<open>src/principal/http.js\<close>, on top of \<open>proof.js\<close> and \<open>encoding.js\<close>). A text for a
  session goes to the mailbox (\<open>src/mailbox/\<close>), whose delivery engine takes it out under the
  session's lock and hands it to a deliverer; the deliverer types it and then submits it
  (\<open>src/submit-gate.js\<close>), asking the state machine of the session (\<open>session-state.js\<close>) and its
  screen (\<open>src/vt/session-screen.js\<close>) what became of it (\<open>src/completion-observation.js\<close>). An answer
  to a prompt takes its own path (\<open>src/interaction.js\<close>), recorded in the ledger
  (\<open>src/session-store/ledger-format.js\<close>) before it is dispatched. A session changes hands by takeover
  of an idle mailbox (\<open>src/principal/takeover.js\<close>) or by cooperative release of a live one
  (\<open>cooperative-handoff.js\<close>, \<open>pending-handoff.js\<close>); both rest on the strict custody readers of the
  mailbox and end in new session credentials (\<open>session-credentials.js\<close>).

  \<^bold>\<open>What every component shares.\<close>  \<open>Js_Prelude\<close> has the JavaScript values and library calls
  (insertion-ordered maps as association lists, numbers, strings as UTF-16 code units), the
  \<open>named_theorems\<close> collections and the locales of runs (\<open>op_machine\<close>, \<open>step_machine\<close>) and of keyed
  tables; \<open>Js_Json\<close> JSON values with \<open>JSON.parse\<close> and \<open>JSON.stringify\<close>; \<open>Js_Regex\<close> an interpreter of
  regular expressions, so that a pattern of the source is a value; \<open>Js_Bytes\<close> UTF-8, base64url and
  percent encoding with their round trips; \<open>Js_Polling\<close> the bounded wait.

  \<^bold>\<open>Which theory models what.\<close>  Definitions keep the names of the source.

  \<^item> Mailbox. \<open>Mailbox_Store\<close>: \<open>config.js\<close>, \<open>storage.js\<close>, the files of a session as lists of rows.
    \<open>Mailbox_Custody\<close>: \<open>custody.js\<close>. \<open>Mailbox_Ops\<close>: every operation of \<open>FileMailbox\<close> in \<open>index.js\<close> as
    the list of its writes, so that a crash between two writes is a prefix. \<open>Mailbox_Delivery\<close>:
    \<open>delivery.js\<close>. \<open>Mailbox_Lock\<close>: \<open>lock.js\<close>, the bakery as an interleaving step relation. Laws:
    \<open>Mailbox_Laws\<close> (branches of the operations), \<open>Mailbox_Recovery\<close> (retry, fences),
    \<open>Mailbox_Compaction\<close> (compaction cannot be seen), \<open>Mailbox_Quarantine\<close> (at-most-once over a step
    system of interleaved, failing, crashing calls), \<open>Mailbox_Engine\<close> (the engine as written is a run
    of that system), \<open>Mailbox_Handoff\<close> (what the custody readers let through).
  \<^item> Ledger. \<open>Ledger_Records\<close>, \<open>Ledger_Views\<close> (projection of frames and its eager specification),
    \<open>Ledger_Frames\<close> (byte format, groups), \<open>Ledger_Index\<close>, \<open>Ledger_Accounting\<close> and
    \<open>Ledger_Reservations\<close> (admission): all of \<open>ledger-format.js\<close>.
  \<^item> Sessions. \<open>Session_State\<close>, \<open>Session_Observation\<close>: \<open>session-state.js\<close>, the machine and the
    vocabulary; \<open>Session_Laws\<close>, \<open>Session_Manager\<close> (one machine per session). \<open>Lifecycle\<close>:
    \<open>lifecycle.js\<close>. \<open>Submit_Gate\<close>, \<open>Submit_Laws\<close>: \<open>submit-gate.js\<close>. \<open>Completion\<close>:
    \<open>completion-observation.js\<close>.
  \<^item> Screen. \<open>Vt_Screen\<close>, \<open>Vt_Frame\<close>: \<open>src/vt/session-screen.js\<close>; \<open>Vt_Laws\<close>, \<open>Vt_Stream\<close>, \<open>Vt_Bounds\<close>,
    \<open>Vt_Qualify\<close>: what a frame may claim, over any run.
  \<^item> Interaction. \<open>Interaction_Request\<close>, \<open>Interaction_Core\<close>, \<open>Interaction_Writer\<close>: \<open>interaction.js\<close>;
    \<open>Interaction_Laws\<close>: at-most-once dispatch over interleavings and crashes.
  \<^item> Principals. \<open>Principal_Encoding\<close>: \<open>encoding.js\<close> (\<open>Principal_Canonical\<close>: parser and printer fit).
    \<open>Principal_Proof\<close>: \<open>proof.js\<close> (\<open>Principal_Replay\<close>: no proof twice; \<open>Principal_Assertion\<close>: signer and
    verifier fit). \<open>Principal_Http\<close>: \<open>http.js\<close>. \<open>Session_Credentials\<close>: \<open>session-credentials.js\<close>.
    \<open>Mailbox_Takeover\<close>: \<open>takeover.js\<close>, \<open>authority-audit.js\<close>, \<open>poll-session.js\<close>, with \<open>Takeover_Laws\<close>.
    \<open>Pending_Handoff\<close>: \<open>pending-handoff.js\<close>; \<open>Cooperative_Handoff\<close>: \<open>cooperative-handoff.js\<close>, with
    \<open>Handoff_Laws\<close>; \<open>Handoff_Dispatch\<close>: the branch of the deliverer in \<open>session-delivery.js\<close> that asks
    the new owner to write a transferred message.

  \<^bold>\<open>How code becomes definitions.\<close>  State is a record that operations return updated; a handler that
  awaits is cut at its \<open>await\<close>s, and what it captured before is a record of its own; objects that the
  source compares by identity carry a number. Errors, refusals and early returns are values. Random
  values, clock readings, outcomes of writes (done, done but not known to be durable, not done) and
  results of outside calls are inputs, one for each time the code asks. SHA-256, Ed25519, PEM keys, the
  printed form of a double and the terminal library are parameters; a theorem that needs something of
  them says so in a hypothesis.

  \<^bold>\<open>Bounds and fuel.\<close>  Recursion is structural or has a termination proof, except: repetition in
  \<open>Js_Regex\<close> has as fuel the length of the rest of the text, which is enough because an iteration that
  consumes nothing ends the loop; the parser and the canonical printer of \<open>Principal_Encoding\<close> count
  the 33 levels and 4096 nodes that the source itself counts and refuses beyond; polling loops run over
  the list of their rounds, which the deadline or the attempt limit of the source bounds
  (\<open>Submit_Laws\<close>). Integers of the source are unbounded \<open>int\<close> with the safe-integer guards
  written where the source has them; the shift in the retry backoff is the 32-bit one.

  \<^bold>\<open>Not modelled.\<close>  The daemon's and the client's wiring (\<open>daemon.js\<close>, \<open>cli.js\<close>, \<open>src/routes/\<close>,
  \<open>src/transport/\<close>, \<open>src/cli/\<close>), which is I/O around the parts above; the coordination of the
  deliverer's runtime (\<open>delivery-runtime.js\<close>, the rest of \<open>session-delivery.js\<close>); the ledger's owner
  process and its files (\<open>ledger-owner.js\<close>, \<open>ledger-client.js\<close>, \<open>persistence.js\<close>), of which only the
  formats and the projection are here; installation, service management, supervision and updates;
  terminal backends, cross-machine forwarding and the broker; audit logs and diagnostics; tests and
  scripts. Wall-clock timers are steps that may happen at any moment, so that nothing is proved about
  how long anything takes.
\<close>

end
